(* ===== verification/Prelude.thy ===== *)
theory Prelude
  imports Main "HOL-Library.Char_ord" "HOL-Library.Sublist" "HOL-Library.Word"
begin

text \<open>
  Shared model of the Rust standard library that the components use.

  A Rust \<open>&str\<close> or \<open>String\<close> is the list of its UTF-8 bytes (\<^typ>\<open>string\<close>, one \<^typ>\<open>char\<close> per
  byte), so \<open>len()\<close> is \<^const>\<open>length\<close>, \<open>as_bytes()\<close> is the identity, and comparisons with
  ASCII characters agree with the source's comparisons of code points (an ASCII byte never
  occurs inside a longer UTF-8 sequence). Unicode white space is recognised on the byte level
  by \<open>ws_len\<close>. Machine integers are words of their width; \<open>saturating_add\<close> and
  \<open>saturating_sub\<close> are written out.
\<close>

named_theorems rust_simps \<open>unfolding rules for the string helpers\<close>

type_synonym u8 = "8 word"
type_synonym u32 = "32 word"
type_synonym u64 = "64 word"

section \<open>ASCII classes\<close>

text \<open>The classes are read off the bits of the byte, so that closed terms evaluate quickly;
  the \<open>_iff\<close> lemmas state them as ranges.\<close>

fun is_ascii_uppercase :: "char \<Rightarrow> bool" where
  "is_ascii_uppercase (Char b0 b1 b2 b3 b4 b5 b6 b7) =
     (\<not> b7 \<and> b6 \<and> \<not> b5 \<and> (b0 \<or> b1 \<or> b2 \<or> b3 \<or> b4) \<and> \<not> (b4 \<and> b3 \<and> (b2 \<or> b1 \<and> b0)))"

fun is_ascii_lowercase :: "char \<Rightarrow> bool" where
  "is_ascii_lowercase (Char b0 b1 b2 b3 b4 b5 b6 b7) =
     (\<not> b7 \<and> b6 \<and> b5 \<and> (b0 \<or> b1 \<or> b2 \<or> b3 \<or> b4) \<and> \<not> (b4 \<and> b3 \<and> (b2 \<or> b1 \<and> b0)))"

fun is_ascii_digit :: "char \<Rightarrow> bool" where
  "is_ascii_digit (Char b0 b1 b2 b3 b4 b5 b6 b7) =
     (\<not> b7 \<and> \<not> b6 \<and> b5 \<and> b4 \<and> \<not> (b3 \<and> (b2 \<or> b1)))"

fun lower_char :: "char \<Rightarrow> char" where
  "lower_char (Char b0 b1 b2 b3 b4 b5 b6 b7) =
     (if is_ascii_uppercase (Char b0 b1 b2 b3 b4 b5 b6 b7)
      then Char b0 b1 b2 b3 b4 True b6 b7 else Char b0 b1 b2 b3 b4 b5 b6 b7)"

definition is_ascii_alphabetic :: "char \<Rightarrow> bool" where
  "is_ascii_alphabetic c \<longleftrightarrow> is_ascii_uppercase c \<or> is_ascii_lowercase c"

definition is_ascii_alphanumeric :: "char \<Rightarrow> bool" where
  "is_ascii_alphanumeric c \<longleftrightarrow> is_ascii_alphabetic c \<or> is_ascii_digit c"

lemma is_ascii_uppercase_iff: "is_ascii_uppercase c \<longleftrightarrow> (of_char c :: nat) \<in> {65..90}"
  by (cases c) (auto simp: of_char_Char split: if_splits)

lemma is_ascii_lowercase_iff: "is_ascii_lowercase c \<longleftrightarrow> (of_char c :: nat) \<in> {97..122}"
  by (cases c) (auto simp: of_char_Char split: if_splits)

lemma is_ascii_digit_iff: "is_ascii_digit c \<longleftrightarrow> (of_char c :: nat) \<in> {48..57}"
  by (cases c) (auto simp: of_char_Char split: if_splits)

lemma lower_char_upper: "is_ascii_uppercase c \<Longrightarrow> (of_char (lower_char c) :: nat) = of_char c + 32"
  by (cases c) (auto simp: of_char_Char split: if_splits)

lemma lower_char_idem [simp]: "lower_char (lower_char c) = lower_char c"
  by (cases c) auto

definition to_ascii_lowercase :: "string \<Rightarrow> string" where
  "to_ascii_lowercase s = map lower_char s"

lemma to_ascii_lowercase_idem [simp]: "to_ascii_lowercase (to_ascii_lowercase s) = to_ascii_lowercase s"
  by (simp add: to_ascii_lowercase_def)

lemma length_to_ascii_lowercase [simp]: "length (to_ascii_lowercase s) = length s"
  by (simp add: to_ascii_lowercase_def)

definition eq_ignore_ascii_case :: "string \<Rightarrow> string \<Rightarrow> bool" where
  "eq_ignore_ascii_case a b \<longleftrightarrow> to_ascii_lowercase a = to_ascii_lowercase b"

lemma eq_ignore_ascii_case_refl [simp]: "eq_ignore_ascii_case a a"
  by (simp add: eq_ignore_ascii_case_def)

lemma eq_ignore_ascii_case_sym: "eq_ignore_ascii_case a b \<longleftrightarrow> eq_ignore_ascii_case b a"
  by (auto simp: eq_ignore_ascii_case_def)

section \<open>White space, trimming and splitting\<close>

definition is_ascii_ws :: "char \<Rightarrow> bool" where
  "is_ascii_ws c \<longleftrightarrow> c = CHR 0x20 \<or> c = CHR 0x0A \<or> c = CHR 0x09 \<or> c = CHR 0x0D
     \<or> c = CHR 0x0B \<or> c = CHR 0x0C"

text \<open>
  The number of bytes of the white-space character (Rust's \<open>char::is_whitespace\<close>, the Unicode
  property \<open>White_Space\<close>) at the front of a string, 0 when the front is not white space:
  the six ASCII ones, U+0085, U+00A0, U+1680, U+2000 to U+200A, U+2028, U+2029, U+202F,
  U+205F and U+3000.
\<close>

definition ws3 :: "char \<Rightarrow> char \<Rightarrow> char \<Rightarrow> bool" where
  "ws3 c d e \<longleftrightarrow>
     (c = CHR 0xE1 \<and> d = CHR 0x9A \<and> e = CHR 0x80)
   \<or> (c = CHR 0xE2 \<and> d = CHR 0x80 \<and>
        e \<in> set [CHR 0x80, CHR 0x81, CHR 0x82, CHR 0x83, CHR 0x84, CHR 0x85, CHR 0x86, CHR 0x87,
                CHR 0x88, CHR 0x89, CHR 0x8A, CHR 0xA8, CHR 0xA9, CHR 0xAF])
   \<or> (c = CHR 0xE2 \<and> d = CHR 0x81 \<and> e = CHR 0x9F)
   \<or> (c = CHR 0xE3 \<and> d = CHR 0x80 \<and> e = CHR 0x80)"

definition ws2 :: "char \<Rightarrow> char \<Rightarrow> bool" where
  "ws2 c d \<longleftrightarrow> c = CHR 0xC2 \<and> (d = CHR 0x85 \<or> d = CHR 0xA0)"

fun ws_len :: "string \<Rightarrow> nat" where
  "ws_len [] = 0"
| "ws_len (c # cs) =
     (if is_ascii_ws c then 1
      else case cs of [] \<Rightarrow> 0
        | d # ds \<Rightarrow> if ws2 c d then 2
           else (case ds of [] \<Rightarrow> 0 | e # _ \<Rightarrow> if ws3 c d e then 3 else 0))"

text \<open>The same at the end of a string, read from its reversal.\<close>

fun ws_len_rev :: "string \<Rightarrow> nat" where
  "ws_len_rev [] = 0"
| "ws_len_rev (c # cs) =
     (if is_ascii_ws c then 1
      else case cs of [] \<Rightarrow> 0
        | d # ds \<Rightarrow> if ws2 d c then 2
           else (case ds of [] \<Rightarrow> 0 | e # _ \<Rightarrow> if ws3 e d c then 3 else 0))"

function strip_front :: "(string \<Rightarrow> nat) \<Rightarrow> string \<Rightarrow> string" where
  "strip_front f s = (if f s = 0 \<or> s = [] then s else strip_front f (drop (f s) s))"
  by pat_completeness auto
termination
  by (relation "measure (\<lambda>(f, s). length s)") auto

declare strip_front.simps [simp del]

definition trim_start :: "string \<Rightarrow> string" where
  "trim_start s = strip_front ws_len s"

definition trim_end :: "string \<Rightarrow> string" where
  "trim_end s = rev (strip_front ws_len_rev (rev s))"

definition trim :: "string \<Rightarrow> string" where
  "trim s = trim_end (trim_start s)"

function split_ws_from :: "string \<Rightarrow> string \<Rightarrow> string list" where
  "split_ws_from acc [] = (if acc = [] then [] else [acc])"
| "split_ws_from acc (c # cs) =
     (if ws_len (c # cs) = 0 then split_ws_from (acc @ [c]) cs
      else (if acc = [] then [] else [acc]) @ split_ws_from [] (drop (ws_len (c # cs) - 1) cs))"
  by pat_completeness auto
termination
  by (relation "measure (\<lambda>(acc, s). length s)") auto

definition split_whitespace :: "string \<Rightarrow> string list" where
  "split_whitespace s = split_ws_from [] s"

lemma split_ws_from_nonempty: "t \<in> set (split_ws_from acc s) \<Longrightarrow> t \<noteq> []"
  by (induction acc s rule: split_ws_from.induct) (auto split: if_splits)

lemma split_whitespace_nonempty [simp]: "t \<in> set (split_whitespace s) \<Longrightarrow> t \<noteq> []"
  by (auto simp: split_whitespace_def dest: split_ws_from_nonempty)

lemma strip_front_fixed: "f (strip_front f s) = 0 \<or> strip_front f s = []"
proof (induction f s rule: strip_front.induct)
  case (1 f s)
  then show ?case by (cases "f s = 0 \<or> s = []") (auto simp: strip_front.simps [of f s])
qed

lemma strip_front_suffix: "suffix (strip_front f s) s"
proof (induction f s rule: strip_front.induct)
  case (1 f s)
  show ?case
  proof (cases "f s = 0 \<or> s = []")
    case True
    then show ?thesis by (simp add: strip_front.simps [of f s])
  next
    case False
    with 1 have "suffix (strip_front f (drop (f s) s)) (drop (f s) s)" by simp
    then have "suffix (strip_front f (drop (f s) s)) s"
      using suffix_drop suffix_order.trans by blast
    with False show ?thesis by (simp add: strip_front.simps [of f s])
  qed
qed

lemma strip_front_nil [simp]: "strip_front f [] = []"
  by (simp add: strip_front.simps)

lemma trim_nil [simp]: "trim [] = []"
  by (simp add: trim_def trim_start_def trim_end_def)

lemma split_whitespace_nil [simp]: "split_whitespace [] = []"
  by (simp add: split_whitespace_def)

text \<open>Lowering changes no white space, and trimming changes no word.\<close>

lemma lower_char_fixed: "\<not> is_ascii_lowercase d \<Longrightarrow> \<not> is_ascii_uppercase d \<Longrightarrow> lower_char c = d \<longleftrightarrow> c = d"
  by (cases c; cases d) (auto split: if_splits)

lemma is_ascii_ws_lower [simp]: "is_ascii_ws (lower_char c) = is_ascii_ws c"
  by (simp add: is_ascii_ws_def lower_char_fixed)

lemma ws2_lower [simp]: "ws2 (lower_char c) (lower_char d) = ws2 c d"
  by (simp add: ws2_def lower_char_fixed)

lemma ws3_lower [simp]: "ws3 (lower_char c) (lower_char d) (lower_char e) = ws3 c d e"
  by (simp add: ws3_def lower_char_fixed)

lemma ws_len_lower [simp]: "ws_len (to_ascii_lowercase s) = ws_len s"
  by (cases s) (auto simp: to_ascii_lowercase_def split: list.splits)

lemma split_ws_from_lower:
  "split_ws_from (to_ascii_lowercase acc) (to_ascii_lowercase s) =
   map to_ascii_lowercase (split_ws_from acc s)"
proof (induction acc s rule: split_ws_from.induct)
  case (1 acc)
  show ?case by (simp add: to_ascii_lowercase_def)
next
  case (2 acc c cs)
  have "ws_len (lower_char c # map lower_char cs) = ws_len (c # cs)"
    using ws_len_lower [of "c # cs"] by (simp add: to_ascii_lowercase_def)
  with 2 show ?case by (auto simp: to_ascii_lowercase_def drop_map simp del: ws_len.simps)
qed

lemma split_whitespace_lower:
  "split_whitespace (to_ascii_lowercase s) = map to_ascii_lowercase (split_whitespace s)"
  using split_ws_from_lower [of "[]" s] by (simp add: split_whitespace_def to_ascii_lowercase_def)

lemma split_whitespace_drop_ws:
  "0 < ws_len s \<Longrightarrow> split_whitespace (drop (ws_len s) s) = split_whitespace s"
  by (cases s) (auto simp: split_whitespace_def drop_Cons' simp del: ws_len.simps)

lemma split_whitespace_strip_front: "split_whitespace (strip_front ws_len s) = split_whitespace s"
proof (induction "length s" arbitrary: s rule: less_induct)
  case less
  show ?case
  proof (cases "ws_len s = 0 \<or> s = []")
    case True
    then show ?thesis by (simp add: strip_front.simps [of ws_len s])
  next
    case False
    with less [of "drop (ws_len s) s"] split_whitespace_drop_ws [of s]
    show ?thesis by (simp add: strip_front.simps [of ws_len s])
  qed
qed

lemma split_whitespace_trim_start [simp]: "split_whitespace (trim_start s) = split_whitespace s"
  by (simp add: trim_start_def split_whitespace_strip_front)

text \<open>A whole white-space character \<open>w\<close>: its length is \<open>ws_len w\<close>.\<close>

definition is_ws_char :: "string \<Rightarrow> bool" where
  "is_ws_char w \<longleftrightarrow> w \<noteq> [] \<and> ws_len w = length w"

text \<open>UTF-8 continuation bytes: no white-space character starts with one, and the inner bytes of
  a white-space character are all of this kind.\<close>

fun is_cont :: "char \<Rightarrow> bool" where
  "is_cont (Char b0 b1 b2 b3 b4 b5 b6 b7) = (b7 \<and> \<not> b6)"

lemma ws2_cont: "ws2 c d \<Longrightarrow> \<not> is_cont c \<and> is_cont d"
  by (auto simp: ws2_def)

lemma ws3_cont: "ws3 c d e \<Longrightarrow> \<not> is_cont c \<and> is_cont d \<and> is_cont e"
  by (auto simp: ws3_def)

lemma is_ascii_ws_cont: "is_ascii_ws c \<Longrightarrow> \<not> is_cont c"
  by (auto simp: is_ascii_ws_def)

lemma ws_len_cont: "0 < ws_len (c # cs) \<Longrightarrow> \<not> is_cont c"
  by (auto dest: ws2_cont ws3_cont is_ascii_ws_cont split: list.splits if_splits)

lemma ws_len_append_no_cont:
  assumes "\<not> is_cont b" and "xs \<noteq> []"
  shows "ws_len (xs @ b # bs) = ws_len xs"
proof -
  have 2: "\<not> ws2 c b" and 3: "\<not> ws3 c b d" "\<not> ws3 c d b" for c d
    using assms(1) ws2_cont ws3_cont by blast+
  show ?thesis
  proof (cases xs)
    case Nil
    with assms(2) show ?thesis by simp
  next
    case c: (Cons c cs)
    show ?thesis
    proof (cases cs)
      case Nil
      with c 2 3 show ?thesis by (auto split: list.splits)
    next
      case d: (Cons d ds)
      with c 2 3 show ?thesis by (cases ds) auto
    qed
  qed
qed

lemma ws_len_append_ws_char: "is_ws_char w \<Longrightarrow> xs \<noteq> [] \<Longrightarrow> ws_len (xs @ w) = ws_len xs"
proof -
  assume w: "is_ws_char w" and xs: "xs \<noteq> []"
  then obtain b bs where b: "w = b # bs" "0 < ws_len (b # bs)"
    by (cases w) (auto simp: is_ws_char_def simp del: ws_len.simps)
  then show ?thesis using ws_len_append_no_cont [OF ws_len_cont xs] by blast
qed

lemma ws_len_le: "ws_len s \<le> length s"
  by (cases s) (auto split: list.splits)

lemma split_ws_from_append_ws_char:
  "is_ws_char w \<Longrightarrow> split_ws_from acc (s @ w) = split_ws_from acc s"
proof (induction acc s rule: split_ws_from.induct)
  case (1 acc)
  then show ?case by (cases w) (auto simp: is_ws_char_def simp del: ws_len.simps)
next
  case (2 acc c cs)
  have "ws_len (c # cs @ w) = ws_len (c # cs)"
    using ws_len_append_ws_char [OF "2.prems", of "c # cs"] by simp
  moreover have "ws_len (c # cs) - 1 - length cs = 0" using ws_len_le [of "c # cs"] by simp
  ultimately show ?case using 2 by (simp del: ws_len.simps)
qed

lemma ws_len_rev_char: "0 < ws_len_rev s \<Longrightarrow> is_ws_char (rev (take (ws_len_rev s) s))"
  by (cases s) (auto simp: is_ws_char_def is_ascii_ws_def ws2_def ws3_def split: list.splits if_splits)

lemma split_whitespace_trim_end [simp]: "split_whitespace (trim_end s) = split_whitespace s"
proof -
  have "split_whitespace (rev (strip_front ws_len_rev r)) = split_whitespace (rev r)" for r
  proof (induction "length r" arbitrary: r rule: less_induct)
    case less
    show ?case
    proof (cases "ws_len_rev r = 0 \<or> r = []")
      case True
      then show ?thesis by (simp add: strip_front.simps [of ws_len_rev r])
    next
      case False
      let ?w = "rev (take (ws_len_rev r) r)"
      have "rev r = rev (drop (ws_len_rev r) r) @ ?w"
        by (metis append_take_drop_id rev_append)
      then have "split_whitespace (rev r) = split_whitespace (rev (drop (ws_len_rev r) r))"
        using False ws_len_rev_char [of r] by (simp add: split_whitespace_def split_ws_from_append_ws_char)
      with False less [of "drop (ws_len_rev r) r"] show ?thesis
        by (simp add: strip_front.simps [of ws_len_rev r])
    qed
  qed
  from this [of "rev s"] show ?thesis by (simp add: trim_end_def)
qed

lemma split_whitespace_trim [simp]: "split_whitespace (trim s) = split_whitespace s"
  by (simp add: trim_def)

lemma split_ws_from_no_ws:
  "t \<in> set (split_ws_from acc s) \<Longrightarrow> \<forall>c \<in> set acc. \<not> is_ascii_ws c \<Longrightarrow> \<forall>c \<in> set t. \<not> is_ascii_ws c"
proof (induction acc s rule: split_ws_from.induct)
  case (1 acc)
  then show ?case by (auto split: if_splits)
next
  case (2 acc c cs)
  have "ws_len (c # cs) = 0 \<Longrightarrow> \<not> is_ascii_ws c" by auto
  with 2 show ?case by (auto split: if_splits simp del: ws_len.simps)
qed

lemma split_whitespace_no_ws: "t \<in> set (split_whitespace s) \<Longrightarrow> c \<in> set t \<Longrightarrow> \<not> is_ascii_ws c"
  using split_ws_from_no_ws [of t "[]" s] by (auto simp: split_whitespace_def)

section \<open>Substrings\<close>

definition starts_with :: "string \<Rightarrow> string \<Rightarrow> bool" where
  "starts_with s p \<longleftrightarrow> take (length p) s = p"

definition ends_with :: "string \<Rightarrow> string \<Rightarrow> bool" where
  "ends_with s p \<longleftrightarrow> length p \<le> length s \<and> drop (length s - length p) s = p"

definition strip_prefix :: "string \<Rightarrow> string \<Rightarrow> string option" where
  "strip_prefix s p = (if starts_with s p then Some (drop (length p) s) else None)"

definition strip_suffix :: "string \<Rightarrow> string \<Rightarrow> string option" where
  "strip_suffix s p = (if ends_with s p then Some (take (length s - length p) s) else None)"

lemma starts_with_prefix: "starts_with s p \<longleftrightarrow> prefix p s"
  unfolding starts_with_def by (metis append_eq_conv_conj prefix_def take_is_prefix)

lemma starts_with_append [simp]: "starts_with (p @ s) p"
  by (simp add: starts_with_def)

lemma strip_prefix_Some: "strip_prefix s p = Some r \<longleftrightarrow> s = p @ r"
  by (auto simp: strip_prefix_def starts_with_def) (metis append_take_drop_id)

fun contains :: "string \<Rightarrow> string \<Rightarrow> bool" where
  "contains s p = (starts_with s p \<or> (case s of [] \<Rightarrow> False | _ # r \<Rightarrow> contains r p))"

declare contains.simps [simp del]

text \<open>Rust's \<open>split\<close> on one ASCII character: always at least one piece.\<close>

fun split_char :: "char \<Rightarrow> string \<Rightarrow> string list" where
  "split_char d [] = [[]]"
| "split_char d (c # cs) =
     (if c = d then [] # split_char d cs
      else (case split_char d cs of [] \<Rightarrow> [[c]] | p # ps \<Rightarrow> (c # p) # ps))"

definition join :: "string \<Rightarrow> string list \<Rightarrow> string" where
  "join sep ps = (case ps of [] \<Rightarrow> [] | p # qs \<Rightarrow> p @ concat (map (\<lambda>q. sep @ q) qs))"

lemma split_char_nonempty [simp]: "split_char d s \<noteq> []"
  by (induction s) (auto split: list.splits)

lemma join_Cons_Cons: "join sep (p # q # ps) = p @ sep @ join sep (q # ps)"
  by (simp add: join_def)

lemma join_split_char: "join [d] (split_char d s) = s"
proof (induction s)
  case Nil
  show ?case by (simp add: join_def)
next
  case (Cons c s)
  obtain p ps where ps: "split_char d s = p # ps"
    using split_char_nonempty [of d s] by (cases "split_char d s") auto
  show ?case
  proof (cases "c = d")
    case True
    with ps Cons.IH show ?thesis by (simp add: join_def)
  next
    case False
    with ps Cons.IH show ?thesis by (simp add: join_def)
  qed
qed

lemma split_char_no_sep: "p \<in> set (split_char d s) \<Longrightarrow> d \<notin> set p"
  by (induction s arbitrary: p) (auto split: if_splits list.splits)

lemma split_char_join:
  "ps \<noteq> [] \<Longrightarrow> \<forall>p \<in> set ps. d \<notin> set p \<Longrightarrow> split_char d (join [d] ps) = ps"
proof (induction ps)
  case Nil
  then show ?case by simp
next
  case (Cons p ps)
  have piece: "d \<notin> set q \<Longrightarrow> split_char d (q @ d # r) = q # split_char d r" for q r
    by (induction q) auto
  have last: "d \<notin> set q \<Longrightarrow> split_char d q = [q]" for q
    by (induction q) auto
  show ?case
  proof (cases ps)
    case Nil
    with Cons.prems last show ?thesis by (simp add: join_def)
  next
    case (Cons q qs)
    with Cons.IH Cons.prems piece show ?thesis by (simp add: join_Cons_Cons)
  qed
qed

lemma split_char_append_sep: "split_char d (xs @ d # ys) = split_char d xs @ split_char d ys"
proof (induction xs)
  case Nil
  show ?case by simp
next
  case (Cons c xs)
  then show ?case using split_char_nonempty [of d xs] by (cases "split_char d xs") auto
qed

text \<open>Rust's \<open>split_once\<close> on a character.\<close>

fun split_once :: "char \<Rightarrow> string \<Rightarrow> (string \<times> string) option" where
  "split_once d [] = None"
| "split_once d (c # cs) =
     (if c = d then Some ([], cs) else map_option (\<lambda>(a, b). (c # a, b)) (split_once d cs))"

text \<open>Rust's \<open>split_once\<close> on a substring: the first occurrence.\<close>

fun split_once_str :: "string \<Rightarrow> string \<Rightarrow> (string \<times> string) option" where
  "split_once_str p [] = (if p = [] then Some ([], []) else None)"
| "split_once_str p (c # cs) =
     (if starts_with (c # cs) p then Some ([], drop (length p) (c # cs))
      else map_option (\<lambda>(a, b). (c # a, b)) (split_once_str p cs))"

text \<open>\<open>replace\<close> of one ASCII character by another.\<close>

definition replace_char :: "char \<Rightarrow> char \<Rightarrow> string \<Rightarrow> string" where
  "replace_char a b s = map (\<lambda>c. if c = a then b else c) s"

text \<open>\<open>replace\<close> of a non-empty substring, left to right and without overlaps.\<close>

function replace_str :: "string \<Rightarrow> string \<Rightarrow> string \<Rightarrow> string" where
  "replace_str p r [] = []"
| "replace_str p r (c # cs) =
     (if p \<noteq> [] \<and> starts_with (c # cs) p
      then r @ replace_str p r (drop (length p - 1) cs)
      else c # replace_str p r cs)"
  by pat_completeness auto
termination
  by (relation "measure (\<lambda>(p, r, s). length s)") auto

text \<open>\<open>lines()\<close>: split at line feeds, without the empty piece after a final line feed and
  without a carriage return before a line feed or at the end of a terminated line.\<close>

definition strip_cr :: "string \<Rightarrow> string" where
  "strip_cr l = (if l \<noteq> [] \<and> last l = CHR 0x0D then butlast l else l)"

definition lines :: "string \<Rightarrow> string list" where
  "lines s =
     (let ps = split_char (CHR 0x0A) s;
          body = map strip_cr (butlast ps)
      in if last ps = [] then body else body @ [last ps])"

section \<open>Integers\<close>

definition sat_add :: "'l::len word \<Rightarrow> 'l word \<Rightarrow> 'l word" where
  "sat_add a b = (if unat a + unat b < 2 ^ LENGTH('l) then a + b else - 1)"

definition sat_sub :: "'l::len word \<Rightarrow> 'l word \<Rightarrow> 'l word" where
  "sat_sub a b = (if b \<le> a then a - b else 0)"

text \<open>\<open>usize::checked_sub\<close>.\<close>

definition checked_sub :: "nat \<Rightarrow> nat \<Rightarrow> nat option" where
  "checked_sub a b = (if b \<le> a then Some (a - b) else None)"

lemma unat_u32_le: "unat (w :: u32) \<le> 2 ^ 32 - 1"
proof -
  have "unat w < 2 ^ LENGTH(32)" by (rule unsigned_less)
  then show ?thesis by simp
qed

lemma unat_sat_add: "unat (sat_add a b) = min (unat a + unat b) (2 ^ LENGTH('l) - 1)"
  for a b :: "'l::len word"
proof (cases "unat a + unat b < 2 ^ LENGTH('l)")
  case True
  then show ?thesis by (simp add: sat_add_def unat_word_ariths)
next
  case False
  then show ?thesis by (simp add: sat_add_def unsigned_minus_1_eq_mask mask_eq_exp_minus_1)
qed

lemma sat_add_ge: "a \<le> sat_add a b" for a b :: "'l::len word"
proof -
  have "unat a < 2 ^ LENGTH('l)" by (rule unsigned_less)
  then have "unat a \<le> 2 ^ LENGTH('l) - 1" by linarith
  then show ?thesis by (simp add: word_le_nat_alt unat_sat_add)
qed

lemma unat_sat_sub: "unat (sat_sub a b) = unat a - unat b" for a b :: "'l::len word"
  by (auto simp: sat_sub_def word_le_nat_alt unat_sub)

section \<open>Iterators\<close>

text \<open>\<open>max_by_key\<close> returns the last of several maximal elements.\<close>

fun max_by_key_from :: "('a \<Rightarrow> 'k::linorder) \<Rightarrow> 'a \<Rightarrow> 'a list \<Rightarrow> 'a" where
  "max_by_key_from k b [] = b"
| "max_by_key_from k b (x # xs) = max_by_key_from k (if k b \<le> k x then x else b) xs"

definition max_by_key :: "('a \<Rightarrow> 'k::linorder) \<Rightarrow> 'a list \<Rightarrow> 'a option" where
  "max_by_key k xs = (case xs of [] \<Rightarrow> None | x # ys \<Rightarrow> Some (max_by_key_from k x ys))"

lemma max_by_key_from_in: "max_by_key_from k b xs \<in> insert b (set xs)"
  by (induction xs arbitrary: b) auto

lemma max_by_key_from_ge: "x \<in> insert b (set xs) \<Longrightarrow> k x \<le> k (max_by_key_from k b xs)"
proof (induction xs arbitrary: b x)
  case Nil
  then show ?case by simp
next
  case (Cons y ys)
  let ?b = "if k b \<le> k y then y else b"
  have "k ?b \<le> k (max_by_key_from k ?b ys)" by (rule Cons.IH) simp
  moreover have "k b \<le> k ?b" and "k y \<le> k ?b" by auto
  moreover have "x \<in> set ys \<Longrightarrow> k x \<le> k (max_by_key_from k ?b ys)" by (rule Cons.IH) simp
  ultimately show ?case using Cons.prems by (auto intro: order_trans)
qed

lemma max_by_key_None [simp]: "max_by_key k xs = None \<longleftrightarrow> xs = []"
  by (auto simp: max_by_key_def split: list.splits)

lemma max_by_key_SomeD:
  "max_by_key k xs = Some m \<Longrightarrow> m \<in> set xs \<and> (\<forall>x \<in> set xs. k x \<le> k m)"
  using max_by_key_from_in [of k "hd xs" "tl xs"] max_by_key_from_ge [of _ "hd xs" "tl xs" k]
  by (cases xs) (auto simp: max_by_key_def)

lemma max_by_key_ex: "x \<in> set xs \<Longrightarrow> \<exists>m. max_by_key k xs = Some m"
  by (cases xs) (auto simp: max_by_key_def)

lemma list_find_Some_in: "List.find P xs = Some x \<Longrightarrow> x \<in> set xs \<and> P x"
  by (induction xs) (auto split: if_splits)

lemma list_find_ex: "x \<in> set xs \<Longrightarrow> P x \<Longrightarrow> \<exists>y. List.find P xs = Some y"
  by (induction xs) auto

lemma list_find_filter: "List.find P xs = (case filter P xs of [] \<Rightarrow> None | x # _ \<Rightarrow> Some x)"
  by (induction xs) auto

text \<open>A stable sort does not change which element is found first, when the elements looked for
  have one key.\<close>

lemma list_find_sort_key:
  assumes "\<And>x y. P x \<Longrightarrow> P y \<Longrightarrow> f x = f y"
  shows "List.find P (sort_key f xs) = List.find P xs"
proof -
  have "sorted (map f ys)" if "\<forall>x \<in> set ys. \<forall>y \<in> set ys. f x \<le> f y" for ys
    using that by (induction ys) auto
  moreover have "\<forall>x \<in> set (filter P xs). \<forall>y \<in> set (filter P xs). f x \<le> f y"
    using assms [THEN eq_refl] by simp
  ultimately have "sorted (map f (filter P xs))" by blast
  then have "filter P (sort_key f xs) = filter P xs"
    by (simp add: filter_sort sort_key_id_if_sorted)
  then show ?thesis by (simp add: list_find_filter)
qed

section \<open>Invariants of step relations\<close>

text \<open>The contract between a component's step relation and its invariant; what every run then
  satisfies is proved once here.\<close>

locale invariant_system =
  fixes start :: "'s \<Rightarrow> bool" and step :: "'s \<Rightarrow> 's \<Rightarrow> bool" and inv :: "'s \<Rightarrow> bool"
  assumes start_inv: "start s \<Longrightarrow> inv s"
    and step_inv: "step s t \<Longrightarrow> inv s \<Longrightarrow> inv t"
begin

lemma steps_inv: "step\<^sup>*\<^sup>* s t \<Longrightarrow> inv s \<Longrightarrow> inv t"
  by (induction rule: rtranclp_induct) (auto intro: step_inv)

lemma reachable_inv: "start s \<Longrightarrow> step\<^sup>*\<^sup>* s t \<Longrightarrow> inv t"
  using steps_inv start_inv by blast

end

end
