(* ===== verification/ShellWords.thy ===== *)
theory ShellWords
  imports Prelude
begin

text \<open>
  The word-level half of \<open>crates/execpolicy/src/shell_expand.rs\<close>: the table of wrapper words,
  the names of shells, which words of a simple command may be the command (\<open>command_heads\<close>), and
  where the words that hold code are: the script of a shell (\<open>shell_input\<close>), the values of
  \<open>-c\<close> options and the operands \<open>xargs\<close> rewrites.

  Every function here is total: the walk of \<open>command_heads\<close> ends because a state is visited once
  and at most \<open>MAX_HEAD_STATES\<close> of them are, the option scans because the index grows.
\<close>

section \<open>Tables\<close>

definition MAX_DEPTH :: nat where "MAX_DEPTH = 8"
definition MAX_COMMANDS :: nat where "MAX_COMMANDS = 256"
definition MAX_HEAD_STATES :: nat where "MAX_HEAD_STATES = 512"

text \<open>\<open>operands\<close> is a \<open>u8\<close> that is only compared with 0 and decremented above it.\<close>

datatype Wrapper =
  Wrapper (wr_name: string) (wr_short_values: string) (wr_short_switches: string)
    (wr_long_values: "string list") (wr_long_switches: "string list") (wr_operands: nat)

definition WRAPPERS :: "Wrapper list" where
  "WRAPPERS =
     [
      Wrapper ''sudo'' ''ughpCDrtTRUac'' ''AbBEeHiKklNnPSsVv'' [''user'', ''group'', ''host'',
        ''prompt'', ''close-from'', ''chdir'', ''role'', ''type'', ''command-timeout'', ''chroot'',
        ''other-user'', ''auth-type'', ''login-class''] [''login'', ''preserve-env'',
        ''non-interactive'', ''background'', ''edit'', ''shell'', ''stdin'', ''reset-timestamp'',
        ''remove-timestamp'', ''validate'', ''list'', ''set-home'', ''bell'', ''askpass'',
        ''preserve-groups''] 0,
      Wrapper ''doas'' ''uCa'' ''Lns'' [] [] 0,
      Wrapper ''env'' ''uCSPa'' ''i0v'' [''unset'', ''chdir'', ''argv0''] [''ignore-environment'',
        ''null'', ''debug''] 0,
      Wrapper ''nohup'' [] [] [] [] 0,
      Wrapper ''nice'' ''n'' [] [''adjustment''] [] 0,
      Wrapper ''ionice'' ''cnpPu'' ''t'' [''class'', ''classdata'', ''pid'', ''pgid'', ''uid'']
        [''ignore''] 0,
      Wrapper ''time'' ''fo'' ''aplqvh'' [''format'', ''output''] [''append'', ''portability'',
        ''verbose'', ''quiet''] 0,
      Wrapper ''timeout'' ''sk'' ''fpv'' [''signal'', ''kill-after''] [''preserve-status'',
        ''foreground'', ''verbose''] 1,
      Wrapper ''stdbuf'' ''ioe'' [] [''input'', ''output'', ''error''] [] 0,
      Wrapper ''setsid'' [] ''cfw'' [] [''ctty'', ''fork'', ''wait''] 0,
      Wrapper ''command'' [] ''pvV'' [] [] 0,
      Wrapper ''builtin'' [] [] [] [] 0,
      Wrapper ''exec'' ''a'' ''cl'' [] [] 0,
      Wrapper ''xargs'' ''adEILnPsJSR'' ''0eiloprtx'' [''arg-file'', ''delimiter'', ''eof'',
        ''replace'', ''max-lines'', ''max-args'', ''max-procs'', ''max-chars'',
        ''process-slot-var''] [''null'', ''no-run-if-empty'', ''interactive'', ''verbose'',
        ''exit'', ''open-tty'', ''show-limits''] 0,
      Wrapper ''unbuffer'' [] ''p'' [] [] 0,
      Wrapper ''busybox'' [] [] [] [] 0,
      Wrapper ''chroot'' ''ugG'' [] [''userspec'', ''groups''] [''skip-chdir''] 1,
      Wrapper ''proot'' ''rbmwqkRSvi'' ''0Vh'' [''rootfs'', ''bind'', ''mount'', ''cwd'', ''pwd'',
        ''qemu'', ''kernel-release'', ''verbose''] [] 0,
      Wrapper ''caffeinate'' ''tw'' ''dimsu'' [] [] 0,
      Wrapper ''arch'' ''ed'' [] [] [] 0,
      Wrapper ''sandbox-exec'' ''fnpD'' [] [] [] 0,
      Wrapper ''noglob'' [] [] [] [] 0,
      Wrapper ''nocorrect'' [] [] [] [] 0,
      Wrapper ''-'' [] [] [] [] 0,
      Wrapper ''nsenter'' ''tSG'' ''amuinpUCTrwFZcy'' [''target'', ''setuid'', ''setgid''] [''all'',
        ''preserve-credentials'', ''no-fork''] 0,
      Wrapper ''unshare'' ''SGRw'' ''mupinUCTrcfk'' [''root'', ''wd'', ''setuid'', ''setgid'',
        ''propagation'', ''setgroups''] [''fork'', ''mount-proc'', ''map-root-user'',
        ''map-current-user'', ''kill-child''] 0,
      Wrapper ''runuser'' ''ugGcswf'' ''lmpP'' [''user'', ''group'', ''supp-group'', ''command'',
        ''shell'', ''whitelist-environment'', ''session-command''] [''login'',
        ''preserve-environment'', ''pty''] 0,
      Wrapper ''flock'' ''wEc'' ''sxunoFh'' [''timeout'', ''wait'', ''conflict-exit-code'',
        ''command''] [''shared'', ''exclusive'', ''unlock'', ''nonblock'', ''nb'', ''close'',
        ''no-fork'', ''verbose''] 1,
      Wrapper ''watch'' ''nq'' ''bcdeghprtwx'' [''interval'', ''equexit''] [''beep'', ''color'',
        ''no-color'', ''differences'', ''errexit'', ''chgexit'', ''precise'', ''no-title'',
        ''no-wrap'', ''exec''] 0,
      Wrapper ''wsl'' ''du'' ''e'' [''distribution'', ''user'', ''cd'', ''shell-type''] [''exec''] 0,
      Wrapper ''pkexec'' [] [] [''user''] [''disable-internal-agent'', ''keep-cwd''] 0,
      Wrapper ''run0'' ''ugD'' [] [''user'', ''group'', ''nice'', ''chdir'', ''setenv'', ''unit'',
        ''property'', ''description'', ''slice'', ''machine''] [''no-ask-password'', ''background'',
        ''pty'', ''pipe''] 0,
      Wrapper ''fakeroot'' ''lsib'' ''uhv'' [''lib'', ''faked''] [''unknown-is-real''] 0,
      Wrapper ''taskset'' [] ''acpV'' [] [''all-tasks'', ''cpu-list'', ''pid''] 1,
      Wrapper ''chrt'' ''TPD'' ''abdefimoprRv'' [''sched-runtime'', ''sched-period'',
        ''sched-deadline''] [''all-tasks'', ''batch'', ''deadline'', ''fifo'', ''idle'', ''other'',
        ''pid'', ''rr'', ''reset-on-fork'', ''verbose'', ''max''] 1,
      Wrapper ''prlimit'' ''po'' [] [''pid'', ''output''] [''noheadings'', ''raw'', ''verbose''] 0,
      Wrapper ''strace'' ''abeIoOpPsSuEX'' ''cCdDfFhikNqrtTvVwxyYzZ'' [''output'', ''expr'',
        ''trace'', ''signal'', ''status'', ''attach'', ''user'', ''env'', ''string-limit'',
        ''trace-path''] [''follow-forks'', ''output-separately'', ''summary-only'', ''summary'',
        ''no-abbrev'', ''verbose''] 0,
      Wrapper ''ltrace'' ''aAeDFlnopsuxwX'' ''bcCfhiLrStTV'' [''output'', ''library'', ''indent'',
        ''align''] [''demangle'', ''help'', ''version''] 0,
      Wrapper ''systemd-run'' ''puEHM'' ''rtqGdPS'' [''property'', ''unit'', ''description'',
        ''slice'', ''setenv'', ''uid'', ''gid'', ''nice'', ''working-directory'', ''host'',
        ''machine'', ''service-type'', ''on-active'', ''on-boot'', ''on-startup'',
        ''on-unit-active'', ''on-unit-inactive'', ''on-calendar'', ''timer-property'',
        ''path-property'', ''socket-property''] [''user'', ''system'', ''scope'', ''pty'', ''pipe'',
        ''wait'', ''collect'', ''quiet'', ''no-ask-password'', ''remain-after-exit'', ''same-dir'',
        ''no-block'', ''send-sighup''] 0,
      Wrapper ''numactl'' ''NmCipPw'' ''laHsS'' [''cpunodebind'', ''membind'', ''physcpubind'',
        ''interleave'', ''preferred'', ''preferred-many'', ''weighted-interleave'', ''huge'',
        ''offset'', ''length'', ''mode'', ''strict'', ''shmmode'', ''shmid'', ''shm'', ''file'']
        [''localalloc'', ''all'', ''hardware'', ''show'', ''touch''] 0,
      Wrapper ''firejail'' [] [] [] [''noprofile'', ''quiet'', ''private'', ''private-dev'',
        ''private-tmp'', ''nonewprivs'', ''noroot'', ''seccomp'', ''x11'', ''appimage'',
        ''allusers''] 0,
      Wrapper ''xvfb-run'' ''efnpsw'' ''alh'' [''error-file'', ''auth-file'', ''server-num'',
        ''xauth-protocol'', ''server-args'', ''wait''] [''auto-servernum'', ''listen-tcp'',
        ''help''] 0,
      Wrapper ''dbus-launch'' [] [] [] [''sh-syntax'', ''csh-syntax'', ''auto-syntax'',
        ''binary-syntax'', ''close-stderr'', ''exit-with-session'', ''exit-with-x11'', ''version'']
        0,
      Wrapper ''dbus-run-session'' [] [] [''config-file'', ''dbus-daemon''] [''session'',
        ''version'', ''help''] 0,
      Wrapper ''sg'' [] ''c'' [] [] 1,
      Wrapper ''proxychains'' ''f'' ''q'' [] [] 0,
      Wrapper ''proxychains4'' ''f'' ''q'' [] [] 0,
      Wrapper ''torsocks'' ''uapP'' ''idqh'' [''user'', ''pass'', ''address'', ''port'']
        [''isolate'', ''debug'', ''quiet'', ''shell'', ''help'', ''version''] 0,
      Wrapper ''tsocks'' [] [] [] [] 0,
      Wrapper ''eatmydata'' [] [] [] [] 0,
      Wrapper ''cpulimit'' ''lpe'' ''mzikvh'' [''limit'', ''pid'', ''exe'', ''cpu'']
        [''monitor-forks'', ''lazy'', ''include-children'', ''kill'', ''verbose'', ''help''] 0,
      Wrapper ''setpriv'' [] [] [''reuid'', ''regid'', ''groups'', ''inh-caps'',
        ''ambient-caps'', ''bounding-set'', ''securebits'', ''pdeathsig'', ''selinux-label'',
        ''apparmor-profile'', ''landlock-access'', ''landlock-rule''] [''clear-groups'',
        ''keep-groups'', ''init-groups'', ''nnp'', ''no-new-privs'', ''reset-env'', ''dump'',
        ''list-caps''] 0,
      Wrapper ''trickle'' ''udwtlnL'' ''svh'' [] [] 0,
      Wrapper ''gtimeout'' ''sk'' ''fpv'' [''signal'', ''kill-after''] [''preserve-status'',
        ''foreground'', ''verbose''] 1,
      Wrapper ''gnice'' ''n'' [] [''adjustment''] [] 0,
      Wrapper ''gnohup'' [] [] [] [] 0,
      Wrapper ''gstdbuf'' ''ioe'' [] [''input'', ''output'', ''error''] [] 0,
      Wrapper ''gchroot'' ''ugG'' [] [''userspec'', ''groups''] [''skip-chdir''] 1]"

definition RESERVED_PREFIXES :: "string list" where
  "RESERVED_PREFIXES =
     [''if'', ''then'', ''elif'', ''else'', ''do'', ''while'', ''until'', ''!'', ''coproc'']"

definition SHELL_NAMES :: "string list" where
  "SHELL_NAMES =
     [''sh'', ''bash'', ''zsh'', ''dash'', ''ksh'', ''ksh93'', ''mksh'', ''ash'', ''fish'', ''csh'', ''tcsh'', ''rbash'',
      ''yash'']"

section \<open>Words\<close>

definition basename :: "string \<Rightarrow> string" where
  "basename token =
     (let part = rev (takeWhile (\<lambda>c. c \<noteq> CHR ''/'' \<and> c \<noteq> CHR 0x5C) (rev token))
      in if part = [] then token else part)"

definition env_assignment_word :: "string \<Rightarrow> bool" where
  "env_assignment_word token =
     (case split_once (CHR ''='') token of
        Some (name, _) \<Rightarrow> name \<noteq> [] \<and> \<not> starts_with name ''-''
          \<and> list_all (\<lambda>ch. is_ascii_alphanumeric ch \<or> ch = CHR ''_'') name
      | None \<Rightarrow> False)"

definition is_scalar_operand :: "string \<Rightarrow> bool" where
  "is_scalar_operand token =
     (let body = rev (dropWhile (\<lambda>c. c \<in> set ''smhd'') (rev token))
      in body \<noteq> [] \<and> list_all (\<lambda>ch. is_ascii_digit ch \<or> ch = CHR ''.'') body)"

definition command_name :: "string \<Rightarrow> string" where
  "command_name token =
     (let name = to_ascii_lowercase (basename token)
      in case strip_suffix name ''.exe'' of
           Some stem \<Rightarrow> if stem \<noteq> [] then stem else name
         | None \<Rightarrow> name)"

fun position :: "('a \<Rightarrow> bool) \<Rightarrow> 'a list \<Rightarrow> nat option" where
  "position P [] = None"
| "position P (x # xs) = (if P x then Some 0 else map_option Suc (position P xs))"

definition wrapper_index :: "string \<Rightarrow> nat option" where
  "wrapper_index token =
     (let name = command_name token in position (\<lambda>w. wr_name w = name) WRAPPERS)"

text \<open>\<open>xs.get(i)\<close>.\<close>

definition get :: "'a list \<Rightarrow> nat \<Rightarrow> 'a option" where
  "get xs i = (if i < length xs then Some (xs ! i) else None)"

text \<open>A long option without its dashes: the name and the value after an inline \<open>=\<close>.\<close>

definition long_option :: "string \<Rightarrow> string \<times> string option" where
  "long_option long =
     (case split_once (CHR ''='') long of
        Some (name, value) \<Rightarrow> (name, Some value)
      | None \<Rightarrow> (long, None))"

section \<open>Command heads\<close>

datatype HeadState = CommandAt | WrapperArgs (hs_wrapper: nat) (hs_operands: nat) (hs_options_done: bool)

record HeadWalk =
  hw_heads :: "nat list"
  hw_payloads :: "string list"
  hw_truncated :: bool

text \<open>What visiting one state does: the states it pushes (the last pushed first) and the walk.\<close>

type_synonym head_visit = "(nat \<times> HeadState) list \<times> HeadWalk"

definition visit_command :: "string list \<Rightarrow> nat \<Rightarrow> HeadWalk \<Rightarrow> head_visit" where
  "visit_command tokens index hw =
     (let token = tokens ! index in
      if env_assignment_word token then ([(index + 1, CommandAt)], hw)
      else let hw = (if index \<in> set (hw_heads hw) then hw else hw\<lparr>hw_heads := hw_heads hw @ [index]\<rparr>)
           in case wrapper_index token of
                Some p \<Rightarrow> ([(index + 1, WrapperArgs p (wr_operands (WRAPPERS ! p)) False)], hw)
              | None \<Rightarrow> ([], hw))"

definition push_payloads :: "string option \<Rightarrow> HeadWalk \<Rightarrow> HeadWalk" where
  "push_payloads value hw =
     (case value of Some v \<Rightarrow> hw\<lparr>hw_payloads := hw_payloads hw @ [v]\<rparr> | None \<Rightarrow> hw)"

definition visit_long_option ::
  "string list \<Rightarrow> nat \<Rightarrow> Wrapper \<Rightarrow> string \<Rightarrow> HeadState \<Rightarrow> HeadWalk \<Rightarrow> head_visit" where
  "visit_long_option tokens index spec long same hw =
     (let (name, inline) = long_option long;
          hw = (if wr_name spec = ''env'' \<and> name = ''split-string''
                then push_payloads (case inline of Some v \<Rightarrow> Some v | None \<Rightarrow> get tokens (index + 1)) hw
                else hw)
      in if inline \<noteq> None \<or> name \<in> set (wr_long_switches spec) then ([(index + 1, same)], hw)
         else if name \<in> set (wr_long_values spec) then ([(index + 2, same)], hw)
         else ([(index + 2, same), (index + 1, same)], hw))"

text \<open>A cluster of short options: how many words it spans, or \<open>None\<close> when an option that is not in
  the table makes both readings possible.\<close>

fun cluster_step :: "Wrapper \<Rightarrow> string \<Rightarrow> nat option" where
  "cluster_step spec [] = Some 1"
| "cluster_step spec (flag # flags) =
     (if flag \<in> set (wr_short_values spec) then Some (if flags = [] then 2 else 1)
      else if \<not> is_ascii_digit flag \<and> flag \<notin> set (wr_short_switches spec) then None
      else cluster_step spec flags)"

definition visit_short_options ::
  "string list \<Rightarrow> nat \<Rightarrow> Wrapper \<Rightarrow> string \<Rightarrow> HeadState \<Rightarrow> HeadWalk \<Rightarrow> head_visit" where
  "visit_short_options tokens index spec flags same hw =
     (if wr_name spec = ''command'' \<and> (CHR ''v'' \<in> set flags \<or> CHR ''V'' \<in> set flags) then ([], hw)
      else let hw = (if wr_name spec = ''env''
                     then (case split_once (CHR ''S'') flags of
                             Some (_, value) \<Rightarrow>
                               push_payloads (if value = [] then get tokens (index + 1) else Some value) hw
                           | None \<Rightarrow> hw)
                     else hw)
           in case cluster_step spec flags of
                Some step \<Rightarrow> ([(index + step, same)], hw)
              | None \<Rightarrow> ([(index + 2, same), (index + 1, same)], hw))"

definition visit_wrapper ::
  "string list \<Rightarrow> nat \<Rightarrow> nat \<Rightarrow> nat \<Rightarrow> bool \<Rightarrow> HeadWalk \<Rightarrow> head_visit" where
  "visit_wrapper tokens index wrapper operands options_done hw =
     (let token = tokens ! index;
          spec = WRAPPERS ! wrapper;
          again = WrapperArgs wrapper
      in if \<not> options_done \<and> token = ''--'' then ([(index + 1, again operands True)], hw)
         else if \<not> options_done \<and> 1 < length token \<and> starts_with token ''-''
         then (case strip_prefix token ''--'' of
                 Some long \<Rightarrow> visit_long_option tokens index spec long (again operands False) hw
               | None \<Rightarrow> visit_short_options tokens index spec (drop 1 token) (again operands False) hw)
         else if 0 < operands then ([(index + 1, again (operands - 1) options_done)], hw)
         else ((index, CommandAt)
                 # (if is_scalar_operand token then [(index + 1, again 0 options_done)] else []), hw))"

definition visit_head :: "string list \<Rightarrow> nat \<Rightarrow> HeadState \<Rightarrow> HeadWalk \<Rightarrow> head_visit" where
  "visit_head tokens index state hw =
     (case state of
        CommandAt \<Rightarrow> visit_command tokens index hw
      | WrapperArgs wrapper operands options_done \<Rightarrow>
          visit_wrapper tokens index wrapper operands options_done hw)"

text \<open>The worklist loop; \<open>stack\<close> has its top first.\<close>

function head_walk ::
  "string list \<Rightarrow> (nat \<times> HeadState) list \<Rightarrow> (nat \<times> HeadState) list \<Rightarrow> HeadWalk \<Rightarrow> HeadWalk" where
  "head_walk tokens [] seen hw = hw"
| "head_walk tokens ((index, state) # stack) seen hw =
     (if length tokens \<le> index \<or> (index, state) \<in> set seen then head_walk tokens stack seen hw
      else if MAX_HEAD_STATES \<le> length seen then hw\<lparr>hw_truncated := True\<rparr>
      else let (pushes, hw) = visit_head tokens index state hw
           in head_walk tokens (pushes @ stack) ((index, state) # seen) hw)"
  by pat_completeness auto
termination
  by (relation "measures [\<lambda>(_, _, seen, _). MAX_HEAD_STATES - length seen, \<lambda>(_, stack, _). length stack]")
    auto

definition command_heads :: "string list \<Rightarrow> HeadWalk" where
  "command_heads tokens =
     (let hw = head_walk tokens [(0, CommandAt)] []
                 \<lparr>hw_heads = [], hw_payloads = [], hw_truncated = False\<rparr>
      in hw\<lparr>hw_heads := sort (hw_heads hw)\<rparr>)"

section \<open>Scripts and payloads\<close>

definition path_part :: "string \<Rightarrow> string list \<Rightarrow> string list" where
  "path_part part parts =
     (if part = [] \<or> part = ''.'' then parts
      else if part = ''..'' then butlast parts
      else parts @ [part])"

definition script_descriptor :: "string list \<Rightarrow> string option" where
  "script_descriptor parts =
     (case parts of
        [a, b] \<Rightarrow> if a = ''dev'' \<and> b = ''stdin'' then Some ''0'' else None
      | [a, b, fd] \<Rightarrow> if a = ''dev'' \<and> b = ''fd'' then Some fd else None
      | [a, process, b, fd] \<Rightarrow>
          if a = ''proc'' \<and> b = ''fd''
             \<and> (process = ''self'' \<or> process = ''thread-self'' \<or> list_all is_ascii_digit process)
          then Some fd else None
      | _ \<Rightarrow> None)"

definition script_read_at_run_time :: "string \<Rightarrow> bool \<Rightarrow> bool" where
  "script_read_at_run_time script heredoc =
     (let parts = fold path_part (split_char (CHR ''/'') script) [] in
      if \<not> starts_with script ''/'' then False
      else case script_descriptor parts of
             Some descriptor \<Rightarrow> descriptor \<noteq> ''0'' \<or> \<not> heredoc
           | None \<Rightarrow> False)"

datatype ShellInput = CommandInput "nat list" | Script nat | Stdin

text \<open>How a scan that reached the end of the words decides (\<open>command.retain(..)\<close> and the \<open>match\<close>
  after the loop).\<close>

definition shell_input_end ::
  "string list \<Rightarrow> nat option \<Rightarrow> bool \<Rightarrow> nat list \<Rightarrow> ShellInput" where
  "shell_input_end tokens script from_stdin command =
     (let command = filter (\<lambda>at. at < length tokens) command in
      if command \<noteq> [] then CommandInput command
      else case script of
             Some index \<Rightarrow> if \<not> from_stdin then Script index else Stdin
           | None \<Rightarrow> Stdin)"

function shell_scan ::
  "string list \<Rightarrow> nat option \<Rightarrow> bool \<Rightarrow> bool \<Rightarrow> nat list \<Rightarrow> nat \<Rightarrow> ShellInput" where
  "shell_scan tokens script from_stdin options_done command index =
     (if length tokens \<le> index then shell_input_end tokens script from_stdin command
      else
       let token = tokens ! index;
           long = (if options_done then None else strip_prefix token ''--'')
       in if \<not> options_done \<and> token = ''--''
          then shell_scan tokens script from_stdin True command (index + 1)
          else if \<not> options_done \<and> token = ''-''
          then shell_scan tokens script (from_stdin \<or> command = []) True command (index + 1)
          else if long \<noteq> None
          then if eq_ignore_ascii_case (the long) ''command''
               then if index + 1 < length tokens then CommandInput [index + 1] else Stdin
               else shell_scan tokens script from_stdin options_done command
                      (index + (if the long = ''rcfile'' \<or> the long = ''init-file'' then 2 else 1))
          else if \<not> options_done \<and> 1 < length token \<and> (starts_with token ''-'' \<or> starts_with token ''+'')
          then let flags = drop 1 token;
                   command = (if starts_with token ''-'' \<and> CHR ''c'' \<in> set flags \<and> command = []
                              then [index + 1] else command);
                   from_stdin = (from_stdin \<or> starts_with token ''-'' \<and> CHR ''s'' \<in> set flags)
               in shell_scan tokens script from_stdin options_done command
                    (index + (if CHR ''o'' \<in> set flags \<or> CHR ''O'' \<in> set flags then 2 else 1))
          else if command \<noteq> []
          then CommandInput (if hd command \<noteq> index then command @ [index] else command)
          else shell_scan tokens (if script = None then Some index else script)
                 from_stdin options_done command (index + 1))"
  by pat_completeness auto
termination
  by (relation "measure (\<lambda>(tokens, _, _, _, _, index). length tokens - index)") (auto simp: Let_def)

declare shell_scan.simps [simp del]

definition shell_input :: "string list \<Rightarrow> ShellInput" where
  "shell_input tokens = shell_scan tokens None False False [] 1"

text \<open>One token of \<open>command_option_payloads\<close>.\<close>

definition option_payload :: "string list \<Rightarrow> bool list \<Rightarrow> nat \<Rightarrow> (string \<times> bool) option" where
  "option_payload tokens dyn at =
     (let token = tokens ! at;
          next_word = (if at + 1 < length tokens then Some (tokens ! (at + 1), dyn ! (at + 1)) else None)
      in case strip_prefix token ''--'' of
           Some long \<Rightarrow>
             (let (name, inline) = long_option long in
              if name = ''command'' \<or> name = ''session-command''
              then (case inline of Some value \<Rightarrow> Some (value, dyn ! at) | None \<Rightarrow> next_word)
              else None)
         | None \<Rightarrow>
             (case strip_prefix token ''-'' of
                Some flags \<Rightarrow>
                  (case split_once (CHR ''c'') flags of
                     Some (_, value) \<Rightarrow> if value = [] then next_word else Some (value, dyn ! at)
                   | None \<Rightarrow> None)
              | None \<Rightarrow> None))"

definition command_option_payloads :: "string list \<Rightarrow> nat \<Rightarrow> bool list \<Rightarrow> (string \<times> bool) list" where
  "command_option_payloads tokens head dyn =
     List.map_filter (option_payload tokens dyn) [head + 1 ..< length tokens]"

section \<open>Replacement operands of xargs\<close>

record Replacements =
  rp_replacements :: "string list"
  rp_values :: "nat list"

text \<open>A cluster of short \<open>xargs\<close> options at \<open>index\<close>; also returns the index of the last word read.\<close>

fun replace_cluster ::
  "Wrapper \<Rightarrow> string list \<Rightarrow> nat \<Rightarrow> string \<Rightarrow> Replacements \<Rightarrow> Replacements \<times> nat" where
  "replace_cluster xargs tokens index [] rp = (rp, index)"
| "replace_cluster xargs tokens index (flag # rest) rp =
     (if flag = CHR ''i''
      then (rp\<lparr>rp_replacements := rp_replacements rp @ [if rest = [] then ''{}'' else rest]\<rparr>, index)
      else if flag \<in> set (wr_short_values xargs)
      then let (value, rp, index) =
                 (if rest = [] then (get tokens (index + 1), rp\<lparr>rp_values := rp_values rp @ [index + 1]\<rparr>, index + 1)
                  else (Some rest, rp, index))
           in (if flag = CHR ''I'' \<or> flag = CHR ''J''
               then (case value of
                       Some v \<Rightarrow> rp\<lparr>rp_replacements := rp_replacements rp @ [v]\<rparr>
                     | None \<Rightarrow> rp)
               else rp, index)
      else replace_cluster xargs tokens index rest rp)"

definition replace_option ::
  "Wrapper \<Rightarrow> string list \<Rightarrow> nat \<Rightarrow> Replacements \<Rightarrow> Replacements \<times> nat" where
  "replace_option xargs tokens index rp =
     (let token = tokens ! index in
      case strip_prefix token ''--'' of
        Some long \<Rightarrow>
          (case split_once (CHR ''='') long of
             Some (name, value) \<Rightarrow>
               (if name = ''replace'' then rp\<lparr>rp_replacements := rp_replacements rp @ [value]\<rparr> else rp, index)
           | None \<Rightarrow>
               if long = ''replace'' then (rp\<lparr>rp_replacements := rp_replacements rp @ [''{}'']\<rparr>, index)
               else if long \<in> set (wr_long_values xargs)
               then (rp\<lparr>rp_values := rp_values rp @ [index + 1]\<rparr>, index + 1)
               else (rp, index))
      | None \<Rightarrow> replace_cluster xargs tokens index (drop 1 token) rp)"

lemma replace_cluster_index: "index \<le> snd (replace_cluster xargs tokens index flags rp)"
  by (induction xargs tokens index flags rp rule: replace_cluster.induct) (auto simp: Let_def)

lemma replace_option_index: "index \<le> snd (replace_option xargs tokens index rp)"
  by (auto simp: replace_option_def Let_def replace_cluster_index split: option.split prod.split)

function replace_options :: "Wrapper \<Rightarrow> string list \<Rightarrow> nat \<Rightarrow> Replacements \<Rightarrow> Replacements" where
  "replace_options xargs tokens index rp =
     (if index < length tokens \<and> starts_with (tokens ! index) ''-'' \<and> tokens ! index \<noteq> ''--''
      then let (rp', last) = replace_option xargs tokens index rp
           in replace_options xargs tokens (last + 1) rp'
      else rp)"
  by pat_completeness auto
termination
proof (relation "measure (\<lambda>(_, tokens, index, _). length tokens - index)", goal_cases)
  case (2 xargs tokens index rp x rp' last)
  then have "index \<le> last" using replace_option_index [of index xargs tokens rp] by (metis snd_conv)
  moreover from 2(1) have "index < length tokens" by simp
  ultimately show ?case by simp
qed simp

declare replace_options.simps [simp del]

definition mark_head ::
  "Wrapper \<Rightarrow> string list \<Rightarrow> nat \<Rightarrow> bool list \<Rightarrow> bool list" where
  "mark_head xargs tokens head dyn =
     (if command_name (tokens ! head) \<noteq> ''xargs'' then dyn
      else let rp = replace_options xargs tokens (head + 1) \<lparr>rp_replacements = [], rp_values = []\<rparr>;
               operand = (\<lambda>at. head < at \<and> at < length tokens \<and> at \<notin> set (rp_values rp)
                 \<and> \<not> starts_with (tokens ! at) ''-''
                 \<and> list_ex (\<lambda>r. r \<noteq> [] \<and> contains (tokens ! at) r) (rp_replacements rp))
           in map (\<lambda>at. dyn ! at \<or> operand at) [0 ..< length dyn])"

definition mark_replacement_operands :: "string list \<Rightarrow> nat list \<Rightarrow> bool list \<Rightarrow> bool list" where
  "mark_replacement_operands tokens heads dyn =
     (case List.find (\<lambda>w. wr_name w = ''xargs'') WRAPPERS of
        Some xargs \<Rightarrow> fold (mark_head xargs tokens) heads dyn
      | None \<Rightarrow> dyn)"

end
