(* ===== verification/SafetyWords.thy ===== *)
theory SafetyWords
  imports ShellWords
begin

text \<open>
  The lexical helpers of \<open>crates/execpolicy/src/command_safety.rs\<close>: stages of a command line, shell
  words, the command word behind environment assignments and wrappers, and every argv that could
  run (\<open>command_invocations\<close>). \<open>sx\<close> stands for \<open>shlex::split\<close>. The module has its own
  \<open>is_env_assignment\<close>, stricter than the expander's, modelled as \<open>assignment_token\<close>.
\<close>

definition MAX_WRAPPER_DEPTH :: nat where "MAX_WRAPPER_DEPTH = 8"

definition ARGV_PASSTHROUGH_WRAPPERS :: "string list" where
  "ARGV_PASSTHROUGH_WRAPPERS =
     [''sudo'', ''doas'', ''command'', ''nice'', ''ionice'', ''nohup'', ''stdbuf'', ''setsid'', ''time'', ''timeout'',
      ''xargs'']"

definition SHELL_WRAPPERS :: "string list" where
  "SHELL_WRAPPERS = [''sh'', ''bash'', ''zsh'', ''dash'', ''ksh'', ''ash'', ''fish'']"

section \<open>Words\<close>

text \<open>\<open>trim_matches(['"', '\''])\<close>.\<close>

definition is_quote :: "char \<Rightarrow> bool" where "is_quote c \<longleftrightarrow> c = CHR 0x22 \<or> c = CHR 0x27"

definition trim_quotes :: "string \<Rightarrow> string" where
  "trim_quotes s = rev (dropWhile is_quote (rev (dropWhile is_quote s)))"

definition slashed :: "string \<Rightarrow> string" where "slashed s = replace_char (CHR 0x5C) (CHR ''/'') s"

definition shell_words :: "(string \<Rightarrow> string list option) \<Rightarrow> string \<Rightarrow> string list" where
  "shell_words sx segment =
     (case sx segment of
        Some words \<Rightarrow> words
      | None \<Rightarrow> map trim_quotes (split_whitespace segment))"

definition command_word :: "string \<Rightarrow> string" where
  "command_word token =
     (let base = List.last (split_char (CHR ''/'') (slashed (trim_quotes token)))
      in to_ascii_lowercase (case strip_suffix base ''.exe'' of Some stem \<Rightarrow> stem | None \<Rightarrow> base))"

definition assignment_token :: "string \<Rightarrow> bool" where
  "assignment_token token =
     (case split_once (CHR ''='') token of
        None \<Rightarrow> False
      | Some (name, _) \<Rightarrow> name \<noteq> [] \<and> list_all (\<lambda>ch. ch = CHR ''_'' \<or> is_ascii_alphanumeric ch) name
          \<and> (hd name = CHR ''_'' \<or> is_ascii_alphabetic (hd name)))"

function primary_from :: "nat \<Rightarrow> string list \<Rightarrow> nat option" where
  "primary_from idx [] = None"
| "primary_from idx (token # rest) =
     (if token = ''env''
      then let skipped = length (takeWhile (\<lambda>t. starts_with t ''-'' \<or> assignment_token t) rest)
           in primary_from (idx + 1 + skipped) (drop skipped rest)
      else if assignment_token token then primary_from (idx + 1) rest
      else Some idx)"
  by pat_completeness auto
termination
  by (relation "measure (\<lambda>(_, tokens). length tokens)") auto

definition primary_token_index :: "string list \<Rightarrow> nat option" where
  "primary_token_index tokens = primary_from 0 tokens"

section \<open>Stages\<close>

text \<open>The loop of \<open>split_command_segments\<close>; \<open>current\<close> is the stage being read.\<close>

function (sequential) segment_scan :: "char option \<Rightarrow> string \<Rightarrow> string \<Rightarrow> string list" where
  "segment_scan quote current [] = [current]"
| "segment_scan (Some active) current (ch # cs) =
     (if ch = CHR 0x5C \<and> active = CHR 0x22 \<and> cs \<noteq> [] \<and> (hd cs = CHR 0x22 \<or> hd cs = CHR 0x5C)
      then segment_scan (Some active) (current @ [ch, hd cs]) (drop 1 cs)
      else segment_scan (if ch = active then None else Some active) (current @ [ch]) cs)"
| "segment_scan None current (ch # cs) =
     (if ch = CHR 0x5C \<and> cs \<noteq> [] \<and> (is_quote (hd cs) \<or> hd cs = CHR 0x5C)
      then segment_scan None (current @ [ch, hd cs]) (drop 1 cs)
      else if is_quote ch then segment_scan (Some ch) (current @ [ch]) cs
      else if (ch = CHR ''&'' \<or> ch = CHR ''|'') \<and> cs \<noteq> [] \<and> hd cs = ch
      then current # segment_scan None [] (drop 1 cs)
      else if ch = CHR ''|'' \<or> ch = CHR '';'' then current # segment_scan None [] cs
      else if ch = CHR ''&''
              \<and> (current \<noteq> [] \<and> (List.last current = CHR ''>'' \<or> List.last current = CHR ''<'')
                 \<or> cs \<noteq> [] \<and> hd cs = CHR ''>'')
      then segment_scan None (current @ [ch]) cs
      else if ch = CHR ''&'' then current # segment_scan None [] cs
      else segment_scan None (current @ [ch]) cs)"
  by pat_completeness auto
termination
  by (relation "measure (\<lambda>(_, _, cs). length cs)") auto

declare segment_scan.simps(2,3) [simp del]

definition split_command_segments :: "string \<Rightarrow> string list" where
  "split_command_segments command =
     filter (\<lambda>segment. segment \<noteq> []) (map trim (segment_scan None [] command))"

section \<open>Wrappers\<close>

text \<open>\<open>shell_command_payload\<close>: the index of the command string among the arguments of a shell.\<close>

function payload_scan :: "string list \<Rightarrow> bool \<Rightarrow> bool \<Rightarrow> nat \<Rightarrow> nat option" where
  "payload_scan args command_mode options_done index =
     (if length args \<le> index then None
      else let token = args ! index in
           if \<not> options_done \<and> (token = ''--'' \<or> token = ''-'')
           then payload_scan args command_mode True (index + 1)
           else if \<not> options_done \<and> 1 < length token \<and> (starts_with token ''-'' \<or> starts_with token ''+'')
           then let flags = drop 1 token;
                    long = starts_with token ''--''
                in payload_scan args
                     (command_mode \<or> starts_with token ''-'' \<and> \<not> long \<and> CHR ''c'' \<in> set flags)
                     options_done
                     (index + (if \<not> long \<and> (CHR ''o'' \<in> set flags \<or> CHR ''O'' \<in> set flags) then 2 else 1))
           else if command_mode then Some index
           else payload_scan args command_mode options_done (index + 1))"
  by pat_completeness auto
termination
  by (relation "measure (\<lambda>(args, _, _, index). length args - index)") (auto simp: Let_def)

declare payload_scan.simps [simp del]

definition shell_command_payload :: "string list \<Rightarrow> nat option" where
  "shell_command_payload args = payload_scan args False False 0"

definition looks_like_numeric_operand :: "string \<Rightarrow> bool" where
  "looks_like_numeric_operand token =
     (let trimmed = rev (dropWhile is_ascii_alphabetic (rev token))
      in trimmed \<noteq> [] \<and> list_all (\<lambda>b. is_ascii_digit b \<or> b = CHR ''.'') trimmed)"

definition skip_passthrough_prefix :: "string \<Rightarrow> string list \<Rightarrow> string list" where
  "skip_passthrough_prefix wrapper args =
     (case dropWhile (\<lambda>a. starts_with a ''-'') args of
        [] \<Rightarrow> []
      | a # rest \<Rightarrow>
          if (wrapper = ''timeout'' \<or> wrapper = ''nice'' \<or> wrapper = ''ionice'') \<and> looks_like_numeric_operand a
          then rest else a # rest)"

text \<open>One round of \<open>unwrap_to_effective_tokens\<close>: \<open>Inl\<close> the words to go on with, \<open>Inr\<close> the result.\<close>

definition unwrap_round ::
  "(string \<Rightarrow> string list option) \<Rightarrow> string list \<Rightarrow> string list + string list" where
  "unwrap_round sx current =
     (case primary_token_index current of
        None \<Rightarrow> Inr current
      | Some start \<Rightarrow>
          let word = command_word (current ! start);
              args = drop (start + 1) current
          in if word \<in> set SHELL_WRAPPERS
             then (case shell_command_payload args of
                     Some index \<Rightarrow> Inl (shell_words sx (args ! index))
                   | None \<Rightarrow> Inr current)
             else if word \<in> set ARGV_PASSTHROUGH_WRAPPERS
             then let rest = skip_passthrough_prefix word args
                  in if rest = [] then Inr current else Inl rest
             else Inr (current[start := word]))"

text \<open>The loop runs at most \<open>rounds\<close> times; \<open>None\<close> is the refusal to reason further.\<close>

primrec unwrap_rounds ::
  "(string \<Rightarrow> string list option) \<Rightarrow> nat \<Rightarrow> string list \<Rightarrow> string list option" where
  "unwrap_rounds sx 0 current = None"
| "unwrap_rounds sx (Suc rounds) current =
     (case unwrap_round sx current of
        Inl next_words \<Rightarrow> unwrap_rounds sx rounds next_words
      | Inr result \<Rightarrow> Some result)"

definition unwrap_to_effective_tokens ::
  "(string \<Rightarrow> string list option) \<Rightarrow> string list \<Rightarrow> string list option" where
  "unwrap_to_effective_tokens sx tokens = unwrap_rounds sx MAX_WRAPPER_DEPTH tokens"

section \<open>Invocations\<close>

text \<open>\<open>nested_shell_script\<close>: the first word before \<open>index\<close> whose command takes \<open>words ! index\<close> as a
  script.\<close>

definition script_of :: "string list \<Rightarrow> nat \<Rightarrow> nat \<Rightarrow> string option" where
  "script_of words index start =
     (let name = command_word (words ! start);
          flag = to_ascii_lowercase (words ! (index - 1))
      in if name \<in> set SHELL_WRAPPERS
         then (case shell_command_payload (drop (start + 1) words) of
                 Some at \<Rightarrow> if start + 1 + at = index then Some (words ! index) else None
               | None \<Rightarrow> None)
         else if name = ''cmd'' \<and> (flag = ''/c'' \<or> flag = ''/k'')
         then Some (filter (\<lambda>c. c \<noteq> CHR 0x27) (words ! index))
         else if (name = ''powershell'' \<or> name = ''pwsh'')
                 \<and> (flag = ''-c'' \<or> flag = ''-command'' \<or> flag = ''-commandwithargs'')
         then Some (words ! index)
         else None)"

definition nested_shell_script :: "string list \<Rightarrow> nat \<Rightarrow> string option" where
  "nested_shell_script words index =
     (case List.map_filter (script_of words index) [0 ..< index] of
        [] \<Rightarrow> None | script # _ \<Rightarrow> Some script)"

definition argv_from :: "string list \<Rightarrow> nat \<Rightarrow> string list" where
  "argv_from words index = command_word (words ! index) # drop (index + 1) words"

definition may_be_script :: "string \<Rightarrow> bool" where
  "may_be_script word \<longleftrightarrow>
     list_ex (\<lambda>at. 0 < ws_len (drop at word)) [0 ..< length word]
     \<or> list_ex (\<lambda>c. c = CHR '';'' \<or> c = CHR ''&'' \<or> c = CHR ''|'') word"

type_synonym argvs = "string list list"

text \<open>The words of one stage, from \<open>index\<close> on; \<open>nested\<close> reads a script one level deeper, and \<open>None\<close>
  is its refusal.\<close>

fun collect_words :: "(string \<Rightarrow> argvs option) \<Rightarrow> string list \<Rightarrow> nat list \<Rightarrow> argvs option" where
  "collect_words nested words [] = Some []"
| "collect_words nested words (index # rest) =
     (case (if may_be_script (words ! index)
            then (case nested_shell_script words index of Some script \<Rightarrow> nested script | None \<Rightarrow> Some [])
            else Some []) of
        None \<Rightarrow> None
      | Some inner \<Rightarrow>
          (case collect_words nested words rest of
             None \<Rightarrow> None
           | Some out \<Rightarrow> Some (argv_from words index # inner @ out)))"

fun collect_segments ::
  "(string \<Rightarrow> string list option) \<Rightarrow> (string \<Rightarrow> argvs option) \<Rightarrow> string list \<Rightarrow> argvs option" where
  "collect_segments sx nested [] = Some []"
| "collect_segments sx nested (segment # segments) =
     (let words = shell_words sx segment in
      case collect_words nested words [0 ..< length words] of
        None \<Rightarrow> None
      | Some out \<Rightarrow> map_option (\<lambda>rest. out @ rest) (collect_segments sx nested segments))"

text \<open>The extra pass that does not trust quotes.\<close>

definition quote_blind_argvs :: "(string \<Rightarrow> string list option) \<Rightarrow> string \<Rightarrow> argvs" where
  "quote_blind_argvs sx command =
     (if contains command [CHR ''$'', CHR 0x27] \<or> contains command ''${'' \<or> contains command ''<<''
         \<or> list_ex (\<lambda>c. c = CHR ''('' \<or> c = CHR 0x60 \<or> c = CHR ''#'') command
      then concat (map (\<lambda>segment. let words = shell_words sx segment
                                   in map (argv_from words) [0 ..< length words])
             (split_char (CHR 0x0A)
                (map (\<lambda>c. if c \<in> set [CHR '';'', CHR ''&'', CHR ''|'', CHR ''('', CHR '')'', CHR 0x60]
                          then CHR 0x0A else c) command)))
      else [])"

function collect ::
  "(string \<Rightarrow> string list option) \<Rightarrow> bool \<Rightarrow> nat \<Rightarrow> string \<Rightarrow> argvs option" where
  "collect sx quote_blind depth command =
     (if MAX_WRAPPER_DEPTH < depth then None
      else map_option (\<lambda>out. out @ (if quote_blind then quote_blind_argvs sx command else []))
             (collect_segments sx (\<lambda>script. collect sx quote_blind (depth + 1) script)
                (split_command_segments command)))"
  by pat_completeness auto
termination
  by (relation "measure (\<lambda>(_, _, depth, _). MAX_WRAPPER_DEPTH + 1 - depth)") auto

declare collect.simps [simp del]

definition walk_invocations ::
  "(string \<Rightarrow> string list option) \<Rightarrow> bool \<Rightarrow> string \<Rightarrow> argvs option" where
  "walk_invocations sx quote_blind command = collect sx quote_blind 0 command"

definition command_invocations :: "(string \<Rightarrow> string list option) \<Rightarrow> string \<Rightarrow> argvs option" where
  "command_invocations sx command = walk_invocations sx False command"

definition destroyer_floor_invocations :: "(string \<Rightarrow> string list option) \<Rightarrow> string \<Rightarrow> argvs option" where
  "destroyer_floor_invocations sx command = walk_invocations sx True command"

end
