(* ===== verification/ShellLex.thy ===== *)
theory ShellLex
  imports ShellWords
begin

text \<open>
  The word splitter of \<open>crates/execpolicy/src/shell_expand.rs\<close>: the readers of quoted and
  substituted regions and the loop of \<open>Expander::expand\<close> that cuts a command line into simple
  commands (\<open>Line\<close>) and collects the texts that run inside it.

  The source walks an index over the characters; here a position is the suffix that is left, and
  a reader returns how many characters it consumed, so every loop ends because the suffix gets
  shorter. Characters are the bytes of the UTF-8 text: all delimiters are ASCII, so the bytes of
  a longer sequence only ever take the branch of an ordinary character.
\<close>

section \<open>Substitutions\<close>

text \<open>\<open>read_backtick\<close>, from the character after the opening backtick: the body, the number of
  characters up to and including the closing backtick, and whether there is one.\<close>

fun read_backtick :: "string \<Rightarrow> string \<times> nat \<times> bool" where
  "read_backtick [] = ([], 0, False)"
| "read_backtick (c # cs) =
     (if c = CHR 0x5C \<and> cs \<noteq> []
      then (let (inner, k, ok) = read_backtick (tl cs) in (c # hd cs # inner, k + 2, ok))
      else if c = CHR 0x60 then ([], 1, True)
      else (let (inner, k, ok) = read_backtick cs in (c # inner, k + 1, ok)))"

text \<open>The number of characters before the next \<open>d\<close>.\<close>

definition until_char :: "char \<Rightarrow> string \<Rightarrow> nat" where
  "until_char d cs = length (takeWhile (\<lambda>c. c \<noteq> d) cs)"

text \<open>The test for a \<open>case\<close> inside \<open>$( .. )\<close>, at the suffix \<open>rest\<close> of the region \<open>start\<close>.\<close>

definition starts_case :: "string \<Rightarrow> string \<Rightarrow> bool" where
  "starts_case start rest \<longleftrightarrow>
     starts_with rest ''case''
     \<and> (length rest \<le> 4 \<or> 0 < ws_len (drop 4 rest))
     \<and> (length rest = length start
        \<or> start ! (length start - length rest - 1)
            \<in> set [CHR '' '', CHR 0x09, CHR 0x0A, CHR '';'', CHR ''&'', CHR ''|'', CHR ''('', CHR ''!''])"

text \<open>\<open>read_substitution\<close> after the opening delimiter \<open>open\<close>: the body, the characters consumed
  with the closing delimiter, and whether the region was read with certainty. \<open>skip_dquote\<close> is
  its inner loop over a double-quoted part: the characters before the closing quote (or all).\<close>

function (sequential) scan_region :: "char \<Rightarrow> string \<Rightarrow> nat \<Rightarrow> bool \<Rightarrow> string \<Rightarrow> string \<times> nat \<times> bool"
  and skip_dquote :: "string \<Rightarrow> nat \<times> bool" where
  "scan_region open start depth certain [] = (start, length start, False)"
| "scan_region open start depth certain (c # cs) =
     (let close = (if open = CHR ''{'' then CHR ''}'' else CHR '')'') in
      if c = CHR 0x5C then scan_region open start depth certain (drop 1 cs)
      else if c = CHR 0x27
      then let k = until_char (CHR 0x27) cs
           in scan_region open start depth (certain \<and> k < length cs) (drop (k + 1) cs)
      else if c = CHR 0x22
      then let (k, ok) = skip_dquote cs
           in scan_region open start depth (certain \<and> ok \<and> k < length cs) (drop (k + 1) cs)
      else if c = CHR 0x60
      then let (_, k, ok) = read_backtick cs
           in scan_region open start depth (certain \<and> ok) (drop k cs)
      else if c = CHR ''$'' \<and> cs \<noteq> [] \<and> (hd cs = CHR ''('' \<or> hd cs = CHR ''{'')
      then let (_, k, ok) = scan_region (hd cs) (tl cs) 1 True (tl cs)
           in scan_region open start depth (certain \<and> ok) (drop (k + 1) cs)
      else if c = close
      then if depth = 1
           then (take (length start - Suc (length cs)) start, length start - length cs, certain)
           else scan_region open start (depth - 1) certain cs
      else if c = open then scan_region open start (depth + 1) certain cs
      else scan_region open start depth
             (certain \<and> \<not> (open = CHR ''('' \<and> starts_case start (c # cs))) cs)"
| "skip_dquote [] = (0, True)"
| "skip_dquote (c # cs) =
     (if c = CHR 0x22 then (0, True)
      else if c = CHR 0x5C
      then let (k, ok) = skip_dquote (drop 1 cs) in (k + 2, ok)
      else if c = CHR 0x60
      then let (_, j, ok) = read_backtick cs; (k, ok') = skip_dquote (drop j cs) in (j + 1 + k, ok \<and> ok')
      else if c = CHR ''$'' \<and> cs \<noteq> [] \<and> (hd cs = CHR ''('' \<or> hd cs = CHR ''{'')
      then let (_, j, ok) = scan_region (hd cs) (tl cs) 1 True (tl cs);
               (k, ok') = skip_dquote (drop (j + 1) cs)
           in (j + 2 + k, ok \<and> ok')
      else let (k, ok) = skip_dquote cs in (k + 1, ok))"
  by pat_completeness auto
termination
  by (relation "measure (case_sum (\<lambda>(_, _, _, _, cs). length cs) length)") (auto simp: neq_Nil_conv)

declare scan_region.simps(2) [simp del] skip_dquote.simps(2) [simp del]

definition read_substitution :: "char \<Rightarrow> string \<Rightarrow> string \<times> nat \<times> bool" where
  "read_substitution opening start =
     (let open = (if opening = CHR ''{'' then CHR ''{'' else CHR ''('')
      in scan_region open start 1 True start)"

text \<open>\<open>starts_parameter\<close> on \<open>chars.get(i + 1)\<close>, the head of the rest.\<close>

definition starts_parameter :: "string \<Rightarrow> bool" where
  "starts_parameter cs \<longleftrightarrow>
     (case cs of [] \<Rightarrow> False
      | c # _ \<Rightarrow> is_ascii_alphanumeric c
          \<or> c \<in> set [CHR ''_'', CHR ''@'', CHR ''*'', CHR ''#'', CHR ''?'', CHR ''$'', CHR ''!'', CHR ''-'', CHR 0x22])"

section \<open>Heredocs\<close>

text \<open>The delimiter word after \<open><<\<close>: its length and whether a part of it is quoted.\<close>

function (sequential) delimiter_scan :: "char option \<Rightarrow> bool \<Rightarrow> string \<Rightarrow> nat \<times> bool" where
  "delimiter_scan quote literal [] = (0, literal)"
| "delimiter_scan quote literal (ch # cs) =
     (if quote = None \<and> ch \<in> set [CHR '' '', CHR 0x09, CHR 0x0A, CHR '';'', CHR ''|'', CHR ''&'', CHR ''<'', CHR ''>'']
      then (0, literal)
      else if ch = CHR 0x5C \<and> quote \<noteq> Some (CHR 0x27)
      then let (k, l) = delimiter_scan quote True (drop 1 cs) in (if cs = [] then 1 else k + 2, l)
      else if ch = CHR 0x27 \<or> ch = CHR 0x22
      then let quote = (if quote = Some ch then None else if quote = None then Some ch else quote);
               (k, l) = delimiter_scan quote True cs
           in (k + 1, l)
      else let (k, l) = delimiter_scan quote literal cs in (k + 1, l))"
  by pat_completeness auto
termination
  by (relation "measure (\<lambda>(_, _, cs). length cs)") auto

declare delimiter_scan.simps(2) [simp del]

text \<open>One line of a body with what follows it; an unquoted heredoc joins escaped line feeds.\<close>

definition cut_line :: "string \<Rightarrow> string \<times> string" where
  "cut_line cs = (takeWhile (\<lambda>c. c \<noteq> CHR 0x0A) cs, drop (until_char (CHR 0x0A) cs + 1) cs)"

definition ends_escaped :: "string \<Rightarrow> bool" where
  "ends_escaped text \<longleftrightarrow> odd (length (takeWhile (\<lambda>c. c = CHR 0x5C) (rev text)))"

function join_lines :: "bool \<Rightarrow> string \<Rightarrow> string \<Rightarrow> string \<times> string" where
  "join_lines literal text rest =
     (if \<not> literal \<and> ends_escaped text \<and> rest \<noteq> []
      then join_lines literal (butlast text @ fst (cut_line rest)) (snd (cut_line rest))
      else (text, rest))"
  by pat_completeness auto
termination
  by (relation "measure (\<lambda>(_, _, rest). length rest)") (auto simp: cut_line_def)

declare join_lines.simps [simp del]

definition heredoc_line :: "bool \<Rightarrow> string \<Rightarrow> string \<times> string" where
  "heredoc_line literal cs = (let (text, rest) = cut_line cs in join_lines literal text rest)"

lemma join_lines_shorter: "length (snd (join_lines literal text rest)) \<le> length rest"
proof (induction literal "text" rest rule: join_lines.induct)
  case (1 literal t rest)
  then show ?case by (subst join_lines.simps) (auto simp: cut_line_def intro: order_trans)
qed

lemma heredoc_line_shorter: "cs \<noteq> [] \<Longrightarrow> length (snd (heredoc_line literal cs)) < length cs"
  using join_lines_shorter [of literal "fst (cut_line cs)" "snd (cut_line cs)"]
  by (auto simp: heredoc_line_def cut_line_def split_def Let_def intro: le_less_trans)

text \<open>A body, the text after it, and whether its delimiter was found.\<close>

function heredoc_body :: "string \<Rightarrow> bool \<Rightarrow> bool \<Rightarrow> string \<Rightarrow> string \<Rightarrow> string \<times> string \<times> bool" where
  "heredoc_body delimiter literal strip_tabs body cs =
     (if cs = [] then (body, [], False)
      else let line = heredoc_line literal cs;
               text = (if strip_tabs then dropWhile (\<lambda>c. c = CHR 0x09) (fst line) else fst line)
           in if text = delimiter then (body, snd line, True)
              else heredoc_body delimiter literal strip_tabs (body @ text @ [CHR 0x0A]) (snd line))"
  by pat_completeness auto
termination
  by (relation "measure (\<lambda>(_, _, _, _, cs). length cs)") (auto simp: heredoc_line_shorter)

declare heredoc_body.simps [simp del]

text \<open>The substitutions of an unquoted body.\<close>

function (sequential) heredoc_substitutions :: "string \<Rightarrow> string list \<times> bool" where
  "heredoc_substitutions [] = ([], True)"
| "heredoc_substitutions (c # cs) =
     (if c = CHR 0x5C \<and> cs \<noteq> [] \<and> hd cs \<in> set [CHR ''$'', CHR 0x60, CHR 0x5C, CHR 0x0A]
      then heredoc_substitutions (drop 1 cs)
      else if c = CHR 0x60
      then let (inner, k, ok) = read_backtick cs; (rs, certain) = heredoc_substitutions (drop k cs)
           in (inner # rs, ok \<and> certain)
      else if c = CHR ''$'' \<and> cs \<noteq> [] \<and> hd cs = CHR ''(''
      then let (inner, k, ok) = read_substitution (CHR ''('') (tl cs);
               (rs, certain) = heredoc_substitutions (drop (k + 1) cs)
           in (inner # rs, ok \<and> certain)
      else heredoc_substitutions cs)"
  by pat_completeness auto
termination
  by (relation "measure length") auto

declare heredoc_substitutions.simps(2) [simp del]

section \<open>Redirections\<close>

definition redirection_len :: "string \<Rightarrow> nat" where
  "redirection_len cs =
     (if list_ex (starts_with cs) [''&>>'', ''<<<'', ''<<-''] then 3
      else if list_ex (starts_with cs) [''&>'', ''<<'', ''<>'', ''<&'', ''>>'', ''>&'', ''>|''] then 2
      else if list_ex (starts_with cs) [''<'', ''>''] then 1
      else 0)"

definition is_redirect_descriptor :: "string \<Rightarrow> bool" where
  "is_redirect_descriptor word =
     (if word \<noteq> [] \<and> list_all is_ascii_digit word then True
      else case Option.bind (strip_prefix word ''{'') (\<lambda>w. strip_suffix w ''}'') of
             Some (c # cs) \<Rightarrow> (c = CHR ''_'' \<or> is_ascii_alphabetic c)
               \<and> list_all (\<lambda>c. c = CHR ''_'' \<or> is_ascii_alphanumeric c) cs
           | _ \<Rightarrow> False)"

section \<open>Words and lines\<close>

record WordBuf =
  wb_text :: string
  wb_started :: bool
  wb_quoted :: bool
  wb_redirect_operand :: bool
  wb_dynamic :: bool
  wb_brace :: bool
  wb_bracket :: bool

record Line =
  ln_words :: "string list"
  ln_dynamic :: "bool list"
  ln_heredoc :: bool

definition empty_word :: WordBuf where
  "empty_word = \<lparr>wb_text = [], wb_started = False, wb_quoted = False, wb_redirect_operand = False,
     wb_dynamic = False, wb_brace = False, wb_bracket = False\<rparr>"

definition empty_line :: Line where
  "empty_line = \<lparr>ln_words = [], ln_dynamic = [], ln_heredoc = False\<rparr>"

definition expands_at_run_time :: "WordBuf \<Rightarrow> bool" where
  "expands_at_run_time w \<longleftrightarrow>
     wb_dynamic w
     \<or> (wb_bracket w \<and> 1 < length (wb_text w) \<and> CHR '']'' \<in> set (wb_text w))
     \<or> (wb_brace w \<and> (CHR '','' \<in> set (wb_text w) \<or> contains (wb_text w) ''..''))"

definition flush :: "WordBuf \<Rightarrow> Line \<Rightarrow> WordBuf \<times> Line" where
  "flush w line =
     (let (w, line) =
        (if wb_started w \<or> wb_text w \<noteq> [] \<or> wb_dynamic w
         then if wb_redirect_operand w
              then (w\<lparr>wb_text := [], wb_redirect_operand := False, wb_started := False\<rparr>, line)
              else (w\<lparr>wb_text := [], wb_started := False\<rparr>,
                    line\<lparr>ln_words := ln_words line @ [wb_text w],
                         ln_dynamic := ln_dynamic line @ [expands_at_run_time w]\<rparr>)
         else (w, line))
      in (w\<lparr>wb_quoted := False, wb_dynamic := False, wb_brace := False, wb_bracket := False\<rparr>, line))"

definition push_command :: "Line list \<Rightarrow> Line \<Rightarrow> Line list \<times> Line" where
  "push_command commands piece =
     (if ln_words piece \<noteq> []
      then (commands @ [piece], empty_line\<lparr>ln_heredoc := ln_heredoc piece\<rparr>)
      else (commands, piece))"

definition end_word :: "string \<times> bool \<Rightarrow> Line list \<times> Line \<Rightarrow> Line list \<times> Line" where
  "end_word wd state =
     (let (word, dyn) = wd; (commands, piece) = state in
      if word = ''{'' \<or> word = ''}'' then push_command commands piece
      else if ln_words piece = [] \<and> word \<in> set RESERVED_PREFIXES then (commands, piece)
      else (commands, piece\<lparr>ln_words := ln_words piece @ [word],
                           ln_dynamic := ln_dynamic piece @ [dyn]\<rparr>))"

definition end_command :: "Line list \<Rightarrow> Line \<Rightarrow> Line list" where
  "end_command commands line =
     (let (commands, piece) =
        fold end_word (zip (ln_words line) (ln_dynamic line))
          (commands, empty_line\<lparr>ln_heredoc := ln_heredoc line\<rparr>)
      in fst (push_command commands piece))"

end
