(* ===== verification/ShellSplit.thy ===== *)
theory ShellSplit
  imports ShellLex
begin

text \<open>
  The loop of \<open>Expander::expand\<close> (\<open>crates/execpolicy/src/shell_expand.rs\<close>): one definition per
  arm of its \<open>match\<close>. An arm gets the characters after the current one and returns how many of
  them it consumed with the new state, so the loop ends. The loop reads
  \<open>literal_backslashes\<close> and sets \<open>redirects\<close> and \<open>control\<close>; everything else the expander does
  follows the loop.

  \<open>shlex\<close> stands for \<open>shlex::split\<close> of the crate \<open>shlex\<close>, which unquotes a heredoc delimiter.
\<close>

type_synonym shlex = "string \<Rightarrow> string list option"

record LexState =
  lx_word :: WordBuf
  lx_line :: Line
  lx_commands :: "Line list"
  lx_nested :: "string list"
  lx_heredocs :: "(string \<times> bool \<times> bool) list"
  lx_uncertain :: bool
  lx_redirects :: bool
  lx_control :: bool

definition lex_start :: LexState where
  "lex_start = \<lparr>lx_word = empty_word, lx_line = empty_line, lx_commands = [], lx_nested = [],
     lx_heredocs = [], lx_uncertain = False, lx_redirects = False, lx_control = False\<rparr>"

section \<open>Shared steps\<close>

definition push_char :: "char \<Rightarrow> WordBuf \<Rightarrow> WordBuf" where
  "push_char c w = w\<lparr>wb_text := wb_text w @ [c]\<rparr>"

text \<open>A nested text that was read: recorded, and uncertain when its end was not found.\<close>

definition add_nested :: "string \<Rightarrow> bool \<Rightarrow> LexState \<Rightarrow> LexState" where
  "add_nested inner certain st =
     st\<lparr>lx_nested := lx_nested st @ [inner], lx_uncertain := lx_uncertain st \<or> \<not> certain\<rparr>"

definition flush_word :: "LexState \<Rightarrow> LexState" where
  "flush_word st =
     (let (w, line) = flush (lx_word st) (lx_line st) in st\<lparr>lx_word := w, lx_line := line\<rparr>)"

definition close_line :: "LexState \<Rightarrow> LexState" where
  "close_line st =
     st\<lparr>lx_commands := end_command (lx_commands st) (lx_line st), lx_line := empty_line\<rparr>"

text \<open>Before a redirection operator: an IO number belongs to the operator, other text is a word.\<close>

definition drop_descriptor :: "LexState \<Rightarrow> LexState" where
  "drop_descriptor st =
     (let w = lx_word st in
      if \<not> wb_quoted w \<and> is_redirect_descriptor (wb_text w)
      then st\<lparr>lx_word := w\<lparr>wb_text := [], wb_started := False\<rparr>\<rparr> else st)"

section \<open>The arms\<close>

type_synonym arm = "nat \<times> LexState"

definition arm_comment :: "string \<Rightarrow> LexState \<Rightarrow> arm" where
  "arm_comment cs st = (until_char (CHR 0x0A) cs, st)"

definition arm_backslash :: "bool \<Rightarrow> string \<Rightarrow> LexState \<Rightarrow> arm" where
  "arm_backslash literal cs st =
     (let w = lx_word st in
      if literal then (0, st\<lparr>lx_word := (push_char (CHR 0x5C) w)\<lparr>wb_started := True\<rparr>\<rparr>)
      else case cs of
             [] \<Rightarrow> (0, st)
           | d # _ \<Rightarrow>
               (1, if d \<noteq> CHR 0x0A
                   then st\<lparr>lx_word := (push_char d w)\<lparr>wb_started := True, wb_quoted := True\<rparr>\<rparr>
                   else st))"

definition arm_single_quote :: "string \<Rightarrow> LexState \<Rightarrow> arm" where
  "arm_single_quote cs st =
     (let k = until_char (CHR 0x27) cs; w = lx_word st
      in (min (k + 1) (length cs),
          st\<lparr>lx_word := w\<lparr>wb_text := wb_text w @ take k cs, wb_started := True, wb_quoted := True\<rparr>,
             lx_uncertain := lx_uncertain st \<or> length cs \<le> k\<rparr>))"

text \<open>Inside double quotes, up to the closing quote.\<close>

function (sequential) lex_dquote :: "bool \<Rightarrow> string \<Rightarrow> LexState \<Rightarrow> arm" where
  "lex_dquote literal [] st = (0, st)"
| "lex_dquote literal (c # cs) st =
     (if c = CHR 0x22 then (0, st)
      else if c = CHR 0x5C \<and> literal
      then let (k, st) = lex_dquote literal cs (st\<lparr>lx_word := push_char (CHR 0x5C) (lx_word st)\<rparr>)
           in (k + 1, st)
      else if c = CHR 0x5C \<and> cs \<noteq> []
      then let (k, st) = lex_dquote literal (drop 1 cs) (st\<lparr>lx_word := push_char (hd cs) (lx_word st)\<rparr>)
           in (k + 2, st)
      else if c = CHR 0x60
      then let (inner, j, ok) = read_backtick cs;
               st = add_nested inner ok (st\<lparr>lx_word := (lx_word st)\<lparr>wb_dynamic := True\<rparr>\<rparr>);
               (k, st) = lex_dquote literal (drop j cs) st
           in (k + j + 1, st)
      else if c = CHR ''$'' \<and> cs \<noteq> [] \<and> (hd cs = CHR ''('' \<or> hd cs = CHR ''{'')
      then let (inner, j, ok) = read_substitution (hd cs) (tl cs);
               st = add_nested inner ok (st\<lparr>lx_word := (lx_word st)\<lparr>wb_dynamic := True\<rparr>\<rparr>);
               (k, st) = lex_dquote literal (drop (j + 1) cs) st
           in (k + j + 2, st)
      else let w = lx_word st;
               w = (if c = CHR ''$'' \<and> starts_parameter cs then w\<lparr>wb_dynamic := True\<rparr> else w);
               (k, st) = lex_dquote literal cs (st\<lparr>lx_word := push_char c w\<rparr>)
           in (k + 1, st))"
  by pat_completeness auto
termination
  by (relation "measure (\<lambda>(_, cs, _). length cs)") auto

declare lex_dquote.simps(2) [simp del]

definition arm_double_quote :: "bool \<Rightarrow> string \<Rightarrow> LexState \<Rightarrow> arm" where
  "arm_double_quote literal cs st =
     (let (k, st) = lex_dquote literal cs
            (st\<lparr>lx_word := (lx_word st)\<lparr>wb_started := True, wb_quoted := True\<rparr>\<rparr>)
      in (min (k + 1) (length cs), st\<lparr>lx_uncertain := lx_uncertain st \<or> length cs \<le> k\<rparr>))"

text \<open>\<open>$'..'\<close>, from the character after its opening quote.\<close>

function (sequential) lex_ansi_c :: "string \<Rightarrow> WordBuf \<Rightarrow> nat \<times> WordBuf" where
  "lex_ansi_c [] w = (0, w)"
| "lex_ansi_c (c # cs) w =
     (if c = CHR 0x27 then (0, w)
      else if c = CHR 0x5C \<and> cs \<noteq> []
      then let (k, w) = lex_ansi_c (drop 1 cs) (push_char (hd cs) (w\<lparr>wb_dynamic := True\<rparr>)) in (k + 2, w)
      else let (k, w) = lex_ansi_c cs (push_char c w) in (k + 1, w))"
  by pat_completeness auto
termination
  by (relation "measure (\<lambda>(cs, _). length cs)") auto

declare lex_ansi_c.simps(2) [simp del]

definition arm_ansi_c :: "string \<Rightarrow> LexState \<Rightarrow> arm" where
  "arm_ansi_c cs st =
     (let body = drop 1 cs;
          (k, w) = lex_ansi_c body ((lx_word st)\<lparr>wb_started := True, wb_quoted := True\<rparr>)
      in (min (k + 2) (length cs),
          st\<lparr>lx_word := w, lx_uncertain := lx_uncertain st \<or> length body \<le> k\<rparr>))"

definition begin_substitution :: "LexState \<Rightarrow> LexState" where
  "begin_substitution st =
     (let w = lx_word st
      in st\<lparr>lx_word := w\<lparr>wb_started := wb_started w \<or> wb_redirect_operand w, wb_dynamic := True\<rparr>\<rparr>)"

definition arm_backtick :: "string \<Rightarrow> LexState \<Rightarrow> arm" where
  "arm_backtick cs st =
     (let (inner, k, ok) = read_backtick cs in (k, add_nested inner ok (begin_substitution st)))"

definition arm_substitution :: "string \<Rightarrow> LexState \<Rightarrow> arm" where
  "arm_substitution cs st =
     (let (inner, k, ok) = read_substitution (hd cs) (tl cs)
      in (k + 1, add_nested inner ok (begin_substitution st)))"

definition arm_heredoc :: "shlex \<Rightarrow> string \<Rightarrow> LexState \<Rightarrow> arm" where
  "arm_heredoc shlex cs st =
     (let st = flush_word (drop_descriptor (st\<lparr>lx_redirects := True\<rparr>));
          st = st\<lparr>lx_line := (lx_line st)\<lparr>ln_heredoc := True\<rparr>\<rparr>;
          rest = drop 1 cs;
          strip_tabs = starts_with rest ''-'';
          rest = (if strip_tabs then drop 1 rest else rest);
          rest = dropWhile (\<lambda>c. c = CHR '' '' \<or> c = CHR 0x09) rest;
          (k, literal) = delimiter_scan None False rest
      in (length cs - length rest + k,
          case shlex (take k rest) of
            Some [delimiter] \<Rightarrow>
              st\<lparr>lx_heredocs := lx_heredocs st @ [(delimiter, literal, strip_tabs)]\<rparr>
          | _ \<Rightarrow> st))"

definition arm_redirection :: "char \<Rightarrow> string \<Rightarrow> LexState \<Rightarrow> arm" where
  "arm_redirection c cs st =
     (let st = flush_word (drop_descriptor (st\<lparr>lx_redirects := True\<rparr>))
      in (redirection_len (c # cs) - 1,
          st\<lparr>lx_word := (lx_word st)\<lparr>wb_redirect_operand := True\<rparr>\<rparr>))"

definition break_command :: "LexState \<Rightarrow> LexState" where
  "break_command st =
     (let st = close_line (flush_word (st\<lparr>lx_control := True\<rparr>))
      in st\<lparr>lx_word := (lx_word st)\<lparr>wb_redirect_operand := False\<rparr>\<rparr>)"

definition arm_paren :: "char \<Rightarrow> string \<Rightarrow> LexState \<Rightarrow> arm" where
  "arm_paren c cs st =
     (let st = break_command st in
      if c = CHR ''('' \<and> starts_with cs ''(''
      then let (inner, k, ok) = read_substitution (CHR ''('') cs in (k, add_nested inner ok st)
      else (0, st))"

text \<open>At a line feed the bodies of the pending heredocs follow. A body is code when a shell or
  \<open>source\<close> of an earlier command line may read it.\<close>

definition reads_script :: "Line \<Rightarrow> bool" where
  "reads_script line =
     list_ex (\<lambda>head. let name = command_name (ln_words line ! head)
                     in name \<in> set SHELL_NAMES \<or> name = ''source'' \<or> name = ''.'')
       (hw_heads (command_heads (ln_words line)))"

definition heredoc_step ::
  "bool \<Rightarrow> string \<times> bool \<times> bool \<Rightarrow> string \<times> LexState \<Rightarrow> string \<times> LexState" where
  "heredoc_step shell_stdin doc state =
     (let (delimiter, literal, strip_tabs) = doc; (cs, st) = state;
          (body, rest, terminated) = heredoc_body delimiter literal strip_tabs [] cs;
          st = st\<lparr>lx_uncertain := lx_uncertain st \<or> \<not> terminated\<rparr>
      in (rest,
          if shell_stdin then st\<lparr>lx_nested := lx_nested st @ [body]\<rparr>
          else if \<not> literal
          then let (bodies, certain) = heredoc_substitutions body
               in st\<lparr>lx_uncertain := lx_uncertain st \<or> \<not> certain,
                     lx_nested := lx_nested st @ bodies\<rparr>
          else st))"

definition arm_operator :: "char \<Rightarrow> string \<Rightarrow> LexState \<Rightarrow> arm" where
  "arm_operator c cs st =
     (let st = break_command st in
      if c = CHR 0x0A \<and> lx_heredocs st \<noteq> []
      then let shell_stdin = list_ex reads_script (lx_commands st);
               (rest, st) = fold (heredoc_step shell_stdin) (lx_heredocs st) (cs, st)
           in (length cs - length rest, st\<lparr>lx_heredocs := []\<rparr>)
      else (0, st))"

definition arm_other :: "char \<Rightarrow> string \<Rightarrow> LexState \<Rightarrow> arm" where
  "arm_other c cs st =
     (let w = lx_word st;
          w = (if c = CHR ''$'' \<and> starts_parameter cs then w\<lparr>wb_dynamic := True\<rparr> else w);
          w = (if c = CHR ''*'' \<or> c = CHR ''?'' then w\<lparr>wb_dynamic := True\<rparr>
               else if c = CHR ''['' then w\<lparr>wb_bracket := True\<rparr>
               else if c = CHR ''{'' then w\<lparr>wb_brace := True\<rparr>
               else w)
      in (0, st\<lparr>lx_word := (push_char c w)\<lparr>wb_started := True\<rparr>\<rparr>))"

section \<open>The loop\<close>

definition opens_substitution :: "char \<Rightarrow> string \<Rightarrow> bool" where
  "opens_substitution c cs \<longleftrightarrow>
     (c = CHR ''$'' \<or> c = CHR ''<'' \<or> c = CHR ''>'')
     \<and> (starts_with cs ''('' \<or> (c = CHR ''$'' \<and> starts_with cs ''{''))"

definition opens_heredoc :: "char \<Rightarrow> string \<Rightarrow> bool" where
  "opens_heredoc c cs \<longleftrightarrow> c = CHR ''<'' \<and> starts_with cs ''<'' \<and> \<not> starts_with cs ''<<''"

definition lex_char :: "bool \<Rightarrow> shlex \<Rightarrow> char \<Rightarrow> string \<Rightarrow> LexState \<Rightarrow> arm" where
  "lex_char literal shlex c cs st =
     (if c = CHR ''#'' \<and> \<not> wb_started (lx_word st) \<and> wb_text (lx_word st) = [] then arm_comment cs st
      else if c = CHR 0x5C then arm_backslash literal cs st
      else if c = CHR 0x27 then arm_single_quote cs st
      else if c = CHR 0x22 then arm_double_quote literal cs st
      else if c = CHR ''$'' \<and> starts_with cs [CHR 0x27] then arm_ansi_c cs st
      else if c = CHR 0x60 then arm_backtick cs st
      else if opens_substitution c cs then arm_substitution cs st
      else if opens_heredoc c cs then arm_heredoc shlex cs st
      else if (c = CHR ''<'' \<or> c = CHR ''>'' \<or> c = CHR ''&'') \<and> 0 < redirection_len (c # cs)
      then arm_redirection c cs st
      else if c = CHR '' '' \<or> c = CHR 0x09 then (0, flush_word st)
      else if c = CHR ''('' \<or> c = CHR '')'' then arm_paren c cs st
      else if c = CHR 0x0A \<or> c = CHR 0x0D \<or> c = CHR '';'' \<or> c = CHR ''&'' \<or> c = CHR ''|''
      then arm_operator c cs st
      else arm_other c cs st)"

function (sequential) lex_loop :: "bool \<Rightarrow> shlex \<Rightarrow> string \<Rightarrow> LexState \<Rightarrow> LexState" where
  "lex_loop literal shlex [] st = st"
| "lex_loop literal shlex (c # cs) st =
     (let (k, st) = lex_char literal shlex c cs st in lex_loop literal shlex (drop k cs) st)"
  by pat_completeness auto
termination
  by (relation "measure (\<lambda>(_, _, cs, _). length cs)") auto

declare lex_loop.simps(2) [simp del]

text \<open>The whole pass: the last word and line are closed at the end of the input.\<close>

definition lex :: "bool \<Rightarrow> shlex \<Rightarrow> string \<Rightarrow> LexState" where
  "lex literal shlex cs = close_line (flush_word (lex_loop literal shlex cs lex_start))"

end
