(* ===== verification/ShellResult.thy ===== *)
theory ShellResult
  imports Prelude
begin

text \<open>
  The result of shell expansion (\<open>struct Expansion\<close> of
  \<open>crates/execpolicy/src/shell_expand.rs\<close>): the command lines a shell would run for an input,
  and what the expander could not decide. The policy check takes the expander as an argument and
  needs this record only.
\<close>

record Expansion =
  ex_commands :: "string list"
  ex_dynamic :: bool
  ex_nested :: bool
  ex_arguments_dynamic :: bool
  ex_control :: bool
  ex_redirects :: bool

end
