(* ===== verification/ShellExpand.thy ===== *)
theory ShellExpand
  imports ShellSplit ShellResult
begin

text \<open>
  The expander of \<open>crates/execpolicy/src/shell_expand.rs\<close>: every command line a shell would run for
  an input, and what could not be decided. \<open>Expander\<close> is the record of the same fields; the
  methods on \<open>&mut self\<close> return the new record. \<open>expand\<close> and \<open>record\<close> call each other, each
  nested text one level deeper, and stop at \<open>MAX_DEPTH\<close>: the functions are total and no fuel is
  added. What a command does with its operands gets the two callbacks for the next level as
  arguments (\<open>run\<close> for a nested text, \<open>note\<close> for a nested simple command).
\<close>

record Expander =
  xp_out :: "string list"
  xp_seen :: "string set"
  xp_literal_backslashes :: bool
  xp_dynamic :: bool
  xp_nested :: bool
  xp_arguments_dynamic :: bool
  xp_control :: bool
  xp_redirects :: bool

section \<open>Emitting command lines\<close>

definition joined_words :: "string list \<Rightarrow> string" where
  "joined_words tokens = join '' '' (filter (\<lambda>t. t \<noteq> []) tokens)"

definition set_dynamic :: "bool \<Rightarrow> Expander \<Rightarrow> Expander" where
  "set_dynamic b st = st\<lparr>xp_dynamic := xp_dynamic st \<or> b\<rparr>"

definition emit :: "string list \<Rightarrow> Expander \<Rightarrow> Expander" where
  "emit tokens st =
     (let joined = joined_words tokens in
      if joined = [] \<or> joined \<in> xp_seen st then st
      else if MAX_COMMANDS \<le> length (xp_out st) then set_dynamic True st
      else st\<lparr>xp_seen := insert joined (xp_seen st), xp_out := xp_out st @ [joined]\<rparr>)"

definition command_segments :: "string \<Rightarrow> string list" where
  "command_segments command =
     filter (\<lambda>segment. segment \<noteq> [])
       (map trim (lines (map (\<lambda>c. if c = CHR ''&'' \<or> c = CHR ''|'' \<or> c = CHR '';'' then CHR 0x0A else c)
         (replace_str ''||'' [CHR 0x0A] (replace_str ''&&'' [CHR 0x0A] command)))))"

definition conservative_scan :: "string \<Rightarrow> Expander \<Rightarrow> Expander" where
  "conservative_scan input st =
     (if CHR 0x0D \<in> set input \<or> contains input [CHR ''$'', CHR 0x27] \<or> contains input [CHR ''$'', CHR 0x22]
      then fold (\<lambda>segment. emit [segment]) (command_segments input) st
      else st)"

section \<open>Operands that are code\<close>

type_synonym run = "string \<Rightarrow> Expander \<Rightarrow> Expander"

definition code_payload :: "run \<Rightarrow> string \<Rightarrow> bool \<Rightarrow> Expander \<Rightarrow> Expander" where
  "code_payload run payload dyn st = run payload (set_dynamic dyn st)"

text \<open>The words from \<open>at\<close> on as one command line, and whether one of them is dynamic.\<close>

definition rest_payload :: "run \<Rightarrow> string list \<Rightarrow> bool list \<Rightarrow> nat \<Rightarrow> Expander \<Rightarrow> Expander" where
  "rest_payload run tokens dyn at =
     code_payload run (join '' '' (drop at tokens)) (list_ex id (drop at dyn))"

definition record_source :: "Line \<Rightarrow> bool list \<Rightarrow> nat \<Rightarrow> Expander \<Rightarrow> Expander" where
  "record_source line dyn head st =
     (case get (ln_words line) (head + 1) of
        None \<Rightarrow> if \<not> ln_heredoc line then set_dynamic True st else st
      | Some script \<Rightarrow>
          if dyn ! (head + 1) then set_dynamic True st
          else set_dynamic (script_read_at_run_time script (ln_heredoc line)) st)"

definition record_trap :: "run \<Rightarrow> string list \<Rightarrow> bool list \<Rightarrow> nat \<Rightarrow> Expander \<Rightarrow> Expander" where
  "record_trap run tokens dyn head st =
     (case List.find (\<lambda>at. \<not> starts_with (tokens ! at) ''-'') [head + 1 ..< length tokens] of
        Some at \<Rightarrow> code_payload run (tokens ! at) (dyn ! at) st
      | None \<Rightarrow> st)"

definition record_option_payloads ::
  "run \<Rightarrow> string list \<Rightarrow> bool list \<Rightarrow> nat \<Rightarrow> Expander \<Rightarrow> Expander" where
  "record_option_payloads run tokens dyn head st =
     fold (\<lambda>(payload, payload_dynamic). code_payload run payload payload_dynamic)
       (command_option_payloads tokens head dyn) st"

definition record_joined_operands ::
  "run \<Rightarrow> string list \<Rightarrow> bool list \<Rightarrow> nat list \<Rightarrow> nat \<Rightarrow> Expander \<Rightarrow> Expander" where
  "record_joined_operands run tokens dyn heads head st =
     fold (\<lambda>inner. rest_payload run tokens dyn inner) (filter (\<lambda>inner. head < inner) heads) st"

definition record_cmd :: "run \<Rightarrow> string list \<Rightarrow> bool list \<Rightarrow> nat \<Rightarrow> Expander \<Rightarrow> Expander" where
  "record_cmd run tokens dyn head st =
     (case List.find (\<lambda>at. to_ascii_lowercase (tokens ! at) \<in> set [''/c'', ''/k'', ''/r''])
             [head + 1 ..< length tokens] of
        Some at \<Rightarrow>
          let payload = join '' '' (drop (at + 1) tokens)
          in code_payload run payload
               (list_ex id (drop (at + 1) dyn)
                \<or> list_ex (\<lambda>c. c = CHR ''%'' \<or> c = CHR ''!'' \<or> c = CHR ''^'') payload) st
      | None \<Rightarrow> st)"

text \<open>An option of \<open>powershell\<close>: a word after \<open>-\<close> or \<open>/\<close>.\<close>

definition dash_option :: "string \<Rightarrow> string option" where
  "dash_option token =
     (case token of
        c # cs \<Rightarrow> if c = CHR ''-'' \<or> c = CHR ''/'' then Some (to_ascii_lowercase cs) else None
      | [] \<Rightarrow> None)"

fun powershell_scan ::
  "run \<Rightarrow> string list \<Rightarrow> bool list \<Rightarrow> bool \<Rightarrow> nat list \<Rightarrow> Expander \<Rightarrow> Expander" where
  "powershell_scan run tokens dyn positional_seen [] st = st"
| "powershell_scan run tokens dyn positional_seen (at # ats) st =
     (case dash_option (tokens ! at) of
        None \<Rightarrow>
          powershell_scan run tokens dyn True ats
            (if \<not> positional_seen then rest_payload run tokens dyn at st else st)
      | Some opt \<Rightarrow>
          if opt = [] then powershell_scan run tokens dyn positional_seen ats st
          else if starts_with ''command'' opt
          then if length tokens \<le> at + 1 \<or> tokens ! (at + 1) = ''-'' then set_dynamic True st
               else rest_payload run tokens dyn (at + 1) st
          else if opt = ''ec'' \<or> starts_with ''encodedcommand'' opt then set_dynamic True st
          else if starts_with ''file'' opt then st
          else powershell_scan run tokens dyn positional_seen ats st)"

definition record_powershell ::
  "run \<Rightarrow> string list \<Rightarrow> bool list \<Rightarrow> nat \<Rightarrow> Expander \<Rightarrow> Expander" where
  "record_powershell run tokens dyn head st =
     powershell_scan run tokens dyn False [head + 1 ..< length tokens] st"

text \<open>\<open>find .. -exec CMD .. ;\<close> hands the simple command to \<open>note\<close>.\<close>

definition exec_end :: "string list \<Rightarrow> nat \<Rightarrow> nat" where
  "exec_end tokens start =
     start + length (takeWhile (\<lambda>t. t \<noteq> '';'' \<and> t \<noteq> ''+'') (drop start tokens))"

definition exec_line :: "Line \<Rightarrow> nat \<Rightarrow> nat \<Rightarrow> Line" where
  "exec_line line start stop =
     \<lparr>ln_words = take (stop - start) (drop start (ln_words line)),
      ln_dynamic = map (\<lambda>at. ln_dynamic line ! at \<or> contains (ln_words line ! at) ''{}'') [start ..< stop],
      ln_heredoc = False\<rparr>"

function find_exec_scan ::
  "(Line \<Rightarrow> Expander \<Rightarrow> Expander) \<Rightarrow> Line \<Rightarrow> nat \<Rightarrow> Expander \<Rightarrow> Expander" where
  "find_exec_scan note line index st =
     (let tokens = ln_words line in
      if length tokens \<le> index then st
      else if tokens ! index \<in> set [''-exec'', ''-execdir'', ''-ok'', ''-okdir'']
      then let start = index + 1;
               stop = exec_end tokens start;
               st = (if start < stop then note (exec_line line start stop) (st\<lparr>xp_nested := True\<rparr>) else st)
           in find_exec_scan note line (stop + 1) st
      else find_exec_scan note line (index + 1) st)"
  by pat_completeness auto
termination
  by (relation "measure (\<lambda>(_, line, index, _). length (ln_words line) - index)") (auto simp: exec_end_def)

declare find_exec_scan.simps [simp del]

definition record_shell ::
  "run \<Rightarrow> Line \<Rightarrow> bool list \<Rightarrow> nat \<Rightarrow> Expander \<Rightarrow> Expander" where
  "record_shell run line dyn head st =
     (let tokens = ln_words line in
      case shell_input (drop head tokens) of
        CommandInput offsets \<Rightarrow>
          fold (\<lambda>offset. code_payload run (tokens ! (head + offset)) (dyn ! (head + offset))) offsets st
      | Script offset \<Rightarrow>
          set_dynamic (dyn ! (head + offset)
            \<or> script_read_at_run_time (tokens ! (head + offset)) (ln_heredoc line)) st
      | Stdin \<Rightarrow> set_dynamic (\<not> ln_heredoc line) st)"

section \<open>Recording a simple command\<close>

text \<open>What the command at \<open>head\<close> does with its operands.\<close>

definition record_operands ::
  "run \<Rightarrow> (Line \<Rightarrow> Expander \<Rightarrow> Expander) \<Rightarrow> Line \<Rightarrow> bool list \<Rightarrow> nat list \<Rightarrow> nat
   \<Rightarrow> Expander \<Rightarrow> Expander" where
  "record_operands run note line dyn heads head st =
     (let tokens = ln_words line;
          name = command_name (tokens ! head)
      in if name = ''eval'' then rest_payload run tokens dyn (head + 1) st
         else if name = ''source'' \<or> name = ''.'' then record_source line dyn head st
         else if name = ''find'' then find_exec_scan note line (head + 1) st
         else if name = ''trap'' then record_trap run tokens dyn head st
         else if name \<in> set [''su'', ''runuser'', ''flock'', ''script'']
         then record_option_payloads run tokens dyn head st
         else if name = ''watch'' \<or> name = ''sg'' then record_joined_operands run tokens dyn heads head st
         else if name = ''cmd'' then record_cmd run tokens dyn head st
         else if name = ''powershell'' \<or> name = ''pwsh'' then record_powershell run tokens dyn head st
         else if name \<in> set SHELL_NAMES then record_shell run line dyn head st
         else st)"

definition emit_inner :: "string list \<Rightarrow> nat list \<Rightarrow> nat \<Rightarrow> Expander \<Rightarrow> Expander" where
  "emit_inner tokens heads head st =
     (let st = (if 0 < head then emit (drop head tokens) st else st) in
      if wrapper_index (tokens ! head) \<noteq> None \<and> list_ex (\<lambda>inner. head < inner) heads
      then emit (drop (head + 1) tokens) st else st)"

definition unknown_word :: "string list \<Rightarrow> bool list \<Rightarrow> nat \<Rightarrow> bool" where
  "unknown_word tokens dyn head \<longleftrightarrow>
     list_ex (\<lambda>(token, d). d \<and> \<not> env_assignment_word token) (zip (take (head + 1) tokens) dyn)"

definition record_head ::
  "run \<Rightarrow> (Line \<Rightarrow> Expander \<Rightarrow> Expander) \<Rightarrow> Line \<Rightarrow> bool list \<Rightarrow> nat list \<Rightarrow> nat
   \<Rightarrow> Expander \<Rightarrow> Expander" where
  "record_head run note line dyn heads head st =
     (let tokens = ln_words line;
          st = set_dynamic (unknown_word tokens dyn head) (emit_inner tokens heads head st);
          st = st\<lparr>xp_arguments_dynamic := xp_arguments_dynamic st \<or> list_ex id (drop (head + 1) dyn)\<rparr>
      in record_operands run note line dyn heads head st)"

definition record_body ::
  "run \<Rightarrow> (Line \<Rightarrow> Expander \<Rightarrow> Expander) \<Rightarrow> Line \<Rightarrow> Expander \<Rightarrow> Expander" where
  "record_body run note line st =
     (let tokens = ln_words line;
          hw = command_heads tokens;
          st = set_dynamic (hw_truncated hw) (emit tokens st);
          st = fold run (hw_payloads hw) st;
          dyn = mark_replacement_operands tokens (hw_heads hw) (ln_dynamic line)
      in fold (record_head run note line dyn (hw_heads hw)) (hw_heads hw) st)"

section \<open>The expander\<close>

definition note_syntax :: "LexState \<Rightarrow> Expander \<Rightarrow> Expander" where
  "note_syntax lx st =
     st\<lparr>xp_control := xp_control st \<or> lx_control lx, xp_redirects := xp_redirects st \<or> lx_redirects lx,
        xp_dynamic := xp_dynamic st \<or> lx_uncertain lx\<rparr>"

definition enter_text :: "nat \<Rightarrow> string \<Rightarrow> Expander \<Rightarrow> Expander" where
  "enter_text depth input st =
     (let st = (if 0 < depth \<and> trim input \<noteq> [] then st\<lparr>xp_nested := True\<rparr> else st)
      in conservative_scan input st)"

function expand :: "shlex \<Rightarrow> nat \<Rightarrow> string \<Rightarrow> Expander \<Rightarrow> Expander"
  and record_line :: "shlex \<Rightarrow> nat \<Rightarrow> Line \<Rightarrow> Expander \<Rightarrow> Expander" where
  "expand shlex depth input st =
     (if MAX_DEPTH < depth \<or> MAX_COMMANDS \<le> length (xp_out st) then set_dynamic True st
      else let lx = lex (xp_literal_backslashes st) shlex input;
               st = note_syntax lx (enter_text depth input st);
               st = fold (\<lambda>line st. record_line shlex depth line st) (lx_commands lx) st
           in fold (\<lambda>inner st. expand shlex (depth + 1) inner st) (lx_nested lx) st)"
| "record_line shlex depth line st =
     (if ln_words line = [] then st
      else if MAX_DEPTH < depth then set_dynamic True st
      else record_body (\<lambda>payload st. expand shlex (depth + 1) payload st)
             (\<lambda>line st. record_line shlex (depth + 1) line st) line st)"
  by pat_completeness auto
termination
  by (relation "measure (case_sum (\<lambda>(_, depth, _, _). 2 * (MAX_DEPTH + 1 - depth) + 1)
                                  (\<lambda>(_, depth, _, _). 2 * (MAX_DEPTH + 1 - depth)))") auto

declare expand.simps [simp del] record_line.simps [simp del]

definition expand_for_platform :: "shlex \<Rightarrow> string \<Rightarrow> bool \<Rightarrow> Expansion" where
  "expand_for_platform shlex command windows =
     (let st = expand shlex 0 command
            \<lparr>xp_out = [], xp_seen = {}, xp_literal_backslashes = windows, xp_dynamic = False,
             xp_nested = False, xp_arguments_dynamic = False, xp_control = False, xp_redirects = False\<rparr>;
          st = (if windows then expand shlex 0 command (st\<lparr>xp_literal_backslashes := False\<rparr>) else st)
      in \<lparr>ex_commands = xp_out st, ex_dynamic = xp_dynamic st, ex_nested = xp_nested st,
          ex_arguments_dynamic = xp_arguments_dynamic st, ex_control = xp_control st,
          ex_redirects = xp_redirects st\<rparr>)"

text \<open>\<open>cfg!(windows)\<close> is an argument.\<close>

definition expand_command :: "bool \<Rightarrow> shlex \<Rightarrow> string \<Rightarrow> Expansion" where
  "expand_command windows shlex command = expand_for_platform shlex command windows"

definition expanded_commands :: "bool \<Rightarrow> shlex \<Rightarrow> string \<Rightarrow> string list" where
  "expanded_commands windows shlex command = ex_commands (expand_command windows shlex command)"

end
