(* ===== verification/CommandSafety.thy ===== *)
theory CommandSafety
  imports SafetyWords ShellExpand
begin

text \<open>
  The safety classification of shell commands (\<open>crates/execpolicy/src/command_safety.rs\<close>, from
  \<open>SafetyLevel\<close> on): the destructive-pattern pass, the read-only and workspace-safe tables,
  \<open>analyze_command\<close> and the eligibility test of prefix grants.

  What the code takes from outside is a record of functions: the host platform, \<open>shlex::split\<close>,
  Unicode lower-casing (\<open>to_lowercase\<close>), whether a text starts with a Unicode alphanumeric
  character, and \<open>Path::is_absolute\<close>. Reasons and suggestions are kept with their texts.
\<close>

record Host =
  host_windows :: bool
  host_shlex :: "string \<Rightarrow> string list option"
  host_lowercase :: "string \<Rightarrow> string"
  host_alphanumeric :: "string \<Rightarrow> bool"
  host_absolute :: "string \<Rightarrow> bool"

datatype SafetyLevel = Safe | WorkspaceSafe | RequiresApproval | Dangerous

record SafetyAnalysis =
  sa_level :: SafetyLevel
  sa_reasons :: "string list"
  sa_suggestions :: "string list"

definition analysis_safe :: SafetyAnalysis where
  "analysis_safe = \<lparr>sa_level = Safe, sa_reasons = [''Command is read-only''], sa_suggestions = []\<rparr>"

definition analysis_workspace_safe :: "string \<Rightarrow> SafetyAnalysis" where
  "analysis_workspace_safe reason =
     \<lparr>sa_level = WorkspaceSafe, sa_reasons = [reason], sa_suggestions = []\<rparr>"

definition analysis_requires_approval :: "string list \<Rightarrow> SafetyAnalysis" where
  "analysis_requires_approval reasons =
     \<lparr>sa_level = RequiresApproval, sa_reasons = reasons, sa_suggestions = []\<rparr>"

definition analysis_dangerous :: "string list \<Rightarrow> string list \<Rightarrow> SafetyAnalysis" where
  "analysis_dangerous reasons suggestions =
     \<lparr>sa_level = Dangerous, sa_reasons = reasons, sa_suggestions = suggestions\<rparr>"

section \<open>Tables\<close>

definition SAFE_COMMANDS :: "string list" where
  "SAFE_COMMANDS =
     [''ls'', ''dir'', ''pwd'', ''cd'', ''cat'', ''head'', ''tail'', ''less'', ''more'', ''grep'',
      ''rg'', ''ag'', ''find'', ''fd'', ''which'', ''whereis'', ''type'', ''echo'', ''printf'',
      ''date'', ''cal'', ''uptime'', ''whoami'', ''id'', ''hostname'', ''uname'', ''env'',
      ''printenv'', ''set'', ''ps'', ''top'', ''htop'', ''df'', ''du'', ''free'', ''vmstat'',
      ''wc'', ''sort'', ''uniq'', ''cut'', ''tr'', ''sed'', ''diff'', ''file'', ''stat'', ''md5'',
      ''sha1sum'', ''sha256sum'', ''git status'', ''git log'', ''git diff'', ''git show'',
      ''git branch'', ''git remote'', ''git tag'', ''git stash list'', ''npm list'', ''npm ls'',
      ''npm outdated'', ''cargo check'', ''cargo test'', ''cargo build'', ''cargo doc'',
      ''python --version'', ''node --version'', ''rustc --version'', ''man'', ''help'', ''info'']"

definition WORKSPACE_SAFE_COMMANDS :: "string list" where
  "WORKSPACE_SAFE_COMMANDS =
     [''mkdir'', ''touch'', ''cp'', ''mv'', ''git add'', ''git commit'', ''git checkout'',
      ''git switch'', ''git restore'', ''git merge'', ''git rebase'', ''git cherry-pick'',
      ''git reset --soft'', ''npm install'', ''npm ci'', ''npm update'', ''cargo build'',
      ''cargo run'', ''cargo test'', ''cargo fmt'', ''pip install'', ''pip uninstall'', ''make'',
      ''cmake'', ''ninja'']"

definition DANGEROUS_PATTERNS :: "(string \<times> string) list" where
  "DANGEROUS_PATTERNS =
     [(''rm -rf /'', ''Attempts to recursively delete root filesystem''),
      (''rm -rf /*'', ''Attempts to recursively delete all root directories''),
      (''rm -rf ~'', ''Attempts to recursively delete home directory''),
      (''rm -rf $HOME'', ''Attempts to recursively delete home directory''),
      ('':(){ :|:& };:'', ''Fork bomb '' @ [CHR 0xE2, CHR 0x80, CHR 0x94] @ '' will crash the system'')]"

definition PRIVILEGED_PATTERNS :: "string list" where
  "PRIVILEGED_PATTERNS =
     [''sudo'', ''su '', ''doas'', ''pkexec'', ''gksudo'', ''kdesudo'']"

definition NETWORK_COMMANDS :: "string list" where
  "NETWORK_COMMANDS =
     [''curl'', ''wget'', ''fetch'', ''nc'', ''netcat'', ''ncat'', ''ssh'', ''scp'', ''sftp'',
      ''rsync'', ''ftp'', ''ping'', ''traceroute'', ''nslookup'', ''dig'', ''host'', ''nmap'',
      ''masscan'', ''tcpdump'', ''wireshark'']"

definition KNOWN_SAFE_CHAIN_PREFIXES :: "string list" where
  "KNOWN_SAFE_CHAIN_PREFIXES =
     [''cargo'', ''rustc'', ''rustup'', ''git'', ''gh'', ''hub'', ''npm'', ''yarn'', ''pnpm'',
      ''node'', ''npx'', ''zig'', ''go'', ''deno'', ''bun'', ''make'', ''cmake'', ''ninja'',
      ''meson'', ''python'', ''python3'', ''pip'', ''pip3'', ''uv'', ''poetry'', ''ls'', ''pwd'',
      ''cd'', ''echo'', ''cat'', ''head'', ''tail'', ''grep'', ''rg'', ''find'', ''fd'', ''wc'',
      ''sort'', ''uniq'', ''which'', ''env'', ''true'', ''false'']"

section \<open>The read-only argument grammar\<close>

text \<open>\<open>max_operands\<close> is \<open>None\<close> for \<open>usize::MAX\<close>, which a list of words cannot exceed.\<close>

function options_match_loop ::
  "string list \<Rightarrow> string list \<Rightarrow> nat option \<Rightarrow> string list \<Rightarrow> bool \<Rightarrow> nat \<Rightarrow> bool" where
  "options_match_loop switches value_options max_operands [] options operands = True"
| "options_match_loop switches value_options max_operands (token # rest) options operands =
     (if options \<and> token = ''--''
      then options_match_loop switches value_options max_operands rest False operands
      else if options \<and> starts_with token ''-'' \<and> token \<noteq> ''-''
      then if token \<in> set switches
           then options_match_loop switches value_options max_operands rest options operands
           else if token \<in> set value_options
           then (case rest of
                   [] \<Rightarrow> False
                 | value # rest' \<Rightarrow>
                     \<not> starts_with value ''-''
                     \<and> options_match_loop switches value_options max_operands rest' options operands)
           else False
      else (case max_operands of Some n \<Rightarrow> operands + 1 \<le> n | None \<Rightarrow> True)
           \<and> options_match_loop switches value_options max_operands rest options (operands + 1))"
  by pat_completeness auto
termination
  by (relation "measure (\<lambda>(_, _, _, tokens, _, _). length tokens)") auto

definition agent_text_filter_options_match ::
  "string list \<Rightarrow> string list \<Rightarrow> string list \<Rightarrow> nat option \<Rightarrow> bool" where
  "agent_text_filter_options_match tokens switches value_options max_operands =
     options_match_loop switches value_options max_operands (drop 1 tokens) True 0"

definition is_agent_readonly_sort :: "string list \<Rightarrow> bool" where
  "is_agent_readonly_sort tokens =
     agent_text_filter_options_match tokens
      [''-b'', ''-d'', ''-f'', ''-g'', ''-h'', ''-i'', ''-M'', ''-n'', ''-r'', ''-s'', ''-u'',
       ''-V'', ''--dictionary-order'', ''--general-numeric-sort'', ''--human-numeric-sort'',
       ''--ignore-case'', ''--ignore-leading-blanks'', ''--ignore-nonprinting'', ''--month-sort'',
       ''--numeric-sort'', ''--reverse'', ''--stable'', ''--unique'', ''--version-sort'']
      [''-k'', ''--key'', ''-t'', ''--field-separator''] None"

definition is_agent_readonly_uniq :: "string list \<Rightarrow> bool" where
  "is_agent_readonly_uniq tokens =
     agent_text_filter_options_match tokens
      [''-c'', ''-d'', ''-D'', ''-i'', ''-u'', ''-z'', ''--count'', ''--ignore-case'',
       ''--repeated'', ''--unique'', ''--zero-terminated'']
      [''-f'', ''--skip-fields'', ''-s'', ''--skip-chars'', ''-w'', ''--check-chars''] (Some 1)"

definition is_agent_readonly_find :: "string list \<Rightarrow> bool" where
  "is_agent_readonly_find tokens =
     list_all (\<lambda>token. token \<notin> set
      [''-delete'', ''-exec'', ''-execdir'', ''-ok'', ''-okdir'', ''-fprintf'', ''-fls'',
       ''-fprint'', ''-fprint0'', ''-truncate''])
       (drop 1 tokens)"

text \<open>The scan of the words after the script: options may not follow it.\<close>

fun sed_operands :: "bool \<Rightarrow> string list \<Rightarrow> bool" where
  "sed_operands operands_only [] = True"
| "sed_operands operands_only (token # rest) =
     (if \<not> operands_only \<and> token = ''--'' then sed_operands True rest
      else if \<not> operands_only \<and> starts_with token ''-'' \<and> token \<noteq> ''-'' then False
      else sed_operands operands_only rest)"

definition numeric_part :: "string \<Rightarrow> bool" where
  "numeric_part part \<longleftrightarrow> part \<noteq> [] \<and> list_all is_ascii_digit part"

definition is_agent_readonly_sed :: "string list \<Rightarrow> bool" where
  "is_agent_readonly_sed tokens =
     (if length tokens < 3 \<or> tokens ! 1 \<noteq> ''-n'' then False
      else if \<not> sed_operands False (drop 3 tokens) then False
      else let script = tokens ! 2
           in if script \<noteq> [] \<and> (List.last script = CHR ''p'' \<or> List.last script = CHR ''P'')
              then let head = butlast script
                   in head = [] \<or> numeric_part head
                      \<or> (case split_once (CHR '','') head of
                           Some (a, b) \<Rightarrow> numeric_part a \<and> numeric_part b | None \<Rightarrow> False)
              else False)"

definition is_codewhale_readonly_invocation :: "string list \<Rightarrow> bool" where
  "is_codewhale_readonly_invocation tokens =
     (case tokens of
        [command, arg] \<Rightarrow> command \<in> set [''codewhale'', ''codew'']
          \<and> arg \<in> set [''--version'', ''-V'', ''-v'', ''--help'', ''-h'']
      | _ \<Rightarrow> False)"

definition only_options :: "string list \<Rightarrow> string list \<Rightarrow> bool \<Rightarrow> bool" where
  "only_options args allowed operands_ok =
     list_all (\<lambda>arg. if starts_with arg ''-'' then arg \<in> set allowed else operands_ok) args"

definition git_remote_is_read :: "string list \<Rightarrow> bool" where
  "git_remote_is_read args =
     (case args of
        [] \<Rightarrow> True
      | first # rest \<Rightarrow>
          if first = ''-v'' \<or> first = ''--verbose'' then length args = 1
          else if first = ''get-url''
          then list_all (\<lambda>arg. \<not> starts_with arg ''-'' \<or> arg = ''--push'' \<or> arg = ''--all'') rest
          else False)"

definition safe_command_arguments_are_read_only :: "string \<Rightarrow> string list \<Rightarrow> string list \<Rightarrow> bool" where
  "safe_command_arguments_are_read_only entry tokens args =
     (let list_mode = list_ex (\<lambda>arg. arg = ''-l'' \<or> arg = ''--list'') args in
      if entry = ''env'' then only_options args [''-0'', ''--null''] False
      else if entry = ''find'' then is_agent_readonly_find tokens
      else if entry = ''sed'' then is_agent_readonly_sed tokens
      else if entry = ''sort'' then is_agent_readonly_sort tokens
      else if entry = ''uniq'' then is_agent_readonly_uniq tokens
      else if entry = ''hostname'' then list_all (\<lambda>arg. starts_with arg ''-'') args
      else if entry = ''rg'' then \<not> list_ex (\<lambda>arg. starts_with arg ''--pre'') args
      else if entry = ''fd''
      then \<not> list_ex (\<lambda>arg. starts_with arg ''--exec''
             \<or> (starts_with arg ''-'' \<and> \<not> starts_with arg ''--'' \<and> (CHR ''x'' \<in> set arg \<or> CHR ''X'' \<in> set arg))) args
      else if entry = ''less'' \<or> entry = ''more'' then \<not> list_ex (\<lambda>arg. starts_with arg ''+'') args
      else if entry = ''man''
      then only_options args
        [''-k'', ''-f'', ''-a'', ''-w'', ''-W'', ''--apropos'', ''--whatis'', ''--all'',
         ''--where'', ''--path''] True
      else if entry = ''git diff'' \<or> entry = ''git log'' \<or> entry = ''git show''
      then \<not> list_ex (\<lambda>arg. starts_with arg ''--output'') args
      else if entry = ''git branch''
      then only_options args
        [''-a'', ''--all'', ''-r'', ''--remotes'', ''-v'', ''-vv'', ''--verbose'',
         ''--show-current'', ''--color'', ''--no-color'', ''-l'', ''--list''] list_mode
      else if entry = ''git tag'' then only_options args [''-l'', ''--list'', ''-n''] list_mode
      else if entry = ''git remote'' then git_remote_is_read args
      else True)"

definition leading_words_match :: "Host \<Rightarrow> string list \<Rightarrow> string \<Rightarrow> nat option" where
  "leading_words_match host tokens entry =
     (let words = split_whitespace entry in
      if length words \<le> length tokens
         \<and> list_all (\<lambda>(token, word). host_lowercase host token = word) (zip tokens words)
      then Some (length words) else None)"

section \<open>Composition\<close>

definition contains_shell_composition :: "Host \<Rightarrow> string \<Rightarrow> bool" where
  "contains_shell_composition host command =
     (let expansion = expand_command (host_windows host) (host_shlex host) command
      in ex_control expansion \<or> ex_redirects expansion \<or> ex_nested expansion \<or> ex_dynamic expansion)"

definition is_literal_rm_invocation :: "Host \<Rightarrow> string \<Rightarrow> bool" where
  "is_literal_rm_invocation host command =
     (let expansion = expand_command (host_windows host) (host_shlex host) command in
      if ex_control expansion \<or> ex_dynamic expansion \<or> ex_arguments_dynamic expansion \<or> ex_redirects expansion
      then False
      else case host_shlex host command of
             Some (token # _) \<Rightarrow> command_word token = ''rm''
           | _ \<Rightarrow> False)"

definition is_safe_command :: "Host \<Rightarrow> string \<Rightarrow> bool" where
  "is_safe_command host command =
     (let tokens = shell_words (host_shlex host) command in
      if (case primary_token_index tokens of
            Some start \<Rightarrow> is_codewhale_readonly_invocation (drop start tokens) | None \<Rightarrow> False)
      then True
      else if contains_shell_composition host command then False
      else list_ex (\<lambda>entry. case leading_words_match host tokens entry of
               Some words \<Rightarrow> safe_command_arguments_are_read_only entry tokens (drop words tokens)
             | None \<Rightarrow> False) SAFE_COMMANDS)"

definition arguments_are_safe :: "Host \<Rightarrow> string list \<Rightarrow> bool" where
  "arguments_are_safe host tokens \<longleftrightarrow>
     (tokens ! 0 \<noteq> ''git'' \<or> safe_command_arguments_are_read_only ''git log'' tokens (drop 1 tokens))
     \<and> list_all (\<lambda>entry. case leading_words_match host tokens entry of
          Some words \<Rightarrow> safe_command_arguments_are_read_only entry tokens (drop words tokens)
        | None \<Rightarrow> True) SAFE_COMMANDS"

definition prefix_grant_is_eligible :: "Host \<Rightarrow> string \<Rightarrow> Expansion \<Rightarrow> bool" where
  "prefix_grant_is_eligible host command expansion =
     (if ex_dynamic expansion \<or> ex_arguments_dynamic expansion \<or> ex_nested expansion
         \<or> ex_control expansion \<or> ex_redirects expansion
      then False
      else case host_shlex host command of
             None \<Rightarrow> False
           | Some [] \<Rightarrow> False
           | Some (program # rest) \<Rightarrow>
               (let tokens = command_word program # rest in
                if \<not> arguments_are_safe host tokens then False
                else case unwrap_to_effective_tokens (host_shlex host) tokens of
                       None \<Rightarrow> False
                     | Some tokens \<Rightarrow>
                         (case primary_token_index tokens of
                            None \<Rightarrow> False
                          | Some start \<Rightarrow> arguments_are_safe host (drop start tokens))))"

end
