(* ===== verification/CommandAnalysis.thy ===== *)
theory CommandAnalysis
  imports CommandSafety
begin

text \<open>
  The classification itself (\<open>analyze_command\<close> of \<open>crates/execpolicy/src/command_safety.rs\<close>): the
  destructive-pattern pass over the stages of a command, the workspace-safe tables and the decision
  list of \<open>analyze_command\<close>, whose branches are taken in the order of the source.
\<close>

section \<open>Deletion targets\<close>

definition is_root_delete_target :: "string \<Rightarrow> bool" where
  "is_root_delete_target target =
     (let normalized = slashed (trim_quotes target)
      in normalized = ''/'' \<or> normalized = ''/*'' \<or> normalized = ''//''
         \<or> starts_with normalized ''/*/'' \<or> starts_with normalized ''/.'')"

text \<open>The home directory in the spellings both deletion and copy targets look for.\<close>

definition names_home :: "string \<Rightarrow> bool" where
  "names_home lower \<longleftrightarrow>
     lower = ''~'' \<or> starts_with lower ''~/'' \<or> lower = ''$home'' \<or> starts_with lower ''$home/''
     \<or> lower = ''${home}'' \<or> starts_with lower ''${home}/''"

definition is_home_delete_target :: "string \<Rightarrow> bool" where
  "is_home_delete_target target = names_home (to_ascii_lowercase (slashed (trim_quotes target)))"

definition target_is_unexpanded_variable :: "string \<Rightarrow> bool" where
  "target_is_unexpanded_variable target \<longleftrightarrow> CHR ''$'' \<in> set (trim_quotes target)"

definition target_contains_parent_escape :: "string \<Rightarrow> bool" where
  "target_contains_parent_escape target \<longleftrightarrow> ''..'' \<in> set (split_char (CHR ''/'') (slashed target))"

section \<open>Destructive patterns\<close>

record RmArgs =
  rm_recursive :: bool
  rm_force :: bool
  rm_targets :: "string list"

definition rm_arg :: "string \<Rightarrow> RmArgs \<Rightarrow> RmArgs" where
  "rm_arg arg r =
     (if arg = ''--'' then r
      else if arg = ''--recursive'' \<or> arg = ''--dir'' then r\<lparr>rm_recursive := True\<rparr>
      else if arg = ''--force'' then r\<lparr>rm_force := True\<rparr>
      else if starts_with arg ''-'' \<and> \<not> starts_with arg ''--''
      then r\<lparr>rm_recursive := rm_recursive r \<or> CHR ''r'' \<in> set arg \<or> CHR ''R'' \<in> set arg,
             rm_force := rm_force r \<or> CHR ''f'' \<in> set arg\<rparr>
      else r\<lparr>rm_targets := rm_targets r @ [arg]\<rparr>)"

definition rm_target_reason :: "string \<Rightarrow> string option" where
  "rm_target_reason target =
     (if target_is_unexpanded_variable target
      then Some ''Deletion target is an unexpanded variable; its value cannot be checked''
      else if is_root_delete_target target
      then Some ''Recursive or forced deletion targets the root filesystem''
      else if is_home_delete_target target
      then Some ''Recursive or forced deletion targets the home directory''
      else if target_contains_parent_escape target
      then Some ''Recursive or forced deletion may escape the workspace''
      else None)"

definition dangerous_rm_reason :: "string list \<Rightarrow> string option" where
  "dangerous_rm_reason args =
     (let r = fold rm_arg args \<lparr>rm_recursive = False, rm_force = False, rm_targets = []\<rparr> in
      if \<not> (rm_recursive r \<or> rm_force r) then None
      else case List.map_filter rm_target_reason (rm_targets r) of
             [] \<Rightarrow> None | reason # _ \<Rightarrow> Some reason)"

definition analyze_find_mutation :: "string list \<Rightarrow> SafetyAnalysis option" where
  "analyze_find_mutation args =
     (let has_delete = ''-delete'' \<in> set args;
          execs_rm = (''-exec'', ''rm'') \<in> set (zip args (drop 1 args));
          targets = takeWhile (\<lambda>arg. \<not> starts_with arg ''-'') args
      in if \<not> (has_delete \<or> execs_rm) then None
         else if list_ex (\<lambda>t. is_root_delete_target t \<or> is_home_delete_target t
                \<or> target_contains_parent_escape t) targets
         then Some (analysis_dangerous [''find mutation targets a broad or external path'']
                [''Restrict the find root to a workspace-relative path''])
         else Some (analysis_requires_approval [''find command may delete files'']))"

definition primary_shell_command_is :: "(string \<Rightarrow> string list option) \<Rightarrow> string \<Rightarrow> string \<Rightarrow> bool" where
  "primary_shell_command_is sx command expected =
     list_ex (\<lambda>segment. let tokens = shell_words sx segment
                        in case primary_token_index tokens of
                             Some idx \<Rightarrow> idx < length tokens \<and> tokens ! idx = expected
                           | None \<Rightarrow> False)
       (split_command_segments command)"

definition pipe_window :: "(string \<Rightarrow> string list option) \<Rightarrow> string \<times> string \<Rightarrow> bool" where
  "pipe_window sx window =
     (let left = to_ascii_lowercase (fst window) in
      if \<not> (contains left ''curl'' \<or> contains left ''wget'') then False
      else let right_tokens = shell_words sx (snd window)
           in case primary_token_index right_tokens of
                Some idx \<Rightarrow> idx < length right_tokens \<and> right_tokens ! idx \<in> set [''sh'', ''bash'', ''zsh'']
              | None \<Rightarrow> False)"

definition pipes_remote_content_to_shell :: "(string \<Rightarrow> string list option) \<Rightarrow> string \<Rightarrow> bool" where
  "pipes_remote_content_to_shell sx command =
     list_ex (\<lambda>segment. let parts = split_char (CHR ''|'') segment
                        in list_ex (pipe_window sx) (zip parts (drop 1 parts)))
       (split_command_segments command)"

definition curl_pipe_analysis :: SafetyAnalysis where
  "curl_pipe_analysis = analysis_dangerous [''Piping remote content directly to shell is dangerous'']
     [''Download the script first and review it before execution'']"

text \<open>One stage of the pass.\<close>

definition analyze_segment :: "(string \<Rightarrow> string list option) \<Rightarrow> string \<Rightarrow> SafetyAnalysis option" where
  "analyze_segment sx segment =
     (case unwrap_to_effective_tokens sx (shell_words sx segment) of
        None \<Rightarrow> Some (analysis_dangerous [''Command nests wrappers too deeply to classify'']
                  [''Run the underlying command directly so it can be checked''])
      | Some tokens \<Rightarrow>
          (case primary_token_index tokens of
             None \<Rightarrow> None
           | Some start \<Rightarrow>
               let args = drop (start + 1) tokens in
               if tokens ! start = ''rm''
               then map_option (\<lambda>reason. analysis_dangerous [reason]
                      [''Review the deletion target before retrying'']) (dangerous_rm_reason args)
               else if tokens ! start = ''find'' then analyze_find_mutation args
               else None))"

fun first_analysis :: "('a \<Rightarrow> 'b option) \<Rightarrow> 'a list \<Rightarrow> 'b option" where
  "first_analysis f [] = None"
| "first_analysis f (x # xs) = (case f x of Some y \<Rightarrow> Some y | None \<Rightarrow> first_analysis f xs)"

definition analyze_destructive_patterns ::
  "(string \<Rightarrow> string list option) \<Rightarrow> string \<Rightarrow> SafetyAnalysis option" where
  "analyze_destructive_patterns sx command =
     (if primary_shell_command_is sx command ''eval''
      then Some (analysis_dangerous [''Command invokes shell eval'']
             [''Avoid evaluating dynamically generated shell input''])
      else if pipes_remote_content_to_shell sx command then Some curl_pipe_analysis
      else first_analysis (analyze_segment sx) (split_command_segments command))"

section \<open>Legacy patterns\<close>

text \<open>The texts after the matches of \<open>match_indices\<close>: left to right, without overlaps.\<close>

function after_matches :: "string \<Rightarrow> string \<Rightarrow> string list" where
  "after_matches p s =
     (if p = [] \<or> s = [] then []
      else if starts_with s p then drop (length p) s # after_matches p (drop (length p) s)
      else after_matches p (drop 1 s))"
  by pat_completeness auto
termination
  by (relation "measure (\<lambda>(p, s). length s)") auto

declare after_matches.simps [simp del]

definition pattern_ends :: "Host \<Rightarrow> string \<Rightarrow> bool" where
  "pattern_ends host rest \<longleftrightarrow>
     rest = [] \<or> \<not> (host_alphanumeric host rest
       \<or> hd rest \<in> set [CHR ''_'', CHR ''-'', CHR ''.'', CHR ''/''])"

definition matches_pattern :: "Host \<Rightarrow> string \<Rightarrow> string \<Rightarrow> bool" where
  "matches_pattern host command pattern =
     (let pattern = host_lowercase host pattern
      in list_ex (\<lambda>rest. pattern_ends host rest
             \<or> (pattern = ''rm -rf /'' \<and> \<not> is_literal_rm_invocation host command))
           (after_matches pattern (host_lowercase host command)))"

definition legacy_pattern_analysis :: "Host \<Rightarrow> string \<Rightarrow> SafetyAnalysis option" where
  "legacy_pattern_analysis host command =
     map_option (\<lambda>(pattern, reason). analysis_dangerous [reason]
         [''Review the command carefully before execution''])
       (List.find (\<lambda>(pattern, reason). matches_pattern host command pattern) DANGEROUS_PATTERNS)"

section \<open>Workspace-safe commands\<close>

definition operand_is_workspace_relative :: "Host \<Rightarrow> string \<Rightarrow> bool" where
  "operand_is_workspace_relative host token =
     (let trimmed = trim_quotes token in
      if trimmed = [] \<or> trimmed = ''-'' then True
      else if names_home (to_ascii_lowercase trimmed) then False
      else if CHR ''$'' \<in> set trimmed then False
      else let normalized = slashed trimmed
           in if starts_with normalized ''/'' \<or> host_absolute host trimmed then False
              else ''..'' \<notin> set (split_char (CHR ''/'') normalized))"

fun operands_scan :: "Host \<Rightarrow> bool \<Rightarrow> string list \<Rightarrow> bool" where
  "operands_scan host saw_operand [] = saw_operand"
| "operands_scan host saw_operand (arg # args) =
     (if arg = ''--'' then operands_scan host saw_operand args
      else if starts_with arg ''-'' \<and> arg \<noteq> ''-'' then operands_scan host saw_operand args
      else if \<not> operand_is_workspace_relative host arg then False
      else operands_scan host True args)"

definition copy_or_move_operands_are_workspace_relative :: "Host \<Rightarrow> string list \<Rightarrow> bool" where
  "copy_or_move_operands_are_workspace_relative host args = operands_scan host False args"

definition is_workspace_safe_command :: "Host \<Rightarrow> string \<Rightarrow> bool" where
  "is_workspace_safe_command host command =
     (case unwrap_to_effective_tokens (host_shlex host) (shell_words (host_shlex host) command) of
        None \<Rightarrow> False
      | Some tokens \<Rightarrow>
          (case primary_token_index tokens of
             None \<Rightarrow> False
           | Some start \<Rightarrow>
               let verb = command_word (tokens ! start) in
               if verb = ''cp'' \<or> verb = ''mv''
               then copy_or_move_operands_are_workspace_relative host (drop (start + 1) tokens)
               else let raw_tokens = shell_words (host_shlex host) command
                    in list_ex (\<lambda>entry. case leading_words_match host raw_tokens entry of
                           Some words \<Rightarrow> \<not> (entry = ''touch'' \<or> entry = ''mkdir'')
                             \<or> copy_or_move_operands_are_workspace_relative host (drop words raw_tokens)
                         | None \<Rightarrow> False) WORKSPACE_SAFE_COMMANDS))"

definition all_segments_known_safe :: "string \<Rightarrow> bool" where
  "all_segments_known_safe command =
     (let normalized = replace_char (CHR '';'') (CHR 0x0A)
            (replace_str ''||'' [CHR 0x0A] (replace_str ''&&'' [CHR 0x0A] command));
          segments = filter (\<lambda>s. s \<noteq> []) (map trim (split_char (CHR 0x0A) normalized))
      in segments \<noteq> []
         \<and> list_all (\<lambda>seg.
             let head = (case List.find (\<lambda>tok. CHR ''='' \<notin> set tok \<and> tok \<noteq> ''env'') (split_whitespace seg) of
                           Some t \<Rightarrow> t | None \<Rightarrow> [])
             in list_ex (eq_ignore_ascii_case head) KNOWN_SAFE_CHAIN_PREFIXES) segments)"

definition extract_primary_command :: "string \<Rightarrow> string option" where
  "extract_primary_command command =
     (let trimmed = trim command in
      if starts_with trimmed ''env '' \<or> starts_with trimmed ''ENV=''
      then List.find (\<lambda>s. CHR ''='' \<notin> set s \<and> s \<noteq> ''env'') (split_whitespace trimmed)
      else (case split_whitespace trimmed of [] \<Rightarrow> None | w # _ \<Rightarrow> Some w))"

section \<open>The classification\<close>

definition privileged_pattern :: "Host \<Rightarrow> string \<Rightarrow> string option" where
  "privileged_pattern host command =
     List.find (\<lambda>pattern. starts_with (trim command) pattern
         \<or> contains (host_lowercase host command) ('' '' @ pattern @ '' '')) PRIVILEGED_PATTERNS"

definition analyze_rm :: "string \<Rightarrow> SafetyAnalysis" where
  "analyze_rm command_lower =
     (let reasons = [''Recursive or forced deletion''] in
      if contains command_lower ''..'' \<or> contains command_lower ''~/'' \<or> contains command_lower ''$HOME''
      then analysis_dangerous (reasons @ [''May delete files outside workspace''])
             [''Use relative paths within the workspace'']
      else analysis_requires_approval reasons)"

text \<open>The branches after the composition checks.\<close>

definition analyze_single :: "Host \<Rightarrow> string \<Rightarrow> SafetyAnalysis" where
  "analyze_single host command =
     (let command_lower = host_lowercase host command;
          command_trimmed = trim command;
          first_word = (case split_whitespace command_trimmed of [] \<Rightarrow> [] | w # _ \<Rightarrow> w)
      in case privileged_pattern host command of
           Some pattern \<Rightarrow> analysis_requires_approval
             [''Command uses privileged execution ('' @ trim pattern @ '')'']
         | None \<Rightarrow>
             if is_safe_command host command_trimmed then analysis_safe
             else if is_workspace_safe_command host command_trimmed
             then analysis_workspace_safe ''Command modifies files within workspace''
             else if first_word \<in> set NETWORK_COMMANDS
             then analysis_requires_approval [''Command may make network requests'']
             else if first_word = ''rm'' \<and> (contains command_lower ''-r'' \<or> contains command_lower ''-f'')
             then analyze_rm command_lower
             else if contains command_lower ''git push''
             then if contains command_lower ''--force'' \<or> contains command_lower ''-f''
                  then analysis_requires_approval [''Force push can overwrite remote history'']
                  else analysis_requires_approval [''Push will modify remote repository'']
             else analysis_requires_approval [''Unknown command - review before execution''])"

definition analyze_composition :: "Host \<Rightarrow> string \<Rightarrow> SafetyAnalysis" where
  "analyze_composition host command =
     (let expansion = expand_command (host_windows host) (host_shlex host) command in
      if ex_control expansion
      then if all_segments_known_safe command
           then analysis_requires_approval [''Command chains known-safe segments (cargo/git/etc.)'']
           else analysis_requires_approval [''Command chaining detected'']
      else if ex_nested expansion
      then analysis_requires_approval [''Command substitution detected'']
      else analyze_single host command)"

definition analyze_command :: "Host \<Rightarrow> string \<Rightarrow> SafetyAnalysis" where
  "analyze_command host command =
     (let command_lower = host_lowercase host command in
      if CHR 0x0A \<in> set command \<or> CHR 0x0D \<in> set command
      then analysis_dangerous [''Command contains multiple lines'']
             [''Run one command at a time'',
              ''Write multiline scripts to a file first, then execute the script'',
              ''Use the shell tool with background=true for long interactive flows'']
      else if CHR 0x00 \<in> set command
      then analysis_dangerous [''Command contains a null byte'']
             [''Strip embedded null bytes before retrying'']
      else case analyze_destructive_patterns (host_shlex host) command of
             Some analysis \<Rightarrow> analysis
           | None \<Rightarrow>
               (case legacy_pattern_analysis host command of
                  Some analysis \<Rightarrow> analysis
                | None \<Rightarrow>
                    if (contains command_lower ''curl'' \<or> contains command_lower ''wget'')
                       \<and> (contains command_lower ''| sh'' \<or> contains command_lower ''| bash''
                          \<or> contains command_lower ''| zsh'')
                    then curl_pipe_analysis
                    else analyze_composition host command))"

end
