(* ===== verification/ShellContract.thy ===== *)
theory ShellContract
  imports ShellExpand
begin

text \<open>
  What every expansion keeps: a relation between expander states that is reflexive, transitive and
  allowed by each primitive update holds between the state before and after a whole expansion
  (\<open>expander_relation\<close>). It is interpreted for the state invariant (the emitted lines are
  distinct, non-empty and at most \<open>MAX_COMMANDS\<close>) and for growth (nothing emitted is taken back,
  no flag is cleared), and then used to show that the limits fail closed.
\<close>

section \<open>Relations kept by an expansion\<close>

locale expander_relation =
  fixes R :: "Expander \<Rightarrow> Expander \<Rightarrow> bool"
  assumes R_refl: "R st st"
    and R_trans: "R st st' \<Longrightarrow> R st' st'' \<Longrightarrow> R st st''"
    and R_emit: "R st (emit tokens st)"
    and R_dynamic: "R st (set_dynamic b st)"
    and R_nested: "R st (st\<lparr>xp_nested := True\<rparr>)"
    and R_arguments: "R st (st\<lparr>xp_arguments_dynamic := xp_arguments_dynamic st \<or> b\<rparr>)"
    and R_syntax: "R st (note_syntax lx st)"
begin

lemma R_fold: "(\<And>x s. x \<in> set xs \<Longrightarrow> R s (f x s)) \<Longrightarrow> R st (fold f xs st)"
  by (induction xs arbitrary: st) (auto intro: R_refl R_trans)

lemma R_code_payload: "(\<And>p s. R s (run p s)) \<Longrightarrow> R st (code_payload run payload d st)"
  unfolding code_payload_def by (rule R_trans [OF R_dynamic])

lemma R_rest_payload: "(\<And>p s. R s (run p s)) \<Longrightarrow> R st (rest_payload run tokens dyn at st)"
  unfolding rest_payload_def by (rule R_code_payload)

lemma R_powershell_scan:
  "(\<And>p s. R s (run p s)) \<Longrightarrow> R st (powershell_scan run tokens dyn seen ats st)"
proof (induction ats arbitrary: seen st)
  case (Cons at ats)
  note kept = R_rest_payload [of run, OF Cons.prems]
  show ?case
    using Cons.IH [OF Cons.prems] kept R_trans [OF kept Cons.IH [OF Cons.prems]]
    by (auto simp: R_refl R_dynamic split: option.splits)
qed (simp add: R_refl)

lemma R_find_exec_scan:
  "(\<And>l s. R s (note line l s)) \<Longrightarrow> R st (find_exec_scan (note line) ln index st)"
proof (induction "note line" ln index st rule: find_exec_scan.induct)
  case (1 ln index st)
  let ?stop = "exec_end (ln_words ln) (index + 1)"
  let ?st = "if index + 1 < ?stop
    then note line (exec_line ln (index + 1) ?stop) (st\<lparr>xp_nested := True\<rparr>) else st"
  have "R st ?st" using R_trans [OF R_nested 1(3)] R_refl by simp
  then show ?case
    using 1(1) [OF refl _ _ refl refl refl] 1(2) [OF refl] 1(3)
    by (subst find_exec_scan.simps) (auto simp: Let_def R_refl intro: R_trans)
qed

lemma R_record_source: "R st (record_source line dyn head st)"
  by (simp add: record_source_def R_dynamic R_refl split: option.split)

lemma R_record_trap: "(\<And>p s. R s (run p s)) \<Longrightarrow> R st (record_trap run tokens dyn head st)"
  by (simp add: record_trap_def R_code_payload R_refl split: option.split)

lemma R_record_option_payloads:
  "(\<And>p s. R s (run p s)) \<Longrightarrow> R st (record_option_payloads run tokens dyn head st)"
  unfolding record_option_payloads_def by (rule R_fold) (simp add: R_code_payload split: prod.split)

lemma R_record_joined_operands:
  "(\<And>p s. R s (run p s)) \<Longrightarrow> R st (record_joined_operands run tokens dyn heads head st)"
  unfolding record_joined_operands_def by (rule R_fold) (rule R_rest_payload)

lemma R_record_cmd: "(\<And>p s. R s (run p s)) \<Longrightarrow> R st (record_cmd run tokens dyn head st)"
  by (simp add: record_cmd_def Let_def R_code_payload R_refl split: option.split)

lemma R_record_powershell: "(\<And>p s. R s (run p s)) \<Longrightarrow> R st (record_powershell run tokens dyn head st)"
  unfolding record_powershell_def by (rule R_powershell_scan)

lemma R_record_shell: "(\<And>p s. R s (run p s)) \<Longrightarrow> R st (record_shell run line dyn head st)"
  by (simp add: record_shell_def Let_def R_dynamic R_fold R_code_payload split: ShellInput.split)

lemmas R_operands = R_rest_payload R_record_source R_record_trap R_record_option_payloads
  R_record_joined_operands R_record_cmd R_record_powershell R_record_shell R_refl

lemma R_record_operands:
  assumes "\<And>p s. R s (run p s)" and "\<And>l s. R s (note l s)"
  shows "R st (record_operands run note line dyn heads head st)"
  using R_find_exec_scan [of "\<lambda>_. note", OF assms(2)] assms(1)
  by (simp add: record_operands_def Let_def R_operands)

lemma R_emit_inner: "R st (emit_inner tokens heads head st)"
proof -
  let ?st = "if 0 < head then emit (drop head tokens) st else st"
  have "R st ?st" by (simp add: R_emit R_refl)
  then show ?thesis
    using R_trans [of st ?st "emit (drop (head + 1) tokens) ?st"] R_emit [of ?st "drop (head + 1) tokens"]
    by (simp add: emit_inner_def Let_def del: drop_drop)
qed

lemma R_record_head:
  assumes "\<And>p s. R s (run p s)" and "\<And>l s. R s (note l s)"
  shows "R st (record_head run note line dyn heads head st)"
  unfolding record_head_def Let_def
  by (rule R_trans [OF R_trans [OF R_trans [OF R_emit_inner R_dynamic] R_arguments] R_record_operands])
    (rule assms)+

lemma R_record_body:
  assumes "\<And>p s. R s (run p s)" and "\<And>l s. R s (note l s)"
  shows "R st (record_body run note line st)"
  unfolding record_body_def Let_def
  by (rule R_trans [OF R_trans [OF R_trans [OF R_emit R_dynamic] R_fold] R_fold])
    (rule assms R_record_head)+

lemma R_enter_text: "R st (enter_text depth input st)"
proof -
  have "R s (conservative_scan input s)" for s
    by (simp add: conservative_scan_def R_refl R_fold R_emit)
  then show ?thesis
    by (auto simp: enter_text_def Let_def intro: R_trans [OF R_nested])
qed

lemma R_expand: "R st (expand shlex depth input st)"
  and R_record_line: "R st (record_line shlex depth line st)"
proof (induction shlex depth input st and shlex depth line st rule: expand_record_line.induct)
  case (1 shlex depth input st)
  let ?lx = "lex (xp_literal_backslashes st) shlex input"
  let ?st = "note_syntax ?lx (enter_text depth input st)"
  show ?case
  proof (cases "MAX_DEPTH < depth \<or> MAX_COMMANDS \<le> length (xp_out st)")
    case False
    have a: "R st ?st" by (rule R_trans [OF R_enter_text R_syntax])
    have b: "R s (record_line shlex depth line s)" if "line \<in> set (lx_commands ?lx)" for line s
      using 1(1) [OF False refl refl that] .
    have c: "R s (expand shlex (depth + 1) inner s)" if "inner \<in> set (lx_nested ?lx)" for inner s
      using 1(2) [OF False refl refl refl that] .
    show ?thesis
      using False R_trans [OF a R_trans [OF R_fold R_fold], OF b c]
      by (subst expand.simps) (simp add: Let_def)
  qed (subst expand.simps, simp add: R_dynamic)
next
  case (2 shlex depth line st)
  then show ?case
    by (subst record_line.simps) (auto simp: R_refl R_dynamic intro: R_record_body)
qed

end

section \<open>The invariant and growth\<close>

definition expander_ok :: "Expander \<Rightarrow> bool" where
  "expander_ok st \<longleftrightarrow>
     xp_seen st = set (xp_out st) \<and> distinct (xp_out st) \<and> [] \<notin> set (xp_out st)
     \<and> length (xp_out st) \<le> MAX_COMMANDS"

definition grows :: "Expander \<Rightarrow> Expander \<Rightarrow> bool" where
  "grows st st' \<longleftrightarrow>
     prefix (xp_out st) (xp_out st') \<and> xp_literal_backslashes st' = xp_literal_backslashes st
     \<and> (xp_dynamic st \<longrightarrow> xp_dynamic st') \<and> (xp_nested st \<longrightarrow> xp_nested st')
     \<and> (xp_arguments_dynamic st \<longrightarrow> xp_arguments_dynamic st')
     \<and> (xp_control st \<longrightarrow> xp_control st') \<and> (xp_redirects st \<longrightarrow> xp_redirects st')"

lemma emit_cases:
  obtains "emit tokens st = st" and "joined_words tokens = [] \<or> joined_words tokens \<in> xp_seen st"
  | "emit tokens st = st\<lparr>xp_dynamic := True\<rparr>"
  | "emit tokens st = st\<lparr>xp_seen := insert (joined_words tokens) (xp_seen st),
        xp_out := xp_out st @ [joined_words tokens]\<rparr>"
    and "joined_words tokens \<noteq> []" and "joined_words tokens \<notin> xp_seen st"
    and "length (xp_out st) < MAX_COMMANDS"
proof -
  have dyn: "set_dynamic True st = st\<lparr>xp_dynamic := True\<rparr>" by (simp add: set_dynamic_def)
  show thesis
  proof (cases "joined_words tokens = [] \<or> joined_words tokens \<in> xp_seen st")
    case True
    then show thesis using that(1) by (simp add: emit_def)
  next
    case new: False
    show thesis
    proof (cases "MAX_COMMANDS \<le> length (xp_out st)")
      case True
      then show thesis using that(2) new dyn by (simp add: emit_def)
    next
      case False
      then show thesis using that(3) new by (simp add: emit_def Let_def)
    qed
  qed
qed

lemma expander_ok_emit: "expander_ok st \<Longrightarrow> expander_ok (emit tokens st)"
  by (cases rule: emit_cases [of tokens st]) (simp_all add: expander_ok_def)

lemma expander_ok_updates [simp]:
  "expander_ok (set_dynamic d st) = expander_ok st"
  "expander_ok (note_syntax lx st) = expander_ok st"
  "expander_ok (st\<lparr>xp_dynamic := d\<rparr>) = expander_ok st"
  "expander_ok (st\<lparr>xp_nested := d\<rparr>) = expander_ok st"
  "expander_ok (st\<lparr>xp_arguments_dynamic := d\<rparr>) = expander_ok st"
  "expander_ok (st\<lparr>xp_literal_backslashes := d\<rparr>) = expander_ok st"
  by (simp_all add: expander_ok_def set_dynamic_def note_syntax_def)

interpretation keeps_ok: expander_relation "\<lambda>st st'. expander_ok st \<longrightarrow> expander_ok st'"
  by unfold_locales (simp_all add: expander_ok_emit)

lemma grows_emit: "grows st (emit tokens st)"
  by (cases rule: emit_cases [of tokens st]) (simp_all add: grows_def)

lemma grows_trans: "grows a b \<Longrightarrow> grows b c \<Longrightarrow> grows a c"
  unfolding grows_def using prefix_order.trans by metis

interpretation growth: expander_relation grows
  by unfold_locales
    (rule grows_trans, assumption+ | simp add: grows_emit | simp add: grows_def set_dynamic_def note_syntax_def)+

lemma grows_out: "grows st st' \<Longrightarrow> x \<in> set (xp_out st) \<Longrightarrow> x \<in> set (xp_out st')"
  using set_mono_prefix by (fastforce simp: grows_def)

lemma expand_ok: "expander_ok st \<Longrightarrow> expander_ok (expand shlex depth input st)"
  using keeps_ok.R_expand by blast

lemma expand_start_ok:
  "expander_ok \<lparr>xp_out = [], xp_seen = {}, xp_literal_backslashes = l, xp_dynamic = d, xp_nested = n,
     xp_arguments_dynamic = a, xp_control = c, xp_redirects = r\<rparr>"
  by (simp add: expander_ok_def)

section \<open>Covered command lines\<close>

text \<open>A command line is covered by a state when it was emitted, is empty, or the state admits that
  something is unresolved.\<close>

definition covered :: "string list \<Rightarrow> Expander \<Rightarrow> bool" where
  "covered tokens st \<longleftrightarrow>
     joined_words tokens = [] \<or> joined_words tokens \<in> set (xp_out st) \<or> xp_dynamic st"

lemma covered_grows: "grows st st' \<Longrightarrow> covered tokens st \<Longrightarrow> covered tokens st'"
  using grows_out [of st st' "joined_words tokens"] by (auto simp: covered_def grows_def)

lemma covered_emit: "expander_ok st \<Longrightarrow> covered tokens (emit tokens st)"
  by (cases rule: emit_cases [of tokens st]) (auto simp: covered_def expander_ok_def)

lemma covered_dynamic: "xp_dynamic st \<Longrightarrow> covered tokens st"
  by (simp add: covered_def)

end
