(* ===== verification/ShellCover.thy ===== *)
theory ShellCover
  imports ShellContract
begin

text \<open>
  The limits of the expander fail closed. \<open>runs_text\<close> and \<open>runs_command\<close> say, without depth or
  count limits, which simple commands an input runs according to the parser: its own, those of the
  texts nested in it, those behind wrapper words, and those in the operands of \<open>eval\<close>, \<open>trap\<close>,
  shells, \<open>su\<close>, \<open>watch\<close>, \<open>cmd\<close>, \<open>env -S\<close> and \<open>find -exec\<close>. Each of them is emitted, or the
  expansion is marked dynamic.
\<close>

section \<open>What an input runs\<close>

definition marked :: "Line \<Rightarrow> bool list" where
  "marked line = mark_replacement_operands (ln_words line) (hw_heads (command_heads (ln_words line))) (ln_dynamic line)"

text \<open>The texts the command at \<open>head\<close> runs.\<close>

definition operand_payloads :: "Line \<Rightarrow> nat \<Rightarrow> string list" where
  "operand_payloads line head =
     (let tokens = ln_words line;
          name = command_name (tokens ! head);
          after = [head + 1 ..< length tokens]
      in if name = ''eval'' then [join '' '' (drop (head + 1) tokens)]
         else if name = ''trap''
         then (case List.find (\<lambda>at. \<not> starts_with (tokens ! at) ''-'') after of
                 Some at \<Rightarrow> [tokens ! at] | None \<Rightarrow> [])
         else if name \<in> set [''su'', ''runuser'', ''flock'', ''script'']
         then map fst (command_option_payloads tokens head (marked line))
         else if name = ''watch'' \<or> name = ''sg''
         then map (\<lambda>inner. join '' '' (drop inner tokens))
                (filter (\<lambda>inner. head < inner) (hw_heads (command_heads tokens)))
         else if name = ''cmd''
         then (case List.find (\<lambda>at. to_ascii_lowercase (tokens ! at) \<in> set [''/c'', ''/k'', ''/r'']) after of
                 Some at \<Rightarrow> [join '' '' (drop (at + 1) tokens)] | None \<Rightarrow> [])
         else if name \<in> set SHELL_NAMES
         then (case shell_input (drop head tokens) of
                 CommandInput offsets \<Rightarrow> map (\<lambda>offset. tokens ! (head + offset)) offsets
               | _ \<Rightarrow> [])
         else [])"

definition payloads :: "Line \<Rightarrow> string list" where
  "payloads line =
     (let hw = command_heads (ln_words line)
      in hw_payloads hw @ concat (map (operand_payloads line) (hw_heads hw)))"

function exec_lines :: "Line \<Rightarrow> nat \<Rightarrow> Line list" where
  "exec_lines line index =
     (let tokens = ln_words line in
      if length tokens \<le> index then []
      else if tokens ! index \<in> set [''-exec'', ''-execdir'', ''-ok'', ''-okdir'']
      then let stop = exec_end tokens (index + 1)
           in (if index + 1 < stop then [exec_line line (index + 1) stop] else [])
              @ exec_lines line (stop + 1)
      else exec_lines line (index + 1))"
  by pat_completeness auto
termination
  by (relation "measure (\<lambda>(line, index). length (ln_words line) - index)") (auto simp: exec_end_def)

declare exec_lines.simps [simp del]

inductive runs_text :: "bool \<Rightarrow> shlex \<Rightarrow> string \<Rightarrow> Line \<Rightarrow> bool"
  and runs_command :: "bool \<Rightarrow> shlex \<Rightarrow> Line \<Rightarrow> Line \<Rightarrow> bool" for literal shlex where
  of_line: "line \<in> set (lx_commands (lex literal shlex input)) \<Longrightarrow> runs_command literal shlex line l
    \<Longrightarrow> runs_text literal shlex input l"
| of_nested: "inner \<in> set (lx_nested (lex literal shlex input)) \<Longrightarrow> runs_text literal shlex inner l
    \<Longrightarrow> runs_text literal shlex input l"
| itself: "ln_words line \<noteq> [] \<Longrightarrow> runs_command literal shlex line line"
| unwrapped: "head \<in> set (hw_heads (command_heads (ln_words line)))
    \<Longrightarrow> runs_command literal shlex line (line\<lparr>ln_words := drop head (ln_words line)\<rparr>)"
| of_payload: "payload \<in> set (payloads line) \<Longrightarrow> runs_text literal shlex payload l
    \<Longrightarrow> runs_command literal shlex line l"
| of_exec: "head \<in> set (hw_heads (command_heads (ln_words line)))
    \<Longrightarrow> command_name (ln_words line ! head) = ''find''
    \<Longrightarrow> sub \<in> set (exec_lines line (head + 1)) \<Longrightarrow> runs_command literal shlex sub l
    \<Longrightarrow> runs_command literal shlex line l"

section \<open>Coverage is established and kept\<close>

text \<open>A step that is reached establishes what it establishes for every good state.\<close>

lemma fold_reaches:
  assumes "x \<in> set xs" and "expander_ok st"
    and ok: "\<And>y s. expander_ok s \<Longrightarrow> expander_ok (f y s)"
    and grow: "\<And>y s. grows s (f y s)"
    and here: "\<And>s. expander_ok s \<Longrightarrow> xp_literal_backslashes s = xp_literal_backslashes st \<Longrightarrow> covered t (f x s)"
  shows "covered t (fold f xs st)"
  using assms(1,2) here
proof (induction xs arbitrary: st)
  case (Cons y ys)
  have lit: "xp_literal_backslashes (f y st) = xp_literal_backslashes st"
    using grow [of st y] by (simp add: grows_def)
  show ?case
  proof (cases "x = y")
    case True
    have "grows (f y st) (fold f ys (f y st))" by (rule growth.R_fold) (rule grow)
    then show ?thesis using Cons.prems(2,3) True by (auto intro: covered_grows)
  next
    case False
    with Cons.prems(1) have "x \<in> set ys" by simp
    from Cons.IH [OF this ok [OF Cons.prems(2)]] show ?thesis
      using Cons.prems(3) by (simp add: lit)
  qed
qed simp

lemma find_exec_scan_fold:
  "find_exec_scan note line index st =
     fold (\<lambda>l st. note l (st\<lparr>xp_nested := True\<rparr>)) (exec_lines line index) st"
proof (induction "note" line index st rule: find_exec_scan.induct)
  case (1 n line index st)
  then show ?case
    by (subst find_exec_scan.simps, subst exec_lines.simps) (simp add: Let_def)
qed

section \<open>One level of the expansion\<close>

locale level_callbacks =
  fixes run :: run and nested_command :: "Line \<Rightarrow> Expander \<Rightarrow> Expander"
  assumes run_ok: "expander_ok s \<Longrightarrow> expander_ok (run p s)"
    and run_grows: "grows s (run p s)"
    and nested_ok: "expander_ok s \<Longrightarrow> expander_ok (nested_command l s)"
    and nested_grows: "grows s (nested_command l s)"
begin

text \<open>\<open>hits p t st\<close>: running \<open>p\<close> covers \<open>t\<close> from every good state that reads backslashes as \<open>st\<close> does.\<close>

definition hits :: "string \<Rightarrow> string list \<Rightarrow> Expander \<Rightarrow> bool" where
  "hits p t st \<longleftrightarrow> (\<forall>s. expander_ok s \<longrightarrow> xp_literal_backslashes s = xp_literal_backslashes st
     \<longrightarrow> covered t (run p s))"

lemma hits_literal:
  "xp_literal_backslashes s = xp_literal_backslashes st \<Longrightarrow> hits p t s = hits p t st"
  by (simp add: hits_def)

lemma hits_grows: "grows st s \<Longrightarrow> hits p t s = hits p t st"
  by (rule hits_literal) (simp add: grows_def)

lemma code_payload_hits:
  "hits p t st \<Longrightarrow> expander_ok st \<Longrightarrow> covered t (code_payload run p d st)"
  by (simp add: hits_def code_payload_def set_dynamic_def)

lemma code_payload_keeps:
  "expander_ok s \<Longrightarrow> expander_ok (code_payload run p d s)" "grows s (code_payload run p d s)"
  using keeps_ok.R_code_payload [of run] growth.R_code_payload [of run] run_ok run_grows by blast+

lemma fold_code_payload_hits:
  assumes "x \<in> set xs" and "g x = p" and "hits p t st" and "expander_ok st"
  shows "covered t (fold (\<lambda>x. code_payload run (g x) (d x)) xs st)"
proof (rule fold_reaches [OF assms(1,4)])
  fix s assume "expander_ok s" "xp_literal_backslashes s = xp_literal_backslashes st"
  with assms(2,3) show "covered t (code_payload run (g x) (d x) s)"
    using code_payload_hits hits_literal by blast
qed (simp_all add: code_payload_keeps)

lemma operands_hit:
  assumes p: "p \<in> set (operand_payloads line head)" and "hits p t st" and ok: "expander_ok st"
  shows "covered t (record_operands run nested_command line (marked line)
           (hw_heads (command_heads (ln_words line))) head st)"
proof -
  let ?name = "command_name (ln_words line ! head)"
  note hit = code_payload_hits [OF assms(2) ok]
  note hit_fold = fold_code_payload_hits [OF _ _ assms(2) ok]
  consider "?name = ''eval''" | "?name = ''trap''"
    | "?name \<in> set [''su'', ''runuser'', ''flock'', ''script'']"
    | "?name = ''watch'' \<or> ?name = ''sg''" | "?name = ''cmd''"
    | "?name \<noteq> ''eval''" "?name \<noteq> ''trap''" "?name \<notin> set [''su'', ''runuser'', ''flock'', ''script'']"
      "\<not> (?name = ''watch'' \<or> ?name = ''sg'')" "?name \<noteq> ''cmd''"
    by blast
  then show ?thesis
  proof cases
    case 1
    with p hit show ?thesis by (simp add: operand_payloads_def record_operands_def rest_payload_def)
  next
    case 2
    with p hit show ?thesis
      by (auto simp: operand_payloads_def record_operands_def record_trap_def Let_def split: option.splits)
  next
    case 3
    with p have "\<exists>x \<in> set (command_option_payloads (ln_words line) head (marked line)). fst x = p"
      by (auto simp: operand_payloads_def)
    then obtain x where x: "x \<in> set (command_option_payloads (ln_words line) head (marked line))" "fst x = p" ..
    from 3 hit_fold [where g = fst and d = snd, OF x] show ?thesis
      by (auto simp: record_operands_def record_option_payloads_def split_def)
  next
    case 4
    with p obtain i where i: "i \<in> set (filter (\<lambda>i. head < i) (hw_heads (command_heads (ln_words line))))"
      "join '' '' (drop i (ln_words line)) = p"
      by (auto simp: operand_payloads_def Let_def)
    from 4 hit_fold [where g = "\<lambda>i. join '' '' (drop i (ln_words line))"
        and d = "\<lambda>i. list_ex id (drop i (marked line))", OF i] show ?thesis
      by (auto simp: record_operands_def record_joined_operands_def rest_payload_def [abs_def] Let_def)
  next
    case 5
    with p hit show ?thesis
      by (auto simp: operand_payloads_def record_operands_def record_cmd_def Let_def split: option.splits)
  next
    case 6
    have shell: "?name \<in> set SHELL_NAMES"
    proof (rule ccontr)
      assume "?name \<notin> set SHELL_NAMES"
      with 6 p show False by (simp add: operand_payloads_def del: list.set(2))
    qed
    with 6 p have p': "p \<in> set (case shell_input (drop head (ln_words line)) of
        CommandInput offs \<Rightarrow> map (\<lambda>at. ln_words line ! (head + at)) offs | _ \<Rightarrow> [])"
      by (simp add: operand_payloads_def Let_def del: list.set(2))
    obtain offs at where offs: "shell_input (drop head (ln_words line)) = CommandInput offs" "at \<in> set offs"
      "ln_words line ! (head + at) = p"
    proof (cases "shell_input (drop head (ln_words line))")
      case (CommandInput offs)
      with p' that show thesis by auto
    qed (use p' in auto)
    from 6 shell hit_fold [where g = "\<lambda>k. ln_words line ! (head + k)"
        and d = "\<lambda>k. marked line ! (head + k)", OF offs(2,3)] offs(1) show ?thesis
      by (auto simp: record_operands_def record_shell_def Let_def SHELL_NAMES_def)
  qed
qed

lemmas keep_operands_ok = mp [OF keeps_ok.R_record_operands [of run nested_command, OF impI [OF run_ok] impI [OF nested_ok]]]
lemmas keep_head_ok = mp [OF keeps_ok.R_record_head [of run nested_command, OF impI [OF run_ok] impI [OF nested_ok]]]
lemmas keep_body_ok = mp [OF keeps_ok.R_record_body [of run nested_command, OF impI [OF run_ok] impI [OF nested_ok]]]
lemmas keep_operands_grows = growth.R_record_operands [of run nested_command, OF run_grows nested_grows]
lemmas keep_head_grows = growth.R_record_head [of run nested_command, OF run_grows nested_grows]
lemmas keep_body_grows = growth.R_record_body [of run nested_command, OF run_grows nested_grows]
lemmas keep = keep_operands_ok keep_head_ok keep_body_ok
  keep_operands_grows keep_head_grows keep_body_grows

text \<open>The state in which \<open>record_head\<close> looks at the operands, and the one the heads start from.\<close>

definition operands_state :: "Line \<Rightarrow> bool list \<Rightarrow> nat list \<Rightarrow> nat \<Rightarrow> Expander \<Rightarrow> Expander" where
  "operands_state line dyn heads head st =
     (let s = set_dynamic (unknown_word (ln_words line) dyn head) (emit_inner (ln_words line) heads head st)
      in s\<lparr>xp_arguments_dynamic := xp_arguments_dynamic s \<or> list_ex id (drop (head + 1) dyn)\<rparr>)"

lemma record_head_operands:
  "record_head run nested_command line dyn heads head st =
     record_operands run nested_command line dyn heads head (operands_state line dyn heads head st)"
  by (simp add: record_head_def operands_state_def Let_def)

lemma operands_state_keeps:
  "expander_ok st \<Longrightarrow> expander_ok (operands_state line dyn heads head st)"
  "grows st (operands_state line dyn heads head st)"
  using keeps_ok.R_emit_inner
  by (simp_all add: operands_state_def Let_def growth.R_trans [OF growth.R_trans [OF growth.R_emit_inner growth.R_dynamic] growth.R_arguments])

definition heads_state :: "Line \<Rightarrow> Expander \<Rightarrow> Expander" where
  "heads_state line st =
     (let hw = command_heads (ln_words line)
      in fold run (hw_payloads hw) (set_dynamic (hw_truncated hw) (emit (ln_words line) st)))"

lemma record_body_heads:
  "record_body run nested_command line st =
     (let heads = hw_heads (command_heads (ln_words line))
      in fold (record_head run nested_command line (marked line) heads) heads (heads_state line st))"
  by (simp add: record_body_def heads_state_def marked_def Let_def)

lemma heads_state_keeps:
  "expander_ok st \<Longrightarrow> expander_ok (heads_state line st)" "grows st (heads_state line st)"
  using keeps_ok.R_fold [of _ run] run_ok run_grows
  by (auto simp: heads_state_def Let_def expander_ok_emit
      intro!: growth.R_trans [OF growth.R_trans [OF growth.R_emit growth.R_dynamic] growth.R_fold])

text \<open>What one recorded line covers: its words, the command behind each head, its payloads and the
  commands of \<open>find -exec\<close>.\<close>

lemma heads_hit:
  assumes "head \<in> set (hw_heads (command_heads (ln_words line)))" and ok: "expander_ok st"
    and "\<And>s. expander_ok s \<Longrightarrow> xp_literal_backslashes s = xp_literal_backslashes st
      \<Longrightarrow> covered t (record_head run nested_command line (marked line)
            (hw_heads (command_heads (ln_words line))) head s)"
  shows "covered t (record_body run nested_command line st)"
proof -
  have lit: "xp_literal_backslashes (heads_state line st) = xp_literal_backslashes st"
    using heads_state_keeps(2) by (simp add: grows_def)
  show ?thesis
    unfolding record_body_heads Let_def
    by (rule fold_reaches [OF assms(1) heads_state_keeps(1) [OF ok]]) (simp_all add: keep assms(3) lit)
qed

lemma body_covers_itself:
  "expander_ok st \<Longrightarrow> covered (ln_words line) (record_body run nested_command line st)"
  unfolding record_body_def Let_def
  by (rule covered_grows [OF _ covered_emit [of st]])
    (auto intro!: growth.R_trans [OF growth.R_trans [OF growth.R_dynamic growth.R_fold] growth.R_fold] run_grows keep)

lemma body_covers_unwrapped:
  assumes head: "head \<in> set (hw_heads (command_heads (ln_words line)))" and ok: "expander_ok st"
  shows "covered (drop head (ln_words line)) (record_body run nested_command line st)"
proof (cases "head = 0")
  case True
  then show ?thesis using body_covers_itself [OF ok] by simp
next
  case False
  show ?thesis
  proof (rule heads_hit [OF head ok])
    fix s assume s: "expander_ok s"
    let ?heads = "hw_heads (command_heads (ln_words line))"
    let ?e = "emit (drop head (ln_words line)) s"
    have "grows ?e (emit_inner (ln_words line) ?heads head s)"
      using False by (simp add: emit_inner_def Let_def growth.R_emit growth.R_refl del: drop_drop)
    then have "grows ?e (operands_state line (marked line) ?heads head s)"
      unfolding operands_state_def Let_def by (rule growth.R_trans [OF growth.R_trans [OF _ growth.R_dynamic] growth.R_arguments])
    then show "covered (drop head (ln_words line)) (record_head run nested_command line (marked line) ?heads head s)"
      unfolding record_head_operands using covered_emit [OF s] covered_grows keep_operands_grows by blast
  qed
qed

lemma body_covers_payload:
  assumes p: "p \<in> set (payloads line)" and hit: "hits p t st" and ok: "expander_ok st"
  shows "covered t (record_body run nested_command line st)"
proof -
  let ?hw = "command_heads (ln_words line)"
  from p consider "p \<in> set (hw_payloads ?hw)"
    | head where "head \<in> set (hw_heads ?hw)" "p \<in> set (operand_payloads line head)"
    by (auto simp: payloads_def Let_def)
  then show ?thesis
  proof cases
    case 1
    let ?s = "set_dynamic (hw_truncated ?hw) (emit (ln_words line) st)"
    have s: "expander_ok ?s" "grows st ?s"
      using ok by (simp_all add: expander_ok_emit growth.R_trans [OF growth.R_emit growth.R_dynamic])
    from hit hits_grows [OF s(2)] have "hits p t ?s" by blast
    then have "covered t (heads_state line st)"
      unfolding heads_state_def Let_def
      by (intro fold_reaches [OF 1 s(1)]) (simp_all only: run_ok run_grows hits_def)
    then show ?thesis
      unfolding record_body_heads Let_def
      by (rule covered_grows [rotated]) (rule growth.R_fold, rule keep)
  next
    case (2 head)
    show ?thesis
    proof (rule heads_hit [OF 2(1) ok])
      fix s assume s: "expander_ok s" "xp_literal_backslashes s = xp_literal_backslashes st"
      let ?heads = "hw_heads ?hw"
      note kept = operands_state_keeps [of s line "marked line" ?heads head]
      from s(2) hit have "hits p t s" using hits_literal by blast
      then have "hits p t (operands_state line (marked line) ?heads head s)"
        using hits_grows [OF kept(2)] by blast
      then show "covered t (record_head run nested_command line (marked line) ?heads head s)"
        unfolding record_head_operands by (rule operands_hit [OF 2(2) _ kept(1) [OF s(1)]])
    qed
  qed
qed

lemma body_covers_exec:
  assumes head: "head \<in> set (hw_heads (command_heads (ln_words line)))"
    and name: "command_name (ln_words line ! head) = ''find''"
    and sub: "sub \<in> set (exec_lines line (head + 1))" and ok: "expander_ok st"
    and hit: "\<And>s. expander_ok s \<Longrightarrow> xp_literal_backslashes s = xp_literal_backslashes st
      \<Longrightarrow> covered t (nested_command sub s)"
  shows "covered t (record_body run nested_command line st)"
proof (rule heads_hit [OF head ok])
  fix s assume s: "expander_ok s" "xp_literal_backslashes s = xp_literal_backslashes st"
  let ?s = "operands_state line (marked line) (hw_heads (command_heads (ln_words line))) head s"
  have lit: "xp_literal_backslashes ?s = xp_literal_backslashes st"
    using operands_state_keeps(2) s(2) by (simp add: grows_def)
  have "covered t (fold (\<lambda>l st. nested_command l (st\<lparr>xp_nested := True\<rparr>)) (exec_lines line (head + 1)) ?s)"
  proof (rule fold_reaches [OF sub operands_state_keeps(1) [OF s(1)]])
    show "grows s (nested_command l (s\<lparr>xp_nested := True\<rparr>))" for l s
      by (rule growth.R_trans [OF growth.R_nested nested_grows])
  qed (simp_all add: nested_ok hit lit)
  then show "covered t (record_head run nested_command line (marked line)
      (hw_heads (command_heads (ln_words line))) head s)"
    unfolding record_head_operands record_operands_def Let_def find_exec_scan_fold
    using name by simp
qed

end

interpretation level: level_callbacks
  "\<lambda>payload st. expand shlex depth payload st" "\<lambda>line st. record_line shlex depth line st"
  for shlex depth
  by unfold_locales
    (simp_all add: keeps_ok.R_expand [rule_format] keeps_ok.R_record_line [rule_format]
      growth.R_expand growth.R_record_line)

section \<open>Every command is covered\<close>

lemma record_line_body:
  "ln_words line \<noteq> [] \<Longrightarrow> record_line shlex depth line st =
     (if MAX_DEPTH < depth then set_dynamic True st
      else record_body (\<lambda>payload st. expand shlex (depth + 1) payload st)
             (\<lambda>line st. record_line shlex (depth + 1) line st) line st)"
  by (subst record_line.simps) simp

lemma limit_covers: "covered t (set_dynamic True st)"
  by (simp add: covered_def set_dynamic_def)

lemma head_walk_nil: "command_heads [] = \<lparr>hw_heads = [], hw_payloads = [], hw_truncated = False\<rparr>"
  by (simp add: command_heads_def)

lemma exec_lines_nil: "ln_words line = [] \<Longrightarrow> exec_lines line index = []"
  by (subst exec_lines.simps) simp

lemma runs_covered:
  "runs_text literal shlex input l \<Longrightarrow>
     expander_ok st \<Longrightarrow> xp_literal_backslashes st = literal \<Longrightarrow>
     covered (ln_words l) (expand shlex depth input st)"
  "runs_command literal shlex line l \<Longrightarrow>
     expander_ok st \<Longrightarrow> xp_literal_backslashes st = literal \<Longrightarrow>
     covered (ln_words l) (record_line shlex depth line st)"
proof (induction arbitrary: depth st and depth st rule: runs_text_runs_command.inducts)
  case (of_line line input l)
  let ?lx = "lex literal shlex input"
  let ?st = "note_syntax ?lx (enter_text depth input st)"
  let ?mid = "fold (\<lambda>line st. record_line shlex depth line st) (lx_commands ?lx) ?st"
  have grow: "grows st ?st" by (rule growth.R_trans [OF growth.R_enter_text growth.R_syntax])
  have ok: "expander_ok ?st" using keeps_ok.R_enter_text of_line(4) by simp
  have lit: "xp_literal_backslashes ?st = literal" using grow of_line(5) by (simp add: grows_def)
  have "covered (ln_words l) ?mid"
    by (rule fold_reaches [OF of_line(1) ok])
      (simp_all add: lit of_line(3) level.nested_ok level.nested_grows)
  then have "covered (ln_words l) (fold (\<lambda>inner st. expand shlex (depth + 1) inner st) (lx_nested ?lx) ?mid)"
    by (rule covered_grows [rotated]) (rule growth.R_fold, rule growth.R_expand)
  then show ?case using of_line(5) limit_covers by (subst expand.simps) (simp add: Let_def)
next
  case (of_nested inner input l)
  let ?lx = "lex literal shlex input"
  let ?st = "note_syntax ?lx (enter_text depth input st)"
  let ?mid = "fold (\<lambda>line st. record_line shlex depth line st) (lx_commands ?lx) ?st"
  have grow: "grows st ?mid"
    by (rule growth.R_trans [OF growth.R_trans [OF growth.R_enter_text growth.R_syntax] growth.R_fold])
      (rule growth.R_record_line)
  have ok: "expander_ok ?mid"
    using keeps_ok.R_fold [of "lx_commands ?lx" "\<lambda>line st. record_line shlex depth line st" ?st]
      keeps_ok.R_record_line keeps_ok.R_enter_text of_nested(4) by simp
  have lit: "xp_literal_backslashes ?mid = literal" using grow of_nested(5) by (simp add: grows_def)
  have "covered (ln_words l) (fold (\<lambda>inner st. expand shlex (depth + 1) inner st) (lx_nested ?lx) ?mid)"
    by (rule fold_reaches [OF of_nested(1) ok])
      (simp_all add: lit of_nested(3) level.run_ok level.run_grows)
  then show ?case using of_nested(5) limit_covers by (subst expand.simps) (simp add: Let_def)
next
  case (itself line)
  then show ?case
    by (simp add: record_line_body limit_covers level.body_covers_itself)
next
  case (unwrapped head line)
  then have "ln_words line \<noteq> []" by (auto simp: head_walk_nil)
  with unwrapped show ?case
    by (simp add: record_line_body limit_covers level.body_covers_unwrapped)
next
  case (of_payload payload line l)
  have "ln_words line \<noteq> []" using of_payload(1) by (auto simp: payloads_def head_walk_nil)
  moreover have "level.hits shlex (depth + 1) payload (ln_words l) st"
    using of_payload(3) of_payload(4,5) by (simp add: level.hits_def)
  ultimately show ?case
    using level.body_covers_payload [OF of_payload(1) _ of_payload(4)]
    by (simp add: record_line_body limit_covers)
next
  case (of_exec head line sub l)
  have "ln_words line \<noteq> []" using of_exec(3) by (auto simp: exec_lines_nil)
  moreover have "covered (ln_words l) (record_body (\<lambda>payload st. expand shlex (depth + 1) payload st)
      (\<lambda>line st. record_line shlex (depth + 1) line st) line st)"
    by (rule level.body_covers_exec [OF of_exec(1-3) of_exec(6)])
      (rule of_exec(5), auto simp: of_exec(7))
  ultimately show ?case by (simp add: record_line_body limit_covers)
qed

end
