(* ===== verification/ShellHeads.thy ===== *)
theory ShellHeads
  imports ShellWords
begin

text \<open>
  The walk of \<open>command_heads\<close> against its grammar. \<open>head_reach\<close> is the declarative reading: a
  position may hold a command word when some reading of the assignments, wrapper words, options
  and operands before it leads there. A walk that was not cut short finds exactly those positions.
\<close>

section \<open>The grammar\<close>

definition fresh_walk :: HeadWalk where
  "fresh_walk = \<lparr>hw_heads = [], hw_payloads = [], hw_truncated = False\<rparr>"

inductive head_reach :: "string list \<Rightarrow> nat \<Rightarrow> HeadState \<Rightarrow> bool" for tokens where
  reach_start: "head_reach tokens 0 CommandAt"
| reach_step: "head_reach tokens i state \<Longrightarrow> i < length tokens
    \<Longrightarrow> (j, state') \<in> set (fst (visit_head tokens i state fresh_walk)) \<Longrightarrow> head_reach tokens j state'"

section \<open>What a visit does\<close>

text \<open>A visit pushes the same states whatever was found before.\<close>

lemma fst_visit_command: "fst (visit_command tokens i hw) = fst (visit_command tokens i hw')"
  by (simp add: visit_command_def Let_def split: option.split)

lemma fst_visit_long:
  "fst (visit_long_option tokens i spec long same hw) = fst (visit_long_option tokens i spec long same hw')"
  by (simp add: visit_long_option_def Let_def split_def)

lemma fst_visit_short:
  "fst (visit_short_options tokens i spec flags same hw) = fst (visit_short_options tokens i spec flags same hw')"
  by (simp add: visit_short_options_def Let_def split: option.split)

lemma fst_visit_wrapper: "fst (visit_wrapper tokens i w n d hw) = fst (visit_wrapper tokens i w n d hw')"
  using fst_visit_long [where hw = hw and hw' = hw'] fst_visit_short [where hw = hw and hw' = hw']
  by (simp add: visit_wrapper_def Let_def split: option.split)

lemma fst_visit_head: "fst (visit_head tokens i state hw) = fst (visit_head tokens i state fresh_walk)"
  using fst_visit_command fst_visit_wrapper by (simp add: visit_head_def split: HeadState.split)

lemma push_payloads_heads [simp]:
  "hw_heads (push_payloads value hw) = hw_heads hw" "hw_truncated (push_payloads value hw) = hw_truncated hw"
  by (simp_all add: push_payloads_def split: option.split)

lemma visit_wrapper_heads:
  "hw_heads (snd (visit_wrapper tokens i w n d hw)) = hw_heads hw"
  "hw_truncated (snd (visit_wrapper tokens i w n d hw)) = hw_truncated hw"
  by (auto simp: visit_wrapper_def visit_long_option_def visit_short_options_def Let_def
      split: option.split prod.split)

lemma visit_head_heads:
  "set (hw_heads (snd (visit_head tokens i state hw))) =
     set (hw_heads hw) \<union> (if state = CommandAt \<and> \<not> env_assignment_word (tokens ! i) then {i} else {})"
  "distinct (hw_heads hw) \<Longrightarrow> distinct (hw_heads (snd (visit_head tokens i state hw)))"
  "hw_truncated (snd (visit_head tokens i state hw)) = hw_truncated hw"
  by (auto simp: visit_head_def visit_wrapper_heads visit_command_def Let_def
      split: HeadState.split option.split)

section \<open>The walk\<close>

text \<open>What holds of the worklist: \<open>seen\<close> states were reached and processed.\<close>

definition walk_inv ::
  "string list \<Rightarrow> (nat \<times> HeadState) list \<Rightarrow> (nat \<times> HeadState) list \<Rightarrow> HeadWalk \<Rightarrow> bool" where
  "walk_inv tokens stack seen hw \<longleftrightarrow>
     (\<forall>i s. (i, s) \<in> set stack \<union> set seen \<longrightarrow> head_reach tokens i s)
     \<and> (0, CommandAt) \<in> set stack \<union> set seen
     \<and> (\<forall>i s. (i, s) \<in> set seen \<longrightarrow> i < length tokens)
     \<and> (\<forall>i s j s'. (i, s) \<in> set seen \<longrightarrow> (j, s') \<in> set (fst (visit_head tokens i s fresh_walk))
          \<longrightarrow> (j, s') \<in> set stack \<union> set seen \<or> length tokens \<le> j)
     \<and> set (hw_heads hw) = {i. (i, CommandAt) \<in> set seen \<and> \<not> env_assignment_word (tokens ! i)}
     \<and> distinct (hw_heads hw) \<and> \<not> hw_truncated hw"

lemma walk_inv_start: "walk_inv tokens [(0, CommandAt)] [] fresh_walk"
  by (simp add: walk_inv_def fresh_walk_def reach_start)

lemma walk_inv_skip:
  assumes inv: "walk_inv tokens ((i, s) # stack) seen hw"
    and out: "length tokens \<le> i \<or> (i, s) \<in> set seen" and ne: "tokens \<noteq> []"
  shows "walk_inv tokens stack seen hw"
  unfolding walk_inv_def
proof (intro conjI)
  show "(0, CommandAt) \<in> set stack \<union> set seen"
    using inv out ne unfolding walk_inv_def by auto
  show "\<forall>j t k u. (j, t) \<in> set seen \<longrightarrow> (k, u) \<in> set (fst (visit_head tokens j t fresh_walk))
      \<longrightarrow> (k, u) \<in> set stack \<union> set seen \<or> length tokens \<le> k"
  proof (intro allI impI)
    fix j t k u
    assume "(j, t) \<in> set seen" "(k, u) \<in> set (fst (visit_head tokens j t fresh_walk))"
    with inv have "(k, u) \<in> set ((i, s) # stack) \<union> set seen \<or> length tokens \<le> k"
      unfolding walk_inv_def by blast
    with out show "(k, u) \<in> set stack \<union> set seen \<or> length tokens \<le> k" by auto
  qed
qed (use inv in \<open>unfold walk_inv_def, simp_all\<close>)

lemma walk_inv_visit:
  assumes inv: "walk_inv tokens ((i, s) # stack) seen hw" and i: "i < length tokens"
  shows "walk_inv tokens (fst (visit_head tokens i s hw) @ stack) ((i, s) # seen) (snd (visit_head tokens i s hw))"
proof -
  have reach: "head_reach tokens i s" using inv by (auto simp: walk_inv_def)
  have "head_reach tokens j t" if "(j, t) \<in> set (fst (visit_head tokens i s hw))" for j t
    using reach_step [OF reach i] that by (simp add: fst_visit_head [of tokens i s hw])
  note pushed = this
  note heads = visit_head_heads [where tokens = tokens and i = i and state = s and hw = hw]
  let ?push = "fst (visit_head tokens i s hw)"
  show ?thesis
    unfolding walk_inv_def
  proof (intro conjI)
    show "\<forall>j t. (j, t) \<in> set (?push @ stack) \<union> set ((i, s) # seen) \<longrightarrow> head_reach tokens j t"
      using inv pushed reach unfolding walk_inv_def by auto
    show "(0, CommandAt) \<in> set (?push @ stack) \<union> set ((i, s) # seen)"
      using inv unfolding walk_inv_def by auto
    show "\<forall>j t. (j, t) \<in> set ((i, s) # seen) \<longrightarrow> j < length tokens"
      using inv i unfolding walk_inv_def by auto
    show "\<forall>j t k u. (j, t) \<in> set ((i, s) # seen) \<longrightarrow> (k, u) \<in> set (fst (visit_head tokens j t fresh_walk))
        \<longrightarrow> (k, u) \<in> set (?push @ stack) \<union> set ((i, s) # seen) \<or> length tokens \<le> k"
    proof (intro allI impI)
      fix j t k u
      assume jt: "(j, t) \<in> set ((i, s) # seen)" and ku: "(k, u) \<in> set (fst (visit_head tokens j t fresh_walk))"
      show "(k, u) \<in> set (?push @ stack) \<union> set ((i, s) # seen) \<or> length tokens \<le> k"
      proof (cases "(j, t) = (i, s)")
        case True
        with ku show ?thesis using fst_visit_head [of tokens i s hw] by simp
      next
        case False
        with jt have "(j, t) \<in> set seen" by auto
        with inv ku have "(k, u) \<in> set ((i, s) # stack) \<union> set seen \<or> length tokens \<le> k"
          unfolding walk_inv_def by blast
        then show ?thesis by auto
      qed
    qed
    show "set (hw_heads (snd (visit_head tokens i s hw))) =
        {j. (j, CommandAt) \<in> set ((i, s) # seen) \<and> \<not> env_assignment_word (tokens ! j)}"
      using inv unfolding walk_inv_def heads(1) by auto
    show "distinct (hw_heads (snd (visit_head tokens i s hw)))"
      using inv heads(2) unfolding walk_inv_def by simp
    show "\<not> hw_truncated (snd (visit_head tokens i s hw))"
      using inv heads(3) unfolding walk_inv_def by simp
  qed
qed

lemma walk_complete:
  assumes "walk_inv tokens stack seen hw" and "tokens \<noteq> []"
    and "\<not> hw_truncated (head_walk tokens stack seen hw)"
  shows "\<exists>seen'. walk_inv tokens [] seen' (head_walk tokens stack seen hw)"
  using assms
proof (induction tokens stack seen hw rule: head_walk.induct)
  case (2 tokens i s stack seen hw)
  show ?case
  proof (cases "length tokens \<le> i \<or> (i, s) \<in> set seen")
    case True
    then show ?thesis using 2 walk_inv_skip [OF 2(3) True 2(4)] by auto
  next
    case False
    with 2(5) have room: "\<not> MAX_HEAD_STATES \<le> length seen" by (auto simp: Let_def split_def)
    with False have step: "head_walk tokens ((i, s) # stack) seen hw =
        head_walk tokens (fst (visit_head tokens i s hw) @ stack) ((i, s) # seen) (snd (visit_head tokens i s hw))"
      by (simp add: Let_def split_def)
    from 2(2) [OF False room refl prod.collapse] show ?thesis
      using walk_inv_visit [OF 2(3)] False 2(4,5) unfolding step by simp
  qed
qed auto

lemma walk_inv_heads:
  assumes "walk_inv tokens [] seen hw" and "tokens \<noteq> []"
  shows "set (hw_heads hw) = {i. i < length tokens \<and> head_reach tokens i CommandAt \<and> \<not> env_assignment_word (tokens ! i)}"
proof -
  have "(i, s) \<in> set seen" if "head_reach tokens i s" "i < length tokens" for i s
    using that
  proof induction
    case reach_start
    with assms show ?case by (simp add: walk_inv_def)
  next
    case (reach_step i s j s')
    with assms show ?case by (fastforce simp: walk_inv_def)
  qed
  with assms(1) show ?thesis by (fastforce simp: walk_inv_def)
qed

lemma heads_complete:
  assumes "\<not> hw_truncated (command_heads tokens)"
  shows "set (hw_heads (command_heads tokens)) =
     {i. i < length tokens \<and> head_reach tokens i CommandAt \<and> \<not> env_assignment_word (tokens ! i)}"
    and "sorted (hw_heads (command_heads tokens)) \<and> distinct (hw_heads (command_heads tokens))"
proof -
  let ?hw = "head_walk tokens [(0, CommandAt)] [] fresh_walk"
  have hw: "command_heads tokens = ?hw\<lparr>hw_heads := sort (hw_heads ?hw)\<rparr>"
    by (simp add: command_heads_def fresh_walk_def Let_def)
  show "set (hw_heads (command_heads tokens)) =
     {i. i < length tokens \<and> head_reach tokens i CommandAt \<and> \<not> env_assignment_word (tokens ! i)}"
  proof (cases "tokens = []")
    case True
    then show ?thesis by (simp add: command_heads_def)
  next
    case False
    then show ?thesis using walk_complete [OF walk_inv_start False] walk_inv_heads assms by (auto simp: hw)
  qed
  show "sorted (hw_heads (command_heads tokens)) \<and> distinct (hw_heads (command_heads tokens))"
  proof (cases "tokens = []")
    case True
    then show ?thesis by (simp add: command_heads_def)
  next
    case False
    then show ?thesis using walk_complete [OF walk_inv_start False] assms by (auto simp: hw walk_inv_def)
  qed
qed

end
