(* ===== verification/ShellSyntax.thy ===== *)
theory ShellSyntax
  imports ShellExpand
begin

text \<open>
  What the word splitter makes of well-formed text. A word is spelled as a sequence of pieces, bare
  or quoted (\<open>r"f"\<close>, \<open>'a;b'\<close>); commands are words with blanks between them, and a chain is
  commands with operators between them. The splitter gives back the words without their quotes,
  one line per command, and nothing nested; a \<open>$( .. )\<close> body is handed on as nested text.
\<close>

section \<open>Spelling\<close>

datatype piece = Bare string | Single string | Double string

fun piece_text :: "piece \<Rightarrow> string" where
  "piece_text (Bare w) = w"
| "piece_text (Single w) = [CHR 0x27] @ w @ [CHR 0x27]"
| "piece_text (Double w) = [CHR 0x22] @ w @ [CHR 0x22]"

fun piece_word :: "piece \<Rightarrow> string" where
  "piece_word (Bare w) = w"
| "piece_word (Single w) = w"
| "piece_word (Double w) = w"

text \<open>The characters that mean something to the splitter outside quotes.\<close>

definition special :: "char list" where
  "special = [CHR ''#'', CHR 0x5C, CHR 0x27, CHR 0x22, CHR ''$'', CHR 0x60, CHR ''<'', CHR ''>'', CHR ''&'',
     CHR '' '', CHR 0x09, CHR ''('', CHR '')'', CHR 0x0A, CHR 0x0D, CHR '';'', CHR ''|'', CHR ''*'', CHR ''?'',
     CHR ''['', CHR ''{'']"

fun piece_ok :: "piece \<Rightarrow> bool" where
  "piece_ok (Bare w) \<longleftrightarrow> w \<noteq> [] \<and> list_all (\<lambda>c. c \<notin> set special) w"
| "piece_ok (Single w) \<longleftrightarrow> CHR 0x27 \<notin> set w"
| "piece_ok (Double w) \<longleftrightarrow> list_all (\<lambda>c. c \<notin> set [CHR 0x22, CHR 0x5C, CHR 0x60, CHR ''$'']) w"

type_synonym spelled = "piece list"

definition word_text :: "spelled \<Rightarrow> string" where "word_text ps = concat (map piece_text ps)"
definition word_of :: "spelled \<Rightarrow> string" where "word_of ps = concat (map piece_word ps)"

definition word_ok :: "spelled \<Rightarrow> bool" where "word_ok ps \<longleftrightarrow> ps \<noteq> [] \<and> list_all piece_ok ps"

text \<open>The text of one command, its words separated by single blanks.\<close>

definition command_text :: "spelled list \<Rightarrow> string" where
  "command_text ws = join '' '' (map word_text ws)"

definition command_ok :: "spelled list \<Rightarrow> bool" where
  "command_ok ws \<longleftrightarrow> ws \<noteq> [] \<and> list_all word_ok ws
     \<and> list_all (\<lambda>w. word_of w \<noteq> ''{'' \<and> word_of w \<noteq> ''}'') ws
     \<and> word_of (hd ws) \<notin> set RESERVED_PREFIXES"

definition command_line :: "spelled list \<Rightarrow> Line" where
  "command_line ws = \<lparr>ln_words = map word_of ws, ln_dynamic = replicate (length ws) False, ln_heredoc = False\<rparr>"

text \<open>Separators: blanks and control operators, at least one operator.\<close>

definition operators :: "char list" where
  "operators = [CHR 0x0A, CHR 0x0D, CHR '';'', CHR ''&'', CHR ''|'']"

definition blanks :: "char list" where "blanks = [CHR '' '', CHR 0x09]"

definition separator_ok :: "string \<Rightarrow> bool" where
  "separator_ok sep \<longleftrightarrow> list_all (\<lambda>c. c \<in> set blanks \<or> c \<in> set operators) sep
     \<and> list_ex (\<lambda>c. c \<in> set operators) sep"

fun chain_text :: "(spelled list \<times> string) list \<Rightarrow> string" where
  "chain_text [] = []"
| "chain_text ((ws, sep) # rest) = command_text ws @ sep @ chain_text rest"

fun chain_ok :: "(spelled list \<times> string) list \<Rightarrow> bool" where
  "chain_ok [] \<longleftrightarrow> True"
| "chain_ok ((ws, sep) # rest) \<longleftrightarrow>
     command_ok ws \<and> (separator_ok sep \<or> (sep = [] \<and> rest = [])) \<and> chain_ok rest"

section \<open>Words\<close>

text \<open>The word buffer after the pieces of a word.\<close>

definition add_text :: "string \<Rightarrow> bool \<Rightarrow> LexState \<Rightarrow> LexState" where
  "add_text w quoted st =
     st\<lparr>lx_word := (lx_word st)\<lparr>wb_text := wb_text (lx_word st) @ w, wb_started := True,
        wb_quoted := wb_quoted (lx_word st) \<or> quoted\<rparr>\<rparr>"

lemma add_text_add_text: "add_text v q (add_text w p st) = add_text (w @ v) (p \<or> q) st"
  by (simp add: add_text_def)

lemma lex_char_plain:
  "c \<notin> set special \<Longrightarrow> lex_char lit sx c cs st = (0, add_text [c] False st)"
  by (simp add: lex_char_def special_def opens_substitution_def opens_heredoc_def arm_other_def
      push_char_def add_text_def Let_def)

lemma lex_bare:
  "list_all (\<lambda>c. c \<notin> set special) w \<Longrightarrow> w \<noteq> [] \<Longrightarrow>
   lex_loop lit sx (w @ cs) st = lex_loop lit sx cs (add_text w False st)"
proof (induction w arbitrary: st)
  case (Cons c w)
  then have "lex_loop lit sx ((c # w) @ cs) st = lex_loop lit sx (w @ cs) (add_text [c] False st)"
    by (simp add: lex_loop.simps lex_char_plain del: list.set)
  also have "\<dots> = lex_loop lit sx cs (add_text (c # w) False st)"
  proof (cases "w = []")
    case False
    with Cons.IH [of "add_text [c] False st"] Cons.prems show ?thesis by (simp add: add_text_add_text)
  qed simp
  finally show ?case .
qed simp

lemma until_char_append: "d \<notin> set w \<Longrightarrow> until_char d (w @ d # cs) = length w"
  by (induction w) (auto simp: until_char_def)

lemma lex_single:
  "CHR 0x27 \<notin> set w \<Longrightarrow>
   lex_loop lit sx (CHR 0x27 # w @ CHR 0x27 # cs) st = lex_loop lit sx cs (add_text w True st)"
  by (simp add: lex_loop.simps lex_char_def arm_single_quote_def until_char_append add_text_def Let_def)

lemma lex_dquote_plain:
  "list_all (\<lambda>c. c \<notin> set [CHR 0x22, CHR 0x5C, CHR 0x60, CHR ''$'']) w \<Longrightarrow>
   lex_dquote lit (w @ CHR 0x22 # cs) st =
     (length w, st\<lparr>lx_word := (lx_word st)\<lparr>wb_text := wb_text (lx_word st) @ w\<rparr>\<rparr>)"
  by (induction w arbitrary: st) (simp_all add: lex_dquote.simps push_char_def Let_def)

lemma started_first:
  "(w :: WordBuf)\<lparr>wb_started := True, wb_quoted := True, wb_text := t\<rparr> =
   w\<lparr>wb_text := t, wb_started := True, wb_quoted := True\<rparr>"
  by (cases w) simp

lemma lex_double:
  "list_all (\<lambda>c. c \<notin> set [CHR 0x22, CHR 0x5C, CHR 0x60, CHR ''$'']) w \<Longrightarrow>
   lex_loop lit sx (CHR 0x22 # w @ CHR 0x22 # cs) st = lex_loop lit sx cs (add_text w True st)"
  by (simp add: lex_loop.simps lex_char_def arm_double_quote_def lex_dquote_plain add_text_def Let_def started_first
      del: list.set)

lemma lex_piece:
  "piece_ok p \<Longrightarrow> \<exists>q. lex_loop lit sx (piece_text p @ cs) st = lex_loop lit sx cs (add_text (piece_word p) q st)"
  by (cases p) (auto simp: lex_bare lex_single lex_double simp del: list.set)

lemma lex_word:
  "word_ok ps \<Longrightarrow> \<exists>q. lex_loop lit sx (word_text ps @ cs) st = lex_loop lit sx cs (add_text (word_of ps) q st)"
proof (induction ps arbitrary: st)
  case (Cons p ps)
  then obtain q where q: "lex_loop lit sx (piece_text p @ word_text ps @ cs) st =
      lex_loop lit sx (word_text ps @ cs) (add_text (piece_word p) q st)"
    using lex_piece by (auto simp: word_ok_def) meson
  show ?case
  proof (cases "ps = []")
    case True
    then show ?thesis using q by (auto simp: word_text_def word_of_def)
  next
    case False
    with Cons obtain q' where "lex_loop lit sx (word_text ps @ cs) (add_text (piece_word p) q st) =
        lex_loop lit sx cs (add_text (word_of ps) q' (add_text (piece_word p) q st))"
      by (auto simp: word_ok_def)
    then show ?thesis using q by (auto simp: word_text_def word_of_def add_text_add_text)
  qed
qed (simp add: word_ok_def)

section \<open>Lines\<close>

text \<open>Between words: nothing pending in the word buffer.\<close>

definition idle :: "LexState \<Rightarrow> bool" where "idle st \<longleftrightarrow> lx_word st = empty_word"

definition add_word :: "string \<Rightarrow> LexState \<Rightarrow> LexState" where
  "add_word w st =
     st\<lparr>lx_line := (lx_line st)\<lparr>ln_words := ln_words (lx_line st) @ [w],
        ln_dynamic := ln_dynamic (lx_line st) @ [False]\<rparr>\<rparr>"

lemma flush_added: "idle st \<Longrightarrow> flush_word (add_text w q st) = add_word w st"
  by (cases st) (simp add: flush_word_def flush_def add_text_def add_word_def idle_def empty_word_def
      expands_at_run_time_def)

lemma flush_idle: "idle st \<Longrightarrow> flush_word st = st"
  by (cases st) (simp add: flush_word_def flush_def idle_def empty_word_def)

lemma idle_add_word [simp]: "idle (add_word w st) = idle st"
  by (simp add: idle_def add_word_def)

text \<open>The state after the words of a command, before what follows it: the last one still in the
  buffer.\<close>

lemma lex_blank: "lex_loop lit sx (CHR '' '' # cs) st = lex_loop lit sx cs (flush_word st)"
  by (simp add: lex_loop.simps lex_char_def opens_substitution_def opens_heredoc_def)

lemma lex_command:
  "ws \<noteq> [] \<Longrightarrow> list_all word_ok ws \<Longrightarrow> idle st \<Longrightarrow>
   \<exists>q. lex_loop lit sx (command_text ws @ cs) st =
     lex_loop lit sx cs (add_text (word_of (last ws)) q (fold (\<lambda>w. add_word (word_of w)) (butlast ws) st))"
proof (induction ws arbitrary: st)
  case (Cons w ws)
  show ?case
  proof (cases ws)
    case Nil
    with Cons.prems lex_word [of w] show ?thesis by (simp add: command_text_def join_def)
  next
    case (Cons v vs)
    with Cons.prems have "word_ok w" by simp
    then obtain q where "lex_loop lit sx (word_text w @ CHR '' '' # command_text ws @ cs) st =
        lex_loop lit sx (CHR '' '' # command_text ws @ cs) (add_text (word_of w) q st)"
      using lex_word by blast
    then have step: "lex_loop lit sx (command_text (w # ws) @ cs) st =
        lex_loop lit sx (command_text ws @ cs) (add_word (word_of w) st)"
      using Cons.prems(3) Cons by (simp add: lex_blank flush_added command_text_def join_Cons_Cons)
    have "ws \<noteq> []" "list_all word_ok ws" using Cons.prems Cons by simp_all
    with Cons.IH [of "add_word (word_of w) st"] Cons.prems(3) obtain q' where
      "lex_loop lit sx (command_text ws @ cs) (add_word (word_of w) st) =
        lex_loop lit sx cs (add_text (word_of (last ws)) q'
          (fold (\<lambda>w. add_word (word_of w)) (butlast ws) (add_word (word_of w) st)))"
      by auto
    moreover have "last (w # ws) = last ws" "butlast (w # ws) = w # butlast ws" using Cons by simp_all
    ultimately show ?thesis unfolding step by auto
  qed
qed simp

lemma fold_add_word:
  "fold (\<lambda>w. add_word (word_of w)) ws st =
     st\<lparr>lx_line := (lx_line st)\<lparr>ln_words := ln_words (lx_line st) @ map word_of ws,
        ln_dynamic := ln_dynamic (lx_line st) @ replicate (length ws) False\<rparr>\<rparr>"
  by (induction ws arbitrary: st) (simp_all add: add_word_def replicate_app_Cons_same)

lemma flush_command:
  assumes "ws \<noteq> []" and "idle st" and "lx_line st = empty_line"
  shows "flush_word (add_text (word_of (last ws)) q (fold (\<lambda>w. add_word (word_of w)) (butlast ws) st)) =
    st\<lparr>lx_line := command_line ws\<rparr>"
proof -
  let ?st = "fold (\<lambda>w. add_word (word_of w)) (butlast ws) st"
  have "idle ?st" using assms(2) by (simp add: fold_add_word idle_def)
  then have "flush_word (add_text (word_of (last ws)) q ?st) = add_word (word_of (last ws)) ?st"
    by (rule flush_added)
  also have "\<dots> = fold (\<lambda>w. add_word (word_of w)) (butlast ws @ [last ws]) st" by simp
  also have "\<dots> = fold (\<lambda>w. add_word (word_of w)) ws st" using assms(1) by simp
  finally show ?thesis using assms(3) by (simp add: fold_add_word empty_line_def command_line_def)
qed

lemma end_command_line:
  assumes "command_ok ws"
  shows "end_command commands (command_line ws) = commands @ [command_line ws]"
proof -
  have step: "fold end_word (zip us (replicate (length us) False)) (cs, piece) =
      (cs, piece\<lparr>ln_words := ln_words piece @ us, ln_dynamic := ln_dynamic piece @ replicate (length us) False\<rparr>)"
    if "list_all (\<lambda>u. u \<noteq> ''{'' \<and> u \<noteq> ''}'') us" "ln_words piece \<noteq> [] \<or> us = [] \<or> hd us \<notin> set RESERVED_PREFIXES" for us cs piece
    using that
    by (induction us arbitrary: piece) (auto simp: end_word_def replicate_app_Cons_same simp del: list.set)
  have "fold end_word (zip (map word_of ws) (replicate (length ws) False)) (commands, empty_line) =
      (commands, command_line ws)"
    using step [of "map word_of ws" empty_line] assms
    by (simp add: command_ok_def list.pred_map comp_def empty_line_def command_line_def hd_map)
  moreover have "empty_line\<lparr>ln_heredoc := False\<rparr> = empty_line" by (simp add: empty_line_def)
  ultimately show ?thesis
    using assms by (simp add: end_command_def command_line_def push_command_def command_ok_def)
qed

section \<open>Chains\<close>

lemma flush_flush: "flush_word (flush_word st) = flush_word st"
  by (simp add: flush_word_def flush_def Let_def)

lemma flush_control: "flush_word (st\<lparr>lx_control := b\<rparr>) = (flush_word st)\<lparr>lx_control := b\<rparr>"
  by (simp add: flush_word_def Let_def split_def)

lemma break_flush: "break_command (flush_word st) = break_command st"
  by (simp add: break_command_def flush_control flush_flush)

lemma flush_break: "flush_word (break_command st) = break_command st"
  by (simp add: break_command_def flush_word_def close_line_def flush_def Let_def)

lemma end_command_empty: "end_command commands empty_line = commands"
  by (simp add: end_command_def empty_line_def push_command_def)

lemma break_break: "break_command (break_command st) = break_command st"
proof -
  have "flush_word ((break_command st)\<lparr>lx_control := True\<rparr>) = (break_command st)\<lparr>lx_control := True\<rparr>"
    by (simp add: flush_control flush_break)
  moreover have "(break_command st)\<lparr>lx_control := True\<rparr> = break_command st"
    by (simp add: break_command_def close_line_def flush_control Let_def)
  moreover have "lx_line (break_command st) = empty_line" "\<not> wb_redirect_operand (lx_word (break_command st))"
    by (simp_all add: break_command_def close_line_def Let_def)
  ultimately show ?thesis
    by (subst break_command_def) (simp add: close_line_def end_command_empty Let_def)
qed

lemma break_heredocs [simp]: "lx_heredocs (break_command st) = lx_heredocs st"
  by (simp add: break_command_def close_line_def flush_word_def Let_def split_def)

lemma flush_heredocs [simp]: "lx_heredocs (flush_word st) = lx_heredocs st"
  by (simp add: flush_word_def Let_def split_def)

lemma lex_operator_char:
  "c = CHR 0x0A \<or> c = CHR 0x0D \<or> c = CHR '';'' \<or> c = CHR ''|'' \<or> c = CHR ''&'' \<and> redirection_len (c # cs) = 0
   \<Longrightarrow> lex_char lit sx c cs st = arm_operator c cs st"
  by (elim disjE conjE) (simp_all add: lex_char_def opens_substitution_def opens_heredoc_def)

lemma no_redirection: "cs = [] \<or> hd cs \<noteq> CHR ''>'' \<Longrightarrow> redirection_len (CHR ''&'' # cs) = 0"
  by (cases cs) (simp_all add: redirection_len_def starts_with_prefix)

lemma lex_operator:
  assumes "c \<in> set operators" and "lx_heredocs st = []" and "cs = [] \<or> hd cs \<noteq> CHR ''>''"
  shows "lex_loop lit sx (c # cs) st = lex_loop lit sx cs (break_command st)"
proof -
  have "lex_char lit sx c cs st = arm_operator c cs st"
    using assms(1) no_redirection [OF assms(3)] by (intro lex_operator_char) (auto simp: operators_def)
  then show ?thesis
    using assms(2) by (simp add: lex_loop.simps arm_operator_def Let_def)
qed

lemma lex_blanks:
  assumes "c \<in> set blanks" shows "lex_loop lit sx (c # cs) st = lex_loop lit sx cs (flush_word st)"
proof -
  have "c = CHR '' '' \<or> c = CHR 0x09" using assms by (simp add: blanks_def)
  then have "lex_char lit sx c cs st = (0, flush_word st)"
    by (elim disjE) (simp_all add: lex_char_def opens_substitution_def opens_heredoc_def)
  then show ?thesis by (simp add: lex_loop.simps)
qed

lemma sep_char_not_gt: "c \<in> set blanks \<or> c \<in> set operators \<Longrightarrow> c \<noteq> CHR ''>''"
  by (auto simp: blanks_def operators_def)

lemma lex_separator:
  assumes "list_all (\<lambda>c. c \<in> set blanks \<or> c \<in> set operators) sep" and "lx_heredocs st = []"
    and "cs = [] \<or> hd cs \<noteq> CHR ''>''"
  shows "lex_loop lit sx (sep @ cs) st = lex_loop lit sx cs
    (if list_ex (\<lambda>c. c \<in> set operators) sep then break_command st
     else if sep = [] then st else flush_word st)"
  using assms(1,2)
proof (induction sep arbitrary: st)
  case (Cons c sep)
  have next_char: "sep @ cs = [] \<or> hd (sep @ cs) \<noteq> CHR ''>''"
    using Cons.prems(1) assms(3) sep_char_not_gt by (cases sep) auto
  show ?case
  proof (cases "c \<in> set operators")
    case True
    with lex_operator [OF True Cons.prems(2) next_char] Cons.IH [of "break_command st"] Cons.prems
    show ?thesis by (simp add: break_break flush_break)
  next
    case False
    with Cons.prems(1) have "c \<in> set blanks" by simp
    with lex_blanks [OF this] Cons.IH [of "flush_word st"] Cons.prems False
    show ?thesis by (simp add: break_flush flush_flush)
  qed
qed simp

lemma word_text_head:
  assumes "word_ok w" shows "word_text w \<noteq> [] \<and> hd (word_text w) \<noteq> CHR ''>''"
proof -
  obtain p ps where "w = p # ps" "piece_ok p" using assms by (cases w) (auto simp: word_ok_def)
  moreover have "piece_text p \<noteq> [] \<and> hd (piece_text p) \<noteq> CHR ''>''"
    using \<open>piece_ok p\<close> by (cases p) (auto simp: special_def neq_Nil_conv)
  ultimately show ?thesis by (simp add: word_text_def)
qed

lemma chain_head:
  assumes "chain_ok ch" shows "chain_text ch = [] \<or> hd (chain_text ch) \<noteq> CHR ''>''"
proof (cases ch)
  case (Cons c rest)
  obtain ws sep where c: "c = (ws, sep)" by fastforce
  with assms Cons obtain w us where "ws = w # us" "word_ok w" by (cases ws) (auto simp: command_ok_def)
  then show ?thesis
    using word_text_head [of w] Cons c by (simp add: command_text_def join_def)
qed simp

text \<open>The state between two commands of a chain.\<close>

definition between :: "LexState \<Rightarrow> bool" where
  "between st \<longleftrightarrow> idle st \<and> lx_line st = empty_line \<and> lx_heredocs st = []"

lemma close_command:
  assumes "command_ok ws" and "between st"
  shows "close_line (flush_word (add_text (word_of (last ws)) q (fold (\<lambda>w. add_word (word_of w)) (butlast ws) st))) =
    st\<lparr>lx_commands := lx_commands st @ [command_line ws]\<rparr>"
proof -
  have "ws \<noteq> []" using assms(1) by (simp add: command_ok_def)
  moreover have "lx_line st = empty_line" using assms(2) by (simp add: between_def)
  ultimately show ?thesis
    using flush_command [of ws st] assms end_command_line [OF assms(1)]
    by (simp add: between_def close_line_def)
qed

lemma break_after_command:
  assumes "command_ok ws" and "between st"
  shows "break_command (add_text (word_of (last ws)) q (fold (\<lambda>w. add_word (word_of w)) (butlast ws) st)) =
    st\<lparr>lx_commands := lx_commands st @ [command_line ws], lx_control := True\<rparr>"
proof -
  let ?s = "add_text (word_of (last ws)) q (fold (\<lambda>w. add_word (word_of w)) (butlast ws) st)"
  have close_control: "close_line (s\<lparr>lx_control := True\<rparr>) = (close_line s)\<lparr>lx_control := True\<rparr>" for s
    by (simp add: close_line_def)
  have "close_line (flush_word (?s\<lparr>lx_control := True\<rparr>)) =
      st\<lparr>lx_commands := lx_commands st @ [command_line ws], lx_control := True\<rparr>"
    by (simp add: flush_control close_control close_command [OF assms])
  moreover have "lx_word st = empty_word" using assms(2) by (simp add: between_def idle_def)
  moreover from this have "(lx_word st)\<lparr>wb_redirect_operand := False\<rparr> = lx_word st"
    by (simp add: empty_word_def)
  ultimately show ?thesis by (simp add: break_command_def Let_def)
qed

definition chain_control :: "(spelled list \<times> string) list \<Rightarrow> bool" where
  "chain_control ch \<longleftrightarrow> list_ex (\<lambda>(ws, sep). sep \<noteq> []) ch"

lemma lex_chain:
  assumes "chain_ok ch" and "between st"
  shows "close_line (flush_word (lex_loop lit sx (chain_text ch) st)) =
    st\<lparr>lx_commands := lx_commands st @ map (\<lambda>c. command_line (fst c)) ch,
       lx_control := lx_control st \<or> chain_control ch\<rparr>"
  using assms
proof (induction ch arbitrary: st)
  case Nil
  then show ?case
    by (cases st) (simp add: between_def flush_idle close_line_def end_command_empty chain_control_def)
next
  case (Cons c ch)
  obtain ws sep where c: "c = (ws, sep)" by fastforce
  with Cons.prems have ok: "command_ok ws" "chain_ok ch" and sep: "separator_ok sep \<or> sep = [] \<and> ch = []"
    by auto
  let ?pend = "\<lambda>q. add_text (word_of (last ws)) q (fold (\<lambda>w. add_word (word_of w)) (butlast ws) st)"
  obtain q where q: "lex_loop lit sx (command_text ws @ sep @ chain_text ch) st =
      lex_loop lit sx (sep @ chain_text ch) (?pend q)"
    using lex_command [of ws st lit sx "sep @ chain_text ch"] ok(1) Cons.prems(2)
    by (auto simp: command_ok_def between_def)
  from sep show ?case
  proof
    assume "sep = [] \<and> ch = []"
    with q close_command [OF ok(1) Cons.prems(2), of q] show ?thesis
      by (simp add: c chain_control_def)
  next
    assume s: "separator_ok sep"
    let ?st = "st\<lparr>lx_commands := lx_commands st @ [command_line ws], lx_control := True\<rparr>"
    have "lx_heredocs (?pend q) = []" using Cons.prems(2) by (simp add: add_text_def fold_add_word between_def)
    then have "lex_loop lit sx (sep @ chain_text ch) (?pend q) = lex_loop lit sx (chain_text ch) ?st"
      using lex_separator [OF _ _ chain_head [OF ok(2)]] s break_after_command [OF ok(1) Cons.prems(2)]
      by (simp add: separator_ok_def)
    moreover have "between ?st" using Cons.prems(2) by (simp add: between_def idle_def)
    moreover have "sep \<noteq> []" using s by (auto simp: separator_ok_def)
    ultimately show ?thesis using q Cons.IH [OF ok(2), of ?st] by (simp add: c chain_control_def)
  qed
qed

lemma lex_of_chain:
  assumes "chain_ok ch"
  shows "lex lit sx (chain_text ch) =
    lex_start\<lparr>lx_commands := map (\<lambda>c. command_line (fst c)) ch, lx_control := chain_control ch\<rparr>"
  using lex_chain [OF assms, of lex_start lit sx]
  by (simp add: lex_def lex_start_def between_def idle_def)

end
