(* ===== verification/ToolRules.thy ===== *)
theory ToolRules
  imports Prelude
begin

text \<open>
  Tool names and tool-level deny rules (\<open>crates/execpolicy/src\<close>): the user-facing approval
  posture (\<open>approval_mode.rs\<close>), the table that resolves an action family to its per-action
  policy name (\<open>canonical_action.rs\<close>), and the matcher of tool deny lists (\<open>tool_rules.rs\<close>).
  A call's JSON input enters as the string found in its \<open>action\<close> field, if there is one.
\<close>

section \<open>Approval posture (approval_mode.rs)\<close>

datatype ApprovalMode = Auto | Bypass | Suggest | Never

definition from_auto_approve :: "bool \<Rightarrow> ApprovalMode" where
  "from_auto_approve auto_approve = (if auto_approve then Bypass else Suggest)"

definition PERMISSION_CYCLE :: "ApprovalMode list" where
  "PERMISSION_CYCLE = [Suggest, Auto, Bypass]"

fun mode_label :: "ApprovalMode \<Rightarrow> string" where
  "mode_label Auto = ''AUTO''"
| "mode_label Bypass = ''BYPASS''"
| "mode_label Suggest = ''SUGGEST''"
| "mode_label Never = ''NEVER''"

definition from_config_value :: "string \<Rightarrow> ApprovalMode option" where
  "from_config_value value =
     (let v = to_ascii_lowercase (trim value) in
      if v \<in> set [''auto'', ''auto-review'', ''auto_review''] then Some Auto
      else if v \<in> set [''bypass'', ''yolo'', ''dontask'', ''dont_ask'', ''bypass-permissions'',
                     ''bypasspermissions'', ''full-access'', ''full_access'', ''full'']
      then Some Bypass
      else if v \<in> set [''suggest'', ''suggested'', ''on-request'', ''untrusted'', ''ask'']
      then Some Suggest
      else if v \<in> set [''never'', ''deny'', ''denied''] then Some Never
      else None)"

fun agent_baseline_sandbox_mode :: "ApprovalMode \<Rightarrow> string" where
  "agent_baseline_sandbox_mode Bypass = ''danger-full-access''"
| "agent_baseline_sandbox_mode _ = ''workspace-write''"

fun position :: "'a \<Rightarrow> 'a list \<Rightarrow> nat option" where
  "position x [] = None"
| "position x (y # ys) = (if y = x then Some 0 else map_option Suc (position x ys))"

definition cycle_permission_next :: "ApprovalMode \<Rightarrow> ApprovalMode" where
  "cycle_permission_next m =
     (case position m PERMISSION_CYCLE of
        None \<Rightarrow> Suggest
      | Some index \<Rightarrow> PERMISSION_CYCLE ! ((index + 1) mod length PERMISSION_CYCLE))"

fun permission_chip_label :: "ApprovalMode \<Rightarrow> string" where
  "permission_chip_label Suggest = ''Ask''"
| "permission_chip_label Auto = ''Auto-Review''"
| "permission_chip_label Bypass = ''Full Access''"
| "permission_chip_label Never = ''Never''"

lemma cycle_permission_next_simps [simp]:
  "cycle_permission_next Suggest = Auto"
  "cycle_permission_next Auto = Bypass"
  "cycle_permission_next Bypass = Suggest"
  "cycle_permission_next Never = Suggest"
  by (simp_all add: cycle_permission_next_def PERMISSION_CYCLE_def)

lemma cycle_never_reaches_Never: "cycle_permission_next m \<noteq> Never"
  by (cases m) simp_all

lemma cycle_period:
  "(cycle_permission_next ^^ 3) m = m \<longleftrightarrow> m \<noteq> Never"
  by (cases m) (simp_all add: numeral_3_eq_3)

lemma mode_label_round_trip: "from_config_value (mode_label m) = Some m"
  by (cases m; hypsubst; code_simp)

section \<open>Action families (canonical_action.rs)\<close>

definition CANONICAL_ACTION_ALIASES :: "(string \<times> string \<times> string) list" where
  "CANONICAL_ACTION_ALIASES =
    [(''bash'', ''run'', ''exec_shell''),
     (''bash'', ''wait'', ''exec_shell_wait''),
     (''bash'', ''interact'', ''exec_shell_interact''),
     (''bash'', ''cancel'', ''exec_shell_cancel''),
     (''Bash'', ''run'', ''exec_shell''),
     (''Bash'', ''wait'', ''exec_shell_wait''),
     (''Bash'', ''interact'', ''exec_shell_interact''),
     (''Bash'', ''cancel'', ''exec_shell_cancel''),
     (''File'', ''read'', ''read_file''),
     (''File'', ''list'', ''list_dir''),
     (''File'', ''search_name'', ''file_search''),
     (''File'', ''search_content'', ''grep_files''),
     (''File'', ''write'', ''write_file''),
     (''File'', ''edit'', ''edit_file''),
     (''File'', ''patch'', ''apply_patch''),
     (''Git'', ''status'', ''git_status''),
     (''Git'', ''diff'', ''git_diff''),
     (''Git'', ''log'', ''git_log''),
     (''Git'', ''show'', ''git_show''),
     (''Git'', ''blame'', ''git_blame''),
     (''Git'', ''commit_plan'', ''git_commit_plan''),
     (''Git'', ''fetch'', ''git_fetch''),
     (''Git'', ''merge_tree'', ''git_merge_tree''),
     (''Git'', ''review_scope'', ''git_review_scope''),
     (''Run'', ''tests'', ''run_tests''),
     (''Run'', ''verifiers'', ''run_verifiers''),
     (''Web'', ''search'', ''web_search''),
     (''Web'', ''fetch'', ''fetch_url''),
     (''Web'', ''wait'', ''wait_for_dev_server''),
     (''rlm'', ''session_objects'', ''rlm_session_objects''),
     (''rlm'', ''open'', ''rlm_open''),
     (''rlm'', ''eval'', ''rlm_eval''),
     (''rlm'', ''configure'', ''rlm_configure''),
     (''rlm'', ''close'', ''rlm_close''),
     (''tasks'', ''create'', ''task_create''),
     (''tasks'', ''list'', ''task_list''),
     (''tasks'', ''read'', ''task_read''),
     (''tasks'', ''cancel'', ''task_cancel''),
     (''tasks'', ''gate_run'', ''task_gate_run''),
     (''tasks'', ''pr_attempt_record'', ''pr_attempt_record''),
     (''tasks'', ''pr_attempt_list'', ''pr_attempt_list''),
     (''tasks'', ''pr_attempt_read'', ''pr_attempt_read''),
     (''tasks'', ''pr_attempt_preflight'', ''pr_attempt_preflight''),
     (''automation'', ''create'', ''automation_create''),
     (''automation'', ''list'', ''automation_list''),
     (''automation'', ''read'', ''automation_read''),
     (''automation'', ''update'', ''automation_update''),
     (''automation'', ''pause'', ''automation_pause''),
     (''automation'', ''resume'', ''automation_resume''),
     (''automation'', ''delete'', ''automation_delete''),
     (''automation'', ''run'', ''automation_run''),
     (''github'', ''issue_context'', ''github_issue_context''),
     (''github'', ''pr_context'', ''github_pr_context''),
     (''github'', ''comment'', ''github_comment''),
     (''github'', ''close_issue'', ''github_close_issue''),
     (''github'', ''close_pr'', ''github_close_pr''),
     (''github'', ''report_draft'', ''github_report_draft''),
     (''github'', ''report_read'', ''github_report_read'')]"

text \<open>\<open>None\<close>: not a family; \<open>Some None\<close>: a family without a policy default.\<close>

definition action_family_default :: "string \<Rightarrow> string option option" where
  "action_family_default tool_name =
     (if tool_name \<in> set [''bash'', ''Bash''] then Some (Some ''run'')
      else if tool_name = ''File'' then Some (Some ''read'')
      else if tool_name = ''Git'' then Some (Some ''status'')
      else if tool_name = ''Run'' then Some (Some ''tests'')
      else if tool_name = ''Web'' then Some (Some ''search'')
      else if tool_name \<in> set [''rlm'', ''tasks'', ''automation'', ''github''] then Some None
      else None)"

definition is_action_family :: "string \<Rightarrow> bool" where
  "is_action_family tool_name \<longleftrightarrow> action_family_default tool_name \<noteq> None"

fun find_alias :: "string \<Rightarrow> string \<Rightarrow> (string \<times> string \<times> string) list \<Rightarrow> string option" where
  "find_alias tool action [] = None"
| "find_alias tool action ((f, a, alias) # rows) =
     (if f = tool \<and> a = action then Some alias else find_alias tool action rows)"

definition canonical_action_alias :: "string \<Rightarrow> string option \<Rightarrow> string" where
  "canonical_action_alias tool_name action_field =
     (if tool_name = ''read'' then ''read_file''
      else if tool_name = ''write'' then ''write_file''
      else if tool_name = ''edit'' then ''edit_file''
      else case action_family_default tool_name of
        None \<Rightarrow> tool_name
      | Some default_action \<Rightarrow>
          (case (case action_field of Some a \<Rightarrow> Some a | None \<Rightarrow> default_action) of
             None \<Rightarrow> tool_name
           | Some action \<Rightarrow>
               (case find_alias tool_name action CANONICAL_ACTION_ALIASES of
                  Some alias \<Rightarrow> alias
                | None \<Rightarrow> tool_name)))"

section \<open>Tool deny lists (tool_rules.rs)\<close>

text \<open>The arms of the \<open>match\<close>, one row per name.\<close>

definition policy_alias_table :: "(string \<times> string list) list" where
  "policy_alias_table =
     [(''read'', [''read'', ''read_file'', ''file'']),
      (''read_file'', [''read'', ''read_file'', ''file'']),
      (''write'', [''write'', ''write_file'', ''file'']),
      (''write_file'', [''write'', ''write_file'', ''file'']),
      (''edit'', [''edit'', ''edit_file'', ''file'']),
      (''edit_file'', [''edit'', ''edit_file'', ''file'']),
      (''file'', [''file'', ''read'', ''read_file'', ''write'', ''write_file'', ''edit'', ''edit_file'']),
      (''bash'', [''bash'', ''exec_shell'']),
      (''exec_shell'', [''bash'', ''exec_shell'']),
      (''mcp_read_resource'', [''mcp_read_resource'', ''read_mcp_resource'']),
      (''read_mcp_resource'', [''mcp_read_resource'', ''read_mcp_resource''])]"

definition policy_tool_aliases :: "string \<Rightarrow> string list" where
  "policy_tool_aliases name =
     (case map_of policy_alias_table name of Some names \<Rightarrow> names | None \<Rightarrow> [])"

text \<open>One rule against one candidate name: a trailing \<open>*\<close> makes it a prefix rule.\<close>

definition rule_matches_name :: "string \<Rightarrow> string \<Rightarrow> bool" where
  "rule_matches_name rule candidate =
     (case strip_suffix rule ''*'' of
        Some body \<Rightarrow> starts_with candidate body
      | None \<Rightarrow> candidate = rule)"

definition tool_matches_any_rule :: "string list \<Rightarrow> string \<Rightarrow> bool" where
  "tool_matches_any_rule rules tool_name =
     (let tool_name = to_ascii_lowercase tool_name in
      \<exists>rule \<in> set rules.
        \<exists>candidate \<in> set (tool_name # policy_tool_aliases tool_name).
          rule_matches_name (to_ascii_lowercase rule) candidate)"

definition requires_raw_shell :: "string \<Rightarrow> bool" where
  "requires_raw_shell name \<longleftrightarrow> to_ascii_lowercase name \<in> set
     [''bash'', ''exec_shell'', ''exec_shell_interact'', ''exec_interact'', ''task_shell_start'',
      ''task_gate_run'', ''task_create'', ''automation_create'', ''automation_update'',
      ''automation_resume'', ''automation_run'', ''terminal/run'', ''terminal/send'',
      ''terminal/reset'', ''code_execution'', ''js_execution'', ''rlm_eval'',
      ''start_mcp_server'', ''start_registry_mcp_server'']"

definition tool_denied :: "string list option \<Rightarrow> string \<Rightarrow> bool" where
  "tool_denied disallowed_tools tool_name =
     (case disallowed_tools of
        None \<Rightarrow> False
      | Some rules \<Rightarrow> tool_matches_any_rule rules tool_name
          \<or> (requires_raw_shell tool_name \<and> tool_matches_any_rule rules ''Bash''))"

section \<open>Lemmas\<close>

lemma tool_matches_any_rule_append:
  "tool_matches_any_rule (rs @ qs) t \<longleftrightarrow> tool_matches_any_rule rs t \<or> tool_matches_any_rule qs t"
  by (auto simp: tool_matches_any_rule_def Let_def)

lemma tool_matches_any_rule_mono:
  "set rs \<subseteq> set qs \<Longrightarrow> tool_matches_any_rule rs t \<Longrightarrow> tool_matches_any_rule qs t"
  by (fastforce simp: tool_matches_any_rule_def Let_def)

lemma tool_denied_mono:
  "set rs \<subseteq> set qs \<Longrightarrow> tool_denied (Some rs) t \<Longrightarrow> tool_denied (Some qs) t"
  by (auto simp: tool_denied_def intro: tool_matches_any_rule_mono)

lemma tool_matches_case:
  "to_ascii_lowercase s = to_ascii_lowercase t \<Longrightarrow>
   tool_matches_any_rule rs s = tool_matches_any_rule rs t"
  by (simp add: tool_matches_any_rule_def)

lemma requires_raw_shell_case:
  "to_ascii_lowercase s = to_ascii_lowercase t \<Longrightarrow> requires_raw_shell s = requires_raw_shell t"
  by (simp add: requires_raw_shell_def)

lemma tool_denied_case:
  "to_ascii_lowercase s = to_ascii_lowercase t \<Longrightarrow> tool_denied d s = tool_denied d t"
  by (simp add: tool_denied_def tool_matches_case [of s t] requires_raw_shell_case [of s t]
      split: option.splits)

lemma ends_with_star: "ends_with r ''*'' \<longleftrightarrow> r \<noteq> [] \<and> last r = CHR ''*''"
  by (cases r rule: rev_cases) (auto simp: ends_with_def)

lemma rule_matches_name_self: "rule_matches_name r r"
  by (auto simp: rule_matches_name_def strip_suffix_def starts_with_def ends_with_def
      split: option.splits)

lemma exact_rule_matches: "r \<in> set rs \<Longrightarrow> to_ascii_lowercase r = to_ascii_lowercase t \<Longrightarrow>
   tool_matches_any_rule rs t"
  by (force simp: tool_matches_any_rule_def Let_def rule_matches_name_self)

lemma star_denies_everything: "''*'' \<in> set rs \<Longrightarrow> tool_matches_any_rule rs t"
proof -
  assume "''*'' \<in> set rs"
  moreover have "rule_matches_name (to_ascii_lowercase ''*'') c" for c
    by (simp add: rule_matches_name_def to_ascii_lowercase_def strip_suffix_def ends_with_def
        starts_with_def)
  ultimately show ?thesis by (auto simp: tool_matches_any_rule_def Let_def)
qed

text \<open>The alias relation is symmetric, so a rule against one spelling reaches the other.\<close>

lemma policy_alias_table_sym:
  "list_all (\<lambda>(a, names). list_all (\<lambda>b. a \<in> set (policy_tool_aliases b)) names) policy_alias_table"
  by code_simp

lemma policy_tool_aliases_sym:
  assumes "b \<in> set (policy_tool_aliases a)"
  shows "a \<in> set (policy_tool_aliases b)"
proof -
  from assms obtain names where "(a, names) \<in> set policy_alias_table" and "b \<in> set names"
    by (auto simp: policy_tool_aliases_def dest: map_of_SomeD [OF sym] split: option.splits)
  with policy_alias_table_sym show ?thesis by (fastforce simp: list_all_iff)
qed

lemma alias_rule_matches:
  assumes "b \<in> set (policy_tool_aliases (to_ascii_lowercase a))"
    and "r \<in> set rs" and "to_ascii_lowercase r = b"
  shows "tool_matches_any_rule rs a"
  using assms rule_matches_name_self [of b] by (auto simp: tool_matches_any_rule_def Let_def)

lemma bash_denial_reaches_execution:
  "tool_matches_any_rule rs ''Bash'' \<Longrightarrow> requires_raw_shell t \<Longrightarrow> tool_denied (Some rs) t"
  by (simp add: tool_denied_def)

text \<open>Every row of the table is reached by its own family and action.\<close>

lemma alias_table_distinct:
  "distinct (map (\<lambda>(f, a, alias). (f, a)) CANONICAL_ACTION_ALIASES)"
  by code_simp

lemma alias_table_families:
  "list_all (\<lambda>(f, a, alias). is_action_family f \<and> f \<noteq> ''read'' \<and> f \<noteq> ''write'' \<and> f \<noteq> ''edit'')
     CANONICAL_ACTION_ALIASES"
  by code_simp

lemma find_alias_distinct:
  "distinct (map (\<lambda>(f, a, alias). (f, a)) rows) \<Longrightarrow> (f, a, alias) \<in> set rows \<Longrightarrow>
   find_alias f a rows = Some alias"
  by (induction rows) (force split: if_splits)+

lemma canonical_action_alias_row:
  assumes row: "(f, a, alias) \<in> set CANONICAL_ACTION_ALIASES"
  shows "canonical_action_alias f (Some a) = alias"
proof -
  from row alias_table_families
  have "is_action_family f" and f: "f \<noteq> ''read''" "f \<noteq> ''write''" "f \<noteq> ''edit''"
    by (fastforce simp: list_all_iff)+
  then obtain d where "action_family_default f = Some d" by (auto simp: is_action_family_def)
  with f find_alias_distinct [OF alias_table_distinct row] show ?thesis
    by (simp add: canonical_action_alias_def)
qed

lemma find_alias_in: "find_alias f a rows = Some alias \<Longrightarrow> (f, a, alias) \<in> set rows"
  by (induction f a rows rule: find_alias.induct) (auto split: if_splits)

end
