(* ===== verification/DenyMatch.thy ===== *)
theory DenyMatch
  imports Prelude
begin

text \<open>
  Matching of denied command prefixes (\<open>crates/execpolicy/src/lib.rs\<close>, the functions from
  \<open>fold_command_word_path\<close> to \<open>first_token\<close>). \<open>denied_prefix_matches\<close> is the source's
  depth-first search over pairs (command index, rule index) with a set of visited pairs;
  \<open>deny_spec\<close> is the plain backtracking matcher it is proved equal to. The compile-time
  \<open>cfg!(windows)\<close> is the argument \<open>windows\<close>.
\<close>

section \<open>Tokens\<close>

text \<open>The text after the last \<open>/\<close> or backslash (\<open>rsplit(['/', '\\']).next()\<close>).\<close>

definition rsplit_base :: "string \<Rightarrow> string" where
  "rsplit_base w = rev (takeWhile (\<lambda>c. c \<noteq> CHR ''/'' \<and> c \<noteq> CHR 0x5C) (rev w))"

text \<open>The first word up to a white-space character, and the rest after it.\<close>

fun split_once_ws :: "string \<Rightarrow> (string \<times> string) option" where
  "split_once_ws [] = None"
| "split_once_ws (c # cs) =
     (if ws_len (c # cs) > 0 then Some ([], drop (ws_len (c # cs) - 1) cs)
      else map_option (\<lambda>(a, b). (c # a, b)) (split_once_ws cs))"

definition fold_command_word_path :: "string \<Rightarrow> string option" where
  "fold_command_word_path command =
     (let command = trim_start command;
          (word, rest) = (case split_once_ws command of None \<Rightarrow> (command, []) | Some p \<Rightarrow> p);
          base = rsplit_base word
      in if base = [] then None
         else if length base \<noteq> length word
         then Some (if rest = [] then base else base @ '' '' @ rest)
         else None)"

function strip_dollar_parens :: "string \<Rightarrow> string" where
  "strip_dollar_parens t =
     (case strip_prefix t ''$('' of Some rest \<Rightarrow> strip_dollar_parens rest | None \<Rightarrow> t)"
  by pat_completeness auto
termination
  by (relation "measure length") (auto simp: strip_prefix_Some)

declare strip_dollar_parens.simps [simp del]

definition sanitize_shell_wrappers :: "string \<Rightarrow> string" where
  "sanitize_shell_wrappers token =
     (let t = dropWhile (\<lambda>c. c = CHR ''('' \<or> c = CHR ''{'') (strip_dollar_parens token)
      in rev (dropWhile (\<lambda>c. c = CHR '')'' \<or> c = CHR ''}'' \<or> c = CHR '';'') (rev t)))"

definition normalize_command :: "string \<Rightarrow> string" where
  "normalize_command value = to_ascii_lowercase (join '' '' (split_whitespace value))"

definition first_token :: "string \<Rightarrow> string" where
  "first_token command = (case split_whitespace command of [] \<Rightarrow> [] | t # _ \<Rightarrow> t)"

definition is_env_assignment :: "string \<Rightarrow> bool" where
  "is_env_assignment token =
     (case split_once (CHR ''='') token of
        Some (name, _) \<Rightarrow> name \<noteq> [] \<and> \<not> starts_with name ''-''
          \<and> list_all (\<lambda>ch. is_ascii_alphanumeric ch \<or> ch = CHR ''_'') name
      | None \<Rightarrow> False)"

definition is_single_letter_slash_flag :: "bool \<Rightarrow> string \<Rightarrow> bool" where
  "is_single_letter_slash_flag windows token =
     (windows \<and> (case token of [a, b] \<Rightarrow> a = CHR ''/'' \<and> is_ascii_alphabetic b | _ \<Rightarrow> False))"

definition command_word_matches :: "bool \<Rightarrow> string \<Rightarrow> string \<Rightarrow> bool" where
  "command_word_matches windows rule_token command_token =
     (if command_token = rule_token then True
      else if CHR ''/'' \<in> set rule_token \<or> CHR 0x5C \<in> set rule_token then False
      else let basename = rsplit_base command_token;
               basename =
                 (if windows \<and> \<not> ends_with rule_token ''.exe''
                  then (case strip_suffix basename ''.exe'' of Some stem \<Rightarrow> stem | None \<Rightarrow> basename)
                  else basename)
           in basename \<noteq> [] \<and> basename = rule_token)"

text \<open>A rule token matched at rule position \<open>j\<close>: the anchor folds paths, the rest is literal.\<close>

definition token_matches :: "bool \<Rightarrow> nat \<Rightarrow> string \<Rightarrow> string \<Rightarrow> bool" where
  "token_matches windows j rule_token token =
     (if j = 0 then command_word_matches windows rule_token token else token = rule_token)"

definition is_flag :: "bool \<Rightarrow> string \<Rightarrow> bool" where
  "is_flag windows token \<longleftrightarrow> starts_with token ''-'' \<or> is_single_letter_slash_flag windows token"

definition is_rule_option :: "string \<Rightarrow> bool" where
  "is_rule_option rule_token \<longleftrightarrow> length rule_token > 1 \<and> starts_with rule_token ''-''"

section \<open>The search\<close>

text \<open>
  The states pushed for state \<open>(i, j)\<close> with \<open>j\<close> inside the rule, in push order (the last one
  is popped first), once \<open>(i, j)\<close> is new.
\<close>

definition deny_push :: "bool \<Rightarrow> string list \<Rightarrow> string list \<Rightarrow> nat \<Rightarrow> nat \<Rightarrow> (nat \<times> nat) list" where
  "deny_push windows rule cmd i j =
     (if rule ! j = ''*''
      then (i, j + 1) # (if i < length cmd then [(i + 1, j)] else [])
      else let token = cmd ! i in
        (if token_matches windows j (rule ! j) token then [(i + 1, j + 1)] else [])
        @ (if is_flag windows token
           then (i + 1, j) # (if CHR ''='' \<notin> set token then [(i + 2, j)] else [])
           else if j > 0 \<and> is_rule_option (rule ! j) then [(i + 1, j)] else []))"

definition deny_grid :: "string list \<Rightarrow> string list \<Rightarrow> (nat \<times> nat) set" where
  "deny_grid rule cmd = {0..length cmd + 1} \<times> {0..length rule}"

text \<open>
  The loop \<open>while let Some((i, j)) = stack.pop()\<close>: the stack's top is the list's head. The
  source reads \<open>rule_tokens[j]\<close> only with \<open>j < len\<close>; no larger index is ever pushed
  (\<open>deny_push_bounds\<close>), and the model drops such a state.
\<close>

function deny_search ::
  "bool \<Rightarrow> string list \<Rightarrow> string list \<Rightarrow> (nat \<times> nat) set \<Rightarrow> (nat \<times> nat) list \<Rightarrow> bool" where
  "deny_search windows rule cmd seen [] = False"
| "deny_search windows rule cmd seen ((i, j) # stack) =
     (if j = length rule then True
      else if length rule < j then deny_search windows rule cmd seen stack
      else if rule ! j = ''*''
      then (if (i, j) \<in> seen then deny_search windows rule cmd seen stack
            else deny_search windows rule cmd (insert (i, j) seen)
                   (rev (deny_push windows rule cmd i j) @ stack))
      else if i \<ge> length cmd \<or> (i, j) \<in> seen then deny_search windows rule cmd seen stack
      else deny_search windows rule cmd (insert (i, j) seen)
             (rev (deny_push windows rule cmd i j) @ stack))"
  by pat_completeness auto

definition deny_weight :: "string list \<Rightarrow> string list \<Rightarrow> nat \<times> nat \<Rightarrow> nat" where
  "deny_weight rule cmd = (\<lambda>(i, j). if i \<le> length cmd + 1 then 1 else Suc (length rule - j))"

lemma finite_deny_grid [simp]: "finite (deny_grid rule cmd)"
  by (simp add: deny_grid_def)

lemma deny_weight_pos: "0 < deny_weight rule cmd s"
  by (cases s) (simp add: deny_weight_def)

lemma deny_grid_card_decr:
  "s \<in> deny_grid rule cmd \<Longrightarrow> s \<notin> seen \<Longrightarrow>
   card (deny_grid rule cmd - insert s seen) < card (deny_grid rule cmd - seen)"
  by (intro psubset_card_mono) auto

lemma deny_push_out:
  "rule ! j = ''*'' \<Longrightarrow> length cmd \<le> i \<Longrightarrow> deny_push windows rule cmd i j = [(i, j + 1)]"
  by (simp add: deny_push_def)

termination deny_search
proof (relation "measures [\<lambda>(w, rule, cmd, seen, stack). card (deny_grid rule cmd - seen),
      \<lambda>(w, rule, cmd, seen, stack). sum_list (map (deny_weight rule cmd) stack)]",
    goal_cases)
  case 1
  show ?case by simp
next
  case (2 windows rule cmd seen i j stack)
  show ?case using deny_weight_pos [of rule cmd "(i, j)"] by simp
next
  case (3 windows rule cmd seen i j stack)
  show ?case using deny_weight_pos [of rule cmd "(i, j)"] by simp
next
  case (4 windows rule cmd seen i j stack)
  show ?case
  proof (cases "i \<le> length cmd + 1")
    case True
    with 4 have "(i, j) \<in> deny_grid rule cmd" by (simp add: deny_grid_def)
    with 4 deny_grid_card_decr show ?thesis by simp
  next
    case False
    then have "deny_grid rule cmd - insert (i, j) seen = deny_grid rule cmd - seen"
      by (auto simp: deny_grid_def)
    with False 4 show ?thesis by (simp add: deny_push_out deny_weight_def)
  qed
next
  case (5 windows rule cmd seen i j stack)
  show ?case using deny_weight_pos [of rule cmd "(i, j)"] by simp
next
  case (6 windows rule cmd seen i j stack)
  then have "(i, j) \<in> deny_grid rule cmd" by (simp add: deny_grid_def)
  with 6 deny_grid_card_decr show ?case by simp
qed

declare deny_search.simps [simp del]

definition rule_tokens :: "string \<Rightarrow> string list" where
  "rule_tokens s =
     filter (\<lambda>t. t \<noteq> []) (map sanitize_shell_wrappers (split_whitespace (normalize_command s)))"

fun skip_env :: "string list \<Rightarrow> nat" where
  "skip_env [] = 0"
| "skip_env (t # ts) = (if is_env_assignment t then Suc (skip_env ts) else 0)"

definition denied_prefix_matches :: "bool \<Rightarrow> string \<Rightarrow> string \<Rightarrow> bool" where
  "denied_prefix_matches windows rule command =
     (let rule_toks = rule_tokens rule in
      if rule_toks = [] then False
      else let command_toks = rule_tokens command;
               start = skip_env command_toks
           in deny_search windows rule_toks command_toks {} [(start, 0)])"

section \<open>The reference matcher\<close>

text \<open>
  \<open>deny_spec windows anchored rs ts\<close>: the rule tokens \<open>rs\<close> match at the front of \<open>ts\<close>;
  \<open>anchored\<close> says that the head of \<open>rs\<close> is the rule's command word.
\<close>

function deny_spec :: "bool \<Rightarrow> bool \<Rightarrow> string list \<Rightarrow> string list \<Rightarrow> bool" where
  "deny_spec w anchored [] ts = True"
| "deny_spec w anchored (r # rs) [] = (r = ''*'' \<and> deny_spec w False rs [])"
| "deny_spec w anchored (r # rs) (t # ts) =
     (if r = ''*'' then deny_spec w False rs (t # ts) \<or> deny_spec w anchored (r # rs) ts
      else (token_matches w (if anchored then 0 else 1) r t \<and> deny_spec w False rs ts)
        \<or> (is_flag w t \<and> (deny_spec w anchored (r # rs) ts
              \<or> (CHR ''='' \<notin> set t \<and> deny_spec w anchored (r # rs) (drop 1 ts))))
        \<or> (\<not> is_flag w t \<and> \<not> anchored \<and> is_rule_option r \<and> deny_spec w anchored (r # rs) ts))"
  by pat_completeness auto
termination
  by (relation "measure (\<lambda>(w, a, rs, ts). length rs + length ts)") auto

lemma deny_push_bounds:
  "j < length rule \<Longrightarrow> (i', j') \<in> set (deny_push windows rule cmd i j) \<Longrightarrow> j' \<le> length rule"
  by (auto simp: deny_push_def Let_def split: if_splits)

definition deny_ok :: "bool \<Rightarrow> string list \<Rightarrow> string list \<Rightarrow> nat \<times> nat \<Rightarrow> bool" where
  "deny_ok w rule cmd = (\<lambda>(i, j). j \<le> length rule \<and> deny_spec w (j = 0) (drop j rule) (drop i cmd))"

section \<open>The search finds exactly what the reference matcher accepts\<close>

lemma token_matches_pos: "token_matches w j r t = token_matches w (if j = 0 then 0 else 1) r t"
  by (simp add: token_matches_def)

definition deny_live :: "string list \<Rightarrow> string list \<Rightarrow> nat \<times> nat \<Rightarrow> bool" where
  "deny_live rule cmd = (\<lambda>(i, j). j < length rule \<and> (rule ! j = ''*'' \<or> i < length cmd))"

lemma drop_nth_Cons: "i < length xs \<Longrightarrow> drop i xs = xs ! i # drop (Suc i) xs"
  by (simp add: Cons_nth_drop_Suc)

lemma deny_ok_dead:
  "j < length rule \<Longrightarrow> \<not> deny_live rule cmd (i, j) \<Longrightarrow> \<not> deny_ok w rule cmd (i, j)"
  by (simp add: deny_ok_def deny_live_def drop_nth_Cons)

lemma deny_push_Bex:
  "(\<exists>s \<in> set (deny_push w rule cmd i j). P s) \<longleftrightarrow>
     (if rule ! j = ''*'' then P (i, j + 1) \<or> (i < length cmd \<and> P (i + 1, j))
      else (token_matches w j (rule ! j) (cmd ! i) \<and> P (i + 1, j + 1))
        \<or> (is_flag w (cmd ! i) \<and> (P (i + 1, j) \<or> (CHR ''='' \<notin> set (cmd ! i) \<and> P (i + 2, j))))
        \<or> (\<not> is_flag w (cmd ! i) \<and> j > 0 \<and> is_rule_option (rule ! j) \<and> P (i + 1, j)))"
  unfolding deny_push_def Let_def by (auto split: if_split)

lemma deny_ok_live:
  assumes live: "deny_live rule cmd (i, j)"
  shows "deny_ok w rule cmd (i, j) \<longleftrightarrow> (\<exists>s \<in> set (deny_push w rule cmd i j). deny_ok w rule cmd s)"
proof -
  from live have j: "j < length rule" by (simp add: deny_live_def)
  then have rj: "drop j rule = rule ! j # drop (j + 1) rule" by (simp add: drop_nth_Cons)
  show ?thesis
  proof (cases "i < length cmd")
    case True
    then have "drop i cmd = cmd ! i # drop (i + 1) cmd" by (simp add: drop_nth_Cons)
    moreover have "drop (i + 2) cmd = drop 1 (drop (i + 1) cmd)" by simp
    ultimately have
      "deny_ok w rule cmd (i, j) =
         deny_spec w (j = 0) (rule ! j # drop (j + 1) rule) (cmd ! i # drop (i + 1) cmd)"
      "deny_ok w rule cmd (i, j + 1) =
         deny_spec w False (drop (j + 1) rule) (cmd ! i # drop (i + 1) cmd)"
      "deny_ok w rule cmd (i + 1, j + 1) = deny_spec w False (drop (j + 1) rule) (drop (i + 1) cmd)"
      "deny_ok w rule cmd (i + 1, j) =
         deny_spec w (j = 0) (rule ! j # drop (j + 1) rule) (drop (i + 1) cmd)"
      "deny_ok w rule cmd (i + 2, j) =
         deny_spec w (j = 0) (rule ! j # drop (j + 1) rule) (drop 1 (drop (i + 1) cmd))"
      using j rj by (simp_all only: deny_ok_def prod.case) simp_all
    with True show ?thesis
      by (simp only: deny_push_Bex deny_spec.simps(3) token_matches_pos [of w j]) auto
  next
    case False
    with live have "rule ! j = ''*''" and "drop i cmd = []" by (simp_all add: deny_live_def)
    with j rj show ?thesis by (simp add: deny_ok_def deny_push_out)
  qed
qed

lemma deny_search_sound:
  "deny_search w rule cmd seen stack \<Longrightarrow> \<exists>s \<in> set stack. deny_ok w rule cmd s"
proof (induction w rule cmd seen stack rule: deny_search.induct)
  case (1 w rule cmd seen)
  then show ?case by (simp add: deny_search.simps)
next
  case (2 w rule cmd seen i j stack)
  show ?case
  proof (cases "j = length rule")
    case True
    then show ?thesis by (simp add: deny_ok_def)
  next
    case False
    have step: "deny_live rule cmd (i, j) \<Longrightarrow>
       \<exists>s \<in> set (rev (deny_push w rule cmd i j) @ stack). deny_ok w rule cmd s \<Longrightarrow> ?thesis"
      using deny_ok_live [of rule cmd i j w] by auto
    show ?thesis
    proof (cases "length rule < j")
      case True
      with "2.IH"(1) "2.prems" False show ?thesis by (auto simp: deny_search.simps)
    next
      case off: False
      with "2.IH"(2-) "2.prems" False step show ?thesis
        by (auto simp: deny_search.simps deny_live_def split: if_splits)
    qed
  qed
qed

text \<open>
  Completeness. A visited state that can still succeed has a successor on the stack that can
  succeed and is closer to the ends of the two token lists.
\<close>

definition deny_dist :: "string list \<Rightarrow> string list \<Rightarrow> nat \<times> nat \<Rightarrow> nat" where
  "deny_dist rule cmd = (\<lambda>(i, j). (length cmd - i) + (length rule - j))"

lemma deny_push_dist:
  "deny_live rule cmd (i, j) \<Longrightarrow> s \<in> set (deny_push w rule cmd i j) \<Longrightarrow>
   deny_dist rule cmd s < deny_dist rule cmd (i, j)"
  by (auto simp: deny_live_def deny_push_def deny_dist_def Let_def split: if_splits)

definition deny_inv ::
  "bool \<Rightarrow> string list \<Rightarrow> string list \<Rightarrow> (nat \<times> nat) set \<Rightarrow> (nat \<times> nat) list \<Rightarrow> bool" where
  "deny_inv w rule cmd seen stack \<longleftrightarrow>
     (\<forall>u \<in> seen. deny_ok w rule cmd u \<longrightarrow>
        (\<exists>s \<in> set stack. deny_ok w rule cmd s \<and> deny_dist rule cmd s < deny_dist rule cmd u))"

lemma deny_inv_pop_dead:
  "deny_inv w rule cmd seen (s # stack) \<Longrightarrow> \<not> deny_ok w rule cmd s \<Longrightarrow> deny_inv w rule cmd seen stack"
  by (auto simp: deny_inv_def)

lemma deny_inv_pop_seen:
  assumes inv: "deny_inv w rule cmd seen (s # stack)" and s: "s \<in> seen"
  shows "deny_inv w rule cmd seen stack"
    and "deny_ok w rule cmd s \<Longrightarrow> \<exists>s' \<in> set stack. deny_ok w rule cmd s'"
proof -
  have wit: "\<exists>s' \<in> set stack. deny_ok w rule cmd s' \<and> deny_dist rule cmd s' < deny_dist rule cmd s"
    if "deny_ok w rule cmd s" using inv s that by (force simp: deny_inv_def)
  then show "deny_ok w rule cmd s \<Longrightarrow> \<exists>s' \<in> set stack. deny_ok w rule cmd s'" by blast
  show "deny_inv w rule cmd seen stack"
    unfolding deny_inv_def
  proof (intro ballI impI)
    fix u assume "u \<in> seen" and "deny_ok w rule cmd u"
    with inv obtain t where t: "t \<in> set (s # stack)" "deny_ok w rule cmd t"
      "deny_dist rule cmd t < deny_dist rule cmd u" unfolding deny_inv_def by blast
    then show "\<exists>s \<in> set stack. deny_ok w rule cmd s \<and> deny_dist rule cmd s < deny_dist rule cmd u"
      using wit by (cases "t = s") (auto intro: less_trans)
  qed
qed

lemma deny_inv_expand:
  assumes inv: "deny_inv w rule cmd seen ((i, j) # stack)" and live: "deny_live rule cmd (i, j)"
  shows "deny_inv w rule cmd (insert (i, j) seen) (rev (deny_push w rule cmd i j) @ stack)"
  unfolding deny_inv_def
proof (intro ballI impI)
  fix u assume u: "u \<in> insert (i, j) seen" and ok: "deny_ok w rule cmd u"
  have wit: "\<exists>s \<in> set (deny_push w rule cmd i j). deny_ok w rule cmd s
      \<and> deny_dist rule cmd s < deny_dist rule cmd (i, j)" if "deny_ok w rule cmd (i, j)"
    using that deny_ok_live [OF live] deny_push_dist [OF live] by blast
  show "\<exists>s \<in> set (rev (deny_push w rule cmd i j) @ stack).
      deny_ok w rule cmd s \<and> deny_dist rule cmd s < deny_dist rule cmd u"
  proof (cases "u = (i, j)")
    case True
    with wit ok show ?thesis by auto
  next
    case False
    with u have "u \<in> seen" by simp
    with ok inv obtain t where t: "t \<in> set ((i, j) # stack)" "deny_ok w rule cmd t"
      "deny_dist rule cmd t < deny_dist rule cmd u" unfolding deny_inv_def by blast
    then show ?thesis using wit by (cases "t = (i, j)") (auto intro: less_trans)
  qed
qed

lemma deny_search_complete:
  "deny_inv w rule cmd seen stack \<Longrightarrow> \<exists>s \<in> set stack. deny_ok w rule cmd s \<Longrightarrow>
   deny_search w rule cmd seen stack"
proof (induction w rule cmd seen stack rule: deny_search.induct)
  case (1 w rule cmd seen)
  then show ?case by simp
next
  case (2 w rule cmd seen i j stack)
  note inv = "2.prems"(1) and ex = "2.prems"(2)
  consider (goal) "j = length rule" | (off) "length rule < j"
    | (dead) "j < length rule" "\<not> deny_live rule cmd (i, j)"
    | (seen) "deny_live rule cmd (i, j)" "(i, j) \<in> seen"
    | (fresh) "deny_live rule cmd (i, j)" "(i, j) \<notin> seen"
    by linarith
  then show ?case
  proof cases
    case goal
    then show ?thesis by (simp add: deny_search.simps)
  next
    case off
    then have "\<not> deny_ok w rule cmd (i, j)" by (simp add: deny_ok_def)
    with inv ex have "deny_inv w rule cmd seen stack" "\<exists>s \<in> set stack. deny_ok w rule cmd s"
      by (auto intro: deny_inv_pop_dead)
    with off "2.IH" show ?thesis by (simp add: deny_search.simps)
  next
    case dead
    then have "\<not> deny_ok w rule cmd (i, j)" by (rule deny_ok_dead)
    with inv ex have "deny_inv w rule cmd seen stack" "\<exists>s \<in> set stack. deny_ok w rule cmd s"
      by (auto intro: deny_inv_pop_dead)
    with dead "2.IH" show ?thesis by (simp add: deny_search.simps deny_live_def)
  next
    case seen
    with inv ex have "deny_inv w rule cmd seen stack" "\<exists>s \<in> set stack. deny_ok w rule cmd s"
      using deny_inv_pop_seen [OF inv] by auto
    with seen "2.IH" show ?thesis by (auto simp: deny_search.simps deny_live_def)
  next
    case fresh
    have "deny_inv w rule cmd (insert (i, j) seen) (rev (deny_push w rule cmd i j) @ stack)"
      by (rule deny_inv_expand [OF inv fresh(1)])
    moreover have "\<exists>s \<in> set (rev (deny_push w rule cmd i j) @ stack). deny_ok w rule cmd s"
      using ex deny_ok_live [OF fresh(1)] by auto
    ultimately show ?thesis using fresh "2.IH" by (auto simp: deny_search.simps deny_live_def)
  qed
qed

theorem deny_search_spec:
  "deny_search w rule cmd {} [(i, 0)] \<longleftrightarrow> deny_spec w True rule (drop i cmd)"
proof -
  have "deny_inv w rule cmd {} [(i, 0)]" by (simp add: deny_inv_def)
  then show ?thesis
    using deny_search_sound [of w rule cmd "{}" "[(i, 0)]"]
      deny_search_complete [of w rule cmd "{}" "[(i, 0)]"]
    by (auto simp: deny_ok_def)
qed

lemma skip_env_drop: "drop (skip_env ts) ts = dropWhile is_env_assignment ts"
  by (induction ts) auto

section \<open>Facts about the reference matcher\<close>

lemma deny_spec_nil [simp]: "deny_spec w a [] ts"
  by (cases ts) simp_all

text \<open>More command text never turns a denial into a pass.\<close>

lemma deny_spec_append: "deny_spec w a rs ts \<Longrightarrow> deny_spec w a rs (ts @ us)"
proof (induction w a rs ts rule: deny_spec.induct)
  case (1 w a ts)
  show ?case by simp
next
  case (2 w a r rs)
  then have "deny_spec w False rs us" and r: "r = ''*''" by auto
  then show ?case by (cases us) auto
next
  case (3 w a r rs t ts)
  show ?case
  proof (cases "r = ''*''")
    case True
    with 3 show ?thesis by auto
  next
    case False
    have d: "deny_spec w a (r # rs) (drop 1 ts) \<Longrightarrow> deny_spec w a (r # rs) (drop 1 (ts @ us))"
      if "is_flag w t" "CHR ''='' \<notin> set t"
    proof (cases ts)
      case Nil
      assume "deny_spec w a (r # rs) (drop 1 ts)"
      with Nil False show ?thesis by simp
    next
      case (Cons u vs)
      assume "deny_spec w a (r # rs) (drop 1 ts)"
      with Cons "3.IH"(5) [OF False] that show ?thesis by simp
    qed
    from False "3.prems" "3.IH" d show ?thesis by auto
  qed
qed

text \<open>A rule without wildcard and written out literally at the front always matches.\<close>

lemma token_matches_self: "token_matches w j r r"
  by (simp add: token_matches_def command_word_matches_def)

lemma deny_spec_star: "deny_spec w False rs ts \<Longrightarrow> deny_spec w a (''*'' # rs) ts"
  by (cases ts) simp_all

lemma deny_spec_literal: "deny_spec w a rs (rs @ us)"
proof (induction rs arbitrary: a)
  case Nil
  show ?case by simp
next
  case (Cons r rs)
  show ?case
  proof (cases "r = ''*''")
    case True
    have "deny_spec w a (''*'' # rs) (rs @ us)"
      using Cons.IH [of False] by (rule deny_spec_star)
    with True show ?thesis by simp
  next
    case False
    with Cons show ?thesis by (simp add: token_matches_self)
  qed
qed

text \<open>Flags (and, when they carry no \<open>=\<close>, one value each) between the command word and the rest
  of the rule do not defeat the rule.\<close>

lemma deny_spec_skip_flags:
  "r \<noteq> ''*'' \<Longrightarrow> \<forall>f \<in> set fs. is_flag w f \<Longrightarrow> deny_spec w a (r # rs) ts \<Longrightarrow>
   deny_spec w a (r # rs) (fs @ ts)"
  by (induction fs) auto

lemma deny_spec_skip_valued_flag:
  "r \<noteq> ''*'' \<Longrightarrow> is_flag w f \<Longrightarrow> CHR ''='' \<notin> set f \<Longrightarrow> deny_spec w a (r # rs) ts \<Longrightarrow>
   deny_spec w a (r # rs) (f # v # ts)"
  by simp

text \<open>The match is anchored: a first token that is no flag and not the command word ends it.\<close>

lemma deny_spec_anchor:
  "r \<noteq> ''*'' \<Longrightarrow> \<not> is_flag w t \<Longrightarrow> \<not> command_word_matches w r t \<Longrightarrow>
   \<not> deny_spec w True (r # rs) (t # ts)"
  by (simp add: token_matches_def)

end
