(* ===== verification/BashArity.thy ===== *)
theory BashArity
  imports Prelude
begin

text \<open>
  The arity dictionary of command prefixes and the allow-rule matcher on it
  (\<open>crates/execpolicy/src/bash_arity.rs\<close>, and \<open>canonical_prefix_is_leading\<close> of
  \<open>command_safety.rs\<close>). The static table is given in three runs of rows, in the source's order.
\<close>

section \<open>The table\<close>

definition arity_table_vcs_node :: "(string \<times> nat) list" where
  "arity_table_vcs_node =
    [(''git add'', 2), (''git am'', 2), (''git apply'', 2), (''git bisect'', 2),
     (''git blame'', 2), (''git branch'', 2), (''git cat-file'', 2), (''git checkout'', 2),
     (''git cherry-pick'', 2), (''git clean'', 2), (''git clone'', 2), (''git commit'', 2),
     (''git config'', 2), (''git describe'', 2), (''git diff'', 2), (''git fetch'', 2),
     (''git format-patch'', 2), (''git grep'', 2), (''git init'', 2), (''git log'', 2),
     (''git ls-files'', 2), (''git merge'', 2), (''git mv'', 2), (''git notes'', 2),
     (''git pull'', 2), (''git push'', 2), (''git rebase'', 2), (''git reflog'', 2),
     (''git remote'', 2), (''git reset'', 2), (''git restore'', 2), (''git revert'', 2),
     (''git rm'', 2), (''git show'', 2), (''git stash'', 2), (''git status'', 2),
     (''git submodule'', 2), (''git switch'', 2), (''git tag'', 2), (''git worktree'', 2),
     (''npm audit'', 2), (''npm build'', 2), (''npm cache'', 2), (''npm ci'', 2),
     (''npm dedupe'', 2), (''npm fund'', 2), (''npm help'', 2), (''npm info'', 2),
     (''npm init'', 2), (''npm install'', 2), (''npm link'', 2), (''npm list'', 2),
     (''npm ls'', 2), (''npm outdated'', 2), (''npm pack'', 2), (''npm prune'', 2),
     (''npm publish'', 2), (''npm rebuild'', 2), (''npm run'', 3), (''npm start'', 2),
     (''npm stop'', 2), (''npm test'', 2), (''npm uninstall'', 2), (''npm update'', 2),
     (''npm version'', 2), (''npm view'', 2), (''yarn add'', 2), (''yarn audit'', 2),
     (''yarn build'', 2), (''yarn install'', 2), (''yarn run'', 3), (''yarn start'', 2),
     (''yarn test'', 2), (''yarn upgrade'', 2), (''yarn workspace'', 3), (''pnpm add'', 2),
     (''pnpm build'', 2), (''pnpm install'', 2), (''pnpm run'', 3), (''pnpm start'', 2),
     (''pnpm test'', 2), (''pnpm update'', 2)]"

definition arity_table_build :: "(string \<times> nat) list" where
  "arity_table_build =
    [(''cargo add'', 2), (''cargo bench'', 2), (''cargo build'', 2), (''cargo check'', 2),
     (''cargo clean'', 2), (''cargo clippy'', 2), (''cargo doc'', 2), (''cargo fix'', 2),
     (''cargo fmt'', 2), (''cargo generate'', 2), (''cargo install'', 2),
     (''cargo metadata'', 2), (''cargo package'', 2), (''cargo publish'', 2),
     (''cargo remove'', 2), (''cargo run'', 2), (''cargo search'', 2), (''cargo test'', 2),
     (''cargo tree'', 2), (''cargo uninstall'', 2), (''cargo update'', 2), (''cargo yank'', 2),
     (''docker build'', 2), (''docker compose'', 3), (''docker container'', 3),
     (''docker cp'', 2), (''docker exec'', 2), (''docker image'', 3), (''docker images'', 2),
     (''docker inspect'', 2), (''docker kill'', 2), (''docker logs'', 2),
     (''docker network'', 3), (''docker ps'', 2), (''docker pull'', 2), (''docker push'', 2),
     (''docker rm'', 2), (''docker rmi'', 2), (''docker run'', 2), (''docker start'', 2),
     (''docker stop'', 2), (''docker system'', 3), (''docker tag'', 2), (''docker volume'', 3),
     (''kubectl apply'', 2), (''kubectl create'', 3), (''kubectl delete'', 3),
     (''kubectl describe'', 3), (''kubectl exec'', 2), (''kubectl explain'', 2),
     (''kubectl get'', 3), (''kubectl label'', 2), (''kubectl logs'', 2),
     (''kubectl patch'', 2), (''kubectl port-forward'', 2), (''kubectl rollout'', 3),
     (''kubectl scale'', 2), (''kubectl set'', 2), (''kubectl top'', 3)]"

definition arity_table_rest :: "(string \<times> nat) list" where
  "arity_table_rest =
    [(''go build'', 2), (''go clean'', 2), (''go env'', 2), (''go fmt'', 2),
     (''go generate'', 2), (''go get'', 2), (''go install'', 2), (''go list'', 2),
     (''go mod'', 3), (''go run'', 2), (''go test'', 2), (''go vet'', 2), (''go work'', 3),
     (''pip install'', 2), (''pip uninstall'', 2), (''pip list'', 2), (''pip show'', 2),
     (''pip freeze'', 2), (''pip3 install'', 2), (''pip3 uninstall'', 2), (''pip3 list'', 2),
     (''pip3 show'', 2), (''python -m'', 3), (''python3 -m'', 3), (''make'', 1), (''cmake'', 1),
     (''gh pr'', 3), (''gh issue'', 3), (''gh repo'', 3), (''gh release'', 3),
     (''gh workflow'', 3), (''gh run'', 3), (''gh secret'', 3), (''rustup default'', 2),
     (''rustup install'', 2), (''rustup show'', 2), (''rustup target'', 3),
     (''rustup toolchain'', 3), (''rustup update'', 2), (''deno run'', 2), (''deno test'', 2),
     (''deno fmt'', 2), (''deno lint'', 2), (''bun add'', 2), (''bun build'', 2),
     (''bun install'', 2), (''bun run'', 3), (''bun test'', 2), (''npx'', 2), (''aws s3'', 3),
     (''aws ec2'', 3), (''aws iam'', 3), (''aws lambda'', 3), (''aws cloudformation'', 3),
     (''aws ecs'', 3), (''aws eks'', 3), (''aws rds'', 3), (''aws sts'', 3),
     (''aws configure'', 2), (''terraform init'', 2), (''terraform plan'', 2),
     (''terraform apply'', 2), (''terraform destroy'', 2), (''terraform validate'', 2),
     (''terraform output'', 2), (''terraform state'', 3), (''terraform workspace'', 3),
     (''helm install'', 2), (''helm upgrade'', 2), (''helm uninstall'', 2), (''helm list'', 2),
     (''helm repo'', 3), (''helm status'', 2), (''helm template'', 2)]"


definition BASH_ARITY_TABLE :: "(string \<times> nat) list" where
  "BASH_ARITY_TABLE = arity_table_vcs_node @ arity_table_build @ arity_table_rest"

text \<open>\<open>BashArityDict::new\<close>: longest prefix first, by a stable sort.\<close>

definition arity_dict_new :: "(string \<times> nat) list" where
  "arity_dict_new = sort_key (\<lambda>entry. - int (length (fst entry))) BASH_ARITY_TABLE"

section \<open>Classification\<close>

definition is_python :: "string \<Rightarrow> bool" where
  "is_python t \<longleftrightarrow> to_ascii_lowercase t = ''python'' \<or> to_ascii_lowercase t = ''python3''"

text \<open>The positional tokens, lowered; \<open>-m\<close> right after \<open>python\<close> or \<open>python3\<close> is kept.\<close>

definition positional_tokens :: "string list \<Rightarrow> string list" where
  "positional_tokens tokens =
     map (\<lambda>(index, token). to_ascii_lowercase token)
       (filter (\<lambda>(index, token). \<not> starts_with token ''-''
           \<or> (index = 1 \<and> token = ''-m'' \<and> is_python (tokens ! 0)))
         (enumerate 0 tokens))"

text \<open>The loop over \<open>depth\<close>, from \<open>max_depth\<close> down to 1.\<close>

fun classify_depth :: "(string \<times> nat) list \<Rightarrow> string list \<Rightarrow> nat \<Rightarrow> string" where
  "classify_depth entries positional 0 = (case positional of [] \<Rightarrow> [] | p # _ \<Rightarrow> p)"
| "classify_depth entries positional (Suc d) =
     (case List.find (\<lambda>e. fst e = join '' '' (take (Suc d) positional)) entries of
        Some (_, arity) \<Rightarrow> join '' '' (take (min arity (length positional)) positional)
      | None \<Rightarrow> classify_depth entries positional d)"

definition classify :: "(string \<times> nat) list \<Rightarrow> string list \<Rightarrow> string" where
  "classify entries tokens =
     (if tokens = [] then []
      else let positional = positional_tokens tokens in
        if positional = [] then []
        else classify_depth entries positional (min (length positional) 3))"

definition without_module_flag :: "bool \<Rightarrow> string list \<Rightarrow> string list" where
  "without_module_flag python_module tokens =
     map snd (filter (\<lambda>(index, token). \<not> (python_module \<and> index = 1)) (enumerate 0 tokens))"

definition canonical_prefix_is_leading :: "string list \<Rightarrow> string \<Rightarrow> bool" where
  "canonical_prefix_is_leading tokens canonical =
     (let words = split_whitespace canonical;
          python_module = 1 < length tokens \<and> tokens ! 1 = ''-m'' \<and> is_python (tokens ! 0)
            \<and> \<not> (1 < length words \<and> words ! 1 = ''-m'');
          tokens = without_module_flag python_module tokens
      in words \<noteq> [] \<and> length words \<le> length tokens
         \<and> list_all (\<lambda>(word, token). eq_ignore_ascii_case token word) (zip words tokens))"

definition normalize_spaces :: "string \<Rightarrow> string" where
  "normalize_spaces s = join '' '' (split_whitespace s)"

definition allow_rule_matches :: "(string \<times> nat) list \<Rightarrow> string \<Rightarrow> string \<Rightarrow> bool" where
  "allow_rule_matches entries pattern command =
     (let pattern_lower = to_ascii_lowercase (trim pattern);
          command_tokens = split_whitespace command;
          canonical = classify entries command_tokens
      in if canonical = pattern_lower \<and> canonical_prefix_is_leading command_tokens canonical
         then True
         else let command_lower = to_ascii_lowercase (trim command);
                  pattern_norm = normalize_spaces pattern_lower;
                  command_norm = normalize_spaces command_lower
              in command_norm = pattern_norm
                 \<or> (starts_with command_norm pattern_norm
                    \<and> length pattern_norm < length command_norm
                    \<and> command_norm ! length pattern_norm = CHR '' ''))"

section \<open>Lemmas\<close>

text \<open>The sort does not change a lookup.\<close>

lemma arity_dict_new_lookup:
  "List.find (\<lambda>e. fst e = k) arity_dict_new = List.find (\<lambda>e. fst e = k) BASH_ARITY_TABLE"
  unfolding arity_dict_new_def by (rule list_find_sort_key) simp

lemma words_no_space:
  "w \<in> set (split_whitespace s) \<Longrightarrow> CHR '' '' \<notin> set w"
  using split_whitespace_no_ws [of w s "CHR '' ''"] by (auto simp: is_ascii_ws_def)

lemma lower_words_no_space:
  "w \<in> set (map to_ascii_lowercase (split_whitespace s)) \<Longrightarrow> CHR '' '' \<notin> set w"
proof
  assume "w \<in> set (map to_ascii_lowercase (split_whitespace s))" and sp: "CHR '' '' \<in> set w"
  then obtain v where v: "v \<in> set (split_whitespace s)" and w: "w = map lower_char v"
    by (auto simp: to_ascii_lowercase_def)
  from sp w obtain c where c: "c \<in> set v" "lower_char c = CHR '' ''" by auto
  have "lower_char c = CHR '' '' \<longleftrightarrow> c = CHR '' ''" by (rule lower_char_fixed) simp_all
  with c v words_no_space [OF v] show False by simp
qed

lemma join_nonempty_words: "\<forall>w \<in> set ws. w \<noteq> [] \<Longrightarrow> join d ws = [] \<longleftrightarrow> ws = []"
  by (cases ws) (auto simp: join_def)

lemma join_space_inj:
  assumes "\<forall>w \<in> set ws. w \<noteq> [] \<and> CHR '' '' \<notin> set w" and "\<forall>w \<in> set us. w \<noteq> [] \<and> CHR '' '' \<notin> set w"
    and "join '' '' ws = join '' '' us"
  shows "ws = us"
proof (cases "ws = []")
  case True
  then have "join '' '' us = []" using assms(3) by (simp add: join_def)
  with True assms(2) show ?thesis using join_nonempty_words [of us "'' ''"] by simp
next
  case False
  with assms join_nonempty_words [of us "'' ''"] join_nonempty_words [of ws "'' ''"]
  have "us \<noteq> []" by auto
  have "ws = split_char (CHR '' '') (join '' '' ws)" using False assms(1) by (simp add: split_char_join)
  also have "\<dots> = us" using \<open>us \<noteq> []\<close> assms(2) by (simp add: assms(3) split_char_join)
  finally show ?thesis .
qed

text \<open>The fallback of the matcher compares whole words: the rule's words are the first words of
  the command.\<close>

lemma join_space_prefix:
  assumes ws: "\<forall>w \<in> set ws. w \<noteq> [] \<and> CHR '' '' \<notin> set w"
    and us: "\<forall>w \<in> set us. w \<noteq> [] \<and> CHR '' '' \<notin> set w"
    and eq: "join '' '' us = join '' '' ws @ CHR '' '' # rest"
  shows "ws \<noteq> [] \<and> prefix ws us"
proof (cases ws)
  case Nil
  with eq us show ?thesis by (cases us) (auto simp: join_def, (case_tac a; auto)+)
next
  case (Cons w ws')
  have "us \<noteq> []" using eq by (auto simp: join_def)
  then have "us = split_char (CHR '' '') (join '' '' us)" using us by (simp add: split_char_join)
  also have "\<dots> = split_char (CHR '' '') (join '' '' ws) @ split_char (CHR '' '') rest"
    by (simp add: eq split_char_append_sep)
  also have "split_char (CHR '' '') (join '' '' ws) = ws"
    using Cons ws by (simp add: split_char_join)
  finally show ?thesis using Cons by (auto simp: prefix_def)
qed

text \<open>The words an allow rule names, and the words of a command as the matcher compares them.\<close>

definition rule_words :: "string \<Rightarrow> string list" where
  "rule_words s = map to_ascii_lowercase (split_whitespace s)"

lemma rule_words_ok: "w \<in> set (rule_words s) \<Longrightarrow> w \<noteq> [] \<and> CHR '' '' \<notin> set w"
  using lower_words_no_space [of w s] split_whitespace_nonempty
  by (fastforce simp: rule_words_def to_ascii_lowercase_def)

lemma normalize_spaces_trim_lower:
  "normalize_spaces (to_ascii_lowercase (trim s)) = join '' '' (rule_words s)"
  by (simp add: normalize_spaces_def rule_words_def split_whitespace_lower)

lemma starts_with_at:
  "starts_with s p \<Longrightarrow> length p < length s \<Longrightarrow> s = p @ s ! length p # drop (Suc (length p)) s"
  unfolding starts_with_def by (metis append_take_drop_id Cons_nth_drop_Suc)

lemma allow_fallback_words:
  assumes "normalize_spaces (to_ascii_lowercase (trim c)) = normalize_spaces (to_ascii_lowercase (trim p))
    \<or> (starts_with (normalize_spaces (to_ascii_lowercase (trim c))) (normalize_spaces (to_ascii_lowercase (trim p)))
       \<and> length (normalize_spaces (to_ascii_lowercase (trim p)))
           < length (normalize_spaces (to_ascii_lowercase (trim c)))
       \<and> normalize_spaces (to_ascii_lowercase (trim c)) ! length (normalize_spaces (to_ascii_lowercase (trim p)))
           = CHR '' '')"
  shows "prefix (rule_words p) (rule_words c) \<and> (rule_words p = [] \<longrightarrow> rule_words c = [])"
  using assms unfolding normalize_spaces_trim_lower
proof
  assume "join '' '' (rule_words c) = join '' '' (rule_words p)"
  then have "rule_words c = rule_words p" using rule_words_ok by (intro join_space_inj) blast+
  then show ?thesis by simp
next
  assume "starts_with (join '' '' (rule_words c)) (join '' '' (rule_words p))
     \<and> length (join '' '' (rule_words p)) < length (join '' '' (rule_words c))
     \<and> join '' '' (rule_words c) ! length (join '' '' (rule_words p)) = CHR '' ''"
  then obtain rest where "join '' '' (rule_words c) = join '' '' (rule_words p) @ CHR '' '' # rest"
    using starts_with_at by metis
  then have "rule_words p \<noteq> [] \<and> prefix (rule_words p) (rule_words c)"
    using rule_words_ok by (intro join_space_prefix) blast+
  then show ?thesis by simp
qed

lemma without_module_flag_False [simp]: "without_module_flag False ts = ts"
  by (simp add: without_module_flag_def)

lemma without_module_flag_True [simp]: "without_module_flag True (p # m # ts) = p # ts"
proof -
  have "filter (\<lambda>(index, token). index \<noteq> Suc 0) (enumerate 2 ts) = enumerate 2 ts"
    by (rule filter_True) (auto simp: in_set_enumerate_eq)
  then show ?thesis by (simp add: without_module_flag_def numeral_2_eq_2)
qed

lemma leading_words:
  assumes "canonical_prefix_is_leading tokens canonical"
  shows "split_whitespace canonical \<noteq> [] \<and>
    (prefix (map to_ascii_lowercase (split_whitespace canonical)) (map to_ascii_lowercase tokens)
     \<or> (\<exists>p ts. tokens = p # ''-m'' # ts \<and> is_python p
          \<and> prefix (map to_ascii_lowercase (split_whitespace canonical))
                    (map to_ascii_lowercase (p # ts))))"
proof -
  let ?w = "split_whitespace canonical"
  have pre: "prefix (map to_ascii_lowercase ?w) (map to_ascii_lowercase ts)"
    if "length ?w \<le> length ts"
      and "list_all (\<lambda>(word, token). eq_ignore_ascii_case token word) (zip ?w ts)" for ts
  proof -
    have "map to_ascii_lowercase ?w = take (length ?w) (map to_ascii_lowercase ts)"
      using that by (intro nth_equalityI)
        (auto simp: list_all_length eq_ignore_ascii_case_def)
    then show ?thesis by (metis take_is_prefix)
  qed
  let ?m = "1 < length tokens \<and> tokens ! 1 = ''-m'' \<and> is_python (tokens ! 0)
    \<and> \<not> (1 < length ?w \<and> ?w ! 1 = ''-m'')"
  show ?thesis
  proof (cases ?m)
    case True
    then obtain p ts where t: "tokens = p # ''-m'' # ts" and p: "is_python p"
      by (cases tokens; cases "tl tokens") auto
    from True have m: "?m = True" by simp
    from assms have "?w \<noteq> []" "length ?w \<le> length (p # ts)"
      "list_all (\<lambda>(word, token). eq_ignore_ascii_case token word) (zip ?w (p # ts))"
      unfolding canonical_prefix_is_leading_def Let_def m by (simp_all add: t)
    with t p pre show ?thesis by blast
  next
    case False
    then have m: "?m = False" by simp
    from assms have "?w \<noteq> []" "length ?w \<le> length tokens"
      "list_all (\<lambda>(word, token). eq_ignore_ascii_case token word) (zip ?w tokens)"
      unfolding canonical_prefix_is_leading_def Let_def m by simp_all
    with pre show ?thesis by blast
  qed
qed

lemma allow_rule_matches_words:
  assumes "allow_rule_matches entries p c"
  shows "prefix (rule_words p) (rule_words c) \<and> (rule_words p = [] \<longrightarrow> rule_words c = [])
    \<or> (\<exists>py ts. split_whitespace c = py # ''-m'' # ts \<and> is_python py
         \<and> prefix (rule_words p) (map to_ascii_lowercase (py # ts)) \<and> rule_words p \<noteq> [])"
proof (cases "classify entries (split_whitespace c) = to_ascii_lowercase (trim p)
    \<and> canonical_prefix_is_leading (split_whitespace c) (classify entries (split_whitespace c))")
  case True
  then have "canonical_prefix_is_leading (split_whitespace c) (to_ascii_lowercase (trim p))" by metis
  from leading_words [OF this]
  show ?thesis by (auto simp: split_whitespace_lower rule_words_def o_def)
next
  case False
  with assms show ?thesis
    using allow_fallback_words [of c p] by (auto simp: allow_rule_matches_def Let_def)
qed

end
