(* ===== verification/PathPolicy.thy ===== *)
theory PathPolicy
  imports Prelude
begin

text \<open>
  Lexical path normalisation for typed file rules (\<open>crates/execpolicy/src/lib.rs\<close>, from
  \<open>normalize_workspace_relative_path\<close> to \<open>has_windows_drive_prefix\<close>). The compile-time
  \<open>platform_paths_are_case_insensitive\<close> is the argument \<open>case_insensitive\<close>.
\<close>

section \<open>Definitions\<close>

record PathForMatching =
  root :: "string option"
  components :: "string list"

definition to_slashes :: "string \<Rightarrow> string" where
  "to_slashes s = replace_char (CHR 0x5C) (CHR ''/'') s"

definition is_windows_absolute_path :: "string \<Rightarrow> bool" where
  "is_windows_absolute_path value =
     (case value of a # b # c # _ \<Rightarrow> is_ascii_alphabetic a \<and> b = CHR '':'' \<and> c = CHR ''/'' | _ \<Rightarrow> False)"

definition has_windows_drive_prefix :: "string \<Rightarrow> bool" where
  "has_windows_drive_prefix value =
     (case value of a # b # _ \<Rightarrow> is_ascii_alphabetic a \<and> b = CHR '':'' | _ \<Rightarrow> False)"

text \<open>The component loop: empty and \<open>.\<close> components are dropped, \<open>..\<close> rejects the path.\<close>

fun normalize_components :: "string list \<Rightarrow> string list option" where
  "normalize_components [] = Some []"
| "normalize_components (c # cs) =
     (if c = [] \<or> c = ''.'' then normalize_components cs
      else if c = ''..'' then None
      else map_option ((#) c) (normalize_components cs))"

text \<open>The spelling compared: slashes, and the case folded (on case-sensitive hosts only the drive
  letter's).\<close>

definition path_spelling :: "string \<Rightarrow> bool \<Rightarrow> string" where
  "path_spelling value case_insensitive =
     (let value = to_slashes (trim value) in
      if case_insensitive then to_ascii_lowercase value
      else if has_windows_drive_prefix value
      then to_ascii_lowercase (take 1 value) @ drop 1 value else value)"

text \<open>The root and the text after it; \<open>C:foo\<close> is rejected.\<close>

definition split_root :: "string \<Rightarrow> (string option \<times> string) option" where
  "split_root value =
     (case strip_prefix value ''/'' of
        Some path \<Rightarrow> Some (Some ''/'', path)
      | None \<Rightarrow>
          if is_windows_absolute_path value then Some (Some (take 2 value), drop 3 value)
          else if has_windows_drive_prefix value then None
          else Some (None, value))"

definition parse_path_for_matching_with_case :: "string \<Rightarrow> bool \<Rightarrow> PathForMatching option" where
  "parse_path_for_matching_with_case value case_insensitive =
     (let value = path_spelling value case_insensitive in
      if value = [] then None
      else (case split_root value of
              None \<Rightarrow> None
            | Some (rt, path) \<Rightarrow>
                map_option (\<lambda>cs. \<lparr>root = rt, components = cs\<rparr>)
                  (normalize_components (split_char (CHR ''/'') path))))"

definition strip_list_prefix :: "'a list \<Rightarrow> 'a list \<Rightarrow> 'a list option" where
  "strip_list_prefix xs ys =
     (if take (length ys) xs = ys then Some (drop (length ys) xs) else None)"

definition normalize_workspace_relative_path_with_case ::
  "string \<Rightarrow> string \<Rightarrow> bool \<Rightarrow> string option" where
  "normalize_workspace_relative_path_with_case value workspace_root case_insensitive =
     (case parse_path_for_matching_with_case value case_insensitive of
        None \<Rightarrow> None
      | Some path \<Rightarrow>
          (case parse_path_for_matching_with_case workspace_root case_insensitive of
             None \<Rightarrow> None
           | Some workspace \<Rightarrow>
               (case root workspace of
                  None \<Rightarrow> None
                | Some ws_root \<Rightarrow>
                    (case root path of
                       Some path_root \<Rightarrow>
                         if path_root \<noteq> ws_root then None
                         else map_option (join ''/'')
                                (strip_list_prefix (components path) (components workspace))
                     | None \<Rightarrow> Some (join ''/'' (components path))))))"

definition normalize_workspace_scope :: "string \<Rightarrow> string option" where
  "normalize_workspace_scope value =
     (let value = to_slashes (trim value) in
      if value = [] then None
      else (case (case strip_prefix value ''/'' of
                    Some path \<Rightarrow> Some (''/'', path)
                  | None \<Rightarrow>
                      if is_windows_absolute_path value
                      then let value = to_ascii_lowercase value in Some (take 2 value, drop 3 value)
                      else None) of
              None \<Rightarrow> None
            | Some (rt, path) \<Rightarrow>
                (case normalize_components (split_char (CHR ''/'') path) of
                   None \<Rightarrow> None
                 | Some cs \<Rightarrow>
                     if cs = [] then None
                     else Some (rt @ (if rt = ''/'' then [] else ''/'') @ join ''/'' cs))))"

definition workspace_scope_matches :: "string \<Rightarrow> string \<Rightarrow> bool" where
  "workspace_scope_matches rule_workspace cwd =
     (case (normalize_workspace_scope rule_workspace, normalize_workspace_scope cwd) of
        (Some r, Some c) \<Rightarrow> r = c
      | _ \<Rightarrow> False)"

definition has_parent_component :: "string \<Rightarrow> bool" where
  "has_parent_component s \<longleftrightarrow> (\<exists>c \<in> set (split_char (CHR ''/'') s). c = ''..'')"

definition absolute_path_rule_matches :: "bool \<Rightarrow> string \<Rightarrow> string \<Rightarrow> bool" where
  "absolute_path_rule_matches case_insensitive rule_path call_path =
     (let fold_path = (\<lambda>value. let value = to_slashes (trim value) in
            if case_insensitive then to_ascii_lowercase value else value);
          rule = fold_path rule_path;
          rooted = starts_with rule ''/'' \<or> starts_with rule ''~/'' \<or> is_windows_absolute_path rule;
          call = fold_path call_path
      in rooted \<and> \<not> has_parent_component rule \<and> \<not> has_parent_component call \<and> rule = call)"

section \<open>Components\<close>

definition plain_component :: "string \<Rightarrow> bool" where
  "plain_component c \<longleftrightarrow> c \<noteq> [] \<and> c \<noteq> ''.'' \<and> c \<noteq> ''..'' \<and> CHR ''/'' \<notin> set c"

lemma normalize_components_plain:
  "normalize_components cs = Some ds \<Longrightarrow> \<forall>c \<in> set cs. CHR ''/'' \<notin> set c \<Longrightarrow> \<forall>c \<in> set ds. plain_component c"
  by (induction cs arbitrary: ds) (auto simp: plain_component_def split: if_splits)

lemma normalize_components_None: "normalize_components cs = None \<longleftrightarrow> ''..'' \<in> set cs"
  by (induction cs) auto

lemma normalize_components_Some:
  "''..'' \<notin> set cs \<Longrightarrow> normalize_components cs = Some (filter (\<lambda>c. c \<noteq> [] \<and> c \<noteq> ''.'') cs)"
  by (induction cs) auto

lemma normalize_components_id: "\<forall>c \<in> set cs. plain_component c \<Longrightarrow> normalize_components cs = Some cs"
  by (induction cs) (auto simp: plain_component_def)

lemma parse_path_plain:
  assumes "parse_path_for_matching_with_case v ci = Some p"
  shows "\<forall>c \<in> set (components p). plain_component c"
proof -
  from assms obtain path where "normalize_components (split_char (CHR ''/'') path) = Some (components p)"
    unfolding parse_path_for_matching_with_case_def Let_def
    by (auto split: if_splits option.splits)
  moreover have "\<forall>c \<in> set (split_char (CHR ''/'') path). CHR ''/'' \<notin> set c"
    using split_char_no_sep by blast
  ultimately show ?thesis by (rule normalize_components_plain)
qed

text \<open>Paths of plain components are determined by their joined text.\<close>

lemma join_components_inj:
  assumes "\<forall>c \<in> set cs. plain_component c" and "\<forall>c \<in> set ds. plain_component c"
    and "join ''/'' cs = join ''/'' ds"
  shows "cs = ds"
proof -
  have nonempty: "join ''/'' es = [] \<longleftrightarrow> es = []" if "\<forall>c \<in> set es. plain_component c" for es
    using that by (cases es) (auto simp: join_def plain_component_def)
  show ?thesis
  proof (cases "cs = []")
    case True
    with assms(3) have "join ''/'' ds = []" by (simp add: join_def)
    with nonempty [OF assms(2)] True show ?thesis by simp
  next
    case False
    with nonempty [OF assms(1)] nonempty [OF assms(2)] assms(3) have "ds \<noteq> []" by auto
    have "cs = split_char (CHR ''/'') (join ''/'' cs)"
      using False assms(1) by (simp add: split_char_join plain_component_def)
    also have "\<dots> = ds"
      using \<open>ds \<noteq> []\<close> assms(2) by (simp add: assms(3) split_char_join plain_component_def)
    finally show ?thesis .
  qed
qed

section \<open>What a normalised path names\<close>

text \<open>
  The file a path names, lexically: the root and the components of the path itself when it is
  rooted, otherwise those of the workspace followed by the path's own.
\<close>

definition resolve_path :: "string \<Rightarrow> string \<Rightarrow> bool \<Rightarrow> (string option \<times> string list) option" where
  "resolve_path value workspace ci =
     (case (parse_path_for_matching_with_case value ci, parse_path_for_matching_with_case workspace ci) of
        (Some p, Some w) \<Rightarrow>
          (case root p of
             Some r \<Rightarrow> Some (Some r, components p)
           | None \<Rightarrow> Some (root w, components w @ components p))
      | _ \<Rightarrow> None)"

lemma strip_list_prefix_Some: "strip_list_prefix xs ys = Some zs \<longleftrightarrow> xs = ys @ zs"
  by (auto simp: strip_list_prefix_def) (metis append_take_drop_id)

lemma normalize_relative_resolve:
  assumes "normalize_workspace_relative_path_with_case v w ci = Some r"
  obtains ws cs where "parse_path_for_matching_with_case w ci = Some ws" and "root ws \<noteq> None"
    and "resolve_path v w ci = Some (root ws, components ws @ cs)"
    and "\<forall>c \<in> set cs. plain_component c" and "r = join ''/'' cs"
proof -
  from assms obtain p ws wr where p: "parse_path_for_matching_with_case v ci = Some p"
    and ws: "parse_path_for_matching_with_case w ci = Some ws" and wr: "root ws = Some wr"
    by (auto simp: normalize_workspace_relative_path_with_case_def split: option.splits)
  note plain = parse_path_plain [OF p]
  show ?thesis
  proof (cases "root p")
    case None
    with assms p ws wr have "r = join ''/'' (components p)"
      by (simp add: normalize_workspace_relative_path_with_case_def)
    with None p ws wr plain show ?thesis
      by (intro that [of ws "components p"]) (simp_all add: resolve_path_def)
  next
    case (Some pr)
    with assms p ws wr obtain cs where "pr = wr" "strip_list_prefix (components p) (components ws) = Some cs"
      "r = join ''/'' cs"
      by (auto simp: normalize_workspace_relative_path_with_case_def split: if_splits)
    moreover from this have "components p = components ws @ cs" by (simp add: strip_list_prefix_Some)
    ultimately show ?thesis using Some p ws wr plain
      by (intro that [of ws cs]) (simp_all add: resolve_path_def)
  qed
qed

lemma normalize_relative_same_file:
  assumes "normalize_workspace_relative_path_with_case v w ci = Some r"
    and "normalize_workspace_relative_path_with_case v' w ci = Some r"
  shows "resolve_path v w ci = resolve_path v' w ci \<and> resolve_path v w ci \<noteq> None"
proof -
  obtain ws cs where 1: "parse_path_for_matching_with_case w ci = Some ws"
    "resolve_path v w ci = Some (root ws, components ws @ cs)"
    "\<forall>c \<in> set cs. plain_component c" "r = join ''/'' cs"
    using assms(1) by (rule normalize_relative_resolve)
  obtain ws' ds where 2: "parse_path_for_matching_with_case w ci = Some ws'"
    "resolve_path v' w ci = Some (root ws', components ws' @ ds)"
    "\<forall>c \<in> set ds. plain_component c" "r = join ''/'' ds"
    using assms(2) by (rule normalize_relative_resolve)
  from 1 2 have "cs = ds" by (intro join_components_inj) simp_all
  with 1 2 show ?thesis by simp
qed


end
