(* ===== verification/PolicyRules.thy ===== *)
theory PolicyRules
  imports ToolRules DenyMatch BashArity PathPolicy "HOL-Library.Product_Lexorder"
begin

text \<open>
  Typed permission rules and their selection (\<open>crates/execpolicy/src/lib.rs\<close>): the rulesets and
  their layers, \<open>ToolAskRule\<close>, the invocation context, the per-rule filters of
  \<open>matching_ask_rule\<close> and the choice of the winning rule. \<open>cfg!(windows)\<close> and
  \<open>platform_paths_are_case_insensitive\<close> are the two fields of \<open>Platform\<close>.
\<close>

section \<open>Data\<close>

record Platform =
  windows_host :: bool
  paths_fold_case :: bool

datatype RulesetLayer = BuiltinDefault | Agent | User

datatype PermissionAction = Allow | Ask | Deny

fun layer_rank :: "RulesetLayer \<Rightarrow> nat" where
  "layer_rank BuiltinDefault = 0"
| "layer_rank Agent = 1"
| "layer_rank User = 2"

fun action_rank :: "PermissionAction \<Rightarrow> nat" where
  "action_rank Allow = 0"
| "action_rank Ask = 1"
| "action_rank Deny = 2"

lemma layer_rank_inj [simp]: "layer_rank a = layer_rank b \<longleftrightarrow> a = b"
  by (cases a; cases b) simp_all

lemma action_rank_inj [simp]: "action_rank a = action_rank b \<longleftrightarrow> a = b"
  by (cases a; cases b) simp_all

text \<open>The derived \<open>Ord\<close>: declaration order.\<close>

instantiation RulesetLayer :: linorder
begin

definition less_eq_RulesetLayer :: "RulesetLayer \<Rightarrow> RulesetLayer \<Rightarrow> bool" where
  "a \<le> b \<longleftrightarrow> layer_rank a \<le> layer_rank b"

definition less_RulesetLayer :: "RulesetLayer \<Rightarrow> RulesetLayer \<Rightarrow> bool" where
  "a < b \<longleftrightarrow> layer_rank a < layer_rank b"

instance
  by standard (auto simp: less_eq_RulesetLayer_def less_RulesetLayer_def)

end

instantiation PermissionAction :: linorder
begin

definition less_eq_PermissionAction :: "PermissionAction \<Rightarrow> PermissionAction \<Rightarrow> bool" where
  "a \<le> b \<longleftrightarrow> action_rank a \<le> action_rank b"

definition less_PermissionAction :: "PermissionAction \<Rightarrow> PermissionAction \<Rightarrow> bool" where
  "a < b \<longleftrightarrow> action_rank a < action_rank b"

instance
  by standard (auto simp: less_eq_PermissionAction_def less_PermissionAction_def)

end

lemma Deny_top: "Deny \<le> a \<longleftrightarrow> a = Deny" "a \<le> Deny"
  by (cases a; simp add: less_eq_PermissionAction_def)+

lemma User_top: "User \<le> l \<longleftrightarrow> l = User" "l \<le> User"
  by (cases l; simp add: less_eq_RulesetLayer_def)+

record ToolAskRule =
  rule_tool :: string
  rule_command :: "string option"
  rule_command_exact :: bool
  rule_path :: "string option"
  rule_workspace :: "string option"
  rule_action :: PermissionAction

record Ruleset =
  rs_layer :: RulesetLayer
  rs_trusted_prefixes :: "string list"
  rs_denied_prefixes :: "string list"
  rs_ask_rules :: "ToolAskRule list"

definition ruleset_builtin_default :: Ruleset where
  "ruleset_builtin_default =
     \<lparr>rs_layer = BuiltinDefault, rs_trusted_prefixes = [], rs_denied_prefixes = [], rs_ask_rules = []\<rparr>"

definition ruleset_agent :: "string list \<Rightarrow> string list \<Rightarrow> Ruleset" where
  "ruleset_agent trusted denied =
     \<lparr>rs_layer = Agent, rs_trusted_prefixes = trusted, rs_denied_prefixes = denied, rs_ask_rules = []\<rparr>"

definition ruleset_user :: "string list \<Rightarrow> string list \<Rightarrow> Ruleset" where
  "ruleset_user trusted denied =
     \<lparr>rs_layer = User, rs_trusted_prefixes = trusted, rs_denied_prefixes = denied, rs_ask_rules = []\<rparr>"

definition with_ask_rules :: "Ruleset \<Rightarrow> ToolAskRule list \<Rightarrow> Ruleset" where
  "with_ask_rules rs rules = rs\<lparr>rs_ask_rules := rules\<rparr>"

definition ask_rule_new :: "string \<Rightarrow> ToolAskRule" where
  "ask_rule_new tool =
     \<lparr>rule_tool = tool, rule_command = None, rule_command_exact = False, rule_path = None,
      rule_workspace = None, rule_action = Ask\<rparr>"

definition ask_rule_exec_shell :: "string \<Rightarrow> ToolAskRule" where
  "ask_rule_exec_shell command = (ask_rule_new ''exec_shell'')\<lparr>rule_command := Some command\<rparr>"

definition ask_rule_file_path :: "string \<Rightarrow> string \<Rightarrow> ToolAskRule" where
  "ask_rule_file_path tool path = (ask_rule_new tool)\<lparr>rule_path := Some path\<rparr>"

definition into_exact_workspace_allow :: "ToolAskRule \<Rightarrow> string \<Rightarrow> ToolAskRule" where
  "into_exact_workspace_allow rule workspace =
     rule\<lparr>rule_command_exact := rule_command rule \<noteq> None, rule_workspace := Some workspace,
       rule_action := Allow\<rparr>"

definition rule_label :: "ToolAskRule \<Rightarrow> string" where
  "rule_label rule = join '' ''
     ([''tool='' @ rule_tool rule]
      @ (case rule_command rule of Some c \<Rightarrow> [''command='' @ c] | None \<Rightarrow> [])
      @ (if rule_command_exact rule then [''command_exact=true''] else [])
      @ (case rule_path rule of Some p \<Rightarrow> [''path='' @ p] | None \<Rightarrow> [])
      @ (case rule_workspace rule of Some w \<Rightarrow> [''workspace='' @ w] | None \<Rightarrow> []))"

datatype AskForApproval =
  UnlessTrusted
| OnFailure
| OnRequest
| Reject (sandbox_approval: bool) (reject_rules: bool) (mcp_elicitations: bool)
| AskNever

record ExecPolicyContext =
  cx_command :: string
  cx_cwd :: string
  cx_tool :: "string option"
  cx_path :: "string option"
  cx_ask_for_approval :: AskForApproval
  cx_sandbox_mode :: "string option"

definition cx_tool_name :: "ExecPolicyContext \<Rightarrow> string" where
  "cx_tool_name ctx = (case cx_tool ctx of Some tool \<Rightarrow> tool | None \<Rightarrow> ''exec_shell'')"

section \<open>Which rules apply\<close>

definition rule_workspace_matches :: "ToolAskRule \<Rightarrow> ExecPolicyContext \<Rightarrow> bool" where
  "rule_workspace_matches rule ctx =
     (case rule_workspace rule of
        None \<Rightarrow> True
      | Some workspace \<Rightarrow> workspace_scope_matches workspace (cx_cwd ctx))"

definition rule_command_matches ::
  "Platform \<Rightarrow> (string \<times> nat) list \<Rightarrow> ToolAskRule \<Rightarrow> ExecPolicyContext \<Rightarrow> bool" where
  "rule_command_matches pf dict rule ctx =
     (case rule_command rule of
        Some command \<Rightarrow>
          if rule_command_exact rule then trim command = trim (cx_command ctx)
          else if rule_action rule = Deny
          then denied_prefix_matches (windows_host pf) command (cx_command ctx)
               \<or> allow_rule_matches dict command (cx_command ctx)
          else allow_rule_matches dict command (cx_command ctx)
      | None \<Rightarrow> True)"

definition rule_path_matches :: "Platform \<Rightarrow> ToolAskRule \<Rightarrow> ExecPolicyContext \<Rightarrow> bool" where
  "rule_path_matches pf rule ctx =
     (case (rule_path rule, cx_path ctx) of
        (Some pattern, Some call_path) \<Rightarrow>
          if rule_action rule \<noteq> Allow \<and> has_parent_component (to_slashes call_path) then True
          else if starts_with (to_slashes (trim pattern)) ''~/''
          then absolute_path_rule_matches (paths_fold_case pf) pattern call_path
          else (case (normalize_workspace_relative_path_with_case pattern (cx_cwd ctx) (paths_fold_case pf),
                      normalize_workspace_relative_path_with_case call_path (cx_cwd ctx) (paths_fold_case pf)) of
                  (Some r, Some p) \<Rightarrow> r = p
                | _ \<Rightarrow> False)
               \<or> absolute_path_rule_matches (paths_fold_case pf) pattern call_path
      | (Some _, None) \<Rightarrow> False
      | (None, _) \<Rightarrow> True)"

definition rule_applies ::
  "Platform \<Rightarrow> (string \<times> nat) list \<Rightarrow> ExecPolicyContext \<Rightarrow> ToolAskRule \<Rightarrow> bool" where
  "rule_applies pf dict ctx rule \<longleftrightarrow>
     rule_tool rule = cx_tool_name ctx \<and> rule_workspace_matches rule ctx
     \<and> rule_command_matches pf dict rule ctx \<and> rule_path_matches pf rule ctx"

definition ask_rule_specificity :: "ToolAskRule \<Rightarrow> nat" where
  "ask_rule_specificity rule =
     length (rule_tool rule)
     + (case rule_command rule of None \<Rightarrow> 0 | Some command \<Rightarrow> length command + 1000)
     + (case rule_path rule of None \<Rightarrow> 0 | Some path \<Rightarrow> length path + 1000)
     + (case rule_workspace rule of None \<Rightarrow> 0 | Some workspace \<Rightarrow> length workspace + 1000)
     + (if rule_command_exact rule then 1 else 0)"

definition rule_key :: "RulesetLayer \<times> ToolAskRule \<Rightarrow> RulesetLayer \<times> PermissionAction \<times> nat" where
  "rule_key = (\<lambda>(layer, rule). (layer, rule_action rule, ask_rule_specificity rule))"

definition layered_rules :: "Ruleset list \<Rightarrow> (RulesetLayer \<times> ToolAskRule) list" where
  "layered_rules rulesets = concat (map (\<lambda>rs. map (Pair (rs_layer rs)) (rs_ask_rules rs)) rulesets)"

definition matching_ask_rule ::
  "Platform \<Rightarrow> (string \<times> nat) list \<Rightarrow> Ruleset list \<Rightarrow> ExecPolicyContext \<Rightarrow> ToolAskRule option" where
  "matching_ask_rule pf dict rulesets ctx =
     map_option snd
       (max_by_key rule_key
         (filter (\<lambda>(_, rule). rule_applies pf dict ctx rule) (layered_rules rulesets)))"

section \<open>The winning rule\<close>

lemma layered_rules_iff:
  "(l, r) \<in> set (layered_rules rulesets) \<longleftrightarrow>
   (\<exists>rs \<in> set rulesets. rs_layer rs = l \<and> r \<in> set (rs_ask_rules rs))"
  by (auto simp: layered_rules_def)

lemma matching_ask_rule_Some:
  assumes "matching_ask_rule pf dict rulesets ctx = Some r"
  obtains l where "(l, r) \<in> set (layered_rules rulesets)" and "rule_applies pf dict ctx r"
    and "\<And>l' r'. (l', r') \<in> set (layered_rules rulesets) \<Longrightarrow> rule_applies pf dict ctx r' \<Longrightarrow>
           rule_key (l', r') \<le> rule_key (l, r)"
proof -
  from assms obtain l where
    "max_by_key rule_key (filter (\<lambda>(_, rule). rule_applies pf dict ctx rule) (layered_rules rulesets))
       = Some (l, r)"
    by (auto simp: matching_ask_rule_def)
  from max_by_key_SomeD [OF this] show ?thesis by (intro that [of l]) auto
qed

lemma matching_ask_rule_None:
  "matching_ask_rule pf dict rulesets ctx = None \<longleftrightarrow>
   (\<forall>(l, r) \<in> set (layered_rules rulesets). \<not> rule_applies pf dict ctx r)"
  by (auto simp: matching_ask_rule_def filter_empty_conv)

text \<open>A winning rule is never outranked by another layer, and within its layer never by action.\<close>

lemma rule_key_layer: "rule_key (l', r') \<le> rule_key (l, r) \<Longrightarrow> l' \<le> l"
  by (auto simp: rule_key_def)

lemma rule_key_action: "rule_key (l, r') \<le> rule_key (l, r) \<Longrightarrow> rule_action r' \<le> rule_action r"
  by (auto simp: rule_key_def)

lemma matching_ask_rule_layer:
  assumes "matching_ask_rule pf dict rulesets ctx = Some r" and "rule_applies pf dict ctx r'"
    and "(l', r') \<in> set (layered_rules rulesets)"
  shows "\<exists>l. (l, r) \<in> set (layered_rules rulesets) \<and> l' \<le> l
    \<and> (l' = l \<longrightarrow> rule_action r' \<le> rule_action r)"
  using assms(1)
proof (rule matching_ask_rule_Some)
  fix l
  assume in_rules: "(l, r) \<in> set (layered_rules rulesets)"
    and best: "\<And>l' r'. (l', r') \<in> set (layered_rules rulesets) \<Longrightarrow> rule_applies pf dict ctx r' \<Longrightarrow>
      rule_key (l', r') \<le> rule_key (l, r)"
  have "rule_key (l', r') \<le> rule_key (l, r)" using assms(3) assms(2) by (rule best)
  from rule_key_layer [OF this] in_rules this show ?thesis by (auto dest: rule_key_action)
qed

lemma user_deny_wins:
  assumes "rs \<in> set rulesets" and "rs_layer rs = User" and "r' \<in> set (rs_ask_rules rs)"
    and "rule_action r' = Deny" and "rule_applies pf dict ctx r'"
  shows "\<exists>r. matching_ask_rule pf dict rulesets ctx = Some r \<and> rule_action r = Deny"
proof -
  have in': "(User, r') \<in> set (layered_rules rulesets)" using assms by (auto simp: layered_rules_iff)
  then obtain r where r: "matching_ask_rule pf dict rulesets ctx = Some r"
    using assms(5) matching_ask_rule_None [of pf dict rulesets ctx]
    by (cases "matching_ask_rule pf dict rulesets ctx") auto
  from matching_ask_rule_layer [OF r assms(5) in'] assms(4) have "rule_action r = Deny"
    by (auto simp: User_top Deny_top)
  with r show ?thesis by blast
qed

lemma matching_ask_rule_tool:
  "matching_ask_rule pf dict rulesets ctx = Some r \<Longrightarrow> rule_tool r = cx_tool_name ctx"
  by (erule matching_ask_rule_Some) (simp add: rule_applies_def)

end
