(* ===== verification/ExecPolicy.thy ===== *)
theory ExecPolicy
  imports PolicyRules ShellResult
begin

text \<open>
  The execution-policy engine (\<open>crates/execpolicy/src/lib.rs\<close>): the live ruleset store shared by
  clones (\<open>Arc<RwLock<Vec<Ruleset>>>\<close>, a list of locks indexed by the reference, with the poison
  flag), the engine's private fields, its update operations, and \<open>check\<close>, one definition per stage
  of the decision. The command expander and the prefix-grant guard are arguments
  \<open>expand\<close> and \<open>eligible\<close> of \<open>check\<close>, so every theorem here holds whatever they return.
\<close>

section \<open>Decisions\<close>

datatype NetworkPolicyRuleAction = NetAllow | NetDeny

record NetworkPolicyAmendment =
  net_host :: string
  net_action :: NetworkPolicyRuleAction

record ExecPolicyAmendment =
  amendment_prefixes :: "string list"

datatype ExecApprovalRequirement =
  Skip (bypass_sandbox: bool) (skip_amendment: "ExecPolicyAmendment option")
| NeedsApproval (needs_reason: string) (proposed_execpolicy_amendment: "ExecPolicyAmendment option")
    (proposed_network_policy_amendments: "NetworkPolicyAmendment list")
| Forbidden (forbidden_reason: string)

fun requirement_reason :: "ExecApprovalRequirement \<Rightarrow> string" where
  "requirement_reason (Skip _ _) = ''Execution allowed by policy.''"
| "requirement_reason (NeedsApproval reason _ _) = reason"
| "requirement_reason (Forbidden reason) = reason"

fun requirement_phase :: "ExecApprovalRequirement \<Rightarrow> string" where
  "requirement_phase (Skip _ _) = ''allowed''"
| "requirement_phase (NeedsApproval _ _ _) = ''needs_approval''"
| "requirement_phase (Forbidden _) = ''forbidden''"

record ExecPolicyDecision =
  dec_allow :: bool
  dec_requires_approval :: bool
  dec_requirement :: ExecApprovalRequirement
  dec_matched_rule :: "string option"
  dec_matched_action :: "PermissionAction option"

definition forbid :: "string option \<Rightarrow> PermissionAction option \<Rightarrow> string \<Rightarrow> ExecPolicyDecision" where
  "forbid matched action reason =
     \<lparr>dec_allow = False, dec_requires_approval = False, dec_requirement = Forbidden reason,
      dec_matched_rule = matched, dec_matched_action = action\<rparr>"

section \<open>The engine and its store\<close>

record PolicyLock =
  lock_rulesets :: "Ruleset list"
  lock_poisoned :: bool

record ExecPolicyEngine =
  eng_rulesets :: nat
  eng_trusted_prefixes :: "string list"
  eng_denied_prefixes :: "string list"
  eng_approved_for_session :: "string set"
  eng_arity_dict :: "(string \<times> nat) list"

type_synonym policy_store = "PolicyLock list"

definition alloc_lock :: "policy_store \<Rightarrow> Ruleset list \<Rightarrow> policy_store \<times> nat" where
  "alloc_lock st rulesets =
     (st @ [\<lparr>lock_rulesets = rulesets, lock_poisoned = False\<rparr>], length st)"

definition engine_new ::
  "policy_store \<Rightarrow> string list \<Rightarrow> string list \<Rightarrow> policy_store \<times> ExecPolicyEngine" where
  "engine_new st trusted denied =
     (let (st', r) = alloc_lock st [] in
      (st', \<lparr>eng_rulesets = r, eng_trusted_prefixes = trusted, eng_denied_prefixes = denied,
         eng_approved_for_session = {}, eng_arity_dict = arity_dict_new\<rparr>))"

definition with_rulesets :: "policy_store \<Rightarrow> Ruleset list \<Rightarrow> policy_store \<times> ExecPolicyEngine" where
  "with_rulesets st rulesets =
     (let (st', r) = alloc_lock st (sort_key rs_layer rulesets) in
      (st', \<lparr>eng_rulesets = r, eng_trusted_prefixes = [], eng_denied_prefixes = [],
         eng_approved_for_session = {}, eng_arity_dict = arity_dict_new\<rparr>))"

text \<open>An update takes the write guard even of a poisoned lock and leaves the poison in place.\<close>

definition update_rulesets ::
  "(Ruleset list \<Rightarrow> Ruleset list) \<Rightarrow> policy_store \<Rightarrow> ExecPolicyEngine \<Rightarrow> policy_store" where
  "update_rulesets f st e =
     st[eng_rulesets e := (st ! eng_rulesets e)\<lparr>lock_rulesets := f (lock_rulesets (st ! eng_rulesets e))\<rparr>]"

definition add_ruleset :: "policy_store \<Rightarrow> ExecPolicyEngine \<Rightarrow> Ruleset \<Rightarrow> policy_store" where
  "add_ruleset st e ruleset =
     update_rulesets (\<lambda>rulesets. sort_key rs_layer (rulesets @ [ruleset])) st e"

definition set_ruleset :: "policy_store \<Rightarrow> ExecPolicyEngine \<Rightarrow> Ruleset \<Rightarrow> policy_store" where
  "set_ruleset st e ruleset =
     update_rulesets
       (\<lambda>rulesets. sort_key rs_layer
          (filter (\<lambda>existing. rs_layer existing \<noteq> rs_layer ruleset) rulesets @ [ruleset])) st e"

text \<open>A panic while the write guard is held: the assignment is the last step, so the rulesets are
  the old ones and the lock is poisoned.\<close>

definition panicking_update :: "policy_store \<Rightarrow> ExecPolicyEngine \<Rightarrow> policy_store" where
  "panicking_update st e =
     st[eng_rulesets e := (st ! eng_rulesets e)\<lparr>lock_poisoned := True\<rparr>]"

definition remember_session_approval :: "ExecPolicyEngine \<Rightarrow> string \<Rightarrow> ExecPolicyEngine" where
  "remember_session_approval e key =
     e\<lparr>eng_approved_for_session := insert key (eng_approved_for_session e)\<rparr>"

definition is_session_approved :: "ExecPolicyEngine \<Rightarrow> string \<Rightarrow> bool" where
  "is_session_approved e key \<longleftrightarrow> key \<in> eng_approved_for_session e"

definition resolve_prefixes :: "ExecPolicyEngine \<Rightarrow> Ruleset list \<Rightarrow> string list \<times> string list" where
  "resolve_prefixes e rulesets =
     (if rulesets = [] then (eng_trusted_prefixes e, eng_denied_prefixes e)
      else (concat (map rs_trusted_prefixes rulesets) @ eng_trusted_prefixes e,
            concat (map rs_denied_prefixes rulesets) @ eng_denied_prefixes e))"

section \<open>The stages of a check\<close>

definition raw_command :: "ExecPolicyContext \<Rightarrow> string" where
  "raw_command ctx = trim (cx_command ctx)"

definition deny_targets :: "ExecPolicyContext \<Rightarrow> Expansion \<Rightarrow> string list" where
  "deny_targets ctx ex =
     (if raw_command ctx \<noteq> [] \<and> raw_command ctx \<notin> set (ex_commands ex)
      then ex_commands ex @ [raw_command ctx] else ex_commands ex)"

definition denied_prefix_stage ::
  "Platform \<Rightarrow> string list \<Rightarrow> string list \<Rightarrow> ExecPolicyDecision option" where
  "denied_prefix_stage pf denied targets =
     map_option
       (\<lambda>rule. forbid (Some rule) None
          (''Command blocked by denied prefix rule '' @ [CHR 0x27] @ rule @ [CHR 0x27]))
       (List.find (\<lambda>rule. list_ex (denied_prefix_matches (windows_host pf) rule) targets) denied)"

definition deny_rules_configured :: "ExecPolicyContext \<Rightarrow> string list \<Rightarrow> Ruleset list \<Rightarrow> bool" where
  "deny_rules_configured ctx denied rulesets \<longleftrightarrow>
     denied \<noteq> [] \<or> list_ex (\<lambda>rs. list_ex
       (\<lambda>rule. rule_action rule = Deny \<and> rule_tool rule = cx_tool_name ctx) (rs_ask_rules rs)) rulesets"

definition dynamic_reason :: string where
  "dynamic_reason =
     ''Deny rules are in force and this command'' @ [CHR 0x27] @ ''s words are only known when it '' @
     ''runs (a variable, substitution, glob or brace list, escaped quoting, '' @
     ''a script read from a pipe, or text that does not parse cleanly), so '' @
     ''they cannot be checked against those rules.''"

definition dynamic_stage ::
  "ExecPolicyContext \<Rightarrow> string list \<Rightarrow> Ruleset list \<Rightarrow> Expansion \<Rightarrow> ExecPolicyDecision option" where
  "dynamic_stage ctx denied rulesets ex =
     (if ex_dynamic ex \<and> deny_rules_configured ctx denied rulesets
      then Some (if cx_ask_for_approval ctx \<in> {UnlessTrusted, OnRequest}
             then \<lparr>dec_allow = True, dec_requires_approval = True,
                   dec_requirement = NeedsApproval dynamic_reason None [],
                   dec_matched_rule = None, dec_matched_action = None\<rparr>
             else forbid None (Some Deny) dynamic_reason)
      else None)"

definition trusted_rule_of ::
  "(string \<times> nat) list \<Rightarrow> string list \<Rightarrow> ExecPolicyContext \<Rightarrow> bool \<Rightarrow> string option" where
  "trusted_rule_of dict trusted ctx prefix_eligible =
     (if prefix_eligible
      then List.find (\<lambda>rule. allow_rule_matches dict rule (cx_command ctx)) trusted else None)"

text \<open>Typed deny rules on every segment other than the invocation as typed.\<close>

definition segment_targets :: "ExecPolicyContext \<Rightarrow> string list \<Rightarrow> string list" where
  "segment_targets ctx targets =
     filter (\<lambda>t. t \<noteq> raw_command ctx) (targets @ List.map_filter fold_command_word_path targets)"

definition segment_deny ::
  "Platform \<Rightarrow> (string \<times> nat) list \<Rightarrow> Ruleset list \<Rightarrow> ExecPolicyContext \<Rightarrow> string \<Rightarrow> ToolAskRule option" where
  "segment_deny pf dict rulesets ctx target =
     (case matching_ask_rule pf dict rulesets (ctx\<lparr>cx_command := target\<rparr>) of
        Some rule \<Rightarrow> if rule_action rule = Deny then Some rule else None
      | None \<Rightarrow> None)"

definition segment_stage ::
  "Platform \<Rightarrow> (string \<times> nat) list \<Rightarrow> Ruleset list \<Rightarrow> ExecPolicyContext \<Rightarrow> string list
   \<Rightarrow> ExecPolicyDecision option" where
  "segment_stage pf dict rulesets ctx targets =
     (case List.map_filter (segment_deny pf dict rulesets ctx) (segment_targets ctx targets) of
        [] \<Rightarrow> None
      | rule # _ \<Rightarrow> Some (forbid (Some (rule_label rule)) (Some Deny)
          (''Permission rule '' @ [CHR 0x27] @ rule_label rule @ [CHR 0x27] @
           '' explicitly denies a chained segment of this invocation.'')))"

definition command_grant :: "ExecPolicyContext \<Rightarrow> ToolAskRule \<Rightarrow> bool" where
  "command_grant ctx rule \<longleftrightarrow>
     cx_tool_name ctx = ''exec_shell'' \<or> rule_command rule \<noteq> None \<or> cx_command ctx \<noteq> []"

definition grant_covers :: "ExecPolicyContext \<Rightarrow> Expansion \<Rightarrow> bool \<Rightarrow> ToolAskRule \<Rightarrow> bool" where
  "grant_covers ctx ex prefix_eligible rule \<longleftrightarrow>
     \<not> command_grant ctx rule
     \<or> (\<not> ex_control ex \<and> (rule_command_exact rule \<or> prefix_eligible))"

definition typed_stage ::
  "ExecPolicyContext \<Rightarrow> Expansion \<Rightarrow> bool \<Rightarrow> ToolAskRule option \<Rightarrow> ExecPolicyDecision option" where
  "typed_stage ctx ex prefix_eligible ask_rule =
     (case ask_rule of
        None \<Rightarrow> None
      | Some rule \<Rightarrow>
          (case rule_action rule of
             Deny \<Rightarrow> Some (forbid (Some (rule_label rule)) (Some Deny)
               (''Permission rule '' @ [CHR 0x27] @ rule_label rule @ [CHR 0x27] @
                '' explicitly denies this invocation.''))
           | Allow \<Rightarrow>
               if grant_covers ctx ex prefix_eligible rule
               then Some \<lparr>dec_allow = True, dec_requires_approval = False,
                      dec_requirement = Skip False None,
                      dec_matched_rule = Some (rule_label rule), dec_matched_action = Some Allow\<rparr>
               else None
           | Ask \<Rightarrow> None))"

text \<open>The requirement set by an ask rule, and otherwise by the approval mode; with the label
  recorded as \<open>matched_ask_rule\<close>.\<close>

definition rejects_rules :: "AskForApproval \<Rightarrow> bool" where
  "rejects_rules mode = (case mode of Reject _ rules _ \<Rightarrow> rules | _ \<Rightarrow> False)"

definition ask_rule_requirement ::
  "AskForApproval \<Rightarrow> ToolAskRule option \<Rightarrow> (ExecApprovalRequirement \<times> string option) option" where
  "ask_rule_requirement mode ask_rule =
     (if mode = AskNever \<or> rejects_rules mode then None
      else map_option (\<lambda>rule.
        (NeedsApproval (''Typed ask rule '' @ [CHR 0x27] @ rule_label rule @ [CHR 0x27] @
           '' requires approval.'') None [], Some (rule_label rule))) ask_rule)"

definition mode_requirement ::
  "ExecPolicyContext \<Rightarrow> bool \<Rightarrow> bool \<Rightarrow> ToolAskRule option
   \<Rightarrow> ExecApprovalRequirement \<times> string option" where
  "mode_requirement ctx is_trusted prefix_eligible ask_rule =
     (let prompt = NeedsApproval
            (if is_trusted then ''Approval requested by policy mode.''
             else ''Unmatched command prefix requires approval.'')
            (if is_trusted \<or> \<not> prefix_eligible then None
             else Some \<lparr>amendment_prefixes = [first_token (cx_command ctx)]\<rparr>) []
      in case cx_ask_for_approval ctx of
           AskNever \<Rightarrow>
             (case ask_rule of
                Some rule \<Rightarrow>
                  (Forbidden (''Typed ask rule '' @ [CHR 0x27] @ rule_label rule @ [CHR 0x27] @
                     '' requires approval, but approval policy is never.''), Some (rule_label rule))
              | None \<Rightarrow> (Skip False None, None))
         | Reject _ rules _ \<Rightarrow>
             if rules then (Forbidden ''Policy is configured to reject rule-exceptions.'', None)
             else (prompt, None)
         | UnlessTrusted \<Rightarrow> if is_trusted then (Skip False None, None) else (prompt, None)
         | OnFailure \<Rightarrow> (Skip False None, None)
         | OnRequest \<Rightarrow> (prompt, None))"

fun requirement_flags :: "ExecApprovalRequirement \<Rightarrow> bool \<times> bool" where
  "requirement_flags (Skip _ _) = (True, False)"
| "requirement_flags (NeedsApproval _ _ _) = (True, True)"
| "requirement_flags (Forbidden _) = (False, False)"

definition fallback_stage ::
  "ExecPolicyContext \<Rightarrow> string option \<Rightarrow> bool \<Rightarrow> ToolAskRule option \<Rightarrow> ExecPolicyDecision" where
  "fallback_stage ctx trusted_rule prefix_eligible ask_rule =
     (let (requirement, matched_ask_rule) =
            (case ask_rule_requirement (cx_ask_for_approval ctx) ask_rule of
               Some req \<Rightarrow> req
             | None \<Rightarrow> mode_requirement ctx (trusted_rule \<noteq> None) prefix_eligible ask_rule)
      in \<lparr>dec_allow = fst (requirement_flags requirement),
          dec_requires_approval = snd (requirement_flags requirement),
          dec_requirement = requirement,
          dec_matched_rule = (case matched_ask_rule of Some l \<Rightarrow> Some l | None \<Rightarrow> trusted_rule),
          dec_matched_action = map_option rule_action ask_rule\<rparr>)"

fun or_else :: "'a option \<Rightarrow> 'a \<Rightarrow> 'a" where
  "or_else (Some x) _ = x"
| "or_else None y = y"

definition decide ::
  "Platform \<Rightarrow> ExecPolicyEngine \<Rightarrow> Ruleset list \<Rightarrow> ExecPolicyContext \<Rightarrow> Expansion \<Rightarrow> bool
   \<Rightarrow> ExecPolicyDecision" where
  "decide pf e rulesets ctx ex prefix_eligible =
     (let (trusted, denied) = resolve_prefixes e rulesets;
          targets = deny_targets ctx ex;
          dict = eng_arity_dict e
      in or_else (denied_prefix_stage pf denied targets)
        (or_else (dynamic_stage ctx denied rulesets ex)
          (let trusted_rule = trusted_rule_of dict trusted ctx prefix_eligible
           in or_else (segment_stage pf dict rulesets ctx targets)
             (let ask_rule = matching_ask_rule pf dict rulesets ctx
              in or_else (typed_stage ctx ex prefix_eligible ask_rule)
                (fallback_stage ctx trusted_rule prefix_eligible ask_rule)))))"

definition poisoned_decision :: ExecPolicyDecision where
  "poisoned_decision = forbid None None
     (''Execution policy update failed; reload the session from its saved '' @
      ''permission configuration.'')"

definition check ::
  "Platform \<Rightarrow> (string \<Rightarrow> Expansion) \<Rightarrow> (string \<Rightarrow> Expansion \<Rightarrow> bool) \<Rightarrow> policy_store
   \<Rightarrow> ExecPolicyEngine \<Rightarrow> ExecPolicyContext \<Rightarrow> ExecPolicyDecision" where
  "check pf expand eligible st e ctx =
     (let lock = st ! eng_rulesets e in
      if lock_poisoned lock then poisoned_decision
      else let ex = expand (cx_command ctx)
           in decide pf e (lock_rulesets lock) ctx ex (eligible (cx_command ctx) ex))"

section \<open>Store lemmas\<close>

text \<open>\<open>engine_in st e\<close>: the engine's reference points into the store.\<close>

definition engine_in :: "policy_store \<Rightarrow> ExecPolicyEngine \<Rightarrow> bool" where
  "engine_in st e \<longleftrightarrow> eng_rulesets e < length st"

lemma update_rulesets_nth:
  "engine_in st e \<Longrightarrow> update_rulesets f st e ! r =
     (if r = eng_rulesets e then (st ! r)\<lparr>lock_rulesets := f (lock_rulesets (st ! r))\<rparr> else st ! r)"
  by (simp add: update_rulesets_def engine_in_def)

lemma panicking_update_nth:
  "engine_in st e \<Longrightarrow> panicking_update st e ! r =
     (if r = eng_rulesets e then (st ! r)\<lparr>lock_poisoned := True\<rparr> else st ! r)"
  by (simp add: panicking_update_def engine_in_def)

lemma length_update [simp]:
  "length (update_rulesets f st e) = length st" "length (panicking_update st e) = length st"
  by (simp_all add: update_rulesets_def panicking_update_def)

text \<open>One update of the live policy, through any engine that holds a reference into the store.\<close>

inductive policy_step :: "policy_store \<Rightarrow> policy_store \<Rightarrow> bool" where
  step_add: "engine_in st e \<Longrightarrow> policy_step st (add_ruleset st e rs)"
| step_set: "engine_in st e \<Longrightarrow> policy_step st (set_ruleset st e rs)"
| step_panic: "engine_in st e \<Longrightarrow> policy_step st (panicking_update st e)"
| step_new: "policy_step st (fst (engine_new st trusted denied))"
| step_with: "policy_step st (fst (with_rulesets st rulesets))"

inductive_cases policy_stepE: "policy_step st st'"

lemma policy_step_length: "policy_step st st' \<Longrightarrow> length st \<le> length st'"
  by (erule policy_stepE)
    (auto simp: add_ruleset_def set_ruleset_def engine_new_def with_rulesets_def alloc_lock_def Let_def)

lemma policy_step_poison:
  "policy_step st st' \<Longrightarrow> r < length st \<Longrightarrow> lock_poisoned (st ! r) \<Longrightarrow> lock_poisoned (st' ! r)"
  by (erule policy_stepE)
    (auto simp: add_ruleset_def set_ruleset_def engine_new_def with_rulesets_def alloc_lock_def
      Let_def update_rulesets_nth panicking_update_nth nth_append)

text \<open>Every lock of a store that grew from the empty one holds its rulesets in layer order.\<close>

definition store_sorted :: "policy_store \<Rightarrow> bool" where
  "store_sorted st \<longleftrightarrow> (\<forall>lock \<in> set st. sorted (map rs_layer (lock_rulesets lock)))"

lemma store_sorted_update:
  "store_sorted st \<Longrightarrow> engine_in st e \<Longrightarrow> (\<And>rulesets. sorted (map rs_layer (f rulesets))) \<Longrightarrow>
   store_sorted (update_rulesets f st e)"
  unfolding store_sorted_def all_set_conv_all_nth by (simp add: update_rulesets_nth)

lemma policy_step_sorted: "policy_step st st' \<Longrightarrow> store_sorted st \<Longrightarrow> store_sorted st'"
proof (erule policy_stepE; hypsubst)
  fix e rs
  assume "store_sorted st" "engine_in st e"
  then show "store_sorted (add_ruleset st e rs)" "store_sorted (set_ruleset st e rs)"
    by (simp_all add: add_ruleset_def set_ruleset_def store_sorted_update)
  from \<open>store_sorted st\<close> \<open>engine_in st e\<close> show "store_sorted (panicking_update st e)"
    unfolding store_sorted_def all_set_conv_all_nth by (simp add: panicking_update_nth)
qed (auto simp: store_sorted_def engine_new_def with_rulesets_def alloc_lock_def)

interpretation policy_store: invariant_system "\<lambda>st. st = []" policy_step store_sorted
proof unfold_locales
  show "store_sorted st" if "st = []" for st using that by (simp add: store_sorted_def)
qed (rule policy_step_sorted)

section \<open>Stage lemmas\<close>

lemma or_else_cases: "or_else x y = z \<Longrightarrow> x = Some z \<or> (x = None \<and> y = z)"
  by (cases x) simp_all

text \<open>The shape of a decision: it ended in one of the five stages.\<close>

lemma decide_cases:
  assumes "decide pf e rulesets ctx ex pe = d" and "resolve_prefixes e rulesets = (trusted, denied)"
  obtains
    (prefix_deny) "denied_prefix_stage pf denied (deny_targets ctx ex) = Some d"
  | (unresolved) "denied_prefix_stage pf denied (deny_targets ctx ex) = None"
      "dynamic_stage ctx denied rulesets ex = Some d"
  | (segment) "denied_prefix_stage pf denied (deny_targets ctx ex) = None"
      "dynamic_stage ctx denied rulesets ex = None"
      "segment_stage pf (eng_arity_dict e) rulesets ctx (deny_targets ctx ex) = Some d"
  | (typed) "denied_prefix_stage pf denied (deny_targets ctx ex) = None"
      "dynamic_stage ctx denied rulesets ex = None"
      "segment_stage pf (eng_arity_dict e) rulesets ctx (deny_targets ctx ex) = None"
      "typed_stage ctx ex pe (matching_ask_rule pf (eng_arity_dict e) rulesets ctx) = Some d"
  | (fallback) "denied_prefix_stage pf denied (deny_targets ctx ex) = None"
      "dynamic_stage ctx denied rulesets ex = None"
      "segment_stage pf (eng_arity_dict e) rulesets ctx (deny_targets ctx ex) = None"
      "typed_stage ctx ex pe (matching_ask_rule pf (eng_arity_dict e) rulesets ctx) = None"
      "d = fallback_stage ctx (trusted_rule_of (eng_arity_dict e) trusted ctx pe) pe
             (matching_ask_rule pf (eng_arity_dict e) rulesets ctx)"
proof -
  from assms have d: "or_else (denied_prefix_stage pf denied (deny_targets ctx ex))
      (or_else (dynamic_stage ctx denied rulesets ex)
        (or_else (segment_stage pf (eng_arity_dict e) rulesets ctx (deny_targets ctx ex))
          (or_else (typed_stage ctx ex pe (matching_ask_rule pf (eng_arity_dict e) rulesets ctx))
            (fallback_stage ctx (trusted_rule_of (eng_arity_dict e) trusted ctx pe) pe
              (matching_ask_rule pf (eng_arity_dict e) rulesets ctx))))) = d"
    by (simp add: decide_def Let_def)
  then show thesis
    by (elim or_else_cases [THEN disjE] conjE) (fact that; assumption | (rule that; simp))+
qed

end
