(* ===== verification/ExecPolicyProps.thy ===== *)
theory ExecPolicyProps
  imports ExecPolicy
begin

text \<open>
  What the execution-policy engine guarantees: the properties of \<open>check\<close>, of the deny matcher and
  of the live policy store, each with the concrete input that shows its hypotheses can hold.
\<close>

section \<open>A concrete session for the witnesses\<close>

definition unix_host :: Platform where
  "unix_host = \<lparr>windows_host = False, paths_fold_case = False\<rparr>"

definition plain_expansion :: "string \<Rightarrow> Expansion" where
  "plain_expansion command =
     \<lparr>ex_commands = [command], ex_dynamic = False, ex_nested = False, ex_arguments_dynamic = False,
      ex_control = False, ex_redirects = False\<rparr>"

definition shell_context :: "string \<Rightarrow> AskForApproval \<Rightarrow> ExecPolicyContext" where
  "shell_context command mode =
     \<lparr>cx_command = command, cx_cwd = ''/w'', cx_tool = None, cx_path = None,
      cx_ask_for_approval = mode, cx_sandbox_mode = None\<rparr>"

definition session_engine :: "string list \<Rightarrow> string list \<Rightarrow> ExecPolicyEngine" where
  "session_engine trusted denied =
     \<lparr>eng_rulesets = 0, eng_trusted_prefixes = trusted, eng_denied_prefixes = denied,
      eng_approved_for_session = {}, eng_arity_dict = []\<rparr>"

definition live_store :: "Ruleset list \<Rightarrow> policy_store" where
  "live_store rulesets = [\<lparr>lock_rulesets = rulesets, lock_poisoned = False\<rparr>]"

lemmas session_defs = unix_host_def plain_expansion_def shell_context_def session_engine_def
  live_store_def

section \<open>Lemmas\<close>

abbreviation live_rulesets :: "policy_store \<Rightarrow> ExecPolicyEngine \<Rightarrow> Ruleset list" where
  "live_rulesets st e \<equiv> lock_rulesets (st ! eng_rulesets e)"

lemma check_poisoned: "lock_poisoned (st ! eng_rulesets e) \<Longrightarrow> check pf expand el st e ctx = poisoned_decision"
  by (simp add: check_def)

lemma check_live: "\<not> lock_poisoned (st ! eng_rulesets e) \<Longrightarrow>
  check pf expand el st e ctx =
    decide pf e (live_rulesets st e) ctx (expand (cx_command ctx)) (el (cx_command ctx) (expand (cx_command ctx)))"
  by (simp add: check_def Let_def)

lemma denied_prefix_stage_Some:
  "denied_prefix_stage pf denied targets = Some d \<Longrightarrow>
   \<exists>rule reason. d = forbid (Some rule) None reason \<and> rule \<in> set denied"
  by (auto simp: denied_prefix_stage_def dest!: list_find_Some_in)

lemma denied_prefix_stage_None:
  "denied_prefix_stage pf denied targets = None \<longleftrightarrow>
   (\<forall>rule \<in> set denied. \<forall>t \<in> set targets. \<not> denied_prefix_matches (windows_host pf) rule t)"
  by (auto simp: denied_prefix_stage_def find_None_iff list_ex_iff)

lemma dynamic_stage_Some:
  "dynamic_stage ctx denied rulesets ex = Some d \<Longrightarrow>
   d = forbid None (Some Deny) dynamic_reason
   \<or> d = \<lparr>dec_allow = True, dec_requires_approval = True,
          dec_requirement = NeedsApproval dynamic_reason None [],
          dec_matched_rule = None, dec_matched_action = None\<rparr>
     \<and> cx_ask_for_approval ctx \<in> {UnlessTrusted, OnRequest}"
  by (auto simp: dynamic_stage_def split: if_splits)

lemma segment_stage_Some:
  "segment_stage pf dict rulesets ctx targets = Some d \<Longrightarrow>
   \<exists>rule reason. d = forbid (Some rule) (Some Deny) reason"
  by (auto simp: segment_stage_def split: list.splits)

lemma typed_stage_Some:
  "typed_stage ctx ex pe ask_rule = Some d \<Longrightarrow> \<exists>rule. ask_rule = Some rule \<and>
   (rule_action rule = Deny \<and> (\<exists>reason. d = forbid (Some (rule_label rule)) (Some Deny) reason)
    \<or> rule_action rule = Allow \<and> grant_covers ctx ex pe rule
      \<and> d = \<lparr>dec_allow = True, dec_requires_approval = False, dec_requirement = Skip False None,
            dec_matched_rule = Some (rule_label rule), dec_matched_action = Some Allow\<rparr>)"
  by (auto simp: typed_stage_def split: option.splits PermissionAction.splits if_splits)

lemma fallback_stage_wf:
  assumes "fallback_stage ctx trusted pe ask_rule = d"
  shows "requirement_flags (dec_requirement d) = (dec_allow d, dec_requires_approval d)"
    and "(case dec_requirement d of NeedsApproval _ _ nets \<Rightarrow> nets = []
        | Skip b _ \<Rightarrow> \<not> b | Forbidden _ \<Rightarrow> True)"
  using assms
  by (auto simp: fallback_stage_def Let_def ask_rule_requirement_def mode_requirement_def
      split: option.splits AskForApproval.splits if_splits)

text \<open>Every decision: the poisoned refusal, or one of the five stages.\<close>

lemma check_cases:
  fixes pf expand el st e ctx
  defines "ex \<equiv> expand (cx_command ctx)" and "pe \<equiv> el (cx_command ctx) (expand (cx_command ctx))"
    and "rulesets \<equiv> live_rulesets st e" and "dict \<equiv> eng_arity_dict e"
  assumes "check pf expand el st e ctx = d" and "resolve_prefixes e rulesets = (trusted, denied)"
  obtains
    (poisoned) "lock_poisoned (st ! eng_rulesets e)" "d = poisoned_decision"
  | (prefix_deny) "\<not> lock_poisoned (st ! eng_rulesets e)"
      "denied_prefix_stage pf denied (deny_targets ctx ex) = Some d"
  | (unresolved) "\<not> lock_poisoned (st ! eng_rulesets e)"
      "denied_prefix_stage pf denied (deny_targets ctx ex) = None"
      "dynamic_stage ctx denied rulesets ex = Some d"
  | (segment) "\<not> lock_poisoned (st ! eng_rulesets e)"
      "denied_prefix_stage pf denied (deny_targets ctx ex) = None"
      "dynamic_stage ctx denied rulesets ex = None"
      "segment_stage pf dict rulesets ctx (deny_targets ctx ex) = Some d"
  | (typed) "\<not> lock_poisoned (st ! eng_rulesets e)"
      "denied_prefix_stage pf denied (deny_targets ctx ex) = None"
      "dynamic_stage ctx denied rulesets ex = None"
      "segment_stage pf dict rulesets ctx (deny_targets ctx ex) = None"
      "typed_stage ctx ex pe (matching_ask_rule pf dict rulesets ctx) = Some d"
  | (fallback) "\<not> lock_poisoned (st ! eng_rulesets e)"
      "denied_prefix_stage pf denied (deny_targets ctx ex) = None"
      "dynamic_stage ctx denied rulesets ex = None"
      "segment_stage pf dict rulesets ctx (deny_targets ctx ex) = None"
      "typed_stage ctx ex pe (matching_ask_rule pf dict rulesets ctx) = None"
      "d = fallback_stage ctx (trusted_rule_of dict trusted ctx pe) pe
             (matching_ask_rule pf dict rulesets ctx)"
proof (cases "lock_poisoned (st ! eng_rulesets e)")
  case True
  with assms show ?thesis by (intro poisoned) (simp_all add: check_poisoned)
next
  case False
  with assms have "decide pf e rulesets ctx ex pe = d" by (simp add: check_live)
  from this assms(6) show ?thesis
    by (cases rule: decide_cases)
      (fold dict_def, (rule prefix_deny unresolved segment typed fallback; (assumption | rule False))+)
qed

lemmas stage_dests = denied_prefix_stage_Some dynamic_stage_Some segment_stage_Some typed_stage_Some

section \<open>Properties of the decision\<close>

text \<open>The deny matcher of the engine (a depth-first search over pairs of token positions with a
  visited set) is exactly the backtracking reference matcher on the tokenised rule and on the
  command's tokens after its leading environment assignments; a rule with no token never matches.\<close>

theorem denied_prefix_matches_spec:
  "denied_prefix_matches win rule command \<longleftrightarrow>
     rule_tokens rule \<noteq> []
     \<and> deny_spec win True (rule_tokens rule) (dropWhile is_env_assignment (rule_tokens command))"
  by (simp add: denied_prefix_matches_def Let_def deny_search_spec skip_env_drop)



text \<open>Every decision is consistent: the flags \<open>allow\<close> and \<open>requires_approval\<close> are those of the
  requirement, no decision bypasses the sandbox, and approving a command never proposes a change to
  the network policy.\<close>

theorem check_decision_consistent:
  "let d = check pf expand el st e ctx in
     requirement_flags (dec_requirement d) = (dec_allow d, dec_requires_approval d)
     \<and> (case dec_requirement d of NeedsApproval _ _ nets \<Rightarrow> nets = []
         | Skip b _ \<Rightarrow> \<not> b | Forbidden _ \<Rightarrow> True)"
proof -
  obtain trusted denied where res: "resolve_prefixes e (live_rulesets st e) = (trusted, denied)" by force
  obtain d where d: "check pf expand el st e ctx = d" by blast
  from d res have "requirement_flags (dec_requirement d) = (dec_allow d, dec_requires_approval d)
     \<and> (case dec_requirement d of NeedsApproval _ _ nets \<Rightarrow> nets = []
         | Skip b _ \<Rightarrow> \<not> b | Forbidden _ \<Rightarrow> True)" (is ?wf)
  proof (cases rule: check_cases)
    case fallback
    from fallback(6) [symmetric] show ?wf
      by (intro conjI fallback_stage_wf)
  qed (auto simp: poisoned_decision_def forbid_def dest!: stage_dests)
  with d show ?thesis by (simp add: Let_def)
qed

text \<open>Under the policy \<open>never\<close> no decision asks a person: a command either runs without approval
  or is forbidden.\<close>

theorem never_policy_never_asks:
  assumes "cx_ask_for_approval ctx = AskNever"
  shows "\<not> dec_requires_approval (check pf expand el st e ctx)"
proof -
  obtain trusted denied where res: "resolve_prefixes e (live_rulesets st e) = (trusted, denied)" by force
  obtain d where d: "check pf expand el st e ctx = d" by blast
  from d res have "\<not> dec_requires_approval d"
  proof (cases rule: check_cases)
    case fallback
    from assms show "\<not> dec_requires_approval d"
      by (simp add: fallback(6) fallback_stage_def ask_rule_requirement_def mode_requirement_def
          split: option.split)
  qed (use assms in \<open>auto simp: poisoned_decision_def forbid_def dest!: stage_dests\<close>)
  with d show ?thesis by simp
qed

theorem never_policy_never_asks_witness:
  "\<not> dec_requires_approval (check unix_host plain_expansion (\<lambda>_ _. True) (live_store [])
     (session_engine [] []) (shell_context ''cargo build'' AskNever))"
  by (rule never_policy_never_asks) (simp add: shell_context_def)

text \<open>A typed deny rule of the user layer cannot be outvoted: when it applies to the invocation,
  or to any other command the shell would run for it, no trusted prefix, no rule of any layer and no
  approval mode lets the command run unasked, and unless the command words are unresolvable the
  decision is Forbidden.\<close>

theorem user_deny_rule_blocks:
  assumes "rs \<in> set (live_rulesets st e)" and "rs_layer rs = User" and "r \<in> set (rs_ask_rules rs)"
    and "rule_action r = Deny"
    and "t = cx_command ctx \<or> t \<in> set (segment_targets ctx (deny_targets ctx (expand (cx_command ctx))))"
    and "rule_applies pf (eng_arity_dict e) (ctx\<lparr>cx_command := t\<rparr>) r"
  shows "let phase = requirement_phase (dec_requirement (check pf expand el st e ctx)) in
    phase \<noteq> ''allowed'' \<and> (\<not> ex_dynamic (expand (cx_command ctx)) \<longrightarrow> phase = ''forbidden'')"
proof -
  obtain trusted denied where res: "resolve_prefixes e (live_rulesets st e) = (trusted, denied)" by force
  obtain d where d: "check pf expand el st e ctx = d" by blast
  let ?match = "matching_ask_rule pf (eng_arity_dict e) (live_rulesets st e)"
  let ?segs = "segment_targets ctx (deny_targets ctx (expand (cx_command ctx)))"
  from user_deny_wins [OF assms(1-4,6)] obtain w where w: "?match (ctx\<lparr>cx_command := t\<rparr>) = Some w"
    "rule_action w = Deny" by blast
  have seg: "List.map_filter (segment_deny pf (eng_arity_dict e) (live_rulesets st e) ctx) ?segs \<noteq> []"
    if "t \<in> set ?segs"
  proof -
    from w have "segment_deny pf (eng_arity_dict e) (live_rulesets st e) ctx t = Some w"
      by (simp add: segment_deny_def)
    with that show ?thesis by (auto simp: List.map_filter_def filter_empty_conv)
  qed
  from d res have "requirement_phase (dec_requirement d) \<noteq> ''allowed''
    \<and> (\<not> ex_dynamic (expand (cx_command ctx)) \<longrightarrow> requirement_phase (dec_requirement d) = ''forbidden'')"
    by (cases rule: check_cases; use assms(5) w seg in
      \<open>auto simp: poisoned_decision_def forbid_def segment_stage_def typed_stage_def dynamic_stage_def
        split: list.splits if_splits dest!: denied_prefix_stage_Some\<close>)
  with d show ?thesis by (simp add: Let_def)
qed

definition deny_cargo_publish :: ToolAskRule where
  "deny_cargo_publish = (ask_rule_exec_shell ''cargo publish'')\<lparr>rule_action := Deny\<rparr>"

theorem user_deny_rule_blocks_witness:
  "requirement_phase (dec_requirement (check unix_host plain_expansion (\<lambda>_ _. True)
     (live_store [with_ask_rules (ruleset_user [''cargo''] []) [deny_cargo_publish]])
     (session_engine [''cargo''] []) (shell_context ''cargo -v publish'' OnFailure))) \<noteq> ''allowed''"
  by (rule user_deny_rule_blocks [where r = deny_cargo_publish and t = "''cargo -v publish''"
        and rs = "with_ask_rules (ruleset_user [''cargo''] []) [deny_cargo_publish]",
        unfolded Let_def, THEN conjunct1];
      code_simp)

text \<open>Under \<open>unless-trusted\<close> a command runs unasked only for a reason the user gave: either the
  winning typed rule is an allow rule that covers the invocation (one command, named exactly or
  eligible for a prefix grant), or no typed rule applies, the command is eligible and a trusted
  prefix matches it word for word (up to ASCII case and the module flag of Python). In both cases
  no hard denied prefix matches any command the shell would run.\<close>

theorem unless_trusted_grant:
  assumes "cx_ask_for_approval ctx = UnlessTrusted"
    and "requirement_phase (dec_requirement (check pf expand el st e ctx)) = ''allowed''"
  shows "list_all (\<lambda>rule. list_all (\<lambda>t. \<not> denied_prefix_matches (windows_host pf) rule t)
        (deny_targets ctx (expand (cx_command ctx))))
      (snd (resolve_prefixes e (live_rulesets st e)))
    \<and> (case matching_ask_rule pf (eng_arity_dict e) (live_rulesets st e) ctx of
         Some rule \<Rightarrow> rule_action rule = Allow
           \<and> grant_covers ctx (expand (cx_command ctx)) (el (cx_command ctx) (expand (cx_command ctx))) rule
       | None \<Rightarrow> el (cx_command ctx) (expand (cx_command ctx))
           \<and> (\<exists>p \<in> set (fst (resolve_prefixes e (live_rulesets st e))).
                prefix (rule_words p) (rule_words (cx_command ctx))
                \<or> (\<exists>py ts. split_whitespace (cx_command ctx) = py # ''-m'' # ts \<and> is_python py
                     \<and> prefix (rule_words p) (map to_ascii_lowercase (py # ts)))))"
    (is "?undenied \<and> ?granted")
proof -
  obtain trusted denied where res: "resolve_prefixes e (live_rulesets st e) = (trusted, denied)" by force
  obtain d where d: "check pf expand el st e ctx = d" by blast
  from assms(2) d have allowed: "requirement_phase (dec_requirement d) = ''allowed''" by simp
  from d res show ?thesis
  proof (cases rule: check_cases)
    case typed
    from typed(2) res have ?undenied by (simp add: denied_prefix_stage_None list_all_iff)
    moreover from typed_stage_Some [OF typed(5)] allowed have ?granted by (auto simp: forbid_def)
    ultimately show ?thesis ..
  next
    case fallback
    let ?ask = "matching_ask_rule pf (eng_arity_dict e) (live_rulesets st e) ctx"
    from fallback(2) res have ?undenied by (simp add: denied_prefix_stage_None list_all_iff)
    moreover from allowed assms(1) fallback(6) have none: "?ask = None"
      and tr: "trusted_rule_of (eng_arity_dict e) trusted ctx
        (el (cx_command ctx) (expand (cx_command ctx))) \<noteq> None"
      by (auto simp: fallback_stage_def ask_rule_requirement_def mode_requirement_def rejects_rules_def
          split: option.splits if_splits)
    from tr obtain p where "p \<in> set trusted" "allow_rule_matches (eng_arity_dict e) p (cx_command ctx)"
      "el (cx_command ctx) (expand (cx_command ctx))"
      by (auto simp: trusted_rule_of_def split: if_splits dest!: list_find_Some_in)
    moreover from allow_rule_matches_words [OF this(2)] none res this(1,3) have ?granted by auto
    ultimately show ?thesis by blast
  qed (use allowed in \<open>auto simp: poisoned_decision_def forbid_def
        dest!: denied_prefix_stage_Some dynamic_stage_Some segment_stage_Some\<close>)
qed

definition git_engine :: ExecPolicyEngine where
  "git_engine = session_engine [''git status''] [''git push'']"

definition git_status :: ExecPolicyContext where
  "git_status = shell_context ''git status -s'' UnlessTrusted"

theorem unless_trusted_grant_witness:
  "list_all (\<lambda>rule. list_all (\<lambda>t. \<not> denied_prefix_matches (windows_host unix_host) rule t)
        (deny_targets git_status (plain_expansion (cx_command git_status))))
      (snd (resolve_prefixes git_engine (live_rulesets (live_store []) git_engine)))"
  by (rule unless_trusted_grant [of git_status unix_host plain_expansion "\<lambda>_ _. True", THEN conjunct1];
      code_simp)

text \<open>A command whose words are only known at run time is never run unasked while a deny rule is
  configured for its tool: the modes that show a prompt ask, all others forbid.\<close>

theorem dynamic_command_fails_closed:
  assumes "ex_dynamic (expand (cx_command ctx))"
    and "deny_rules_configured ctx (snd (resolve_prefixes e (live_rulesets st e))) (live_rulesets st e)"
  shows "requirement_phase (dec_requirement (check pf expand el st e ctx)) =
     (if \<not> lock_poisoned (st ! eng_rulesets e)
        \<and> cx_ask_for_approval ctx \<in> {UnlessTrusted, OnRequest}
        \<and> (\<forall>rule \<in> set (snd (resolve_prefixes e (live_rulesets st e))).
             \<forall>t \<in> set (deny_targets ctx (expand (cx_command ctx))).
               \<not> denied_prefix_matches (windows_host pf) rule t)
      then ''needs_approval'' else ''forbidden'')"
proof -
  obtain trusted denied where res: "resolve_prefixes e (live_rulesets st e) = (trusted, denied)" by force
  obtain d where d: "check pf expand el st e ctx = d" by blast
  from d res show ?thesis
    by (cases rule: check_cases; use assms d res in
      \<open>auto simp: poisoned_decision_def forbid_def dynamic_stage_def
        simp flip: denied_prefix_stage_None dest!: denied_prefix_stage_Some\<close>)
qed

definition dynamic_expansion :: "string \<Rightarrow> Expansion" where
  "dynamic_expansion command = (plain_expansion command)\<lparr>ex_dynamic := True\<rparr>"

theorem dynamic_command_fails_closed_witness:
  "requirement_phase (dec_requirement (check unix_host dynamic_expansion (\<lambda>_ _. True) (live_store [])
     (session_engine [] [''rm'']) (shell_context ''$CMD x'' OnFailure))) = ''forbidden''"
  by (subst dynamic_command_fails_closed; code_simp)

text \<open>Adding denied prefixes to an engine only tightens it: a command that the extended engine
  runs unasked gets exactly the decision it got before.\<close>

theorem denied_prefixes_tighten:
  assumes "requirement_phase (dec_requirement
      (check pf expand el st (e\<lparr>eng_denied_prefixes := eng_denied_prefixes e @ extra\<rparr>) ctx)) = ''allowed''"
  shows "check pf expand el st (e\<lparr>eng_denied_prefixes := eng_denied_prefixes e @ extra\<rparr>) ctx
    = check pf expand el st e ctx"
proof -
  let ?e = "e\<lparr>eng_denied_prefixes := eng_denied_prefixes e @ extra\<rparr>"
  obtain trusted denied where res: "resolve_prefixes e (live_rulesets st e) = (trusted, denied)" by force
  then have res': "resolve_prefixes ?e (live_rulesets st ?e) = (trusted, denied @ extra)"
    by (auto simp: resolve_prefixes_def split: if_splits)
  have tail: "denied_prefix_stage pf denied targets = None" "dynamic_stage ctx denied rulesets ex = None"
    if "denied_prefix_stage pf (denied @ extra) targets = None"
      "dynamic_stage ctx (denied @ extra) rulesets ex = None" for targets rulesets ex
    using that by (auto simp: denied_prefix_stage_None dynamic_stage_def deny_rules_configured_def
        split: if_splits)
  obtain d where d: "check pf expand el st ?e ctx = d" by blast
  from this res' have "check pf expand el st e ctx = d"
  proof (cases rule: check_cases)
    case typed
    from typed(1,4,5) tail [OF typed(2,3)] res show ?thesis by (simp add: check_live decide_def)
  next
    case fallback
    from fallback(1,4,5,6) tail [OF fallback(2,3)] res show ?thesis
      by (simp add: check_live decide_def Let_def)
  qed (use assms d in \<open>auto simp: poisoned_decision_def forbid_def
        dest!: denied_prefix_stage_Some dynamic_stage_Some segment_stage_Some\<close>)
  with d show ?thesis by simp
qed

theorem denied_prefixes_tighten_witness:
  "check unix_host plain_expansion (\<lambda>_ _. True) (live_store [])
     (git_engine\<lparr>eng_denied_prefixes := eng_denied_prefixes git_engine @ [''rm'']\<rparr>) git_status
   = check unix_host plain_expansion (\<lambda>_ _. True) (live_store []) git_engine git_status"
  by (rule denied_prefixes_tighten) code_simp

section \<open>Properties of the live policy store\<close>

text \<open>A policy whose update panicked stays refused: whatever updates follow, through any engine,
  every check of every engine that shares the store entry is the fail-closed refusal.\<close>

theorem poisoned_policy_stays_refused:
  assumes "policy_step\<^sup>*\<^sup>* (panicking_update st e) st'" and "engine_in st e"
    and "eng_rulesets e' = eng_rulesets e"
  shows "check pf expand el st' e' ctx = poisoned_decision"
proof -
  from assms(1) have "eng_rulesets e < length st' \<and> lock_poisoned (st' ! eng_rulesets e)"
  proof induction
    case base
    from assms(2) show ?case by (simp add: panicking_update_nth) (simp add: engine_in_def)
  next
    case (step y z)
    then show ?case using policy_step_length [of y z] policy_step_poison [of y z] by auto
  qed
  with assms(3) show ?thesis by (simp add: check_poisoned)
qed

theorem poisoned_policy_stays_refused_witness:
  "check unix_host plain_expansion (\<lambda>_ _. True)
     (set_ruleset (panicking_update (live_store []) git_engine) git_engine (ruleset_user [''git''] []))
     (remember_session_approval git_engine ''k'') git_status = poisoned_decision"
proof (rule poisoned_policy_stays_refused [where e = git_engine and st = "live_store []"])
  show "policy_step\<^sup>*\<^sup>* (panicking_update (live_store []) git_engine)
      (set_ruleset (panicking_update (live_store []) git_engine) git_engine (ruleset_user [''git''] []))"
    by (intro r_into_rtranclp step_set)
      (simp add: engine_in_def git_engine_def session_engine_def live_store_def)
qed (simp_all add: engine_in_def git_engine_def session_engine_def live_store_def
       remember_session_approval_def)

text \<open>Replacing a layer is seen through every clone of the engine: afterwards its live policy
  holds exactly the new ruleset at that layer, the other layers' rulesets in the order they had, all
  in layer order; and the policies of unrelated engines are unchanged.\<close>

theorem set_ruleset_reaches_clones:
  assumes "engine_in st e"
  shows "(eng_rulesets clone = eng_rulesets e \<longrightarrow>
      filter (\<lambda>r. rs_layer r = rs_layer rs) (live_rulesets (set_ruleset st e rs) clone) = [rs]
      \<and> filter (\<lambda>r. rs_layer r = l) (live_rulesets (set_ruleset st e rs) clone)
          = (if l = rs_layer rs then [rs] else filter (\<lambda>r. rs_layer r = l) (live_rulesets st e))
      \<and> sorted (map rs_layer (live_rulesets (set_ruleset st e rs) clone)))
    \<and> (eng_rulesets clone \<noteq> eng_rulesets e \<longrightarrow>
        live_rulesets (set_ruleset st e rs) clone = live_rulesets st clone)"
proof -
  let ?new = "filter (\<lambda>existing. rs_layer existing \<noteq> rs_layer rs) (live_rulesets st e) @ [rs]"
  have layer: "filter (\<lambda>r. rs_layer r = l) (sort_key rs_layer ?new)
      = (if l = rs_layer rs then [rs] else filter (\<lambda>r. rs_layer r = l) (live_rulesets st e))" for l
  proof -
    have "filter (\<lambda>r. rs_layer r = l) (filter (\<lambda>r. rs_layer r \<noteq> rs_layer rs) rulesets)
        = (if l = rs_layer rs then [] else filter (\<lambda>r. rs_layer r = l) rulesets)" for rulesets :: "Ruleset list"
      by (induction rulesets) auto
    then show ?thesis unfolding sort_key_stable filter_append by (simp del: filter_filter)
  qed
  from assms layer [of l] layer [of "rs_layer rs"] show ?thesis
    by (simp add: set_ruleset_def update_rulesets_nth)
qed

theorem set_ruleset_reaches_clones_witness:
  "live_rulesets (set_ruleset (live_store [ruleset_builtin_default]) git_engine
     (ruleset_user [] [''rm''])) (remember_session_approval git_engine ''k'')
   = [ruleset_builtin_default, ruleset_user [] [''rm'']]"
proof -
  have "engine_in (live_store [ruleset_builtin_default]) git_engine" by code_simp
  from set_ruleset_reaches_clones [OF this, of "remember_session_approval git_engine ''k''"
      "ruleset_user [] [''rm'']" BuiltinDefault]
  show ?thesis by code_simp
qed

text \<open>In every policy store reachable from the empty one by constructing engines and updating
  their policies, each lock holds its rulesets in layer order (builtin, agent, user), so the merged
  prefix lists enumerate the layers from the lowest to the highest.\<close>

theorem reachable_store_sorted:
  assumes "policy_step\<^sup>*\<^sup>* [] st"
  shows "store_sorted st"
  using assms by (rule policy_store.reachable_inv [OF refl])

theorem reachable_store_sorted_witness:
  "store_sorted (fst (with_rulesets [] [ruleset_user [] [], ruleset_builtin_default]))"
  by (rule reachable_store_sorted) (intro r_into_rtranclp step_with)

end
