(* ===== verification/ShellProps.thy ===== *)
theory ShellProps
  imports ShellCover ShellHeads ShellSyntax ExecPolicyProps
begin

text \<open>
  The guarantees of the shell expander, and of the policy check composed with it: what is proved of
  the check for every expander in \<open>ExecPolicyProps\<close> is instantiated with the model of
  \<open>expand_command\<close>, so that denials reach the commands inside chains, quotes, substitutions,
  wrappers and nested shells.
\<close>

section \<open>The whole expansion\<close>

definition expander_start :: "bool \<Rightarrow> Expander" where
  "expander_start windows =
     \<lparr>xp_out = [], xp_seen = {}, xp_literal_backslashes = windows, xp_dynamic = False,
      xp_nested = False, xp_arguments_dynamic = False, xp_control = False, xp_redirects = False\<rparr>"

definition expander_end :: "shlex \<Rightarrow> string \<Rightarrow> bool \<Rightarrow> Expander" where
  "expander_end shlex command windows =
     (let st = expand shlex 0 command (expander_start windows)
      in if windows then expand shlex 0 command (st\<lparr>xp_literal_backslashes := False\<rparr>) else st)"

lemma expansion_end:
  "ex_commands (expand_command windows shlex command) = xp_out (expander_end shlex command windows)"
  "ex_dynamic (expand_command windows shlex command) = xp_dynamic (expander_end shlex command windows)"
  "ex_nested (expand_command windows shlex command) = xp_nested (expander_end shlex command windows)"
  by (simp_all add: expand_command_def expand_for_platform_def expander_end_def expander_start_def Let_def)

lemma expander_start_ok: "expander_ok (expander_start windows)"
  by (simp add: expander_start_def expander_ok_def)

lemma expander_end_ok: "expander_ok (expander_end shlex command windows)"
  by (simp add: expander_end_def Let_def expander_start_ok expand_ok)

lemma runs_in_expansion:
  assumes runs: "runs_text literal shlex command l" and "literal \<longrightarrow> windows"
  shows "covered (ln_words l) (expander_end shlex command windows)"
proof (cases "windows \<and> literal")
  case True
  let ?st = "expand shlex 0 command (expander_start True)"
  have "covered (ln_words l) ?st"
    using runs_covered(1) [OF runs expander_start_ok [of True]] True by (simp add: expander_start_def)
  then have "covered (ln_words l) (?st\<lparr>xp_literal_backslashes := False\<rparr>)"
    by (simp add: covered_def)
  then show ?thesis
    using True covered_grows [OF growth.R_expand] by (simp add: expander_end_def Let_def)
next
  case False
  with assms(2) have l: "literal = False" by blast
  note ok = expand_ok [OF expander_start_ok, of shlex 0 command True]
  show ?thesis
  proof (cases windows)
    case True
    then show ?thesis
      using runs_covered(1) [OF runs, of "(expand shlex 0 command (expander_start True))\<lparr>xp_literal_backslashes := False\<rparr>" 0]
        ok l by (simp add: expander_end_def Let_def)
  next
    case windows: False
    then show ?thesis
      using runs_covered(1) [OF runs expander_start_ok [of False], of 0] l
      by (simp add: expander_end_def expander_start_def)
  qed
qed

section \<open>Properties of the expander\<close>

text \<open>The expansion is total and bounded for every input, however deep or long: the emitted
  command lines are distinct, none is empty, and there are at most 256 of them.\<close>

theorem expansion_bounded:
  "let out = ex_commands (expand_command windows shlex command)
   in length out \<le> 256 \<and> distinct out \<and> [] \<notin> set out"
  using expander_end_ok [of shlex command windows]
  by (simp add: expansion_end expander_ok_def MAX_COMMANDS_def)

text \<open>C3. The limits of the expander fail closed. Every simple command that the input runs by the
  parser's reading (its own commands, those of substitutions, heredocs read by a shell, wrapper
  words, \<open>eval\<close>, \<open>trap\<close>, \<open>sh -c\<close>, \<open>su -c\<close>, \<open>env -S\<close>, \<open>watch\<close>, \<open>cmd /c\<close> and \<open>find -exec\<close>
  payloads, nested without bound) is one of the emitted command lines, or the expansion is marked
  dynamic: neither the depth limit of 8 nor the limit of 256 lines drops a command silently.\<close>

theorem expansion_fails_closed:
  assumes "runs_text literal shlex command l" and "literal \<longrightarrow> windows"
    and "joined_words (ln_words l) \<noteq> []"
  shows "joined_words (ln_words l) \<in> set (ex_commands (expand_command windows shlex command))
    \<or> ex_dynamic (expand_command windows shlex command)"
  using runs_in_expansion [OF assms(1,2)] assms(3) by (simp add: covered_def expansion_end)

definition demo_payload_line :: Line where
  "demo_payload_line = \<lparr>ln_words = [''eval'', ''sh -c ls''], ln_dynamic = [False, False], ln_heredoc = False\<rparr>"

definition demo_ls_line :: Line where
  "demo_ls_line = \<lparr>ln_words = [''ls''], ln_dynamic = [False], ln_heredoc = False\<rparr>"

definition demo_sh_line :: Line where
  "demo_sh_line = \<lparr>ln_words = [''sh'', ''-c'', ''ls''], ln_dynamic = [False, False, False], ln_heredoc = False\<rparr>"

theorem expansion_fails_closed_witness:
  "''ls'' \<in> set (ex_commands (expand_command False (\<lambda>_. None) (''eval '' @ [CHR 0x27] @ ''sh -c ls'' @ [CHR 0x27])))
   \<or> ex_dynamic (expand_command False (\<lambda>_. None) (''eval '' @ [CHR 0x27] @ ''sh -c ls'' @ [CHR 0x27]))"
proof -
  let ?sx = "\<lambda>_. None" and ?input = "''eval '' @ [CHR 0x27] @ ''sh -c ls'' @ [CHR 0x27]"
  have ls: "runs_text False ?sx ''ls'' demo_ls_line"
    by (rule of_line [OF _ itself]; code_simp)
  have c: "runs_command False ?sx demo_sh_line demo_ls_line"
    by (rule of_payload [OF _ ls]; code_simp)
  have "runs_text False ?sx ''sh -c ls'' demo_ls_line"
    by (rule of_line [OF _ c]; code_simp)
  then have e: "runs_command False ?sx demo_payload_line demo_ls_line"
    by (rule of_payload [rotated]; code_simp)
  have "runs_text False ?sx ?input demo_ls_line"
    by (rule of_line [OF _ e]; code_simp)
  moreover have "joined_words (ln_words demo_ls_line) = ''ls''" by code_simp
  ultimately show ?thesis
    using expansion_fails_closed [of False ?sx ?input demo_ls_line False] by simp
qed



text \<open>C4. Chaining and quoting hide nothing and add nothing. For commands spelled with bare, single-
  and double-quoted pieces, separated by blanks and any of the operators line feed, \<open>;\<close>, \<open>&\<close>,
  \<open>&&\<close>, \<open>|\<close>, \<open>||\<close>, the splitter yields one line per command with the words unquoted; nothing inside
  quotes becomes a command, nothing is dynamic, and no text is nested.\<close>

theorem chain_splits_into_commands:
  assumes "chain_ok ch"
  shows "let st = lex literal shlex (chain_text ch) in
     map ln_words (lx_commands st) = map (\<lambda>(ws, sep). map word_of ws) ch
     \<and> lx_nested st = [] \<and> \<not> lx_uncertain st \<and> \<not> lx_redirects st
     \<and> (\<forall>line \<in> set (lx_commands st). True \<notin> set (ln_dynamic line))"
  by (auto simp: lex_of_chain [OF assms] lex_start_def command_line_def split_def)

definition demo_chain :: "(spelled list \<times> string) list" where
  "demo_chain =
     [([[Bare ''echo''], [Single ''a;b|$(x)'']], '' && ''),
      ([[Bare ''r'', Double ''m''], [Bare ''-rf''], [Double ''/'']], [])]"

lemma demo_chain_ok: "chain_ok demo_chain" by code_simp

theorem chain_splits_into_commands_witness:
  "map ln_words (lx_commands (lex False (\<lambda>_. None) (chain_text demo_chain))) =
     [[''echo'', ''a;b|$(x)''], [''rm'', ''-rf'', ''/'']]"
  using chain_splits_into_commands [OF demo_chain_ok, of False "\<lambda>_. None"]
  by (simp add: demo_chain_def word_of_def Let_def)

section \<open>What chains and substitutions run\<close>

lemma command_line_words: "command_ok ws \<Longrightarrow> ln_words (command_line ws) \<noteq> []"
  by (simp add: command_line_def command_ok_def)

lemma chain_command_ok: "chain_ok ch \<Longrightarrow> (ws, sep) \<in> set ch \<Longrightarrow> command_ok ws"
  by (induction ch rule: chain_ok.induct) auto

lemma chain_runs:
  assumes "chain_ok ch" and "(ws, sep) \<in> set ch"
  shows "runs_text literal shlex (chain_text ch) (command_line ws)"
proof (rule of_line)
  show "command_line ws \<in> set (lx_commands (lex literal shlex (chain_text ch)))"
    using assms(2) by (force simp: lex_of_chain [OF assms(1)])
  show "runs_command literal shlex (command_line ws) (command_line ws)"
    by (rule itself) (rule command_line_words [OF chain_command_ok [OF assms]])
qed

text \<open>The words of a command joined by blanks, as the deny matcher sees them.\<close>

definition plain_text :: "spelled list \<Rightarrow> string" where
  "plain_text ws = joined_words (map word_of ws)"

lemma plain_text_line: "joined_words (ln_words (command_line ws)) = plain_text ws"
  by (simp add: plain_text_def command_line_def)

text \<open>Text that a region reader passes over unchanged.\<close>

definition region_plain :: "string \<Rightarrow> bool" where
  "region_plain body \<longleftrightarrow> \<not> contains body ''case''
     \<and> list_all (\<lambda>c. c \<notin> set [CHR 0x5C, CHR 0x27, CHR 0x22, CHR 0x60, CHR ''$'', CHR ''('', CHR '')'']) body"

lemma starts_with_before:
  "starts_with (w @ c # cs) p \<Longrightarrow> c \<notin> set p \<Longrightarrow> starts_with w p"
  unfolding starts_with_prefix
proof (induction w arbitrary: p)
  case Nil
  then show ?case by (cases p) auto
next
  case (Cons d w)
  then show ?case by (cases p) auto
qed

lemma scan_plain:
  "region_plain r \<Longrightarrow> start = p @ r @ CHR '')'' # cs \<Longrightarrow>
   scan_region (CHR ''('') start 1 True (r @ CHR '')'' # cs) = (p @ r, Suc (length p + length r), True)"
proof (induction r arbitrary: p)
  case Nil
  then show ?case by (simp add: scan_region.simps)
next
  case (Cons c r)
  have "region_plain r" using Cons.prems(1) by (auto simp: region_plain_def contains.simps [of "c # r"])
  moreover have "\<not> starts_case start ((c # r) @ CHR '')'' # cs)"
    using Cons.prems(1) starts_with_before [of "c # r" "CHR '')''" cs "''case''"]
    by (auto simp: starts_case_def region_plain_def contains.simps [of "c # r"])
  ultimately show ?case
    using Cons.IH [of "p @ [c]"] Cons.prems
    by (simp add: scan_region.simps region_plain_def Let_def)
qed

lemma substitution_nested:
  assumes "command_ok ws" and "region_plain body"
  shows "body \<in> set (lx_nested (lex literal shlex (command_text ws @ '' $('' @ body @ '')'')))"
proof -
  let ?rest = "CHR ''$'' # CHR ''('' # body @ '')''"
  let ?st = "lex_start\<lparr>lx_line := command_line ws\<rparr>"
  have start: "idle lex_start" "lx_line lex_start = empty_line"
    by (simp_all add: idle_def lex_start_def)
  have ws: "ws \<noteq> []" "list_all word_ok ws" using assms(1) by (simp_all add: command_ok_def)
  from lex_command [OF ws start(1), of literal shlex "CHR '' '' # ?rest"] obtain q where
    "lex_loop literal shlex (command_text ws @ CHR '' '' # ?rest) lex_start =
      lex_loop literal shlex (CHR '' '' # ?rest)
        (add_text (word_of (last ws)) q (fold (\<lambda>w. add_word (word_of w)) (butlast ws) lex_start))"
    by blast
  then have "lex_loop literal shlex (command_text ws @ CHR '' '' # ?rest) lex_start =
      lex_loop literal shlex ?rest ?st"
    by (simp add: lex_blank flush_command [OF ws(1) start])
  also have "\<dots> = add_nested body True (begin_substitution ?st)"
    using scan_plain [OF assms(2), of _ "[]" "[]"]
    by (simp add: lex_loop.simps lex_char_def opens_substitution_def starts_with_prefix
        arm_substitution_def read_substitution_def)
  finally have "body \<in> set (lx_nested (lex_loop literal shlex (command_text ws @ CHR '' '' # ?rest) lex_start))"
    by (simp add: add_nested_def)
  then show ?thesis
    by (simp add: lex_def close_line_def flush_word_def split_def Let_def)
qed

lemma substitution_runs:
  assumes "command_ok ws" and "chain_ok ch" and "region_plain (chain_text ch)" and "(us, sep) \<in> set ch"
  shows "runs_text literal shlex (command_text ws @ '' $('' @ chain_text ch @ '')'') (command_line us)"
  using substitution_nested [OF assms(1,3)] chain_runs [OF assms(2,4)] by (rule of_nested)

text \<open>Command substitution is followed: for any command with a final argument \<open>$(BODY)\<close>, each
  command of the chain \<open>BODY\<close> is emitted, or the expansion is marked dynamic.\<close>

theorem substitution_commands_emitted:
  assumes "command_ok ws" and "chain_ok ch" and "region_plain (chain_text ch)" and "(us, sep) \<in> set ch"
    and "plain_text us \<noteq> []"
  shows "let ex = expand_command windows shlex (command_text ws @ '' $('' @ chain_text ch @ '')'')
    in plain_text us \<in> set (ex_commands ex) \<or> ex_dynamic ex"
  using runs_in_expansion [OF substitution_runs [OF assms(1-4), of False], of windows shlex] assms(5)
  by (simp add: covered_def plain_text_line expansion_end)

definition demo_body :: "(spelled list \<times> string) list" where
  "demo_body = [([[Bare ''ls'']], ''; ''), ([[Bare ''rm''], [Bare ''-rf''], [Bare ''/'']], [])]"

theorem substitution_commands_emitted_witness:
  "''rm -rf /'' \<in> set (ex_commands (expand_command False (\<lambda>_. None) ''echo $(ls; rm -rf /)''))
   \<or> ex_dynamic (expand_command False (\<lambda>_. None) ''echo $(ls; rm -rf /)'')"
proof -
  let ?us = "[[Bare ''rm''], [Bare ''-rf''], [Bare ''/'']]"
  have c: "command_ok [[Bare ''echo'']]" "chain_ok demo_body" "region_plain (chain_text demo_body)"
    "(?us, []) \<in> set demo_body" "plain_text ?us \<noteq> []"
    by code_simp+
  have t: "command_text [[Bare ''echo'']] @ '' $('' @ chain_text demo_body @ '')'' = ''echo $(ls; rm -rf /)''"
    "plain_text ?us = ''rm -rf /''"
    by code_simp+
  from substitution_commands_emitted [OF c, of False "\<lambda>_. None"] show ?thesis
    unfolding Let_def t .
qed

section \<open>Ordinary commands\<close>

text \<open>A command word the expander gives no meaning of its own.\<close>

definition ordinary_word :: "string \<Rightarrow> bool" where
  "ordinary_word w \<longleftrightarrow>
     wrapper_index w = None \<and> \<not> env_assignment_word w
     \<and> command_name w \<notin> set ([''eval'', ''source'', ''.'', ''find'', ''trap'', ''su'', ''runuser'', ''flock'',
          ''script'', ''watch'', ''sg'', ''cmd'', ''powershell'', ''pwsh'', ''xargs''] @ SHELL_NAMES)"

lemma ordinary_heads:
  assumes "tokens \<noteq> []" and "ordinary_word (hd tokens)"
  shows "command_heads tokens = \<lparr>hw_heads = [0], hw_payloads = [], hw_truncated = False\<rparr>"
proof -
  from assms have "tokens ! 0 = hd tokens" by (simp add: hd_conv_nth)
  then show ?thesis
    using assms by (simp add: command_heads_def visit_head_def visit_command_def ordinary_word_def
        MAX_HEAD_STATES_def Let_def)
qed

lemma ordinary_operands:
  assumes "ordinary_word (ln_words line ! head)"
  shows "record_operands run note line dyn heads head st = st"
proof -
  let ?n = "command_name (ln_words line ! head)"
  from assms have "?n \<noteq> ''eval''" "?n \<noteq> ''source''" "?n \<noteq> ''.''" "?n \<noteq> ''find''" "?n \<noteq> ''trap''"
    "?n \<notin> set [''su'', ''runuser'', ''flock'', ''script'']" "?n \<noteq> ''watch''" "?n \<noteq> ''sg''" "?n \<noteq> ''cmd''"
    "?n \<noteq> ''powershell''" "?n \<noteq> ''pwsh''" "?n \<notin> set SHELL_NAMES"
    unfolding ordinary_word_def set_append by simp_all
  then show ?thesis by (simp only: record_operands_def Let_def if_False simp_thms)
qed

lemma ordinary_record:
  assumes "ln_words line \<noteq> []" and "ordinary_word (hd (ln_words line))" and "True \<notin> set (ln_dynamic line)"
  shows "record_body run note line st = emit (ln_words line) st"
proof -
  let ?ws = "ln_words line"
  have zero: "?ws ! 0 = hd ?ws" using assms(1) by (simp add: hd_conv_nth)
  have name: "command_name (hd ?ws) \<noteq> ''xargs''" using assms(2) by (simp add: ordinary_word_def)
  have marks: "mark_replacement_operands ?ws [0] (ln_dynamic line) = ln_dynamic line"
    by (simp add: mark_replacement_operands_def mark_head_def zero name split: option.split)
  have dyn: "\<not> list_ex id (drop n (ln_dynamic line))" for n
    using assms(3) by (auto simp: list_ex_iff dest: in_set_dropD)
  have unknown: "\<not> unknown_word ?ws (ln_dynamic line) 0"
    using assms(3) by (auto simp: unknown_word_def list_ex_iff dest: set_zip_rightD)
  have keep: "set_dynamic False s = s" for s by (simp add: set_dynamic_def)
  show ?thesis
    using assms(2) zero
    by (simp add: record_body_def ordinary_heads [OF assms(1,2)] marks record_head_def emit_inner_def
        ordinary_operands unknown dyn keep)
qed

text \<open>An ordinary command expands to itself: for words spelled with bare and quoted pieces whose
  first word is none of the wrapper words, shells and commands that run their operands, the
  expansion is the one command line without its quotes, and no flag is set. (Carriage returns and
  the quotings \<open>$'..'\<close> and \<open>$"..\<close> trigger the conservative scan and are excluded.)\<close>

theorem ordinary_command_expands_to_itself:
  assumes "command_ok ws" and "ordinary_word (word_of (hd ws))" and "plain_text ws \<noteq> []"
    and "CHR 0x0D \<notin> set (command_text ws)" and "\<not> contains (command_text ws) [CHR ''$'', CHR 0x27]"
    and "\<not> contains (command_text ws) [CHR ''$'', CHR 0x22]"
  shows "expand_command False shlex (command_text ws) = plain_expansion (plain_text ws)"
proof -
  have lexed: "lex False shlex (command_text ws) = lex_start\<lparr>lx_commands := [command_line ws]\<rparr>"
    using lex_of_chain [of "[(ws, [])]" False shlex] assms(1)
    by (simp add: chain_control_def) (simp add: lex_start_def)
  have scan: "conservative_scan (command_text ws) st = st" for st
    using assms(4-6) by (simp add: conservative_scan_def)
  have line: "ln_words (command_line ws) \<noteq> []" "hd (ln_words (command_line ws)) = word_of (hd ws)"
    "True \<notin> set (ln_dynamic (command_line ws))"
    using assms(1) by (auto simp: command_line_def command_ok_def hd_map)
  have rec: "record_line shlex 0 (command_line ws) st = emit (ln_words (command_line ws)) st" for st
    using ordinary_record [of "command_line ws"] line assms(2) by (simp add: record_line_body MAX_DEPTH_def)
  have "expand shlex 0 (command_text ws) (expander_start False) =
      (expander_start False)\<lparr>xp_seen := {plain_text ws}, xp_out := [plain_text ws]\<rparr>"
    using assms(3)
    by (subst expand.simps)
      (simp add: lexed scan rec enter_text_def note_syntax_def lex_start_def emit_def expander_start_def
        plain_text_line MAX_DEPTH_def MAX_COMMANDS_def Let_def)
  then show ?thesis
    by (simp add: expand_command_def expand_for_platform_def plain_expansion_def
        flip: expander_start_def) (simp add: expander_start_def)
qed

theorem ordinary_command_expands_to_itself_witness:
  "expand_command False (\<lambda>_. None) (command_text [[Bare ''git''], [Bare ''commit''], [Single ''a; b'']]) =
     plain_expansion ''git commit a; b''"
proof -
  let ?ws = "[[Bare ''git''], [Bare ''commit''], [Single ''a; b'']]"
  have "command_ok ?ws" "ordinary_word (word_of (hd ?ws))" "plain_text ?ws \<noteq> []"
    "CHR 0x0D \<notin> set (command_text ?ws)" "\<not> contains (command_text ?ws) [CHR ''$'', CHR 0x27]"
    "\<not> contains (command_text ?ws) [CHR ''$'', CHR 0x22]" and t: "plain_text ?ws = ''git commit a; b''"
    by code_simp+
  from ordinary_command_expands_to_itself [OF this(1-6), of "\<lambda>_. None"] show ?thesis unfolding t .
qed

section \<open>The policy check with the expander\<close>

lemma deny_hit_forbids:
  assumes "rule \<in> set (snd (resolve_prefixes e (live_rulesets st e)))"
    and "t \<in> set (deny_targets ctx (expander (cx_command ctx)))"
    and "denied_prefix_matches (windows_host pf) rule t"
  shows "\<not> dec_allow (check pf expander el st e ctx)"
proof -
  obtain trusted denied where res: "resolve_prefixes e (live_rulesets st e) = (trusted, denied)" by force
  from assms res have hit: "denied_prefix_stage pf denied (deny_targets ctx (expander (cx_command ctx))) \<noteq> None"
    by (auto simp: denied_prefix_stage_None)
  obtain d where d: "check pf expander el st e ctx = d" by blast
  from d res have "\<not> dec_allow d"
    by (cases rule: check_cases)
      (use hit in \<open>auto simp: poisoned_decision_def forbid_def dest!: denied_prefix_stage_Some\<close>)
  with d show ?thesis by simp
qed

lemma dynamic_never_unasked:
  assumes "ex_dynamic (expander (cx_command ctx))"
    and "snd (resolve_prefixes e (live_rulesets st e)) \<noteq> []"
  shows "\<not> dec_allow (check pf expander el st e ctx)
    \<or> dec_requires_approval (check pf expander el st e ctx) \<and> cx_ask_for_approval ctx \<in> {UnlessTrusted, OnRequest}"
proof -
  obtain trusted denied where res: "resolve_prefixes e (live_rulesets st e) = (trusted, denied)" by force
  obtain d where d: "check pf expander el st e ctx = d" by blast
  from d res have "\<not> dec_allow d
      \<or> dec_requires_approval d \<and> cx_ask_for_approval ctx \<in> {UnlessTrusted, OnRequest}"
    by (cases rule: check_cases)
      (use assms res in \<open>auto simp: poisoned_decision_def forbid_def dynamic_stage_def
        deny_rules_configured_def dest!: denied_prefix_stage_Some split: if_splits\<close>)
  with d show ?thesis by simp
qed

text \<open>A command that the input runs is emitted, unless the expansion is dynamic.\<close>

lemma run_command_emitted:
  assumes "runs_text literal shlex input l" and "literal \<longrightarrow> windows"
    and "joined_words (ln_words l) \<noteq> []" and "\<not> ex_dynamic (expand_command windows shlex input)"
  shows "joined_words (ln_words l) \<in> set (ex_commands (expand_command windows shlex input))"
  using runs_in_expansion [OF assms(1,2)] assms(3,4) by (auto simp: covered_def expansion_end)

text \<open>A denied command that the invocation runs, however it is nested.\<close>

lemma run_command_denied:
  assumes "rule \<in> set (snd (resolve_prefixes e (live_rulesets st e)))"
    and "runs_text literal shlex (cx_command ctx) l" and "literal \<longrightarrow> windows"
    and "joined_words (ln_words l) \<noteq> []"
    and "denied_prefix_matches (windows_host pf) rule (joined_words (ln_words l))"
  shows "let d = check pf (expand_command windows shlex) el st e ctx in
    \<not> dec_allow d \<or> dec_requires_approval d \<and> cx_ask_for_approval ctx \<in> {UnlessTrusted, OnRequest}"
proof (cases "ex_dynamic (expand_command windows shlex (cx_command ctx))")
  case True
  moreover have "snd (resolve_prefixes e (live_rulesets st e)) \<noteq> []" using assms(1) by auto
  ultimately show ?thesis
    using dynamic_never_unasked [of "expand_command windows shlex" ctx e st pf el] by simp
next
  case False
  have "joined_words (ln_words l) \<in> set (deny_targets ctx (expand_command windows shlex (cx_command ctx)))"
    using run_command_emitted [OF assms(2-4) False] by (simp add: deny_targets_def)
  from deny_hit_forbids [where expander = "expand_command windows shlex", OF assms(1) this assms(5)]
  show ?thesis by simp
qed

text \<open>C2. No nesting shields a denied command from the policy: when a denied prefix of any layer matches
  a command that the invocation runs by the parser's reading, at any depth, the check never lets the
  invocation run unasked, in any approval mode and whatever is trusted; the modes that do not ask
  refuse it.\<close>

theorem nested_command_denied:
  assumes "rule \<in> set (snd (resolve_prefixes e (live_rulesets st e)))"
    and "runs_text literal shlex (cx_command ctx) l" and "literal \<longrightarrow> windows"
    and "joined_words (ln_words l) \<noteq> []"
    and "denied_prefix_matches (windows_host pf) rule (joined_words (ln_words l))"
  shows "let d = check pf (expand_command windows shlex) el st e ctx in
    \<not> dec_allow d \<or> dec_requires_approval d \<and> cx_ask_for_approval ctx \<in> {UnlessTrusted, OnRequest}"
  using run_command_denied [OF assms] .

theorem nested_command_denied_witness:
  "\<not> dec_allow (check unix_host (expand_command False (\<lambda>_. None)) (\<lambda>_ _. True) (live_store [])
     (session_engine [''echo''] [''rm -rf'']) (shell_context ''echo $(ls; rm -rf /)'' OnFailure))"
proof -
  let ?us = "[[Bare ''rm''], [Bare ''-rf''], [Bare ''/'']]"
  let ?ctx = "shell_context ''echo $(ls; rm -rf /)'' OnFailure"
  have c: "command_ok [[Bare ''echo'']]" "chain_ok demo_body" "region_plain (chain_text demo_body)"
    "(?us, []) \<in> set demo_body"
    by code_simp+
  have t: "command_text [[Bare ''echo'']] @ '' $('' @ chain_text demo_body @ '')'' = ''echo $(ls; rm -rf /)''"
    by code_simp
  have runs: "runs_text False (\<lambda>_. None) (cx_command ?ctx) (command_line ?us)"
    using substitution_runs [OF c, of False "\<lambda>_. None"] unfolding t by (simp add: shell_context_def)
  have "''rm -rf'' \<in> set (snd (resolve_prefixes (session_engine [''echo''] [''rm -rf''])
      (live_rulesets (live_store []) (session_engine [''echo''] [''rm -rf'']))))"
    "joined_words (ln_words (command_line ?us)) \<noteq> []"
    "denied_prefix_matches (windows_host unix_host) ''rm -rf'' (joined_words (ln_words (command_line ?us)))"
    by code_simp+
  from nested_command_denied [OF this(1) runs _ this(2,3), of False "\<lambda>_ _. True"] show ?thesis
    by (simp add: shell_context_def Let_def)
qed

end
