(* ===== verification/SafetyProps.thy ===== *)
theory SafetyProps
  imports CommandAnalysis ShellProps
begin

text \<open>
  The guarantees of the safety classification, where it falls short of them, and the policy check
  composed with the model of the expander and of the eligibility test.
\<close>

section \<open>A host for the witnesses\<close>

text \<open>A Unix host on ASCII text; the splitter agrees with \<open>shlex::split\<close> on text without quotes,
  backslashes and comments.\<close>

definition ascii_host :: Host where
  "ascii_host =
     \<lparr>host_windows = False,
      host_shlex = (\<lambda>s. if list_ex (\<lambda>c. c \<in> set [CHR 0x22, CHR 0x27, CHR 0x5C, CHR ''#'']) s then None
                        else Some (split_whitespace s)),
      host_lowercase = to_ascii_lowercase,
      host_alphanumeric = (\<lambda>s. s \<noteq> [] \<and> is_ascii_alphanumeric (hd s)),
      host_absolute = (\<lambda>s. starts_with s ''/'')\<rparr>"

section \<open>Wrappers\<close>

text \<open>A word that is neither an assignment nor \<open>env\<close>, an option or a number.\<close>

definition command_start :: "string \<Rightarrow> bool" where
  "command_start w \<longleftrightarrow> w \<noteq> ''env'' \<and> \<not> assignment_token w \<and> \<not> starts_with w ''-'' \<and> \<not> looks_like_numeric_operand w"

lemma primary_of_start: "command_start w \<Longrightarrow> primary_token_index (w # ws) = Some 0"
  by (simp add: primary_token_index_def command_start_def)

lemma not_shell_wrapper: "w \<in> set ARGV_PASSTHROUGH_WRAPPERS \<Longrightarrow> w \<notin> set SHELL_WRAPPERS"
  by (auto simp: ARGV_PASSTHROUGH_WRAPPERS_def SHELL_WRAPPERS_def)

lemma skip_to_start: "command_start w \<Longrightarrow> skip_passthrough_prefix v (w # ws) = w # ws"
  by (simp add: skip_passthrough_prefix_def command_start_def)

lemma unwrap_rounds_wrapped:
  assumes "list_all (\<lambda>v. command_start v \<and> command_word v \<in> set ARGV_PASSTHROUGH_WRAPPERS) vs"
    and "command_start c" and "command_word c \<notin> set (SHELL_WRAPPERS @ ARGV_PASSTHROUGH_WRAPPERS)"
  shows "unwrap_rounds sx rounds (vs @ c # args) =
    (if length vs < rounds then Some (command_word c # args) else None)"
  using assms(1)
proof (induction vs arbitrary: rounds)
  case Nil
  show ?case
    using assms(2,3) by (cases rounds) (simp_all add: unwrap_round_def primary_of_start)
next
  case (Cons v vs)
  have "command_start (hd (vs @ c # args))" using Cons.prems assms(2) by (cases vs) simp_all
  then have rest: "skip_passthrough_prefix w (vs @ c # args) = vs @ c # args" for w
    using skip_to_start by (metis list.collapse append_is_Nil_conv list.distinct(1))
  show ?case
    using Cons not_shell_wrapper [of "command_word v"]
    by (cases rounds) (simp_all add: unwrap_round_def primary_of_start rest)
qed

lemma dangerous_level: "sa_level (analysis_dangerous r s) = Dangerous"
  by (simp add: analysis_dangerous_def)

text \<open>No pile of wrappers hides a dangerous deletion: a stage whose words are any number of
  pass-through wrappers (\<open>sudo\<close>, \<open>nohup\<close>, \<open>/usr/bin/time\<close>, ..) before \<open>rm\<close>, in any spelling of its
  path, is classified by the arguments of \<open>rm\<close> up to seven wrappers and dangerous beyond: never
  waved through.\<close>

theorem wrapped_rm_is_dangerous:
  assumes "shell_words sx segment = vs @ c # args"
    and "list_all (\<lambda>v. command_start v \<and> command_word v \<in> set ARGV_PASSTHROUGH_WRAPPERS) vs"
    and "command_start c" and "command_word c = ''rm''"
    and "dangerous_rm_reason args \<noteq> None \<or> 8 \<le> length vs"
  shows "\<exists>analysis. analyze_segment sx segment = Some analysis \<and> sa_level analysis = Dangerous"
proof -
  have c: "command_word c \<notin> set (SHELL_WRAPPERS @ ARGV_PASSTHROUGH_WRAPPERS)"
    unfolding assms(4) by code_simp
  have "unwrap_to_effective_tokens sx (shell_words sx segment) =
      (if length vs < 8 then Some (''rm'' # args) else None)"
    using unwrap_rounds_wrapped [OF assms(2,3) c, of sx 8 args] assms(1,4)
    by (simp add: unwrap_to_effective_tokens_def MAX_WRAPPER_DEPTH_def)
  moreover have "primary_token_index (''rm'' # args) = Some 0"
    by (rule primary_of_start) code_simp
  ultimately show ?thesis
    using assms(5) by (auto simp: analyze_segment_def Let_def dangerous_level)
qed

theorem wrapped_rm_is_dangerous_witness:
  "\<exists>analysis. analyze_segment (host_shlex ascii_host) ''sudo nohup /bin/rm -rf /'' = Some analysis
     \<and> sa_level analysis = Dangerous"
  by (rule wrapped_rm_is_dangerous [of _ _ "[''sudo'', ''nohup'']" "''/bin/rm''" "[''-rf'', ''/'']"]; code_simp)

section \<open>The destructive floor\<close>

lemma first_analysis_some:
  assumes "x \<in> set xs" and "f x = Some y"
  shows "\<exists>z. first_analysis f xs = Some z \<and> (\<exists>x' \<in> set xs. f x' = Some z)"
  using assms by (induction xs) (auto split: option.split)

lemma segment_levels:
  "analyze_segment sx segment = Some a \<Longrightarrow> sa_level a = Dangerous \<or> sa_level a = RequiresApproval"
  by (auto simp: analyze_segment_def Let_def analyze_find_mutation_def dangerous_level
      analysis_requires_approval_def split: option.splits if_splits)

lemma destructive_level:
  assumes "segment \<in> set (split_command_segments command)"
    and "analyze_segment sx segment = Some a"
  shows "\<exists>b. analyze_destructive_patterns sx command = Some b
    \<and> (sa_level b = Dangerous \<or> (\<exists>s \<in> set (split_command_segments command). analyze_segment sx s = Some b))"
  using first_analysis_some [where f = "analyze_segment sx", OF assms]
  by (auto simp: analyze_destructive_patterns_def dangerous_level curl_pipe_analysis_def)

text \<open>The analysis of a command that the destructive pass flags.\<close>

lemma analyze_flagged:
  assumes "analyze_destructive_patterns (host_shlex host) command = Some b"
  shows "analyze_command host command = b \<or> sa_level (analyze_command host command) = Dangerous"
  using assms by (simp add: analyze_command_def Let_def dangerous_level)

text \<open>The destructive floor holds in every composition: when any stage of a command (between
  \<open>;\<close>, \<open>&&\<close>, \<open>||\<close>, \<open>|\<close>, \<open>&\<close>) is a flagged deletion, the command is never Safe and never
  WorkspaceSafe, and it is Dangerous unless some stage is a \<open>find\<close> mutation that is reported
  first.\<close>

theorem destructive_stage_never_safe:
  assumes "segment \<in> set (split_command_segments command)"
    and "analyze_segment (host_shlex host) segment = Some a"
  shows "sa_level (analyze_command host command) \<in> {Dangerous, RequiresApproval}
    \<and> (sa_level (analyze_command host command) = Dangerous
       \<or> (\<exists>s \<in> set (split_command_segments command).
            analyze_segment (host_shlex host) s = Some (analyze_command host command)))"
proof -
  obtain b where b: "analyze_destructive_patterns (host_shlex host) command = Some b"
    "sa_level b = Dangerous
     \<or> (\<exists>s \<in> set (split_command_segments command). analyze_segment (host_shlex host) s = Some b)"
    using destructive_level [OF assms] by blast
  then show ?thesis
    using analyze_flagged [OF b(1)] segment_levels by fastforce
qed

theorem destructive_stage_never_safe_witness:
  "sa_level (analyze_command ascii_host ''git status; sudo rm -rf /'') \<in> {Dangerous, RequiresApproval}"
  by (rule destructive_stage_never_safe [of "''sudo rm -rf /''" _ ascii_host
        "analysis_dangerous [''Recursive or forced deletion targets the root filesystem'']
           [''Review the deletion target before retrying'']", THEN conjunct1]; code_simp)

text \<open>A \<open>find\<close> mutation masks a dangerous deletion after it: the pass returns at the first stage it
  flags, so \<open>rm -rf /\<close> alone is Dangerous, and behind \<open>find . -delete;\<close> it only requires
  approval.\<close>

theorem find_mutation_masks_deletion:
  "sa_level (analyze_command ascii_host ''rm -rf /'') = Dangerous
   \<and> sa_level (analyze_command ascii_host ''find . -delete; rm -rf /'') = RequiresApproval"
  by code_simp

section \<open>Safe and workspace-safe commands\<close>

text \<open>Safe is a single read: a command classified Safe is one line that uses no control operator,
  substitution, redirection or run-time word and no privileged prefix, and its words open with an
  entry of the read-only table whose argument grammar admits the rest, or it asks codewhale for its
  version or help.\<close>

theorem safe_is_single_read:
  assumes "sa_level (analyze_command host command) = Safe"
  shows "let tokens = shell_words (host_shlex host) (trim command);
             ex = expand_command (host_windows host) (host_shlex host) command
    in CHR 0x0A \<notin> set command \<and> \<not> ex_control ex \<and> \<not> ex_nested ex
       \<and> privileged_pattern host command = None
       \<and> ((\<exists>start. primary_token_index tokens = Some start
             \<and> is_codewhale_readonly_invocation (drop start tokens))
          \<or> \<not> contains_shell_composition host (trim command)
             \<and> (\<exists>entry \<in> set SAFE_COMMANDS. \<exists>n. leading_words_match host tokens entry = Some n
                  \<and> safe_command_arguments_are_read_only entry tokens (drop n tokens)))"
proof -
  let ?ex = "expand_command (host_windows host) (host_shlex host) command"
  note levels = analysis_dangerous_def analysis_requires_approval_def analysis_workspace_safe_def
    curl_pipe_analysis_def
  have not_found: "legacy_pattern_analysis host command = Some a \<Longrightarrow> sa_level a \<noteq> Safe" for a
    by (auto simp: legacy_pattern_analysis_def levels split_def)
  have not_flagged: "analyze_destructive_patterns (host_shlex host) command = Some a \<Longrightarrow> sa_level a \<noteq> Safe" for a
  proof -
    have "first_analysis (analyze_segment sx) xs = Some a \<Longrightarrow> sa_level a \<noteq> Safe" for sx xs
      by (induction xs) (use segment_levels in \<open>fastforce split: option.splits\<close>)+
    then show "analyze_destructive_patterns (host_shlex host) command = Some a \<Longrightarrow> sa_level a \<noteq> Safe"
      by (auto simp: analyze_destructive_patterns_def levels split: if_splits)
  qed
  from assms not_found not_flagged have lf: "CHR 0x0A \<notin> set command"
    and comp: "sa_level (analyze_composition host command) = Safe"
    by (auto simp: analyze_command_def Let_def levels split: if_splits option.splits)
  from comp have flags: "\<not> ex_control ?ex" "\<not> ex_nested ?ex" and single: "sa_level (analyze_single host command) = Safe"
    by (auto simp: analyze_composition_def Let_def levels split: if_splits)
  from single have "privileged_pattern host command = None" "is_safe_command host (trim command)"
    by (auto simp: analyze_single_def analyze_rm_def Let_def levels split: if_splits option.splits)
  with lf flags show ?thesis
    by (auto simp: is_safe_command_def Let_def list_ex_iff split: if_splits option.splits)
qed

theorem safe_is_single_read_witness:
  "privileged_pattern ascii_host ''git log --oneline'' = None"
proof -
  have "sa_level (analyze_command ascii_host ''git log --oneline'') = Safe" by code_simp
  from safe_is_single_read [OF this] show ?thesis unfolding Let_def by blast
qed

text \<open>Two ways out of the workspace are classified workspace-safe: the home directory of another
  user (\<open>~bob\<close>, which the shell expands) and a target directory given as an option value.\<close>

theorem workspace_safe_escapes:
  "sa_level (analyze_command ascii_host ''cp notes ~bob/.bashrc'') = WorkspaceSafe
   \<and> sa_level (analyze_command ascii_host ''cp --target-directory=/etc notes'') = WorkspaceSafe
   \<and> sa_level (analyze_command ascii_host ''cp notes ~/.bashrc'') \<noteq> WorkspaceSafe"
  by code_simp

text \<open>Setting the clock is classified as a read: \<open>date\<close> is in the read-only table without an
  argument rule.\<close>

theorem date_set_is_safe:
  "sa_level (analyze_command ascii_host ''date -s 12:00'') = Safe"
  by code_simp

text \<open>The home-directory test of the \<open>rm\<close> branch is dead: the text it looks for has capitals, and
  the text it searches was lower-cased.\<close>

theorem home_test_is_dead:
  "\<not> contains (to_ascii_lowercase command) ''$HOME''"
proof -
  have "contains s p \<Longrightarrow> set p \<subseteq> set s" for s p :: string
  proof (induction s)
    case Nil
    then show ?case by (simp add: contains.simps [of "[]"] starts_with_prefix)
  next
    case (Cons c s)
    then show ?case
      using set_mono_prefix [of p "c # s"] by (auto simp: contains.simps [of "c # s"] starts_with_prefix)
  qed
  moreover have "CHR ''H'' \<notin> set (to_ascii_lowercase command)"
  proof
    assume "CHR ''H'' \<in> set (to_ascii_lowercase command)"
    then obtain c where "lower_char c = CHR ''H''" by (auto simp: to_ascii_lowercase_def)
    then have "lower_char (CHR ''H'') = CHR ''H''" by (metis lower_char_idem)
    then show False by code_simp
  qed
  ultimately show ?thesis by fastforce
qed

section \<open>Invocations\<close>

text \<open>The argvs that a command names: every suffix of a stage, and those of the scripts that shells in
  it are asked to run.\<close>

inductive names_argv ::
  "(string \<Rightarrow> string list option) \<Rightarrow> string \<Rightarrow> string list \<Rightarrow> bool" for sx where
  stage_suffix: "segment \<in> set (split_command_segments command)
    \<Longrightarrow> index < length (shell_words sx segment)
    \<Longrightarrow> names_argv sx command (argv_from (shell_words sx segment) index)"
| script_argv: "segment \<in> set (split_command_segments command)
    \<Longrightarrow> index < length (shell_words sx segment)
    \<Longrightarrow> may_be_script (shell_words sx segment ! index)
    \<Longrightarrow> nested_shell_script (shell_words sx segment) index = Some script
    \<Longrightarrow> names_argv sx script argv \<Longrightarrow> names_argv sx command argv"

lemma collect_words_complete:
  assumes "collect_words nested words idxs = Some out" and "index \<in> set idxs"
  shows "argv_from words index \<in> set out"
    and "may_be_script (words ! index) \<Longrightarrow> nested_shell_script words index = Some script
      \<Longrightarrow> \<exists>inner. nested script = Some inner \<and> set inner \<subseteq> set out"
  using assms
  by (induction idxs arbitrary: out) (auto simp: subset_iff split: option.splits if_splits)

lemma collect_segments_complete:
  assumes "collect_segments sx nested segments = Some out" and "segment \<in> set segments"
  shows "\<exists>part. collect_words nested (shell_words sx segment) [0 ..< length (shell_words sx segment)] = Some part
    \<and> set part \<subseteq> set out"
  using assms by (induction segments arbitrary: out) (auto simp: Let_def subset_iff split: option.splits)

lemma collect_parts:
  assumes "collect sx qb depth command = Some out" and "segment \<in> set (split_command_segments command)"
  shows "\<exists>part. collect_words (\<lambda>script. collect sx qb (depth + 1) script) (shell_words sx segment)
      [0 ..< length (shell_words sx segment)] = Some part \<and> set part \<subseteq> set out"
proof -
  from assms(1) obtain o1 where "collect_segments sx (\<lambda>script. collect sx qb (depth + 1) script)
      (split_command_segments command) = Some o1" "set o1 \<subseteq> set out"
    by (subst (asm) collect.simps) (auto split: if_splits)
  from collect_segments_complete [OF this(1) assms(2)] this(2) show ?thesis by blast
qed

lemma collect_complete:
  "names_argv sx command argv \<Longrightarrow> collect sx qb depth command = Some out \<Longrightarrow> argv \<in> set out"
proof (induction arbitrary: depth out rule: names_argv.induct)
  case (stage_suffix segment command index)
  from collect_parts [OF stage_suffix(3,1)] collect_words_complete(1) stage_suffix(2)
  show ?case by fastforce
next
  case (script_argv segment command index script argv)
  from collect_parts [OF script_argv(7,1)] obtain part where
    part: "collect_words (\<lambda>script. collect sx qb (depth + 1) script) (shell_words sx segment)
      [0 ..< length (shell_words sx segment)] = Some part" "set part \<subseteq> set out" by blast
  from collect_words_complete(2) [OF part(1) _ script_argv(3,4)] script_argv(2)
  obtain inner where "collect sx qb (depth + 1) script = Some inner" "set inner \<subseteq> set part" by auto
  with script_argv(6) part(2) show ?case by blast
qed

text \<open>The invocation walk misses nothing it names: whenever it returns a list at all, the list
  holds every suffix of every stage with its command word folded, and the same of every script a
  shell in a stage is asked to run, at any depth; the quote-blind walk only adds to it.\<close>

theorem invocations_complete:
  assumes "names_argv sx command argv"
  shows "(case command_invocations sx command of Some out \<Rightarrow> argv \<in> set out | None \<Rightarrow> True)
    \<and> (case destroyer_floor_invocations sx command of Some out \<Rightarrow> argv \<in> set out | None \<Rightarrow> True)"
  using collect_complete [OF assms]
  by (auto simp: command_invocations_def destroyer_floor_invocations_def walk_invocations_def split: option.split)

theorem invocations_complete_witness:
  "case command_invocations (host_shlex ascii_host) ''sudo -u me rm -rf x'' of
     Some out \<Rightarrow> [''rm'', ''-rf'', ''x''] \<in> set out | None \<Rightarrow> True"
proof -
  have "names_argv (host_shlex ascii_host) ''sudo -u me rm -rf x''
      (argv_from (shell_words (host_shlex ascii_host) ''sudo -u me rm -rf x'') 3)"
    by (rule stage_suffix; code_simp)
  moreover have "argv_from (shell_words (host_shlex ascii_host) ''sudo -u me rm -rf x'') 3 = [''rm'', ''-rf'', ''x'']"
    by code_simp
  ultimately show ?thesis using invocations_complete by metis
qed

section \<open>Prefix grants and the policy\<close>

lemma eligible_is_simple:
  "prefix_grant_is_eligible host command ex \<Longrightarrow>
   \<not> ex_dynamic ex \<and> \<not> ex_arguments_dynamic ex \<and> \<not> ex_nested ex \<and> \<not> ex_control ex \<and> \<not> ex_redirects ex"
  by (auto simp: prefix_grant_is_eligible_def split: if_splits)

lemma unasked_is_granted:
  assumes "cx_ask_for_approval ctx = UnlessTrusted"
    and "requirement_phase (dec_requirement (check pf expander el st e ctx)) = ''allowed''"
  shows "el (cx_command ctx) (expander (cx_command ctx))
    \<or> (\<exists>rule. grant_covers ctx (expander (cx_command ctx)) (el (cx_command ctx) (expander (cx_command ctx))) rule
        \<and> matching_ask_rule pf (eng_arity_dict e) (live_rulesets st e) ctx = Some rule)"
proof -
  obtain trusted denied where res: "resolve_prefixes e (live_rulesets st e) = (trusted, denied)" by force
  obtain d where d: "check pf expander el st e ctx = d" by blast
  from assms(2) d have allowed: "requirement_phase (dec_requirement d) = ''allowed''" by simp
  from d res show ?thesis
  proof (cases rule: check_cases)
    case typed
    from typed_stage_Some [OF typed(5)] allowed show ?thesis by (auto simp: forbid_def)
  next
    case fallback
    from allowed assms(1) fallback(6) have "trusted_rule_of (eng_arity_dict e) trusted ctx
        (el (cx_command ctx) (expander (cx_command ctx))) \<noteq> None"
      by (auto simp: fallback_stage_def ask_rule_requirement_def mode_requirement_def rejects_rules_def
          split: option.splits if_splits)
    then show ?thesis by (auto simp: trusted_rule_of_def split: if_splits)
  qed (use allowed in \<open>auto simp: poisoned_decision_def forbid_def
        dest!: denied_prefix_stage_Some dynamic_stage_Some segment_stage_Some\<close>)
qed

lemma expand_notes_control:
  assumes "lx_control (lex (xp_literal_backslashes st) shlex input)" and "length (xp_out st) < MAX_COMMANDS"
  shows "xp_control (expand shlex 0 input st)"
proof -
  let ?lx = "lex (xp_literal_backslashes st) shlex input"
  let ?st = "note_syntax ?lx (enter_text 0 input st)"
  have "grows ?st (fold (\<lambda>inner st. expand shlex (0 + 1) inner st) (lx_nested ?lx)
      (fold (\<lambda>line st. record_line shlex 0 line st) (lx_commands ?lx) ?st))"
    by (rule growth.R_trans [OF growth.R_fold growth.R_fold])
      (rule growth.R_record_line growth.R_expand)+
  moreover have "xp_control ?st" using assms(1) by (simp add: note_syntax_def)
  ultimately show ?thesis
    using assms(2) by (subst expand.simps) (simp add: Let_def MAX_DEPTH_def grows_def)
qed

lemma chain_notes_control:
  assumes "chain_ok ch" and "chain_control ch"
  shows "ex_control (expand_command windows shlex (chain_text ch))"
proof -
  have lexed: "lx_control (lex lit shlex (chain_text ch))" for lit
    using assms by (simp add: lex_of_chain)
  have first: "xp_control (expand shlex 0 (chain_text ch) (expander_start windows))"
    by (rule expand_notes_control) (simp_all add: lexed expander_start_def MAX_COMMANDS_def)
  then have "xp_control (expander_end shlex (chain_text ch) windows)"
    using growth.R_expand [of "(expand shlex 0 (chain_text ch) (expander_start True))\<lparr>xp_literal_backslashes := False\<rparr>"]
    by (auto simp: expander_end_def Let_def grows_def)
  then show ?thesis
    by (simp add: expand_command_def expand_for_platform_def expander_end_def expander_start_def Let_def)
qed



end
