(* ===== verification/ReadonlyLex.thy ===== *)
theory ReadonlyLex
  imports SafetyWords
begin

text \<open>
  The lexer of the read-only shell grammar (\<open>lex_readonly_command\<close> of
  \<open>crates/execpolicy/src/command_safety.rs\<close>) and the normalisation of Windows paths before it.
  The source walks an index over the characters; here the position is the rest of the text with
  its byte offset, and there is one definition per arm of the \<open>match\<close>. \<open>sx\<close> stands for
  \<open>shlex::split\<close>.
\<close>

section \<open>Windows paths\<close>

definition looks_like_windows_absolute_path :: "string \<Rightarrow> bool" where
  "looks_like_windows_absolute_path word =
     (let word = dropWhile is_quote word in
      2 \<le> length word \<and> is_ascii_alphabetic (word ! 0) \<and> word ! 1 = CHR '':''
      \<or> starts_with word [CHR 0x5C, CHR 0x5C, CHR ''?'', CHR 0x5C]
      \<or> starts_with word [CHR 0x5C, CHR 0x5C, CHR ''.'', CHR 0x5C]
      \<or> starts_with word [CHR 0x5C, CHR 0x5C])"

text \<open>\<open>u8::is_ascii_whitespace\<close>, which leaves out the vertical tab.\<close>

definition is_ascii_space :: "char \<Rightarrow> bool" where
  "is_ascii_space c \<longleftrightarrow> c = CHR 0x20 \<or> c = CHR 0x09 \<or> c = CHR 0x0A \<or> c = CHR 0x0C \<or> c = CHR 0x0D"

definition windows_word :: "string \<Rightarrow> string" where
  "windows_word word =
     (if looks_like_windows_absolute_path word
      then concat (map (\<lambda>c. if c = CHR 0x5C then [c, c] else [c]) word) else word)"

fun windows_words :: "string \<Rightarrow> string \<Rightarrow> string" where
  "windows_words word [] = windows_word word"
| "windows_words word (c # cs) =
     (if is_ascii_space c then windows_word word @ c # windows_words [] cs
      else windows_words (word @ [c]) cs)"

text \<open>\<open>replace(r"\\?\", "")\<close>.\<close>

definition strip_verbatim :: "string \<Rightarrow> string" where
  "strip_verbatim command = replace_str [CHR 0x5C, CHR 0x5C, CHR ''?'', CHR 0x5C] [] command"

definition normalize_windows_command_paths :: "string \<Rightarrow> string" where
  "normalize_windows_command_paths command = windows_words [] (strip_verbatim command)"

section \<open>Segments and rejections\<close>

record ReadonlyRejection =
  rj_rule :: string
  rj_detail :: string

definition rejection :: "string \<Rightarrow> string \<Rightarrow> ReadonlyRejection" where
  "rejection rule detail = \<lparr>rj_rule = rule, rj_detail = detail\<rparr>"

text \<open>The \<open>Display\<close> of a rejection.\<close>

definition rejection_text :: "ReadonlyRejection \<Rightarrow> string" where
  "rejection_text r = ''[shell.readonly.command] '' @ rj_rule r @ '': '' @ rj_detail r"

datatype ReadonlyJoin = Pipe | And | Or | Then

fun join_as_str :: "ReadonlyJoin \<Rightarrow> string" where
  "join_as_str Pipe = ''|''"
| "join_as_str And = ''&&''"
| "join_as_str Or = ''||''"
| "join_as_str Then = '';''"

record ReadonlySegment =
  sg_command :: string
  sg_redirects :: "string list"
  sg_join :: "ReadonlyJoin option"
  sg_start :: nat

definition READONLY_OPERATOR_HINT :: string where
  "READONLY_OPERATOR_HINT = ''join reads with |, &&, || or ; and use single quotes for literal text''"

definition operator_rejection :: "string \<Rightarrow> ReadonlyRejection" where
  "operator_rejection what =
     rejection ''operator'' (what @ '' is not admitted in a read-only command; '' @ READONLY_OPERATOR_HINT)"

definition unbalanced :: ReadonlyRejection where
  "unbalanced = rejection ''quote'' ''the command has an unbalanced quote or a trailing backslash''"

definition expansion_name :: "char \<Rightarrow> string" where
  "expansion_name ch = (if ch = CHR ''$'' then [CHR 0x60, CHR ''$'', CHR 0x60] else ''backtick'')"

section \<open>The arms\<close>

record RoLine =
  rl_segments :: "ReadonlySegment list"
  rl_current :: string
  rl_redirects :: "string list"
  rl_start :: nat
  rl_word_start :: nat

type_synonym ro_step = "ReadonlyRejection + nat \<times> RoLine"

definition ro_push :: "string \<Rightarrow> RoLine \<Rightarrow> RoLine" where
  "ro_push cs st = st\<lparr>rl_current := rl_current st @ cs\<rparr>"

text \<open>The word being read.\<close>

definition ro_word :: "RoLine \<Rightarrow> string" where
  "ro_word st = drop (rl_word_start st) (rl_current st)"

text \<open>A quoted part up to its closing quote; the characters are copied with both quotes. The double
  quotes refuse an expansion.\<close>

fun ro_single :: "string \<Rightarrow> string option" where
  "ro_single [] = None"
| "ro_single (c # cs) = (if c = CHR 0x27 then Some [c] else map_option (Cons c) (ro_single cs))"

fun ro_double :: "string \<Rightarrow> ReadonlyRejection + string" where
  "ro_double [] = Inl unbalanced"
| "ro_double (c # cs) =
     (if c = CHR 0x22 then Inr [c]
      else if c = CHR 0x5C
      then (case cs of
              [] \<Rightarrow> Inl unbalanced
            | e # cs' \<Rightarrow> map_sum id (\<lambda>part. c # e # part) (ro_double cs'))
      else if c = CHR ''$'' \<or> c = CHR 0x60
      then Inl (operator_rejection (expansion_name c @ '' expansion inside double quotes''))
      else map_sum id (Cons c) (ro_double cs))"

text \<open>Each arm gets the rest after the current character and returns how many further characters
  it consumed.\<close>

definition ro_arm_backslash :: "string \<Rightarrow> RoLine \<Rightarrow> ro_step" where
  "ro_arm_backslash cs st =
     (case cs of [] \<Rightarrow> Inl unbalanced | next # _ \<Rightarrow> Inr (1, ro_push [CHR 0x5C, next] st))"

definition ro_arm_single :: "string \<Rightarrow> RoLine \<Rightarrow> ro_step" where
  "ro_arm_single cs st =
     (case ro_single cs of
        None \<Rightarrow> Inl unbalanced
      | Some part \<Rightarrow> Inr (length part, ro_push (CHR 0x27 # part) st))"

definition ro_arm_double :: "string \<Rightarrow> RoLine \<Rightarrow> ro_step" where
  "ro_arm_double cs st =
     map_sum id (\<lambda>part. (length part, ro_push (CHR 0x22 # part) st)) (ro_double cs)"

text \<open>The operator at \<open>ch # cs\<close> and its width.\<close>

definition ro_operator :: "char \<Rightarrow> string \<Rightarrow> ReadonlyRejection + ReadonlyJoin \<times> nat" where
  "ro_operator ch cs =
     (if ch = CHR ''|'' \<and> starts_with cs ''|'' then Inr (Or, 2)
      else if ch = CHR ''|'' \<and> starts_with cs ''&'' then Inl (operator_rejection [CHR 0x60, CHR ''|'', CHR ''&'', CHR 0x60])
      else if ch = CHR ''|'' then Inr (Pipe, 1)
      else if ch = CHR ''&'' \<and> starts_with cs ''&'' then Inr (And, 2)
      else if ch = CHR ''&''
      then Inl (operator_rejection (''a background '' @ [CHR 0x60, CHR ''&'', CHR 0x60]))
      else Inr (Then, 1))"

definition ro_close :: "ReadonlyJoin option \<Rightarrow> RoLine \<Rightarrow> ReadonlySegment" where
  "ro_close joined st =
     \<lparr>sg_command = rl_current st, sg_redirects = rl_redirects st, sg_join = joined, sg_start = rl_start st\<rparr>"

definition ro_arm_operator :: "nat \<Rightarrow> char \<Rightarrow> string \<Rightarrow> RoLine \<Rightarrow> ro_step" where
  "ro_arm_operator at ch cs st =
     (case ro_operator ch cs of
        Inl e \<Rightarrow> Inl e
      | Inr (joined, width) \<Rightarrow>
          Inr (width - 1, \<lparr>rl_segments = rl_segments st @ [ro_close (Some joined) st], rl_current = [],
            rl_redirects = [], rl_start = at + width, rl_word_start = 0\<rparr>))"

text \<open>The redirect at \<open>'>' # cs\<close> after the word \<open>word\<close>: its canonical spelling and its width.\<close>

definition ro_redirect_match :: "string \<Rightarrow> string \<Rightarrow> (string \<times> nat) option" where
  "ro_redirect_match word cs =
     (if word = ''2'' \<and> starts_with cs ''&1'' then Some (''2>&1'', 3)
      else if word = [] \<or> word = ''2''
      then let target = dropWhile (\<lambda>c. c = CHR '' '') cs
           in if starts_with target ''/dev/null''
              then Some (if word = ''2'' then ''2>/dev/null'' else ''>/dev/null'',
                         1 + (length cs - length target) + length ''/dev/null'')
              else None
      else None)"

definition ro_redirect_end :: "string \<Rightarrow> bool" where
  "ro_redirect_end rest \<longleftrightarrow>
     rest = [] \<or> 0 < ws_len rest \<or> hd rest \<in> set [CHR ''|'', CHR ''&'', CHR '';'']"

definition ro_arm_redirect :: "string \<Rightarrow> RoLine \<Rightarrow> ro_step" where
  "ro_arm_redirect cs st =
     (case ro_redirect_match (ro_word st) cs of
        None \<Rightarrow>
          Inl (operator_rejection (''a '' @ [CHR 0x60, CHR ''>'', CHR 0x60]
            @ '' redirect other than 2>/dev/null, >/dev/null or 2>&1''))
      | Some (redirect, width) \<Rightarrow>
          if ro_redirect_end (drop (width - 1) cs)
          then Inr (width - 1, st\<lparr>rl_current := take (rl_word_start st) (rl_current st),
                 rl_redirects := rl_redirects st @ [redirect]\<rparr>)
          else Inl (operator_rejection (''a '' @ [CHR 0x60, CHR ''>'', CHR 0x60]
                 @ '' redirect other than 2>/dev/null, >/dev/null or 2>&1'')))"

text \<open>A \<open>*\<close> may not open a word: what precedes it must split to some text.\<close>

definition ro_star_opens_word :: "(string \<Rightarrow> string list option) \<Rightarrow> RoLine \<Rightarrow> bool" where
  "ro_star_opens_word sx st =
     (case sx (ro_word st) of Some words \<Rightarrow> concat words = [] | None \<Rightarrow> False)"

definition ro_refused :: "char \<Rightarrow> bool" where
  "ro_refused ch \<longleftrightarrow>
     ch \<in> set [CHR ''<'', CHR ''('', CHR '')'', CHR ''{'', CHR ''}'', CHR ''['', CHR '']'', CHR ''?'']"

definition ro_arm_plain :: "char \<Rightarrow> string \<Rightarrow> RoLine \<Rightarrow> nat \<times> RoLine" where
  "ro_arm_plain ch cs st =
     (let n = ws_len (ch # cs) in
      if 0 < n
      then let st' = ro_push (take n (ch # cs)) st
           in (n - 1, st'\<lparr>rl_word_start := length (rl_current st')\<rparr>)
      else (0, ro_push [ch] st))"

definition ro_char :: "(string \<Rightarrow> string list option) \<Rightarrow> nat \<Rightarrow> RoLine \<Rightarrow> char \<Rightarrow> string \<Rightarrow> ro_step" where
  "ro_char sx at st ch cs =
     (if ch = CHR 0x5C then ro_arm_backslash cs st
      else if ch = CHR 0x27 then ro_arm_single cs st
      else if ch = CHR 0x22 then ro_arm_double cs st
      else if ch = CHR ''$'' \<or> ch = CHR 0x60 then Inl (operator_rejection (expansion_name ch @ '' expansion''))
      else if ch = CHR ''|'' \<or> ch = CHR ''&'' \<or> ch = CHR '';'' then ro_arm_operator at ch cs st
      else if ch = CHR ''>'' then ro_arm_redirect cs st
      else if ro_refused ch then Inl (operator_rejection (''unquoted '' @ [CHR 0x60, ch, CHR 0x60]))
      else if ch = CHR ''#'' \<and> ro_word st = []
      then Inl (operator_rejection (''an unquoted '' @ [CHR 0x60, CHR ''#'', CHR 0x60] @ '' comment''))
      else if ch = CHR ''*'' \<and> ro_star_opens_word sx st
      then Inl (operator_rejection (''an unquoted '' @ [CHR 0x60, CHR ''*'', CHR 0x60]
             @ '' at the start of a word (quote it or give it a path prefix such as ./*)''))
      else Inr (ro_arm_plain ch cs st))"

section \<open>The loop\<close>

text \<open>After a step the loop goes on behind the characters it consumed.\<close>

fun ro_follow ::
  "(nat \<Rightarrow> RoLine \<Rightarrow> string \<Rightarrow> ReadonlyRejection + RoLine) \<Rightarrow> nat \<Rightarrow> string \<Rightarrow> ro_step
   \<Rightarrow> ReadonlyRejection + RoLine" where
  "ro_follow loop at cs (Inl e) = Inl e"
| "ro_follow loop at cs (Inr (k, st)) = loop (at + 1 + k) st (drop k cs)"

lemma ro_follow_cong [fundef_cong]:
  assumes "at = at'" "cs = cs'" "r = r'"
    and "\<And>k st. r' = Inr (k, st) \<Longrightarrow> loop (at' + 1 + k) st (drop k cs') = loop' (at' + 1 + k) st (drop k cs')"
  shows "ro_follow loop at cs r = ro_follow loop' at' cs' r'"
  using assms by (cases r') auto

function (sequential) ro_loop ::
  "(string \<Rightarrow> string list option) \<Rightarrow> nat \<Rightarrow> RoLine \<Rightarrow> string \<Rightarrow> ReadonlyRejection + RoLine" where
  "ro_loop sx at st [] = Inr st"
| "ro_loop sx at st (ch # cs) =
     ro_follow (\<lambda>at st cs. ro_loop sx at st cs) at cs (ro_char sx at st ch cs)"
  by pat_completeness auto
termination
  by (relation "measure (\<lambda>(_, _, _, cs). length cs)") auto

declare ro_loop.simps(2) [simp del]

lemma ro_loop_step:
  "ro_loop sx at st (ch # cs) =
     (case ro_char sx at st ch cs of
        Inl e \<Rightarrow> Inl e
      | Inr (k, st') \<Rightarrow> ro_loop sx (at + 1 + k) st' (drop k cs))"
  by (cases "ro_char sx at st ch cs") (auto simp: ro_loop.simps(2))

definition ro_start :: RoLine where
  "ro_start = \<lparr>rl_segments = [], rl_current = [], rl_redirects = [], rl_start = 0, rl_word_start = 0\<rparr>"

definition lex_readonly_command ::
  "(string \<Rightarrow> string list option) \<Rightarrow> string \<Rightarrow> ReadonlyRejection + ReadonlySegment list" where
  "lex_readonly_command sx command =
     (if CHR 0x0A \<in> set command \<or> CHR 0x0D \<in> set command then Inl (operator_rejection ''a newline'')
      else case ro_loop sx 0 ro_start command of
             Inl e \<Rightarrow> Inl e
           | Inr st \<Rightarrow>
               let segments = rl_segments st @ [ro_close None st]
               in if list_ex (\<lambda>segment. trim (sg_command segment) = []) segments
                  then Inl (operator_rejection ''an empty command next to a shell operator'')
                  else Inr segments)"

lemma if_eqE:
  assumes "(if b then x else y) = z"
  obtains "b" "x = z" | "\<not> b" "y = z"
  using assms by (cases b) simp_all

text \<open>The arm behind an accepted step.\<close>

lemma ro_charE:
  assumes step: "ro_char sx at st ch cs = Inr (k, st')"
  obtains (backslash) "ch = CHR 0x5C" "ro_arm_backslash cs st = Inr (k, st')"
    | (single) "ch = CHR 0x27" "ro_arm_single cs st = Inr (k, st')"
    | (double) "ch = CHR 0x22" "ro_arm_double cs st = Inr (k, st')"
    | (operator) "ch = CHR ''|'' \<or> ch = CHR ''&'' \<or> ch = CHR '';''" "ro_arm_operator at ch cs st = Inr (k, st')"
    | (redirect) "ch = CHR ''>''" "ro_arm_redirect cs st = Inr (k, st')"
    | (plain) "ch \<noteq> CHR 0x5C" "ch \<noteq> CHR 0x27" "ch \<noteq> CHR 0x22" "\<not> (ch = CHR ''$'' \<or> ch = CHR 0x60)"
        "\<not> (ch = CHR ''|'' \<or> ch = CHR ''&'' \<or> ch = CHR '';'')" "ch \<noteq> CHR ''>''" "\<not> ro_refused ch"
        "ro_arm_plain ch cs st = (k, st')"
  using step unfolding ro_char_def
  apply (elim if_eqE)
           apply (erule (1) that(1))
          apply (erule (1) that(2))
         apply (erule (1) that(3))
        apply (erule notE [OF sum.distinct(1)])
       apply (erule (1) that(4))
      apply (erule (1) that(5))
     apply (erule notE [OF sum.distinct(1)])
    apply (erule notE [OF sum.distinct(1)])
   apply (erule notE [OF sum.distinct(1)])
  apply (drule sum.inject(2) [THEN iffD1])
  apply (rule that(6); assumption)
  done

end
