(* ===== verification/ReadonlySyntax.thy ===== *)
theory ReadonlySyntax
  imports ReadonlyLex
begin

text \<open>
  What the read-only lexer guarantees of a text it accepts: the characters a shell would interpret,
  read by an independent scanner of quotes, are harmless ones; and the segments are the text, cut
  at its operators.
\<close>

section \<open>Live characters\<close>

text \<open>The quoting rules of the shell: the characters of a text that are not protected by a
  backslash or quotes; within double quotes \<open>$\<close> and the backtick stay live. \<open>None\<close> when a quote
  or a backslash is left open.\<close>

fun live :: "char option \<Rightarrow> string \<Rightarrow> string option" where
  "live None [] = Some []"
| "live (Some q) [] = None"
| "live None (c # cs) =
     (if c = CHR 0x5C then (case cs of [] \<Rightarrow> None | _ # cs' \<Rightarrow> live None cs')
      else if is_quote c then live (Some c) cs
      else map_option (Cons c) (live None cs))"
| "live (Some q) (c # cs) =
     (if c = q then live None cs
      else if q = CHR 0x22 \<and> c = CHR 0x5C then (case cs of [] \<Rightarrow> None | _ # cs' \<Rightarrow> live (Some q) cs')
      else if q = CHR 0x22 \<and> (c = CHR ''$'' \<or> c = CHR 0x60) then map_option (Cons c) (live (Some q) cs)
      else live (Some q) cs)"

text \<open>Expansion, grouping, input redirection, globs other than \<open>*\<close>.\<close>

definition expands :: "char \<Rightarrow> bool" where
  "expands c \<longleftrightarrow> c = CHR ''$'' \<or> c = CHR 0x60 \<or> ro_refused c"

definition inert :: "string \<Rightarrow> bool" where
  "inert cs \<longleftrightarrow> (\<exists>l. live None cs = Some l \<and> (\<forall>c \<in> set l. \<not> expands c))"

lemma inert_nil [simp]: "inert []" by (simp add: inert_def)

definition unquoted :: "char \<Rightarrow> bool" where
  "unquoted c \<longleftrightarrow> c \<noteq> CHR 0x5C \<and> \<not> is_quote c \<and> \<not> expands c"

lemma inert_plain: "unquoted c \<Longrightarrow> inert (c # cs) = inert cs"
  by (auto simp: inert_def unquoted_def)

lemma inert_plains: "list_all unquoted xs \<Longrightarrow> inert (xs @ cs) = inert cs"
  by (induction xs) (simp_all add: inert_plain)

lemma live_single: "ro_single cs = Some part \<Longrightarrow> live (Some (CHR 0x27)) cs = live None (drop (length part) cs)"
  by (induction cs arbitrary: part) (auto split: if_splits)

lemma live_double: "ro_double cs = Inr part \<Longrightarrow> live (Some (CHR 0x22)) cs = live None (drop (length part) cs)"
proof (induction cs arbitrary: part rule: ro_double.induct)
  case (2 c cs)
  show ?case
  proof (cases "c = CHR 0x5C")
    case True
    then show ?thesis
      using 2 by (cases cs; cases "ro_double (tl cs)") auto
  next
    case False
    with 2 show ?thesis by (cases "ro_double cs") (auto split: if_splits)
  qed
qed simp

section \<open>Accepted texts are inert\<close>

lemma unquoted_const: "list_all unquoted ''/dev/null'' \<and> unquoted (CHR '' '') \<and> list_all unquoted ''|&;>1''"
  by (auto simp: unquoted_def expands_def ro_refused_def is_quote_def)

lemma inert_consumed: "list_all unquoted (take k cs) \<Longrightarrow> inert cs = inert (drop k cs)"
  using inert_plains [of "take k cs" "drop k cs"] by simp

lemma take_append_len: "starts_with (drop n cs) p \<Longrightarrow> take (n + length p) cs = take n cs @ p"
  by (auto simp: starts_with_prefix prefix_def take_add)

lemma cont_unquoted: "is_cont c \<Longrightarrow> unquoted c"
  by (cases c) (auto simp: unquoted_def expands_def ro_refused_def is_quote_def)

lemma ws_len_rest: "0 < ws_len (c # cs) \<Longrightarrow> list_all unquoted (take (ws_len (c # cs) - Suc 0) cs)"
  by (auto simp: cont_unquoted split: list.splits dest: ws2_cont ws3_cont)

lemma operator_inert:
  assumes "ro_operator ch cs = Inr (joined, width)"
  shows "list_all unquoted (take (width - Suc 0) cs)"
  using assms unquoted_const
  by (cases cs) (auto simp: ro_operator_def starts_with_prefix split: if_splits)

lemma redirect_inert:
  assumes "ro_redirect_match word cs = Some (redirect, width)"
  shows "list_all unquoted (take (width - Suc 0) cs)"
proof (cases "word = ''2'' \<and> starts_with cs ''&1''")
  case True
  then have "take (width - Suc 0) cs = ''&1''"
    using assms take_append_len [of 0 cs "''&1''"] by (auto simp: ro_redirect_match_def eval_nat_numeral)
  with unquoted_const show ?thesis by simp
next
  case False
  let ?t = "dropWhile (\<lambda>c. c = CHR '' '') cs" and ?s = "takeWhile (\<lambda>c. c = CHR '' '') cs"
  have split: "cs = ?s @ ?t" by simp
  have t: "starts_with ?t ''/dev/null''"
    and w: "width = 1 + (length cs - length ?t) + length ''/dev/null''"
    using assms False by (auto simp: ro_redirect_match_def Let_def split: if_splits)
  have n: "length cs - length ?t = length ?s" using split by (metis length_append diff_add_inverse2)
  have "drop (length ?s) cs = ?t" by (metis split append_eq_conv_conj)
  then have "take (width - Suc 0) cs = take (length ?s) cs @ ''/dev/null''"
    using take_append_len [of "length ?s" cs "''/dev/null''"] t w n by simp
  moreover have "take (length ?s) cs = ?s" by (metis split append_eq_conv_conj)
  moreover have "list_all unquoted ?s"
    using unquoted_const set_takeWhileD [of _ "\<lambda>c. c = CHR '' ''" cs] by (auto simp: list_all_iff)
  ultimately show ?thesis using unquoted_const by simp
qed

lemma ro_char_inert:
  assumes "ro_char sx at st ch cs = Inr (k, st')"
  shows "inert (ch # cs) = inert (drop k cs)"
  using assms
proof (cases rule: ro_charE)
    case backslash
    then show ?thesis by (auto simp: ro_arm_backslash_def inert_def split: list.splits)
  next
    case single
    then show ?thesis
      by (auto simp: ro_arm_single_def inert_def is_quote_def live_single split: option.splits)
  next
    case double
    then show ?thesis
      by (cases "ro_double cs") (auto simp: ro_arm_double_def inert_def is_quote_def live_double)
  next
    case operator
    then have "list_all unquoted (take k cs)"
      by (auto simp: ro_arm_operator_def operator_inert split: sum.splits)
    moreover have "unquoted ch" using operator(1) unquoted_const by auto
    ultimately show ?thesis by (simp add: inert_plain inert_consumed)
  next
    case redirect
    then have "list_all unquoted (take k cs)"
      by (auto simp: ro_arm_redirect_def redirect_inert split: option.splits if_splits)
    with redirect(1) unquoted_const show ?thesis by (simp add: inert_plain inert_consumed)
  next
    case plain
    then have "list_all unquoted (take k cs)"
      by (auto simp: ro_arm_plain_def Let_def ws_len_rest simp del: ws_len.simps split: if_splits)
    moreover have "unquoted ch"
      using plain(1-4,7) by (auto simp: unquoted_def expands_def is_quote_def)
    ultimately show ?thesis by (simp add: inert_plain inert_consumed)
qed

lemma ro_loop_inert: "ro_loop sx at st cs = Inr st' \<Longrightarrow> inert cs"
proof (induction sx at st cs rule: ro_loop.induct)
  case (2 sx at st ch cs)
  then show ?case
    by (auto simp: ro_loop_step ro_char_inert split: sum.splits prod.splits)
qed simp

lemma lex_inert:
  assumes "lex_readonly_command sx command = Inr segments"
  shows "inert command \<and> CHR 0x0A \<notin> set command \<and> CHR 0x0D \<notin> set command"
  using assms by (auto simp: lex_readonly_command_def Let_def split: if_splits sum.splits dest: ro_loop_inert)

section \<open>Redirects\<close>

definition ADMITTED_REDIRECTS :: "string list" where
  "ADMITTED_REDIRECTS = [''2>&1'', ''2>/dev/null'', ''>/dev/null'']"

definition redirects_ok :: "RoLine \<Rightarrow> bool" where
  "redirects_ok st \<longleftrightarrow> list_all (\<lambda>r. r \<in> set ADMITTED_REDIRECTS) (rl_redirects st)
     \<and> list_all (\<lambda>s. list_all (\<lambda>r. r \<in> set ADMITTED_REDIRECTS) (sg_redirects s)) (rl_segments st)"

lemma redirect_admitted:
  "ro_redirect_match word cs = Some (redirect, width) \<Longrightarrow> redirect \<in> set ADMITTED_REDIRECTS"
  by (auto simp: ro_redirect_match_def ADMITTED_REDIRECTS_def Let_def split: if_splits)

lemma ro_double_split: "ro_arm_double cs st = Inr (k, st') \<longleftrightarrow>
    (\<exists>part. ro_double cs = Inr part \<and> k = length part \<and> st' = ro_push (CHR 0x22 # part) st)"
  by (cases "ro_double cs") (auto simp: ro_arm_double_def)

lemmas ro_arms = ro_arm_backslash_def ro_arm_single_def ro_double_split ro_arm_operator_def
  ro_arm_redirect_def ro_arm_plain_def Let_def ro_push_def ro_close_def

lemma ro_char_redirects:
  assumes "redirects_ok st" and "ro_char sx at st ch cs = Inr (k, st')"
  shows "redirects_ok st'"
  using assms(2)
proof (cases rule: ro_charE)
  case redirect
  then show ?thesis
    using assms(1) redirect_admitted [of "ro_word st" cs]
    by (auto simp: ro_arm_redirect_def redirects_ok_def split: option.splits if_splits)
qed (use assms(1) in \<open>auto simp: ro_arms redirects_ok_def simp del: ws_len.simps
      split: list.splits option.splits sum.splits if_splits\<close>)

lemma ro_loop_redirects: "redirects_ok st \<Longrightarrow> ro_loop sx at st cs = Inr st' \<Longrightarrow> redirects_ok st'"
proof (induction sx at st cs rule: ro_loop.induct)
  case (2 sx at st ch cs)
  then show ?case
    by (auto simp: ro_loop_step split: sum.splits prod.splits dest: ro_char_redirects)
qed simp

lemma lex_result:
  assumes "lex_readonly_command sx command = Inr segments"
  obtains st where "ro_loop sx 0 ro_start command = Inr st"
    and "segments = rl_segments st @ [ro_close None st]"
    and "\<And>s. s \<in> set segments \<Longrightarrow> trim (sg_command s) \<noteq> []"
  using assms by (auto simp: lex_readonly_command_def Let_def list_ex_iff split: if_splits sum.splits)

lemma lex_redirects:
  assumes "lex_readonly_command sx command = Inr segments" and "s \<in> set segments"
  shows "set (sg_redirects s) \<subseteq> set ADMITTED_REDIRECTS"
proof -
  obtain st where "ro_loop sx 0 ro_start command = Inr st"
    and segs: "segments = rl_segments st @ [ro_close None st]"
    using assms(1) by (rule lex_result)
  moreover have "redirects_ok ro_start" by (simp add: redirects_ok_def ro_start_def)
  ultimately have "redirects_ok st" using ro_loop_redirects by blast
  with segs assms(2) show ?thesis by (auto simp: redirects_ok_def ro_close_def list_all_iff)
qed

section \<open>The segments are the text\<close>

definition segment_text :: "ReadonlySegment \<Rightarrow> string" where
  "segment_text s = sg_command s @ (case sg_join s of Some joined \<Rightarrow> join_as_str joined | None \<Rightarrow> [])"

definition texts :: "ReadonlySegment list \<Rightarrow> string" where
  "texts segments = concat (map segment_text segments)"

lemma texts_simps [simp]:
  "texts [] = []" "texts (s # ss) = segment_text s @ texts ss" "texts (xs @ ys) = texts xs @ texts ys"
  by (simp_all add: texts_def)

definition plain_line :: "RoLine \<Rightarrow> bool" where
  "plain_line st \<longleftrightarrow> rl_redirects st = [] \<and> (\<forall>s \<in> set (rl_segments st). sg_redirects s = [])"

text \<open>What was read when the offset is \<open>at\<close>.\<close>

definition read_ok :: "nat \<Rightarrow> string \<Rightarrow> RoLine \<Rightarrow> bool" where
  "read_ok at done st \<longleftrightarrow> texts (rl_segments st) @ rl_current st = done \<and> at = length done
     \<and> rl_start st = length (texts (rl_segments st))
     \<and> (\<forall>i < length (rl_segments st). sg_start (rl_segments st ! i) = length (texts (take i (rl_segments st))))"

lemma ro_single_take: "ro_single cs = Some part \<Longrightarrow> part = take (length part) cs"
  by (induction cs arbitrary: part) (auto split: if_splits)

lemma ro_double_take: "ro_double cs = Inr part \<Longrightarrow> part = take (length part) cs"
proof (induction cs arbitrary: part rule: ro_double.induct)
  case (2 c cs)
  show ?case
  proof (cases "c = CHR 0x5C")
    case True
    with 2 show ?thesis by (cases cs; cases "ro_double (tl cs)") auto
  next
    case False
    with 2 show ?thesis by (cases "ro_double cs") (auto split: if_splits)
  qed
qed simp

lemma operator_text:
  assumes "ro_operator ch cs = Inr (joined, width)" and "ch = CHR ''|'' \<or> ch = CHR ''&'' \<or> ch = CHR '';''"
  shows "0 < width \<and> join_as_str joined = ch # take (width - 1) cs \<and> width \<le> length (ch # cs)"
  using assms by (cases cs) (auto simp: ro_operator_def starts_with_prefix split: if_splits)

lemma read_ok_push:
  "read_ok at done st \<Longrightarrow> st' = st\<lparr>rl_current := rl_current st @ cs, rl_word_start := w\<rparr>
    \<Longrightarrow> read_ok (at + length cs) (done @ cs) st'"
  by (simp add: read_ok_def)

lemma read_ok_operator:
  assumes "read_ok at done st" and "join_as_str joined = cs" and "rl_redirects st = []"
  shows "read_ok (at + length cs) (done @ cs) \<lparr>rl_segments = rl_segments st @ [ro_close (Some joined) st],
    rl_current = [], rl_redirects = [], rl_start = at + length cs, rl_word_start = 0\<rparr>"
proof -
  let ?segs = "rl_segments st @ [ro_close (Some joined) st]"
  have t: "texts ?segs = done @ cs"
    using assms(1,2) by (simp add: read_ok_def ro_close_def segment_text_def)
  have "sg_start (?segs ! i) = length (texts (take i ?segs))" if "i < length ?segs" for i
    using that assms(1) by (cases "i < length (rl_segments st)") (auto simp: read_ok_def nth_append ro_close_def)
  with t assms(1) show ?thesis by (simp add: read_ok_def)
qed

lemma ro_char_plain:
  assumes "ro_char sx at st ch cs = Inr (k, st')" and "plain_line st'"
  shows "plain_line st"
  using assms(1)
  by (cases rule: ro_charE) (use assms(2) in \<open>auto simp: ro_arms plain_line_def simp del: ws_len.simps
      split: list.splits option.splits sum.splits if_splits\<close>)

lemma ro_loop_plain: "ro_loop sx at st cs = Inr st' \<Longrightarrow> plain_line st' \<Longrightarrow> plain_line st"
proof (induction sx at st cs rule: ro_loop.induct)
  case (2 sx at st ch cs)
  then show ?case
    by (auto simp: ro_loop_step split: sum.splits prod.splits dest: ro_char_plain)
qed simp

lemma ro_char_read:
  assumes "ro_char sx at st ch cs = Inr (k, st')" and "read_ok at done st" and "plain_line st'"
  shows "k \<le> length cs \<and> read_ok (at + 1 + k) (done @ ch # take k cs) st'"
  using assms(1)
proof (cases rule: ro_charE)
  case backslash
  then show ?thesis
    using assms(2,3) by (auto simp: ro_arms plain_line_def read_ok_def split: list.splits)
next
  case single
  then obtain part where part: "ro_single cs = Some part" "k = length part" "st' = ro_push (CHR 0x27 # part) st"
    by (auto simp: ro_arm_single_def split: option.splits)
  then show ?thesis
    using assms(2,3) single(1) take_is_prefix [of "length part" cs] ro_single_take [OF part(1), symmetric]
    by (auto simp: ro_push_def plain_line_def read_ok_def elim: prefixE)
next
  case double
  then obtain part where part: "ro_double cs = Inr part" "k = length part" "st' = ro_push (CHR 0x22 # part) st"
    by (auto simp: ro_double_split)
  then show ?thesis
    using assms(2,3) double(1) take_is_prefix [of "length part" cs] ro_double_take [OF part(1), symmetric]
    by (auto simp: ro_push_def plain_line_def read_ok_def elim: prefixE)
next
  case operator
  then obtain joined width where op: "ro_operator ch cs = Inr (joined, width)" "k = width - 1"
    and st': "st' = \<lparr>rl_segments = rl_segments st @ [ro_close (Some joined) st], rl_current = [],
        rl_redirects = [], rl_start = at + width, rl_word_start = 0\<rparr>"
    by (auto simp: ro_arm_operator_def split: sum.splits)
  have t: "0 < width" "join_as_str joined = ch # take k cs" "width \<le> length (ch # cs)"
    using operator_text [OF op(1) operator(1)] op(2) by auto
  have plain: "plain_line st" using assms(1,3) by (rule ro_char_plain)
  have w: "length (ch # take k cs) = width" using t op(2) by (auto simp: min_def)
  then have "at + 1 + k = at + length (ch # take k cs)" using t(1) op(2) by linarith
  moreover have "rl_redirects st = []" using plain by (simp add: plain_line_def)
  ultimately have "read_ok (at + 1 + k) (done @ ch # take k cs) st'"
    using read_ok_operator [OF assms(2) t(2)] w unfolding st' by metis
  with plain t op(2) show ?thesis by auto
next
  case redirect
  then show ?thesis
    using assms(3) by (auto simp: ro_arm_redirect_def plain_line_def split: option.splits if_splits)
next
  case plain
  then show ?thesis
    using assms(2,3) ws_len_le [of "ch # cs"]
    by (cases "ws_len (ch # cs)")
      (auto simp: ro_arm_plain_def Let_def ro_push_def plain_line_def read_ok_def simp del: ws_len.simps)
qed

lemma ro_loop_read:
  assumes "ro_loop sx at st cs = Inr st'" and "read_ok at done st" and "plain_line st'"
  shows "read_ok (at + length cs) (done @ cs) st'"
  using assms
proof (induction sx at st cs arbitrary: "done" rule: ro_loop.induct)
  case (2 sx at st ch cs)
  obtain k st1 where c: "ro_char sx at st ch cs = Inr (k, st1)"
    and l: "ro_loop sx (at + 1 + k) st1 (drop k cs) = Inr st'"
    using "2.prems"(1) by (auto simp: ro_loop_step split: sum.splits prod.splits)
  have step: "k \<le> length cs \<and> read_ok (at + 1 + k) (done @ ch # take k cs) st1"
    using ro_char_read [OF c "2.prems"(2) ro_loop_plain [OF l "2.prems"(3)]] .
  have "read_ok (at + 1 + k + length (drop k cs)) ((done @ ch # take k cs) @ drop k cs) st'"
    by (rule "2.IH" [OF c l]) (use step "2.prems"(3) in simp_all)
  with step show ?case by simp
qed simp

lemma lex_reassembles:
  assumes "lex_readonly_command sx command = Inr segments" and "\<forall>s \<in> set segments. sg_redirects s = []"
  shows "texts segments = command"
    and "i < length segments \<Longrightarrow> drop (sg_start (segments ! i)) command = texts (drop i segments)"
proof -
  obtain st where loop: "ro_loop sx 0 ro_start command = Inr st"
    and segs: "segments = rl_segments st @ [ro_close None st]"
    using assms(1) by (rule lex_result)
  have "plain_line st" using assms(2) by (auto simp: plain_line_def segs ro_close_def)
  moreover have "read_ok 0 [] ro_start" by (simp add: read_ok_def ro_start_def)
  ultimately have r: "read_ok (0 + length command) ([] @ command) st" using ro_loop_read [OF loop] by blast
  then show t: "texts segments = command" by (simp add: segs read_ok_def ro_close_def segment_text_def)
  show "drop (sg_start (segments ! i)) command = texts (drop i segments)" if i: "i < length segments"
  proof -
    have "sg_start (segments ! i) = length (texts (take i segments))"
      using i r by (cases "i < length (rl_segments st)") (auto simp: segs read_ok_def nth_append ro_close_def)
    moreover have "command = texts (take i segments) @ texts (drop i segments)"
      using t by (metis append_take_drop_id texts_simps(3))
    ultimately show ?thesis by simp
  qed
qed

end
