(* ===== verification/CommandArity.thy ===== *)
theory CommandArity
  imports BashArity
begin

text \<open>
  The command classification of \<open>crates/execpolicy/src/command_safety.rs\<close>: the table
  \<open>COMMAND_ARITY\<close>, \<open>classify_command\<close> on it and the matcher of allow patterns. It is a second
  dictionary beside the one of \<open>bash_arity.rs\<close>: other rows, and every flag is dropped. The search
  from the longest candidate down is the loop modelled there as \<open>classify_depth\<close>.
\<close>

section \<open>The table\<close>

definition command_arity_vcs_node :: "(string \<times> nat) list" where
  "command_arity_vcs_node =
     [(''git add'', 2), (''git am'', 2), (''git apply'', 2), (''git bisect'', 2),
      (''git blame'', 2), (''git branch'', 2), (''git cat-file'', 2), (''git checkout'', 2),
      (''git cherry-pick'', 2), (''git clean'', 2), (''git clone'', 2), (''git commit'', 2),
      (''git config'', 2), (''git describe'', 2), (''git diff'', 2), (''git fetch'', 2),
      (''git format-patch'', 2), (''git grep'', 2), (''git init'', 2), (''git log'', 2),
      (''git ls-files'', 2), (''git merge'', 2), (''git mv'', 2), (''git notes'', 2),
      (''git pull'', 2), (''git push'', 2), (''git rebase'', 2), (''git reflog'', 2),
      (''git remote'', 2), (''git reset'', 2), (''git restore'', 2), (''git revert'', 2),
      (''git rm'', 2), (''git show'', 2), (''git stash'', 2), (''git status'', 2),
      (''git submodule'', 2), (''git switch'', 2), (''git tag'', 2), (''git worktree'', 2),
      (''npm audit'', 2), (''npm build'', 2), (''npm cache'', 2), (''npm ci'', 2),
      (''npm dedupe'', 2), (''npm fund'', 2), (''npm help'', 2), (''npm info'', 2),
      (''npm init'', 2), (''npm install'', 2), (''npm link'', 2), (''npm list'', 2),
      (''npm ls'', 2), (''npm outdated'', 2), (''npm pack'', 2), (''npm prune'', 2),
      (''npm publish'', 2), (''npm rebuild'', 2), (''npm run'', 3), (''npm start'', 2),
      (''npm stop'', 2), (''npm test'', 2), (''npm uninstall'', 2), (''npm update'', 2),
      (''npm version'', 2), (''npm view'', 2), (''yarn add'', 2), (''yarn audit'', 2),
      (''yarn build'', 2), (''yarn install'', 2), (''yarn run'', 3), (''yarn start'', 2),
      (''yarn test'', 2), (''yarn upgrade'', 2), (''yarn workspace'', 3), (''pnpm add'', 2),
      (''pnpm build'', 2), (''pnpm install'', 2), (''pnpm run'', 3), (''pnpm start'', 2),
      (''pnpm test'', 2), (''pnpm update'', 2)]"

definition command_arity_build :: "(string \<times> nat) list" where
  "command_arity_build =
     [(''cargo add'', 2), (''cargo bench'', 2), (''cargo build'', 2), (''cargo check'', 2),
      (''cargo clean'', 2), (''cargo clippy'', 2), (''cargo doc'', 2), (''cargo fix'', 2),
      (''cargo fmt'', 2), (''cargo generate'', 2), (''cargo install'', 2),
      (''cargo metadata'', 2), (''cargo package'', 2), (''cargo publish'', 2),
      (''cargo remove'', 2), (''cargo run'', 2), (''cargo search'', 2), (''cargo test'', 2),
      (''cargo tree'', 2), (''cargo uninstall'', 2), (''cargo update'', 2), (''cargo yank'', 2),
      (''docker build'', 2), (''docker compose'', 3), (''docker container'', 3),
      (''docker cp'', 2), (''docker exec'', 2), (''docker image'', 3), (''docker images'', 2),
      (''docker inspect'', 2), (''docker kill'', 2), (''docker logs'', 2),
      (''docker network'', 3), (''docker ps'', 2), (''docker pull'', 2), (''docker push'', 2),
      (''docker rm'', 2), (''docker rmi'', 2), (''docker run'', 2), (''docker start'', 2),
      (''docker stop'', 2), (''docker system'', 3), (''docker tag'', 2), (''docker volume'', 3),
      (''kubectl apply'', 2), (''kubectl create'', 3), (''kubectl delete'', 3),
      (''kubectl describe'', 3), (''kubectl exec'', 2), (''kubectl explain'', 2),
      (''kubectl get'', 3), (''kubectl label'', 2), (''kubectl logs'', 2),
      (''kubectl patch'', 2), (''kubectl port-forward'', 2), (''kubectl rollout'', 3),
      (''kubectl scale'', 2), (''kubectl set'', 2), (''kubectl top'', 3)]"

definition command_arity_rest :: "(string \<times> nat) list" where
  "command_arity_rest =
     [(''go build'', 2), (''go clean'', 2), (''go env'', 2), (''go fmt'', 2),
      (''go generate'', 2), (''go get'', 2), (''go install'', 2), (''go list'', 2),
      (''go mod'', 3), (''go run'', 2), (''go test'', 2), (''go vet'', 2), (''go work'', 3),
      (''pip install'', 2), (''pip uninstall'', 2), (''pip list'', 2), (''pip show'', 2),
      (''pip freeze'', 2), (''pip3 install'', 2), (''pip3 uninstall'', 2), (''pip3 list'', 2),
      (''pip3 show'', 2), (''python'', 2), (''python3'', 2), (''make'', 1), (''gh pr'', 3),
      (''gh issue'', 3), (''gh repo'', 3), (''gh release'', 3), (''gh workflow'', 3),
      (''gh run'', 3), (''gh secret'', 3), (''rustup default'', 2), (''rustup install'', 2),
      (''rustup show'', 2), (''rustup target'', 3), (''rustup toolchain'', 3),
      (''rustup update'', 2), (''deno run'', 2), (''deno test'', 2), (''deno fmt'', 2),
      (''deno lint'', 2), (''bun add'', 2), (''bun build'', 2), (''bun install'', 2),
      (''bun run'', 3), (''bun test'', 2), (''npx'', 2)]"

definition COMMAND_ARITY :: "(string \<times> nat) list" where
  "COMMAND_ARITY = command_arity_vcs_node @ command_arity_build @ command_arity_rest"

section \<open>Classification\<close>

definition classify_command :: "string list \<Rightarrow> string" where
  "classify_command tokens =
     (let positional = map to_ascii_lowercase (filter (\<lambda>t. \<not> starts_with t ''-'') tokens) in
      if positional = [] then []
      else classify_depth COMMAND_ARITY positional (min (length positional) 3))"

text \<open>\<open>prefix_allow_matches\<close>: the classification first, then the text itself, which no shell operator
  may occur in.\<close>

definition operator_char :: "char \<Rightarrow> bool" where
  "operator_char c \<longleftrightarrow>
     c \<in> set [CHR '';'', CHR ''&'', CHR ''|'', CHR 0x60, CHR ''$'', CHR ''('', CHR '')'', CHR ''<'', CHR ''>'',
       CHR 0x0A, CHR 0x0D]"

definition normalized_text :: "string \<Rightarrow> string" where
  "normalized_text s = join '' '' (split_whitespace (to_ascii_lowercase (trim s)))"

definition prefix_allow_matches :: "string \<Rightarrow> string \<Rightarrow> bool" where
  "prefix_allow_matches pattern command =
     (let pattern_norm = normalized_text pattern;
          tokens = split_whitespace command
      in if tokens = [] then pattern_norm = []
         else let canonical = classify_command tokens
              in if canonical = pattern_norm \<and> canonical_prefix_is_leading tokens canonical then True
                 else let command_norm = normalized_text command
                      in if list_ex operator_char command_norm then False
                         else command_norm = pattern_norm
                              \<or> starts_with command_norm (pattern_norm @ '' ''))"

end
