(* ===== verification/ReadonlyWords.thy ===== *)
theory ReadonlyWords
  imports CommandSafety CommandArity ReadonlyLex
begin

text \<open>
  The token-level half of the read-only shell grammar at the front of
  \<open>crates/execpolicy/src/command_safety.rs\<close>: the admitted programs, the option table of each
  canonical command, and the judgement of one command by its words. \<open>sx\<close> stands for
  \<open>shlex::split\<close>.
\<close>

section \<open>Tables\<close>

definition PARALLEL_READONLY_PREFIXES :: "string list" where
  "PARALLEL_READONLY_PREFIXES =
     [''git status'', ''git log'', ''git diff'', ''git show'', ''git ls-files'', ''git blame'',
      ''git grep'', ''ls'', ''pwd'', ''cat'', ''head'', ''tail'', ''wc'', ''which'', ''stat'',
      ''file'', ''du'', ''df'', ''grep'', ''rg'', ''fd'']"

definition GITHUB_READONLY_PREFIXES :: "string list" where
  "GITHUB_READONLY_PREFIXES =
     [''gh issue list'', ''gh issue status'', ''gh issue view'', ''gh pr checks'', ''gh pr diff'',
      ''gh pr list'', ''gh pr status'', ''gh pr view'', ''gh release list'', ''gh release view'',
      ''gh repo view'', ''gh run list'', ''gh run view'', ''gh workflow list'',
      ''gh workflow view'']"

definition AGENT_READONLY_PROGRAMS :: "string list" where
  "AGENT_READONLY_PROGRAMS =
     [''git'', ''gh'', ''find'', ''sed'', ''npm'', ''sort'', ''uniq'', ''cut'', ''tr'', ''comm'',
      ''echo'', ''printf'', ''codewhale'', ''codew'']"

definition AGENT_GIT_SUBCOMMANDS :: "string list" where
  "AGENT_GIT_SUBCOMMANDS = [''status'', ''log'', ''diff'', ''show'', ''ls-files'', ''blame'', ''grep'']"

text \<open>The rows of \<open>readonly_options_are_allowed\<close>: canonical command, index of its first argument,
  switches, options with a value. Rows that share a pattern are written out.\<close>

definition git_options :: "(string \<times> nat \<times> string \<times> string) list" where
  "git_options =
     [(''git status'', 2, ''-s --short -b --branch --ignored --porcelain'',
        ''--untracked-files''),
      (''git diff'', 2, ''--cached --staged --stat --numstat --shortstat --name-only --name-status --check ''
        @ ''--no-renames --color --no-color --word-diff'',
        ''-U --unified --diff-filter''),
      (''git log'', 2, ''--oneline --decorate --graph --stat --numstat --shortstat --name-only --name-status ''
        @ ''--no-patch --all --branches --tags --remotes --first-parent --reverse --color ''
        @ ''--no-color'',
        ''-n --max-count --since --until --author --grep''),
      (''git show'', 2, ''--stat --numstat --shortstat --name-only --name-status --no-patch -s --color ''
        @ ''--no-color'',
        ''-U --unified''),
      (''git ls-files'', 2, ''-c --cached -d --deleted -m --modified -o --others -i --ignored --stage --unmerged ''
        @ ''--killed --exclude-standard --deduplicate'',
        ''--exclude --exclude-from''),
      (''git blame'', 2, ''-w --line-porcelain --porcelain --show-stats --show-name --show-number --reverse ''
        @ ''--first-parent'',
        ''-L --since''),
      (''git grep'', 2, ''-n --line-number -i --ignore-case -I -l --files-with-matches -L ''
        @ ''--files-without-match -w --word-regexp -F --fixed-strings -E --extended-regexp ''
        @ ''--cached --untracked --exclude-standard'',
        ''-e --max-depth'')]"

definition program_options :: "(string \<times> nat \<times> string \<times> string) list" where
  "program_options =
     [(''ls'', 1, ''-a -A -l -la -al -h -lh -hl -lah -alh -R -d -1 --all --almost-all --long ''
        @ ''--human-readable --recursive --directory'',
        ''''),
      (''pwd'', 1, ''-L -P --logical --physical'',
        ''''),
      (''cat'', 1, ''-n -b -s -v -E -T --number --number-nonblank --squeeze-blank --show-ends --show-tabs'',
        ''''),
      (''head'', 1, ''-q -v --quiet --verbose'',
        ''-n --lines -c --bytes''),
      (''tail'', 1, ''-q -v --quiet --verbose'',
        ''-n --lines -c --bytes''),
      (''wc'', 1, ''-c -m -l -w -L --bytes --chars --lines --words --max-line-length'',
        ''''),
      (''which'', 1, ''-a --all'',
        ''''),
      (''stat'', 1, '''',
        ''''),
      (''file'', 1, ''-b --brief -L --dereference -h --no-dereference -i --mime --mime-type ''
        @ ''--mime-encoding'',
        ''''),
      (''du'', 1, ''-a -c -h -s --all --total --human-readable --summarize --apparent-size'',
        ''-d --max-depth''),
      (''df'', 1, ''-h -P -T -i --human-readable --portability --print-type --inodes'',
        ''''),
      (''grep'', 1, ''-n -i -v -E -F -w -x -l -L -c --line-number --ignore-case --invert-match ''
        @ ''--extended-regexp --fixed-strings --word-regexp --line-regexp --files-with-matches ''
        @ ''--files-without-match --count'',
        ''-m --max-count -A --after-context -B --before-context -C --context''),
      (''rg'', 1, ''-n --line-number -i --ignore-case -S --smart-case -F --fixed-strings -w ''
        @ ''--word-regexp -l --files-with-matches --hidden --no-ignore --no-heading --heading ''
        @ ''--stats --count --count-matches'',
        ''-g --glob -t --type -T --type-not -m --max-count -A --after-context -B ''
        @ ''--before-context -C --context --sort''),
      (''fd'', 1, ''-H --hidden -I --no-ignore -s --case-sensitive -i --ignore-case --strip-cwd-prefix'',
        ''-e --extension -t --type -d --max-depth -E --exclude'')]"

definition github_options :: "(string \<times> nat \<times> string \<times> string) list" where
  "github_options =
     [(''gh issue list'', 3, '''',
        ''--json --assignee --author --jq --label --limit --mention --milestone --search ''
        @ ''--state --template -R --repo''),
      (''gh issue status'', 3, '''',
        ''--json --jq --template -R --repo''),
      (''gh issue view'', 3, ''--comments'',
        ''--json --jq --template -R --repo''),
      (''gh pr view'', 3, ''--comments'',
        ''--json --jq --template -R --repo''),
      (''gh pr checks'', 3, ''--fail-fast --required'',
        ''--json --jq --template -R --repo''),
      (''gh pr diff'', 3, ''--name-only --patch'',
        ''--color -R --repo''),
      (''gh pr list'', 3, ''--draft'',
        ''--json --app --assignee --author --base --head --jq --label --limit --search ''
        @ ''--state --template -R --repo''),
      (''gh pr status'', 3, '''',
        ''--json --conflict-status --jq --template -R --repo''),
      (''gh release list'', 3, ''--exclude-drafts --exclude-pre-releases'',
        ''--json --jq --limit --order --template -R --repo''),
      (''gh release view'', 3, '''',
        ''--json --jq --template -R --repo''),
      (''gh repo view'', 3, '''',
        ''--json --branch --jq --template -R --repo''),
      (''gh run list'', 3, '''',
        ''--json --branch --commit --created --event --jq --limit --status --template --user ''
        @ ''--workflow -R --repo''),
      (''gh run view'', 3, ''--exit-status --log --log-failed --verbose'',
        ''--json --attempt --job --jq --template -R --repo''),
      (''gh workflow list'', 3, ''--all'',
        ''--json --jq --limit --template -R --repo''),
      (''gh workflow view'', 3, ''--yaml'',
        ''--ref -R --repo'')]"

definition readonly_option_row :: "string \<Rightarrow> (nat \<times> string \<times> string) option" where
  "readonly_option_row canonical = map_of (git_options @ program_options @ github_options) canonical"

section \<open>Options\<close>

fun split_ascii_from :: "string \<Rightarrow> string \<Rightarrow> string list" where
  "split_ascii_from acc [] = (if acc = [] then [] else [acc])"
| "split_ascii_from acc (c # cs) =
     (if is_ascii_space c then (if acc = [] then [] else [acc]) @ split_ascii_from [] cs
      else split_ascii_from (acc @ [c]) cs)"

definition split_ascii_whitespace :: "string \<Rightarrow> string list" where
  "split_ascii_whitespace s = split_ascii_from [] s"

definition is_numeric_count_shorthand :: "string \<Rightarrow> bool" where
  "is_numeric_count_shorthand token =
     (case strip_prefix token ''-'' of
        None \<Rightarrow> False
      | Some digits \<Rightarrow> digits \<noteq> [] \<and> list_all is_ascii_digit digits)"

text \<open>The loop of \<open>options_match_allowlist\<close>; \<open>options\<close> is False after \<open>--\<close>.\<close>

function allowlist_loop :: "string list \<Rightarrow> string list \<Rightarrow> bool \<Rightarrow> string list \<Rightarrow> bool" where
  "allowlist_loop switches values options [] = True"
| "allowlist_loop switches values options (token # rest) =
     (if options \<and> token = ''--'' then allowlist_loop switches values False rest
      else if options \<and> starts_with token ''-'' \<and> token \<noteq> ''-''
      then if token \<in> set switches then allowlist_loop switches values options rest
           else if is_numeric_count_shorthand token \<and> (''-n'' \<in> set values \<or> ''--lines'' \<in> set values)
           then allowlist_loop switches values options rest
           else if token \<in> set values
           then (case rest of
                   [] \<Rightarrow> False
                 | value # rest' \<Rightarrow>
                     \<not> starts_with value ''-'' \<and> allowlist_loop switches values options rest')
           else False
      else allowlist_loop switches values options rest)"
  by pat_completeness auto
termination
  by (relation "measure (\<lambda>(_, _, _, tokens). length tokens)") auto

definition options_match_allowlist :: "string list \<Rightarrow> string \<Rightarrow> string \<Rightarrow> bool" where
  "options_match_allowlist tokens switches values =
     allowlist_loop (split_ascii_whitespace switches) (split_ascii_whitespace values) True tokens"

section \<open>GitHub hosts\<close>

text \<open>The host a value names: of a URL, or of a path of at least three parts whose first has a dot
  or a colon.\<close>

definition explicit_host :: "string \<Rightarrow> string option" where
  "explicit_host value =
     (let value = trim value in
      case (case strip_prefix value ''https://'' of
              Some rest \<Rightarrow> Some rest | None \<Rightarrow> strip_prefix value ''http://'') of
        Some rest \<Rightarrow> Some (hd (split_char (CHR ''/'') rest))
      | None \<Rightarrow>
          (let parts = split_char (CHR ''/'') value; first = hd parts
           in if 2 \<le> length (tl parts) \<and> (CHR ''.'' \<in> set first \<or> CHR '':'' \<in> set first)
              then Some first else None))"

definition explicit_host_is_unsupported :: "string \<Rightarrow> bool" where
  "explicit_host_is_unsupported value =
     (case explicit_host value of
        Some host \<Rightarrow> \<not> eq_ignore_ascii_case host ''github.com'' | None \<Rightarrow> False)"

function github_command_targets_unsupported_host :: "string list \<Rightarrow> bool" where
  "github_command_targets_unsupported_host [] = False"
| "github_command_targets_unsupported_host (token # rest) =
     (if token = ''-R'' \<or> token = ''--repo''
      then (case rest of
              [] \<Rightarrow> True
            | value # rest' \<Rightarrow>
                explicit_host_is_unsupported value \<or> github_command_targets_unsupported_host rest')
      else (case strip_prefix token ''--repo='' of
              Some value \<Rightarrow> explicit_host_is_unsupported value | None \<Rightarrow> False)
           \<or> explicit_host_is_unsupported token
           \<or> github_command_targets_unsupported_host rest)"
  by pat_completeness auto
termination
  by (relation "measure length") auto

section \<open>One command\<close>

definition readonly_options_are_allowed :: "string \<Rightarrow> string list \<Rightarrow> bool" where
  "readonly_options_are_allowed canonical tokens =
     (case readonly_option_row canonical of
        None \<Rightarrow> False
      | Some (start, switches, values) \<Rightarrow>
          options_match_allowlist (drop start tokens) switches values
          \<and> (\<not> starts_with canonical ''gh '' \<or> \<not> github_command_targets_unsupported_host tokens))"

text \<open>\<open>a.get(index) == b.get(index)\<close>.\<close>

definition same_word :: "nat \<Rightarrow> string list \<Rightarrow> string list \<Rightarrow> bool" where
  "same_word index a b \<longleftrightarrow>
     (if index < length a then Some (a ! index) else None)
     = (if index < length b then Some (b ! index) else None)"

definition tokens_admitted :: "string list \<Rightarrow> bool" where
  "tokens_admitted tokens =
     (if primary_token_index tokens \<noteq> Some 0 then False
      else if is_codewhale_readonly_invocation tokens then True
      else let canonical = classify_command tokens;
               words = split_whitespace canonical;
               program = (case words of [] \<Rightarrow> None | w # _ \<Rightarrow> Some w)
           in if \<not> same_word 0 tokens words then False
              else if program = Some ''git'' \<and> \<not> same_word 1 tokens words then False
              else if program = Some ''gh'' \<and> \<not> (same_word 1 tokens words \<and> same_word 2 tokens words) then False
              else if \<not> readonly_options_are_allowed canonical tokens then False
              else canonical \<in> set (PARALLEL_READONLY_PREFIXES @ GITHUB_READONLY_PREFIXES))"

definition readonly_tokens_admitted ::
  "(string \<Rightarrow> string list option) \<Rightarrow> string \<Rightarrow> bool" where
  "readonly_tokens_admitted sx trimmed = tokens_admitted (shell_words sx trimmed)"

section \<open>Segments of the agent grammar\<close>

text \<open>The words after \<open>git\<close>, past the two global options that may precede the subcommand.\<close>

fun git_preamble :: "string list \<Rightarrow> string list" where
  "git_preamble (flag # rest) =
     (if flag = ''--no-pager'' then git_preamble rest
      else case rest of
             target # rest' \<Rightarrow> if flag = ''-C'' then git_preamble rest' else flag # rest
           | [] \<Rightarrow> [flag])"
| "git_preamble [] = []"

definition is_agent_readonly_git ::
  "(string \<Rightarrow> string list option) \<Rightarrow> string list \<Rightarrow> bool" where
  "is_agent_readonly_git sx tokens =
     (let rest = git_preamble (drop 1 tokens) in
      case rest of
        [] \<Rightarrow> False
      | subcommand # _ \<Rightarrow>
          if subcommand \<notin> set [''status'', ''log'', ''diff'', ''show'', ''ls-files'', ''blame'', ''grep'']
          then False
          else readonly_tokens_admitted sx (join '' '' (hd tokens # rest)))"

definition literal_word :: "string \<Rightarrow> bool" where
  "literal_word token \<longleftrightarrow> CHR ''*'' \<notin> set token \<and> \<not> starts_with token ''~''"

definition is_agent_readonly_literal_print :: "string list \<Rightarrow> bool" where
  "is_agent_readonly_literal_print tokens =
     (if hd tokens = ''echo'' then list_all literal_word (tl tokens)
      else (case tl tokens of format # _ \<Rightarrow> \<not> starts_with format ''-'' | [] \<Rightarrow> False)
           \<and> list_all literal_word (tl tokens))"

definition is_npm_metadata_command :: "string list \<Rightarrow> bool" where
  "is_npm_metadata_command tokens \<longleftrightarrow>
     1 < length tokens \<and> tokens ! 1 \<in> set [''view'', ''show'', ''info'']"

definition is_agent_readonly_cut :: "string list \<Rightarrow> bool" where
  "is_agent_readonly_cut tokens =
     agent_text_filter_options_match tokens
      [''-n'', ''-s'', ''-z'', ''--complement'', ''--only-delimited'', ''--zero-terminated'']
      [''-b'', ''--bytes'', ''-c'', ''--characters'', ''-d'', ''--delimiter'', ''-f'', ''--fields'',
       ''--output-delimiter''] None"

definition is_agent_readonly_tr :: "string list \<Rightarrow> bool" where
  "is_agent_readonly_tr tokens =
     agent_text_filter_options_match tokens
      [''-c'', ''-C'', ''-d'', ''-s'', ''-t'', ''--complement'', ''--delete'', ''--squeeze-repeats'',
       ''--truncate-set1''] [] (Some 2)"

definition is_agent_readonly_comm :: "string list \<Rightarrow> bool" where
  "is_agent_readonly_comm tokens =
     agent_text_filter_options_match tokens
      [''-1'', ''-2'', ''-3'', ''--check-order'', ''--nocheck-order'', ''--total'', ''--zero-terminated'']
      [''--output-delimiter''] (Some 2)"

definition is_agent_readonly_segment ::
  "(string \<Rightarrow> string list option) \<Rightarrow> string \<Rightarrow> bool" where
  "is_agent_readonly_segment sx segment =
     (let segment = trim segment; tokens = shell_words sx segment in
      if segment = [] then False
      else case tokens of
             [] \<Rightarrow> False
           | program # _ \<Rightarrow>
               if primary_token_index tokens \<noteq> Some 0 \<or> CHR ''='' \<in> set program then False
               else if program = ''git'' then is_agent_readonly_git sx tokens
               else if program = ''find'' then is_agent_readonly_find tokens
               else if program = ''sed'' then is_agent_readonly_sed tokens
               else if program = ''npm'' then False
               else if program = ''echo'' \<or> program = ''printf'' then is_agent_readonly_literal_print tokens
               else if program = ''sort'' then is_agent_readonly_sort tokens
               else if program = ''uniq'' then is_agent_readonly_uniq tokens
               else if program = ''cut'' then is_agent_readonly_cut tokens
               else if program = ''tr'' then is_agent_readonly_tr tokens
               else if program = ''comm'' then is_agent_readonly_comm tokens
               else readonly_tokens_admitted sx segment)"

end
