(* ===== verification/ReadonlyShell.thy ===== *)
theory ReadonlyShell
  imports ReadonlyWords
begin

text \<open>
  The entry points of the read-only shell grammar (\<open>crates/execpolicy/src/command_safety.rs\<close>): the
  parallel classifier, the verdict for read-only agents with its reasons, the leading \<open>cd\<close>, and
  the network reads of a command. \<open>sx\<close> stands for \<open>shlex::split\<close>.
\<close>

type_synonym splitter = "string \<Rightarrow> string list option"

section \<open>The parallel classifier\<close>

definition parallel_refused :: "char \<Rightarrow> bool" where
  "parallel_refused ch \<longleftrightarrow>
     ch \<in> set [CHR 0x0A, CHR 0x0D, CHR '';'', CHR ''&'', CHR ''|'', CHR ''>'', CHR ''<'', CHR 0x60, CHR ''$'',
       CHR ''*'', CHR ''?'', CHR ''['', CHR '']'', CHR ''{'', CHR ''}'', CHR ''('', CHR '')'']"

definition is_parallel_readonly_command :: "splitter \<Rightarrow> string \<Rightarrow> bool" where
  "is_parallel_readonly_command sx command =
     (let trimmed = trim (normalize_windows_command_paths command) in
      if trimmed = [] then False
      else if list_ex parallel_refused trimmed then False
      else readonly_tokens_admitted sx trimmed)"

section \<open>The verdict\<close>

text \<open>A text in backticks, as the reasons quote it.\<close>

definition ticked :: "string \<Rightarrow> string" where
  "ticked s = CHR 0x60 # s @ [CHR 0x60]"

definition option_rejection :: "string \<Rightarrow> string \<Rightarrow> ReadonlyRejection" where
  "option_rejection segment program =
     rejection ''option'' (ticked segment
       @ '' uses an option or operand outside the read-only grammar for '' @ ticked program)"

definition git_rejection :: "string \<Rightarrow> string list \<Rightarrow> ReadonlyRejection" where
  "git_rejection segment tokens =
     (case git_preamble (drop 1 tokens) of
        [] \<Rightarrow> rejection ''subcommand'' (ticked ''git'' @ '' needs a read-only subcommand'')
      | word # _ \<Rightarrow>
          if starts_with word ''-''
          then rejection ''option'' (''Git global option '' @ ticked word
                 @ '' is not admitted; only -C <dir> and --no-pager may precede the subcommand'')
          else if word \<notin> set AGENT_GIT_SUBCOMMANDS
          then rejection ''subcommand'' (ticked (''git '' @ word)
                 @ '' is not a read-only Git inspection; admitted: '' @ join '', '' AGENT_GIT_SUBCOMMANDS
                 @ ''. For branches or revisions use git status, git log or git show'')
          else option_rejection segment ''git'')"

definition github_rejection :: "string \<Rightarrow> string list \<Rightarrow> ReadonlyRejection" where
  "github_rejection segment tokens =
     (let canonical = ''gh '' @ join '' '' (take 2 (drop 1 tokens)) in
      if canonical \<in> set GITHUB_READONLY_PREFIXES then option_rejection segment ''gh''
      else rejection ''subcommand'' (ticked canonical
             @ '' is not a read-only GitHub CLI read; admitted: '' @ join '', '' GITHUB_READONLY_PREFIXES))"

definition first_words :: "string list \<Rightarrow> string list" where
  "first_words ps =
     List.map_filter (\<lambda>prefix. case split_whitespace prefix of [] \<Rightarrow> None | w # _ \<Rightarrow> Some w) ps"

definition program_known :: "string \<Rightarrow> bool" where
  "program_known program \<longleftrightarrow>
     program \<in> set AGENT_READONLY_PROGRAMS \<or> program \<in> set (first_words PARALLEL_READONLY_PREFIXES)"

definition program_rejection :: "string \<Rightarrow> string \<Rightarrow> string list \<Rightarrow> ReadonlyRejection" where
  "program_rejection segment program tokens =
     (if program = ''cd''
      then rejection ''cd'' (ticked ''cd'' @ '' is admitted only as the first command, written ''
             @ ticked ''cd <dir> && ...'' @ '', or as the tool'' @ [CHR 0x27] @ ''s '' @ ticked ''cwd''
             @ '' field where it has one'')
      else if program = ''git'' then git_rejection segment tokens
      else if program = ''gh'' then github_rejection segment tokens
      else if program = ''npm'' \<and> \<not> is_npm_metadata_command tokens
      then rejection ''subcommand'' (ticked ''npm'' @ '' commands require ordinary shell approval'')
      else if program = ''npm''
      then rejection ''program'' (ticked ''npm''
             @ '' metadata reads require ordinary shell approval: project/user configuration and ''
             @ ''environment can change the registry; read-only shell cannot establish the network destination'')
      else if program = ''echo'' \<or> program = ''printf''
      then rejection ''option'' (ticked program @ '' is admitted with literal text only: no '' @ ticked ''*''
             @ '', no leading '' @ ticked ''~'' @ '', and no printf options'')
      else if program_known program then option_rejection segment program
      else rejection ''program'' (ticked program
             @ '' is not a read-only inspection command; admitted programs: ''
             @ join '', '' (filter (\<lambda>name. name \<noteq> ''git'') (first_words PARALLEL_READONLY_PREFIXES))
             @ '', '' @ join '', '' AGENT_READONLY_PROGRAMS))"

definition agent_segment_verdict :: "splitter \<Rightarrow> string \<Rightarrow> ReadonlyRejection option" where
  "agent_segment_verdict sx segment =
     (let segment = trim segment; tokens = shell_words sx segment in
      case tokens of
        [] \<Rightarrow> Some (rejection ''operator'' ''an empty command next to a shell operator'')
      | program # _ \<Rightarrow>
          if primary_token_index tokens \<noteq> Some 0 \<or> CHR ''='' \<in> set program
          then Some (rejection ''env_prefix'' (ticked segment @ '' starts with an environment assignment or ''
                 @ ticked ''env'' @ ''; run the command itself''))
          else if is_agent_readonly_segment sx segment then None
          else Some (program_rejection segment program tokens))"

text \<open>The \<open>for\<close> loop with \<open>?\<close>: the first refusal.\<close>

fun first_rejection :: "splitter \<Rightarrow> ReadonlySegment list \<Rightarrow> ReadonlyRejection option" where
  "first_rejection sx [] = None"
| "first_rejection sx (segment # segments) =
     (case agent_segment_verdict sx (sg_command segment) of
        Some e \<Rightarrow> Some e | None \<Rightarrow> first_rejection sx segments)"

definition agent_readonly_verdict :: "splitter \<Rightarrow> string \<Rightarrow> ReadonlyRejection + ReadonlySegment list" where
  "agent_readonly_verdict sx command =
     (let trimmed = trim (normalize_windows_command_paths command) in
      if trimmed = [] then Inl (rejection ''program'' ''the command is empty'')
      else case lex_readonly_command sx trimmed of
             Inl e \<Rightarrow> Inl e
           | Inr segments \<Rightarrow>
               (case first_rejection sx segments of Some e \<Rightarrow> Inl e | None \<Rightarrow> Inr segments))"

definition is_agent_readonly_shell_command :: "splitter \<Rightarrow> string \<Rightarrow> bool" where
  "is_agent_readonly_shell_command sx command \<longleftrightarrow> \<not> isl (agent_readonly_verdict sx command)"

section \<open>The leading \<open>cd\<close>\<close>

definition split_leading_cd :: "splitter \<Rightarrow> string \<Rightarrow> (string \<times> string) option" where
  "split_leading_cd sx command =
     (let trimmed = trim_start (strip_verbatim command) in
      if \<not> starts_with trimmed ''cd'' then None
      else case lex_readonly_command sx trimmed of
             Inr (first # second # _) \<Rightarrow>
               if sg_join first \<noteq> Some And \<or> sg_redirects first \<noteq> [] then None
               else (case shell_words sx (normalize_windows_command_paths (sg_command first)) of
                       [program, dir] \<Rightarrow>
                         if program \<noteq> ''cd'' \<or> dir = [] \<or> starts_with dir ''-'' \<or> starts_with dir ''~'' then None
                         else let rest = trim (drop (sg_start second) trimmed)
                              in if rest = [] then None else Some (dir, rest)
                     | _ \<Rightarrow> None)
           | _ \<Rightarrow> None)"

text \<open>The rest after a leading \<open>cd\<close> is shorter: the second segment starts behind the operator.\<close>

lemma strip_front_length: "length (strip_front f s) \<le> length s"
  by (rule suffix_length_le [OF strip_front_suffix])

lemma trim_length: "length (trim s) \<le> length s"
proof -
  have "length (trim s) \<le> length (trim_start s)"
    unfolding trim_def trim_end_def length_rev
    using strip_front_length [of ws_len_rev "rev (trim_start s)"] by simp
  also have "\<dots> \<le> length s" unfolding trim_start_def by (rule strip_front_length)
  finally show ?thesis .
qed

lemma strip_verbatim_length: "length (strip_verbatim s) \<le> length s"
proof -
  have "length (replace_str p [] s) \<le> length s" for p :: string
  proof (induction p "[] :: string" s rule: replace_str.induct)
    case (2 p c cs)
    then show ?case by (auto intro: le_SucI order.trans [OF _ diff_le_self])
  qed simp
  then show ?thesis by (simp add: strip_verbatim_def)
qed

definition later_starts :: "RoLine \<Rightarrow> bool" where
  "later_starts st \<longleftrightarrow> (\<forall>s \<in> set (drop 1 (map sg_start (rl_segments st))). 0 < s)
     \<and> (rl_segments st \<noteq> [] \<longrightarrow> 0 < rl_start st)"

lemma later_starts_eq:
  "rl_segments st' = rl_segments st \<Longrightarrow> rl_start st' = rl_start st \<Longrightarrow> later_starts st' = later_starts st"
  by (simp add: later_starts_def)

lemma ro_push_later: "later_starts (ro_push cs st) = later_starts st"
  by (rule later_starts_eq) (simp_all add: ro_push_def)

lemma ro_arm_operator_later:
  assumes "later_starts st" and "ro_arm_operator at ch cs st = Inr (k, st')"
  shows "later_starts st'"
proof -
  obtain joined width where op: "ro_operator ch cs = Inr (joined, width)"
    and st': "st' = \<lparr>rl_segments = rl_segments st @ [ro_close (Some joined) st], rl_current = [],
        rl_redirects = [], rl_start = at + width, rl_word_start = 0\<rparr>"
    using assms(2) by (auto simp: ro_arm_operator_def split: sum.splits)
  from op have "0 < width" by (auto simp: ro_operator_def split: if_splits)
  then show ?thesis
    using assms(1) by (cases "rl_segments st") (auto simp: st' later_starts_def ro_close_def)
qed

lemma ro_arm_quoted_later:
  "later_starts st \<Longrightarrow> ro_arm_backslash cs st = Inr (k, st') \<Longrightarrow> later_starts st'"
  "later_starts st \<Longrightarrow> ro_arm_single cs st = Inr (k, st') \<Longrightarrow> later_starts st'"
  "later_starts st \<Longrightarrow> ro_arm_double cs st = Inr (k, st') \<Longrightarrow> later_starts st'"
  by (auto simp: ro_arm_backslash_def ro_arm_single_def ro_arm_double_def ro_push_later
      split: list.splits option.splits) (cases "ro_double cs"; auto simp: ro_push_later)

lemma ro_arm_redirect_later:
  "later_starts st \<Longrightarrow> ro_arm_redirect cs st = Inr (k, st') \<Longrightarrow> later_starts st'"
  by (auto simp: ro_arm_redirect_def later_starts_def split: option.splits if_splits)

lemma ro_arm_plain_later: "later_starts st \<Longrightarrow> ro_arm_plain ch cs st = (k, st') \<Longrightarrow> later_starts st'"
  by (auto simp: ro_arm_plain_def Let_def later_starts_def ro_push_def split: if_splits)

lemma ro_char_later:
  assumes "later_starts st" and "ro_char sx at st ch cs = Inr (k, st')"
  shows "later_starts st'"
  using assms(2)
  by (cases rule: ro_charE)
    (erule ro_arm_quoted_later [OF assms(1)] ro_arm_operator_later [OF assms(1)]
        ro_arm_redirect_later [OF assms(1)] ro_arm_plain_later [OF assms(1)])+

lemma ro_loop_later: "later_starts st \<Longrightarrow> ro_loop sx at st cs = Inr st' \<Longrightarrow> later_starts st'"
proof (induction sx at st cs rule: ro_loop.induct)
  case (2 sx at st ch cs)
  then show ?case
    by (auto simp: ro_loop_step split: sum.splits prod.splits dest: ro_char_later)
qed simp

lemma second_segment_start:
  assumes "lex_readonly_command sx command = Inr (first # second # rest)"
  shows "0 < sg_start second"
proof -
  obtain st where st: "ro_loop sx 0 ro_start command = Inr st"
    and segs: "rl_segments st @ [ro_close None st] = first # second # rest"
    using assms by (auto simp: lex_readonly_command_def Let_def split: if_splits sum.splits)
  have "later_starts ro_start" by (simp add: later_starts_def ro_start_def)
  then have "later_starts st" using st by (rule ro_loop_later)
  with segs show ?thesis
    by (cases "rl_segments st"; cases "drop 1 (rl_segments st)") (auto simp: later_starts_def ro_close_def)
qed

lemma split_leading_cd_shorter:
  assumes "split_leading_cd sx command = Some (dir, rest)"
  shows "length rest < length command"
proof -
  let ?t = "trim_start (strip_verbatim command)"
  from assms obtain first second more
    where l: "lex_readonly_command sx ?t = Inr (first # second # more)"
      and r: "rest = trim (drop (sg_start second) ?t)" and ne: "rest \<noteq> []"
    by (auto simp: split_leading_cd_def Let_def split: if_splits sum.splits list.splits)
  have "length rest \<le> length ?t - sg_start second" using trim_length [of "drop (sg_start second) ?t"] r by simp
  moreover have "0 < length rest" using ne by simp
  moreover have "length ?t \<le> length command"
    using strip_front_length strip_verbatim_length order.trans unfolding trim_start_def by blast
  ultimately show ?thesis using second_segment_start [OF l] by linarith
qed

section \<open>Network reads\<close>

datatype NetworkRead = GitHub | Npm

fun network_host :: "NetworkRead \<Rightarrow> string" where
  "network_host GitHub = ''api.github.com''"
| "network_host Npm = ''registry.npmjs.org''"

text \<open>The \<open>while let\<close> over leading \<open>cd\<close>s.\<close>

function strip_leading_cds :: "splitter \<Rightarrow> string \<Rightarrow> string" where
  "strip_leading_cds sx command =
     (case split_leading_cd sx command of
        Some (_, rest) \<Rightarrow> strip_leading_cds sx rest | None \<Rightarrow> command)"
  by pat_completeness auto
termination
  by (relation "measure (\<lambda>(_, command). length command)") (auto dest: split_leading_cd_shorter)

declare strip_leading_cds.simps [simp del]

text \<open>The loop over the segments; a segment that is refused makes the result empty.\<close>

fun network_reads :: "splitter \<Rightarrow> NetworkRead list \<Rightarrow> ReadonlySegment list \<Rightarrow> NetworkRead list" where
  "network_reads sx reads [] = reads"
| "network_reads sx reads (segment # segments) =
     (let tokens = shell_words sx (normalize_windows_command_paths (sg_command segment));
          program = (case tokens of [] \<Rightarrow> None | p # _ \<Rightarrow> Some p);
          add = (\<lambda>read. if read \<in> set reads then reads else reads @ [read])
      in if program = Some ''npm'' \<and> is_npm_metadata_command tokens
         then network_reads sx (add Npm) segments
         else if agent_segment_verdict sx (sg_command segment) \<noteq> None then []
         else if program = Some ''gh'' then network_reads sx (add GitHub) segments
         else network_reads sx reads segments)"

definition readonly_network_reads :: "splitter \<Rightarrow> string \<Rightarrow> NetworkRead list" where
  "readonly_network_reads sx command =
     (case lex_readonly_command sx (trim (normalize_windows_command_paths (strip_leading_cds sx command))) of
        Inl _ \<Rightarrow> []
      | Inr segments \<Rightarrow> network_reads sx [] segments)"

end
