(* ===== verification/ReadonlyProps.thy ===== *)
theory ReadonlyProps
  imports ReadonlySyntax ReadonlyShell
begin

text \<open>
  The guarantees of the read-only shell grammar, and where it falls short of them.
\<close>

section \<open>Options\<close>

text \<open>The words a program reads as options: those with a dash before a word \<open>--\<close>.\<close>

definition dash_words :: "string list \<Rightarrow> string list" where
  "dash_words args = filter (\<lambda>t. starts_with t ''-'' \<and> t \<noteq> ''-'') (takeWhile (\<lambda>t. t \<noteq> ''--'') args)"

lemma dash_words_Cons:
  "dash_words (t # ts) = (if t = ''--'' then [] else
     (if starts_with t ''-'' \<and> t \<noteq> ''-'' then [t] else []) @ dash_words ts)"
  by (simp add: dash_words_def)

definition option_listed :: "string list \<Rightarrow> string list \<Rightarrow> string \<Rightarrow> bool" where
  "option_listed switches vals t \<longleftrightarrow> t \<in> set switches \<or> t \<in> set vals
     \<or> is_numeric_count_shorthand t \<and> (''-n'' \<in> set vals \<or> ''--lines'' \<in> set vals)"

lemma allowlist_sound:
  "allowlist_loop switches vals options tokens \<Longrightarrow> options \<Longrightarrow>
     \<forall>t \<in> set (dash_words tokens). option_listed switches vals t"
proof (induction switches vals options tokens rule: allowlist_loop.induct)
  case (1 switches vals options)
  show ?case by (simp add: dash_words_def)
next
  case (2 switches vals options token rest)
  show ?case
  proof (cases "starts_with token ''-'' \<and> token \<noteq> ''-'' \<and> token \<noteq> ''--''")
    case True
    then show ?thesis
      using 2 by (auto simp: dash_words_Cons option_listed_def split: if_splits list.splits)
  next
    case False
    then show ?thesis using 2 by (auto simp: dash_words_Cons split: if_splits)
  qed
qed

lemma options_match_sound:
  "options_match_loop switches vals limit tokens options operands \<Longrightarrow> options \<Longrightarrow>
     \<forall>t \<in> set (dash_words tokens). t \<in> set switches \<or> t \<in> set vals"
proof (induction switches vals limit tokens options operands rule: options_match_loop.induct)
  case (1 switches vals limit options operands)
  show ?case by (simp add: dash_words_def)
next
  case (2 switches vals limit token rest options operands)
  show ?case
  proof (cases "starts_with token ''-'' \<and> token \<noteq> ''-'' \<and> token \<noteq> ''--''")
    case True
    then show ?thesis using 2 by (auto simp: dash_words_Cons split: if_splits list.splits)
  next
    case False
    then show ?thesis using 2 by (auto simp: dash_words_Cons split: if_splits)
  qed
qed

section \<open>The option table\<close>

text \<open>A row begins behind the words of its command, which are one, two for Git, three for \<open>gh\<close>.\<close>

definition row_ok :: "string \<times> nat \<times> string \<times> string \<Rightarrow> bool" where
  "row_ok row = (case row of (canonical, start, _) \<Rightarrow>
     let words = split_whitespace canonical in
     start = length words \<and> words \<noteq> [] \<and> program_known (hd words)
     \<and> (start = 1 \<or> start = 2 \<and> hd words = ''git'' \<or> start = 3 \<and> hd words = ''gh''))"

lemma git_rows: "list_all row_ok git_options" by code_simp
lemma program_rows: "list_all row_ok program_options" by code_simp
lemma github_rows: "list_all row_ok github_options" by code_simp

lemma readonly_option_row_ok:
  "readonly_option_row canonical = Some row \<Longrightarrow> row_ok (canonical, row)"
  using git_rows program_rows github_rows
  by (auto simp: readonly_option_row_def list_all_iff dest!: map_of_SomeD)

lemma same_words_take:
  assumes "\<And>i. i < length words \<Longrightarrow> same_word i tokens words"
  shows "take (length words) tokens = words"
proof (rule nth_equalityI)
  have i: "i < length tokens \<and> tokens ! i = words ! i" if "i < length words" for i
    using assms [OF that] that by (auto simp: same_word_def split: if_splits)
  show "length (take (length words) tokens) = length words"
    using i [of "length words - 1"] by (cases words) (auto simp: min_def)
  show "take (length words) tokens ! j = words ! j" if "j < length (take (length words) tokens)" for j
    using i that by simp
qed

text \<open>What the shared token decision admits: the literal words of a listed command, with listed
  options behind them.\<close>

definition listed_read :: "string list \<Rightarrow> bool" where
  "listed_read tokens \<longleftrightarrow> (\<exists>start switches vals. let canonical = classify_command tokens in
     canonical \<in> set (PARALLEL_READONLY_PREFIXES @ GITHUB_READONLY_PREFIXES)
     \<and> readonly_option_row canonical = Some (start, switches, vals)
     \<and> take start tokens = split_whitespace canonical
     \<and> (\<forall>t \<in> set (dash_words (drop start tokens)).
          option_listed (split_ascii_whitespace switches) (split_ascii_whitespace vals) t))"

lemma tokens_admitted_listed:
  assumes "tokens_admitted tokens" and "\<not> is_codewhale_readonly_invocation tokens"
  shows "listed_read tokens"
proof -
  let ?c = "classify_command tokens" and ?words = "split_whitespace (classify_command tokens)"
  have w0: "same_word 0 tokens ?words" and listed: "readonly_options_are_allowed ?c tokens"
    and c: "?c \<in> set (PARALLEL_READONLY_PREFIXES @ GITHUB_READONLY_PREFIXES)"
    using assms unfolding tokens_admitted_def Let_def by (simp_all del: set_append split: if_splits)
  have git: "?words \<noteq> [] \<Longrightarrow> hd ?words = ''git'' \<Longrightarrow> same_word 1 tokens ?words"
    and gh: "?words \<noteq> [] \<Longrightarrow> hd ?words = ''gh'' \<Longrightarrow> same_word 1 tokens ?words \<and> same_word 2 tokens ?words"
    using assms unfolding tokens_admitted_def Let_def
    by (cases ?words; simp del: set_append split: if_splits)+
  from listed obtain start switches vals where row: "readonly_option_row ?c = Some (start, switches, vals)"
    and opts: "options_match_allowlist (drop start tokens) switches vals"
    by (auto simp: readonly_options_are_allowed_def split: option.splits)
  have ok: "start = length ?words" "?words \<noteq> []"
      "start = 1 \<or> start = 2 \<and> hd ?words = ''git'' \<or> start = 3 \<and> hd ?words = ''gh''"
    using readonly_option_row_ok [OF row] unfolding row_ok_def Let_def prod.case by blast+
  have "same_word i tokens ?words" if "i < length ?words" for i
    using that w0 git gh ok by (cases "i = 0"; cases "i = 1"; cases "i = 2") auto
  then have "take start tokens = ?words" unfolding ok(1) by (rule same_words_take)
  moreover have "\<forall>t \<in> set (dash_words (drop start tokens)).
      option_listed (split_ascii_whitespace switches) (split_ascii_whitespace vals) t"
    using opts by (simp add: options_match_allowlist_def allowlist_sound)
  ultimately show ?thesis using row c unfolding listed_read_def Let_def by blast
qed

lemma listed_read_program:
  assumes "listed_read tokens"
  shows "tokens \<noteq> [] \<and> program_known (hd tokens)"
proof -
  let ?words = "split_whitespace (classify_command tokens)"
  obtain start switches vals where row: "readonly_option_row (classify_command tokens) = Some (start, switches, vals)"
    and t: "take start tokens = ?words"
    using assms by (auto simp: listed_read_def Let_def)
  have ok: "?words \<noteq> []" "program_known (hd ?words)"
    using readonly_option_row_ok [OF row] unfolding row_ok_def Let_def prod.case by blast+
  from t ok(1) have "tokens \<noteq> []" "hd tokens = hd ?words" by (metis take_Nil, metis hd_take take_eq_Nil not_gr_zero)
  with ok(2) show ?thesis by simp
qed

section \<open>Segments\<close>

lemma verdict_parts:
  assumes "agent_readonly_verdict sx command = Inr segments"
  shows "lex_readonly_command sx (trim (normalize_windows_command_paths command)) = Inr segments"
    and "\<And>segment. segment \<in> set segments \<Longrightarrow> agent_segment_verdict sx (sg_command segment) = None"
proof -
  have "first_rejection sx ss = None \<Longrightarrow> segment \<in> set ss \<Longrightarrow> agent_segment_verdict sx (sg_command segment) = None"
    for ss segment by (induction ss) (auto split: option.splits)
  then show "lex_readonly_command sx (trim (normalize_windows_command_paths command)) = Inr segments"
    "\<And>segment. segment \<in> set segments \<Longrightarrow> agent_segment_verdict sx (sg_command segment) = None"
    using assms by (auto simp: agent_readonly_verdict_def Let_def split: if_splits sum.splits option.splits)
qed

lemma admitted_segment:
  assumes "agent_readonly_verdict sx command = Inr segments" and "segment \<in> set segments"
  shows "is_agent_readonly_segment sx (trim (sg_command segment))"
  using verdict_parts(2) [OF assms]
  by (auto simp: agent_segment_verdict_def Let_def split: list.splits if_splits)

text \<open>What the dispatch on the program admits.\<close>

definition program_admits :: "splitter \<Rightarrow> string \<Rightarrow> string list \<Rightarrow> bool" where
  "program_admits sx program tokens =
     (if program = ''git'' then is_agent_readonly_git sx tokens
      else if program = ''find'' then is_agent_readonly_find tokens
      else if program = ''sed'' then is_agent_readonly_sed tokens
      else if program = ''npm'' then False
      else if program = ''echo'' \<or> program = ''printf'' then is_agent_readonly_literal_print tokens
      else if program = ''sort'' then is_agent_readonly_sort tokens
      else if program = ''uniq'' then is_agent_readonly_uniq tokens
      else if program = ''cut'' then is_agent_readonly_cut tokens
      else if program = ''tr'' then is_agent_readonly_tr tokens
      else if program = ''comm'' then is_agent_readonly_comm tokens
      else tokens_admitted tokens)"

text \<open>Trimming twice is trimming once.\<close>

lemma strip_front_stop: "f s = 0 \<Longrightarrow> strip_front f s = s"
  by (subst strip_front.simps) simp

lemma strip_front_idem: "strip_front f (strip_front f s) = strip_front f s"
  using strip_front_fixed [of f s] by (auto simp: strip_front_stop)

lemma ws_len_append_pos: "0 < ws_len t \<Longrightarrow> 0 < ws_len (t @ x)"
  by (cases t) (auto split: list.splits if_splits)

lemma trim_idem [simp]: "trim (trim s) = trim s"
proof -
  let ?t = "trim_start s"
  have "prefix (trim_end ?t) ?t"
    using strip_front_suffix [of ws_len_rev "rev ?t"] by (simp add: trim_end_def suffix_to_prefix)
  then obtain x where x: "?t = trim_end ?t @ x" by (auto simp: prefix_def)
  have "ws_len ?t = 0 \<or> ?t = []" unfolding trim_start_def by (rule strip_front_fixed)
  then have "ws_len (trim_end ?t) = 0"
    using x ws_len_append_pos [of "trim_end ?t" x] by (cases "?t = []") auto
  then have "trim_start (trim_end ?t) = trim_end ?t" by (simp add: trim_start_def strip_front_stop)
  moreover have "trim_end (trim_end ?t) = trim_end ?t" by (simp add: trim_end_def strip_front_idem)
  ultimately show ?thesis by (simp add: trim_def)
qed

lemma segment_program:
  assumes "is_agent_readonly_segment sx segment" and "trim segment = segment"
  obtains program args where "shell_words sx segment = program # args"
    and "primary_token_index (program # args) = Some 0" and "CHR ''='' \<notin> set program"
    and "program_admits sx program (program # args)"
  using assms
  by (cases "shell_words sx segment")
    (simp_all add: is_agent_readonly_segment_def Let_def program_admits_def readonly_tokens_admitted_def
      split: if_split_asm)

text \<open>The program of an admitted segment and what was decided about it.\<close>

lemma admitted_program:
  assumes "agent_readonly_verdict sx command = Inr segments" and "segment \<in> set segments"
  obtains program args where "shell_words sx (trim (sg_command segment)) = program # args"
    and "primary_token_index (program # args) = Some 0" and "CHR ''='' \<notin> set program"
    and "program_admits sx program (program # args)"
  using segment_program [OF admitted_segment [OF assms] trim_idem] by blast

lemma program_known_agent: "list_all program_known AGENT_READONLY_PROGRAMS"
  by (simp add: program_known_def list_all_iff)

lemma program_admits_known:
  assumes "program_admits sx program (program # args)"
  shows "program_known program \<and> program \<noteq> ''npm''"
proof (cases "program \<in> set AGENT_READONLY_PROGRAMS")
  case True
  then show ?thesis
    using assms program_known_agent by (auto simp: list_all_iff program_admits_def)
next
  case False
  then have t: "tokens_admitted (program # args)" and "program \<noteq> ''codewhale''" "program \<noteq> ''codew''" "program \<noteq> ''npm''"
    using assms by (auto simp: program_admits_def AGENT_READONLY_PROGRAMS_def)
  then have "listed_read (program # args)"
    by (intro tokens_admitted_listed) (auto simp: is_codewhale_readonly_invocation_def split: list.splits)
  then show ?thesis using listed_read_program \<open>program \<noteq> ''npm''\<close> by fastforce
qed

section \<open>Theorems\<close>

text \<open>A splitter for the witnesses: it agrees with \<open>shlex::split\<close> on text without quotes,
  backslashes and comments.\<close>

definition plain_split :: splitter where
  "plain_split s =
     (if list_ex (\<lambda>c. is_quote c \<or> c = CHR 0x5C \<or> c = CHR ''#'') s then None else Some (split_whitespace s))"



text \<open>The segments of an admitted command are its text: joined by their operators they give it
  back, and the recorded offset of each segment is where it begins, so the rest after a leading
  \<open>cd\<close> is exactly the text of the later segments.\<close>

theorem segments_reassemble:
  assumes "agent_readonly_verdict sx command = Inr segments" and "\<forall>s \<in> set segments. sg_redirects s = []"
  shows "concat (map (\<lambda>s. sg_command s @ (case sg_join s of Some j \<Rightarrow> join_as_str j | None \<Rightarrow> [])) segments)
      = trim (normalize_windows_command_paths command)
    \<and> (\<forall>i < length segments. drop (sg_start (segments ! i)) (trim (normalize_windows_command_paths command))
        = texts (drop i segments))"
  using lex_reassembles [OF verdict_parts(1) [OF assms(1)] assms(2)]
  by (simp add: texts_def segment_text_def [abs_def])

theorem segments_reassemble_witness:
  "concat (map (\<lambda>s. sg_command s @ (case sg_join s of Some j \<Rightarrow> join_as_str j | None \<Rightarrow> []))
      [\<lparr>sg_command = ''pwd '', sg_redirects = [], sg_join = Some And, sg_start = 0\<rparr>,
       \<lparr>sg_command = '' ls'', sg_redirects = [], sg_join = None, sg_start = 6\<rparr>])
      = trim (normalize_windows_command_paths ''pwd && ls'')"
proof -
  let ?segs = "[\<lparr>sg_command = ''pwd '', sg_redirects = [], sg_join = Some And, sg_start = 0\<rparr>,
       \<lparr>sg_command = '' ls'', sg_redirects = [], sg_join = None, sg_start = 6\<rparr>] :: ReadonlySegment list"
  have "agent_readonly_verdict plain_split ''pwd && ls'' = Inr ?segs" by code_simp
  moreover have "\<forall>s \<in> set ?segs. sg_redirects s = []" by simp
  ultimately show ?thesis by (rule segments_reassemble [THEN conjunct1])
qed

text \<open>The programs that the grammar judges by rules of their own.\<close>

definition own_rules :: "string list" where
  "own_rules = [''git'', ''find'', ''sed'', ''npm'', ''echo'', ''printf'', ''sort'', ''uniq'', ''cut'',
     ''tr'', ''comm'', ''codewhale'', ''codew'']"

lemma list_all_mem: "t \<in> set xs \<Longrightarrow> list_all P xs \<Longrightarrow> P t"
  by (simp add: list_all_iff)

definition writes_output :: "string \<Rightarrow> bool" where
  "writes_output t \<longleftrightarrow> starts_with t ''-o'' \<or> starts_with t ''--o'' \<or> starts_with t ''--compress'' \<or> starts_with t ''-T''"

lemma sort_options:
  assumes "is_agent_readonly_sort (program # args)" and "t \<in> set (dash_words args)"
  shows "\<not> writes_output t"
proof -
  note listed = options_match_sound [OF assms(1) [unfolded is_agent_readonly_sort_def
      agent_text_filter_options_match_def drop_Suc_Cons One_nat_def drop_0] TrueI, rule_format, OF assms(2)]
  show ?thesis
    using listed by (elim disjE; elim list_all_mem; code_simp)
qed

lemma program_admits_listed:
  assumes "program_admits sx program (program # args)" and "program \<notin> set own_rules"
  shows "listed_read (program # args)"
  using assms
  by (intro tokens_admitted_listed)
    (auto simp: program_admits_def own_rules_def is_codewhale_readonly_invocation_def split: list.splits)

text \<open>C8. Every command of an admitted composition is a read the grammar lists: its program is a
  literal word of the tables, never \<open>npm\<close> and never behind an environment assignment; a program
  without rules of its own shows the literal words of a listed command and, before \<open>--\<close>, only
  listed options; \<open>find\<close> has no primary that deletes, runs or writes; \<open>sort\<close> has no option that
  names an output file or a helper.\<close>

theorem admitted_segments_are_listed_reads:
  assumes "agent_readonly_verdict sx command = Inr segments" and "segment \<in> set segments"
    and "shell_words sx (trim (sg_command segment)) = program # args"
  shows "program_known program \<and> program \<noteq> ''npm''
    \<and> primary_token_index (program # args) = Some 0 \<and> CHR ''='' \<notin> set program
    \<and> (program \<notin> set own_rules \<longrightarrow> listed_read (program # args))
    \<and> (program = ''find'' \<longrightarrow> set args \<inter> set [''-delete'', ''-exec'', ''-execdir'', ''-ok'', ''-okdir'',
          ''-fprintf'', ''-fls'', ''-fprint'', ''-fprint0'', ''-truncate''] = {})
    \<and> (program = ''sort'' \<longrightarrow> (\<forall>t \<in> set (dash_words args). \<not> writes_output t))"
proof -
  have w: "primary_token_index (program # args) = Some 0" "CHR ''='' \<notin> set program"
    and p: "program_admits sx program (program # args)"
    using admitted_program [OF assms(1,2)] assms(3) by (metis list.inject)+
  have "program = ''find'' \<Longrightarrow> is_agent_readonly_find (program # args)"
    and s: "program = ''sort'' \<Longrightarrow> is_agent_readonly_sort (program # args)"
    using p by (simp_all add: program_admits_def)
  then have "program = ''find'' \<Longrightarrow> set args \<inter> set [''-delete'', ''-exec'', ''-execdir'', ''-ok'', ''-okdir'',
          ''-fprintf'', ''-fls'', ''-fprint'', ''-fprint0'', ''-truncate''] = {}"
    unfolding is_agent_readonly_find_def list_all_iff drop_Suc_Cons One_nat_def drop_0 by blast
  with w program_admits_known [OF p] program_admits_listed [OF p] sort_options [OF s]
  show ?thesis by blast
qed

theorem admitted_segments_are_listed_reads_witness:
  "listed_read [''head'', ''-n'', ''5'', ''a.txt'']"
proof -
  let ?seg = "\<lparr>sg_command = ''head -n 5 a.txt'', sg_redirects = [], sg_join = None, sg_start = 0\<rparr> :: ReadonlySegment"
  have "agent_readonly_verdict plain_split ''head -n 5 a.txt'' = Inr [?seg]" by code_simp
  moreover have "?seg \<in> set [?seg]" by simp
  moreover have "shell_words plain_split (trim (sg_command ?seg)) = ''head'' # [''-n'', ''5'', ''a.txt'']" by code_simp
  ultimately have "''head'' \<notin> set own_rules \<longrightarrow> listed_read [''head'', ''-n'', ''5'', ''a.txt'']"
    using admitted_segments_are_listed_reads by blast
  moreover have "''head'' \<notin> set own_rules" by code_simp
  ultimately show ?thesis by blast
qed

section \<open>Git\<close>

text \<open>The options of a Git read are listed as well, provided the splitter reads the joined words as
  the words they are: the source joins them with blanks and splits the text again.\<close>

theorem git_options_listed:
  assumes "is_agent_readonly_git sx (''git'' # args)" and "git_preamble args = subcommand # rest"
    and "sx (join '' '' (''git'' # subcommand # rest)) = Some (''git'' # subcommand # rest)"
  shows "subcommand \<in> set AGENT_GIT_SUBCOMMANDS \<and> listed_read (''git'' # subcommand # rest)"
proof -
  have t: "tokens_admitted (''git'' # subcommand # rest)"
    and "subcommand \<in> set [''status'', ''log'', ''diff'', ''show'', ''ls-files'', ''blame'', ''grep'']"
    using assms by (simp_all add: is_agent_readonly_git_def readonly_tokens_admitted_def shell_words_def
        del: list.set split: if_split_asm)
  moreover have "\<not> is_codewhale_readonly_invocation (''git'' # subcommand # rest)"
    by (simp add: is_codewhale_readonly_invocation_def split: list.splits)
  ultimately show ?thesis using tokens_admitted_listed unfolding AGENT_GIT_SUBCOMMANDS_def by blast
qed

section \<open>Network reads\<close>

definition segment_words :: "splitter \<Rightarrow> ReadonlySegment \<Rightarrow> string list" where
  "segment_words sx segment = shell_words sx (normalize_windows_command_paths (sg_command segment))"

lemma network_reads_admitted:
  assumes "\<forall>s \<in> set segments. agent_segment_verdict sx (sg_command s) = None
      \<and> (segment_words sx s \<noteq> [] \<longrightarrow> hd (segment_words sx s) \<noteq> ''npm'')"
  shows "set (network_reads sx reads segments) = set reads
      \<union> (if \<exists>s \<in> set segments. segment_words sx s \<noteq> [] \<and> hd (segment_words sx s) = ''gh'' then {GitHub} else {})"
  using assms
proof (induction segments arbitrary: reads)
  case (Cons segment segments)
  then have "agent_segment_verdict sx (sg_command segment) = None"
    and "segment_words sx segment \<noteq> [] \<Longrightarrow> hd (segment_words sx segment) \<noteq> ''npm''" by simp_all
  then show ?case
    using Cons by (cases "segment_words sx segment") (auto simp: Let_def segment_words_def)
qed simp

text \<open>For an admitted command the network guard sees exactly the reads that reach the network:
  GitHub when some segment runs \<open>gh\<close>, nothing otherwise, wherever the segment stands and however
  many \<open>cd\<close> prefixes come before. The splitter is assumed to read a segment alike with and without
  its surrounding white space.\<close>

theorem network_reads_exact:
  assumes "agent_readonly_verdict sx (strip_leading_cds sx command) = Inr segments"
    and "\<forall>s \<in> set segments. segment_words sx s = shell_words sx (trim (sg_command s))"
  shows "set (readonly_network_reads sx command) =
    (if \<exists>s \<in> set segments. hd (shell_words sx (trim (sg_command s))) = ''gh'' then {GitHub} else {})"
proof -
  have lex: "lex_readonly_command sx (trim (normalize_windows_command_paths (strip_leading_cds sx command))) = Inr segments"
    and ok: "\<And>s. s \<in> set segments \<Longrightarrow> agent_segment_verdict sx (sg_command s) = None"
    using verdict_parts [OF assms(1)] by blast+
  have words: "shell_words sx (trim (sg_command s)) \<noteq> [] \<and> hd (shell_words sx (trim (sg_command s))) \<noteq> ''npm''"
    if "s \<in> set segments" for s
    using admitted_program [OF assms(1) that] program_admits_known by (metis list.sel(1) list.distinct(1))
  have "set (network_reads sx [] segments) = set []
      \<union> (if \<exists>s \<in> set segments. segment_words sx s \<noteq> [] \<and> hd (segment_words sx s) = ''gh'' then {GitHub} else {})"
    by (rule network_reads_admitted) (use ok words assms(2) in auto)
  also have "\<dots> = (if \<exists>s \<in> set segments. hd (shell_words sx (trim (sg_command s))) = ''gh'' then {GitHub} else {})"
    using words assms(2) by auto
  finally show ?thesis using lex by (simp add: readonly_network_reads_def)
qed

theorem network_reads_exact_witness:
  "set (readonly_network_reads plain_split ''cd src && gh pr list | head'') = {GitHub}"
proof -
  let ?a = "\<lparr>sg_command = ''gh pr list '', sg_redirects = [], sg_join = Some Pipe, sg_start = 0\<rparr> :: ReadonlySegment"
  let ?b = "\<lparr>sg_command = '' head'', sg_redirects = [], sg_join = None, sg_start = 12\<rparr> :: ReadonlySegment"
  have cd: "split_leading_cd plain_split ''cd src && gh pr list | head'' = Some (''src'', ''gh pr list | head'')"
    and no: "split_leading_cd plain_split ''gh pr list | head'' = None" by code_simp+
  have "strip_leading_cds plain_split ''cd src && gh pr list | head'' = ''gh pr list | head''"
    by (simp add: strip_leading_cds.simps [of _ "''cd src && gh pr list | head''"]
        strip_leading_cds.simps [of _ "''gh pr list | head''"] cd no)
  moreover have "agent_readonly_verdict plain_split ''gh pr list | head'' = Inr [?a, ?b]" by code_simp
  ultimately have v: "agent_readonly_verdict plain_split
      (strip_leading_cds plain_split ''cd src && gh pr list | head'') = Inr [?a, ?b]" by simp
  have "segment_words plain_split ?a = shell_words plain_split (trim (sg_command ?a))"
    and "segment_words plain_split ?b = shell_words plain_split (trim (sg_command ?b))"
    and gh: "hd (shell_words plain_split (trim (sg_command ?a))) = ''gh''" by code_simp+
  then have "\<forall>s \<in> set [?a, ?b]. segment_words plain_split s = shell_words plain_split (trim (sg_command s))" by simp
  from network_reads_exact [OF v this] gh show ?thesis by simp
qed

lemma strip_leading_cds_length: "length (strip_leading_cds sx command) \<le> length command"
proof (induction sx command rule: strip_leading_cds.induct)
  case (1 sx command)
  show ?case
  proof (cases "split_leading_cd sx command")
    case None
    then show ?thesis by (simp add: strip_leading_cds.simps [of sx command])
  next
    case (Some split)
    obtain dir rest where split: "split = (dir, rest)" by fastforce
    with Some 1 have "length (strip_leading_cds sx rest) \<le> length rest" by blast
    also have "length rest < length command" using Some split split_leading_cd_shorter by blast
    finally show ?thesis using Some split by (simp add: strip_leading_cds.simps [of sx command])
  qed
qed

text \<open>Moving leading \<open>cd\<close>s into the working directory ends for every text, with a text that is no
  longer than the given one and has no such prefix left.\<close>

theorem leading_cds_removed:
  "split_leading_cd sx (strip_leading_cds sx command) = None
    \<and> length (strip_leading_cds sx command) \<le> length command"
proof -
  have "split_leading_cd sx (strip_leading_cds sx command) = None"
  proof (induction sx command rule: strip_leading_cds.induct)
    case (1 sx command)
    then show ?case
      by (cases "split_leading_cd sx command") (auto simp: strip_leading_cds.simps [of sx command])
  qed
  then show ?thesis using strip_leading_cds_length by blast
qed

end
