(* ===== verification/ReadonlyExec.thy ===== *)
theory ReadonlyExec
  imports ReadonlyShell
begin

text \<open>
  What the executor does with an admitted read-only command
  (\<open>crates/engine/src/tools/shell.rs\<close>): the argv or script it runs with the Git guards spliced in,
  the directories Git runs in, and the workspace check of the operands.

  Outside the model, as arguments: \<open>shlex::split\<close> (\<open>sx\<close>), \<open>split\<close> and \<open>quote\<close> of the crate
  \<open>shell_words\<close>, the search of the executable, and the file system with \<open>std::path\<close> as a record
  of functions. Of \<open>anyhow\<close> errors the text is kept; the refusals of the workspace check are a
  datatype with the rule each names.
\<close>

type_synonym argv_splitter = "string \<Rightarrow> string + string list"

section \<open>The argv of one read\<close>

definition REVIEW_DIFF_ARGS :: "string list" where
  "REVIEW_DIFF_ARGS = [''--no-ext-diff'', ''--no-textconv'', ''--submodule=short'', ''--ignore-submodules=dirty'']"

definition readonly_command_needs_shell :: "splitter \<Rightarrow> string \<Rightarrow> bool" where
  "readonly_command_needs_shell sx command =
     (case agent_readonly_verdict sx command of
        Inl _ \<Rightarrow> True
      | Inr segments \<Rightarrow> 1 < length segments \<or> list_ex (\<lambda>segment. sg_redirects segment \<noteq> []) segments)"

text \<open>The \<open>while let\<close> over the words after \<open>git\<close>: the index of the subcommand.\<close>

function git_subcommand_index :: "string list \<Rightarrow> nat \<Rightarrow> nat" where
  "git_subcommand_index argv index =
     (if length argv \<le> index then index
      else if argv ! index = ''--no-pager'' then git_subcommand_index argv (index + 1)
      else if argv ! index = ''-C'' then git_subcommand_index argv (index + 2)
      else index)"
  by pat_completeness auto
termination
  by (relation "measure (\<lambda>(argv, index). length argv - index)") auto

declare git_subcommand_index.simps [simp del]

text \<open>\<open>splice(at..at, words)\<close>.\<close>

definition insert_at :: "nat \<Rightarrow> 'a list \<Rightarrow> 'a list \<Rightarrow> 'a list" where
  "insert_at at words argv = take at argv @ words @ drop at argv"

text \<open>The guards a Git subcommand gets.\<close>

definition git_guards :: "string \<Rightarrow> string list option" where
  "git_guards subcommand =
     (if subcommand = ''diff'' then Some REVIEW_DIFF_ARGS
      else if subcommand = ''log'' \<or> subcommand = ''show'' then Some (REVIEW_DIFF_ARGS @ [''--no-show-signature''])
      else if subcommand = ''blame'' then Some [''--no-textconv'']
      else if subcommand = ''status'' \<or> subcommand = ''ls-files'' \<or> subcommand = ''grep'' then Some []
      else None)"

definition harden_git :: "string list \<Rightarrow> string + string list" where
  "harden_git argv =
     (let index = git_subcommand_index argv 1 in
      if length argv \<le> index
      then Inl ''classifier-approved Git read was missing its literal subcommand''
      else case git_guards (argv ! index) of
             None \<Rightarrow> Inl ''classifier-approved Git read did not keep its subcommand in argv[1]''
           | Some guards \<Rightarrow> Inr (insert_at (index + 1) guards argv))"

definition hardened_readonly_argv :: "argv_splitter \<Rightarrow> string \<Rightarrow> string + string \<times> string list" where
  "hardened_readonly_argv sw command =
     (case sw (normalize_windows_command_paths command) of
        Inl e \<Rightarrow> Inl (''could not parse classifier-approved read command: '' @ e)
      | Inr [] \<Rightarrow> Inl ''classifier-approved read command was empty''
      | Inr (program # args) \<Rightarrow>
          (case (if program = ''git'' then harden_git (program # args) else Inr (program # args)) of
             Inl e \<Rightarrow> Inl e
           | Inr argv \<Rightarrow> Inr (hd argv, tl argv)))"

section \<open>The script of a composition\<close>

text \<open>One segment: the resolved program and its words quoted, the redirects, the operator.\<close>

definition script_segment ::
  "argv_splitter \<Rightarrow> (string \<Rightarrow> string) \<Rightarrow> (string \<Rightarrow> string + string) \<Rightarrow> ReadonlySegment \<Rightarrow> string + string" where
  "script_segment sw quote resolve segment =
     (case hardened_readonly_argv sw (sg_command segment) of
        Inl e \<Rightarrow> Inl e
      | Inr (program, args) \<Rightarrow>
          (case resolve program of
             Inl e \<Rightarrow> Inl e
           | Inr path \<Rightarrow>
               Inr (concat (map (\<lambda>word. '' '' @ word)
                 (map quote (path # args) @ sg_redirects segment
                  @ (case sg_join segment of Some joined \<Rightarrow> [join_as_str joined] | None \<Rightarrow> []))))))"

fun script_segments ::
  "argv_splitter \<Rightarrow> (string \<Rightarrow> string) \<Rightarrow> (string \<Rightarrow> string + string) \<Rightarrow> string \<Rightarrow> ReadonlySegment list
   \<Rightarrow> string + string" where
  "script_segments sw quote resolve script [] = Inr script"
| "script_segments sw quote resolve script (segment # segments) =
     (case script_segment sw quote resolve segment of
        Inl e \<Rightarrow> Inl e
      | Inr part \<Rightarrow> script_segments sw quote resolve (script @ part) segments)"

definition hardened_readonly_script ::
  "bool \<Rightarrow> splitter \<Rightarrow> argv_splitter \<Rightarrow> (string \<Rightarrow> string) \<Rightarrow> (string \<Rightarrow> string + string) \<Rightarrow> string
   \<Rightarrow> string + string" where
  "hardened_readonly_script supported sx sw quote resolve command =
     (if \<not> supported
      then Inl ''read-only pipelines and chains require bash or zsh; run each read separately''
      else case agent_readonly_verdict sx command of
             Inl e \<Rightarrow> Inl (''command is outside the read-only policy: '' @ rejection_text e)
           | Inr segments \<Rightarrow> script_segments sw quote resolve ''set -o pipefail;'' segments)"

section \<open>The directories of Git\<close>

text \<open>The words after \<open>git\<close>, from \<open>dir\<close> on; \<open>path_join\<close> is \<open>Path::join\<close>.\<close>

fun git_dir :: "(string \<Rightarrow> string \<Rightarrow> string) \<Rightarrow> string \<Rightarrow> string list \<Rightarrow> string" where
  "git_dir path_join dir (flag # rest) =
     (if flag = ''--no-pager'' then git_dir path_join dir rest
      else if flag = ''-C''
      then (case rest of
              target # rest' \<Rightarrow> git_dir path_join (path_join dir target) rest'
            | [] \<Rightarrow> dir)
      else dir)"
| "git_dir path_join dir [] = dir"

definition readonly_git_dirs ::
  "splitter \<Rightarrow> argv_splitter \<Rightarrow> (string \<Rightarrow> string \<Rightarrow> string) \<Rightarrow> string \<Rightarrow> string \<Rightarrow> string list" where
  "readonly_git_dirs sx sw path_join command cwd =
     (let segments = (case agent_readonly_verdict sx command of
                        Inl _ \<Rightarrow> split_char (CHR ''|'') command
                      | Inr segments \<Rightarrow> map sg_command segments)
      in List.map_filter
           (\<lambda>segment. case sw (normalize_windows_command_paths segment) of
                Inr (program # args) \<Rightarrow> if program = ''git'' then Some (git_dir path_join cwd args) else None
              | _ \<Rightarrow> None) segments)"

section \<open>The workspace check\<close>

record ReadonlyFs =
  fs_canonicalize :: "string \<Rightarrow> string option"
  fs_exists :: "string \<Rightarrow> bool"
  fs_is_absolute :: "string \<Rightarrow> bool"
  fs_has_root :: "string \<Rightarrow> bool"
  fs_has_prefix :: "string \<Rightarrow> bool"
  fs_has_parent :: "string \<Rightarrow> bool"
  fs_join :: "string \<Rightarrow> string \<Rightarrow> string"
  fs_under :: "string \<Rightarrow> string \<Rightarrow> bool"

datatype OperandRefusal = ParseError string | WorkspaceUnresolved | CwdUnresolved | CwdOutside
  | AttachedPath string | Unresolved string | OutsideWorkspace string | Shape string

text \<open>The value a word carries: behind its first \<open>=\<close>, trimmed, without a verbatim prefix.\<close>

definition operand_value :: "string \<Rightarrow> string" where
  "operand_value token =
     (let value = trim (case split_once (CHR ''='') token of Some (_, value) \<Rightarrow> value | None \<Rightarrow> token) in
      case strip_prefix value [CHR 0x5C, CHR 0x5C, CHR ''?'', CHR 0x5C] of
        Some rest \<Rightarrow> rest
      | None \<Rightarrow> (case strip_prefix value [CHR 0x5C, CHR 0x5C, CHR ''.'', CHR 0x5C] of
                  Some rest \<Rightarrow> rest | None \<Rightarrow> value))"

definition windows_prefixed :: "ReadonlyFs \<Rightarrow> string \<Rightarrow> bool" where
  "windows_prefixed fs value \<longleftrightarrow>
     2 \<le> length value \<and> is_ascii_alphabetic (value ! 0) \<and> value ! 1 = CHR '':''
     \<or> starts_with value [CHR 0x5C, CHR 0x5C] \<or> fs_has_prefix fs value"

text \<open>A path must resolve, inside the workspace.\<close>

definition resolves_inside :: "ReadonlyFs \<Rightarrow> string \<Rightarrow> string \<Rightarrow> string \<Rightarrow> OperandRefusal option" where
  "resolves_inside fs workspace value path =
     (case fs_canonicalize fs path of
        None \<Rightarrow> Some (Unresolved value)
      | Some resolved \<Rightarrow> if fs_under fs resolved workspace then None else Some (OutsideWorkspace value))"

definition operand_refusal :: "ReadonlyFs \<Rightarrow> string \<Rightarrow> string \<Rightarrow> string \<Rightarrow> OperandRefusal option" where
  "operand_refusal fs workspace cwd token =
     (if starts_with token ''-'' \<and> (CHR ''/'' \<in> set token \<or> CHR 0x5C \<in> set token) then Some (AttachedPath token)
      else let value = operand_value token in
           if value = [] \<or> value = ''-'' then None
           else if fs_is_absolute fs value then resolves_inside fs workspace value value
           else if starts_with value ''~'' \<or> CHR 0x5C \<in> set value \<or> windows_prefixed fs value
                   \<or> fs_has_root fs value \<or> fs_has_parent fs value
           then Some (Shape value)
           else let joined = fs_join fs cwd value in
                if fs_exists fs joined then resolves_inside fs workspace value joined else None)"

fun operands_refusal :: "ReadonlyFs \<Rightarrow> string \<Rightarrow> string \<Rightarrow> string list \<Rightarrow> OperandRefusal option" where
  "operands_refusal fs workspace cwd [] = None"
| "operands_refusal fs workspace cwd (token # tokens) =
     (case operand_refusal fs workspace cwd token of
        Some e \<Rightarrow> Some e | None \<Rightarrow> operands_refusal fs workspace cwd tokens)"

definition enforce_readonly_segment_operands ::
  "ReadonlyFs \<Rightarrow> argv_splitter \<Rightarrow> string \<Rightarrow> string \<Rightarrow> string \<Rightarrow> OperandRefusal option" where
  "enforce_readonly_segment_operands fs sw command workspace cwd =
     (case sw (normalize_windows_command_paths command) of
        Inl e \<Rightarrow> Some (ParseError e)
      | Inr argv \<Rightarrow>
          if argv \<noteq> [] \<and> hd argv = ''gh'' then None
          else (case fs_canonicalize fs workspace of
                  None \<Rightarrow> Some WorkspaceUnresolved
                | Some workspace \<Rightarrow>
                    (case fs_canonicalize fs cwd of
                       None \<Rightarrow> Some CwdUnresolved
                     | Some cwd \<Rightarrow>
                         if \<not> fs_under fs cwd workspace then Some CwdOutside
                         else operands_refusal fs workspace cwd (drop 1 argv))))"

fun segments_refusal ::
  "ReadonlyFs \<Rightarrow> argv_splitter \<Rightarrow> string \<Rightarrow> string \<Rightarrow> string list \<Rightarrow> OperandRefusal option" where
  "segments_refusal fs sw workspace cwd [] = None"
| "segments_refusal fs sw workspace cwd (segment # segments) =
     (case enforce_readonly_segment_operands fs sw segment workspace cwd of
        Some e \<Rightarrow> Some e | None \<Rightarrow> segments_refusal fs sw workspace cwd segments)"

definition enforce_readonly_workspace_operands ::
  "ReadonlyFs \<Rightarrow> splitter \<Rightarrow> argv_splitter \<Rightarrow> string \<Rightarrow> string \<Rightarrow> string \<Rightarrow> OperandRefusal option" where
  "enforce_readonly_workspace_operands fs sx sw command workspace cwd =
     segments_refusal fs sw workspace cwd
       (case agent_readonly_verdict sx command of
          Inl _ \<Rightarrow> [command] | Inr segments \<Rightarrow> map sg_command segments)"

end
