(* ===== verification/ReadonlyExecProps.thy ===== *)
theory ReadonlyExecProps
  imports ReadonlyProps ReadonlyExec
begin

text \<open>
  What runs for an admitted read-only command: the shape of the script, the guards of Git, the
  operands the workspace check lets through, and the gap between the words that are judged and the
  words that run.
\<close>

section \<open>The script\<close>

definition OPERATORS :: "string list" where
  "OPERATORS = [''|'', ''&&'', ''||'', '';'']"

lemma join_as_str_operator: "join_as_str joined \<in> set OPERATORS"
  by (cases joined) (simp_all add: OPERATORS_def)

definition script_piece :: "(string \<Rightarrow> string) \<Rightarrow> string \<Rightarrow> bool" where
  "script_piece quote w \<longleftrightarrow> w \<in> range quote \<or> w \<in> set ADMITTED_REDIRECTS \<or> w \<in> set OPERATORS"

definition spaced :: "string list \<Rightarrow> string" where
  "spaced pieces = concat (map (\<lambda>w. '' '' @ w) pieces)"

lemma script_segment_pieces:
  assumes "script_segment sw quote resolve segment = Inr part"
    and "set (sg_redirects segment) \<subseteq> set ADMITTED_REDIRECTS"
  shows "\<exists>pieces. part = spaced pieces \<and> (\<forall>w \<in> set pieces. script_piece quote w)"
proof -
  obtain path args where "part = spaced (map quote (path # args) @ sg_redirects segment
      @ (case sg_join segment of Some joined \<Rightarrow> [join_as_str joined] | None \<Rightarrow> []))"
    using assms(1) by (auto simp: script_segment_def spaced_def split: sum.splits prod.splits)
  moreover have "\<forall>w \<in> set (map quote (path # args) @ sg_redirects segment
      @ (case sg_join segment of Some joined \<Rightarrow> [join_as_str joined] | None \<Rightarrow> [])). script_piece quote w"
    using assms(2) join_as_str_operator by (auto simp: script_piece_def split: option.splits)
  ultimately show ?thesis by blast
qed

lemma script_segments_pieces:
  assumes "script_segments sw quote resolve script segments = Inr result"
    and "\<And>s. s \<in> set segments \<Longrightarrow> set (sg_redirects s) \<subseteq> set ADMITTED_REDIRECTS"
  shows "\<exists>pieces. result = script @ spaced pieces \<and> (\<forall>w \<in> set pieces. script_piece quote w)"
  using assms
proof (induction segments arbitrary: script)
  case Nil
  then show ?case by (intro exI [of _ "[]"]) (simp add: spaced_def)
next
  case (Cons s segments)
  then obtain part where part: "script_segment sw quote resolve s = Inr part"
    and rest: "script_segments sw quote resolve (script @ part) segments = Inr result"
    by (auto split: sum.splits)
  obtain ps where ps: "part = spaced ps" "\<forall>w \<in> set ps. script_piece quote w"
    using script_segment_pieces [OF part] Cons.prems(2) by auto
  obtain qs where qs: "result = (script @ part) @ spaced qs" "\<forall>w \<in> set qs. script_piece quote w"
    using Cons.IH [OF rest] Cons.prems(2) by auto
  show ?case
    by (rule exI [of _ "ps @ qs"]) (use ps qs in \<open>auto simp: spaced_def\<close>)
qed

text \<open>The script of a composition holds no other shell syntax than the admitted one: behind
  \<open>set -o pipefail;\<close> every piece is a quoted word, one of the three admitted redirects or one of
  the four operators.\<close>

theorem readonly_script_syntax:
  assumes "hardened_readonly_script supported sx sw quote resolve command = Inr script"
  shows "\<exists>pieces. script = ''set -o pipefail;'' @ concat (map (\<lambda>w. '' '' @ w) pieces)
    \<and> (\<forall>w \<in> set pieces. w \<in> range quote \<or> w \<in> set [''2>&1'', ''2>/dev/null'', ''>/dev/null'']
         \<or> w \<in> set [''|'', ''&&'', ''||'', '';''])"
proof -
  obtain segments where v: "agent_readonly_verdict sx command = Inr segments"
    and s: "script_segments sw quote resolve ''set -o pipefail;'' segments = Inr script"
    using assms by (auto simp: hardened_readonly_script_def split: if_splits sum.splits)
  from script_segments_pieces [OF s] lex_redirects [OF verdict_parts(1) [OF v]]
  show ?thesis by (simp add: spaced_def script_piece_def ADMITTED_REDIRECTS_def OPERATORS_def)
qed

text \<open>An argv splitter and a quote for the witnesses.\<close>

definition plain_argv :: argv_splitter where "plain_argv s = Inr (split_whitespace s)"

definition single_quote :: "string \<Rightarrow> string" where "single_quote s = CHR 0x27 # s @ [CHR 0x27]"

definition in_bin :: "string \<Rightarrow> string + string" where "in_bin program = Inr (''/bin/'' @ program)"

theorem readonly_script_syntax_witness:
  "\<exists>pieces. ''set -o pipefail; '' @ single_quote ''/bin/ls'' @ '' 2>/dev/null | '' @ single_quote ''/bin/wc''
      = ''set -o pipefail;'' @ concat (map (\<lambda>w. '' '' @ w) pieces)
    \<and> (\<forall>w \<in> set pieces. w \<in> range single_quote \<or> w \<in> set [''2>&1'', ''2>/dev/null'', ''>/dev/null'']
         \<or> w \<in> set [''|'', ''&&'', ''||'', '';''])"
proof -
  have "hardened_readonly_script True plain_split plain_argv single_quote in_bin ''ls 2>/dev/null | wc'' =
    Inr (''set -o pipefail; '' @ single_quote ''/bin/ls'' @ '' 2>/dev/null | '' @ single_quote ''/bin/wc'')"
    by code_simp
  then show ?thesis by (rule readonly_script_syntax)
qed

section \<open>Git guards\<close>

text \<open>The global options that may stand before the subcommand.\<close>

fun git_globals :: "string list \<Rightarrow> bool" where
  "git_globals [] = True"
| "git_globals (flag # rest) =
     (if flag = ''--no-pager'' then git_globals rest
      else flag = ''-C'' \<and> rest \<noteq> [] \<and> git_globals (drop 1 rest))"

lemma git_index_pager:
  "git_subcommand_index (front @ ''--no-pager'' # others) (length front)
    = git_subcommand_index (front @ ''--no-pager'' # others) (Suc (length front))"
  by (subst git_subcommand_index.simps) simp

lemma git_index_dir:
  "git_subcommand_index (front @ ''-C'' # target # others) (length front)
    = git_subcommand_index (front @ ''-C'' # target # others) (Suc (Suc (length front)))"
  by (subst git_subcommand_index.simps) simp

lemma git_index_stop:
  "flag \<noteq> ''--no-pager'' \<Longrightarrow> flag \<noteq> ''-C'' \<Longrightarrow> git_subcommand_index (front @ flag # others) (length front) = length front"
  by (subst git_subcommand_index.simps) simp

lemma git_preamble_split:
  assumes "git_preamble args = subcommand # rest" and "subcommand \<noteq> ''-C''"
  shows "\<exists>pre. args = pre @ subcommand # rest \<and> git_globals pre
    \<and> (\<forall>front. git_subcommand_index (front @ args) (length front) = length front + length pre)"
  using assms
proof (induction args rule: git_preamble.induct)
  case (1 flag others)
  consider (pager) "flag = ''--no-pager''" | (dir) target others' where "flag = ''-C''" "others = target # others'"
    | (stop) "flag \<noteq> ''--no-pager''" "flag \<noteq> ''-C''" | (last) "flag = ''-C''" "others = []"
    by (cases others) blast+
  then show ?case
  proof cases
    case pager
    then obtain pre where pre: "others = pre @ subcommand # rest" "git_globals pre"
      and idx: "\<And>front. git_subcommand_index (front @ others) (length front) = length front + length pre"
      using 1 by auto
    have "git_subcommand_index (front @ flag # others) (length front) = length front + length (flag # pre)" for front
      using idx [of "front @ [flag]"] pager by (simp add: git_index_pager)
    with pre pager show ?thesis by (intro exI [of _ "flag # pre"]) simp
  next
    case dir
    then obtain pre where pre: "others' = pre @ subcommand # rest" "git_globals pre"
      and idx: "\<And>front. git_subcommand_index (front @ others') (length front) = length front + length pre"
      using 1 by auto
    have "git_subcommand_index (front @ flag # others) (length front) = length front + length (flag # target # pre)" for front
      using idx [of "front @ [flag, target]"] dir by (simp add: git_index_dir)
    with pre dir show ?thesis by (intro exI [of _ "flag # target # pre"]) simp
  next
    case stop
    then have "git_preamble (flag # others) = flag # others" by (simp split: list.splits)
    then have "subcommand = flag" "rest = others" using "1.prems" by simp_all
    moreover have "git_subcommand_index (front @ flag # others) (length front) = length front" for front
      using stop by (rule git_index_stop)
    ultimately show ?thesis by (intro exI [of _ "[]"]) simp
  next
    case last
    with 1 show ?thesis by simp
  qed
qed simp

lemma git_guards_some: "subcommand \<in> set AGENT_GIT_SUBCOMMANDS \<Longrightarrow> \<exists>guards. git_guards subcommand = Some guards"
  by (auto simp: AGENT_GIT_SUBCOMMANDS_def git_guards_def)

lemma harden_git_at:
  assumes "git_preamble args = subcommand # rest" and "git_guards subcommand = Some guards"
  shows "\<exists>pre. args = pre @ subcommand # rest \<and> git_globals pre
    \<and> harden_git (''git'' # args) = Inr (''git'' # pre @ subcommand # guards @ rest)"
proof -
  have "subcommand \<noteq> ''-C''" using assms(2) by (auto simp: git_guards_def)
  with git_preamble_split [OF assms(1)] obtain pre where pre: "args = pre @ subcommand # rest" "git_globals pre"
    and idx: "git_subcommand_index ([''git''] @ args) (length [''git'']) = length [''git''] + length pre"
    by blast
  then have i: "git_subcommand_index (''git'' # args) (Suc 0) = Suc (length pre)" by simp
  have "harden_git (''git'' # args) = Inr (''git'' # pre @ subcommand # guards @ rest)"
    using assms(2) pre(1) by (simp add: harden_git_def i [unfolded pre(1)] Let_def insert_at_def)
  with pre show ?thesis by blast
qed



section \<open>Operands\<close>

definition operand_inside :: "ReadonlyFs \<Rightarrow> string \<Rightarrow> string \<Rightarrow> string \<Rightarrow> bool" where
  "operand_inside fs root dir v \<longleftrightarrow>
     (if fs_is_absolute fs v then \<exists>p. fs_canonicalize fs v = Some p \<and> fs_under fs p root
      else \<not> starts_with v ''~'' \<and> CHR 0x5C \<notin> set v \<and> \<not> fs_has_root fs v \<and> \<not> fs_has_parent fs v
        \<and> (fs_exists fs (fs_join fs dir v)
            \<longrightarrow> (\<exists>p. fs_canonicalize fs (fs_join fs dir v) = Some p \<and> fs_under fs p root)))"

lemma operand_accepted:
  assumes "operand_refusal fs root dir token = None"
  shows "\<not> (starts_with token ''-'' \<and> (CHR ''/'' \<in> set token \<or> CHR 0x5C \<in> set token))
    \<and> (operand_value token \<in> {[], ''-''} \<or> operand_inside fs root dir (operand_value token))"
  using assms
  by (auto simp: operand_refusal_def Let_def operand_inside_def resolves_inside_def
      split: if_splits option.splits)

lemma operands_accepted:
  "operands_refusal fs root dir tokens = None \<Longrightarrow> token \<in> set tokens \<Longrightarrow> operand_refusal fs root dir token = None"
  by (induction tokens) (auto split: option.splits)

lemma segments_accepted:
  "segments_refusal fs sw workspace cwd segments = None \<Longrightarrow> segment \<in> set segments \<Longrightarrow>
     enforce_readonly_segment_operands fs sw segment workspace cwd = None"
  by (induction segments) (auto split: option.splits)


text \<open>A file system with one workspace \<open>/w\<close>, whose paths are canonical as they are.\<close>

definition one_workspace :: ReadonlyFs where
  "one_workspace = \<lparr>fs_canonicalize = Some, fs_exists = (\<lambda>p. p = ''/w/a.txt''),
     fs_is_absolute = (\<lambda>p. starts_with p ''/''), fs_has_root = (\<lambda>p. starts_with p ''/''),
     fs_has_prefix = (\<lambda>p. False), fs_has_parent = (\<lambda>p. ''..'' \<in> set (split_char (CHR ''/'') p)),
     fs_join = (\<lambda>d p. d @ ''/'' @ p), fs_under = (\<lambda>p d. starts_with p d)\<rparr>"


section \<open>The words that are judged and the words that run\<close>

definition hidden_output :: string where
  "hidden_output = ''git log --author '' @ [CHR 0x27] @ ''x #'' @ [CHR 0x27] @ '' --output=victim.txt''"

definition hidden_words :: "string list" where
  "hidden_words = [''git'', ''log'', ''--author'', ''x #'', ''--output=victim.txt'']"

text \<open>The Git branch judges its words after joining them with blanks and splitting them again, so
  a quoted \<open>#\<close> comments out what follows it: a log with an \<open>--output\<close> file behind it is admitted as a
  single plain read, and the executor runs it with that option. The hypotheses are what
  \<open>shlex::split\<close> and \<open>shell_words::split\<close> document: quotes delimit a word, \<open>#\<close> opens a comment at
  the start of a word.\<close>

theorem git_rejoin_admits_output:
  assumes "sx hidden_output = Some hidden_words"
    and "sx (join '' '' hidden_words) = Some [''git'', ''log'', ''--author'', ''x'']"
    and "sw hidden_output = Inr hidden_words"
  shows "agent_readonly_verdict sx hidden_output
      = Inr [\<lparr>sg_command = hidden_output, sg_redirects = [], sg_join = None, sg_start = 0\<rparr>]
    \<and> \<not> readonly_command_needs_shell sx hidden_output
    \<and> hardened_readonly_argv sw hidden_output = Inr (''git'', [''log'', ''--no-ext-diff'', ''--no-textconv'',
        ''--submodule=short'', ''--ignore-submodules=dirty'', ''--no-show-signature'', ''--author'', ''x #'',
        ''--output=victim.txt''])
    \<and> \<not> tokens_admitted hidden_words"
proof -
  have norm: "trim (normalize_windows_command_paths hidden_output) = hidden_output"
    "normalize_windows_command_paths hidden_output = hidden_output" "trim hidden_output = hidden_output"
    "hidden_output \<noteq> []" by code_simp+
  have lex: "lex_readonly_command sx hidden_output
      = Inr [\<lparr>sg_command = hidden_output, sg_redirects = [], sg_join = None, sg_start = 0\<rparr>]" by code_simp
  have t: "tokens_admitted [''git'', ''log'', ''--author'', ''x'']" "\<not> tokens_admitted hidden_words"
    "primary_token_index hidden_words = Some 0" "git_preamble (drop 1 hidden_words) = drop 1 hidden_words"
    by code_simp+
  have git: "is_agent_readonly_git sx hidden_words"
    using t(1,4) assms(2)
    by (simp add: is_agent_readonly_git_def readonly_tokens_admitted_def shell_words_def hidden_words_def)
  have words: "shell_words sx hidden_output = hidden_words" by (simp add: shell_words_def assms(1))
  have hd: "hidden_words = ''git'' # drop 1 hidden_words" by (simp add: hidden_words_def)
  have seg: "is_agent_readonly_segment sx hidden_output"
    using git t(3) hd by (simp add: is_agent_readonly_segment_def norm words Let_def hidden_words_def)
  then have verdict: "agent_segment_verdict sx hidden_output = None"
    using t(3) by (simp add: agent_segment_verdict_def norm words Let_def hidden_words_def)
  have v: "agent_readonly_verdict sx hidden_output
      = Inr [\<lparr>sg_command = hidden_output, sg_redirects = [], sg_join = None, sg_start = 0\<rparr>]"
    using lex verdict by (simp add: agent_readonly_verdict_def norm Let_def)
  have "harden_git hidden_words = Inr (''git'' # [''log'', ''--no-ext-diff'', ''--no-textconv'',
      ''--submodule=short'', ''--ignore-submodules=dirty'', ''--no-show-signature'', ''--author'', ''x #'',
      ''--output=victim.txt''])" by code_simp
  then have "hardened_readonly_argv sw hidden_output = Inr (''git'', [''log'', ''--no-ext-diff'', ''--no-textconv'',
      ''--submodule=short'', ''--ignore-submodules=dirty'', ''--no-show-signature'', ''--author'', ''x #'',
      ''--output=victim.txt''])"
    by (simp add: hardened_readonly_argv_def norm assms(3) hidden_words_def)
  with v t(2) show ?thesis by (simp add: readonly_command_needs_shell_def)
qed

text \<open>A splitter that reads the two texts as documented.\<close>

definition quoting_split :: splitter where
  "quoting_split s = (if s = hidden_output then Some hidden_words
     else if s = join '' '' hidden_words then Some [''git'', ''log'', ''--author'', ''x'']
     else plain_split s)"

theorem git_rejoin_admits_output_witness:
  "is_agent_readonly_shell_command quoting_split hidden_output"
proof -
  have "quoting_split hidden_output = Some hidden_words"
    and "quoting_split (join '' '' hidden_words) = Some [''git'', ''log'', ''--author'', ''x'']" by code_simp+
  then show ?thesis
    using git_rejoin_admits_output [of quoting_split "\<lambda>s. Inr hidden_words"]
    by (simp add: is_agent_readonly_shell_command_def)
qed

text \<open>The host test of \<open>gh\<close> does not see the scp-like spelling of a repository.\<close>

lemma scp_host_not_seen:
  "github_command_targets_unsupported_host [''gh'', ''pr'', ''view'', ''-R'', ''ghes.example/o/r'']
   \<and> \<not> github_command_targets_unsupported_host [''gh'', ''pr'', ''view'', ''-R'', ''git@ghes.example:o/r'']
   \<and> tokens_admitted [''gh'', ''pr'', ''view'', ''-R'', ''git@ghes.example:o/r'']"
  by code_simp

end
