(* ===== verification/TomlRules.thy ===== *)
theory TomlRules
  imports SafetyProps CommandArity BTreeMap
begin

text \<open>
  The rules of \<open>execpolicy.toml\<close> (\<open>crates/execpolicy/src/toml_rules.rs\<close>) and the whole-command
  patterns they use (\<open>crates/execpolicy/src/matcher.rs\<close>).

  The crate \<open>regex\<close> is an argument: \<open>rx_escape\<close> is \<open>regex::escape\<close>, \<open>rx_is_match\<close> compiles a pattern
  and matches a text (\<open>None\<close> when it does not compile), \<open>rx_captures\<close> gives for each match of
  the heredoc pattern in a line its whole text and its first name. The cache of compiled patterns
  changes no result. TOML parsing and the file system are outside.
\<close>

record Regex =
  rx_escape :: "string \<Rightarrow> string"
  rx_is_match :: "string \<Rightarrow> string \<Rightarrow> bool option"
  rx_captures :: "string \<Rightarrow> (string \<times> string option) list"

section \<open>Patterns\<close>

definition compiled_glob :: "Regex \<Rightarrow> string \<Rightarrow> string" where
  "compiled_glob rx pattern =
     ''^'' @ replace_str [CHR 0x5C, CHR ''*''] ''.*'' (rx_escape rx pattern) @ ''$''"

definition HERESTRING_PLACEHOLDER :: string where
  "HERESTRING_PLACEHOLDER = CHR 0x01 # ''HERESTRING'' @ [CHR 0x01]"

text \<open>One line: without its heredoc operators, and the last delimiter.\<close>

definition redact_line :: "Regex \<Rightarrow> string \<Rightarrow> string" where
  "redact_line rx line =
     join '' '' (split_whitespace (fold (\<lambda>(whole, _) redacted. replace_str whole [] redacted) (rx_captures rx line) line))"

definition line_delimiter :: "Regex \<Rightarrow> string \<Rightarrow> string option" where
  "line_delimiter rx line = (if rx_captures rx line = [] then None else snd (List.last (rx_captures rx line)))"

function strip_lines :: "Regex \<Rightarrow> string list \<Rightarrow> string" where
  "strip_lines rx [] = []"
| "strip_lines rx (line # rest) =
     redact_line rx line @ [CHR 0x0A]
     @ strip_lines rx (case line_delimiter rx line of
           Some d \<Rightarrow> drop 1 (dropWhile (\<lambda>body. trim body \<noteq> d) rest) | None \<Rightarrow> rest)"
  by pat_completeness auto
termination
  by (relation "measure (\<lambda>(_, lines). length lines)")
    (auto split: option.split intro: le_imp_less_Suc diff_le_self le_trans [OF diff_le_self length_dropWhile_le])

definition strip_heredoc_bodies :: "Regex \<Rightarrow> string \<Rightarrow> string" where
  "strip_heredoc_bodies rx command =
     (if \<not> contains command ''<<'' then command
      else replace_str HERESTRING_PLACEHOLDER ''<<<''
             (strip_lines rx (lines (replace_str ''<<<'' HERESTRING_PLACEHOLDER command))))"

definition pattern_text :: "Regex \<Rightarrow> (string \<Rightarrow> string list option) \<Rightarrow> string \<Rightarrow> string" where
  "pattern_text rx sx command =
     (let stripped = strip_heredoc_bodies rx command in
      case sx stripped of
        Some tokens \<Rightarrow> join '' '' tokens
      | None \<Rightarrow> join '' '' (split_whitespace stripped))"

definition pattern_matches :: "Regex \<Rightarrow> (string \<Rightarrow> string list option) \<Rightarrow> string \<Rightarrow> string \<Rightarrow> bool" where
  "pattern_matches rx sx pattern command =
     (let pattern = pattern_text rx sx pattern; command = pattern_text rx sx command in
      if pattern = ''*'' then True
      else case rx_is_match rx (compiled_glob rx pattern) command of Some b \<Rightarrow> b | None \<Rightarrow> False)"

section \<open>Rules\<close>

datatype RuleDecision = Allow | Deny string | AskUser string

record RuleSet =
  rs_allow :: "string list"
  rs_deny :: "string list"

type_synonym ExecPolicyConfig = "(string, RuleSet) btree"

definition deny_pattern_hits :: "Regex \<Rightarrow> Host \<Rightarrow> string list \<Rightarrow> string \<Rightarrow> bool" where
  "deny_pattern_hits rx host targets pattern =
     list_ex (\<lambda>target. denied_prefix_matches (host_windows host) pattern target
       \<or> pattern_matches rx (host_shlex host) pattern target) targets"

text \<open>The deny loop: the first group and pattern that hit.\<close>

fun first_denial :: "(string \<Rightarrow> bool) \<Rightarrow> ExecPolicyConfig \<Rightarrow> (string \<times> string) option" where
  "first_denial hits [] = None"
| "first_denial hits ((name, rules) # config) =
     (case List.find hits (rs_deny rules) of
        Some pattern \<Rightarrow> Some (name, pattern) | None \<Rightarrow> first_denial hits config)"

definition evaluate :: "Regex \<Rightarrow> Host \<Rightarrow> ExecPolicyConfig \<Rightarrow> string \<Rightarrow> RuleDecision" where
  "evaluate rx host config command =
     (let expansion = expand_command (host_windows host) (host_shlex host) command;
          prefix_eligible = prefix_grant_is_eligible host command expansion;
          deny_targets = ex_commands expansion
      in if ex_dynamic expansion \<and> list_ex (\<lambda>entry. rs_deny (snd entry) \<noteq> []) config
         then Deny ''execpolicy: command word cannot be resolved statically while deny rules are in force''
         else case first_denial (deny_pattern_hits rx host deny_targets) config of
                Some (name, pattern) \<Rightarrow> Deny (''execpolicy denied by '' @ name @ '': '' @ pattern)
              | None \<Rightarrow>
                  if \<not> prefix_eligible
                  then AskUser ''execpolicy: command syntax or arguments require an exact approval''
                  else if list_ex (\<lambda>entry. list_ex (\<lambda>pattern. prefix_allow_matches pattern command
                            \<or> pattern_matches rx (host_shlex host) pattern command) (rs_allow (snd entry))) config
                  then Allow
                  else AskUser ''execpolicy: no matching allow rule'')"

section \<open>Lemmas\<close>

lemma first_denial_None:
  "first_denial hits config = None \<longleftrightarrow> (\<forall>(name, rules) \<in> set config. \<forall>pattern \<in> set (rs_deny rules). \<not> hits pattern)"
  by (induction hits config rule: first_denial.induct) (auto simp: find_None_iff split: option.splits dest!: list_find_Some_in)

lemma evaluate_denies:
  assumes "(name, rules) \<in> set config" and "pattern \<in> set (rs_deny rules)"
    and "ex_dynamic (expand_command (host_windows host) (host_shlex host) command)
      \<or> deny_pattern_hits rx host (ex_commands (expand_command (host_windows host) (host_shlex host) command)) pattern"
  shows "\<exists>reason. evaluate rx host config command = Deny reason"
proof -
  let ?ex = "expand_command (host_windows host) (host_shlex host) command"
  have deny: "list_ex (\<lambda>entry. rs_deny (snd entry) \<noteq> []) config"
    using assms(1,2) by (force simp: list_ex_iff)
  show ?thesis
  proof (cases "ex_dynamic ?ex")
    case True
    with deny show ?thesis by (simp add: evaluate_def Let_def)
  next
    case False
    then have "first_denial (deny_pattern_hits rx host (ex_commands ?ex)) config \<noteq> None"
      using assms by (auto simp: first_denial_None)
    with False show ?thesis by (auto simp: evaluate_def Let_def)
  qed
qed

section \<open>Theorems\<close>

text \<open>No nesting shields a denied command from the rule file: when a deny pattern of any group
  matches, as a prefix, a command that the text runs by the parser's reading, in a chain, a
  substitution, a wrapper or a nested shell at any depth, the verdict is a denial, whatever the
  allow patterns say.\<close>

theorem toml_nested_denied:
  assumes "(name, rules) \<in> set config" and "pattern \<in> set (rs_deny rules)"
    and "runs_text literal (host_shlex host) command l" and "literal \<longrightarrow> host_windows host"
    and "joined_words (ln_words l) \<noteq> []"
    and "denied_prefix_matches (host_windows host) pattern (joined_words (ln_words l))"
  shows "\<exists>reason. evaluate rx host config command = Deny reason"
proof -
  let ?ex = "expand_command (host_windows host) (host_shlex host) command"
  have "ex_dynamic ?ex \<or> deny_pattern_hits rx host (ex_commands ?ex) pattern"
    using run_command_emitted [OF assms(3,4,5)] assms(6) by (auto simp: deny_pattern_hits_def list_ex_iff)
  with assms(1,2) show ?thesis by (rule evaluate_denies)
qed

text \<open>A regex for the witnesses: no wildcard, no heredoc.\<close>

definition literal_regex :: Regex where
  "literal_regex = \<lparr>rx_escape = id, rx_is_match = (\<lambda>re s. Some (re = ''^'' @ s @ ''$'')), rx_captures = (\<lambda>_. [])\<rparr>"

definition unquoting_host :: Host where
  "unquoting_host = ascii_host\<lparr>host_shlex := \<lambda>_. None\<rparr>"

theorem toml_nested_denied_witness:
  "\<exists>reason. evaluate literal_regex unquoting_host
     [(''danger'', \<lparr>rs_allow = [''echo *''], rs_deny = [''rm -rf'']\<rparr>)] ''echo $(ls; rm -rf /)'' = Deny reason"
proof -
  let ?us = "[[Bare ''rm''], [Bare ''-rf''], [Bare ''/'']]"
  let ?rules = "\<lparr>rs_allow = [''echo *''], rs_deny = [''rm -rf'']\<rparr>"
  have c: "command_ok [[Bare ''echo'']]" "chain_ok demo_body" "region_plain (chain_text demo_body)"
    "(?us, []) \<in> set demo_body"
    by code_simp+
  have t: "command_text [[Bare ''echo'']] @ '' $('' @ chain_text demo_body @ '')'' = ''echo $(ls; rm -rf /)''"
    by code_simp
  have runs: "runs_text False (host_shlex unquoting_host) ''echo $(ls; rm -rf /)'' (command_line ?us)"
    using substitution_runs [OF c, of False "\<lambda>_. None"] unfolding t by (simp add: unquoting_host_def)
  have "(''danger'', ?rules) \<in> set [(''danger'', ?rules)]" "''rm -rf'' \<in> set (rs_deny ?rules)"
    "joined_words (ln_words (command_line ?us)) \<noteq> []"
    "denied_prefix_matches (host_windows unquoting_host) ''rm -rf'' (joined_words (ln_words (command_line ?us)))"
    by code_simp+
  from toml_nested_denied [OF this(1,2) runs _ this(3,4)] show ?thesis by simp
qed

text \<open>The rule file allows only one plain command that nothing denies: behind an \<open>Allow\<close> the text
  has no control operator, redirection, substitution, nested shell or word known only at run time;
  an allow pattern matches it as written; and no deny pattern of any group matches a command it
  runs.\<close>

theorem toml_allow_is_plain:
  assumes "evaluate rx host config command = Allow"
  shows "let ex = expand_command (host_windows host) (host_shlex host) command in
    \<not> ex_control ex \<and> \<not> ex_redirects ex \<and> \<not> ex_nested ex \<and> \<not> ex_dynamic ex \<and> \<not> ex_arguments_dynamic ex
    \<and> (\<exists>entry \<in> set config. \<exists>pattern \<in> set (rs_allow (snd entry)).
         prefix_allow_matches pattern command \<or> pattern_matches rx (host_shlex host) pattern command)
    \<and> (\<forall>entry \<in> set config. \<forall>pattern \<in> set (rs_deny (snd entry)). \<forall>target \<in> set (ex_commands ex).
         \<not> denied_prefix_matches (host_windows host) pattern target
         \<and> \<not> pattern_matches rx (host_shlex host) pattern target)"
proof -
  let ?ex = "expand_command (host_windows host) (host_shlex host) command"
  have simple: "prefix_grant_is_eligible host command ?ex"
    and none: "first_denial (deny_pattern_hits rx host (ex_commands ?ex)) config = None"
    and allow: "list_ex (\<lambda>entry. list_ex (\<lambda>pattern. prefix_allow_matches pattern command
        \<or> pattern_matches rx (host_shlex host) pattern command) (rs_allow (snd entry))) config"
    using assms by (auto simp: evaluate_def Let_def split: if_splits option.splits)
  have "\<not> deny_pattern_hits rx host (ex_commands ?ex) pattern"
    if "entry \<in> set config" "pattern \<in> set (rs_deny (snd entry))" for entry pattern
    using none that by (force simp: first_denial_None)
  then have "\<forall>entry \<in> set config. \<forall>pattern \<in> set (rs_deny (snd entry)). \<forall>target \<in> set (ex_commands ?ex).
         \<not> denied_prefix_matches (host_windows host) pattern target
         \<and> \<not> pattern_matches rx (host_shlex host) pattern target"
    by (auto simp: deny_pattern_hits_def list_ex_iff)
  with eligible_is_simple [OF simple] allow show ?thesis by (simp add: Let_def list_ex_iff)
qed

theorem toml_allow_is_plain_witness:
  "\<not> ex_control (expand_command (host_windows ascii_host) (host_shlex ascii_host) ''git status -s'')"
proof -
  have "evaluate literal_regex ascii_host
      [(''git'', \<lparr>rs_allow = [''git status''], rs_deny = [''git push'']\<rparr>)] ''git status -s'' = Allow" by code_simp
  from toml_allow_is_plain [OF this] show ?thesis by (simp add: Let_def)
qed

text \<open>The matcher of allow patterns alone covers a chain; the eligibility test in front of it is what
  keeps the rule file from allowing one.\<close>

lemma prefix_allow_covers_chain: "prefix_allow_matches ''git status'' ''git status && rm -rf /''"
  by code_simp

end
