(* ===== verification/NetPolicy.thy ===== *)
theory NetPolicy
  imports Decimal
begin

text \<open>
  The per-domain network policy (\<open>crates/net/src/network_policy.rs\<close>): host matching, the layered
  policy, the session cache and the decider that combines them.

  \<open>Decision\<close> and its wire form \<open>DecisionToml\<close> have the same cases and are one type. The cache is
  behind an \<open>Arc<Mutex<..>>\<close> that a refreshed decider shares; it is a state component of its own,
  passed to and returned by the operations. The audit log is the list of the records written, oldest
  first; time stamps and the file are outside. An IPv4 address is its \<open>u32\<close>, an IPv6 address its
  \<open>u128\<close>.
\<close>

unbundle bit_operations_syntax

section \<open>Decisions and policies\<close>

datatype Decision = Allow | Deny | Prompt

fun decision_as_str :: "Decision \<Rightarrow> string" where
  "decision_as_str Allow = ''Allow''"
| "decision_as_str Deny = ''Deny''"
| "decision_as_str Prompt = ''Prompt''"

definition decision_parse :: "string \<Rightarrow> Decision" where
  "decision_parse s =
     (let v = to_ascii_lowercase (trim s) in
      if v = ''allow'' then Allow else if v = ''deny'' \<or> v = ''block'' then Deny else Prompt)"

record NetworkPolicy =
  np_default :: Decision
  np_allow :: "string list"
  np_deny :: "string list"
  np_proxy :: "string list"
  np_proxy_fake_ip_cidrs :: "string list"
  np_audit :: bool

definition network_policy_default :: NetworkPolicy where
  "network_policy_default = \<lparr>np_default = Prompt, np_allow = [], np_deny = [], np_proxy = [],
     np_proxy_fake_ip_cidrs = [], np_audit = True\<rparr>"

fun decision_rank :: "Decision \<Rightarrow> nat" where
  "decision_rank Deny = 0"
| "decision_rank Prompt = 1"
| "decision_rank Allow = 2"

definition stricter_decision :: "Decision \<Rightarrow> Decision \<Rightarrow> Decision" where
  "stricter_decision left right = (if decision_rank left \<le> decision_rank right then left else right)"

section \<open>Hosts\<close>

definition normalize_host :: "string \<Rightarrow> string" where
  "normalize_host host =
     (let trimmed = to_ascii_lowercase (rev (dropWhile (\<lambda>c. c = CHR ''.'') (rev (trim host))))
      in case strip_prefix trimmed ''*.'' of Some rest \<Rightarrow> CHR ''.'' # rest | None \<Rightarrow> trimmed)"

definition host_matches :: "string \<Rightarrow> string \<Rightarrow> bool" where
  "host_matches entry normalized_host =
     (let entry_norm = normalize_host entry in
      case strip_prefix entry_norm ''.'' of
        Some rest \<Rightarrow> rest \<noteq> [] \<and> ends_with normalized_host (CHR ''.'' # rest)
      | None \<Rightarrow> entry_norm = normalized_host)"

definition decide :: "NetworkPolicy \<Rightarrow> string \<Rightarrow> Decision" where
  "decide policy host =
     (let normalized = normalize_host host in
      if normalized = [] then np_default policy
      else if list_ex (\<lambda>entry. host_matches entry normalized) (np_deny policy) then Deny
      else if list_ex (\<lambda>entry. host_matches entry normalized) (np_allow policy) then Allow
      else np_default policy)"

definition add_allow :: "string \<Rightarrow> NetworkPolicy \<Rightarrow> NetworkPolicy" where
  "add_allow host policy =
     (let normalized = normalize_host host in
      if normalized = [] then policy
      else if list_ex (\<lambda>existing. normalize_host existing = normalized) (np_allow policy) then policy
      else policy\<lparr>np_allow := np_allow policy @ [normalized]\<rparr>)"

definition trusts_proxy_fakeip_host :: "NetworkPolicy \<Rightarrow> string \<Rightarrow> bool" where
  "trusts_proxy_fakeip_host policy host =
     (let normalized = normalize_host host in
      if normalized = [] then False
      else if list_ex (\<lambda>entry. host_matches entry normalized) (np_deny policy) then False
      else list_ex (\<lambda>entry. host_matches entry normalized) (np_proxy policy))"

section \<open>Layers\<close>

definition union_entries :: "string list \<Rightarrow> string list \<Rightarrow> string list" where
  "union_entries base extra = fold (\<lambda>entry base. if entry \<in> set base then base else base @ [entry]) extra base"

definition folded_with_lower_layer :: "NetworkPolicy \<Rightarrow> NetworkPolicy \<Rightarrow> NetworkPolicy" where
  "folded_with_lower_layer policy lower =
     (let deny_by_default = (np_default policy = Deny) in
      \<lparr>np_default = stricter_decision (np_default policy) (np_default lower),
       np_allow = (if deny_by_default then np_allow policy else union_entries (np_allow policy) (np_allow lower)),
       np_deny = union_entries (np_deny policy) (np_deny lower),
       np_proxy = (if deny_by_default then np_proxy policy else union_entries (np_proxy policy) (np_proxy lower)),
       np_proxy_fake_ip_cidrs = (if deny_by_default then np_proxy_fake_ip_cidrs policy
         else union_entries (np_proxy_fake_ip_cidrs policy) (np_proxy_fake_ip_cidrs lower)),
       np_audit = np_audit policy \<or> np_audit lower\<rparr>)"

section \<open>Fake-IP ranges\<close>

definition parse_u8 :: "string \<Rightarrow> u8 option" where
  "parse_u8 s = map_option word_of_nat (parse_unsigned 256 s)"

text \<open>One number of \<open>Ipv4Addr::from_str\<close>, which admits no sign, no leading zero and at most three digits.\<close>

definition parse_octet :: "string \<Rightarrow> u32 option" where
  "parse_octet s =
     (if s \<noteq> [] \<and> length s \<le> 3 \<and> list_all is_ascii_digit s \<and> (hd s = CHR ''0'' \<longrightarrow> length s = 1)
         \<and> decimal_value s < 256
      then Some (word_of_nat (decimal_value s)) else None)"

definition ipv4_of_octets :: "u32 \<Rightarrow> u32 \<Rightarrow> u32 \<Rightarrow> u32 \<Rightarrow> u32" where
  "ipv4_of_octets a b c d = ((a * 256 + b) * 256 + c) * 256 + d"

definition parse_ipv4 :: "string \<Rightarrow> u32 option" where
  "parse_ipv4 s =
     (case map parse_octet (split_char (CHR ''.'') s) of
        [Some a, Some b, Some c, Some d] \<Rightarrow> Some (ipv4_of_octets a b c d)
      | _ \<Rightarrow> None)"

text \<open>The octets of an address, the most significant first.\<close>

definition octet :: "nat \<Rightarrow> u32 \<Rightarrow> u8" where
  "octet i ip = ucast (drop_bit (24 - 8 * i) ip)"

definition parse_ipv4_cidr :: "string \<Rightarrow> (u32 \<times> u8) option" where
  "parse_ipv4_cidr cidr =
     (case split_once (CHR ''/'') cidr of
        None \<Rightarrow> None
      | Some (addr, len) \<Rightarrow>
          (case (parse_ipv4 (trim addr), parse_u8 (trim len)) of
             (Some base, Some len) \<Rightarrow> if 32 < len then None else Some (base, len)
           | _ \<Rightarrow> None))"

definition parse_trusted_fakeip_cidr :: "string \<Rightarrow> (u32 \<times> u8) option" where
  "parse_trusted_fakeip_cidr cidr =
     (case parse_ipv4_cidr cidr of
        None \<Rightarrow> None
      | Some (base, len) \<Rightarrow>
          if 15 \<le> len \<and> octet 0 base = 198 \<and> (octet 1 base = 18 \<or> octet 1 base = 19)
          then Some (base, len) else None)"

definition ipv4_in_cidr :: "u32 \<Rightarrow> u32 \<Rightarrow> u8 \<Rightarrow> bool" where
  "ipv4_in_cidr ip base len =
     (if len = 0 then True
      else let mask = push_bit (unat (32 - len)) (- 1 :: u32) in ip AND mask = base AND mask)"

section \<open>Session cache\<close>

record NetworkSessionCache =
  nc_approved :: "string set"
  nc_denied :: "string set"

definition empty_cache :: NetworkSessionCache where
  "empty_cache = \<lparr>nc_approved = {}, nc_denied = {}\<rparr>"

definition cache_approve :: "string \<Rightarrow> NetworkSessionCache \<Rightarrow> NetworkSessionCache" where
  "cache_approve host cache =
     (let normalized = normalize_host host in
      \<lparr>nc_approved = insert normalized (nc_approved cache), nc_denied = nc_denied cache - {normalized}\<rparr>)"

definition cache_deny :: "string \<Rightarrow> NetworkSessionCache \<Rightarrow> NetworkSessionCache" where
  "cache_deny host cache =
     (let normalized = normalize_host host in
      \<lparr>nc_approved = nc_approved cache - {normalized}, nc_denied = insert normalized (nc_denied cache)\<rparr>)"

definition cache_is_approved :: "string \<Rightarrow> NetworkSessionCache \<Rightarrow> bool" where
  "cache_is_approved host cache \<longleftrightarrow> normalize_host host \<in> nc_approved cache"

definition cache_is_denied :: "string \<Rightarrow> NetworkSessionCache \<Rightarrow> bool" where
  "cache_is_denied host cache \<longleftrightarrow> normalize_host host \<in> nc_denied cache"

section \<open>The decider\<close>

record Decider =
  nd_policy :: NetworkPolicy
  nd_auditor :: "bool option"
  nd_trusted_fakeip_cidrs :: "(u32 \<times> u8) list"
  nd_authoritative :: bool

text \<open>The shared state of a session: the cache and the audit log.\<close>

record NetSession =
  ns_cache :: NetworkSessionCache
  ns_log :: "(string \<times> string \<times> string) list"

definition fakeip_cidrs :: "NetworkPolicy \<Rightarrow> (u32 \<times> u8) list" where
  "fakeip_cidrs policy = List.map_filter parse_trusted_fakeip_cidr (np_proxy_fake_ip_cidrs policy)"

definition decider_new :: "NetworkPolicy \<Rightarrow> bool option \<Rightarrow> Decider" where
  "decider_new policy auditor =
     \<lparr>nd_policy = policy, nd_auditor = auditor, nd_trusted_fakeip_cidrs = fakeip_cidrs policy,
      nd_authoritative = False\<rparr>"

definition with_authoritative :: "Decider \<Rightarrow> Decider" where
  "with_authoritative d = d\<lparr>nd_authoritative := True\<rparr>"

definition with_trusted_fakeip_cidrs :: "string list \<Rightarrow> Decider \<Rightarrow> Decider" where
  "with_trusted_fakeip_cidrs cidrs d =
     d\<lparr>nd_trusted_fakeip_cidrs := nd_trusted_fakeip_cidrs d @ List.map_filter parse_trusted_fakeip_cidr cidrs\<rparr>"

text \<open>\<open>default_path\<close> gives an auditor exactly when a home resolves.\<close>

definition with_default_audit :: "bool \<Rightarrow> NetworkPolicy \<Rightarrow> Decider" where
  "with_default_audit home policy = decider_new policy (if np_audit policy \<and> home then Some True else None)"

definition with_policy_refreshed :: "bool \<Rightarrow> Decider \<Rightarrow> NetworkPolicy \<Rightarrow> Decider" where
  "with_policy_refreshed home d policy =
     \<lparr>nd_policy = policy,
      nd_auditor = (case nd_auditor d of
          Some _ \<Rightarrow> Some (np_audit policy)
        | None \<Rightarrow> if np_audit policy \<and> home then Some True else None),
      nd_trusted_fakeip_cidrs = fakeip_cidrs policy,
      nd_authoritative = nd_authoritative d\<rparr>"

definition denies_by_default :: "Decider \<Rightarrow> bool" where
  "denies_by_default d \<longleftrightarrow> np_default (nd_policy d) = Deny"

text \<open>\<open>sanitize_field\<close>: each white-space character becomes one underscore.\<close>

function sanitize_field :: "string \<Rightarrow> string" where
  "sanitize_field [] = []"
| "sanitize_field (c # cs) =
     (let n = ws_len (c # cs) in
      if 0 < n then CHR ''_'' # sanitize_field (drop (n - 1) cs) else c # sanitize_field cs)"
  by pat_completeness auto
termination
  by (relation "measure length") auto

definition audit_record :: "Decider \<Rightarrow> string \<Rightarrow> string \<Rightarrow> string \<Rightarrow> NetSession \<Rightarrow> NetSession" where
  "audit_record d host tool label s =
     (if nd_auditor d = Some True
      then s\<lparr>ns_log := ns_log s @ [(sanitize_field host, sanitize_field tool, label)]\<rparr> else s)"

definition net_evaluate :: "Decider \<Rightarrow> string \<Rightarrow> string \<Rightarrow> NetSession \<Rightarrow> Decision \<times> NetSession" where
  "net_evaluate d host tool s =
     (let normalized = normalize_host host in
      if normalized = [] then (np_default (nd_policy d), s)
      else if cache_is_denied normalized (ns_cache s) then (Deny, audit_record d normalized tool ''Deny'' s)
      else if cache_is_approved normalized (ns_cache s) then (Allow, audit_record d normalized tool ''Allow'' s)
      else case decide (nd_policy d) normalized of
             Allow \<Rightarrow> (Allow, audit_record d normalized tool ''Allow'' s)
           | Deny \<Rightarrow> (Deny, audit_record d normalized tool ''Deny'' s)
           | Prompt \<Rightarrow> (Prompt, s))"

definition approve_session :: "Decider \<Rightarrow> string \<Rightarrow> string \<Rightarrow> NetSession \<Rightarrow> NetSession" where
  "approve_session d host tool s =
     audit_record d host tool ''Prompt-Approved'' (s\<lparr>ns_cache := cache_approve host (ns_cache s)\<rparr>)"

definition deny_session :: "Decider \<Rightarrow> string \<Rightarrow> string \<Rightarrow> NetSession \<Rightarrow> NetSession" where
  "deny_session d host tool s =
     audit_record d host tool ''Prompt-Denied'' (s\<lparr>ns_cache := cache_deny host (ns_cache s)\<rparr>)"

definition approve_persistent :: "Decider \<Rightarrow> string \<Rightarrow> string \<Rightarrow> NetSession \<Rightarrow> Decider \<times> NetSession" where
  "approve_persistent d host tool s =
     (let d = d\<lparr>nd_policy := add_allow host (nd_policy d)\<rparr> in (d, approve_session d host tool s))"

text \<open>\<open>Engine::current_network_decider\<close> (\<open>crates/engine/src/core/engine.rs\<close>): the decider after the
  configuration document was read again. \<open>document\<close> is its network table, if any.\<close>

definition current_network_decider ::
  "bool \<Rightarrow> bool \<Rightarrow> Decider option \<Rightarrow> NetworkPolicy option \<Rightarrow> Decider option" where
  "current_network_decider home managed held document =
     (case document of
        None \<Rightarrow> held
      | Some document \<Rightarrow>
          (case held of
             Some d \<Rightarrow>
               if nd_authoritative d \<or> managed
               then Some (with_policy_refreshed home d (folded_with_lower_layer (nd_policy d) document))
               else Some (with_policy_refreshed home d document)
           | None \<Rightarrow> Some (with_default_audit home document)))"

end
