(* ===== verification/NetGuard.thy ===== *)
theory NetGuard
  imports NetPolicy
begin

text \<open>
  The destination guard of outbound fetches (\<open>crates/net/src/guard.rs\<close>) and its composition with the
  network policy (\<open>crates/engine/src/tools/web/guard.rs\<close>).

  A parsed URL is its scheme and its host, the two fields the code reads; \<open>IpAddr::from_str\<close> and the
  DNS lookup are arguments (\<open>parse_ip\<close>, \<open>lookup\<close>), and a lookup ends in a timeout, an error or a list
  of addresses. Each refusal is a constructor that names the error message of the source.
\<close>

section \<open>Addresses\<close>

datatype IpAddr = V4 u32 | V6 "128 word"

text \<open>The 16-bit segments of an IPv6 address, the most significant first, and its IPv4 tail.\<close>

definition v6_segment :: "nat \<Rightarrow> 128 word \<Rightarrow> 16 word" where
  "v6_segment i ip = ucast (drop_bit (112 - 16 * i) ip)"

definition v6_tail :: "128 word \<Rightarrow> u32" where
  "v6_tail ip = ucast ip"

definition v4_is_loopback :: "u32 \<Rightarrow> bool" where
  "v4_is_loopback ip \<longleftrightarrow> octet 0 ip = 127"

definition v4_is_private :: "u32 \<Rightarrow> bool" where
  "v4_is_private ip \<longleftrightarrow> octet 0 ip = 10
     \<or> octet 0 ip = 172 \<and> 16 \<le> octet 1 ip \<and> octet 1 ip \<le> 31
     \<or> octet 0 ip = 192 \<and> octet 1 ip = 168"

definition v4_is_link_local :: "u32 \<Rightarrow> bool" where
  "v4_is_link_local ip \<longleftrightarrow> octet 0 ip = 169 \<and> octet 1 ip = 254"

definition v4_is_multicast :: "u32 \<Rightarrow> bool" where
  "v4_is_multicast ip \<longleftrightarrow> 224 \<le> octet 0 ip \<and> octet 0 ip \<le> 239"

definition restricted_v4 :: "u32 \<Rightarrow> bool" where
  "restricted_v4 ip \<longleftrightarrow>
     v4_is_loopback ip \<or> v4_is_private ip \<or> v4_is_link_local ip \<or> v4_is_multicast ip
     \<or> ip = ipv4_of_octets 255 255 255 255 \<or> ip = ipv4_of_octets 0 0 0 0
     \<or> octet 0 ip = 100 \<and> 64 \<le> octet 1 ip \<and> octet 1 ip \<le> 127
     \<or> ip = ipv4_of_octets 169 254 169 254
     \<or> octet 0 ip = 198 \<and> 18 \<le> octet 1 ip \<and> octet 1 ip \<le> 19
     \<or> 240 \<le> octet 0 ip"

definition nat64_ipv4 :: "128 word \<Rightarrow> u32 option" where
  "nat64_ipv4 ip =
     (if v6_segment 0 ip = 0x0064 \<and> v6_segment 1 ip = 0xff9b
         \<and> v6_segment 2 ip = 0 \<and> v6_segment 3 ip = 0 \<and> v6_segment 4 ip = 0 \<and> v6_segment 5 ip = 0
      then Some (v6_tail ip) else None)"

text \<open>The octets \<open>0, .., 0, 0xff, 0xff\<close> of an IPv4-mapped address, also the test of \<open>to_ipv4_mapped\<close>.\<close>

definition v4_mapped :: "128 word \<Rightarrow> bool" where
  "v4_mapped ip \<longleftrightarrow> v6_segment 0 ip = 0 \<and> v6_segment 1 ip = 0 \<and> v6_segment 2 ip = 0
     \<and> v6_segment 3 ip = 0 \<and> v6_segment 4 ip = 0 \<and> v6_segment 5 ip = 0xffff"

definition v6_listed :: "128 word \<Rightarrow> bool" where
  "v6_listed ip \<longleftrightarrow>
     ip = 1
     \<or> 0xff00 \<le> v6_segment 0 ip
     \<or> 0xfc00 \<le> v6_segment 0 ip \<and> v6_segment 0 ip \<le> 0xfdff
     \<or> 0xfe80 \<le> v6_segment 0 ip \<and> v6_segment 0 ip \<le> 0xfebf
     \<or> 0xfec0 \<le> v6_segment 0 ip \<and> v6_segment 0 ip \<le> 0xfeff
     \<or> v6_segment 0 ip = 0x2002
     \<or> v6_segment 0 ip = 0x2001 \<and> v6_segment 1 ip = 0
     \<or> v6_segment 0 ip = 0 \<and> v6_segment 1 ip = 0 \<and> v6_segment 2 ip = 0
       \<and> v6_segment 3 ip = 0 \<and> v6_segment 4 ip = 0 \<and> v6_segment 5 ip = 0"

definition restricted_v6 :: "128 word \<Rightarrow> bool" where
  "restricted_v6 ip =
     (if ip = 0 \<or> v4_mapped ip then True
      else if v4_mapped ip then restricted_v4 (v6_tail ip)
      else if (case nat64_ipv4 ip of Some v4 \<Rightarrow> restricted_v4 v4 | None \<Rightarrow> False) then True
      else v6_listed ip)"

fun is_restricted_ip :: "IpAddr \<Rightarrow> bool" where
  "is_restricted_ip (V4 ip) = restricted_v4 ip"
| "is_restricted_ip (V6 ip) = restricted_v6 ip"

text \<open>\<open>is_trusted_fakeip_addr\<close> of the decider: only IPv4 addresses can be placeholders.\<close>

fun is_trusted_fakeip_addr :: "Decider \<Rightarrow> IpAddr \<Rightarrow> bool" where
  "is_trusted_fakeip_addr d (V4 v4) =
     list_ex (\<lambda>(base, len). ipv4_in_cidr v4 base len) (nd_trusted_fakeip_cidrs d)"
| "is_trusted_fakeip_addr d (V6 _) = False"

section \<open>Fetch targets\<close>

datatype FetchError =
    UnsupportedScheme
  | NoHost
  | LocalhostRefused
  | RestrictedLiteral IpAddr
  | LookupTimeout
  | LookupFailed string
  | RestrictedAnswer IpAddr
  | NoAddresses
  | PolicyBlocked string
  | PolicyNeedsApproval string

datatype LookupResult = TimedOut | LookupError string | Addresses "IpAddr list"

record Url =
  url_scheme :: string
  url_host :: "string option"

definition fetch_target_host :: "Url \<Rightarrow> FetchError + string" where
  "fetch_target_host url =
     (if url_scheme url \<noteq> ''http'' \<and> url_scheme url \<noteq> ''https'' then Inl UnsupportedScheme
      else case url_host url of
             None \<Rightarrow> Inl NoHost
           | Some host \<Rightarrow> Inr (to_ascii_lowercase host))"

text \<open>\<open>trusts_proxy_fakeip_host\<close> and \<open>record_trusted_proxy_fakeip_allow\<close> of the decider are the
  policy's test and one audit record.\<close>

definition validate_dns_resolved_ip ::
  "string \<Rightarrow> IpAddr \<Rightarrow> Decider option \<Rightarrow> string \<Rightarrow> NetSession \<Rightarrow> (FetchError + unit) \<times> NetSession" where
  "validate_dns_resolved_ip host ip decider tool s =
     (if \<not> is_restricted_ip ip then (Inr (), s)
      else case decider of
          Some d \<Rightarrow>
            if is_trusted_fakeip_addr d ip \<and> trusts_proxy_fakeip_host (nd_policy d) host
            then (Inr (), audit_record d host tool ''TrustedProxyFakeIp-Allow'' s)
            else (Inl (RestrictedAnswer ip), s)
        | None \<Rightarrow> (Inl (RestrictedAnswer ip), s))"

text \<open>The loop over the answers of a lookup: every answer is validated, the first one is kept.\<close>

fun validate_addrs ::
  "string \<Rightarrow> Decider option \<Rightarrow> string \<Rightarrow> IpAddr option \<Rightarrow> IpAddr list \<Rightarrow> NetSession
    \<Rightarrow> (FetchError + IpAddr option) \<times> NetSession" where
  "validate_addrs host decider tool first_valid [] s = (Inr first_valid, s)"
| "validate_addrs host decider tool first_valid (ip # ips) s =
     (case validate_dns_resolved_ip host ip decider tool s of
        (Inl err, s) \<Rightarrow> (Inl err, s)
      | (Inr _, s) \<Rightarrow>
          validate_addrs host decider tool (if first_valid = None then Some ip else first_valid) ips s)"

definition is_localhost_name :: "string \<Rightarrow> bool" where
  "is_localhost_name host =
     (let bare = (case strip_suffix host ''.'' of Some bare \<Rightarrow> bare | None \<Rightarrow> host) in
      bare = ''localhost'' \<or> bare = ''localhost.localdomain'' \<or> ends_with bare ''.localhost'')"

definition ip_candidate :: "string \<Rightarrow> string" where
  "ip_candidate host =
     (case strip_prefix host ''['' of
        None \<Rightarrow> host
      | Some rest \<Rightarrow> (case strip_suffix rest '']'' of None \<Rightarrow> host | Some ip \<Rightarrow> ip))"

definition validate_fetch_destination ::
  "(string \<Rightarrow> IpAddr option) \<Rightarrow> (string \<Rightarrow> LookupResult) \<Rightarrow> string \<Rightarrow> Decider option \<Rightarrow> string \<Rightarrow> bool
    \<Rightarrow> NetSession \<Rightarrow> (FetchError + (string \<times> IpAddr) option) \<times> NetSession" where
  "validate_fetch_destination parse_ip lookup host decider tool resolve s =
     (if is_localhost_name host then (Inl LocalhostRefused, s)
      else case parse_ip (ip_candidate host) of
        Some ip \<Rightarrow> if is_restricted_ip ip then (Inl (RestrictedLiteral ip), s) else (Inr None, s)
      | None \<Rightarrow>
          if \<not> resolve then (Inr None, s)
          else case lookup host of
            TimedOut \<Rightarrow> (Inl LookupTimeout, s)
          | LookupError e \<Rightarrow> (Inl (LookupFailed e), s)
          | Addresses addrs \<Rightarrow>
              (case validate_addrs host decider tool None addrs s of
                 (Inl err, s) \<Rightarrow> (Inl err, s)
               | (Inr None, s) \<Rightarrow> (Inl NoAddresses, s)
               | (Inr (Some validated_ip), s) \<Rightarrow> (Inr (Some (host, validated_ip)), s)))"

section \<open>The policy in front of the guard\<close>

definition validate_network_policy ::
  "string \<Rightarrow> Decider option \<Rightarrow> string \<Rightarrow> NetSession \<Rightarrow> (FetchError + unit) \<times> NetSession" where
  "validate_network_policy host decider tool s =
     (case decider of
        None \<Rightarrow> (Inr (), s)
      | Some d \<Rightarrow>
          (case net_evaluate d host tool s of
             (Allow, s) \<Rightarrow> (Inr (), s)
           | (Deny, s) \<Rightarrow> (Inl (PolicyBlocked host), s)
           | (Prompt, s) \<Rightarrow> (Inl (PolicyNeedsApproval host), s)))"

definition validate_fetch_target ::
  "(string \<Rightarrow> IpAddr option) \<Rightarrow> (string \<Rightarrow> LookupResult) \<Rightarrow> Url \<Rightarrow> Decider option \<Rightarrow> string
    \<Rightarrow> NetSession \<Rightarrow> (FetchError + (string \<times> IpAddr) option) \<times> NetSession" where
  "validate_fetch_target parse_ip lookup url decider tool s =
     (case fetch_target_host url of
        Inl err \<Rightarrow> (Inl err, s)
      | Inr host \<Rightarrow>
          (case validate_network_policy host decider tool s of
             (Inl err, s) \<Rightarrow> (Inl err, s)
           | (Inr _, s) \<Rightarrow> validate_fetch_destination parse_ip lookup host decider tool True s))"

end
