(* ===== verification/NetProps.thy ===== *)
theory NetProps
  imports NetGuard
begin

text \<open>
  Guarantees of the network policy and of the fetch guard: the restricted IPv4 blocks, the sessions a
  decider can reach, the fold of a document onto an authority's policy, and what a validated fetch
  target can be.
\<close>

section \<open>Blocks of addresses\<close>

lemma ipv4_in_cidr_iff:
  assumes "len \<le> 32"
  shows "ipv4_in_cidr ip base len \<longleftrightarrow> drop_bit (32 - unat len) ip = drop_bit (32 - unat len) base"
proof (cases "len = 0")
  case True
  have "drop_bit 32 x = 0" for x :: u32 by (simp add: bit_eq_iff bit_drop_bit_eq bit_imp_le_length)
  then show ?thesis using True by (simp add: ipv4_in_cidr_def)
next
  case False
  have "unat (32 - len) = 32 - unat len" using assms by (simp add: unat_sub)
  moreover have "x AND push_bit n (- 1) = y AND push_bit n (- 1) \<longleftrightarrow> drop_bit n x = drop_bit n y"
    for x y :: u32 and n
  proof
    assume *: "x AND push_bit n (- 1) = y AND push_bit n (- 1)"
    show "drop_bit n x = drop_bit n y"
    proof (rule bit_eqI)
      fix i
      have "bit (x AND push_bit n (- 1)) (n + i) = bit (y AND push_bit n (- 1)) (n + i)" by (simp only: *)
      then show "bit (drop_bit n x) i = bit (drop_bit n y) i"
        by (auto simp: bit_drop_bit_eq bit_and_iff bit_push_bit_iff bit_not_iff bit_mask_iff dest: bit_imp_le_length)
    qed
  next
    assume *: "drop_bit n x = drop_bit n y"
    have "bit x i = bit y i" if "n \<le> i" for i
      using arg_cong [OF *, of "\<lambda>w. bit w (i - n)"] that by (simp add: bit_drop_bit_eq)
    then show "x AND push_bit n (- 1) = y AND push_bit n (- 1)"
      by (intro bit_eqI) (auto simp: bit_and_iff bit_push_bit_iff bit_not_iff bit_mask_iff)
  qed
  ultimately show ?thesis using False by (simp add: ipv4_in_cidr_def Let_def)
qed

text \<open>The upper half of an address decides the octets and every block of length at most 16.\<close>

definition upper :: "u32 \<Rightarrow> nat" where
  "upper ip = unat ip div 65536"

lemma upper_less: "upper ip < 65536"
  using unsigned_less [of ip, where 'a = nat] by (simp add: upper_def less_mult_imp_div_less)

lemma octet_upper:
  "unat (octet 0 ip) = upper ip div 256" "unat (octet 1 ip) = upper ip mod 256"
proof -
  have o: "unat (octet i ip) = unat ip div 2 ^ (24 - 8 * i) mod 256" for i
    by (simp only: octet_def unsigned_ucast_eq unat_drop_bit_eq) (simp add: drop_bit_eq_div take_bit_eq_mod)
  from o [of 1] show "unat (octet 1 ip) = upper ip mod 256" by (simp add: upper_def)
  have "unat ip div 16777216 = upper ip div 256" by (simp add: upper_def div_mult2_eq [symmetric])
  with o [of 0] upper_less [of ip] show "unat (octet 0 ip) = upper ip div 256" by simp
qed

lemma block_upper:
  assumes "n \<le> 16"
  shows "drop_bit (16 + n) ip = drop_bit (16 + n) base \<longleftrightarrow> upper ip div 2 ^ n = upper base div 2 ^ n"
proof -
  have "unat (drop_bit (16 + n) x) = upper x div 2 ^ n" for x :: u32
    by (simp only: unat_drop_bit_eq upper_def) (simp add: drop_bit_eq_div power_add div_mult2_eq)
  then show ?thesis by (metis word_unat_eq_iff)
qed

lemma ipv4_in_block:
  assumes "len \<le> 16"
  shows "ipv4_in_cidr ip base len \<longleftrightarrow> upper ip div 2 ^ (16 - unat len) = upper base div 2 ^ (16 - unat len)"
proof -
  have "unat len \<le> 16" "len \<le> 32" using assms by (simp_all add: word_le_nat_alt)
  then show ?thesis
    using block_upper [of "16 - unat len" ip base] by (simp add: ipv4_in_cidr_iff)
qed

lemma octet_facts:
  "octet 0 ip = a \<longleftrightarrow> upper ip div 256 = unat a" "octet 1 ip = a \<longleftrightarrow> upper ip mod 256 = unat a"
  "a \<le> octet 0 ip \<longleftrightarrow> unat a \<le> upper ip div 256" "octet 0 ip \<le> a \<longleftrightarrow> upper ip div 256 \<le> unat a"
  "a \<le> octet 1 ip \<longleftrightarrow> unat a \<le> upper ip mod 256" "octet 1 ip \<le> a \<longleftrightarrow> upper ip mod 256 \<le> unat a"
  by (simp_all add: word_unat_eq_iff word_le_nat_alt octet_upper octet_upper(2) [unfolded One_nat_def])

lemma div_range: "0 < n \<Longrightarrow> (u::nat) div n = k \<longleftrightarrow> k * n \<le> u \<and> u < (k + 1) * n"
  by (metis div_nat_eqI dividend_less_times_div less_eq_div_iff_mult_less_eq linorder_neqE_nat mult.commute not_less_eq_eq div_less_iff_less_mult less_Suc_eq_le order.refl Suc_eq_plus1)
lemma half_range:
  fixes q r k lo hi :: nat
  assumes "r < 256" "hi < 256"
  shows "q = k \<and> lo \<le> r \<and> r \<le> hi \<longleftrightarrow> 256 * k + lo \<le> 256 * q + r \<and> 256 * q + r \<le> 256 * k + hi"
  using assms by (cases q k rule: linorder_cases) auto

lemma half_split:
  fixes q r :: nat
  assumes r: "r < 256"
  shows "q = 172 \<and> 16 \<le> r \<and> r \<le> 31 \<longleftrightarrow> (256 * q + r) div 16 = 2753"
    and "q = 192 \<and> r = 168 \<longleftrightarrow> 256 * q + r = 49320"
    and "q = 169 \<and> r = 254 \<longleftrightarrow> 256 * q + r = 43518"
    and "224 \<le> q \<and> q \<le> 239 \<longleftrightarrow> (256 * q + r) div 4096 = 14"
    and "q = 100 \<and> 64 \<le> r \<and> r \<le> 127 \<longleftrightarrow> (256 * q + r) div 64 = 401"
    and "q = 198 \<and> 18 \<le> r \<and> r \<le> 19 \<longleftrightarrow> (256 * q + r) div 2 = 25353"
    and "240 \<le> q \<and> q < 256 \<longleftrightarrow> (256 * q + r) div 4096 = 15"
proof -
  show "q = 172 \<and> 16 \<le> r \<and> r \<le> 31 \<longleftrightarrow> (256 * q + r) div 16 = 2753"
    using half_range [OF r, of 31 q 172 16] by (simp add: div_range less_eq_Suc_le)
  show "q = 192 \<and> r = 168 \<longleftrightarrow> 256 * q + r = 49320"
    using half_range [OF r, of 168 q 192 168] by (simp add: eq_iff)
  show "q = 169 \<and> r = 254 \<longleftrightarrow> 256 * q + r = 43518"
    using half_range [OF r, of 254 q 169 254] by (simp add: eq_iff)
  show "q = 100 \<and> 64 \<le> r \<and> r \<le> 127 \<longleftrightarrow> (256 * q + r) div 64 = 401"
    using half_range [OF r, of 127 q 100 64] by (simp add: div_range less_eq_Suc_le)
  show "q = 198 \<and> 18 \<le> r \<and> r \<le> 19 \<longleftrightarrow> (256 * q + r) div 2 = 25353"
    using half_range [OF r, of 19 q 198 18] by (simp add: div_range less_eq_Suc_le)
qed (use r in \<open>auto simp: div_range\<close>)
text \<open>The reference: the reserved blocks, in CIDR notation.\<close>

definition restricted_blocks :: "(u32 \<times> u8) list" where
  "restricted_blocks =
    [(ipv4_of_octets 127 0 0 0, 8), (ipv4_of_octets 10 0 0 0, 8), (ipv4_of_octets 172 16 0 0, 12),
     (ipv4_of_octets 192 168 0 0, 16), (ipv4_of_octets 169 254 0 0, 16), (ipv4_of_octets 224 0 0 0, 4),
     (ipv4_of_octets 100 64 0 0, 10), (ipv4_of_octets 198 18 0 0, 15), (ipv4_of_octets 240 0 0 0, 4),
     (ipv4_of_octets 0 0 0 0, 32)]"

lemma restricted_upper:
  "restricted_v4 ip \<longleftrightarrow>
     (let u = upper ip in u div 256 = 127 \<or> u div 256 = 10 \<or> u div 16 = 2753 \<or> u = 49320 \<or> u = 43518
       \<or> u div 4096 = 14 \<or> u div 64 = 401 \<or> u div 2 = 25353 \<or> u div 4096 = 15 \<or> ip = 0)"
proof -
  define u q r where "u = upper ip" and "q = u div 256" and "r = u mod 256"
  then have r: "r < 256" and u: "u = 256 * q + r" and q: "q < 256"
    using upper_less [of ip] by auto
  have last: "240 \<le> q \<longleftrightarrow> u div 4096 = 15" using half_split(7) [OF r, of q] q u by simp
  note split = half_split [OF r, of q, folded u]
  have all_ones: "ip = ipv4_of_octets 255 255 255 255 \<Longrightarrow> u div 4096 = 15"
    and metadata: "ip = ipv4_of_octets 169 254 169 254 \<Longrightarrow> u = 43518"
    and zero: "ipv4_of_octets 0 0 0 0 = 0"
    by (simp_all add: u_def upper_def ipv4_of_octets_def)
  have numbers: "unat (127 :: u8) = 127" "unat (10 :: u8) = 10" "unat (172 :: u8) = 172" "unat (16 :: u8) = 16"
    "unat (31 :: u8) = 31" "unat (192 :: u8) = 192" "unat (168 :: u8) = 168" "unat (169 :: u8) = 169"
    "unat (254 :: u8) = 254" "unat (224 :: u8) = 224" "unat (239 :: u8) = 239" "unat (100 :: u8) = 100"
    "unat (64 :: u8) = 64" "unat (198 :: u8) = 198" "unat (18 :: u8) = 18" "unat (19 :: u8) = 19"
    "unat (240 :: u8) = 240" by simp_all
  show ?thesis
    unfolding restricted_v4_def v4_is_loopback_def v4_is_private_def v4_is_link_local_def v4_is_multicast_def
      octet_facts numbers u_def [symmetric] q_def [symmetric] r_def [symmetric] split last zero Let_def
    using all_ones metadata by blast
qed

text \<open>The hand-written tests of an IPv4 address are exactly membership in the ten reserved blocks; the
  special addresses among them are covered by the blocks.\<close>

theorem restricted_ipv4_blocks:
  "is_restricted_ip (V4 ip) \<longleftrightarrow> list_ex (\<lambda>(base, len). ipv4_in_cidr ip base len) restricted_blocks"
proof -
  have full: "ipv4_in_cidr ip (ipv4_of_octets 0 0 0 0) 32 \<longleftrightarrow> ip = 0"
    by (simp add: ipv4_in_cidr_iff ipv4_of_octets_def)
  have blocks: "upper (ipv4_of_octets 127 0 0 0) = 32512" "upper (ipv4_of_octets 10 0 0 0) = 2560"
    "upper (ipv4_of_octets 172 16 0 0) = 44048" "upper (ipv4_of_octets 192 168 0 0) = 49320"
    "upper (ipv4_of_octets 169 254 0 0) = 43518" "upper (ipv4_of_octets 224 0 0 0) = 57344"
    "upper (ipv4_of_octets 100 64 0 0) = 25664" "upper (ipv4_of_octets 198 18 0 0) = 50706"
    "upper (ipv4_of_octets 240 0 0 0) = 61440"
    by (simp_all add: upper_def ipv4_of_octets_def)
  show ?thesis
    by (simp add: restricted_upper restricted_blocks_def full ipv4_in_block blocks Let_def)
qed

section \<open>Placeholder ranges\<close>

definition benchmark_block :: "u32 \<Rightarrow> bool" where
  "benchmark_block ip \<longleftrightarrow> ipv4_in_cidr ip (ipv4_of_octets 198 18 0 0) 15"

lemma benchmark_block_upper: "benchmark_block ip \<longleftrightarrow> upper ip div 2 = 25353"
proof -
  have "upper (ipv4_of_octets 198 18 0 0) = 50706" by (simp add: upper_def ipv4_of_octets_def)
  then show ?thesis by (simp add: benchmark_block_def ipv4_in_block)
qed

definition fakeip_range_ok :: "u32 \<times> u8 \<Rightarrow> bool" where
  "fakeip_range_ok = (\<lambda>(base, len). 15 \<le> len \<and> len \<le> 32 \<and> benchmark_block base)"

lemma parsed_range_ok: "parse_trusted_fakeip_cidr cidr = Some entry \<Longrightarrow> fakeip_range_ok entry"
proof -
  assume a: "parse_trusted_fakeip_cidr cidr = Some entry"
  obtain base len where r: "entry = (base, len)" by (cases entry)
  from a r have p: "parse_ipv4_cidr cidr = Some (base, len)" and len: "15 \<le> len" and o: "octet 0 base = 198"
      "octet 1 base = 18 \<or> octet 1 base = 19"
    by (auto simp: parse_trusted_fakeip_cidr_def split: option.splits if_splits)
  from p have "len \<le> 32" by (auto simp: parse_ipv4_cidr_def split: option.splits if_splits)
  moreover have "upper base div 2 = 25353"
  proof -
    have "upper base div 256 = 198" "upper base mod 256 = 18 \<or> upper base mod 256 = 19"
      using o unfolding octet_facts by simp_all
    then show ?thesis using mult_div_mod_eq [of 256 "upper base"] by auto
  qed
  ultimately show ?thesis using len r by (simp add: fakeip_range_ok_def benchmark_block_upper)
qed

lemma range_in_block:
  assumes "fakeip_range_ok (base, len)" and "ipv4_in_cidr ip base len"
  shows "benchmark_block ip"
proof -
  have len: "15 \<le> unat len" "len \<le> 32" and b: "benchmark_block base"
    using assms(1) by (simp_all add: fakeip_range_ok_def word_le_nat_alt)
  then have "drop_bit (32 - unat len) ip = drop_bit (32 - unat len) base"
    using assms(2) by (simp add: ipv4_in_cidr_iff)
  then have "drop_bit (unat len - 15) (drop_bit (32 - unat len) ip)
      = drop_bit (unat len - 15) (drop_bit (32 - unat len) base)"
    by simp
  moreover have "unat len \<le> 32" using len(2) by (simp add: word_le_nat_alt)
  ultimately have "drop_bit 17 ip = drop_bit 17 base" using len(1) by (simp only: drop_bit_drop_bit) simp
  with b show ?thesis using block_upper [of 1 ip base] by (simp add: benchmark_block_upper)
qed

section \<open>Layers\<close>

lemma set_union_entries [simp]: "set (union_entries base extra) = set base \<union> set extra"
proof -
  have "set (fold (\<lambda>entry base. if entry \<in> set base then base else base @ [entry]) extra base) = set base \<union> set extra"
    by (induction extra arbitrary: base) auto
  then show ?thesis by (simp add: union_entries_def)
qed

lemma stricter_decision_cases:
  "stricter_decision Deny y = Deny" "stricter_decision x Deny = Deny" "stricter_decision Allow Allow = Allow"
  "stricter_decision Prompt y \<noteq> Allow" "stricter_decision x Prompt \<noteq> Allow"
  by (cases x; cases y; simp add: stricter_decision_def)+

lemma folded_fields [simp]:
  "np_default (folded_with_lower_layer policy lower) = stricter_decision (np_default policy) (np_default lower)"
  "np_deny (folded_with_lower_layer policy lower) = union_entries (np_deny policy) (np_deny lower)"
  "np_allow (folded_with_lower_layer policy lower) = (if np_default policy = Deny then np_allow policy
     else union_entries (np_allow policy) (np_allow lower))"
  "np_proxy (folded_with_lower_layer policy lower) = (if np_default policy = Deny then np_proxy policy
     else union_entries (np_proxy policy) (np_proxy lower))"
  "np_audit (folded_with_lower_layer policy lower) \<longleftrightarrow> np_audit policy \<or> np_audit lower"
  by (simp_all add: folded_with_lower_layer_def Let_def)

lemma fold_keeps_deny:
  assumes "decide policy host = Deny"
  shows "decide (folded_with_lower_layer policy lower) host = Deny"
  using assms by (auto simp: decide_def Let_def list_ex_iff stricter_decision_cases split: if_splits)

lemma stricter_decision_Allow: "stricter_decision x y = Allow \<longleftrightarrow> x = Allow \<and> y = Allow"
  by (cases x; cases y) (simp_all add: stricter_decision_def)

lemma fold_allows:
  assumes "decide (folded_with_lower_layer policy lower) host = Allow"
  shows "decide policy host = Allow
    \<or> np_default policy = Prompt \<and> list_ex (\<lambda>entry. host_matches entry (normalize_host host)) (np_allow lower)"
  using assms unfolding decide_def Let_def list_ex_iff folded_fields set_union_entries
  by (cases "np_default policy") (auto simp: stricter_decision_Allow split: if_splits)

text \<open>C12. A policy an authority set is only narrowed by the document: its denials stay denials, what it did
  not allow is allowed only by an allow entry of the document under a prompting default, a placeholder
  host is new only outside a denying default, and its audit log stays on.\<close>

theorem authority_denials_survive:
  assumes "current_network_decider home managed (Some d) document = Some d'" and "nd_authoritative d \<or> managed"
  shows "(decide (nd_policy d) host = Deny \<longrightarrow> decide (nd_policy d') host = Deny)
    \<and> (decide (nd_policy d') host = Allow \<longrightarrow> decide (nd_policy d) host = Allow
        \<or> np_default (nd_policy d) = Prompt
          \<and> (\<exists>lower. document = Some lower \<and> list_ex (\<lambda>entry. host_matches entry (normalize_host host)) (np_allow lower)))
    \<and> (denies_by_default d \<and> trusts_proxy_fakeip_host (nd_policy d') host \<longrightarrow> trusts_proxy_fakeip_host (nd_policy d) host)
    \<and> (np_audit (nd_policy d) \<longrightarrow> np_audit (nd_policy d'))"
proof (cases document)
  case None
  then show ?thesis using assms(1) by (simp add: current_network_decider_def)
next
  case (Some lower)
  have p: "nd_policy d' = folded_with_lower_layer (nd_policy d) lower"
    using assms Some by (auto simp: current_network_decider_def with_policy_refreshed_def)
  have "denies_by_default d \<Longrightarrow> trusts_proxy_fakeip_host (nd_policy d') host \<Longrightarrow> trusts_proxy_fakeip_host (nd_policy d) host"
    unfolding p by (auto simp: denies_by_default_def trusts_proxy_fakeip_host_def Let_def list_ex_iff split: if_splits)
  moreover have "np_audit (nd_policy d) \<Longrightarrow> np_audit (nd_policy d')"
    unfolding p by simp
  ultimately show ?thesis
    using fold_keeps_deny [of "nd_policy d" host lower] fold_allows [of "nd_policy d" lower host] Some p by auto
qed

theorem authority_denials_survive_witness:
  "decide (nd_policy (the (current_network_decider False False
      (Some (with_authoritative (decider_new (network_policy_default\<lparr>np_default := Deny\<rparr>) None)))
      (Some (network_policy_default\<lparr>np_default := Allow, np_allow := [''example.com'']\<rparr>))))) ''example.com'' = Deny"
proof -
  let ?d = "with_authoritative (decider_new (network_policy_default\<lparr>np_default := Deny\<rparr>) None)"
  let ?doc = "Some (network_policy_default\<lparr>np_default := Allow, np_allow := [''example.com'']\<rparr>)"
  have "current_network_decider False False (Some ?d) ?doc = Some (the (current_network_decider False False (Some ?d) ?doc))"
    by (simp add: current_network_decider_def)
  moreover have "nd_authoritative ?d \<or> False" by (simp add: with_authoritative_def)
  moreover have "decide (nd_policy ?d) ''example.com'' = Deny" by code_simp
  ultimately show ?thesis using authority_denials_survive by blast
qed

section \<open>Sessions a decider can reach\<close>

text \<open>What can happen to a decider and the session state it shares: the operations of the decider, and the
  refresh of the engine, whose result is the decider of the next tool call.\<close>

datatype NetEvent =
    Evaluate string string
  | ApproveSession string string
  | DenySession string string
  | ApprovePersistent string string
  | FakeipAllow string string
  | TrustCidrs "string list"
  | MarkAuthoritative
  | RefreshFrom bool bool "NetworkPolicy option"

fun net_apply :: "NetEvent \<Rightarrow> Decider \<times> NetSession \<Rightarrow> Decider \<times> NetSession" where
  "net_apply (Evaluate host tool) (d, s) = (d, snd (net_evaluate d host tool s))"
| "net_apply (ApproveSession host tool) (d, s) = (d, approve_session d host tool s)"
| "net_apply (DenySession host tool) (d, s) = (d, deny_session d host tool s)"
| "net_apply (ApprovePersistent host tool) (d, s) = approve_persistent d host tool s"
| "net_apply (FakeipAllow host tool) (d, s) = (d, audit_record d host tool ''TrustedProxyFakeIp-Allow'' s)"
| "net_apply (TrustCidrs cidrs) (d, s) = (with_trusted_fakeip_cidrs cidrs d, s)"
| "net_apply MarkAuthoritative (d, s) = (with_authoritative d, s)"
| "net_apply (RefreshFrom home managed document) (d, s) =
     (the (current_network_decider home managed (Some d) document), s)"

definition net_start :: "Decider \<times> NetSession \<Rightarrow> bool" where
  "net_start = (\<lambda>(d, s). \<exists>policy auditor. d = decider_new policy auditor
     \<and> s = \<lparr>ns_cache = empty_cache, ns_log = []\<rparr>)"

definition net_step :: "Decider \<times> NetSession \<Rightarrow> Decider \<times> NetSession \<Rightarrow> bool" where
  "net_step x y \<longleftrightarrow> (\<exists>e. y = net_apply e x)"

definition net_reachable :: "Decider \<times> NetSession \<Rightarrow> bool" where
  "net_reachable y \<longleftrightarrow> (\<exists>x. net_start x \<and> net_step\<^sup>*\<^sup>* x y)"

definition net_ok :: "Decider \<times> NetSession \<Rightarrow> bool" where
  "net_ok = (\<lambda>(d, s). list_all fakeip_range_ok (nd_trusted_fakeip_cidrs d)
     \<and> nc_approved (ns_cache s) \<inter> nc_denied (ns_cache s) = {}
     \<and> nc_approved (ns_cache s) \<union> nc_denied (ns_cache s) \<subseteq> range normalize_host)"

lemma map_filter_ranges_ok: "list_all fakeip_range_ok (List.map_filter parse_trusted_fakeip_cidr cidrs)"
  by (auto simp: list_all_iff List.map_filter_def intro: parsed_range_ok)

lemma audit_record_cache [simp]: "ns_cache (audit_record d host tool label s) = ns_cache s"
  by (simp add: audit_record_def)

lemma net_evaluate_cache [simp]: "ns_cache (snd (net_evaluate d host tool s)) = ns_cache s"
  by (simp add: net_evaluate_def Let_def split: Decision.split)

lemma current_decider_keeps:
  "list_all fakeip_range_ok (nd_trusted_fakeip_cidrs d)
    \<Longrightarrow> list_all fakeip_range_ok (nd_trusted_fakeip_cidrs (the (current_network_decider home managed (Some d) document)))"
  using map_filter_ranges_ok
  by (auto simp: current_network_decider_def with_policy_refreshed_def fakeip_cidrs_def split: option.split)

lemma net_apply_ok: "net_ok x \<Longrightarrow> net_ok (net_apply e x)"
  using current_decider_keeps
  by (cases x; cases e)
     (auto simp: net_ok_def approve_session_def deny_session_def approve_persistent_def cache_approve_def
       cache_deny_def with_trusted_fakeip_cidrs_def with_authoritative_def map_filter_ranges_ok Let_def)

interpretation net: invariant_system net_start net_step net_ok
proof
  show "net_start x \<Longrightarrow> net_ok x" for x
    by (auto simp: net_start_def net_ok_def decider_new_def fakeip_cidrs_def map_filter_ranges_ok empty_cache_def)
  show "net_step x y \<Longrightarrow> net_ok x \<Longrightarrow> net_ok y" for x y
    by (auto simp: net_step_def net_apply_ok)
qed

lemma net_reachable_ok: "net_reachable x \<Longrightarrow> net_ok x"
  unfolding net_reachable_def using net.reachable_inv by blast

section \<open>Session answers\<close>

text \<open>Hosts written in graphic ASCII characters normalise in one step.\<close>

definition graphic :: "char \<Rightarrow> bool" where
  "graphic c \<longleftrightarrow> 0x21 \<le> (of_char c :: nat) \<and> of_char c \<le> (0x7e :: nat)"

fun approves :: "string \<Rightarrow> NetEvent \<Rightarrow> bool" where
  "approves host (ApproveSession h tool) \<longleftrightarrow> normalize_host h = normalize_host host"
| "approves host (ApprovePersistent h tool) \<longleftrightarrow> normalize_host h = normalize_host host"
| "approves host _ \<longleftrightarrow> False"

lemma net_apply_denied:
  assumes "normalize_host host \<in> nc_denied (ns_cache (snd x))" and "\<not> approves host e"
  shows "normalize_host host \<in> nc_denied (ns_cache (snd (net_apply e x)))"
  using assms
  by (cases x; cases e) (auto simp: approve_session_def deny_session_def approve_persistent_def
      cache_approve_def cache_deny_def Let_def)

lemma events_denied:
  assumes "normalize_host host \<in> nc_denied (ns_cache (snd x))" and "list_all (\<lambda>e. \<not> approves host e) events"
  shows "normalize_host host \<in> nc_denied (ns_cache (snd (fold net_apply events x)))"
  using assms by (induction events arbitrary: x) (simp_all add: net_apply_denied)

lemma is_cont_high: "is_cont c \<Longrightarrow> 127 < (of_char c :: nat)"
  by (cases c) (auto simp: of_char_Char)

lemma ws_first_bytes: "ws2 c d \<Longrightarrow> 127 < (of_char c :: nat)" "ws3 c d e \<Longrightarrow> 127 < (of_char c :: nat)"
  by (auto simp: ws2_def ws3_def)

lemma graphic_not_ws:
  assumes "graphic c"
  shows "ws_len (c # cs) = 0 \<and> ws_len_rev (c # cs) = 0"
proof -
  have "\<not> is_ascii_ws c" using assms by (auto simp: is_ascii_ws_def graphic_def)
  moreover have "\<not> ws2 c d" "\<not> ws2 d c" "\<not> ws3 c d e" "\<not> ws3 e d c" for d e
    using assms ws_first_bytes [of c] ws2_cont [of d c] ws3_cont [of e d c] is_cont_high [of c]
    by (auto simp: graphic_def)
  ultimately show ?thesis by (simp split: list.split)
qed

lemma strip_front_done: "f s = 0 \<Longrightarrow> strip_front f s = s"
  by (simp add: strip_front.simps [of f s])

lemma trim_graphic:
  assumes "list_all graphic h"
  shows "trim h = h"
proof -
  have "strip_front ws_len l = l \<and> strip_front ws_len_rev l = l" if "list_all graphic l" for l
    using that graphic_not_ws by (cases l) (auto intro: strip_front_done simp del: ws_len.simps(2) ws_len_rev.simps(2))
  moreover have "list_all graphic (rev h)" using assms by (simp add: list_all_iff)
  ultimately show ?thesis using assms by (simp add: trim_def trim_start_def trim_end_def)
qed

lemma lower_graphic: "graphic c \<Longrightarrow> graphic (lower_char c)"
  using lower_char_upper [of c] is_ascii_uppercase_iff [of c]
  by (cases "is_ascii_uppercase c") (auto simp: graphic_def, (cases c, simp)+)

definition strip_dots :: "string \<Rightarrow> string" where
  "strip_dots h = rev (dropWhile (\<lambda>c. c = CHR ''.'') (rev h))"

lemma strip_dots_fixed: "h = [] \<or> last h \<noteq> CHR ''.'' \<Longrightarrow> strip_dots h = h"
  by (cases h rule: rev_cases) (auto simp: strip_dots_def)

lemma strip_dots_last: "strip_dots h = [] \<or> last (strip_dots h) \<noteq> CHR ''.''"
  using hd_dropWhile [of "\<lambda>c. c = CHR ''.''" "rev h"]
  by (cases "dropWhile (\<lambda>c. c = CHR ''.'') (rev h) = []") (simp_all add: strip_dots_def last_rev)

lemma strip_dots_set: "set (strip_dots h) \<subseteq> set h"
  using set_dropWhileD [of _ "\<lambda>c. c = CHR ''.''" "rev h"] by (auto simp: strip_dots_def)

lemma normalize_host_dots:
  "normalize_host host = (let t = to_ascii_lowercase (strip_dots (trim host)) in
     case strip_prefix t ''*.'' of Some rest \<Rightarrow> CHR ''.'' # rest | None \<Rightarrow> t)"
  by (simp add: normalize_host_def strip_dots_def)

lemma lower_dot [simp]: "lower_char c = CHR ''.'' \<longleftrightarrow> c = CHR ''.''"
  by (rule lower_char_fixed) (simp_all)

lemma normalize_host_idem:
  assumes "list_all graphic host"
  shows "normalize_host (normalize_host host) = normalize_host host"
proof -
  define t where "t = to_ascii_lowercase (strip_dots host)"
  have g: "list_all graphic t"
    using assms strip_dots_set [of host] lower_graphic by (auto simp: t_def to_ascii_lowercase_def list_all_iff)
  have l: "t = [] \<or> last t \<noteq> CHR ''.''"
    using strip_dots_last [of host] by (auto simp: t_def to_ascii_lowercase_def last_map)
  have low: "to_ascii_lowercase t = t" by (simp add: t_def)
  have n: "normalize_host host = (case strip_prefix t ''*.'' of Some rest \<Rightarrow> CHR ''.'' # rest | None \<Rightarrow> t)"
    using trim_graphic [OF assms] by (simp only: normalize_host_dots t_def Let_def)
  show ?thesis
  proof (cases "strip_prefix t ''*.''")
    case None
    then show ?thesis using n g l low by (simp add: normalize_host_dots trim_graphic strip_dots_fixed)
  next
    case (Some rest)
    then have t: "t = ''*.'' @ rest" by (simp only: strip_prefix_Some)
    let ?x = "CHR ''.'' # rest"
    from t l have "strip_dots ?x = ?x" by (intro strip_dots_fixed) auto
    moreover have "trim ?x = ?x" using g t by (intro trim_graphic) simp
    moreover have "to_ascii_lowercase ?x = ?x" using low t by (simp add: to_ascii_lowercase_def)
    moreover have "strip_prefix ?x ''*.'' = None" by (simp add: strip_prefix_def starts_with_def)
    ultimately have "normalize_host ?x = ?x" by (simp only: normalize_host_dots Let_def option.case)
    with n Some show ?thesis by simp
  qed
qed

lemma evaluate_denied:
  assumes "normalize_host host \<in> nc_denied (ns_cache s)" and "normalize_host host \<noteq> []"
    and "normalize_host (normalize_host host) = normalize_host host"
  shows "fst (net_evaluate d host tool s) = Deny"
  using assms by (simp add: net_evaluate_def cache_is_denied_def Let_def)

text \<open>Once the user denied a host in a session, every later evaluation denies it, whatever else happens -
  other answers, refreshes of the policy, new allow entries - until the same host is approved.\<close>

theorem session_denial_holds:
  assumes "list_all graphic host" and "normalize_host host \<noteq> []"
    and "list_all (\<lambda>e. \<not> approves host e) events"
  shows "case fold net_apply events (net_apply (DenySession host tool) x) of
    (d, s) \<Rightarrow> fst (net_evaluate d host tool' s) = Deny"
proof -
  have "normalize_host host \<in> nc_denied (ns_cache (snd (net_apply (DenySession host tool) x)))"
    by (cases x) (simp add: deny_session_def cache_deny_def Let_def)
  from events_denied [OF this assms(3)] normalize_host_idem [OF assms(1)] assms(2) show ?thesis
    by (auto intro: evaluate_denied split: prod.split)
qed

definition example_policy :: NetworkPolicy where
  "example_policy = \<lparr>np_default = Deny, np_allow = [''.github.com''], np_deny = [''gist.github.com''],
     np_proxy = [''*.corp.example''], np_proxy_fake_ip_cidrs = [''198.18.0.0/16''], np_audit = True\<rparr>"

definition example_session :: "Decider \<times> NetSession" where
  "example_session = (with_default_audit True example_policy, \<lparr>ns_cache = empty_cache, ns_log = []\<rparr>)"

theorem session_denial_holds_witness:
  "case fold net_apply [Evaluate ''api.github.com'' ''Bash'',
      RefreshFrom True False (Some (example_policy\<lparr>np_allow := [''API.GitHub.com'']\<rparr>))]
      (net_apply (DenySession ''api.github.com.'' ''Bash'') example_session) of
    (d, s) \<Rightarrow> fst (net_evaluate d ''api.github.com.'' ''Bash'' s) = Deny"
proof -
  have "list_all graphic ''api.github.com.''" by (simp add: graphic_def)
  moreover have "normalize_host ''api.github.com.'' \<noteq> []" by code_simp
  ultimately show ?thesis by (rule session_denial_holds) simp
qed

fun denies :: "string \<Rightarrow> NetEvent \<Rightarrow> bool" where
  "denies host (DenySession h tool) \<longleftrightarrow> normalize_host h = normalize_host host"
| "denies host _ \<longleftrightarrow> False"

lemma net_apply_approved:
  assumes "normalize_host host \<in> nc_approved (ns_cache (snd x)) - nc_denied (ns_cache (snd x))" and "\<not> denies host e"
  shows "normalize_host host \<in> nc_approved (ns_cache (snd (net_apply e x))) - nc_denied (ns_cache (snd (net_apply e x)))"
  using assms
  by (cases x; cases e) (auto simp: approve_session_def deny_session_def approve_persistent_def
      cache_approve_def cache_deny_def Let_def)

lemma events_approved:
  assumes "normalize_host host \<in> nc_approved (ns_cache (snd x)) - nc_denied (ns_cache (snd x))"
    and "list_all (\<lambda>e. \<not> denies host e) events"
  shows "normalize_host host \<in> nc_approved (ns_cache (snd (fold net_apply events x)))
    - nc_denied (ns_cache (snd (fold net_apply events x)))"
  using assms
proof (induction events arbitrary: x)
  case (Cons e events)
  then show ?case using Cons.IH [OF net_apply_approved [OF Cons.prems(1)]] by simp
qed simp

text \<open>A session approval outlives a deny entry: after it, refreshing to a document that denies the host
  still evaluates to \<open>Allow\<close>, although the policy itself decides \<open>Deny\<close>.\<close>

theorem approval_outlives_deny_entry:
  assumes "list_all graphic host" and "normalize_host host \<noteq> []"
    and "list_all (\<lambda>e. \<not> denies host e) events" and "entry \<in> set (np_deny document)"
    and "host_matches entry (normalize_host host)"
  shows "case net_apply (RefreshFrom home managed (Some document))
      (fold net_apply events (net_apply (ApproveSession host tool) x)) of
    (d, s) \<Rightarrow> decide (nd_policy d) host = Deny \<and> fst (net_evaluate d host tool' s) = Allow"
proof -
  let ?y = "fold net_apply events (net_apply (ApproveSession host tool) x)"
  have "normalize_host host \<in> nc_approved (ns_cache (snd (net_apply (ApproveSession host tool) x)))
      - nc_denied (ns_cache (snd (net_apply (ApproveSession host tool) x)))"
    by (cases x) (simp add: approve_session_def cache_approve_def Let_def)
  note session = events_approved [OF this assms(3)]
  obtain d s where y: "?y = (d, s)" by fastforce
  let ?d = "the (current_network_decider home managed (Some d) (Some document))"
  have "entry \<in> set (np_deny (nd_policy ?d))"
    using assms(4) by (simp add: current_network_decider_def with_policy_refreshed_def)
  with assms(2,5) have "decide (nd_policy ?d) host = Deny"
    by (auto simp: decide_def Let_def list_ex_iff)
  moreover have "fst (net_evaluate ?d host tool' s) = Allow"
    using session y assms(2) normalize_host_idem [OF assms(1)]
    by (simp add: net_evaluate_def cache_is_denied_def cache_is_approved_def Let_def)
  ultimately show ?thesis using y by simp
qed

theorem approval_outlives_deny_entry_witness:
  "case net_apply (RefreshFrom True False (Some example_policy))
      (fold net_apply [] (net_apply (ApproveSession ''gist.github.com'' ''Bash'') example_session)) of
    (d, s) \<Rightarrow> decide (nd_policy d) ''gist.github.com'' = Deny
      \<and> fst (net_evaluate d ''gist.github.com'' ''Bash'' s) = Allow"
proof -
  have "list_all graphic ''gist.github.com''" by (simp add: graphic_def)
  moreover have "normalize_host ''gist.github.com'' \<noteq> []" by code_simp
  moreover have "''gist.github.com'' \<in> set (np_deny example_policy)" by (simp add: example_policy_def)
  moreover have "host_matches ''gist.github.com'' (normalize_host ''gist.github.com'')" by code_simp
  ultimately show ?thesis by (intro approval_outlives_deny_entry) simp_all
qed

section \<open>Fetch targets\<close>

lemma validate_dns_resolved_ip_Inr:
  assumes "validate_dns_resolved_ip host ip (Some d) tool s = (Inr r, s')" and "list_all fakeip_range_ok (nd_trusted_fakeip_cidrs d)"
  shows "\<not> is_restricted_ip ip \<or> (\<exists>v4. ip = V4 v4 \<and> benchmark_block v4 \<and> trusts_proxy_fakeip_host (nd_policy d) host)"
proof (cases ip)
  case (V4 v4)
  with assms show ?thesis using range_in_block
    by (fastforce simp: validate_dns_resolved_ip_def list_ex_iff list_all_iff split: if_splits)
qed (use assms in \<open>auto simp: validate_dns_resolved_ip_def split: if_splits\<close>)

lemma validate_addrs_Inr:
  assumes "validate_addrs host decider tool first_valid addrs s = (Inr found, s')"
  shows "found = (if first_valid = None then (case addrs of [] \<Rightarrow> None | ip # _ \<Rightarrow> Some ip) else first_valid)
    \<and> (\<forall>ip \<in> set addrs. \<exists>r s s'. validate_dns_resolved_ip host ip decider tool s = (Inr r, s'))"
  using assms
proof (induction host decider tool first_valid addrs s rule: validate_addrs.induct)
  case (2 host decider tool first_valid ip ips s)
  obtain r s1 where v: "validate_dns_resolved_ip host ip decider tool s = (r, s1)" by fastforce
  with 2 show ?case by (cases r) (fastforce split: if_splits)+
qed auto

lemma validate_network_policy_Inr:
  "validate_network_policy host (Some d) tool s = (Inr r, s') \<Longrightarrow> fst (net_evaluate d host tool s) = Allow"
  by (auto simp: validate_network_policy_def split: prod.splits Decision.splits)

definition public_or_placeholder :: "Decider \<Rightarrow> string \<Rightarrow> IpAddr \<Rightarrow> bool" where
  "public_or_placeholder d host ip \<longleftrightarrow> \<not> is_restricted_ip ip
     \<or> (\<exists>v4. ip = V4 v4 \<and> benchmark_block v4 \<and> trusts_proxy_fakeip_host (nd_policy d) host)"

lemma destination_guarded:
  assumes "validate_fetch_destination parse_ip lookup host (Some d) tool True s = (Inr pin, s')"
    and "list_all fakeip_range_ok (nd_trusted_fakeip_cidrs d)"
  shows "\<not> is_localhost_name host
    \<and> (case pin of
        None \<Rightarrow> \<exists>ip. parse_ip (ip_candidate host) = Some ip \<and> \<not> is_restricted_ip ip
      | Some (name, ip) \<Rightarrow> name = host \<and> parse_ip (ip_candidate host) = None
          \<and> (\<exists>addrs. lookup host = Addresses (ip # addrs) \<and> (\<forall>a \<in> set (ip # addrs). public_or_placeholder d host a)))"
proof -
  have nl: "\<not> is_localhost_name host" using assms(1) by (auto simp: validate_fetch_destination_def)
  show ?thesis
  proof (cases "parse_ip (ip_candidate host)")
    case (Some ip)
    with assms(1) nl show ?thesis by (auto simp: validate_fetch_destination_def split: if_splits)
  next
    case None
    with assms(1) nl obtain addrs where l: "lookup host = Addresses addrs"
      by (cases "lookup host") (auto simp: validate_fetch_destination_def)
    obtain found s1 where v: "validate_addrs host (Some d) tool None addrs s = (found, s1)" by fastforce
    with assms(1) nl None l obtain ip where f: "found = Inr (Some ip)" and pin: "pin = Some (host, ip)"
      by (auto simp: validate_fetch_destination_def split: sum.splits option.splits)
    from validate_addrs_Inr [OF v [unfolded f]] obtain rest where "addrs = ip # rest"
        and "\<forall>a \<in> set addrs. \<exists>r s s'. validate_dns_resolved_ip host a (Some d) tool s = (Inr r, s')"
      by (auto split: list.splits)
    with validate_dns_resolved_ip_Inr [OF _ assms(2)] pin None nl l show ?thesis
      by (auto simp: public_or_placeholder_def)
  qed
qed

text \<open>C11. What a validated fetch target can be, for every resolver and every configuration of a reachable
  session: an http or https URL whose host the policy allows and which is no local name; either a literal
  public address, or a name pinned to the first answer of the lookup, every answer being public or, for a
  trusted proxy host, inside the benchmark block 198.18.0.0/15.\<close>

theorem fetch_target_guarded:
  assumes "net_reachable (d, s)"
    and "validate_fetch_target parse_ip lookup url (Some d) tool s = (Inr pin, s')"
  shows "\<exists>host. fetch_target_host url = Inr host \<and> url_scheme url \<in> {''http'', ''https''}
    \<and> fst (net_evaluate d host tool s) = Allow \<and> \<not> is_localhost_name host
    \<and> (case pin of
        None \<Rightarrow> \<exists>ip. parse_ip (ip_candidate host) = Some ip \<and> \<not> is_restricted_ip ip
      | Some (name, ip) \<Rightarrow> name = host \<and> parse_ip (ip_candidate host) = None
          \<and> (\<exists>addrs. lookup host = Addresses (ip # addrs) \<and> (\<forall>a \<in> set (ip # addrs). public_or_placeholder d host a)))"
proof -
  have ranges: "list_all fakeip_range_ok (nd_trusted_fakeip_cidrs d)"
    using net_reachable_ok [OF assms(1)] by (simp add: net_ok_def)
  from assms(2) obtain host r s1 where h: "fetch_target_host url = Inr host"
      and p: "validate_network_policy host (Some d) tool s = (Inr r, s1)"
      and d: "validate_fetch_destination parse_ip lookup host (Some d) tool True s1 = (Inr pin, s')"
    by (auto simp: validate_fetch_target_def split: sum.splits prod.splits)
  have "url_scheme url \<in> {''http'', ''https''}"
    using h by (auto simp: fetch_target_host_def split: if_splits)
  with h destination_guarded [OF d ranges] validate_network_policy_Inr [OF p] show ?thesis by blast
qed

definition example_lookup :: "string \<Rightarrow> LookupResult" where
  "example_lookup host = Addresses [V4 (ipv4_of_octets 140 82 112 6)]"

definition no_literal :: "string \<Rightarrow> IpAddr option" where
  "no_literal host = None"

theorem fetch_target_guarded_witness:
  "\<not> is_restricted_ip (V4 (ipv4_of_octets 140 82 112 6)) \<and>
    fst (net_evaluate (decider_new example_policy None) ''api.github.com'' ''fetch_url''
      \<lparr>ns_cache = empty_cache, ns_log = []\<rparr>) = Allow"
proof -
  let ?d = "decider_new example_policy None"
  let ?s = "\<lparr>ns_cache = empty_cache, ns_log = []\<rparr>"
  let ?url = "\<lparr>url_scheme = ''https'', url_host = Some ''API.github.com''\<rparr>"
  have "net_reachable (?d, ?s)" by (auto simp: net_reachable_def net_start_def)
  moreover have "validate_fetch_target no_literal example_lookup ?url (Some ?d) ''fetch_url'' ?s
      = (Inr (Some (''api.github.com'', V4 (ipv4_of_octets 140 82 112 6))), ?s)"
    by code_simp
  moreover have "fetch_target_host ?url = Inr ''api.github.com''" by code_simp
  moreover have "\<not> trusts_proxy_fakeip_host (nd_policy ?d) ''api.github.com''" by code_simp
  ultimately show ?thesis using fetch_target_guarded [of ?d ?s no_literal example_lookup ?url "''fetch_url''"]
    by (auto simp: public_or_placeholder_def)
qed

end
