(* ===== verification/ReadonlyNet.thy ===== *)
theory ReadonlyNet
  imports ReadonlyProps NetProps
begin

text \<open>
  The network policy applied to the reads inside a read-only shell command
  (\<open>enforce_readonly_network_reads\<close> of \<open>crates/engine/src/tools/shell.rs\<close>): the grammar of
  \<open>ReadonlyShell\<close> composed with the decider of \<open>NetPolicy\<close>.
\<close>

text \<open>The loop over the reads; the tool label is \<open>Bash\<close>.\<close>

fun enforce_reads :: "Decider \<Rightarrow> NetworkRead list \<Rightarrow> NetSession \<Rightarrow> (FetchError + unit) \<times> NetSession" where
  "enforce_reads d [] s = (Inr (), s)"
| "enforce_reads d (read # reads) s =
     (case net_evaluate d (network_host read) ''Bash'' s of
        (Decision.Allow, s) \<Rightarrow> enforce_reads d reads s
      | (Decision.Deny, s) \<Rightarrow> (Inl (PolicyBlocked (network_host read)), s)
      | (Decision.Prompt, s) \<Rightarrow> (Inl (PolicyNeedsApproval (network_host read)), s))"

text \<open>\<open>readonly\<close>: whether the shell policy of the context is \<open>ReadOnly\<close>.\<close>

definition enforce_readonly_network_reads ::
  "splitter \<Rightarrow> bool \<Rightarrow> string \<Rightarrow> Decider option \<Rightarrow> NetSession \<Rightarrow> (FetchError + unit) \<times> NetSession" where
  "enforce_readonly_network_reads sx readonly command decider s =
     (case decider of
        None \<Rightarrow> (Inr (), s)
      | Some d \<Rightarrow>
          let reads = readonly_network_reads sx command;
              lone = (case agent_readonly_verdict sx command of
                        Inr segments \<Rightarrow> length segments = 1 | Inl _ \<Rightarrow> False)
          in enforce_reads d
               (if readonly then reads else filter (\<lambda>read. lone \<and> read = GitHub) reads) s)"

lemma net_evaluate_decision:
  "ns_cache s = ns_cache s' \<Longrightarrow> fst (net_evaluate d host tool s) = fst (net_evaluate d host tool s')"
  by (simp add: net_evaluate_def cache_is_denied_def cache_is_approved_def Let_def split: Decision.split)

lemma enforce_reads_accepts:
  "(\<exists>s'. enforce_reads d reads s = (Inr (), s'))
    \<longleftrightarrow> (\<forall>read \<in> set reads. fst (net_evaluate d (network_host read) ''Bash'' s) = Decision.Allow)"
proof (induction d reads s rule: enforce_reads.induct)
  case (2 d read reads s)
  obtain r s1 where e: "net_evaluate d (network_host read) ''Bash'' s = (r, s1)" by fastforce
  then have "ns_cache s1 = ns_cache s" using net_evaluate_cache [of d "network_host read" "''Bash''" s] by simp
  then have "fst (net_evaluate d host tool s1) = fst (net_evaluate d host tool s)" for host tool
    by (rule net_evaluate_decision)
  with 2 e show ?case by (cases r) simp_all
qed simp

text \<open>The read-only shell and the network policy compose exactly: an admitted command passes the network
  check if and only if no segment runs \<open>gh\<close> or the policy and session allow \<open>api.github.com\<close>, wherever
  the segment stands in the chain and however many \<open>cd\<close> prefixes come before it.\<close>

theorem readonly_reads_follow_policy:
  assumes "agent_readonly_verdict sx (strip_leading_cds sx command) = Inr segments"
    and "\<forall>s \<in> set segments. segment_words sx s = shell_words sx (trim (sg_command s))"
  shows "(\<exists>s'. enforce_readonly_network_reads sx True command (Some d) s = (Inr (), s'))
    \<longleftrightarrow> ((\<exists>s \<in> set segments. hd (shell_words sx (trim (sg_command s))) = ''gh'')
          \<longrightarrow> fst (net_evaluate d ''api.github.com'' ''Bash'' s) = Decision.Allow)"
  unfolding enforce_readonly_network_reads_def using network_reads_exact [OF assms]
  by (simp add: enforce_reads_accepts Let_def)

theorem readonly_reads_follow_policy_witness:
  "\<not> (\<exists>s'. enforce_readonly_network_reads plain_split True ''gh pr list | head''
      (Some (decider_new network_policy_default None)) \<lparr>ns_cache = empty_cache, ns_log = []\<rparr> = (Inr (), s'))"
proof -
  let ?a = "\<lparr>sg_command = ''gh pr list '', sg_redirects = [], sg_join = Some Pipe, sg_start = 0\<rparr> :: ReadonlySegment"
  let ?b = "\<lparr>sg_command = '' head'', sg_redirects = [], sg_join = None, sg_start = 12\<rparr> :: ReadonlySegment"
  have no: "split_leading_cd plain_split ''gh pr list | head'' = None" by code_simp
  have "agent_readonly_verdict plain_split ''gh pr list | head'' = Inr [?a, ?b]" by code_simp
  then have v: "agent_readonly_verdict plain_split (strip_leading_cds plain_split ''gh pr list | head'') = Inr [?a, ?b]"
    by (simp add: strip_leading_cds.simps [of _ "''gh pr list | head''"] no)
  have "segment_words plain_split ?a = shell_words plain_split (trim (sg_command ?a))"
    and "segment_words plain_split ?b = shell_words plain_split (trim (sg_command ?b))"
    and gh: "hd (shell_words plain_split (trim (sg_command ?a))) = ''gh''" by code_simp+
  then have w: "\<forall>s \<in> set [?a, ?b]. segment_words plain_split s = shell_words plain_split (trim (sg_command s))" by simp
  have "fst (net_evaluate (decider_new network_policy_default None) ''api.github.com'' ''Bash''
      \<lparr>ns_cache = empty_cache, ns_log = []\<rparr>) \<noteq> Decision.Allow" by code_simp
  with readonly_reads_follow_policy [OF v w] gh show ?thesis by simp
qed

end
