(* ===== verification/Turns.thy ===== *)
theory Turns
  imports Prelude
begin

text \<open>
  Transcript messages (\<open>crates/protocol/src/role.rs\<close>, \<open>crates/protocol/src/request.rs\<close>) and
  the structural recognition of engine-owned turns
  (\<open>crates/models/src/turn_classify.rs\<close>). A \<open>serde_json::Value\<close> is the type parameter
  \<open>'j\<close>: the code of these files only copies it and compares it for equality.
\<close>

section \<open>Roles\<close>

datatype Role = RoleUser | RoleAssistant | RoleSystem | RoleDeveloper | RoleInterruptedAssistant
  | RoleUnrecognized string

definition INTERRUPTED_ASSISTANT_ROLE :: string where
  "INTERRUPTED_ASSISTANT_ROLE = ''assistant_interrupted''"

fun role_as_str :: "Role \<Rightarrow> string" where
  "role_as_str RoleUser = ''user''"
| "role_as_str RoleAssistant = ''assistant''"
| "role_as_str RoleSystem = ''system''"
| "role_as_str RoleDeveloper = ''developer''"
| "role_as_str RoleInterruptedAssistant = INTERRUPTED_ASSISTANT_ROLE"
| "role_as_str (RoleUnrecognized raw) = raw"

definition role_is_assistant_like :: "Role \<Rightarrow> bool" where
  "role_is_assistant_like r \<longleftrightarrow> (case r of RoleAssistant \<Rightarrow> True | RoleInterruptedAssistant \<Rightarrow> True | _ \<Rightarrow> False)"

definition role_from_str :: "string \<Rightarrow> Role" where
  "role_from_str s =
     (if s = ''user'' then RoleUser
      else if s = ''assistant'' then RoleAssistant
      else if s = ''system'' then RoleSystem
      else if s = ''developer'' then RoleDeveloper
      else if s = INTERRUPTED_ASSISTANT_ROLE then RoleInterruptedAssistant
      else RoleUnrecognized s)"

text \<open>\<open>impl PartialEq<str> for Role\<close>: a role compares with a string through its wire form.\<close>

definition role_eq_str :: "Role \<Rightarrow> string \<Rightarrow> bool" where
  "role_eq_str r s \<longleftrightarrow> role_as_str r = s"

section \<open>Messages\<close>

record CacheControl =
  cc_type :: string

record ToolCaller =
  tc_caller_type :: string
  tc_tool_id :: "string option"

record OpaqueReasoningState =
  ors_provider :: string
  ors_api :: string
  ors_model :: string
  ors_id :: "string option"
  ors_encrypted_content :: string

record ImageUrlContent =
  iu_url :: string

datatype 'j ContentBlock =
    CbText string "CacheControl option"
  | CbImageUrl ImageUrlContent
  | CbThinking string "string option" "OpaqueReasoningState option" "string option"
  | CbToolUse string string 'j "string option" "ToolCaller option" "string option"
  | CbToolResult string string "string option" "bool option" "'j list option"
  | CbServerToolUse string string 'j
  | CbToolSearchToolResult string 'j
  | CbCodeExecutionToolResult string 'j

record 'j Message =
  msg_role :: Role
  msg_content :: "'j ContentBlock list"

definition interrupted_assistant :: "string \<Rightarrow> 'j Message" where
  "interrupted_assistant t = \<lparr>msg_role = RoleInterruptedAssistant, msg_content = [CbText t None]\<rparr>"

section \<open>Checkpoint markers\<close>

definition COMPACTION_SUMMARY_MARKER :: string where
  "COMPACTION_SUMMARY_MARKER = ''Codewhale handoff note''"

definition LEGACY_V2_COMPACTION_SUMMARY_MARKER :: string where
  "LEGACY_V2_COMPACTION_SUMMARY_MARKER = ''Another language model started to solve this problem''"

definition COMPACTION_CHECKPOINT_PROVENANCE :: string where
  "COMPACTION_CHECKPOINT_PROVENANCE = ''<!-- codewhale.compaction-checkpoint.v1 -->''"

definition RESTORED_CHECKPOINT_TURN_META :: string where
  "RESTORED_CHECKPOINT_TURN_META = concat
     [''<turn_meta>'', [CHR 0x0A],
      ''Input provenance: subagent_handoff (non-authoritative)'', [CHR 0x0A],
      ''Restore projection: subagent_checkpoint_v1'', [CHR 0x0A],
      ''</turn_meta>'']"

definition RESTORED_COMPLETION_HEADER :: string where
  "RESTORED_COMPLETION_HEADER = ''[Codewhale restored sub-agent checkpoint]''"

definition RESTORED_COMPLETIONS_HEADER :: string where
  "RESTORED_COMPLETIONS_HEADER = ''[Codewhale restored sub-agent checkpoints]''"

definition RESTORED_RUNNING_HEADER :: string where
  "RESTORED_RUNNING_HEADER = ''[Codewhale restored sub-agent runtime checkpoint]''"

definition RESTORED_TOPOLOGY_HEADER :: string where
  "RESTORED_TOPOLOGY_HEADER = ''[Codewhale restored Agent topology checkpoint]''"

definition is_wire_compaction_checkpoint_message :: "'j Message \<Rightarrow> bool" where
  "is_wire_compaction_checkpoint_message m =
     (case msg_content m of
        [CbText txt None, CbText provenance None] \<Rightarrow>
          msg_role m = RoleUser
          \<and> (starts_with txt COMPACTION_SUMMARY_MARKER
             \<or> starts_with txt LEGACY_V2_COMPACTION_SUMMARY_MARKER)
          \<and> provenance = COMPACTION_CHECKPOINT_PROVENANCE
      | _ \<Rightarrow> False)"

definition restored_subagent_checkpoint_display :: "'j Message \<Rightarrow> string option" where
  "restored_subagent_checkpoint_display m =
     (if \<not> role_eq_str (msg_role m) ''user'' then None
      else case msg_content m of
        [CbText txt first_cache, CbText turn_meta meta_cache] \<Rightarrow>
          (if first_cache \<noteq> None \<or> meta_cache \<noteq> None
              \<or> turn_meta \<noteq> RESTORED_CHECKPOINT_TURN_META
              \<or> \<not> list_ex (starts_with txt)
                   [RESTORED_COMPLETION_HEADER, RESTORED_COMPLETIONS_HEADER,
                    RESTORED_RUNNING_HEADER, RESTORED_TOPOLOGY_HEADER]
           then None else Some txt)
      | _ \<Rightarrow> None)"

section \<open>The engine's turn metadata\<close>

definition is_complete_turn_metadata :: "string \<Rightarrow> bool" where
  "is_complete_turn_metadata txt =
     (case strip_prefix txt ''<turn_meta>'' of
        None \<Rightarrow> False
      | Some body \<Rightarrow>
          (case split_once_str ''</turn_meta>'' body of
             None \<Rightarrow> False
           | Some (_, tail) \<Rightarrow> tail = []))"

text \<open>The two shapes: the current trailing block, and the historical leading one, which
  needs an ordinary text block last.\<close>

definition trailing_turn_metadata :: "'j ContentBlock list \<Rightarrow> (nat \<times> string) option" where
  "trailing_turn_metadata blocks =
     (case last blocks of
        CbText txt None \<Rightarrow>
          (let trimmed = trim txt in
           if is_complete_turn_metadata trimmed then Some (length blocks - 1, trimmed) else None)
      | _ \<Rightarrow> None)"

definition trailing_text_is_ordinary :: "'j ContentBlock list \<Rightarrow> bool" where
  "trailing_text_is_ordinary blocks =
     (case last blocks of CbText txt _ \<Rightarrow> \<not> is_complete_turn_metadata (trim txt) | _ \<Rightarrow> False)"

definition turn_metadata_text :: "'j Message \<Rightarrow> (nat \<times> string) option" where
  "turn_metadata_text m =
     (let blocks = msg_content m in
      if length blocks < 2 then None
      else case trailing_turn_metadata blocks of
        Some found \<Rightarrow> Some found
      | None \<Rightarrow>
          (case hd blocks of
             CbText txt None \<Rightarrow>
               (let trimmed = trim txt in
                if is_complete_turn_metadata trimmed \<and> trailing_text_is_ordinary blocks
                then Some (0, trimmed) else None)
           | _ \<Rightarrow> None))"

record ProvenanceScan =
  ps_has_provenance :: bool
  ps_condensed :: bool
  ps_legacy :: bool

definition scan_provenance_line :: "string \<Rightarrow> ProvenanceScan \<Rightarrow> ProvenanceScan" where
  "scan_provenance_line raw st =
     (let line = trim raw;
          st1 = (case strip_prefix line ''Input provenance: '' of
                   Some v \<Rightarrow> st\<lparr>ps_has_provenance := True,
                               ps_condensed := ps_condensed st \<or> ends_with v '' (non-authoritative)''\<rparr>
                 | None \<Rightarrow> st)
      in st1\<lparr>ps_legacy := ps_legacy st1 \<or> line = ''Input authority: non_authoritative''\<rparr>)"

definition has_non_authoritative_turn_provenance :: "'j Message \<Rightarrow> bool" where
  "has_non_authoritative_turn_provenance m =
     (case turn_metadata_text m of
        None \<Rightarrow> False
      | Some (_, metadata) \<Rightarrow>
          (let st = fold scan_provenance_line (lines metadata)
                      \<lparr>ps_has_provenance = False, ps_condensed = False, ps_legacy = False\<rparr>
           in ps_condensed st \<or> (ps_has_provenance st \<and> ps_legacy st)))"

definition is_runtime_owned_user_message :: "'j Message \<Rightarrow> bool" where
  "is_runtime_owned_user_message m \<longleftrightarrow>
     restored_subagent_checkpoint_display m \<noteq> None \<or> has_non_authoritative_turn_provenance m"

section \<open>Classification of user turns\<close>

datatype UserTurnPromptKind = NotPrompt | Editable | Unsupported

definition is_tool_result_block :: "'j ContentBlock \<Rightarrow> bool" where
  "is_tool_result_block b =
     (case b of CbToolResult _ _ _ _ _ \<Rightarrow> True | CbToolSearchToolResult _ _ \<Rightarrow> True
      | CbCodeExecutionToolResult _ _ \<Rightarrow> True | _ \<Rightarrow> False)"

definition is_text_block :: "'j ContentBlock \<Rightarrow> bool" where
  "is_text_block b = (case b of CbText _ _ \<Rightarrow> True | _ \<Rightarrow> False)"

definition classify_user_turn_prompt :: "'j Message \<Rightarrow> UserTurnPromptKind" where
  "classify_user_turn_prompt m =
     (if msg_role m \<noteq> RoleUser then NotPrompt
      else if list_ex is_tool_result_block (msg_content m) then NotPrompt
      else if is_runtime_owned_user_message m \<or> is_wire_compaction_checkpoint_message m then NotPrompt
      else let turn_metadata_index = map_option fst (turn_metadata_text m) in
        if list_ex (\<lambda>(i, b). Some i \<noteq> turn_metadata_index \<and> is_text_block b)
             (enumerate 0 (msg_content m))
        then Editable else Unsupported)"

definition same_recorded_turn :: "'j Message \<Rightarrow> 'j Message \<Rightarrow> bool" where
  "same_recorded_turn left right =
     (if left = right then True
      else if msg_role left \<noteq> RoleUser \<or> msg_role right \<noteq> RoleUser then False
      else
        let (bare, stamped) =
              (if length (msg_content left) < length (msg_content right) then (left, right)
               else (right, left))
        in if checked_sub (length (msg_content stamped)) 1 \<noteq> Some (length (msg_content bare)) then False
           else case turn_metadata_text stamped of
             None \<Rightarrow> False
           | Some (index, metadata) \<Rightarrow>
               (if \<not> starts_with metadata (''<turn_meta>'' @ CHR 0x0A # ''Current local date: '')
                   \<or> classify_user_turn_prompt stamped = NotPrompt
                   \<or> turn_metadata_text bare \<noteq> None
                then False
                else take index (msg_content stamped) = take index (msg_content bare)
                     \<and> drop (index + 1) (msg_content stamped) = drop index (msg_content bare)))"

section \<open>Facts about roles\<close>

lemma role_as_str_from_str [simp]: "role_as_str (role_from_str s) = s"
  by (simp add: role_from_str_def)

lemma role_from_str_as_str:
  "role_from_str (role_as_str r) =
     (case r of RoleUnrecognized raw \<Rightarrow> role_from_str raw | _ \<Rightarrow> r)"
  by (cases r) (simp_all add: role_from_str_def INTERRUPTED_ASSISTANT_ROLE_def)

text \<open>Persisting a role is lossless: reading any wire string and writing it back gives
  the same bytes, and re-reading what a loaded role writes gives the same role, so a
  transcript of a newer build survives a load and save. An interrupted assistant is never
  read back as a plain assistant.\<close>

theorem role_wire_round_trip:
  "role_as_str (role_from_str s) = s
   \<and> role_from_str (role_as_str (role_from_str s)) = role_from_str s
   \<and> (role_from_str s = RoleAssistant \<longleftrightarrow> s = ''assistant'')
   \<and> (role_from_str s = RoleInterruptedAssistant \<longleftrightarrow> s = ''assistant_interrupted'')"
  by (simp add: role_from_str_def INTERRUPTED_ASSISTANT_ROLE_def)

section \<open>Facts about turn metadata\<close>

lemma turn_metadata_text_index:
  "turn_metadata_text m = Some (i, md) \<Longrightarrow>
     2 \<le> length (msg_content m) \<and> (i = 0 \<or> i = length (msg_content m) - 1)"
  by (auto simp: turn_metadata_text_def trailing_turn_metadata_def Let_def
      split: if_splits option.splits ContentBlock.splits)

lemma turn_metadata_text_single: "length (msg_content m) < 2 \<Longrightarrow> turn_metadata_text m = None"
  by (simp add: turn_metadata_text_def)

lemma turn_metadata_text_block:
  assumes "turn_metadata_text m = Some (i, md)"
  obtains body where "msg_content m ! i = CbText body None" "md = trim body"
    "is_complete_turn_metadata md"
proof -
  let ?bs = "msg_content m"
  have len: "\<not> length ?bs < 2" using assms by (auto simp: turn_metadata_text_def)
  then have ne: "?bs \<noteq> []" by auto
  show thesis
  proof (cases "trailing_turn_metadata ?bs")
    case (Some found)
    then have "found = (i, md)" using assms len by (simp add: turn_metadata_text_def)
    with Some show thesis
      by (auto simp: trailing_turn_metadata_def Let_def last_conv_nth [OF ne]
          split: ContentBlock.splits option.splits if_splits intro: that)
  next
    case None
    with assms len show thesis
      by (auto simp: turn_metadata_text_def Let_def hd_conv_nth [OF ne]
          split: ContentBlock.splits option.splits if_splits intro: that)
  qed
qed

text \<open>The blocks of a message without the engine's metadata block.\<close>

definition prompt_blocks :: "'j Message \<Rightarrow> 'j ContentBlock list" where
  "prompt_blocks m =
     (case turn_metadata_text m of
        None \<Rightarrow> msg_content m
      | Some (i, _) \<Rightarrow> take i (msg_content m) @ drop (i + 1) (msg_content m))"

text \<open>The half of \<^const>\<open>same_recorded_turn\<close> that compares a bare turn with a stamped one.\<close>

definition stamps_turn :: "'j Message \<Rightarrow> 'j Message \<Rightarrow> bool" where
  "stamps_turn bare stamped \<longleftrightarrow>
     length (msg_content stamped) = Suc (length (msg_content bare))
     \<and> msg_role bare = RoleUser \<and> msg_role stamped = RoleUser
     \<and> turn_metadata_text bare = None
     \<and> classify_user_turn_prompt stamped \<noteq> NotPrompt
     \<and> (\<exists>i md. turn_metadata_text stamped = Some (i, md)
           \<and> starts_with md (''<turn_meta>'' @ CHR 0x0A # ''Current local date: '')
           \<and> prompt_blocks stamped = msg_content bare)"

lemma take_drop_split:
  assumes "i \<le> length ys" and "length xs = Suc (length ys)"
  shows "take i xs = take i ys \<and> drop (Suc i) xs = drop i ys
           \<longleftrightarrow> take i xs @ drop (Suc i) xs = ys"
proof
  assume "take i xs = take i ys \<and> drop (Suc i) xs = drop i ys"
  then show "take i xs @ drop (Suc i) xs = ys" by simp
next
  assume eq: "take i xs @ drop (Suc i) xs = ys"
  have len: "length (take i xs) = i" using assms by simp
  from eq have "take i ys = take i xs"
    using len by (metis append_eq_conv_conj)
  moreover from eq have "drop i ys = drop (Suc i) xs"
    using len by (metis append_eq_conv_conj)
  ultimately show "take i xs = take i ys \<and> drop (Suc i) xs = drop i ys" by simp
qed

lemma checked_sub_one: "checked_sub n (Suc 0) = Some k \<longleftrightarrow> n = Suc k"
  by (auto simp: checked_sub_def)

lemma stamped_comparison:
  assumes "length (msg_content s) = Suc (length (msg_content b))"
    and "msg_role b = RoleUser" and "msg_role s = RoleUser"
  shows "(case turn_metadata_text s of None \<Rightarrow> False | Some (index, metadata) \<Rightarrow>
       (if \<not> starts_with metadata (''<turn_meta>'' @ CHR 0x0A # ''Current local date: '')
             \<or> classify_user_turn_prompt s = NotPrompt \<or> turn_metadata_text b \<noteq> None
        then False
        else take index (msg_content s) = take index (msg_content b)
             \<and> drop (index + 1) (msg_content s) = drop index (msg_content b)))
     \<longleftrightarrow> stamps_turn b s"
proof (cases "turn_metadata_text s")
  case None
  then show ?thesis by (simp add: stamps_turn_def)
next
  case (Some im)
  obtain i md where im: "im = (i, md)" by (cases im)
  have "i \<le> length (msg_content b)"
    using turn_metadata_text_index [of s i md] Some im assms(1) by auto
  then have "(take i (msg_content s) = take i (msg_content b)
      \<and> drop (Suc i) (msg_content s) = drop i (msg_content b))
      \<longleftrightarrow> prompt_blocks s = msg_content b"
    using take_drop_split [of i "msg_content b" "msg_content s"] assms(1) Some im
    by (simp add: prompt_blocks_def)
  then show ?thesis using Some im assms
    by (cases "turn_metadata_text b") (auto simp: stamps_turn_def)
qed

lemma same_recorded_turn_iff:
  "same_recorded_turn l r \<longleftrightarrow> l = r \<or> stamps_turn l r \<or> stamps_turn r l"
proof -
  consider "l = r" | "l \<noteq> r" "msg_role l \<noteq> RoleUser \<or> msg_role r \<noteq> RoleUser"
    | "l \<noteq> r" "msg_role l = RoleUser" "msg_role r = RoleUser"
        "length (msg_content l) < length (msg_content r)"
    | "l \<noteq> r" "msg_role l = RoleUser" "msg_role r = RoleUser"
        "\<not> length (msg_content l) < length (msg_content r)"
    by blast
  then show ?thesis
  proof cases
    case 1
    then show ?thesis by (simp add: same_recorded_turn_def)
  next
    case 2
    then show ?thesis by (auto simp: same_recorded_turn_def stamps_turn_def)
  next
    case 3
    have no: "\<not> stamps_turn r l" using 3 by (simp add: stamps_turn_def)
    show ?thesis
    proof (cases "length (msg_content r) = Suc (length (msg_content l))")
      case True
      with stamped_comparison [of r l] 3 no show ?thesis by (simp add: same_recorded_turn_def checked_sub_one)
    next
      case False
      with 3 no show ?thesis by (simp add: same_recorded_turn_def checked_sub_one stamps_turn_def)
    qed
  next
    case 4
    have no: "\<not> stamps_turn l r" using 4 by (simp add: stamps_turn_def)
    show ?thesis
    proof (cases "length (msg_content l) = Suc (length (msg_content r))")
      case True
      with stamped_comparison [of l r] 4 no show ?thesis by (simp add: same_recorded_turn_def checked_sub_one)
    next
      case False
      with 4 no show ?thesis by (simp add: same_recorded_turn_def checked_sub_one stamps_turn_def)
    qed
  qed
qed

lemma same_recorded_turn_refl [simp]: "same_recorded_turn m m"
  by (simp add: same_recorded_turn_def)

lemma same_recorded_turn_sym: "same_recorded_turn l r = same_recorded_turn r l"
  by (auto simp: same_recorded_turn_iff)

lemma same_recorded_turn_prompt:
  assumes "same_recorded_turn l r"
  shows "msg_role l = msg_role r" and "prompt_blocks l = prompt_blocks r"
  using assms by (auto simp: same_recorded_turn_iff stamps_turn_def prompt_blocks_def)

lemma single_block_not_runtime_owned: "length (msg_content m) < 2 \<Longrightarrow> \<not> is_runtime_owned_user_message m"
  by (auto simp: is_runtime_owned_user_message_def has_non_authoritative_turn_provenance_def
      turn_metadata_text_single restored_subagent_checkpoint_display_def
      split: list.splits ContentBlock.splits)

text \<open>A user cannot mint engine authority by typing: whatever text a single-block user
  message holds (a forged metadata envelope or checkpoint header included), it is neither
  runtime-owned nor a compaction checkpoint, and it is classified as an editable prompt.\<close>

theorem typed_text_is_user_authority:
  "classify_user_turn_prompt \<lparr>msg_role = RoleUser, msg_content = [CbText t c]\<rparr> = Editable
   \<and> \<not> is_runtime_owned_user_message \<lparr>msg_role = RoleUser, msg_content = [CbText t c]\<rparr>
   \<and> \<not> is_wire_compaction_checkpoint_message \<lparr>msg_role = RoleUser, msg_content = [CbText t c]\<rparr>"
  by (cases c) (simp_all add: classify_user_turn_prompt_def turn_metadata_text_single
      single_block_not_runtime_owned is_text_block_def is_tool_result_block_def
      is_wire_compaction_checkpoint_message_def)

text \<open>Two messages that count as the same recorded turn differ at most by the engine's
  metadata block: the roles agree, the blocks without the metadata agree, and the relation
  is symmetric.\<close>

theorem recorded_turn_identity:
  assumes "same_recorded_turn l r"
  shows "msg_role l = msg_role r \<and> prompt_blocks l = prompt_blocks r \<and> same_recorded_turn r l"
  using same_recorded_turn_prompt [OF assms] same_recorded_turn_sym [of l r] assms by simp

definition bare_example :: "unit Message" where
  "bare_example = \<lparr>msg_role = RoleUser, msg_content = [CbText ''hi'' None]\<rparr>"

definition stamped_example :: "unit Message" where
  "stamped_example = \<lparr>msg_role = RoleUser, msg_content = [CbText ''hi'' None,
     CbText (''<turn_meta>'' @ CHR 0x0A # ''Current local date: 1'' @ ''</turn_meta>'') None]\<rparr>"

lemma same_recorded_turn_example: "same_recorded_turn bare_example stamped_example"
  by code_simp

theorem recorded_turn_identity_witness:
  "prompt_blocks bare_example = prompt_blocks stamped_example
   \<and> same_recorded_turn stamped_example bare_example"
  using recorded_turn_identity [OF same_recorded_turn_example] by simp

end
