(* ===== verification/HistoryRepair.thy ===== *)
theory HistoryRepair
  imports Turns Decimal
begin

text \<open>
  The repair of persisted tool history (\<open>crates/runtime/src/tool_history_repair.rs\<close>) and the pairing
  identity of calls and results (\<open>tool_call_key\<close> of \<open>crates/protocol/src/request.rs\<close>).

  The first pass is \<open>scan_messages\<close>, the fold of the source with its ordinals and its index of missing
  results; the second one is \<open>rebuild\<close>. Hash sets are sets, the hash map of missing results is a map.
\<close>

section \<open>Pairing identity\<close>

datatype ToolCallKey = Execution string | LegacyProvider string

fun key_as_str :: "ToolCallKey \<Rightarrow> string" where
  "key_as_str (Execution id') = id'"
| "key_as_str (LegacyProvider id') = id'"

fun tool_call_key :: "'j ContentBlock \<Rightarrow> ToolCallKey option" where
  "tool_call_key (CbToolUse id' name input execution_id caller signature) =
     Some (case execution_id of Some e \<Rightarrow> Execution e | None \<Rightarrow> LegacyProvider id')"
| "tool_call_key (CbToolResult id' content execution_id is_error blocks) =
     Some (case execution_id of Some e \<Rightarrow> Execution e | None \<Rightarrow> LegacyProvider id')"
| "tool_call_key (CbServerToolUse id' name input) = Some (LegacyProvider id')"
| "tool_call_key (CbToolSearchToolResult id' content) = Some (LegacyProvider id')"
| "tool_call_key (CbCodeExecutionToolResult id' content) = Some (LegacyProvider id')"
| "tool_call_key _ = None"

section \<open>Receipt\<close>

definition CRASH_REPAIR_CONTENT :: string where
  "CRASH_REPAIR_CONTENT = ''Tool call interrupted by process exit; terminal status: crashed_and_repaired.''"

record ToolRepairReceipt =
  rr_repaired_call_ids :: "string list"
  rr_duplicate_result_ids :: "string list"
  rr_orphan_result_ids :: "string list"
  rr_repaired_result_positions :: "(nat \<times> nat) list"

definition receipt_is_empty :: "ToolRepairReceipt \<Rightarrow> bool" where
  "receipt_is_empty r \<longleftrightarrow>
     rr_repaired_call_ids r = [] \<and> rr_duplicate_result_ids r = [] \<and> rr_orphan_result_ids r = []"

definition visible_message :: "ToolRepairReceipt \<Rightarrow> string" where
  "visible_message r =
     ''[tool_history_repair] Repaired '' @ show_nat (length (rr_repaired_call_ids r))
     @ '' crashed tool call(s); quarantined '' @ show_nat (length (rr_duplicate_result_ids r))
     @ '' duplicate and '' @ show_nat (length (rr_orphan_result_ids r)) @ '' orphan terminal result(s).''"

section \<open>First pass\<close>

fun is_tool_use :: "'j ContentBlock \<Rightarrow> bool" where
  "is_tool_use (CbToolUse _ _ _ _ _ _) = True"
| "is_tool_use _ = False"

fun is_tool_result :: "'j ContentBlock \<Rightarrow> bool" where
  "is_tool_result (CbToolResult _ _ _ _ _) = True"
| "is_tool_result _ = False"

text \<open>The role test of the scan, through the wire form of the role.\<close>

definition opens_turn :: "'j Message \<Rightarrow> bool" where
  "opens_turn m \<longleftrightarrow> role_eq_str (msg_role m) ''assistant'' \<or> role_eq_str (msg_role m) INTERRUPTED_ASSISTANT_ROLE"

record 'j RepairScan =
  rs_call_message :: "nat option"
  rs_calls :: "'j ContentBlock list"
  rs_retained :: "ToolCallKey set"
  rs_missing :: "nat \<Rightarrow> (string \<times> string option) list option"
  rs_repaired :: "string list"
  rs_duplicate :: "string list"
  rs_orphan :: "string list"
  rs_keep :: "nat set"
  rs_ordinal :: nat

definition scan_start :: "'j RepairScan" where
  "scan_start = \<lparr>rs_call_message = None, rs_calls = [], rs_retained = {}, rs_missing = Map.empty, rs_repaired = [],
     rs_duplicate = [], rs_orphan = [], rs_keep = {}, rs_ordinal = 0\<rparr>"

fun call_ids :: "'j ContentBlock \<Rightarrow> (string \<times> string option) option" where
  "call_ids (CbToolUse id' name input execution_id caller signature) = Some (id', execution_id)"
| "call_ids _ = None"

definition missing_of :: "'j ContentBlock list \<Rightarrow> ToolCallKey set \<Rightarrow> (string \<times> string option) list" where
  "missing_of calls retained =
     List.map_filter call_ids
       (filter (\<lambda>call. \<not> (case tool_call_key call of Some key \<Rightarrow> key \<in> retained | None \<Rightarrow> False)) calls)"

definition record_missing_results :: "'j RepairScan \<Rightarrow> 'j RepairScan" where
  "record_missing_results st =
     (case rs_call_message st of
        None \<Rightarrow> st
      | Some message_index \<Rightarrow>
          (let missing = missing_of (rs_calls st) (rs_retained st) in
           if missing = [] then st
           else st\<lparr>rs_repaired := rs_repaired st @ map fst missing,
                   rs_missing := (rs_missing st)(message_index \<mapsto> missing)\<rparr>))"

text \<open>Whether a result answers a pending call: its key is not blank, exactly one pending call has it,
  and that call has the provider id of the result.\<close>

definition answers :: "'j ContentBlock \<Rightarrow> 'j ContentBlock \<Rightarrow> bool" where
  "answers call result \<longleftrightarrow> tool_call_key call = tool_call_key result
     \<and> (case (call, result) of
          (CbToolUse id' _ _ _ _ _, CbToolResult tool_use_id _ _ _ _) \<Rightarrow> id' = tool_use_id
        | _ \<Rightarrow> False)"

definition key_blank :: "'j ContentBlock \<Rightarrow> bool" where
  "key_blank b \<longleftrightarrow> (case tool_call_key b of Some key \<Rightarrow> trim (key_as_str key) = [] | None \<Rightarrow> True)"

definition matches_pending :: "'j ContentBlock list \<Rightarrow> 'j ContentBlock \<Rightarrow> bool" where
  "matches_pending calls block \<longleftrightarrow>
     \<not> key_blank block
     \<and> length (filter (\<lambda>call. tool_call_key call = tool_call_key block) calls) = 1
     \<and> list_ex (\<lambda>call. answers call block) calls"

definition scan_block :: "nat \<Rightarrow> 'j ContentBlock \<Rightarrow> 'j RepairScan \<Rightarrow> 'j RepairScan" where
  "scan_block message_index block st =
     (case block of
        CbToolResult tool_use_id _ _ _ _ \<Rightarrow>
          (let ordinal = rs_ordinal st;
               st = st\<lparr>rs_ordinal := ordinal + 1\<rparr>;
               follows_known_call =
                 (case rs_call_message st of Some call_index \<Rightarrow> call_index < message_index | None \<Rightarrow> False)
                 \<and> matches_pending (rs_calls st) block;
               key = the (tool_call_key block)
           in if \<not> follows_known_call then st\<lparr>rs_orphan := rs_orphan st @ [tool_use_id]\<rparr>
              else if key \<in> rs_retained st then st\<lparr>rs_duplicate := rs_duplicate st @ [tool_use_id]\<rparr>
              else st\<lparr>rs_retained := insert key (rs_retained st), rs_keep := insert ordinal (rs_keep st)\<rparr>)
      | _ \<Rightarrow> st)"

definition scan_message :: "nat \<Rightarrow> 'j Message \<Rightarrow> 'j RepairScan \<Rightarrow> 'j RepairScan" where
  "scan_message message_index message st =
     (let st = (if opens_turn message
                then (let st = record_missing_results st;
                          calls = filter is_tool_use (msg_content message)
                      in st\<lparr>rs_calls := calls,
                            rs_call_message := (if calls \<noteq> [] then Some message_index else None),
                            rs_retained := {}\<rparr>)
                else st)
      in fold (scan_block message_index) (msg_content message) st)"

fun scan_messages :: "nat \<Rightarrow> 'j Message list \<Rightarrow> 'j RepairScan \<Rightarrow> 'j RepairScan" where
  "scan_messages message_index [] st = record_missing_results st"
| "scan_messages message_index (message # messages) st =
     scan_messages (message_index + 1) messages (scan_message message_index message st)"

section \<open>Second pass\<close>

text \<open>\<open>retain\<close> with the running ordinal of the results.\<close>

fun retain_results :: "nat set \<Rightarrow> nat \<Rightarrow> 'j ContentBlock list \<Rightarrow> 'j ContentBlock list \<times> nat" where
  "retain_results keep ordinal [] = ([], ordinal)"
| "retain_results keep ordinal (block # blocks) =
     (if is_tool_result block
      then (let (rest, next) = retain_results keep (ordinal + 1) blocks in
            (if ordinal \<in> keep then block # rest else rest, next))
      else (let (rest, next) = retain_results keep ordinal blocks in (block # rest, next)))"

definition crash_result :: "string \<times> string option \<Rightarrow> 'j ContentBlock" where
  "crash_result ids = CbToolResult (fst ids) CRASH_REPAIR_CONTENT (snd ids) (Some True) None"

definition crash_message :: "(string \<times> string option) list \<Rightarrow> 'j Message" where
  "crash_message missing = \<lparr>msg_role = RoleUser, msg_content = map crash_result missing\<rparr>"

fun rebuild ::
  "nat set \<Rightarrow> nat \<Rightarrow> nat \<Rightarrow> 'j Message list \<Rightarrow> (nat \<Rightarrow> (string \<times> string option) list option)
    \<Rightarrow> 'j Message list \<times> (nat \<times> nat) list \<Rightarrow> 'j Message list \<times> (nat \<times> nat) list" where
  "rebuild keep ordinal message_index [] missing_by_message out = out"
| "rebuild keep ordinal message_index (message # messages) missing_by_message (rebuilt, positions) =
     (let missing = (case missing_by_message message_index of Some missing \<Rightarrow> missing | None \<Rightarrow> []);
          (content, ordinal) = retain_results keep ordinal (msg_content message);
          rebuilt = (if content \<noteq> [] then rebuilt @ [message\<lparr>msg_content := content\<rparr>] else rebuilt);
          positions = (if missing \<noteq> [] then positions @ map (Pair (length rebuilt)) [0..<length missing] else positions);
          rebuilt = (if missing \<noteq> [] then rebuilt @ [crash_message missing] else rebuilt)
      in rebuild keep ordinal (message_index + 1) messages (missing_by_message(message_index := None)) (rebuilt, positions))"

definition repair_tool_call_pairs_inner ::
  "'j Message list \<Rightarrow> bool \<Rightarrow> 'j Message list \<times> ToolRepairReceipt" where
  "repair_tool_call_pairs_inner messages append_visible_receipt =
     (let st = scan_messages 0 messages scan_start;
          receipt = \<lparr>rr_repaired_call_ids = rs_repaired st, rr_duplicate_result_ids = rs_duplicate st,
            rr_orphan_result_ids = rs_orphan st, rr_repaired_result_positions = []\<rparr>
      in if receipt_is_empty receipt then (messages, receipt)
         else (let (rebuilt, positions) = rebuild (rs_keep st) 0 0 messages (rs_missing st) ([], []);
                   receipt = receipt\<lparr>rr_repaired_result_positions := positions\<rparr>
               in (if append_visible_receipt
                   then rebuilt @ [\<lparr>msg_role = RoleAssistant, msg_content = [CbText (visible_message receipt) None]\<rparr>]
                   else rebuilt, receipt)))"

definition repair_tool_call_pairs :: "'j Message list \<Rightarrow> 'j Message list \<times> ToolRepairReceipt" where
  "repair_tool_call_pairs messages = repair_tool_call_pairs_inner messages True"

definition repair_tool_call_pairs_for_provider ::
  "'j Message list \<Rightarrow> 'j Message list \<times> ToolRepairReceipt" where
  "repair_tool_call_pairs_for_provider messages = repair_tool_call_pairs_inner messages False"

end
