(* ===== verification/HistoryRepairProps.thy ===== *)
theory HistoryRepairProps
  imports HistoryRepair
begin

text \<open>
  Guarantees of the tool-history repair. The two passes of the source, with their ordinals and indexed
  maps, are shown equal to one structural recursion \<open>repaired\<close>; pairing, conservation of the other
  content and idempotence are proved of that recursion.
\<close>

section \<open>The recursion\<close>

text \<open>What a message that does not open a turn keeps under the pending calls, and the keys retained then.\<close>

fun sift :: "'j ContentBlock list \<Rightarrow> ToolCallKey set \<Rightarrow> 'j ContentBlock list \<Rightarrow> 'j ContentBlock list \<times> ToolCallKey set" where
  "sift calls retained [] = ([], retained)"
| "sift calls retained (block # blocks) =
     (if \<not> is_tool_result block
      then (let (rest, retained) = sift calls retained blocks in (block # rest, retained))
      else if matches_pending calls block \<and> the (tool_call_key block) \<notin> retained
      then (let (rest, retained) = sift calls (insert (the (tool_call_key block)) retained) blocks
            in (block # rest, retained))
      else sift calls retained blocks)"

definition calls_of :: "'j Message \<Rightarrow> 'j ContentBlock list" where
  "calls_of m = filter is_tool_use (msg_content m)"

definition other_content :: "'j Message \<Rightarrow> 'j ContentBlock list" where
  "other_content m = filter (\<lambda>b. \<not> is_tool_result b) (msg_content m)"

definition kept_message :: "'j Message \<Rightarrow> 'j ContentBlock list \<Rightarrow> 'j Message list" where
  "kept_message m content = (if content = [] then [] else [m\<lparr>msg_content := content\<rparr>])"

definition crash_messages :: "(string \<times> string option) list \<Rightarrow> 'j Message list" where
  "crash_messages missing = (if missing = [] then [] else [crash_message missing])"

fun repaired :: "'j ContentBlock list \<Rightarrow> ToolCallKey set \<Rightarrow> 'j Message list \<Rightarrow> 'j Message list \<times> ToolCallKey set" where
  "repaired calls retained [] = ([], retained)"
| "repaired calls retained (m # ms) =
     (if opens_turn m
      then (let (rest, last_retained) = repaired (calls_of m) {} ms
            in (kept_message m (other_content m) @ crash_messages (missing_of (calls_of m) last_retained) @ rest,
                retained))
      else (let (content, retained) = sift calls retained (msg_content m);
                (rest, last_retained) = repaired calls retained ms
            in (kept_message m content @ rest, last_retained)))"

text \<open>A history that needs no repair, with its pending calls.\<close>

definition sifts :: "'j ContentBlock list \<Rightarrow> ToolCallKey set \<Rightarrow> 'j ContentBlock list \<Rightarrow> bool" where
  "sifts calls retained blocks \<longleftrightarrow> fst (sift calls retained blocks) = blocks"

fun clean :: "'j ContentBlock list \<Rightarrow> ToolCallKey set \<Rightarrow> 'j Message list \<Rightarrow> bool" where
  "clean calls retained [] \<longleftrightarrow> missing_of calls retained = []"
| "clean calls retained (m # ms) \<longleftrightarrow>
     (if opens_turn m
      then missing_of calls retained = [] \<and> other_content m = msg_content m \<and> clean (calls_of m) {} ms
      else sifts calls retained (msg_content m) \<and> clean calls (snd (sift calls retained (msg_content m))) ms)"

section \<open>The scan\<close>

lemma is_tool_result_cases: "is_tool_result b \<longleftrightarrow> (\<exists>t c e i x. b = CbToolResult t c e i x)"
  by (cases b) auto

lemma sift_length: "length (fst (sift calls retained blocks)) \<le> length blocks"
  by (induction calls retained blocks rule: sift.induct) (auto simp: Let_def split: prod.splits)

lemma sifts_Cons:
  "sifts calls retained (b # blocks) \<longleftrightarrow>
     (if \<not> is_tool_result b then sifts calls retained blocks
      else matches_pending calls b \<and> the (tool_call_key b) \<notin> retained
        \<and> sifts calls (insert (the (tool_call_key b)) retained) blocks)"
  using sift_length [of calls retained blocks]
  by (auto simp: sifts_def Let_def split: prod.splits)

text \<open>Scanning the blocks of one message: the state stays well formed and agrees with \<open>sift\<close>.\<close>

definition scan_ok :: "nat \<Rightarrow> 'j RepairScan \<Rightarrow> bool" where
  "scan_ok i st \<longleftrightarrow> (rs_calls st = [] \<longleftrightarrow> rs_call_message st = None)
     \<and> (\<forall>c. rs_call_message st = Some c \<longrightarrow> c < i) \<and> rs_keep st \<subseteq> {..<rs_ordinal st}
     \<and> dom (rs_missing st) \<subseteq> {..<i}"

definition unchanged :: "'j RepairScan \<Rightarrow> 'j RepairScan \<Rightarrow> bool" where
  "unchanged st st' \<longleftrightarrow> rs_call_message st' = rs_call_message st \<and> rs_calls st' = rs_calls st
     \<and> rs_missing st' = rs_missing st \<and> rs_repaired st' = rs_repaired st"

definition receipt_length :: "'j RepairScan \<Rightarrow> nat" where
  "receipt_length st = length (rs_repaired st) + length (rs_duplicate st) + length (rs_orphan st)"

lemma unchanged_trans: "unchanged a b \<Longrightarrow> unchanged b c \<Longrightarrow> unchanged a c"
  by (simp add: unchanged_def)

lemma scan_block_other: "\<not> is_tool_result b \<Longrightarrow> scan_block i b st = st"
  by (cases b) (simp_all add: scan_block_def)

lemma scan_block_kept:
  assumes "is_tool_result b" and "rs_calls st = [] \<longleftrightarrow> rs_call_message st = None"
    and "\<forall>c. rs_call_message st = Some c \<longrightarrow> c < i"
    and "matches_pending (rs_calls st) b" and "the (tool_call_key b) \<notin> rs_retained st"
  shows "scan_block i b st = st\<lparr>rs_ordinal := rs_ordinal st + 1,
    rs_retained := insert (the (tool_call_key b)) (rs_retained st), rs_keep := insert (rs_ordinal st) (rs_keep st)\<rparr>"
proof -
  have "rs_calls st \<noteq> []" using assms(4) by (auto simp: matches_pending_def)
  then obtain c where "rs_call_message st = Some c" using assms(2) by blast
  with assms show ?thesis by (auto simp: is_tool_result_cases scan_block_def Let_def)
qed

lemma scan_block_removed:
  assumes "is_tool_result b" and "\<not> (matches_pending (rs_calls st) b \<and> the (tool_call_key b) \<notin> rs_retained st)"
  shows "let st' = scan_block i b st in unchanged st st' \<and> rs_keep st' = rs_keep st \<and> rs_retained st' = rs_retained st
    \<and> rs_ordinal st' = rs_ordinal st + 1 \<and> receipt_length st' = receipt_length st + 1"
proof -
  from assms(1) obtain t c e k x where "b = CbToolResult t c e k x" by (auto simp: is_tool_result_cases)
  with assms(2) show ?thesis by (simp add: scan_block_def Let_def unchanged_def receipt_length_def)
qed

text \<open>What a fold of \<open>scan_block\<close> over some blocks does, with the blocks it keeps and the keys it ends with.\<close>

definition scans_to :: "'j RepairScan \<Rightarrow> 'j RepairScan \<Rightarrow> 'j ContentBlock list \<Rightarrow> 'j ContentBlock list \<Rightarrow> bool" where
  "scans_to st st' blocks kept \<longleftrightarrow>
     unchanged st st' \<and> rs_keep st' \<subseteq> {..<rs_ordinal st'} \<and> rs_keep st' \<inter> {..<rs_ordinal st} = rs_keep st
     \<and> rs_ordinal st \<le> rs_ordinal st'
     \<and> receipt_length st' + length kept = receipt_length st + length blocks
     \<and> (\<forall>keep. keep \<inter> {..<rs_ordinal st'} = rs_keep st' \<longrightarrow>
          retain_results keep (rs_ordinal st) blocks = (kept, rs_ordinal st'))"

lemma scans_to_refl: "rs_keep st \<subseteq> {..<rs_ordinal st} \<Longrightarrow> scans_to st st [] []"
  by (auto simp: scans_to_def unchanged_def)

lemma scans_to_other:
  "\<not> is_tool_result b \<Longrightarrow> scans_to st st' blocks kept \<Longrightarrow> scans_to st st' (b # blocks) (b # kept)"
  by (simp add: scans_to_def)

lemma scans_to_kept:
  assumes "is_tool_result b" and "rs_keep st \<subseteq> {..<rs_ordinal st}"
    and s1: "st1 = st\<lparr>rs_ordinal := rs_ordinal st + 1, rs_retained := R, rs_keep := insert (rs_ordinal st) (rs_keep st)\<rparr>"
    and "scans_to st1 st' blocks kept"
  shows "scans_to st st' (b # blocks) (b # kept)"
proof -
  have k: "rs_keep st' \<inter> {..<rs_ordinal st + 1} = insert (rs_ordinal st) (rs_keep st)" and o: "rs_ordinal st + 1 \<le> rs_ordinal st'"
    using assms(4) by (simp_all add: scans_to_def s1)
  then have mem: "rs_ordinal st \<in> rs_keep st'" by auto
  have "rs_keep st' \<inter> {..<rs_ordinal st} = (rs_keep st' \<inter> {..<rs_ordinal st + 1}) \<inter> {..<rs_ordinal st}" by auto
  then have "rs_keep st' \<inter> {..<rs_ordinal st} = rs_keep st" using k assms(2) by auto
  moreover have "retain_results keep (rs_ordinal st) (b # blocks) = (b # kept, rs_ordinal st')"
    if "keep \<inter> {..<rs_ordinal st'} = rs_keep st'" for keep
  proof -
    have "retain_results keep (rs_ordinal st + 1) blocks = (kept, rs_ordinal st')"
      using assms(4) that by (simp add: scans_to_def s1)
    moreover have "rs_ordinal st \<in> keep" using that mem by auto
    ultimately show ?thesis using assms(1) by simp
  qed
  moreover have "receipt_length st' + length (b # kept) = receipt_length st + length (b # blocks)"
    using assms(4) by (simp add: scans_to_def s1 receipt_length_def)
  moreover have "unchanged st st'" "rs_keep st' \<subseteq> {..<rs_ordinal st'}"
    using assms(4) by (simp_all add: scans_to_def s1 unchanged_def)
  moreover have "rs_ordinal st \<le> rs_ordinal st'" using o by simp
  ultimately show ?thesis unfolding scans_to_def by blast
qed

lemma scans_to_removed:
  assumes "is_tool_result b" and "rs_keep st \<subseteq> {..<rs_ordinal st}"
    and "unchanged st st1" "rs_keep st1 = rs_keep st" "rs_ordinal st1 = rs_ordinal st + 1"
    and "receipt_length st1 = receipt_length st + 1" and "scans_to st1 st' blocks kept"
  shows "scans_to st st' (b # blocks) kept"
proof -
  have k: "rs_keep st' \<inter> {..<rs_ordinal st + 1} = rs_keep st" and o: "rs_ordinal st + 1 \<le> rs_ordinal st'"
    using assms(4,5,7) by (simp_all add: scans_to_def)
  have "rs_keep st' \<inter> {..<rs_ordinal st} = (rs_keep st' \<inter> {..<rs_ordinal st + 1}) \<inter> {..<rs_ordinal st}" by auto
  then have "rs_keep st' \<inter> {..<rs_ordinal st} = rs_keep st" using k assms(2) by auto
  moreover have "retain_results keep (rs_ordinal st) (b # blocks) = (kept, rs_ordinal st')"
    if "keep \<inter> {..<rs_ordinal st'} = rs_keep st'" for keep
  proof -
    have "retain_results keep (rs_ordinal st + 1) blocks = (kept, rs_ordinal st')"
      using assms(5,7) that by (simp add: scans_to_def)
    moreover have "rs_ordinal st \<notin> keep" using that k o assms(2) by fastforce
    ultimately show ?thesis using assms(1) by simp
  qed
  moreover have "receipt_length st' + length kept = receipt_length st + length (b # blocks)"
    using assms(6,7) by (simp add: scans_to_def)
  moreover have "unchanged st st'" "rs_keep st' \<subseteq> {..<rs_ordinal st'}"
    using assms(7) unchanged_trans [OF assms(3)] by (simp_all add: scans_to_def)
  moreover have "rs_ordinal st \<le> rs_ordinal st'" using o by simp
  ultimately show ?thesis unfolding scans_to_def by blast
qed

text \<open>Blocks whose message follows the pending call.\<close>

lemma scan_blocks_sift:
  assumes "rs_calls st = [] \<longleftrightarrow> rs_call_message st = None" and "\<forall>c. rs_call_message st = Some c \<longrightarrow> c < i"
    and "rs_keep st \<subseteq> {..<rs_ordinal st}"
  shows "scans_to st (fold (scan_block i) blocks st) blocks (fst (sift (rs_calls st) (rs_retained st) blocks))
    \<and> rs_retained (fold (scan_block i) blocks st) = snd (sift (rs_calls st) (rs_retained st) blocks)"
  using assms
proof (induction blocks arbitrary: st)
  case Nil
  then show ?case by (simp add: scans_to_refl)
next
  case (Cons b blocks)
  show ?case
  proof (cases "is_tool_result b")
    case False
    then show ?thesis using Cons.IH [OF Cons.prems]
      by (cases "sift (rs_calls st) (rs_retained st) blocks") (simp add: scan_block_other scans_to_other)
  next
    case res: True
    show ?thesis
    proof (cases "matches_pending (rs_calls st) b \<and> the (tool_call_key b) \<notin> rs_retained st")
      case True
      define st1 where "st1 = st\<lparr>rs_ordinal := rs_ordinal st + 1,
        rs_retained := insert (the (tool_call_key b)) (rs_retained st), rs_keep := insert (rs_ordinal st) (rs_keep st)\<rparr>"
      have s: "scan_block i b st = st1"
        using scan_block_kept [OF res Cons.prems(1,2)] True by (simp add: st1_def)
      have "rs_keep st1 \<subseteq> {..<rs_ordinal st1}" using Cons.prems(3) by (auto simp: st1_def)
      with Cons.IH [of st1] Cons.prems have ih: "scans_to st1 (fold (scan_block i) blocks st1) blocks (fst (sift (rs_calls st1) (rs_retained st1) blocks))"
          "rs_retained (fold (scan_block i) blocks st1) = snd (sift (rs_calls st1) (rs_retained st1) blocks)"
        by (auto simp: st1_def)
      from scans_to_kept [OF res Cons.prems(3) st1_def ih(1)] ih(2) s res True show ?thesis
        by (cases "sift (rs_calls st1) (rs_retained st1) blocks") (simp add: st1_def)
    next
      case False
      define st1 where "st1 = scan_block i b st"
      note r = scan_block_removed [OF res False, of i, unfolded Let_def, folded st1_def]
      have wf: "rs_calls st1 = [] \<longleftrightarrow> rs_call_message st1 = None" "\<forall>c. rs_call_message st1 = Some c \<longrightarrow> c < i"
          "rs_keep st1 \<subseteq> {..<rs_ordinal st1}"
        using r Cons.prems by (auto simp: unchanged_def)
      note ih = Cons.IH [OF wf]
      have "scans_to st (fold (scan_block i) blocks st1) (b # blocks) (fst (sift (rs_calls st1) (rs_retained st1) blocks))"
        using r ih by (intro scans_to_removed [where ?st1.0 = st1, OF res Cons.prems(3)]) blast+
      moreover have "rs_calls st1 = rs_calls st" "rs_retained st1 = rs_retained st" using r by (simp_all add: unchanged_def)
      moreover have "sift (rs_calls st) (rs_retained st) (b # blocks) = sift (rs_calls st) (rs_retained st) blocks"
        using res False by (simp only: sift.simps if_False not_True_eq_False if_True simp_thms)
      ultimately show ?thesis using ih by (simp only: fold_simps st1_def [symmetric])
    qed
  qed
qed

text \<open>Blocks of the message that holds the calls, or of one with no calls before it: no result is kept.\<close>

lemma scan_blocks_drop:
  assumes "\<forall>c. rs_call_message st = Some c \<longrightarrow> \<not> c < i" and "rs_keep st \<subseteq> {..<rs_ordinal st}"
  shows "scans_to st (fold (scan_block i) blocks st) blocks (filter (\<lambda>b. \<not> is_tool_result b) blocks)
    \<and> rs_retained (fold (scan_block i) blocks st) = rs_retained st"
  using assms
proof (induction blocks arbitrary: st)
  case Nil
  then show ?case by (simp add: scans_to_refl)
next
  case (Cons b blocks)
  show ?case
  proof (cases "is_tool_result b")
    case False
    then show ?thesis using Cons.IH [OF Cons.prems] by (simp add: scan_block_other scans_to_other)
  next
    case True
    define st1 where "st1 = scan_block i b st"
    from True obtain t c e k x where b: "b = CbToolResult t c e k x" by (auto simp: is_tool_result_cases)
    have "st1 = st\<lparr>rs_ordinal := rs_ordinal st + 1, rs_orphan := rs_orphan st @ [t]\<rparr>"
      using Cons.prems(1) by (cases "rs_call_message st") (simp_all add: st1_def b scan_block_def Let_def)
    then have r: "unchanged st st1" "rs_keep st1 = rs_keep st" "rs_ordinal st1 = rs_ordinal st + 1"
        "receipt_length st1 = receipt_length st + 1" "rs_retained st1 = rs_retained st"
        "rs_call_message st1 = rs_call_message st"
      by (simp_all add: unchanged_def receipt_length_def)
    have "rs_keep st1 \<subseteq> {..<rs_ordinal st1}" using Cons.prems(2) r(2,3) by auto
    with Cons.IH [of st1] Cons.prems(1) r(5,6)
    have ih: "scans_to st1 (fold (scan_block i) blocks st1) blocks (filter (\<lambda>b. \<not> is_tool_result b) blocks)"
        "rs_retained (fold (scan_block i) blocks st1) = rs_retained st" by simp_all
    from scans_to_removed [OF True Cons.prems(2) r(1-4) ih(1)] ih(2) True show ?thesis
      by (simp add: st1_def)
  qed
qed

lemma receipt_length_record:
  assumes "rs_calls st = [] \<longleftrightarrow> rs_call_message st = None"
  shows "receipt_length (record_missing_results st) = receipt_length st + length (missing_of (rs_calls st) (rs_retained st))"
  using assms
  by (cases "rs_call_message st")
     (simp_all add: record_missing_results_def receipt_length_def missing_of_def Let_def List.map_filter_def)

lemma record_missing_fields [simp]:
  "rs_keep (record_missing_results st) = rs_keep st" "rs_ordinal (record_missing_results st) = rs_ordinal st"
  by (simp_all add: record_missing_results_def Let_def split: option.split)

lemma record_missing_map:
  assumes "rs_calls st = [] \<longleftrightarrow> rs_call_message st = None"
  shows "rs_missing (record_missing_results st) j =
    (if rs_call_message st = Some j \<and> missing_of (rs_calls st) (rs_retained st) \<noteq> []
     then Some (missing_of (rs_calls st) (rs_retained st)) else rs_missing st j)"
  by (auto simp: record_missing_results_def Let_def split: option.split)

text \<open>One message of each kind.\<close>

lemma scan_opening:
  assumes "scan_ok i st" and "opens_turn m"
  defines "st1 \<equiv> scan_message i m st"
  shows "scan_ok (Suc i) st1" and "rs_calls st1 = calls_of m" and "rs_retained st1 = {}"
    and "rs_call_message st1 = (if calls_of m \<noteq> [] then Some i else None)"
    and "rs_missing st1 = rs_missing (record_missing_results st)"
    and "rs_keep st1 \<inter> {..<rs_ordinal st} = rs_keep st" and "rs_ordinal st \<le> rs_ordinal st1"
    and "receipt_length st1 + length (other_content m)
      = receipt_length st + length (missing_of (rs_calls st) (rs_retained st)) + length (msg_content m)"
    and "keep \<inter> {..<rs_ordinal st1} = rs_keep st1 \<Longrightarrow>
      retain_results keep (rs_ordinal st) (msg_content m) = (other_content m, rs_ordinal st1)"
proof -
  define st0 where "st0 = (record_missing_results st)\<lparr>rs_calls := calls_of m,
    rs_call_message := (if calls_of m \<noteq> [] then Some i else None), rs_retained := {}\<rparr>"
  have st1: "st1 = fold (scan_block i) (msg_content m) st0"
    using assms(2) by (simp add: st1_def scan_message_def st0_def calls_of_def Let_def)
  have "\<forall>c. rs_call_message st0 = Some c \<longrightarrow> \<not> c < i" and k: "rs_keep st0 \<subseteq> {..<rs_ordinal st0}"
    using assms(1) by (auto simp: st0_def scan_ok_def)
  from scan_blocks_drop [OF this] have s: "scans_to st0 st1 (msg_content m) (other_content m)"
      and ret: "rs_retained st1 = rs_retained st0"
    by (simp_all add: st1 other_content_def)
  have c: "rs_calls st = [] \<longleftrightarrow> rs_call_message st = None" using assms(1) by (simp add: scan_ok_def)
  have o: "rs_ordinal st0 = rs_ordinal st" "rs_keep st0 = rs_keep st" by (simp_all add: st0_def)
  show "rs_calls st1 = calls_of m" "rs_retained st1 = {}"
      "rs_call_message st1 = (if calls_of m \<noteq> [] then Some i else None)"
      and mis: "rs_missing st1 = rs_missing (record_missing_results st)"
    using s ret by (simp_all add: scans_to_def unchanged_def st0_def)
  moreover have "dom (rs_missing (record_missing_results st)) \<subseteq> {..<Suc i}"
    using assms(1) by (auto simp: scan_ok_def dom_def record_missing_map [OF c] split: if_splits)
  moreover have "rs_keep st1 \<subseteq> {..<rs_ordinal st1}" using s by (simp add: scans_to_def)
  ultimately show "scan_ok (Suc i) st1" by (simp add: scan_ok_def)
  show "rs_keep st1 \<inter> {..<rs_ordinal st} = rs_keep st" "rs_ordinal st \<le> rs_ordinal st1"
    using s o by (simp_all add: scans_to_def)
  have "receipt_length st0 = receipt_length (record_missing_results st)" by (simp add: st0_def receipt_length_def)
  then show "receipt_length st1 + length (other_content m)
      = receipt_length st + length (missing_of (rs_calls st) (rs_retained st)) + length (msg_content m)"
    using s receipt_length_record [OF c] by (simp add: scans_to_def)
  show "keep \<inter> {..<rs_ordinal st1} = rs_keep st1 \<Longrightarrow>
      retain_results keep (rs_ordinal st) (msg_content m) = (other_content m, rs_ordinal st1)"
    using s o by (simp add: scans_to_def)
qed

lemma scan_following:
  assumes "scan_ok i st" and "\<not> opens_turn m"
  defines "st1 \<equiv> scan_message i m st"
  defines "sifted \<equiv> sift (rs_calls st) (rs_retained st) (msg_content m)"
  shows "scan_ok (Suc i) st1" and "rs_calls st1 = rs_calls st" and "rs_retained st1 = snd sifted"
    and "rs_call_message st1 = rs_call_message st" and "rs_missing st1 = rs_missing st"
    and "rs_keep st1 \<inter> {..<rs_ordinal st} = rs_keep st" and "rs_ordinal st \<le> rs_ordinal st1"
    and "receipt_length st1 + length (fst sifted) = receipt_length st + length (msg_content m)"
    and "keep \<inter> {..<rs_ordinal st1} = rs_keep st1 \<Longrightarrow>
      retain_results keep (rs_ordinal st) (msg_content m) = (fst sifted, rs_ordinal st1)"
proof -
  have st1: "st1 = fold (scan_block i) (msg_content m) st"
    using assms(2) by (simp add: st1_def scan_message_def)
  have c: "rs_calls st = [] \<longleftrightarrow> rs_call_message st = None" and b: "\<forall>c. rs_call_message st = Some c \<longrightarrow> c < i"
    and k: "rs_keep st \<subseteq> {..<rs_ordinal st}" using assms(1) by (auto simp: scan_ok_def)
  from scan_blocks_sift [OF c b k] have s: "scans_to st st1 (msg_content m) (fst sifted)"
      and ret: "rs_retained st1 = snd sifted"
    by (simp_all add: st1 sifted_def)
  show "rs_retained st1 = snd sifted" by (fact ret)
  show f: "rs_calls st1 = rs_calls st" "rs_call_message st1 = rs_call_message st" "rs_missing st1 = rs_missing st"
    using s by (simp_all add: scans_to_def unchanged_def)
  have "rs_keep st1 \<subseteq> {..<rs_ordinal st1}" using s by (simp add: scans_to_def)
  then show "scan_ok (Suc i) st1" using assms(1) f by (auto simp: scan_ok_def less_Suc_eq)
  show "rs_keep st1 \<inter> {..<rs_ordinal st} = rs_keep st" "rs_ordinal st \<le> rs_ordinal st1"
      "receipt_length st1 + length (fst sifted) = receipt_length st + length (msg_content m)"
    using s by (simp_all add: scans_to_def)
  show "keep \<inter> {..<rs_ordinal st1} = rs_keep st1 \<Longrightarrow>
      retain_results keep (rs_ordinal st) (msg_content m) = (fst sifted, rs_ordinal st1)"
    using s by (simp add: scans_to_def)
qed

section \<open>Both passes\<close>

text \<open>What the whole scan from a state establishes for the messages that are left: the sets it ends with, the
  rebuilt messages, and when the receipt did not grow.\<close>

definition passes_to :: "nat \<Rightarrow> 'j RepairScan \<Rightarrow> 'j Message list \<Rightarrow> bool" where
  "passes_to i st ms \<longleftrightarrow>
     (let st' = scan_messages i ms st; calls = rs_calls st; (out, retained) = repaired calls (rs_retained st) ms in
      rs_keep st' \<inter> {..<rs_ordinal st} = rs_keep st
      \<and> (\<forall>j<i. rs_missing st' j = (if rs_call_message st = Some j \<and> missing_of calls retained \<noteq> []
           then Some (missing_of calls retained) else rs_missing st j))
      \<and> receipt_length st \<le> receipt_length st'
      \<and> (receipt_length st' = receipt_length st \<longleftrightarrow> clean calls (rs_retained st) ms)
      \<and> (\<forall>missing rebuilt positions. (\<forall>j\<ge>i. missing j = rs_missing st' j) \<longrightarrow>
           fst (rebuild (rs_keep st') (rs_ordinal st) i ms missing (rebuilt, positions)) = rebuilt @ out))"

lemma missing_of_Nil [simp]: "missing_of [] retained = []"
  by (simp add: missing_of_def List.map_filter_def)

lemma keep_chain:
  assumes "K \<inter> {..<b} = k" and "k \<inter> {..<a} = k0" and "(a :: nat) \<le> b"
  shows "K \<inter> {..<a} = k0"
  using assms by auto

lemma other_content_length:
  "length (other_content m) \<le> length (msg_content m)"
  "length (other_content m) = length (msg_content m) \<longleftrightarrow> other_content m = msg_content m"
proof -
  show "length (other_content m) \<le> length (msg_content m)" by (simp add: other_content_def)
  have "length (filter P xs) = length xs \<longleftrightarrow> filter P xs = xs" for P and xs :: "'a ContentBlock list"
    by (metis filter_True length_filter_conv_card filter_id_conv length_filter_less nat_less_le)
  then show "length (other_content m) = length (msg_content m) \<longleftrightarrow> other_content m = msg_content m"
    unfolding other_content_def .
qed

lemma sift_length_eq:
  "length (fst (sift calls retained blocks)) = length blocks \<longleftrightarrow> sifts calls retained blocks"
proof
  show "length (fst (sift calls retained blocks)) = length blocks \<Longrightarrow> sifts calls retained blocks"
  proof (induction calls retained blocks rule: sift.induct)
    case (2 calls retained block blocks)
    have "length (fst (sift calls retained blocks)) \<le> length blocks" by (rule sift_length)
    with 2 show ?case
      by (cases "sift calls retained blocks"; cases "sift calls (insert (the (tool_call_key block)) retained) blocks")
        (auto simp: sifts_Cons split: if_splits)
  qed (simp add: sifts_def)
qed (simp add: sifts_def)

lemma passes_to_Nil:
  assumes "scan_ok i st"
  shows "passes_to i st []"
proof -
  have c: "rs_calls st = [] \<longleftrightarrow> rs_call_message st = None" using assms by (simp add: scan_ok_def)
  then show ?thesis using assms receipt_length_record [OF c]
    by (auto simp: passes_to_def record_missing_map [OF c] scan_ok_def)
qed

lemma rebuild_step:
  assumes "retain_results keep ordinal (msg_content m) = (content, ordinal')"
    and "\<And>missing rebuilt positions. \<forall>j\<ge>Suc i. missing j = M j \<Longrightarrow>
      fst (rebuild keep ordinal' (Suc i) ms missing (rebuilt, positions)) = rebuilt @ rest"
    and "\<forall>j\<ge>i. missing j = M j"
  shows "fst (rebuild keep ordinal i (m # ms) missing (rebuilt, positions))
    = rebuilt @ kept_message m content @ crash_messages (case M i of Some x \<Rightarrow> x | None \<Rightarrow> []) @ rest"
proof -
  have "missing i = M i" and "\<forall>j\<ge>Suc i. (missing(i := None)) j = M j" using assms(3) by auto
  note ih = assms(2) [OF this(2)]
  show ?thesis
    using \<open>missing i = M i\<close> assms(1)
    by (simp add: Let_def ih kept_message_def crash_messages_def split: option.split)
qed

lemma passes_to_opening:
  assumes ok: "scan_ok i st" and o: "opens_turn m" and ih: "passes_to (Suc i) (scan_message i m st) ms"
  shows "passes_to i st (m # ms)"
proof -
  define st1 where "st1 = scan_message i m st"
  define st' where "st' = scan_messages (Suc i) ms st1"
  note s = scan_opening [OF ok o, folded st1_def]
  obtain out R where rep: "repaired (calls_of m) {} ms = (out, R)" by fastforce
  have c: "rs_calls st = [] \<longleftrightarrow> rs_call_message st = None" using ok by (simp add: scan_ok_def)
  from ih have k: "rs_keep st' \<inter> {..<rs_ordinal st1} = rs_keep st1"
    and mis: "\<forall>j<Suc i. rs_missing st' j = (if rs_call_message st1 = Some j \<and> missing_of (calls_of m) R \<noteq> []
           then Some (missing_of (calls_of m) R) else rs_missing st1 j)"
    and len: "receipt_length st1 \<le> receipt_length st'"
    and eq: "receipt_length st' = receipt_length st1 \<longleftrightarrow> clean (calls_of m) {} ms"
    and reb: "\<And>missing rebuilt positions. \<forall>j\<ge>Suc i. missing j = rs_missing st' j \<Longrightarrow>
           fst (rebuild (rs_keep st') (rs_ordinal st1) (Suc i) ms missing (rebuilt, positions)) = rebuilt @ out"
    by (simp_all add: passes_to_def s(2,3) rep Let_def st1_def [symmetric] st'_def [symmetric])
  have now: "(case rs_missing st' i of Some x \<Rightarrow> x | None \<Rightarrow> []) = missing_of (calls_of m) R"
  proof -
    have "rs_missing st1 i = None"
      using ok by (auto simp: s(5) record_missing_map [OF c] scan_ok_def)
    then show ?thesis using mis s(4) by simp
  qed
  have "rs_keep st' \<inter> {..<rs_ordinal st} = rs_keep st" using keep_chain [OF k s(6,7)] .
  moreover have "\<forall>j<i. rs_missing st' j = (if rs_call_message st = Some j \<and> missing_of (rs_calls st) (rs_retained st) \<noteq> []
           then Some (missing_of (rs_calls st) (rs_retained st)) else rs_missing st j)"
    using mis s(4,5) by (simp add: record_missing_map [OF c])
  moreover have "receipt_length st \<le> receipt_length st'"
    using s(8) len other_content_length(1) [of m] by linarith
  moreover have "receipt_length st' = receipt_length st \<longleftrightarrow> missing_of (rs_calls st) (rs_retained st) = []
      \<and> other_content m = msg_content m \<and> clean (calls_of m) {} ms"
    unfolding eq [symmetric] other_content_length(2) [symmetric] length_0_conv [symmetric]
    using s(8) len other_content_length(1) [of m] by linarith
  moreover have "fst (rebuild (rs_keep st') (rs_ordinal st) i (m # ms) missing (rebuilt, positions))
      = rebuilt @ kept_message m (other_content m) @ crash_messages (missing_of (calls_of m) R) @ out"
    if "\<forall>j\<ge>i. missing j = rs_missing st' j" for missing rebuilt positions
    using rebuild_step [where M = "rs_missing st'" and rest = out, OF s(9) [OF k] reb that] by (simp add: now)
  ultimately show ?thesis
    using o rep unfolding passes_to_def by (simp add: Let_def st1_def [symmetric] st'_def [symmetric])
qed

lemma passes_to_following:
  assumes ok: "scan_ok i st" and o: "\<not> opens_turn m" and ih: "passes_to (Suc i) (scan_message i m st) ms"
  shows "passes_to i st (m # ms)"
proof -
  define st1 where "st1 = scan_message i m st"
  define st' where "st' = scan_messages (Suc i) ms st1"
  obtain content R1 where si: "sift (rs_calls st) (rs_retained st) (msg_content m) = (content, R1)" by fastforce
  note s = scan_following [OF ok o, folded st1_def, unfolded si fst_conv snd_conv]
  obtain out R where rep: "repaired (rs_calls st) R1 ms = (out, R)" by fastforce
  from ih have k: "rs_keep st' \<inter> {..<rs_ordinal st1} = rs_keep st1"
    and mis: "\<forall>j<Suc i. rs_missing st' j = (if rs_call_message st = Some j \<and> missing_of (rs_calls st) R \<noteq> []
           then Some (missing_of (rs_calls st) R) else rs_missing st j)"
    and len: "receipt_length st1 \<le> receipt_length st'"
    and eq: "receipt_length st' = receipt_length st1 \<longleftrightarrow> clean (rs_calls st) R1 ms"
    and reb: "\<And>missing rebuilt positions. \<forall>j\<ge>Suc i. missing j = rs_missing st' j \<Longrightarrow>
           fst (rebuild (rs_keep st') (rs_ordinal st1) (Suc i) ms missing (rebuilt, positions)) = rebuilt @ out"
    by (simp_all add: passes_to_def s(2-5) rep Let_def st1_def [symmetric] st'_def [symmetric])
  have now: "(case rs_missing st' i of Some x \<Rightarrow> x | None \<Rightarrow> []) = []"
  proof -
    have "rs_missing st i = None" "rs_call_message st \<noteq> Some i" using ok by (auto simp: scan_ok_def)
    then show ?thesis using mis by simp
  qed
  have clen: "length content \<le> length (msg_content m)"
    "length content = length (msg_content m) \<longleftrightarrow> sifts (rs_calls st) (rs_retained st) (msg_content m)"
    using sift_length [of "rs_calls st" "rs_retained st" "msg_content m"]
      sift_length_eq [of "rs_calls st" "rs_retained st" "msg_content m"] by (simp_all add: si)
  have "rs_keep st' \<inter> {..<rs_ordinal st} = rs_keep st" using keep_chain [OF k s(6,7)] .
  moreover have "receipt_length st \<le> receipt_length st'" using s(8) len clen(1) by linarith
  moreover have "receipt_length st' = receipt_length st \<longleftrightarrow>
      sifts (rs_calls st) (rs_retained st) (msg_content m) \<and> clean (rs_calls st) R1 ms"
    unfolding eq [symmetric] clen(2) [symmetric] using s(8) len clen(1) by linarith
  moreover have "fst (rebuild (rs_keep st') (rs_ordinal st) i (m # ms) missing (rebuilt, positions))
      = rebuilt @ kept_message m content @ out"
    if "\<forall>j\<ge>i. missing j = rs_missing st' j" for missing rebuilt positions
    using rebuild_step [where M = "rs_missing st'" and rest = out, OF s(9) [OF k] reb that]
    by (simp add: now crash_messages_def)
  moreover have "\<forall>j<i. rs_missing st' j = (if rs_call_message st = Some j \<and> missing_of (rs_calls st) R \<noteq> []
           then Some (missing_of (rs_calls st) R) else rs_missing st j)"
    using mis by simp
  ultimately show ?thesis
    using o rep si unfolding passes_to_def
    by (simp add: Let_def st1_def [symmetric] st'_def [symmetric] del: rebuild.simps)
qed

lemma passes: "scan_ok i st \<Longrightarrow> passes_to i st ms"
proof (induction ms arbitrary: i st)
  case (Cons m ms)
  show ?case
  proof (cases "opens_turn m")
    case True
    with Cons show ?thesis using scan_opening(1) passes_to_opening by blast
  next
    case False
    with Cons show ?thesis using scan_following(1) passes_to_following by blast
  qed
qed (rule passes_to_Nil)

text \<open>The routine of the source is the recursion.\<close>

lemma repair_is_repaired:
  "fst (repair_tool_call_pairs_inner messages visible) =
     (if clean [] {} messages then messages
      else fst (repaired [] {} messages) @
        (if visible then [\<lparr>msg_role = RoleAssistant, msg_content = [CbText (visible_message
           (snd (repair_tool_call_pairs_inner messages visible))) None]\<rparr>] else []))"
  and repair_receipt_empty:
  "receipt_is_empty (snd (repair_tool_call_pairs_inner messages visible)) \<longleftrightarrow> clean [] {} messages"
proof -
  define st where "st = scan_messages 0 messages scan_start"
  have "scan_ok 0 (scan_start :: 'a RepairScan)" by (simp add: scan_ok_def scan_start_def)
  note p = passes [OF this, of messages]
  have z: "receipt_length (scan_start :: 'a RepairScan) = 0" "rs_calls (scan_start :: 'a RepairScan) = []"
      "rs_retained (scan_start :: 'a RepairScan) = {}" "rs_ordinal (scan_start :: 'a RepairScan) = 0"
    by (simp_all add: receipt_length_def scan_start_def)
  have e: "receipt_length st = 0 \<longleftrightarrow> clean [] {} messages"
    and r: "fst (rebuild (rs_keep st) 0 0 messages (rs_missing st) ([], [])) = fst (repaired [] {} messages)"
    using p by (simp_all add: passes_to_def st_def [symmetric] Let_def z split: prod.splits)
  have empty: "receipt_is_empty \<lparr>rr_repaired_call_ids = rs_repaired st, rr_duplicate_result_ids = rs_duplicate st,
      rr_orphan_result_ids = rs_orphan st, rr_repaired_result_positions = positions\<rparr> \<longleftrightarrow> clean [] {} messages" for positions
    using e by (simp add: receipt_is_empty_def receipt_length_def)
  obtain rebuilt positions where reb: "rebuild (rs_keep st) 0 0 messages (rs_missing st) ([], []) = (rebuilt, positions)"
    by fastforce
  show "fst (repair_tool_call_pairs_inner messages visible) =
     (if clean [] {} messages then messages
      else fst (repaired [] {} messages) @
        (if visible then [\<lparr>msg_role = RoleAssistant, msg_content = [CbText (visible_message
           (snd (repair_tool_call_pairs_inner messages visible))) None]\<rparr>] else []))"
    "receipt_is_empty (snd (repair_tool_call_pairs_inner messages visible)) \<longleftrightarrow> clean [] {} messages"
    using r reb empty
    by (simp_all add: repair_tool_call_pairs_inner_def Let_def st_def [symmetric])
qed

section \<open>Pairing\<close>

definition results_of :: "'j Message \<Rightarrow> 'j ContentBlock list" where
  "results_of m = filter is_tool_result (msg_content m)"

text \<open>The specification: \<open>attributed\<close> says that every result stands in a message after its turn was opened and
  answers a call of that turn, \<open>answered\<close> that every call has a result before the next turn opens.\<close>

fun attributed :: "'j ContentBlock list \<Rightarrow> 'j Message list \<Rightarrow> bool" where
  "attributed calls [] \<longleftrightarrow> True"
| "attributed calls (m # ms) \<longleftrightarrow>
     (if opens_turn m then results_of m = [] \<and> attributed (calls_of m) ms
      else (\<forall>r \<in> set (results_of m). \<exists>c \<in> set calls. answers c r) \<and> attributed calls ms)"

definition results_until_turn :: "'j Message list \<Rightarrow> 'j ContentBlock list" where
  "results_until_turn ms = concat (map results_of (takeWhile (\<lambda>m. \<not> opens_turn m) ms))"

fun answered :: "'j Message list \<Rightarrow> bool" where
  "answered [] \<longleftrightarrow> True"
| "answered (m # ms) \<longleftrightarrow>
     (opens_turn m \<longrightarrow> (\<forall>c \<in> set (calls_of m). \<exists>r \<in> set (results_until_turn ms). answers c r)) \<and> answered ms"

lemma results_until_turn_Cons:
  "results_until_turn (m # ms) = (if opens_turn m then [] else results_of m @ results_until_turn ms)"
  by (simp add: results_until_turn_def)

lemma match_answers: "matches_pending calls r \<Longrightarrow> \<exists>c \<in> set calls. answers c r"
  by (auto simp: matches_pending_def list_ex_iff)

lemma match_unique:
  assumes "matches_pending calls r" and "c \<in> set calls" and "tool_call_key c = tool_call_key r"
  shows "answers c r"
proof -
  obtain d where d: "d \<in> set calls" "answers d r" using match_answers [OF assms(1)] by blast
  have "length (filter (\<lambda>x. tool_call_key x = tool_call_key r) calls) = 1" using assms(1) by (simp add: matches_pending_def)
  then obtain e where e: "filter (\<lambda>x. tool_call_key x = tool_call_key r) calls = [e]"
    by (auto simp: length_Suc_conv)
  have "c \<in> set [e]" "d \<in> set [e]" using assms(2,3) d by (auto simp: e [symmetric] answers_def)
  with d(2) show ?thesis by simp
qed

lemma sift_keys:
  assumes "sift calls R bs = (kept, R')" and "k \<in> R'"
  shows "k \<in> R \<or> (\<exists>r \<in> set kept. is_tool_result r \<and> tool_call_key r = Some k \<and> matches_pending calls r)"
  using assms
proof (induction calls R bs arbitrary: kept R' rule: sift.induct)
  case (2 calls R b bs)
  show ?case
  proof (cases "is_tool_result b \<and> matches_pending calls b \<and> the (tool_call_key b) \<notin> R")
    case True
    then obtain kept1 where s: "sift calls (insert (the (tool_call_key b)) R) bs = (kept1, R')" and kept: "kept = b # kept1"
      using 2(4) by (auto split: prod.splits)
    from True have "tool_call_key b = Some (the (tool_call_key b))" by (auto simp: is_tool_result_cases)
    with 2(2) [OF _ _ s 2(5)] True kept show ?thesis by auto
  next
    case False
    with 2 show ?thesis by (auto simp: Let_def split: if_splits prod.splits)
  qed
qed simp

lemma sift_kept:
  "sift calls R bs = (kept, R') \<Longrightarrow> r \<in> set kept \<Longrightarrow>
    r \<in> set bs \<and> (is_tool_result r \<longrightarrow> matches_pending calls r)"
  by (induction calls R bs arbitrary: kept R' rule: sift.induct) (auto simp: Let_def split: if_splits prod.splits)

lemma attributed_none: "attributed [] ms \<Longrightarrow> attributed calls ms"
proof (induction ms arbitrary: calls)
  case (Cons m ms)
  then show ?case by (auto split: if_splits)
qed simp

lemma kept_calls [simp]:
  "calls_of (m\<lparr>msg_content := other_content m\<rparr>) = calls_of m" "results_of (m\<lparr>msg_content := other_content m\<rparr>) = []"
proof -
  have "is_tool_use b \<Longrightarrow> \<not> is_tool_result b" for b :: "'a ContentBlock" by (cases b) simp_all
  then show "calls_of (m\<lparr>msg_content := other_content m\<rparr>) = calls_of m"
    by (auto simp: calls_of_def other_content_def intro: filter_cong)
qed (simp add: results_of_def other_content_def)

lemma no_content_no_calls: "other_content m = [] \<Longrightarrow> calls_of m = []"
  using kept_calls(1) [of m] by (simp add: calls_of_def)

lemma opens_turn_content [simp]: "opens_turn (m\<lparr>msg_content := content\<rparr>) = opens_turn m"
  by (simp add: opens_turn_def)

lemma crash_message_follows [simp]: "\<not> opens_turn (crash_message missing)"
  by (simp add: opens_turn_def crash_message_def role_eq_str_def INTERRUPTED_ASSISTANT_ROLE_def)

lemma is_tool_use_cases: "is_tool_use b \<longleftrightarrow> (\<exists>i n p e c s. b = CbToolUse i n p e c s)"
  by (cases b) auto

lemma call_ids_Some: "call_ids call = Some ids \<longleftrightarrow>
    (\<exists>n p c s. call = CbToolUse (fst ids) n p (snd ids) c s)"
  by (cases call) auto

lemma mem_map_filter: "y \<in> set (List.map_filter f xs) \<longleftrightarrow> (\<exists>x \<in> set xs. f x = Some y)"
  by (induction xs) (auto simp: List.map_filter_simps split: option.split)

lemma mem_missing_of:
  "ids \<in> set (missing_of calls R) \<longleftrightarrow>
     (\<exists>call \<in> set calls. call_ids call = Some ids \<and> the (tool_call_key call) \<notin> R)"
proof -
  have key: "call_ids call = Some ids \<Longrightarrow> tool_call_key call = Some (the (tool_call_key call))" for call :: "'a ContentBlock"
    by (auto simp: call_ids_Some)
  have "ids \<in> set (missing_of calls R) \<longleftrightarrow> (\<exists>call \<in> set calls. call_ids call = Some ids
      \<and> \<not> (case tool_call_key call of Some key \<Rightarrow> key \<in> R | None \<Rightarrow> False))"
    unfolding missing_of_def mem_map_filter by auto
  also have "\<dots> \<longleftrightarrow> (\<exists>call \<in> set calls. call_ids call = Some ids \<and> the (tool_call_key call) \<notin> R)"
    by (rule bex_cong [OF refl]) (metis (no_types, lifting) key option.simps(5))
  finally show ?thesis .
qed

lemma crash_answers:
  assumes "ids \<in> set (missing_of calls R)"
  shows "\<exists>c \<in> set calls. answers c (crash_result ids)"
proof -
  obtain call where "call \<in> set calls" "call_ids call = Some ids" using assms by (auto simp: mem_missing_of)
  then show ?thesis by (auto simp: call_ids_Some answers_def crash_result_def intro!: bexI)
qed

lemma missing_call:
  assumes "is_tool_use c" and "c \<in> set calls" and "the (tool_call_key c) \<notin> R"
  shows "\<exists>ids \<in> set (missing_of calls R). answers c (crash_result ids)"
proof -
  obtain i n p e ca s where c: "c = CbToolUse i n p e ca s" using assms(1) by (auto simp: is_tool_use_cases)
  with assms(2,3) have "(i, e) \<in> set (missing_of calls R)" unfolding mem_missing_of by (intro bexI [of _ c]) auto
  moreover have "answers c (crash_result (i, e))" by (simp add: c answers_def crash_result_def)
  ultimately show ?thesis by blast
qed

lemma results_of_crash [simp]: "results_of (crash_message missing) = map crash_result missing"
  by (auto simp: results_of_def crash_message_def crash_result_def filter_id_conv)

lemma attributed_repaired: "attributed calls (fst (repaired calls R ms))"
proof (induction calls R ms rule: repaired.induct)
  case (2 calls R m ms)
  show ?case
  proof (cases "opens_turn m")
    case True
    define out where "out = repaired (calls_of m) {} ms"
    have ih: "attributed (calls_of m) (fst out)" using 2(1) True by (simp add: out_def)
    have "attributed (calls_of m) (crash_messages (missing_of (calls_of m) (snd out)) @ fst out)"
      using ih crash_answers by (auto simp: crash_messages_def)
    moreover have "fst (repaired calls R (m # ms)) = kept_message m (other_content m)
        @ crash_messages (missing_of (calls_of m) (snd out)) @ fst out"
      using True by (simp add: out_def case_prod_beta)
    moreover have "attributed calls (crash_messages (missing_of (calls_of m) (snd out)) @ fst out)" if "other_content m = []"
      using ih no_content_no_calls [OF that] by (simp add: crash_messages_def attributed_none)
    ultimately show ?thesis using True by (simp add: kept_message_def)
  next
    case False
    obtain content R1 where s: "sift calls R (msg_content m) = (content, R1)" by fastforce
    have "attributed calls (fst (repaired calls R1 ms))" using 2(2) [OF False] s by simp
    moreover have "\<forall>r \<in> set (results_of (m\<lparr>msg_content := content\<rparr>)). \<exists>c \<in> set calls. answers c r"
      using sift_kept [OF s] match_answers by (fastforce simp: results_of_def)
    ultimately show ?thesis using False s by (simp add: kept_message_def case_prod_beta)
  qed
qed simp

lemma repaired_keys:
  assumes "repaired calls R ms = (out, R')" and "k \<in> R'"
  shows "k \<in> R \<or> (\<exists>r \<in> set (results_until_turn out). tool_call_key r = Some k \<and> matches_pending calls r)"
  using assms
proof (induction calls R ms arbitrary: out R' rule: repaired.induct)
  case (2 calls R m ms)
  show ?case
  proof (cases "opens_turn m")
    case True
    with 2(3,4) show ?thesis by (auto simp: Let_def split: prod.splits)
  next
    case False
    obtain content R1 where s: "sift calls R (msg_content m) = (content, R1)" by fastforce
    obtain rest where r: "repaired calls R1 ms = (rest, R')" and out: "out = kept_message m content @ rest"
      using 2(3) False s by (auto split: prod.splits)
    from 2(2) [OF False s [symmetric] refl r 2(4)] consider "k \<in> R1"
      | r where "r \<in> set (results_until_turn rest)" "tool_call_key r = Some k" "matches_pending calls r" by blast
    then show ?thesis
    proof cases
      case 1
      with sift_keys [OF s] show ?thesis
        using False out by (fastforce simp: kept_message_def results_until_turn_Cons results_of_def)
    next
      case 2
      then show ?thesis using False out by (auto simp: kept_message_def results_until_turn_Cons)
    qed
  qed
qed simp

lemma answered_repaired: "answered (fst (repaired calls R ms))"
proof (induction calls R ms rule: repaired.induct)
  case (2 calls R m ms)
  show ?case
  proof (cases "opens_turn m")
    case True
    obtain rest L where r: "repaired (calls_of m) {} ms = (rest, L)" by fastforce
    let ?missing = "missing_of (calls_of m) L"
    have ih: "answered rest" using 2(1) True r by simp
    have "\<exists>r \<in> set (results_until_turn (crash_messages ?missing @ rest)). answers c r" if c: "c \<in> set (calls_of m)" for c
    proof -
      have use: "is_tool_use c" using c by (simp add: calls_of_def)
      show ?thesis
      proof (cases "the (tool_call_key c) \<in> L")
        case True
        from repaired_keys [OF r True] obtain r where r: "r \<in> set (results_until_turn rest)"
          "tool_call_key r = Some (the (tool_call_key c))" "matches_pending (calls_of m) r" by blast
        moreover have "tool_call_key c = tool_call_key r" using r(2) use by (auto simp: is_tool_use_cases)
        ultimately show ?thesis using match_unique [OF r(3) c]
          by (auto simp: crash_messages_def results_until_turn_Cons)
      next
        case False
        from missing_call [OF use c False] obtain ids where "ids \<in> set ?missing" "answers c (crash_result ids)" by blast
        then have "?missing \<noteq> [] \<and> crash_result ids \<in> set (results_until_turn (crash_message ?missing # rest))"
          by (auto simp: results_until_turn_Cons)
        with \<open>answers c (crash_result ids)\<close> show ?thesis by (auto simp: crash_messages_def)
      qed
    qed
    moreover have "answered (crash_messages ?missing @ rest)" using ih by (simp add: crash_messages_def)
    ultimately show ?thesis using True r by (simp add: kept_message_def)
  next
    case False
    then show ?thesis using 2(2) [OF False refl prod.collapse] by (simp add: case_prod_beta kept_message_def)
  qed
qed simp

lemma sifts_matches: "sifts calls R bs \<Longrightarrow> r \<in> set bs \<Longrightarrow> is_tool_result r \<Longrightarrow> matches_pending calls r"
  using sift_kept [of calls R bs bs] by (cases "sift calls R bs") (auto simp: sifts_def)

lemma clean_attributed: "clean calls R ms \<Longrightarrow> attributed calls ms"
proof (induction calls R ms rule: clean.induct)
  case (2 calls R m ms)
  have "other_content m = msg_content m \<Longrightarrow> results_of m = []"
    by (auto simp: other_content_def results_of_def filter_empty_conv filter_id_conv)
  moreover have "\<forall>r \<in> set (results_of m). \<exists>c \<in> set calls. answers c r" if "sifts calls R (msg_content m)"
    using sifts_matches [OF that] match_answers by (fastforce simp: results_of_def)
  ultimately show ?case using 2 by (auto split: if_splits)
qed simp

lemma clean_keys:
  assumes "clean calls R ms" and "c \<in> set calls" and "is_tool_use c"
  shows "the (tool_call_key c) \<in> R
    \<or> (\<exists>r \<in> set (results_until_turn ms). tool_call_key r = tool_call_key c \<and> matches_pending calls r)"
proof -
  have none: "the (tool_call_key c) \<in> Q" if "missing_of calls Q = []" for Q
    using missing_call [OF assms(3,2), of Q] that by auto
  have key: "tool_call_key c = Some (the (tool_call_key c))" using assms(3) by (auto simp: is_tool_use_cases)
  show ?thesis using assms(1)
  proof (induction ms arbitrary: R)
    case (Cons m ms)
    show ?case
    proof (cases "opens_turn m")
      case False
      obtain R1 where s: "sift calls R (msg_content m) = (msg_content m, R1)"
        using Cons.prems False by (cases "sift calls R (msg_content m)") (simp add: sifts_def)
      with Cons.prems False have "clean calls R1 ms" by simp
      from Cons.IH [OF this] sift_keys [OF s, of "the (tool_call_key c)"] key False show ?thesis
        by (fastforce simp: results_until_turn_Cons results_of_def)
    qed (use Cons.prems none in simp)
  qed (use none in simp)
qed

lemma clean_answered: "clean calls R ms \<Longrightarrow> answered ms"
proof (induction calls R ms rule: clean.induct)
  case (2 calls R m ms)
  show ?case
  proof (cases "opens_turn m")
    case True
    with 2(3) have c: "clean (calls_of m) {} ms" by simp
    have "\<exists>r \<in> set (results_until_turn ms). answers c r" if "c \<in> set (calls_of m)" for c
      using clean_keys [OF c that] match_unique [OF _ that] that by (fastforce simp: calls_of_def)
    with 2(1) [OF True c] show ?thesis by simp
  qed (use 2 in simp)
qed simp

lemma paired_append:
  assumes "opens_turn x" and "results_of x = []" and "calls_of x = []"
  shows "attributed calls ms \<Longrightarrow> attributed calls (ms @ [x])" and "answered ms \<Longrightarrow> answered (ms @ [x])"
proof -
  have until: "results_until_turn (ms @ [x]) = results_until_turn ms" for ms
    using assms(1) by (induction ms) (simp_all add: results_until_turn_def)
  show "attributed calls ms \<Longrightarrow> attributed calls (ms @ [x])"
    by (induction ms arbitrary: calls) (use assms in auto)
  show "answered ms \<Longrightarrow> answered (ms @ [x])"
    by (induction ms) (use assms until in auto)
qed

text \<open>C13. After either repair, whatever the history was, every tool result answers a call of the turn it stands
  in and every tool call has a result before the next turn opens.\<close>

theorem repaired_history_is_paired:
  "attributed [] (fst (repair_tool_call_pairs messages))
    \<and> answered (fst (repair_tool_call_pairs messages))
    \<and> attributed [] (fst (repair_tool_call_pairs_for_provider messages))
    \<and> answered (fst (repair_tool_call_pairs_for_provider messages))"
proof -
  have "attributed [] (fst (repair_tool_call_pairs_inner messages visible))
      \<and> answered (fst (repair_tool_call_pairs_inner messages visible))" for visible
  proof (cases "clean [] {} messages")
    case True
    then show ?thesis using clean_attributed [OF True] clean_answered [OF True] by (simp add: repair_is_repaired)
  next
    case False
    define out where "out = fst (repaired [] {} messages)"
    have "attributed [] (out @ [\<lparr>msg_role = RoleAssistant, msg_content = [CbText t None]\<rparr>])
        \<and> answered (out @ [\<lparr>msg_role = RoleAssistant, msg_content = [CbText t None]\<rparr>])" for t
    proof -
      let ?x = "\<lparr>msg_role = RoleAssistant, msg_content = [CbText t None]\<rparr> :: 'a Message"
      have "opens_turn ?x" "results_of ?x = []" "calls_of ?x = []"
        by (simp_all add: opens_turn_def role_eq_str_def results_of_def calls_of_def)
      from paired_append [OF this] show ?thesis by (simp add: out_def attributed_repaired answered_repaired)
    qed
    moreover have "attributed [] out \<and> answered out" by (simp add: out_def attributed_repaired answered_repaired)
    ultimately show ?thesis using False by (simp add: repair_is_repaired out_def [symmetric])
  qed
  then show ?thesis by (simp add: repair_tool_call_pairs_def repair_tool_call_pairs_for_provider_def)
qed

section \<open>Conservation\<close>

text \<open>The history without its tool results: the other blocks of each message, with its role.\<close>

definition other_history :: "'j Message list \<Rightarrow> (Role \<times> 'j ContentBlock list) list" where
  "other_history ms = filter (\<lambda>x. snd x \<noteq> []) (map (\<lambda>m. (msg_role m, other_content m)) ms)"

lemma other_history_simps [simp]:
  "other_history [] = []"
  "other_history (ms @ ns) = other_history ms @ other_history ns"
  by (simp_all add: other_history_def)

lemma sift_other: "filter (\<lambda>b. \<not> is_tool_result b) (fst (sift calls R bs)) = filter (\<lambda>b. \<not> is_tool_result b) bs"
  by (induction calls R bs rule: sift.induct) (auto simp: Let_def case_prod_beta)

lemma other_history_kept:
  assumes "filter (\<lambda>b. \<not> is_tool_result b) content = other_content m"
  shows "other_history (kept_message m content) = other_history [m]"
  using assms by (auto simp: other_history_def kept_message_def other_content_def)

lemma other_history_crash [simp]: "other_history (crash_messages missing) = []"
  by (auto simp: other_history_def crash_messages_def other_content_def crash_message_def crash_result_def filter_empty_conv)

lemma other_history_Cons: "other_history (m # ms) = other_history [m] @ other_history ms"
  using other_history_simps(2) [of "[m]" ms] by simp

lemma other_history_repaired: "other_history (fst (repaired calls R ms)) = other_history ms"
proof (induction calls R ms rule: repaired.induct)
  case (2 calls R m ms)
  have o: "other_history (kept_message m (other_content m)) = other_history [m]"
    by (rule other_history_kept) (simp add: other_content_def)
  have s: "other_history (kept_message m (fst (sift calls R (msg_content m)))) = other_history [m]"
    by (rule other_history_kept) (simp add: other_content_def sift_other)
  show ?case
  proof (cases "opens_turn m")
    case True
    with 2(1) [OF True] o other_history_Cons [of m ms] show ?thesis by (simp add: case_prod_beta)
  next
    case False
    with 2(2) [OF False refl prod.collapse] s other_history_Cons [of m ms] show ?thesis by (simp add: case_prod_beta)
  qed
qed simp

lemma repaired_results:
  "r \<in> set (results_of m) \<Longrightarrow> m \<in> set (fst (repaired calls R ms)) \<Longrightarrow>
    (\<exists>n \<in> set ms. r \<in> set (results_of n)) \<or> (\<exists>ids. r = crash_result ids)"
proof (induction calls R ms rule: repaired.induct)
  case (2 calls R n ms)
  note IH = "2.IH" and r = "2.prems"(1) and m = "2.prems"(2)
  show ?case
  proof (cases "opens_turn n")
    case True
    obtain rest L where p: "repaired (calls_of n) {} ms = (rest, L)" by fastforce
    with m True consider "m \<in> set (kept_message n (other_content n))"
      | "m = crash_message (missing_of (calls_of n) L)" | "m \<in> set rest"
      by (auto simp: crash_messages_def split: if_splits)
    then show ?thesis
    proof cases
      case 1
      with r show ?thesis by (simp add: kept_message_def split: if_splits)
    next
      case 2
      with r have "r \<in> crash_result ` set (missing_of (calls_of n) L)" by simp
      then show ?thesis by blast
    next
      case 3
      with IH(1) [OF True r] p show ?thesis by auto
    qed
  next
    case False
    obtain content R1 where s: "sift calls R (msg_content n) = (content, R1)" by fastforce
    from m False s consider "m \<in> set (kept_message n content)" | "m \<in> set (fst (repaired calls R1 ms))"
      by (auto simp: case_prod_beta)
    then show ?thesis
    proof cases
      case 1
      with r sift_kept [OF s] show ?thesis by (auto simp: kept_message_def results_of_def split: if_splits)
    next
      case 2
      with IH(2) [OF False s [symmetric] refl r] show ?thesis by auto
    qed
  qed
qed simp

text \<open>The provider repair loses and invents nothing else: the other blocks of the history stay as they are,
  in order and with their roles, and a result of the repaired history is an original one or the crash result.\<close>

theorem repair_keeps_history:
  "other_history (fst (repair_tool_call_pairs_for_provider messages)) = other_history messages
    \<and> set (concat (map results_of (fst (repair_tool_call_pairs_for_provider messages))))
        \<subseteq> set (concat (map results_of messages)) \<union> range crash_result"
proof (cases "clean [] {} messages")
  case True
  then show ?thesis by (auto simp: repair_tool_call_pairs_for_provider_def repair_is_repaired)
next
  case False
  then have *: "fst (repair_tool_call_pairs_for_provider messages) = fst (repaired [] {} messages)"
    by (simp add: repair_tool_call_pairs_for_provider_def repair_is_repaired)
  have "r \<in> set (concat (map results_of messages)) \<union> range crash_result"
    if "m \<in> set (fst (repaired [] {} messages))" and "r \<in> set (results_of m)" for m r
    using repaired_results [OF that(2) that(1)] by auto
  then have "set (concat (map results_of (fst (repaired [] {} messages))))
      \<subseteq> set (concat (map results_of messages)) \<union> range crash_result"
    unfolding set_concat set_map by blast
  with * show ?thesis using other_history_repaired by simp
qed

section \<open>Idempotence\<close>

text \<open>A turn whose calls have distinct keys, none of them blank.\<close>

definition keys_ok :: "'j Message \<Rightarrow> bool" where
  "keys_ok m \<longleftrightarrow> (opens_turn m \<longrightarrow> distinct (map tool_call_key (calls_of m)) \<and> list_all (\<lambda>c. \<not> key_blank c) (calls_of m))"

lemma sift_mono: "sift calls R bs = (kept, R') \<Longrightarrow> R \<subseteq> R'"
  by (induction calls R bs arbitrary: kept R' rule: sift.induct) (auto simp: Let_def split: if_splits prod.splits)

lemma repaired_mono: "repaired calls R ms = (out, R') \<Longrightarrow> R \<subseteq> R'"
proof (induction calls R ms arbitrary: out R' rule: repaired.induct)
  case (2 calls R m ms)
  show ?case
  proof (cases "opens_turn m")
    case False
    obtain content R1 where s: "sift calls R (msg_content m) = (content, R1)" by fastforce
    with "2.IH"(2) [OF False s [symmetric] refl] "2.prems" False sift_mono [OF s] show ?thesis
      by (auto split: prod.splits)
  qed (use "2.prems" in \<open>simp add: case_prod_beta\<close>)
qed simp

lemma sift_again:
  assumes "sift calls R bs = (kept, R')" and "(R' - R) \<inter> Q = {}"
  shows "sift calls (R \<union> Q) kept = (kept, R' \<union> Q)"
  using assms
proof (induction calls R bs arbitrary: kept R' rule: sift.induct)
  case (2 calls R b bs)
  note prems = "2.prems" and IH = "2.IH"
  show ?case
  proof (cases "is_tool_result b")
    case False
    then obtain kept1 where "sift calls R bs = (kept1, R')" "kept = b # kept1" using prems(1) by (auto split: prod.splits)
    with IH(1) [OF False _ prems(2)] False show ?thesis by simp
  next
    case res: True
    show ?thesis
    proof (cases "matches_pending calls b \<and> the (tool_call_key b) \<notin> R")
      case True
      then obtain kept1 where s: "sift calls (insert (the (tool_call_key b)) R) bs = (kept1, R')" and kept: "kept = b # kept1"
        using res prems(1) by (auto split: prod.splits)
      have "the (tool_call_key b) \<in> R'" using sift_mono [OF s] by blast
      with True prems(2) have "the (tool_call_key b) \<notin> R \<union> Q" by blast
      moreover have "(R' - insert (the (tool_call_key b)) R) \<inter> Q = {}" using prems(2) by blast
      ultimately show ?thesis using IH(2) [OF _ True s] res True kept by simp
    next
      case False
      with res prems(1) have "sift calls R bs = (kept, R')" by (auto split: if_splits)
      from IH(3) [OF _ False this prems(2)] res show ?thesis by simp
    qed
  qed
qed simp

lemma no_match_without_calls [simp]: "\<not> matches_pending [] b"
  by (simp add: matches_pending_def)

lemma sift_none: "sift [] R bs = (filter (\<lambda>b. \<not> is_tool_result b) bs, R)"
  by (induction bs arbitrary: R) simp_all

lemma sift_others: "sift calls R (filter (\<lambda>b. \<not> is_tool_result b) bs) = (filter (\<lambda>b. \<not> is_tool_result b) bs, R)"
  by (induction bs arbitrary: R) simp_all

text \<open>The crash results of one turn answer its missing calls.\<close>

lemma key_crash: "tool_call_key (crash_result ids :: 'j ContentBlock) =
    Some (case snd ids of Some e \<Rightarrow> Execution e | None \<Rightarrow> LegacyProvider (fst ids))"
  by (simp add: crash_result_def)

lemma sift_crash:
  assumes d: "distinct (map tool_call_key calls)" and b: "list_all (\<lambda>c. \<not> key_blank c) calls"
    and m: "\<forall>ids \<in> set missing. \<exists>c \<in> set calls. call_ids c = Some ids"
    and dist: "distinct (map (\<lambda>ids. tool_call_key (crash_result ids :: 'j ContentBlock)) missing)"
    and fresh: "\<forall>ids \<in> set missing. the (tool_call_key (crash_result ids :: 'j ContentBlock)) \<notin> R"
  shows "sift (calls :: 'j ContentBlock list) R (map crash_result missing)
    = (map crash_result missing, R \<union> (\<lambda>ids. the (tool_call_key (crash_result ids :: 'j ContentBlock))) ` set missing)"
  using m dist fresh
proof (induction missing arbitrary: R)
  case (Cons ids missing)
  obtain c where c: "c \<in> set calls" "call_ids c = Some ids" using Cons.prems(1) by auto
  then have a: "answers c (crash_result ids)" and k: "tool_call_key c = tool_call_key (crash_result ids :: 'j ContentBlock)"
    by (auto simp: call_ids_Some answers_def crash_result_def)
  have "filter (\<lambda>x. tool_call_key x = tool_call_key c) calls = [c]"
    using d c(1) by (induction calls) (auto simp: filter_empty_conv image_iff)
  then have "length (filter (\<lambda>x. tool_call_key x = tool_call_key (crash_result ids :: 'j ContentBlock)) calls) = 1"
    using k by simp
  moreover have "\<not> key_blank (crash_result ids :: 'j ContentBlock)"
    using b c(1) k by (auto simp: list_all_iff key_blank_def)
  ultimately have match: "matches_pending calls (crash_result ids)"
    using a c(1) by (auto simp: matches_pending_def list_ex_iff)
  let ?k = "the (tool_call_key (crash_result ids :: 'j ContentBlock))"
  have "\<forall>x \<in> set missing. the (tool_call_key (crash_result x :: 'j ContentBlock)) \<notin> insert ?k R"
    using Cons.prems(2,3) by (auto simp: key_crash image_iff)
  from Cons.IH [OF _ _ this] Cons.prems match show ?case
    by (simp add: crash_result_def [of ids] is_tool_result_cases)
qed simp

lemma map_crash_keys:
  "map (\<lambda>ids. tool_call_key (crash_result ids :: 'j ContentBlock)) (List.map_filter call_ids (xs :: 'j ContentBlock list))
    = map tool_call_key (filter is_tool_use xs)"
proof (induction xs)
  case (Cons x xs)
  then show ?case by (cases x) (simp_all add: List.map_filter_simps key_crash split: option.split)
qed (simp add: List.map_filter_simps)

lemma distinct_missing:
  assumes "distinct (map tool_call_key (calls :: 'j ContentBlock list))"
  shows "distinct (map (\<lambda>ids. tool_call_key (crash_result ids :: 'j ContentBlock)) (missing_of calls R))"
  unfolding missing_of_def map_crash_keys using assms by (intro distinct_map_filter)

lemma missing_of_all:
  assumes "\<forall>c \<in> set calls. is_tool_use c"
  shows "missing_of calls R = [] \<longleftrightarrow> (\<forall>c \<in> set calls. the (tool_call_key c) \<in> R)"
proof
  assume "missing_of calls R = []"
  then show "\<forall>c \<in> set calls. the (tool_call_key c) \<in> R" using missing_call assms by fastforce
next
  assume "\<forall>c \<in> set calls. the (tool_call_key c) \<in> R"
  then have "ids \<notin> set (missing_of calls R)" for ids by (auto simp: mem_missing_of)
  then show "missing_of calls R = []" by (cases "missing_of calls R") auto
qed

definition crash_keys :: "'j itself \<Rightarrow> (string \<times> string option) list \<Rightarrow> ToolCallKey set" where
  "crash_keys _ missing = (\<lambda>ids. the (tool_call_key (crash_result ids :: 'j ContentBlock))) ` set missing"

lemma calls_of_use: "\<forall>c \<in> set (calls_of m). is_tool_use c"
  by (simp add: calls_of_def)

lemma missing_filled:
  fixes m :: "'j Message"
  shows "missing_of (calls_of m) (L \<union> crash_keys TYPE('j) (missing_of (calls_of m) L)) = []"
    and "L \<inter> crash_keys TYPE('j) (missing_of (calls_of m) L) = {}"
proof -
  have "the (tool_call_key c) \<in> L \<union> crash_keys TYPE('j) (missing_of (calls_of m) L)" if c: "c \<in> set (calls_of m)" for c
  proof (cases "the (tool_call_key c) \<in> L")
    case False
    have "is_tool_use c" using c calls_of_use by blast
    from missing_call [OF this c False] obtain ids where "ids \<in> set (missing_of (calls_of m) L)"
      "tool_call_key c = tool_call_key (crash_result ids :: 'j ContentBlock)" by (auto simp: answers_def)
    then show ?thesis by (auto simp: crash_keys_def intro!: image_eqI)
  qed simp
  then show "missing_of (calls_of m) (L \<union> crash_keys TYPE('j) (missing_of (calls_of m) L)) = []"
    using missing_of_all [OF calls_of_use] by blast
  have "the (tool_call_key (crash_result ids :: 'j ContentBlock)) \<notin> L" if ids: "ids \<in> set (missing_of (calls_of m) L)" for ids
  proof -
    from ids obtain call :: "'j ContentBlock" where "call_ids call = Some ids" "the (tool_call_key call) \<notin> L"
      by (auto simp: mem_missing_of)
    then show ?thesis by (auto simp: call_ids_Some key_crash)
  qed
  then show "L \<inter> crash_keys TYPE('j) (missing_of (calls_of m) L) = {}" by (auto simp: crash_keys_def)
qed

lemma clean_crash:
  fixes m :: "'j Message"
  assumes ok: "keys_ok m" "opens_turn m"
    and rest: "\<And>Q. L \<inter> Q = {} \<Longrightarrow> missing_of (calls_of m) (L \<union> Q) = [] \<Longrightarrow> clean (calls_of m) Q rest"
  shows "clean (calls_of m) {} (crash_messages (missing_of (calls_of m) L) @ rest)"
proof (cases "missing_of (calls_of m) L = []")
  case True
  with rest [of "{}"] show ?thesis by (simp add: crash_messages_def)
next
  case False
  let ?M = "missing_of (calls_of m) L"
  have d: "distinct (map tool_call_key (calls_of m))" "list_all (\<lambda>c. \<not> key_blank c) (calls_of m)"
    using ok by (simp_all add: keys_ok_def)
  have "\<forall>ids \<in> set ?M. \<exists>c \<in> set (calls_of m). call_ids c = Some ids" by (auto simp: mem_missing_of)
  from sift_crash [OF d this distinct_missing [OF d(1)], of "{}"]
  have "sift (calls_of m) {} (map crash_result ?M) = (map crash_result ?M, crash_keys TYPE('j) ?M)"
    by (simp add: crash_keys_def)
  moreover have "clean (calls_of m) (crash_keys TYPE('j) ?M) rest"
    by (intro rest missing_filled)
  ultimately show ?thesis using False by (simp add: crash_messages_def sifts_def crash_message_def [symmetric])
      (simp add: crash_message_def)
qed

lemma clean_repaired:
  assumes "repaired calls R ms = (out, R')" and "list_all keys_ok ms" and "calls = calls' \<or> calls = [] \<and> R' = R"
    and "(R' - R) \<inter> Q = {}" and "missing_of calls' (R' \<union> Q) = []"
  shows "clean calls' (R \<union> Q) out"
  using assms
proof (induction calls R ms arbitrary: calls' Q out R' rule: repaired.induct)
  case (1 calls R)
  then show ?case by simp
next
  case (2 calls R m ms)
  note prems = "2.prems" and IH = "2.IH"
  show ?case
  proof (cases "opens_turn m")
    case True
    obtain rest L where p: "repaired (calls_of m) {} ms = (rest, L)" by fastforce
    have out: "out = kept_message m (other_content m) @ crash_messages (missing_of (calls_of m) L) @ rest" and R': "R' = R"
      using prems(1) True p by simp_all
    have rest: "clean c' Q rest" if "calls_of m = c' \<or> calls_of m = [] \<and> L = {}" "L \<inter> Q = {}"
      "missing_of c' (L \<union> Q) = []" for c' Q
      using IH(1) [OF True p, of c' Q] prems(2) that by simp
    show ?thesis
    proof (cases "other_content m = []")
      case True
      have none: "calls_of m = []" using True by (rule no_content_no_calls)
      have "k \<notin> L" for k using repaired_keys [OF p, of k] by (auto simp: none)
      then have "L = {}" by blast
      with none True out R' prems(5) show ?thesis by (simp add: kept_message_def crash_messages_def rest)
    next
      case False
      have "clean (calls_of m) {} (crash_messages (missing_of (calls_of m) L) @ rest)"
        using prems(2) True by (intro clean_crash) (auto intro: rest)
      with False True out R' prems(5) show ?thesis
        by (simp add: kept_message_def) (simp add: other_content_def)
    qed
  next
    case False
    obtain content R1 where s: "sift calls R (msg_content m) = (content, R1)" by fastforce
    obtain rest where p: "repaired calls R1 ms = (rest, R')" and out: "out = kept_message m content @ rest"
      using prems(1) False s by (auto split: prod.splits)
    have mono: "R \<subseteq> R1" "R1 \<subseteq> R'" using sift_mono [OF s] repaired_mono [OF p] by simp_all
    have again: "sift calls' (R \<union> Q) content = (content, R1 \<union> Q)"
      using prems(3)
    proof
      assume "calls = calls'"
      then show ?thesis using sift_again [OF s, of Q] mono prems(4) by blast
    next
      assume "calls = [] \<and> R' = R"
      with s mono show ?thesis by (auto simp: sift_none sift_others)
    qed
    have ih: "clean calls' (R1 \<union> Q) rest"
      using IH(2) [OF False s [symmetric] refl p] prems mono by auto
    show ?thesis
    proof (cases "content = []")
      case True
      with again have "R1 \<union> Q = R \<union> Q" by simp
      with ih out True show ?thesis by (simp add: kept_message_def)
    next
      case nonempty: False
      with ih out again False show ?thesis by (simp add: kept_message_def sifts_def)
    qed
  qed
qed

lemma clean_append:
  assumes "opens_turn x" "calls_of x = []" "other_content x = msg_content x"
  shows "clean calls R ms \<Longrightarrow> clean calls R (ms @ [x])"
  by (induction calls R ms rule: clean.induct) (use assms in auto)

text \<open>C14. Both repairs are idempotent on histories whose turns give their calls distinct keys, none of them
  blank: a second repair changes nothing and its receipt is empty.\<close>

theorem repair_idempotent:
  assumes "list_all keys_ok messages"
  shows "repair_tool_call_pairs (fst (repair_tool_call_pairs messages))
      = (fst (repair_tool_call_pairs messages), \<lparr>rr_repaired_call_ids = [], rr_duplicate_result_ids = [],
          rr_orphan_result_ids = [], rr_repaired_result_positions = []\<rparr>)
    \<and> repair_tool_call_pairs_for_provider (fst (repair_tool_call_pairs_for_provider messages))
      = (fst (repair_tool_call_pairs_for_provider messages), \<lparr>rr_repaired_call_ids = [], rr_duplicate_result_ids = [],
          rr_orphan_result_ids = [], rr_repaired_result_positions = []\<rparr>)"
proof -
  obtain out R where p: "repaired [] {} messages = (out, R)" by fastforce
  have "k \<notin> R" for k using repaired_keys [OF p, of k] by auto
  then have c: "clean [] {} out" using clean_repaired [OF p assms, of "[]" "{}"] by simp
  have "clean [] {} (out @ [\<lparr>msg_role = RoleAssistant, msg_content = [CbText t None]\<rparr>])" for t
    using c by (intro clean_append) (simp_all add: opens_turn_def role_eq_str_def calls_of_def other_content_def)
  then have clean: "clean [] {} (fst (repair_tool_call_pairs_inner messages visible))" for visible
    using c by (simp add: repair_is_repaired p)
  have idle: "repair_tool_call_pairs_inner ms visible = (ms, \<lparr>rr_repaired_call_ids = [],
      rr_duplicate_result_ids = [], rr_orphan_result_ids = [], rr_repaired_result_positions = []\<rparr>)"
    if "clean [] {} ms" for ms :: "'a Message list" and visible
    using repair_receipt_empty [of ms visible] that
    by (auto simp: repair_tool_call_pairs_inner_def receipt_is_empty_def Let_def split: if_splits prod.splits)
  show ?thesis
    unfolding repair_tool_call_pairs_def repair_tool_call_pairs_for_provider_def using idle [OF clean] by simp
qed

definition dangling_history :: "nat Message list" where
  "dangling_history =
    [\<lparr>msg_role = RoleUser, msg_content = [CbToolResult ''c1'' ''early'' None None None]\<rparr>,
     \<lparr>msg_role = RoleAssistant, msg_content = [CbToolUse ''c1'' ''read'' 0 None None None, CbToolUse ''c2'' ''read'' 1 None None None]\<rparr>,
     \<lparr>msg_role = RoleUser, msg_content = [CbToolResult ''c2'' ''ok'' None None None]\<rparr>]"

theorem repair_idempotent_witness:
  "snd (repair_tool_call_pairs dangling_history) =
      \<lparr>rr_repaired_call_ids = [''c1''], rr_duplicate_result_ids = [], rr_orphan_result_ids = [''c1''],
       rr_repaired_result_positions = [(1, 0)]\<rparr>
    \<and> receipt_is_empty (snd (repair_tool_call_pairs (fst (repair_tool_call_pairs dangling_history))))"
proof
  show "snd (repair_tool_call_pairs dangling_history) =
      \<lparr>rr_repaired_call_ids = [''c1''], rr_duplicate_result_ids = [], rr_orphan_result_ids = [''c1''],
       rr_repaired_result_positions = [(1, 0)]\<rparr>" by code_simp
  have "list_all keys_ok dangling_history" by code_simp
  from repair_idempotent [OF this]
  show "receipt_is_empty (snd (repair_tool_call_pairs (fst (repair_tool_call_pairs dangling_history))))"
    by (simp add: receipt_is_empty_def)
qed

text \<open>Without distinct keys the repair is not idempotent: two calls with one execution id can never be answered,
  so every resume of such a session quarantines the crash results of the last one, writes them again and
  appends one more visible receipt.\<close>

definition doubled_history :: "nat Message list" where
  "doubled_history =
    [\<lparr>msg_role = RoleAssistant, msg_content = [CbToolUse ''a'' ''read'' 0 (Some ''e'') None None,
       CbToolUse ''b'' ''read'' 1 (Some ''e'') None None]\<rparr>]"

lemma doubled_keys_repair_again:
  "let once = fst (repair_tool_call_pairs doubled_history);
       (twice, receipt) = repair_tool_call_pairs once in
   \<not> receipt_is_empty receipt \<and> length once = 3 \<and> length twice = 4"
  by code_simp

end
