(* ===== verification/Lease.thy ===== *)
theory Lease
  imports Decimal
begin

text \<open>
  The workspace drive lease (\<open>crates/runtime/src/workspace_lease.rs\<close>): the holder record, the kernel lock of
  a lease file, the registry of shared handles each process keeps, and the steps of acquiring and dropping
  a handle.

  A step is one critical section of the code: \<open>acquire_registry\<close> runs under the lock of the registry,
  \<open>acquire_slot\<close> and \<open>drop_handle\<close> under the lock of one slot. Between the first two a thread holds a
  clone of the slot, which is counted in \<open>lw_joining\<close>. What directories, locks and clocks answer in one
  attempt is the argument \<open>Attempt\<close>; paths, canonicalisation and hashing give the lease key, which is an
  argument. Panics inside a critical section (lock poisoning) are outside the model.
\<close>

section \<open>Holder record\<close>

record WorkspaceLeaseHolder =
  lh_pid :: u32
  lh_process_start :: "string option"
  lh_client :: "string option"
  lh_store_root :: "string option"
  lh_since_ms :: u64

text \<open>\<open>replace(['\n', '='], " ")\<close>\<close>

definition record_field :: "string \<Rightarrow> string" where
  "record_field s = map (\<lambda>c. if c = CHR 0x0A \<or> c = CHR ''='' then CHR '' '' else c) s"

definition record_line :: "string \<Rightarrow> string \<Rightarrow> string" where
  "record_line key value = key @ CHR ''='' # value @ [CHR 0x0A]"

definition to_record :: "WorkspaceLeaseHolder \<Rightarrow> string" where
  "to_record h =
     record_line ''version'' ''1'' @ record_line ''pid'' (show_nat (unat (lh_pid h)))
     @ record_line ''since_ms'' (show_nat (unat (lh_since_ms h)))
     @ (case lh_process_start h of Some process_start \<Rightarrow> record_line ''process_start'' process_start | None \<Rightarrow> [])
     @ (case lh_client h of Some client \<Rightarrow> record_line ''client'' (record_field client) | None \<Rightarrow> [])
     @ (case lh_store_root h of Some store_root \<Rightarrow> record_line ''store_root'' (record_field store_root) | None \<Rightarrow> [])"

text \<open>The local variables of \<open>from_record\<close>.\<close>

record RecordFields =
  rf_version :: "nat option"
  rf_pid :: "nat option"
  rf_process_start :: "string option"
  rf_client :: "string option"
  rf_store_root :: "string option"
  rf_since_ms :: "nat option"

definition no_fields :: RecordFields where
  "no_fields = \<lparr>rf_version = None, rf_pid = None, rf_process_start = None, rf_client = None,
     rf_store_root = None, rf_since_ms = None\<rparr>"

definition record_step :: "string \<Rightarrow> RecordFields \<Rightarrow> RecordFields" where
  "record_step line f =
     (case split_once (CHR ''='') line of
        None \<Rightarrow> f
      | Some (key, value) \<Rightarrow>
          if key = ''version'' then f\<lparr>rf_version := parse_unsigned (2 ^ 32) value\<rparr>
          else if key = ''pid'' then f\<lparr>rf_pid := parse_unsigned (2 ^ 32) value\<rparr>
          else if key = ''process_start'' then f\<lparr>rf_process_start := Some value\<rparr>
          else if key = ''client'' then f\<lparr>rf_client := Some value\<rparr>
          else if key = ''store_root'' then f\<lparr>rf_store_root := Some value\<rparr>
          else if key = ''since_ms'' then f\<lparr>rf_since_ms := parse_unsigned (2 ^ 64) value\<rparr>
          else f)"

definition from_record :: "string \<Rightarrow> WorkspaceLeaseHolder option" where
  "from_record content =
     (let f = fold record_step (lines content) no_fields in
      if rf_version f \<noteq> Some 1 then None
      else case (rf_pid f, rf_since_ms f) of
        (Some pid, Some since_ms) \<Rightarrow>
          Some \<lparr>lh_pid = word_of_nat pid, lh_process_start = rf_process_start f, lh_client = rf_client f,
                lh_store_root = rf_store_root f, lh_since_ms = word_of_nat since_ms\<rparr>
      | _ \<Rightarrow> None)"

section \<open>The kernel lock\<close>

record LeaseWorld =
  lw_lock :: "string \<Rightarrow> u32 option"
  lw_record :: "string \<Rightarrow> string"
  lw_slots :: "u32 \<Rightarrow> string \<Rightarrow> nat option option"
  lw_handles :: "u32 \<Rightarrow> string \<Rightarrow> nat"
  lw_joining :: "u32 \<Rightarrow> string \<Rightarrow> nat"

definition lease_world_start :: LeaseWorld where
  "lease_world_start = \<lparr>lw_lock = \<lambda>_. None, lw_record = \<lambda>_. [], lw_slots = \<lambda>_ _. None,
     lw_handles = \<lambda>_ _. 0, lw_joining = \<lambda>_ _. 0\<rparr>"

text \<open>What \<open>flock\<close> answers apart from contention, and the other answers of the system in one attempt.\<close>

datatype Flock = FlockRuns | FlockUnavailable string | FlockFails

record Attempt =
  at_directories_admitted :: bool
  at_flock :: Flock
  at_identity_kept :: bool
  at_process_start :: "string option"
  at_now_ms :: u64

datatype LeaseError = AdmissionFailed | LockFailed | IdentityChanged

datatype LeaseAttempt = Acquired | Contended | Unsupported string

text \<open>\<open>try_acquire\<close>: a lock taken before a failed identity check is released with its file.\<close>

definition try_acquire ::
  "Attempt \<Rightarrow> u32 \<Rightarrow> string \<Rightarrow> string option \<Rightarrow> string option \<Rightarrow> LeaseWorld \<Rightarrow> (LeaseError + LeaseAttempt) \<times> LeaseWorld" where
  "try_acquire a p k client store_root w =
     (if \<not> at_directories_admitted a then (Inl AdmissionFailed, w)
      else case at_flock a of
        FlockUnavailable reason \<Rightarrow> (Inr (Unsupported reason), w)
      | FlockFails \<Rightarrow> (Inl LockFailed, w)
      | FlockRuns \<Rightarrow>
          if lw_lock w k \<noteq> None then (Inr Contended, w)
          else if \<not> at_identity_kept a then (Inl IdentityChanged, w)
          else
            (let holder = \<lparr>lh_pid = p, lh_process_start = at_process_start a, lh_client = client,
                   lh_store_root = store_root, lh_since_ms = at_now_ms a\<rparr>
             in (Inr Acquired, w\<lparr>lw_lock := (lw_lock w)(k := Some p),
                                lw_record := (lw_record w)(k := to_record holder)\<rparr>)))"

text \<open>\<open>drop\<close> of the OS lease.\<close>

definition release_lock :: "string \<Rightarrow> LeaseWorld \<Rightarrow> LeaseWorld" where
  "release_lock k w = w\<lparr>lw_lock := (lw_lock w)(k := None)\<rparr>"

definition read_holder :: "string \<Rightarrow> LeaseWorld \<Rightarrow> WorkspaceLeaseHolder option" where
  "read_holder k w = from_record (lw_record w k)"

section \<open>Shared handles\<close>

datatype LeaseAdmission = Held | AdmissionContended | AdmissionUnsupported string

text \<open>Updates of one cell of the per-process tables.\<close>

definition cell :: "u32 \<Rightarrow> string \<Rightarrow> 'a \<Rightarrow> (u32 \<Rightarrow> string \<Rightarrow> 'a) \<Rightarrow> u32 \<Rightarrow> string \<Rightarrow> 'a" where
  "cell p k x f = f(p := (f p)(k := x))"

definition set_slot :: "u32 \<Rightarrow> string \<Rightarrow> nat option \<Rightarrow> LeaseWorld \<Rightarrow> LeaseWorld" where
  "set_slot p k state w = w\<lparr>lw_slots := cell p k (Some state) (lw_slots w)\<rparr>"

definition add_handle :: "u32 \<Rightarrow> string \<Rightarrow> LeaseWorld \<Rightarrow> LeaseWorld" where
  "add_handle p k w = w\<lparr>lw_handles := cell p k (lw_handles w p k + 1) (lw_handles w)\<rparr>"

text \<open>The attempt shared by both sections: on success the slot is filled with a count of one and the
  caller gets a handle.\<close>

definition admit ::
  "Attempt \<Rightarrow> u32 \<Rightarrow> string \<Rightarrow> string option \<Rightarrow> string option \<Rightarrow> LeaseWorld \<Rightarrow> (LeaseError + LeaseAdmission) \<times> LeaseWorld" where
  "admit a p k client store_root w =
     (case try_acquire a p k client store_root w of
        (Inl err, w) \<Rightarrow> (Inl err, w)
      | (Inr Acquired, w) \<Rightarrow> (Inr Held, add_handle p k (set_slot p k (Some 1) w))
      | (Inr Contended, w) \<Rightarrow> (Inr AdmissionContended, w)
      | (Inr (Unsupported reason), w) \<Rightarrow> (Inr (AdmissionUnsupported reason), w))"

text \<open>\<open>acquire\<close>, under the registry lock: \<open>None\<close> means that the slot exists and was cloned.\<close>

definition acquire_registry ::
  "Attempt \<Rightarrow> u32 \<Rightarrow> string \<Rightarrow> string option \<Rightarrow> string option \<Rightarrow> LeaseWorld
    \<Rightarrow> (LeaseError + LeaseAdmission) option \<times> LeaseWorld" where
  "acquire_registry a p k client store_root w =
     (case lw_slots w p k of
        Some _ \<Rightarrow> (None, w\<lparr>lw_joining := cell p k (lw_joining w p k + 1) (lw_joining w)\<rparr>)
      | None \<Rightarrow> (case admit a p k client store_root w of (r, w) \<Rightarrow> (Some r, w)))"

text \<open>\<open>acquire\<close>, under the slot lock.\<close>

definition acquire_slot ::
  "Attempt \<Rightarrow> u32 \<Rightarrow> string \<Rightarrow> string option \<Rightarrow> string option \<Rightarrow> LeaseWorld
    \<Rightarrow> (LeaseError + LeaseAdmission) \<times> LeaseWorld" where
  "acquire_slot a p k client store_root w =
     (let w = w\<lparr>lw_joining := cell p k (lw_joining w p k - 1) (lw_joining w)\<rparr> in
      case lw_slots w p k of
        Some (Some count) \<Rightarrow> (Inr Held, add_handle p k (set_slot p k (Some (count + 1)) w))
      | _ \<Rightarrow> admit a p k client store_root w)"

text \<open>\<open>drop\<close> of a shared handle.\<close>

definition drop_handle :: "u32 \<Rightarrow> string \<Rightarrow> LeaseWorld \<Rightarrow> LeaseWorld" where
  "drop_handle p k w =
     (let w = w\<lparr>lw_handles := cell p k (lw_handles w p k - 1) (lw_handles w)\<rparr> in
      case lw_slots w p k of
        Some (Some count) \<Rightarrow>
          let w = set_slot p k (Some (count - 1)) w in
          if count - 1 = 0 then release_lock k (set_slot p k None w) else w
      | _ \<Rightarrow> w)"

text \<open>The death of a process: its memory is gone and the kernel releases its locks.\<close>

definition process_exit :: "u32 \<Rightarrow> LeaseWorld \<Rightarrow> LeaseWorld" where
  "process_exit p w = w\<lparr>lw_lock := (\<lambda>k. if lw_lock w k = Some p then None else lw_lock w k),
     lw_slots := (lw_slots w)(p := \<lambda>_. None), lw_handles := (lw_handles w)(p := \<lambda>_. 0),
     lw_joining := (lw_joining w)(p := \<lambda>_. 0)\<rparr>"

text \<open>The interleaving of the sections of all threads of all processes.\<close>

inductive lease_step :: "LeaseWorld \<Rightarrow> LeaseWorld \<Rightarrow> bool" where
  Registry: "lease_step w (snd (acquire_registry a p k client store_root w))"
| Slot: "0 < lw_joining w p k \<Longrightarrow> lease_step w (snd (acquire_slot a p k client store_root w))"
| Drop: "0 < lw_handles w p k \<Longrightarrow> lease_step w (drop_handle p k w)"
| Exit: "lease_step w (process_exit p w)"

end
