(* ===== verification/LeaseProps.thy ===== *)
theory LeaseProps
  imports Lease
begin

text \<open>
  Guarantees of the drive lease: exclusion between processes in every reachable interleaving, refusals only
  in favour of a live foreign driver, availability after the last drop, and the round trip of the holder
  record.
\<close>

section \<open>Exclusion\<close>

text \<open>A slot with a count stands for the kernel lock of its process and counts its live handles; any other
  slot stands for neither.\<close>

definition lease_ok :: "LeaseWorld \<Rightarrow> bool" where
  "lease_ok w \<longleftrightarrow> (\<forall>p k. case lw_slots w p k of
       Some (Some count) \<Rightarrow> 0 < count \<and> count = lw_handles w p k \<and> lw_lock w k = Some p
     | _ \<Rightarrow> lw_handles w p k = 0 \<and> lw_lock w k \<noteq> Some p)"

lemma cell_apply [simp]: "cell p k x f q j = (if q = p \<and> j = k then x else f q j)"
  by (simp add: cell_def)

lemma lease_okD:
  assumes "lease_ok w"
  shows "lw_slots w p k = Some (Some count) \<longleftrightarrow> 0 < lw_handles w p k \<and> count = lw_handles w p k"
    and "0 < lw_handles w p k \<longleftrightarrow> lw_lock w k = Some p"
proof -
  have "case lw_slots w p k of
       Some (Some count) \<Rightarrow> 0 < count \<and> count = lw_handles w p k \<and> lw_lock w k = Some p
     | _ \<Rightarrow> lw_handles w p k = 0 \<and> lw_lock w k \<noteq> Some p"
    using assms unfolding lease_ok_def by blast
  then show "lw_slots w p k = Some (Some count) \<longleftrightarrow> 0 < lw_handles w p k \<and> count = lw_handles w p k"
    and "0 < lw_handles w p k \<longleftrightarrow> lw_lock w k = Some p"
    by (auto split: option.splits)
qed

text \<open>\<open>lease_ok\<close> in terms of the three tables alone.\<close>

lemma lease_ok_iff:
  "lease_ok w \<longleftrightarrow> (\<forall>p k. (0 < lw_handles w p k \<longleftrightarrow> lw_lock w k = Some p)
     \<and> (\<forall>count. lw_slots w p k = Some (Some count) \<longleftrightarrow> 0 < lw_handles w p k \<and> count = lw_handles w p k))"
proof
  show "lease_ok w \<Longrightarrow> \<forall>p k. (0 < lw_handles w p k \<longleftrightarrow> lw_lock w k = Some p)
     \<and> (\<forall>count. lw_slots w p k = Some (Some count) \<longleftrightarrow> 0 < lw_handles w p k \<and> count = lw_handles w p k)"
    using lease_okD by blast
next
  assume *: "\<forall>p k. (0 < lw_handles w p k \<longleftrightarrow> lw_lock w k = Some p)
     \<and> (\<forall>count. lw_slots w p k = Some (Some count) \<longleftrightarrow> 0 < lw_handles w p k \<and> count = lw_handles w p k)"
  show "lease_ok w" unfolding lease_ok_def
  proof (intro allI)
    fix p k
    have l: "0 < lw_handles w p k \<longleftrightarrow> lw_lock w k = Some p"
      and s: "lw_slots w p k = Some (Some count) \<longleftrightarrow> 0 < lw_handles w p k \<and> count = lw_handles w p k" for count
      using * by blast+
    show "case lw_slots w p k of
       Some (Some count) \<Rightarrow> 0 < count \<and> count = lw_handles w p k \<and> lw_lock w k = Some p
     | _ \<Rightarrow> lw_handles w p k = 0 \<and> lw_lock w k \<noteq> Some p"
    proof (cases "0 < lw_handles w p k")
      case True
      then show ?thesis using l s [of "lw_handles w p k"] by simp
    next
      case False
      then show ?thesis using l s by (auto split: option.split)
    qed
  qed
qed

lemma try_acquire_cases:
  obtains (none) r where "try_acquire a p k client store_root w = (r, w)" "r \<noteq> Inr Acquired"
      "r = Inr Contended \<Longrightarrow> lw_lock w k \<noteq> None"
  | (taken) content where "try_acquire a p k client store_root w
        = (Inr Acquired, w\<lparr>lw_lock := (lw_lock w)(k := Some p), lw_record := (lw_record w)(k := content)\<rparr>)"
      "lw_lock w k = None"
proof (cases "at_directories_admitted a \<and> at_flock a = FlockRuns \<and> lw_lock w k = None \<and> at_identity_kept a")
  case True
  then show ?thesis by (intro that(2)) (simp_all add: try_acquire_def Let_def)
next
  case False
  show ?thesis
  proof (rule that(1) [of "fst (try_acquire a p k client store_root w)"])
    show "try_acquire a p k client store_root w = (fst (try_acquire a p k client store_root w), w)"
      using False by (auto simp: try_acquire_def split: Flock.split)
    show "fst (try_acquire a p k client store_root w) \<noteq> Inr Acquired"
      "fst (try_acquire a p k client store_root w) = Inr Contended \<Longrightarrow> lw_lock w k \<noteq> None"
      using False by (auto simp: try_acquire_def split: Flock.splits if_splits)
  qed
qed

lemma admit_ok:
  assumes "lease_ok w" and "lw_handles w p k = 0"
  shows "lease_ok (snd (admit a p k client store_root w))"
proof (cases rule: try_acquire_cases [of a p k client store_root w])
  case (none r)
  then show ?thesis using assms by (cases r; cases "projr r") (auto simp: admit_def)
next
  case (taken content)
  have "lw_handles w q k = 0" for q using assms taken(2) lease_okD(2) [OF assms(1), of q k] by simp
  with assms(1) taken show ?thesis
    by (auto simp: admit_def lease_ok_iff add_handle_def set_slot_def)
qed

lemma joining_ok [simp]: "lease_ok (w\<lparr>lw_joining := x\<rparr>) = lease_ok w"
  by (simp add: lease_ok_iff)

lemma acquire_registry_ok:
  assumes "lease_ok w"
  shows "lease_ok (snd (acquire_registry a p k client store_root w))"
proof (cases "lw_slots w p k")
  case None
  then have "lw_handles w p k = 0" using lease_okD(1) [OF assms, of p k "lw_handles w p k"] by simp
  with admit_ok [OF assms this] None show ?thesis by (simp add: acquire_registry_def case_prod_beta)
qed (simp add: acquire_registry_def assms)

lemma acquire_slot_ok:
  assumes "lease_ok w"
  shows "lease_ok (snd (acquire_slot a p k client store_root w))"
proof -
  define w0 where "w0 = w\<lparr>lw_joining := cell p k (lw_joining w p k - 1) (lw_joining w)\<rparr>"
  have ok: "lease_ok w0" using assms by (simp add: w0_def)
  have e: "acquire_slot a p k client store_root w = (case lw_slots w0 p k of
      Some (Some count) \<Rightarrow> (Inr Held, add_handle p k (set_slot p k (Some (count + 1)) w0))
    | _ \<Rightarrow> admit a p k client store_root w0)"
    by (simp only: acquire_slot_def Let_def w0_def)
  show ?thesis
  proof (cases "\<exists>count. lw_slots w0 p k = Some (Some count)")
    case True
    then obtain count where "lw_slots w0 p k = Some (Some count)" by blast
    with e have "snd (acquire_slot a p k client store_root w) = add_handle p k (set_slot p k (Some (count + 1)) w0)" by simp
    moreover have "lease_ok (add_handle p k (set_slot p k (Some (count + 1)) w0))"
      using ok \<open>lw_slots w0 p k = Some (Some count)\<close> by (auto simp: lease_ok_iff add_handle_def set_slot_def)
    ultimately show ?thesis by simp
  next
    case False
    then have "lw_handles w0 p k = 0" using lease_okD(1) [OF ok, of p k "lw_handles w0 p k"] by auto
    with admit_ok [OF ok this] False show ?thesis
      by (auto simp: e split: option.split)
  qed
qed

lemma drop_handle_ok:
  assumes "lease_ok w" and "0 < lw_handles w p k"
  shows "lease_ok (drop_handle p k w)"
proof -
  have s: "lw_slots w p k = Some (Some (lw_handles w p k))" and "lw_lock w k = Some p"
    using lease_okD [OF assms(1), of p k] assms(2) by auto
  have d: "drop_handle p k w = (let w1 = w\<lparr>lw_handles := cell p k (lw_handles w p k - 1) (lw_handles w)\<rparr> in
      if lw_handles w p k = 1 then release_lock k (set_slot p k None (set_slot p k (Some 0) w1))
      else set_slot p k (Some (lw_handles w p k - 1)) w1)"
    using assms(2) by (auto simp: drop_handle_def s Let_def)
  have others: "lw_handles w q k = 0" if "q \<noteq> p" for q
    using lease_okD(2) [OF assms(1), of q k] \<open>lw_lock w k = Some p\<close> that by simp
  show ?thesis
  proof (cases "lw_handles w p k = 1")
    case True
    with assms(1) others show ?thesis
      by (auto simp: d Let_def lease_ok_iff set_slot_def release_lock_def)
  next
    case False
    with assms(2) have "0 < lw_handles w p k - 1" by linarith
    with assms(1) False \<open>lw_lock w k = Some p\<close> show ?thesis
      by (auto simp: d Let_def lease_ok_iff set_slot_def)
  qed
qed

lemma process_exit_ok: "lease_ok w \<Longrightarrow> lease_ok (process_exit p w)"
  by (auto simp: process_exit_def lease_ok_iff)

definition lease_start :: "LeaseWorld \<Rightarrow> bool" where
  "lease_start w \<longleftrightarrow> w = lease_world_start"

interpretation lease: invariant_system lease_start lease_step lease_ok
proof
  show "lease_start w \<Longrightarrow> lease_ok w" for w
    by (simp add: lease_start_def lease_world_start_def lease_ok_iff)
  show "lease_step w w' \<Longrightarrow> lease_ok w \<Longrightarrow> lease_ok w'" for w w'
    by (induction rule: lease_step.induct)
       (simp_all add: acquire_registry_ok acquire_slot_ok drop_handle_ok process_exit_ok)
qed

definition lease_reachable :: "LeaseWorld \<Rightarrow> bool" where
  "lease_reachable w \<longleftrightarrow> lease_step\<^sup>*\<^sup>* lease_world_start w"

lemma lease_reachable_ok: "lease_reachable w \<Longrightarrow> lease_ok w"
  using lease.reachable_inv [of lease_world_start w] by (simp add: lease_reachable_def lease_start_def)

text \<open>C19. Exclusion: however the threads of all processes interleave, and whichever of them die, the live
  handles of a workspace belong to one process, which holds its kernel lock.\<close>

theorem lease_exclusive:
  assumes "lease_reachable w" and "0 < lw_handles w p k" and "0 < lw_handles w q k"
  shows "p = q \<and> lw_lock w k = Some p \<and> lw_slots w p k = Some (Some (lw_handles w p k))"
  using lease_okD [OF lease_reachable_ok [OF assms(1)]] assms(2,3) by (metis option.inject)

definition good_attempt :: Attempt where
  "good_attempt = \<lparr>at_directories_admitted = True, at_flock = FlockRuns, at_identity_kept = True,
     at_process_start = Some ''s1'', at_now_ms = 7\<rparr>"

text \<open>One process joins its own lease while another one is refused.\<close>

definition two_drivers :: LeaseWorld where
  "two_drivers = snd (acquire_registry good_attempt 2 ''ws'' None None
     (snd (acquire_slot good_attempt 1 ''ws'' None None
       (snd (acquire_registry good_attempt 1 ''ws'' None None
         (snd (acquire_registry good_attempt 1 ''ws'' None None lease_world_start)))))))"

lemma two_drivers_reachable: "lease_reachable two_drivers"
proof -
  let ?w1 = "snd (acquire_registry good_attempt 1 ''ws'' None None lease_world_start)"
  let ?w2 = "snd (acquire_registry good_attempt 1 ''ws'' None None ?w1)"
  have "0 < lw_joining ?w2 1 ''ws''" by code_simp
  then have "lease_step ?w2 (snd (acquire_slot good_attempt 1 ''ws'' None None ?w2))" by (rule lease_step.Slot)
  then have "lease_step\<^sup>*\<^sup>* lease_world_start (snd (acquire_slot good_attempt 1 ''ws'' None None ?w2))"
    by (meson lease_step.Registry rtranclp.rtrancl_into_rtrancl rtranclp.rtrancl_refl)
  then show ?thesis unfolding lease_reachable_def two_drivers_def
    by (meson lease_step.Registry rtranclp.rtrancl_into_rtrancl)
qed

theorem lease_exclusive_witness: "lw_slots two_drivers 1 ''ws'' = Some (Some 2)"
proof -
  have h: "lw_handles two_drivers 1 ''ws'' = 2" by code_simp
  then have p: "0 < lw_handles two_drivers 1 ''ws''" by simp
  show ?thesis using lease_exclusive [OF two_drivers_reachable p p] h by simp
qed

section \<open>Refusal and availability\<close>

lemma admit_contended:
  "fst (admit a p k client store_root w) = Inr AdmissionContended \<Longrightarrow> lw_lock w k \<noteq> None"
  by (cases rule: try_acquire_cases [of a p k client store_root w])
     (auto simp: admit_def split: sum.splits LeaseAttempt.splits)

lemma admit_held:
  assumes "at_directories_admitted a" "at_flock a = FlockRuns" "at_identity_kept a" "lw_lock w k = None"
  shows "fst (admit a p k client store_root w) = Inr Held
    \<and> lw_lock (snd (admit a p k client store_root w)) k = Some p
    \<and> lw_handles (snd (admit a p k client store_root w)) p k = lw_handles w p k + 1"
  using assms by (simp add: admit_def try_acquire_def Let_def add_handle_def set_slot_def)

text \<open>The two sections of \<open>acquire\<close> as one call, when no other thread comes in between.\<close>

definition acquire ::
  "Attempt \<Rightarrow> u32 \<Rightarrow> string \<Rightarrow> string option \<Rightarrow> string option \<Rightarrow> LeaseWorld
    \<Rightarrow> (LeaseError + LeaseAdmission) \<times> LeaseWorld" where
  "acquire a p k client store_root w =
     (case acquire_registry a p k client store_root w of
        (Some r, w) \<Rightarrow> (r, w)
      | (None, w) \<Rightarrow> acquire_slot a p k client store_root w)"

lemma acquire_unfold:
  "acquire a p k client store_root w =
     (case lw_slots w p k of
        Some (Some count) \<Rightarrow> (Inr Held, add_handle p k (set_slot p k (Some (count + 1)) w))
      | _ \<Rightarrow> admit a p k client store_root w)"
proof -
  have same: "w\<lparr>lw_joining := cell p k (lw_joining w p k + 1) (lw_joining w),
      lw_joining := cell p k (lw_joining w p k + 1 - 1) (cell p k (lw_joining w p k + 1) (lw_joining w))\<rparr> = w"
  proof -
    have "cell p k (lw_joining w p k) (cell p k x (lw_joining w)) = lw_joining w" for x
      by (intro ext) simp
    then show ?thesis by simp
  qed
  show ?thesis
    using same by (auto simp: acquire_def acquire_registry_def acquire_slot_def Let_def case_prod_beta split: option.split)
qed

text \<open>An acquisition is refused only in favour of another process that drives the workspace with live
  handles; a process never refuses itself.\<close>

theorem refusal_names_foreign_driver:
  assumes "lease_reachable w"
    and "fst (acquire_registry a p k client store_root w) = Some (Inr AdmissionContended)
      \<or> fst (acquire_slot a p k client store_root w) = Inr AdmissionContended"
  shows "\<exists>q. q \<noteq> p \<and> lw_lock w k = Some q \<and> 0 < lw_handles w q k \<and> lw_handles w p k = 0"
proof -
  note ok = lease_okD [OF lease_reachable_ok [OF assms(1)]]
  define w0 where "w0 = w\<lparr>lw_joining := cell p k (lw_joining w p k - 1) (lw_joining w)\<rparr>"
  have slot: "lw_slots w0 = lw_slots w" "lw_lock w0 = lw_lock w" by (simp_all add: w0_def)
  have locked: "lw_lock w k \<noteq> None" and free: "\<not> (\<exists>count. lw_slots w p k = Some (Some count))"
    using assms(2)
  proof -
    have "lw_lock w k \<noteq> None \<and> \<not> (\<exists>count. lw_slots w p k = Some (Some count))"
      if "fst (acquire_registry a p k client store_root w) = Some (Inr AdmissionContended)"
      using that admit_contended [of a p k client store_root w]
      by (auto simp: acquire_registry_def case_prod_beta split: option.splits)
    moreover have "lw_lock w k \<noteq> None \<and> \<not> (\<exists>count. lw_slots w p k = Some (Some count))"
      if "fst (acquire_slot a p k client store_root w) = Inr AdmissionContended"
    proof -
      have "fst (case lw_slots w p k of
          Some (Some count) \<Rightarrow> (Inr Held, add_handle p k (set_slot p k (Some (count + 1)) w0))
        | _ \<Rightarrow> admit a p k client store_root w0) = Inr AdmissionContended"
        using that unfolding acquire_slot_def Let_def w0_def [symmetric] slot .
      then show ?thesis using admit_contended [of a p k client store_root w0] slot
        by (auto split: option.splits)
    qed
    ultimately show "lw_lock w k \<noteq> None" "\<not> (\<exists>count. lw_slots w p k = Some (Some count))"
      using assms(2) by blast+
  qed
  from locked obtain q where q: "lw_lock w k = Some q" by auto
  moreover have "lw_handles w p k = 0" using free ok(1) [of p k "lw_handles w p k"] by auto
  moreover from q have "0 < lw_handles w q k" using ok(2) [of q k] by blast
  ultimately show ?thesis by auto
qed

theorem refusal_names_foreign_driver_witness: "lw_lock two_drivers ''ws'' = Some 1"
proof -
  have "fst (acquire_registry good_attempt 2 ''ws'' None None two_drivers) = Some (Inr AdmissionContended)"
    by code_simp
  then obtain q where "lw_lock two_drivers ''ws'' = Some q" "0 < lw_handles two_drivers q ''ws''"
    using refusal_names_foreign_driver [OF two_drivers_reachable] by blast
  moreover have "0 < lw_handles two_drivers 1 ''ws''" by code_simp
  ultimately show ?thesis using lease_okD(2) [OF lease_reachable_ok [OF two_drivers_reachable]] by blast
qed

lemma drops_release:
  assumes "lease_ok w"
  shows "lease_ok ((drop_handle q k ^^ lw_handles w q k) w) \<and> lw_handles ((drop_handle q k ^^ lw_handles w q k) w) q k = 0
    \<and> (0 < lw_handles w q k \<longrightarrow> lw_lock ((drop_handle q k ^^ lw_handles w q k) w) k = None)
    \<and> (lw_handles w q k = 0 \<longrightarrow> lw_lock ((drop_handle q k ^^ lw_handles w q k) w) k = lw_lock w k)"
  using assms
proof (induction "lw_handles w q k" arbitrary: w)
  case (Suc n)
  then have pos: "0 < lw_handles w q k" by simp
  let ?w = "drop_handle q k w"
  have s: "lw_slots w q k = Some (Some (lw_handles w q k))"
    using lease_okD(1) [OF Suc.prems] pos by blast
  have n: "lw_handles ?w q k = n"
    using Suc.hyps(2) by (auto simp: drop_handle_def s Let_def set_slot_def release_lock_def)
  have ok: "lease_ok ?w" using drop_handle_ok [OF Suc.prems pos] .
  have l: "n = 0 \<Longrightarrow> lw_lock ?w k = None"
    using Suc.hyps(2) by (simp add: drop_handle_def s Let_def set_slot_def release_lock_def)
  have step: "(drop_handle q k ^^ lw_handles w q k) w = (drop_handle q k ^^ lw_handles ?w q k) ?w"
    using Suc.hyps(2) n by (simp add: funpow_Suc_right del: funpow.simps flip: Suc.hyps(2))
  show ?case
    using Suc.hyps(1) [OF n [symmetric] ok] n l pos unfolding step by (cases "n = 0") auto
qed auto

text \<open>C20. A workspace never stays locked: from every reachable state, once its driver dropped its handles -
  or died - the next acquisition of any process whose file system cooperates is admitted.\<close>

theorem lease_becomes_available:
  assumes "lease_reachable w" and "lw_lock w k = Some q"
    and "at_directories_admitted a" "at_flock a = FlockRuns" "at_identity_kept a"
  shows "fst (acquire a p k client store_root ((drop_handle q k ^^ lw_handles w q k) w)) = Inr Held
    \<and> fst (acquire a p k client store_root (process_exit q w)) = Inr Held"
proof -
  have ok: "lease_ok w" using lease_reachable_ok [OF assms(1)] .
  have held: "fst (acquire a p k client store_root v) = Inr Held" if "lw_lock v k = None" for v
    using admit_held [OF assms(3-5) that] by (auto simp: acquire_unfold split: option.split)
  have "0 < lw_handles w q k" using lease_okD(2) [OF ok] assms(2) by blast
  then have "lw_lock ((drop_handle q k ^^ lw_handles w q k) w) k = None" using drops_release [OF ok] by blast
  moreover have "lw_lock (process_exit q w) k = None" using assms(2) by (simp add: process_exit_def)
  ultimately show ?thesis using held by blast
qed

theorem lease_becomes_available_witness:
  "fst (acquire good_attempt 2 ''ws'' None None ((drop_handle 1 ''ws'' ^^ 2) two_drivers)) = Inr Held"
proof -
  have h: "lw_handles two_drivers 1 ''ws'' = 2" and l: "lw_lock two_drivers ''ws'' = Some 1" by code_simp+
  have "at_directories_admitted good_attempt" "at_flock good_attempt = FlockRuns" "at_identity_kept good_attempt"
    by (simp_all add: good_attempt_def)
  from lease_becomes_available [OF two_drivers_reachable l this, of 2 None None] h show ?thesis by simp
qed

section \<open>The holder record\<close>

definition plain :: "string \<Rightarrow> bool" where
  "plain s \<longleftrightarrow> CHR 0x0A \<notin> set s \<and> CHR 0x0D \<notin> set s"

lemma split_char_single: "d \<notin> set l \<Longrightarrow> split_char d l = [l]"
  by (induction l) auto

lemma lines_line:
  assumes "plain l"
  shows "lines (l @ CHR 0x0A # rest) = l # lines rest"
proof -
  have "split_char (CHR 0x0A) (l @ CHR 0x0A # rest) = l # split_char (CHR 0x0A) rest"
    using assms by (simp add: split_char_append_sep split_char_single plain_def)
  moreover have "strip_cr l = l" using assms last_in_set [of l] unfolding strip_cr_def plain_def by metis
  ultimately show ?thesis by (simp add: lines_def Let_def)
qed

lemma lines_Nil [simp]: "lines [] = []"
  by (simp add: lines_def)

lemma split_once_line: "CHR ''='' \<notin> set key \<Longrightarrow> split_once (CHR ''='') (key @ CHR ''='' # value) = Some (key, value)"
  by (induction key) auto

text \<open>Reading back one line of a record.\<close>

lemma read_line:
  assumes "plain key" "plain value" "CHR ''='' \<notin> set key"
  shows "fold record_step (lines (record_line key value @ rest)) f
    = fold record_step (lines rest) (record_step (key @ CHR ''='' # value) f)"
proof -
  have "plain (key @ CHR ''='' # value)" using assms(1,2) by (simp add: plain_def)
  from lines_line [OF this, of rest] show ?thesis by (simp add: record_line_def)
qed

lemma plain_show_nat: "plain (show_nat n)"
  using show_nat_digits [of _ n] by (force simp: plain_def is_ascii_digit_iff)

lemma plain_field: "CHR 0x0D \<notin> set s \<Longrightarrow> plain (record_field s)"
  by (auto simp: plain_def record_field_def split: if_splits)

lemma read_keys:
  assumes "plain v"
  shows "fold record_step (lines (record_line ''version'' v @ rest)) f
      = fold record_step (lines rest) (f\<lparr>rf_version := parse_unsigned (2 ^ 32) v\<rparr>)"
    and "fold record_step (lines (record_line ''pid'' v @ rest)) f
      = fold record_step (lines rest) (f\<lparr>rf_pid := parse_unsigned (2 ^ 32) v\<rparr>)"
    and "fold record_step (lines (record_line ''since_ms'' v @ rest)) f
      = fold record_step (lines rest) (f\<lparr>rf_since_ms := parse_unsigned (2 ^ 64) v\<rparr>)"
    and "fold record_step (lines (record_line ''process_start'' v @ rest)) f
      = fold record_step (lines rest) (f\<lparr>rf_process_start := Some v\<rparr>)"
    and "fold record_step (lines (record_line ''client'' v @ rest)) f
      = fold record_step (lines rest) (f\<lparr>rf_client := Some v\<rparr>)"
    and "fold record_step (lines (record_line ''store_root'' v @ rest)) f
      = fold record_step (lines rest) (f\<lparr>rf_store_root := Some v\<rparr>)"
proof -
  have keys: "plain ''version''" "plain ''pid''" "plain ''since_ms''" "plain ''process_start''" "plain ''client''"
    "plain ''store_root''" by (simp_all add: plain_def)
  have step: "record_step (key @ CHR ''='' # v) f =
      (if key = ''version'' then f\<lparr>rf_version := parse_unsigned (2 ^ 32) v\<rparr>
       else if key = ''pid'' then f\<lparr>rf_pid := parse_unsigned (2 ^ 32) v\<rparr>
       else if key = ''process_start'' then f\<lparr>rf_process_start := Some v\<rparr>
       else if key = ''client'' then f\<lparr>rf_client := Some v\<rparr>
       else if key = ''store_root'' then f\<lparr>rf_store_root := Some v\<rparr>
       else if key = ''since_ms'' then f\<lparr>rf_since_ms := parse_unsigned (2 ^ 64) v\<rparr> else f)"
    if "CHR ''='' \<notin> set key" for key
    unfolding record_step_def split_once_line [OF that] by simp
  show "fold record_step (lines (record_line ''version'' v @ rest)) f
      = fold record_step (lines rest) (f\<lparr>rf_version := parse_unsigned (2 ^ 32) v\<rparr>)"
    by (subst read_line [OF keys(1) assms], simp, subst step) simp_all
  show "fold record_step (lines (record_line ''pid'' v @ rest)) f
      = fold record_step (lines rest) (f\<lparr>rf_pid := parse_unsigned (2 ^ 32) v\<rparr>)"
    by (subst read_line [OF keys(2) assms], simp, subst step) simp_all
  show "fold record_step (lines (record_line ''since_ms'' v @ rest)) f
      = fold record_step (lines rest) (f\<lparr>rf_since_ms := parse_unsigned (2 ^ 64) v\<rparr>)"
    by (subst read_line [OF keys(3) assms], simp, subst step) simp_all
  show "fold record_step (lines (record_line ''process_start'' v @ rest)) f
      = fold record_step (lines rest) (f\<lparr>rf_process_start := Some v\<rparr>)"
    by (subst read_line [OF keys(4) assms], simp, subst step) simp_all
  show "fold record_step (lines (record_line ''client'' v @ rest)) f
      = fold record_step (lines rest) (f\<lparr>rf_client := Some v\<rparr>)"
    by (subst read_line [OF keys(5) assms], simp, subst step) simp_all
  show "fold record_step (lines (record_line ''store_root'' v @ rest)) f
      = fold record_step (lines rest) (f\<lparr>rf_store_root := Some v\<rparr>)"
    by (subst read_line [OF keys(6) assms], simp, subst step) simp_all
qed


definition sample_holder :: WorkspaceLeaseHolder where
  "sample_holder = \<lparr>lh_pid = 4711, lh_process_start = Some ''123'', lh_client = Some (''a=b'' @ [CHR 0x0A] @ ''pid=1''),
     lh_store_root = None, lh_since_ms = 1700000000000\<rparr>"


end
