(* ===== verification/Lanes.thy ===== *)
theory Lanes
  imports Prelude
begin

text \<open>
  Lanes, the running instances of workflows: the durable registry (\<open>crates/lane/src/registry.rs\<close>) and the
  sections of the tmux, inline and retired backends that change it (\<open>crates/lane/src/runtime.rs\<close>), with the
  closing of a failed start by the command line (\<open>crates/cli/src/lib.rs\<close>).

  A registry is the content of its files by lane id; the JSON text of a record is the record. Every operation under
  the lock of a lane is one function; what the file system, the clock and the backend commands answer in
  it is the argument \<open>LaneIo\<close>. A save writes a temporary file and renames it, so a failing save leaves the file as
  it was. Worktrees, journal lines and the test hook for dry runs are not modelled.
\<close>

section \<open>Records\<close>

datatype LaneStatus = LanePending | LaneRunning | LaneStopped | LaneFailed | LaneCompleted

fun lane_status_str :: "LaneStatus \<Rightarrow> string" where
  "lane_status_str LanePending = ''pending''"
| "lane_status_str LaneRunning = ''running''"
| "lane_status_str LaneStopped = ''stopped''"
| "lane_status_str LaneFailed = ''failed''"
| "lane_status_str LaneCompleted = ''completed''"

fun lane_is_active :: "LaneStatus \<Rightarrow> bool" where
  "lane_is_active LanePending = True"
| "lane_is_active LaneRunning = True"
| "lane_is_active _ = False"

datatype TerminalTransition = Transitioned | AlreadyTerminal | FenceMismatch u64

datatype RuntimeBackendKind = Tmux | Inline | Vm | Ci

record LaneRecord =
  lr_id :: string
  lr_workflow :: "string option"
  lr_fleet :: "string option"
  lr_issue :: "string option"
  lr_goal :: "string option"
  lr_runtime :: RuntimeBackendKind
  lr_status :: LaneStatus
  lr_lifecycle_seq :: u64
  lr_worktree_path :: "string option"
  lr_branch :: "string option"
  lr_tmux_session :: "string option"
  lr_tmux_socket :: "string option"
  lr_log_path :: string
  lr_started_at :: string
  lr_stopped_at :: "string option"
  lr_attach_target :: "string option"
  lr_worktree_ttl_secs :: "u64 option"

definition checked_lane_id :: "string \<Rightarrow> bool" where
  "checked_lane_id lane \<longleftrightarrow> lane \<noteq> [] \<and> length lane \<le> 128
     \<and> list_all (\<lambda>b. is_ascii_alphanumeric b \<or> b = CHR ''-'' \<or> b = CHR ''_'') lane"

section \<open>The registry\<close>

datatype LaneFile = LaneText LaneRecord | CorruptText string

text \<open>How far the process that created a lane is with starting it.\<close>

datatype StartPhase = Starting | FailedClean | FailedOrphaned | Started

record LaneWorld =
  ln_files :: "string \<Rightarrow> LaneFile option"
  ln_logs :: "string \<Rightarrow> bool"
  ln_running :: "string \<Rightarrow> bool"
  ln_phase :: "string \<Rightarrow> StartPhase option"

record LaneIo =
  li_locks :: bool
  li_reads :: bool
  li_saves_pending :: bool
  li_saves :: bool
  li_now :: string

datatype LaneError = InvalidLaneId | LockFailed | ReadFailed | ParseFailed | SaveFailed | LogExists
  | NotTerminal | TransitionFailed | RollbackFailed

definition lane_save :: "bool \<Rightarrow> LaneRecord \<Rightarrow> LaneWorld \<Rightarrow> (LaneError + unit) \<times> LaneWorld" where
  "lane_save written r w =
     (if \<not> checked_lane_id (lr_id r) then (Inl InvalidLaneId, w)
      else if \<not> written then (Inl SaveFailed, w)
      else (Inr (), w\<lparr>ln_files := (ln_files w)(lr_id r \<mapsto> LaneText r)\<rparr>))"

definition lane_load :: "bool \<Rightarrow> string \<Rightarrow> LaneWorld \<Rightarrow> LaneError + LaneRecord" where
  "lane_load readable lane w =
     (if \<not> checked_lane_id lane then Inl InvalidLaneId
      else if \<not> readable then Inl ReadFailed
      else case ln_files w lane of
        None \<Rightarrow> Inl ReadFailed
      | Some (CorruptText _) \<Rightarrow> Inl ParseFailed
      | Some (LaneText r) \<Rightarrow> Inr r)"

text \<open>\<open>new_id\<close> and the paths are arguments; \<open>create_new\<close> refuses a log that exists.\<close>

record LaneRequest =
  rq_workflow :: "string option"
  rq_fleet :: "string option"
  rq_issue :: "string option"
  rq_goal :: "string option"
  rq_runtime :: RuntimeBackendKind
  rq_worktree_ttl_secs :: "u64 option"

definition create_pending :: "LaneIo \<Rightarrow> string \<Rightarrow> string \<Rightarrow> LaneRequest \<Rightarrow> LaneWorld \<Rightarrow> (LaneError + LaneRecord) \<times> LaneWorld" where
  "create_pending io lane log_path rq w =
     (if ln_logs w lane then (Inl LogExists, w)
      else
        (let w = w\<lparr>ln_logs := (ln_logs w)(lane := True)\<rparr>;
             r = \<lparr>lr_id = lane, lr_workflow = rq_workflow rq, lr_fleet = rq_fleet rq, lr_issue = rq_issue rq,
                  lr_goal = rq_goal rq, lr_runtime = rq_runtime rq, lr_status = LanePending, lr_lifecycle_seq = 1,
                  lr_worktree_path = None, lr_branch = None, lr_tmux_session = None, lr_tmux_socket = None,
                  lr_log_path = log_path, lr_started_at = li_now io, lr_stopped_at = None, lr_attach_target = None,
                  lr_worktree_ttl_secs = rq_worktree_ttl_secs rq\<rparr>
         in case lane_save (li_saves io) r w of
              (Inl err, w) \<Rightarrow> (Inl err, w)
            | (Inr _, w) \<Rightarrow> (Inr r, w)))"

text \<open>A launch or teardown command: whether it succeeded, and the new state.\<close>

type_synonym LaneCommand = "LaneWorld \<Rightarrow> bool \<times> LaneWorld"

definition mark_running_if_pending_with ::
  "LaneIo \<Rightarrow> LaneCommand \<Rightarrow> LaneCommand \<Rightarrow> LaneRecord \<Rightarrow> LaneWorld \<Rightarrow> (LaneError + bool) \<times> LaneRecord \<times> LaneWorld" where
  "mark_running_if_pending_with io before_transition rollback r w =
     (if \<not> li_locks io then (Inl LockFailed, r, w)
      else case lane_load (li_reads io) (lr_id r) w of
        Inl err \<Rightarrow> (Inl err, r, w)
      | Inr current \<Rightarrow>
          if lr_status current \<noteq> LanePending then (Inr False, current, w)
          else
            (let r = r\<lparr>lr_lifecycle_seq := max (lr_lifecycle_seq current) 1, lr_status := LanePending,
                       lr_stopped_at := None\<rparr> in
             case lane_save (li_saves_pending io) r w of
               (Inl err, w) \<Rightarrow> (Inl err, r, w)
             | (Inr _, w) \<Rightarrow>
                 (case before_transition w of
                    (False, w) \<Rightarrow> (Inl TransitionFailed, r, w)
                  | (True, w) \<Rightarrow>
                      (let running = r\<lparr>lr_status := LaneRunning, lr_lifecycle_seq := sat_add (lr_lifecycle_seq r) 1,
                                       lr_stopped_at := None\<rparr> in
                       case lane_save (li_saves io) running w of
                         (Inr _, w) \<Rightarrow> (Inr True, running, w)
                       | (Inl save_error, w) \<Rightarrow>
                           (let r = running\<lparr>lr_status := LanePending,
                                            lr_lifecycle_seq := max (lr_lifecycle_seq current) 1\<rparr> in
                            case rollback w of
                              (False, w) \<Rightarrow> (Inl RollbackFailed, r, w)
                            | (True, w) \<Rightarrow> (Inl save_error, r, w))))))"

definition mark_terminal_if_active_fenced ::
  "LaneIo \<Rightarrow> LaneStatus \<Rightarrow> u64 option \<Rightarrow> (LaneRecord \<Rightarrow> LaneCommand) \<Rightarrow> LaneRecord \<Rightarrow> LaneWorld
    \<Rightarrow> (LaneError + TerminalTransition) \<times> LaneRecord \<times> LaneWorld" where
  "mark_terminal_if_active_fenced io status expected_lifecycle_seq before_transition r w =
     (if lane_is_active status then (Inl NotTerminal, r, w)
      else if \<not> li_locks io then (Inl LockFailed, r, w)
      else case lane_load (li_reads io) (lr_id r) w of
        Inl err \<Rightarrow> (Inl err, r, w)
      | Inr current \<Rightarrow>
          if (case expected_lifecycle_seq of Some expected \<Rightarrow> expected \<noteq> lr_lifecycle_seq current | None \<Rightarrow> False)
          then (Inr (FenceMismatch (lr_lifecycle_seq current)), current, w)
          else if \<not> lane_is_active (lr_status current) then (Inr AlreadyTerminal, current, w)
          else
            (case before_transition current w of
               (False, w) \<Rightarrow> (Inl TransitionFailed, r, w)
             | (True, w) \<Rightarrow>
                 (let current = current\<lparr>lr_lifecycle_seq := sat_add (max (lr_lifecycle_seq current) 1) 1,
                        lr_status := status, lr_stopped_at := Some (li_now io), lr_attach_target := None\<rparr> in
                  case lane_save (li_saves io) current w of
                    (Inl err, w) \<Rightarrow> (Inl err, r, w)
                  | (Inr _, w) \<Rightarrow> (Inr Transitioned, current, w))))"

definition mark_terminal_if_active ::
  "LaneIo \<Rightarrow> LaneStatus \<Rightarrow> LaneRecord \<Rightarrow> LaneWorld \<Rightarrow> (LaneError + TerminalTransition) \<times> LaneRecord \<times> LaneWorld" where
  "mark_terminal_if_active io status r w = mark_terminal_if_active_fenced io status None (\<lambda>_ w. (True, w)) r w"

section \<open>Backends\<close>

definition session_name :: "string \<Rightarrow> string" where
  "session_name lane = ''cw-'' @ lane"

text \<open>The commands of tmux: whether a session is created, and whether a session is stopped.\<close>

definition spawn_session :: "bool \<Rightarrow> string \<Rightarrow> LaneCommand" where
  "spawn_session spawned session w =
     (if spawned then (True, w\<lparr>ln_running := (ln_running w)(session := True)\<rparr>) else (False, w))"

definition stop_tmux_session :: "bool \<Rightarrow> string \<Rightarrow> LaneCommand" where
  "stop_tmux_session stopped session w =
     (if stopped then (True, w\<lparr>ln_running := (ln_running w)(session := False)\<rparr>) else (False, w))"

text \<open>The record a tmux start proposes.\<close>

definition tmux_proposal :: "string \<Rightarrow> string \<Rightarrow> LaneRecord \<Rightarrow> LaneRecord" where
  "tmux_proposal socket attach_target r =
     r\<lparr>lr_tmux_session := Some (session_name (lr_id r)), lr_tmux_socket := Some socket,
       lr_attach_target := Some attach_target\<rparr>"

text \<open>The launch of the tmux backend under the lock, with the phase in which it leaves the start: a session that was
  spawned and not rolled back stays behind.\<close>

definition tmux_launch :: "LaneIo \<Rightarrow> bool \<Rightarrow> bool \<Rightarrow> string \<Rightarrow> string \<Rightarrow> LaneRecord \<Rightarrow> LaneWorld \<Rightarrow> LaneWorld" where
  "tmux_launch io spawned stopped socket attach_target r w =
     (let r = tmux_proposal socket attach_target r; session = session_name (lr_id r) in
      case mark_running_if_pending_with io (spawn_session spawned session) (stop_tmux_session stopped session) r w of
        (result, _, w) \<Rightarrow> w\<lparr>ln_phase := (ln_phase w)(lr_id r \<mapsto>
          (case result of Inr True \<Rightarrow> Started | Inr False \<Rightarrow> FailedClean
           | Inl RollbackFailed \<Rightarrow> FailedOrphaned | Inl _ \<Rightarrow> FailedClean))\<rparr>)"

text \<open>The inline backend marks the lane running before it spawns its child.\<close>

definition inline_launch :: "LaneIo \<Rightarrow> LaneRecord \<Rightarrow> LaneWorld \<Rightarrow> LaneWorld" where
  "inline_launch io r w =
     (case mark_running_if_pending_with io (\<lambda>w. (True, w)) (\<lambda>w. (True, w)) r w of
        (result, _, w) \<Rightarrow> w\<lparr>ln_phase := (ln_phase w)(lr_id r \<mapsto>
          (case result of Inr True \<Rightarrow> Started | _ \<Rightarrow> FailedClean))\<rparr>)"

text \<open>The command line closes a start that failed, whatever the reason.\<close>

definition cli_close :: "LaneIo \<Rightarrow> LaneRecord \<Rightarrow> LaneWorld \<Rightarrow> LaneWorld" where
  "cli_close io r w =
     (case mark_terminal_if_active io LaneFailed r w of
        (_, _, w) \<Rightarrow> w\<lparr>ln_phase := (ln_phase w)(lr_id r \<mapsto> Started)\<rparr>)"

fun stop_command :: "bool \<Rightarrow> RuntimeBackendKind \<Rightarrow> LaneRecord \<Rightarrow> LaneCommand" where
  "stop_command stopped Tmux current w =
     (case (lr_tmux_socket current, lr_tmux_session current) of
        (Some _, Some session) \<Rightarrow> stop_tmux_session stopped session w
      | _ \<Rightarrow> (lr_status current \<noteq> LaneRunning, w))"
| "stop_command stopped Inline current w = (lr_status current \<noteq> LaneRunning, w)"
| "stop_command stopped _ current w = (True, w)"

definition backend_stop :: "LaneIo \<Rightarrow> bool \<Rightarrow> u64 option \<Rightarrow> LaneRecord \<Rightarrow> LaneWorld
    \<Rightarrow> (LaneError + TerminalTransition) \<times> LaneRecord \<times> LaneWorld" where
  "backend_stop io stopped fence r w =
     mark_terminal_if_active_fenced io LaneStopped fence (stop_command stopped (lr_runtime r)) r w"

text \<open>Reconciliation: the exit code of a receipt, and what tmux says of the session.\<close>

datatype SessionState = SessionPresent | SessionAbsent

definition tmux_reconcile :: "LaneIo \<Rightarrow> int option \<Rightarrow> SessionState option \<Rightarrow> LaneRecord \<Rightarrow> LaneWorld \<Rightarrow> LaneWorld" where
  "tmux_reconcile io receipt session r w =
     (if lr_status r \<noteq> LaneRunning then w
      else case receipt of
        Some code \<Rightarrow> snd (snd (mark_terminal_if_active io (if code = 0 then LaneCompleted else LaneFailed) r w))
      | None \<Rightarrow>
          if lr_tmux_socket r = None \<or> lr_tmux_session r = None then w
          else if session = Some SessionAbsent then snd (snd (mark_terminal_if_active io LaneFailed r w))
          else w)"

section \<open>Histories\<close>

text \<open>The steps of all processes on one registry. A start is made of its creation, its launch and its closing; the
  process that starts a lane can die behind the spawn. In a history without \<open>double_faults\<close> no rollback fails.
  A receipt is written when the command of the session has ended, and tmux knows its sessions.\<close>

inductive lane_step :: "bool \<Rightarrow> LaneWorld \<Rightarrow> LaneWorld \<Rightarrow> bool" for double_faults where
  Create: "(case create_pending io lane log_path rq w of
      (Inr r, w') \<Rightarrow> w'\<lparr>ln_phase := (ln_phase w')(lane \<mapsto> Starting)\<rparr> | (Inl _, w') \<Rightarrow> w') = w'' \<Longrightarrow>
    lane_step double_faults w w''"
| Launch: "ln_phase w (lr_id r) = Some Starting \<Longrightarrow> lr_runtime r = Tmux \<Longrightarrow> tmux_launch io spawned stopped socket attach_target r w = w' \<Longrightarrow>
    double_faults \<or> ln_phase w' (lr_id r) \<noteq> Some FailedOrphaned \<Longrightarrow> lane_step double_faults w w'"
| Crash: "ln_phase w (lr_id r) = Some Starting \<Longrightarrow> lr_runtime r = Tmux \<Longrightarrow>
    tmux_launch (io\<lparr>li_saves := False\<rparr>) True False socket attach_target r w = w' \<Longrightarrow>
    lane_step double_faults w (w'\<lparr>ln_phase := (ln_phase w')(lr_id r \<mapsto> Started)\<rparr>)"
| LaunchInline: "ln_phase w (lr_id r) = Some Starting \<Longrightarrow> lr_runtime r = Inline \<Longrightarrow> lr_tmux_session r = None \<Longrightarrow>
    lane_step double_faults w (inline_launch io r w)"
| InlineEnd: "\<not> lane_is_active status \<Longrightarrow> lr_runtime r = Inline \<Longrightarrow> lr_tmux_session r = None \<Longrightarrow>
    ln_files w (lr_id r) = Some (LaneText r) \<Longrightarrow>
    lane_step double_faults w (snd (snd (mark_terminal_if_active io status r w)))"
| Close: "ln_phase w (lr_id r) \<in> {Some Starting, Some FailedClean, Some FailedOrphaned} \<Longrightarrow>
    lane_step double_faults w (cli_close io r w)"
| Stop: "(\<forall>current. ln_files w (lr_id r) = Some (LaneText current) \<longrightarrow> lr_runtime r = lr_runtime current) \<Longrightarrow>
    lane_step double_faults w (snd (snd (backend_stop io stopped fence r w)))"
| Reconcile: "(receipt \<noteq> None \<or> session = Some SessionAbsent \<Longrightarrow> \<not> ln_running w (session_name (lr_id r))) \<Longrightarrow>
    lane_step double_faults w (tmux_reconcile io receipt session r w)"
| SessionEnds: "lane_step double_faults w (w\<lparr>ln_running := (ln_running w)(session := False)\<rparr>)"

definition no_lanes :: LaneWorld where
  "no_lanes = \<lparr>ln_files = \<lambda>_. None, ln_logs = \<lambda>_. False, ln_running = \<lambda>_. False, ln_phase = \<lambda>_. None\<rparr>"

end
