(* ===== verification/LaneProps.thy ===== *)
theory LaneProps
  imports Lanes
begin

text \<open>
  Guarantees of the lane registry: every operation refines the lifecycle of a lane, records stay well formed, a
  terminal lane is final, a fence pins the generation that is torn down, and in every history without a failed
  rollback no terminal lane has a running session.
\<close>

section \<open>Outcomes of the two transitions\<close>

definition pending_record :: "LaneRecord \<Rightarrow> LaneRecord \<Rightarrow> LaneRecord" where
  "pending_record current r = r\<lparr>lr_lifecycle_seq := max (lr_lifecycle_seq current) 1, lr_status := LanePending,
     lr_stopped_at := None\<rparr>"

definition running_record :: "LaneRecord \<Rightarrow> LaneRecord" where
  "running_record r = r\<lparr>lr_status := LaneRunning, lr_lifecycle_seq := sat_add (lr_lifecycle_seq r) 1, lr_stopped_at := None\<rparr>"

definition ended_record :: "LaneStatus \<Rightarrow> string \<Rightarrow> LaneRecord \<Rightarrow> LaneRecord" where
  "ended_record status now r = r\<lparr>lr_lifecycle_seq := sat_add (max (lr_lifecycle_seq r) 1) 1,
     lr_status := status, lr_stopped_at := Some now, lr_attach_target := None\<rparr>"

definition put_lane :: "LaneRecord \<Rightarrow> LaneWorld \<Rightarrow> LaneWorld" where
  "put_lane r w = w\<lparr>ln_files := (ln_files w)(lr_id r \<mapsto> LaneText r)\<rparr>"

lemma put_lane_simps [simp]:
  "ln_files (put_lane r w) = (ln_files w)(lr_id r \<mapsto> LaneText r)" "ln_logs (put_lane r w) = ln_logs w"
  "ln_running (put_lane r w) = ln_running w" "ln_phase (put_lane r w) = ln_phase w"
  by (simp_all add: put_lane_def)

lemma record_simps [simp]:
  "lr_id (pending_record c r) = lr_id r" "lr_id (running_record r) = lr_id r" "lr_id (ended_record s n r) = lr_id r"
  "lr_id (tmux_proposal socket attach r) = lr_id r"
  by (simp_all add: pending_record_def running_record_def ended_record_def tmux_proposal_def)

lemma lane_load_SomeD:
  "lane_load readable lane w = Inr r \<Longrightarrow> checked_lane_id lane \<and> ln_files w lane = Some (LaneText r)"
  by (auto simp: lane_load_def split: if_splits option.splits LaneFile.splits)

lemma lane_save_checked:
  "checked_lane_id (lr_id r) \<Longrightarrow> lane_save written r w = (if written then (Inr (), put_lane r w) else (Inl SaveFailed, w))"
  by (simp add: lane_save_def put_lane_def)

text \<open>A launch: nothing happened, or the pending record was saved and the command failed, succeeded, or succeeded
  without the running record being saved.\<close>

lemma mark_running_cases:
  obtains (refused) res r' where "mark_running_if_pending_with io before rollback r w = (res, r', w)" "res \<noteq> Inr True"
      "res \<noteq> Inl RollbackFailed"
  | (failed) current wb where
      "ln_files w (lr_id r) = Some (LaneText current)" "lr_status current = LanePending"
      "before (put_lane (pending_record current r) w) = (False, wb)"
      "mark_running_if_pending_with io before rollback r w = (Inl TransitionFailed, pending_record current r, wb)"
  | (ran) current wb where
      "ln_files w (lr_id r) = Some (LaneText current)" "lr_status current = LanePending"
      "before (put_lane (pending_record current r) w) = (True, wb)"
      "mark_running_if_pending_with io before rollback r w
        = (Inr True, running_record (pending_record current r), put_lane (running_record (pending_record current r)) wb)"
  | (undone) current wb ok wr r' where
      "ln_files w (lr_id r) = Some (LaneText current)" "lr_status current = LanePending"
      "before (put_lane (pending_record current r) w) = (True, wb)" "rollback wb = (ok, wr)"
      "mark_running_if_pending_with io before rollback r w = (Inl (if ok then SaveFailed else RollbackFailed), r', wr)"
proof (cases "lane_load (li_reads io) (lr_id r) w")
  case (Inl err)
  then have "err \<noteq> RollbackFailed"
    by (auto simp: lane_load_def split: if_splits option.splits LaneFile.splits)
  then show ?thesis using Inl
    by (intro refused [of "Inl (if li_locks io then err else LockFailed)" r]) (simp_all add: mark_running_if_pending_with_def)
next
  case (Inr current)
  note load = lane_load_SomeD [OF Inr]
  show ?thesis
  proof (cases "li_locks io \<and> lr_status current = LanePending \<and> li_saves_pending io")
    case False
    then have "mark_running_if_pending_with io before rollback r w
        = (if \<not> li_locks io then (Inl LockFailed, r, w)
           else if lr_status current \<noteq> LanePending then (Inr False, current, w)
           else (Inl SaveFailed, pending_record current r, w))"
      using Inr load by (auto simp: mark_running_if_pending_with_def lane_save_def pending_record_def)
    then show ?thesis
      by (cases "li_locks io"; cases "lr_status current = LanePending") (auto intro: refused)
  next
    case True
    have saves: "lane_save written (pending_record current r) v = (if written then (Inr (), put_lane (pending_record current r) v) else (Inl SaveFailed, v))"
      "lane_save written (running_record (pending_record current r)) v
        = (if written then (Inr (), put_lane (running_record (pending_record current r)) v) else (Inl SaveFailed, v))"
      for written v using load by (simp_all add: lane_save_checked)
    have eq: "mark_running_if_pending_with io before rollback r w =
      (case before (put_lane (pending_record current r) w) of
         (False, w) \<Rightarrow> (Inl TransitionFailed, pending_record current r, w)
       | (True, wb) \<Rightarrow>
           if li_saves io then (Inr True, running_record (pending_record current r), put_lane (running_record (pending_record current r)) wb)
           else (Inl (if fst (rollback wb) then SaveFailed else RollbackFailed),
             (running_record (pending_record current r))\<lparr>lr_status := LanePending, lr_lifecycle_seq := max (lr_lifecycle_seq current) 1\<rparr>,
             snd (rollback wb)))"
      using True Inr
      by (simp add: mark_running_if_pending_with_def Let_def saves pending_record_def [symmetric]
          running_record_def [symmetric] split: prod.split bool.split)
    obtain ok wb where before: "before (put_lane (pending_record current r) w) = (ok, wb)" by fastforce
    obtain ok' wr where rollback: "rollback wb = (ok', wr)" by fastforce
    show ?thesis
    proof (cases ok)
      case False
      then show ?thesis using failed [of current wb] eq before load True by simp
    next
      case spawned: True
      then show ?thesis
        using ran [of current wb] undone [of current wb ok' wr] eq before rollback load True
        by (cases "li_saves io") simp_all
    qed
  qed
qed

text \<open>A terminal transition: the record is unchanged, or it was active, not fenced off, and is now terminal.\<close>

lemma mark_terminal_cases:
  obtains (refused) res r' where
      "mark_terminal_if_active_fenced io status fence before r w = (res, r', w)" "res \<noteq> Inr Transitioned"
  | (failed) current ok wb where
      "ln_files w (lr_id r) = Some (LaneText current)" "lane_is_active (lr_status current)"
      "\<forall>seq. fence = Some seq \<longrightarrow> seq = lr_lifecycle_seq current" "before current w = (ok, wb)"
      "\<exists>err. fst (mark_terminal_if_active_fenced io status fence before r w) = Inl err"
      "snd (snd (mark_terminal_if_active_fenced io status fence before r w)) = wb"
  | (ended) current wb where "\<not> lane_is_active status"
      "ln_files w (lr_id r) = Some (LaneText current)" "lane_is_active (lr_status current)"
      "\<forall>seq. fence = Some seq \<longrightarrow> seq = lr_lifecycle_seq current" "before current w = (True, wb)"
      "mark_terminal_if_active_fenced io status fence before r w
        = (Inr Transitioned, ended_record status (li_now io) current, put_lane (ended_record status (li_now io) current) wb)"
proof (cases "\<not> lane_is_active status \<and> li_locks io")
  case False
  then show ?thesis
    by (intro refused [of "Inl (if lane_is_active status then NotTerminal else LockFailed)" r])
      (auto simp: mark_terminal_if_active_fenced_def)
next
  case True
  show ?thesis
  proof (cases "lane_load (li_reads io) (lr_id r) w")
    case (Inl err)
    then show ?thesis using True by (intro refused [of "Inl err" r]) (simp_all add: mark_terminal_if_active_fenced_def)
  next
    case (Inr current)
    note load = lane_load_SomeD [OF Inr]
    define fenced where
      "fenced \<longleftrightarrow> (case fence of Some expected \<Rightarrow> expected \<noteq> lr_lifecycle_seq current | None \<Rightarrow> False)"
    show ?thesis
    proof (cases "fenced \<or> \<not> lane_is_active (lr_status current)")
      case stop: True
      then show ?thesis using True Inr
        by (intro refused [of "Inr (if fenced then FenceMismatch (lr_lifecycle_seq current) else AlreadyTerminal)" current])
          (auto simp: mark_terminal_if_active_fenced_def fenced_def [symmetric])
    next
      case False
      then have fence: "\<forall>seq. fence = Some seq \<longrightarrow> seq = lr_lifecycle_seq current"
        by (auto simp: fenced_def split: option.splits)
      obtain ok wb where before: "before current w = (ok, wb)" by fastforce
      have eq: "mark_terminal_if_active_fenced io status fence before r w =
        (if ok then
           (case lane_save (li_saves io) (ended_record status (li_now io) current) wb of
              (Inl err, w) \<Rightarrow> (Inl err, r, w)
            | (Inr _, w) \<Rightarrow> (Inr Transitioned, ended_record status (li_now io) current, w))
         else (Inl TransitionFailed, r, wb))"
        using True Inr False before
        by (simp add: mark_terminal_if_active_fenced_def fenced_def [symmetric] Let_def ended_record_def [symmetric] split: bool.split)
      show ?thesis
      proof (cases "ok \<and> li_saves io \<and> checked_lane_id (lr_id current)")
        case saved: True
        then show ?thesis using ended [of current wb] True load False fence before eq
          by (simp add: lane_save_checked)
      next
        case unsaved: False
        have "(\<exists>err. fst (mark_terminal_if_active_fenced io status fence before r w) = Inl err)
          \<and> snd (snd (mark_terminal_if_active_fenced io status fence before r w)) = wb"
          using eq unsaved by (auto simp: lane_save_def)
        then show ?thesis using failed [of current ok wb] load False fence before by simp
      qed
    qed
  qed
qed

section \<open>The lifecycle\<close>

text \<open>The abstract lifecycle of a lane: its status and generation.\<close>

inductive lifecycle :: "(LaneStatus \<times> nat) option \<Rightarrow> (LaneStatus \<times> nat) option \<Rightarrow> bool" where
  Stay: "lifecycle s s"
| Appear: "lifecycle None (Some (LanePending, 1))"
| Run: "lifecycle (Some (LanePending, n)) (Some (LaneRunning, n + 1))"
| End: "lane_is_active s \<Longrightarrow> \<not> lane_is_active t \<Longrightarrow> lifecycle (Some (s, n)) (Some (t, n + 1))"

definition lane_view :: "LaneWorld \<Rightarrow> string \<Rightarrow> (LaneStatus \<times> nat) option" where
  "lane_view w lane = (case ln_files w lane of Some (LaneText r) \<Rightarrow> Some (lr_status r, unat (lr_lifecycle_seq r)) | _ \<Rightarrow> None)"

definition record_ok :: "string \<Rightarrow> LaneRecord \<Rightarrow> bool" where
  "record_ok lane r \<longleftrightarrow> lr_id r = lane \<and> checked_lane_id lane
     \<and> (lr_tmux_session r = None \<or> lr_tmux_session r = Some (session_name lane))
     \<and> (case lr_status r of
          LanePending \<Rightarrow> lr_lifecycle_seq r = 1 \<and> lr_stopped_at r = None
        | LaneRunning \<Rightarrow> lr_lifecycle_seq r = 2 \<and> lr_stopped_at r = None
        | _ \<Rightarrow> (lr_lifecycle_seq r = 2 \<or> lr_lifecycle_seq r = 3) \<and> lr_stopped_at r \<noteq> None \<and> lr_attach_target r = None)"

definition lane_ok :: "LaneWorld \<Rightarrow> bool" where
  "lane_ok w \<longleftrightarrow> (\<forall>lane. ln_files w lane = None \<or> ln_logs w lane
     \<and> (\<exists>r. ln_files w lane = Some (LaneText r) \<and> record_ok lane r))"

lemma lane_okD: "lane_ok w \<Longrightarrow> ln_files w lane = Some (LaneText r) \<Longrightarrow> record_ok lane r \<and> ln_logs w lane"
  unfolding lane_ok_def by (metis LaneFile.inject(1) option.distinct(1) option.inject)

text \<open>What every step does to the files: at most one lane moves along the lifecycle to a well-formed record.\<close>

definition advances :: "LaneWorld \<Rightarrow> LaneWorld \<Rightarrow> bool" where
  "advances w w' \<longleftrightarrow> (\<forall>lane. ln_logs w lane \<longrightarrow> ln_logs w' lane)
     \<and> (ln_files w' = ln_files w
        \<or> (\<exists>lane r. ln_files w' = (ln_files w)(lane \<mapsto> LaneText r) \<and> ln_logs w' lane \<and> record_ok lane r
             \<and> lifecycle (lane_view w lane) (Some (lr_status r, unat (lr_lifecycle_seq r)))
             \<and> (\<forall>old. ln_files w lane = Some (LaneText old) \<longrightarrow> lane_is_active (lr_status old))))"

lemma advances_ok: "lane_ok w \<Longrightarrow> advances w w' \<Longrightarrow> lane_ok w'"
  unfolding advances_def lane_ok_def by (elim conjE disjE exE) (metis, metis fun_upd_apply)

lemma advances_same: "ln_files w' = ln_files w \<Longrightarrow> ln_logs w' = ln_logs w \<Longrightarrow> advances w w'"
  by (simp add: advances_def)

lemma advances_lifecycle: "advances w w' \<Longrightarrow> lifecycle (lane_view w lane) (lane_view w' lane)"
  unfolding advances_def lane_view_def by (auto intro: lifecycle.Stay)

lemma advances_phase [simp]: "advances w (w'\<lparr>ln_phase := p\<rparr>) = advances w w'"
  by (simp add: advances_def)

lemma pending_record_ok:
  assumes "lane_ok w" and "ln_files w (lr_id r) = Some (LaneText current)" and "lr_status current = LanePending"
    and "lr_tmux_session r = None \<or> lr_tmux_session r = Some (session_name (lr_id r))"
  shows "record_ok (lr_id r) (pending_record current r)" and "record_ok (lr_id r) (running_record (pending_record current r))"
  using lane_okD [OF assms(1,2)] assms(3,4)
  by (simp_all add: record_ok_def pending_record_def running_record_def sat_add_def)

lemma next_seqs: "sat_add (1 :: u64) 1 = 2" "sat_add (2 :: u64) 1 = 3"
  by (simp_all add: sat_add_def)

lemma active_cases:
  assumes "record_ok lane r" and "lane_is_active (lr_status r)"
  obtains "lr_status r = LanePending" "lr_lifecycle_seq r = 1" | "lr_status r = LaneRunning" "lr_lifecycle_seq r = 2"
  using assms by (cases "lr_status r") (auto simp: record_ok_def)

lemma ended_record_ok:
  assumes "record_ok lane current" and "lane_is_active (lr_status current)" and "\<not> lane_is_active status"
  shows "record_ok lane (ended_record status now current)"
    and "unat (lr_lifecycle_seq (ended_record status now current)) = unat (lr_lifecycle_seq current) + 1"
proof -
  define seq where "seq = lr_lifecycle_seq (ended_record status now current)"
  have seq: "(seq = 2 \<or> seq = 3) \<and> unat seq = unat (lr_lifecycle_seq current) + 1"
    using assms(1,2) by (rule active_cases) (simp_all add: seq_def ended_record_def next_seqs)
  have "record_ok lane (ended_record status now current) \<longleftrightarrow> seq = 2 \<or> seq = 3"
    using assms(1,3) by (cases status) (simp_all add: record_ok_def ended_record_def seq_def)
  then show "record_ok lane (ended_record status now current)" using seq by simp
  show "unat (lr_lifecycle_seq (ended_record status now current)) = unat (lr_lifecycle_seq current) + 1"
    using seq by (simp add: seq_def)
qed

text \<open>Commands touch sessions only.\<close>

definition quiet :: "LaneCommand \<Rightarrow> bool" where
  "quiet c \<longleftrightarrow> (\<forall>w. ln_files (snd (c w)) = ln_files w \<and> ln_logs (snd (c w)) = ln_logs w \<and> ln_phase (snd (c w)) = ln_phase w)"

lemma quietD: "quiet c \<Longrightarrow> c w = (ok, w') \<Longrightarrow> ln_files w' = ln_files w \<and> ln_logs w' = ln_logs w \<and> ln_phase w' = ln_phase w"
  unfolding quiet_def by (metis snd_conv)

lemma quiet_commands [simp]:
  "quiet (spawn_session b s)" "quiet (stop_tmux_session b s)" "quiet (\<lambda>w. (b, w))"
  by (auto simp: quiet_def spawn_session_def stop_tmux_session_def)

lemma quiet_stop_command [simp]: "quiet (stop_command b k r)"
proof (cases k)
  case Tmux
  then show ?thesis by (auto simp: quiet_def stop_tmux_session_def split: option.split)
qed (simp_all add: quiet_def)

lemma put_lane_advances:
  assumes "record_ok lane r" and "ln_logs w lane" and "ln_files w lane = Some (LaneText old)"
    and "lane_is_active (lr_status old)" and "lifecycle (lane_view w lane) (Some (lr_status r, unat (lr_lifecycle_seq r)))"
  shows "advances w (put_lane r w)"
proof -
  have "lr_id r = lane" using assms(1) by (simp add: record_ok_def)
  then show ?thesis unfolding advances_def using assms
    by (intro conjI disjI2 exI [of _ lane] exI [of _ r]) auto
qed

lemma pending_advances:
  assumes "lane_ok w" and "ln_files w (lr_id r) = Some (LaneText current)" and "lr_status current = LanePending"
    and "lr_tmux_session r = None \<or> lr_tmux_session r = Some (session_name (lr_id r))"
  shows "advances w (put_lane (pending_record current r) w)"
proof -
  note old = lane_okD [OF assms(1,2)]
  have "lane_view w (lr_id r) = Some (lr_status (pending_record current r), unat (lr_lifecycle_seq (pending_record current r)))"
    using old assms(2,3) by (simp add: lane_view_def record_ok_def pending_record_def)
  then show ?thesis using old assms(2,3) pending_record_ok(1) [OF assms]
    by (intro put_lane_advances [of "lr_id r"]) (auto intro: lifecycle.Stay)
qed

lemma running_advances:
  assumes "lane_ok w" and "ln_files w (lr_id r) = Some (LaneText current)" and "lr_status current = LanePending"
    and "lr_tmux_session r = None \<or> lr_tmux_session r = Some (session_name (lr_id r))"
  shows "advances w (put_lane (running_record (pending_record current r)) w)"
proof -
  note old = lane_okD [OF assms(1,2)]
  have "lr_lifecycle_seq current = 1" using old assms(3) by (simp add: record_ok_def)
  then have "lane_view w (lr_id r) = Some (LanePending, 1)"
      "lr_status (running_record (pending_record current r)) = LaneRunning"
      "unat (lr_lifecycle_seq (running_record (pending_record current r))) = 1 + 1"
    using assms(2,3) by (simp_all add: lane_view_def running_record_def pending_record_def sat_add_def)
  then have "lifecycle (lane_view w (lr_id r)) (Some (lr_status (running_record (pending_record current r)),
      unat (lr_lifecycle_seq (running_record (pending_record current r)))))"
    using lifecycle.Run [of 1] by simp
  then show ?thesis using old assms(2,3) pending_record_ok(2) [OF assms]
    by (intro put_lane_advances [of "lr_id r"]) auto
qed

lemma mark_running_advances:
  assumes "lane_ok w" and "quiet before" and "quiet rollback"
    and "lr_tmux_session r = None \<or> lr_tmux_session r = Some (session_name (lr_id r))"
  shows "advances w (snd (snd (mark_running_if_pending_with io before rollback r w)))"
proof (cases rule: mark_running_cases [of io before rollback r w])
  case (refused res r')
  then show ?thesis by (simp add: advances_same)
next
  case (failed current wb)
  then show ?thesis using pending_advances [OF assms(1) failed(1,2) assms(4)] quietD [OF assms(2) failed(3)]
    by (simp add: advances_def)
next
  case (ran current wb)
  then show ?thesis using running_advances [OF assms(1) ran(1,2) assms(4)] quietD [OF assms(2) ran(3)]
    by (simp add: advances_def)
next
  case (undone current wb ok wr r')
  then show ?thesis using pending_advances [OF assms(1) undone(1,2) assms(4)] quietD [OF assms(2) undone(3)]
      quietD [OF assms(3) undone(4)]
    by (simp add: advances_def)
qed

lemma mark_terminal_advances:
  assumes "lane_ok w" and "\<And>current. quiet (before current)"
  shows "advances w (snd (snd (mark_terminal_if_active_fenced io status fence before r w)))"
proof (cases rule: mark_terminal_cases [of io status fence before r w])
  case (refused res r')
  then show ?thesis by (simp add: advances_same)
next
  case (failed current ok wb)
  then show ?thesis using quietD [OF assms(2) failed(4)] by (simp add: advances_same)
next
  case (ended current wb)
  note old = lane_okD [OF assms(1) ended(2)]
  have id: "lr_id current = lr_id r" using old by (simp add: record_ok_def)
  have "lifecycle (lane_view w (lr_id r)) (Some (status, unat (lr_lifecycle_seq current) + 1))"
    using ended(1,2,3) lifecycle.End by (simp add: lane_view_def)
  then have "advances w (put_lane (ended_record status (li_now io) current) wb)"
    using old ended(2,3) ended_record_ok [OF conjunct1 [OF old] ended(3,1), of "li_now io"] quietD [OF assms(2) ended(5)] id
    unfolding advances_def by (intro conjI disjI2 exI [of _ "lr_id r"] exI [of _ "ended_record status (li_now io) current"])
      (auto simp: ended_record_def)
  then show ?thesis using ended(6) by simp
qed

lemma create_pending_advances:
  assumes "lane_ok w"
  shows "advances w (snd (create_pending io lane log_path rq w))"
    and "create_pending io lane log_path rq w = (Inr r, w') \<Longrightarrow> ln_files w lane = None \<and> lr_id r = lane
      \<and> ln_files w' = (ln_files w)(lane \<mapsto> LaneText r) \<and> ln_running w' = ln_running w \<and> ln_phase w' = ln_phase w"
    and "fst (create_pending io lane log_path rq w) = Inl err \<Longrightarrow>
      ln_files (snd (create_pending io lane log_path rq w)) = ln_files w
      \<and> ln_running (snd (create_pending io lane log_path rq w)) = ln_running w
      \<and> ln_phase (snd (create_pending io lane log_path rq w)) = ln_phase w"
proof -
  have none: "ln_files w lane = None" if "\<not> ln_logs w lane" using assms that unfolding lane_ok_def by blast
  have view: "lane_view w lane = None" if "\<not> ln_logs w lane" using none [OF that] by (simp add: lane_view_def)
  show "advances w (snd (create_pending io lane log_path rq w))"
  proof (cases "\<not> ln_logs w lane \<and> checked_lane_id lane \<and> li_saves io")
    case True
    define r where "r = \<lparr>lr_id = lane, lr_workflow = rq_workflow rq, lr_fleet = rq_fleet rq, lr_issue = rq_issue rq,
      lr_goal = rq_goal rq, lr_runtime = rq_runtime rq, lr_status = LanePending, lr_lifecycle_seq = 1,
      lr_worktree_path = None, lr_branch = None, lr_tmux_session = None, lr_tmux_socket = None,
      lr_log_path = log_path, lr_started_at = li_now io, lr_stopped_at = None, lr_attach_target = None,
      lr_worktree_ttl_secs = rq_worktree_ttl_secs rq\<rparr>"
    have "lr_id r = lane" "record_ok lane r" "lr_status r = LanePending" "unat (lr_lifecycle_seq r) = 1"
      using True by (simp_all add: r_def record_ok_def)
    moreover have "snd (create_pending io lane log_path rq w)
        = w\<lparr>ln_logs := (ln_logs w)(lane := True), ln_files := (ln_files w)(lane \<mapsto> LaneText r)\<rparr>"
      using True by (simp add: create_pending_def lane_save_def Let_def r_def)
    ultimately show ?thesis
      using view none True lifecycle.Appear unfolding advances_def
      by (intro conjI disjI2 exI [of _ lane] exI [of _ r]) auto
  next
    case False
    then have "ln_files (snd (create_pending io lane log_path rq w)) = ln_files w"
      "ln_logs w l \<Longrightarrow> ln_logs (snd (create_pending io lane log_path rq w)) l" for l
      by (auto simp: create_pending_def lane_save_def Let_def)
    then show ?thesis by (simp add: advances_def)
  qed
  show "create_pending io lane log_path rq w = (Inr r, w') \<Longrightarrow> ln_files w lane = None \<and> lr_id r = lane
      \<and> ln_files w' = (ln_files w)(lane \<mapsto> LaneText r) \<and> ln_running w' = ln_running w \<and> ln_phase w' = ln_phase w"
    using none by (auto simp: create_pending_def lane_save_def Let_def split: if_splits)
  show "fst (create_pending io lane log_path rq w) = Inl err \<Longrightarrow>
      ln_files (snd (create_pending io lane log_path rq w)) = ln_files w
      \<and> ln_running (snd (create_pending io lane log_path rq w)) = ln_running w
      \<and> ln_phase (snd (create_pending io lane log_path rq w)) = ln_phase w"
    by (auto simp: create_pending_def lane_save_def Let_def split: if_splits)
qed

lemma tmux_launch_advances: "lane_ok w \<Longrightarrow> advances w (tmux_launch io spawned stopped socket attach_target r w)"
  using mark_running_advances [of w "spawn_session spawned (session_name (lr_id r))"
      "stop_tmux_session stopped (session_name (lr_id r))" "tmux_proposal socket attach_target r" io]
  by (simp add: tmux_launch_def Let_def case_prod_beta tmux_proposal_def)

lemma inline_launch_advances: "lane_ok w \<Longrightarrow> lr_tmux_session r = None \<Longrightarrow> advances w (inline_launch io r w)"
  using mark_running_advances [of w "\<lambda>w. (True, w)" "\<lambda>w. (True, w)" r io]
  by (simp add: inline_launch_def case_prod_beta)

lemma mark_terminal_if_active_advances: "lane_ok w \<Longrightarrow> advances w (snd (snd (mark_terminal_if_active io status r w)))"
  by (simp add: mark_terminal_if_active_def mark_terminal_advances)

lemma lane_step_advances:
  assumes "lane_step double_faults w w'" and "lane_ok w"
  shows "advances w w'"
  using assms
proof cases
  case (Create io lane log_path rq)
  then show ?thesis using create_pending_advances(1) [OF assms(2), of io lane log_path rq]
    by (auto split: prod.splits sum.splits)
next
  case (Launch r io spawned stopped socket attach_target)
  then show ?thesis using tmux_launch_advances [OF assms(2)] by blast
next
  case (Crash r io socket attach_target w0)
  then show ?thesis using tmux_launch_advances [OF assms(2)] by (metis advances_phase)
qed (simp_all add: tmux_launch_advances inline_launch_advances mark_terminal_if_active_advances cli_close_def
    case_prod_beta backend_stop_def mark_terminal_advances tmux_reconcile_def advances_same split: option.split)

lemma lane_ok_start: "lane_ok no_lanes"
  by (simp add: no_lanes_def lane_ok_def)

interpretation lanes: invariant_system "\<lambda>w. w = no_lanes" "lane_step double_faults" lane_ok
  by unfold_locales (simp_all add: lane_ok_start, blast intro: lane_step_advances advances_ok)

section \<open>Sessions\<close>

definition session_local :: "LaneWorld \<Rightarrow> string \<Rightarrow> bool" where
  "session_local w lane \<longleftrightarrow>
     (ln_phase w lane = Some Starting \<or> ln_phase w lane = Some FailedClean \<longrightarrow> \<not> ln_running w (session_name lane))
     \<and> ln_phase w lane \<noteq> Some FailedOrphaned
     \<and> (ln_running w (session_name lane) \<longrightarrow> (\<exists>r. ln_files w lane = Some (LaneText r) \<and> lane_is_active (lr_status r)
          \<and> lr_runtime r = Tmux \<and> lr_tmux_session r = Some (session_name lane) \<and> lr_tmux_socket r \<noteq> None))"

definition sessions_ok :: "LaneWorld \<Rightarrow> bool" where
  "sessions_ok w \<longleftrightarrow> (\<forall>lane. session_local w lane)"

lemma session_name_inj [simp]: "session_name a = session_name b \<longleftrightarrow> a = b"
  by (simp add: session_name_def)

lemma sessions_frame:
  assumes "sessions_ok w" and "session_local w' L"
    and "\<And>lane. lane \<noteq> L \<Longrightarrow> ln_files w' lane = ln_files w lane \<and> ln_phase w' lane = ln_phase w lane
      \<and> (ln_running w' (session_name lane) \<longrightarrow> ln_running w (session_name lane))"
  shows "sessions_ok w'"
  unfolding sessions_ok_def
proof
  fix lane
  show "session_local w' lane"
  proof (cases "lane = L")
    case False
    have "session_local w lane" using assms(1) by (simp add: sessions_ok_def)
    then show ?thesis using assms(3) [OF False] by (auto simp: session_local_def)
  qed (simp add: assms(2))
qed

lemma spawn_session_eq:
  "spawn_session b s w = (ok, w') \<longleftrightarrow> ok = b \<and> w' = (if b then w\<lparr>ln_running := (ln_running w)(s := True)\<rparr> else w)"
  by (auto simp: spawn_session_def)

lemma stop_tmux_session_eq:
  "stop_tmux_session b s w = (ok, w') \<longleftrightarrow> ok = b \<and> w' = (if b then w\<lparr>ln_running := (ln_running w)(s := False)\<rparr> else w)"
  by (auto simp: stop_tmux_session_def)

text \<open>A launch: the session it leaves belongs to the record on disk, and a clean failure leaves none.\<close>

lemma tmux_launch_sessions:
  fixes io spawned stopped socket attach_target
  assumes "\<not> ln_running w (session_name (lr_id r))" and "lr_runtime r = Tmux"
  defines "w' \<equiv> tmux_launch io spawned stopped socket attach_target r w"
  shows "lane \<noteq> lr_id r \<Longrightarrow> ln_files w' lane = ln_files w lane \<and> ln_phase w' lane = ln_phase w lane
      \<and> ln_running w' (session_name lane) = ln_running w (session_name lane)"
    and "ln_phase w' (lr_id r) = Some FailedClean \<Longrightarrow> \<not> ln_running w' (session_name (lr_id r))"
    and "ln_phase w' (lr_id r) \<noteq> Some Starting"
    and "ln_running w' (session_name (lr_id r)) \<Longrightarrow> \<exists>d. ln_files w' (lr_id r) = Some (LaneText d)
      \<and> lane_is_active (lr_status d) \<and> lr_runtime d = Tmux \<and> lr_tmux_session d = Some (session_name (lr_id r))
      \<and> lr_tmux_socket d \<noteq> None"
proof -
  define p where "p = tmux_proposal socket attach_target r"
  define s where "s = session_name (lr_id r)"
  have p: "lr_id p = lr_id r" "lr_runtime p = Tmux" "lr_tmux_session p = Some s" "lr_tmux_socket p = Some socket"
    using assms(2) by (simp_all add: p_def s_def tmux_proposal_def)
  have launch: "w' = (case mark_running_if_pending_with io (spawn_session spawned s) (stop_tmux_session stopped s) p w of
      (result, _, v) \<Rightarrow> v\<lparr>ln_phase := (ln_phase v)(lr_id r \<mapsto>
          (case result of Inr True \<Rightarrow> Started | Inr False \<Rightarrow> FailedClean
           | Inl RollbackFailed \<Rightarrow> FailedOrphaned | Inl _ \<Rightarrow> FailedClean))\<rparr>)"
    by (simp add: w'_def tmux_launch_def Let_def p_def s_def)
  have "(lane \<noteq> lr_id r \<longrightarrow> ln_files w' lane = ln_files w lane \<and> ln_phase w' lane = ln_phase w lane
      \<and> ln_running w' (session_name lane) = ln_running w (session_name lane))
    \<and> (ln_phase w' (lr_id r) = Some FailedClean \<longrightarrow> \<not> ln_running w' s) \<and> ln_phase w' (lr_id r) \<noteq> Some Starting
    \<and> (ln_running w' s \<longrightarrow> (\<exists>d. ln_files w' (lr_id r) = Some (LaneText d)
      \<and> lane_is_active (lr_status d) \<and> lr_runtime d = Tmux \<and> lr_tmux_session d = Some s \<and> lr_tmux_socket d \<noteq> None))" for lane
  proof (cases rule: mark_running_cases [of io "spawn_session spawned s" "stop_tmux_session stopped s" p w])
    case (refused res r')
    then show ?thesis using assms(1)
      by (cases res) (auto simp: launch s_def split: LaneError.split bool.split)
  next
    case (failed current wb)
    then show ?thesis using assms(1) p by (auto simp: launch s_def spawn_session_eq)
  next
    case (ran current wb)
    then show ?thesis using p by (auto simp: launch s_def spawn_session_eq running_record_def pending_record_def)
  next
    case (undone current wb ok wr r')
    then show ?thesis using p
      by (cases ok) (auto simp: launch s_def spawn_session_eq stop_tmux_session_eq pending_record_def)
  qed
  then show "lane \<noteq> lr_id r \<Longrightarrow> ln_files w' lane = ln_files w lane \<and> ln_phase w' lane = ln_phase w lane
      \<and> ln_running w' (session_name lane) = ln_running w (session_name lane)"
    and "ln_phase w' (lr_id r) = Some FailedClean \<Longrightarrow> \<not> ln_running w' (session_name (lr_id r))"
    and "ln_phase w' (lr_id r) \<noteq> Some Starting"
    and "ln_running w' (session_name (lr_id r)) \<Longrightarrow> \<exists>d. ln_files w' (lr_id r) = Some (LaneText d)
      \<and> lane_is_active (lr_status d) \<and> lr_runtime d = Tmux \<and> lr_tmux_session d = Some (session_name (lr_id r))
      \<and> lr_tmux_socket d \<noteq> None"
    unfolding s_def by blast+
qed


text \<open>A terminal transition: when it happens, the session of the lane must be gone.\<close>

lemma mark_terminal_sessions:
  assumes "sessions_ok w" and "\<And>current ok v. before current w = (ok, v) \<Longrightarrow> ln_files w (lr_id r) = Some (LaneText current) \<Longrightarrow>
      ln_files v = ln_files w \<and> ln_phase v = ln_phase w \<and> (\<forall>s. ln_running v s \<longrightarrow> ln_running w s)
      \<and> (ok \<longrightarrow> lane_is_active (lr_status current) \<longrightarrow> \<not> ln_running v (session_name (lr_id r)))"
    and "lane_ok w"
  shows "sessions_ok (snd (snd (mark_terminal_if_active_fenced io status fence before r w)))"
proof (cases rule: mark_terminal_cases [of io status fence before r w])
  case (refused res r')
  then show ?thesis using assms(1) by simp
next
  case (failed current ok wb)
  note same = assms(2) [OF failed(4,1)]
  have "session_local w (lr_id r)" using assms(1) by (simp add: sessions_ok_def)
  then have "session_local wb (lr_id r)" using same by (auto simp: session_local_def)
  then have "sessions_ok wb" using same by (intro sessions_frame [OF assms(1), of _ "lr_id r"]) auto
  then show ?thesis using failed(6) by simp
next
  case (ended current wb)
  note same = assms(2) [OF ended(5,2)]
  have id: "lr_id current = lr_id r" using lane_okD [OF assms(3) ended(2)] by (simp add: record_ok_def)
  have "session_local w (lr_id r)" using assms(1) by (simp add: sessions_ok_def)
  moreover have "\<not> ln_running wb (session_name (lr_id r))" using same ended(3) by simp
  ultimately have "session_local (put_lane (ended_record status (li_now io) current) wb) (lr_id r)"
    using same by (auto simp: session_local_def)
  then have "sessions_ok (put_lane (ended_record status (li_now io) current) wb)"
    using same id by (intro sessions_frame [OF assms(1), of _ "lr_id r"]) auto
  then show ?thesis using ended(6) by simp
qed

lemma mark_terminal_plain_sessions:
  assumes "sessions_ok w" and "lane_ok w" and "\<not> ln_running w (session_name (lr_id r))"
  shows "sessions_ok (snd (snd (mark_terminal_if_active io status r w)))"
  unfolding mark_terminal_if_active_def using assms by (intro mark_terminal_sessions) auto

lemma mark_terminal_phase [simp]: "ln_phase (snd (snd (mark_terminal_if_active io status r w))) = ln_phase w"
proof (cases rule: mark_terminal_cases [of io status None "\<lambda>_ w. (True, w)" r w])
  case (refused res r')
  then show ?thesis by (simp add: mark_terminal_if_active_def)
next
  case (failed current ok wb)
  then show ?thesis by (simp add: mark_terminal_if_active_def)
next
  case (ended current wb)
  then show ?thesis by (simp add: mark_terminal_if_active_def)
qed

lemma phase_started:
  assumes "sessions_ok w" shows "sessions_ok (w\<lparr>ln_phase := (ln_phase w)(lane \<mapsto> Started)\<rparr>)"
  using assms by (auto simp: sessions_ok_def session_local_def)

lemma stop_command_sessions:
  assumes "sessions_ok w" and "stop_command stopped kind current w = (ok, v)"
    and "ln_files w lane = Some (LaneText current)" and "kind = lr_runtime current"
  shows "ln_files v = ln_files w \<and> ln_phase v = ln_phase w \<and> (\<forall>s. ln_running v s \<longrightarrow> ln_running w s)
      \<and> (ok \<longrightarrow> \<not> ln_running v (session_name lane))"
proof -
  have "session_local w lane" using assms(1) by (simp add: sessions_ok_def)
  then have "ln_running w (session_name lane) \<Longrightarrow>
      kind = Tmux \<and> lr_tmux_session current = Some (session_name lane) \<and> lr_tmux_socket current \<noteq> None"
    using assms(3,4) by (auto simp: session_local_def)
  then show ?thesis using assms(2)
    by (cases kind; cases "lr_tmux_socket current"; cases "lr_tmux_session current") (auto simp: stop_tmux_session_eq)
qed

lemma inline_launch_sessions:
  "ln_running (inline_launch io r w) = ln_running w
    \<and> (ln_phase (inline_launch io r w) (lr_id r) = Some Started \<or> ln_phase (inline_launch io r w) (lr_id r) = Some FailedClean)
    \<and> (lane \<noteq> lr_id r \<longrightarrow> ln_files (inline_launch io r w) lane = ln_files w lane
        \<and> ln_phase (inline_launch io r w) lane = ln_phase w lane)"
proof (cases rule: mark_running_cases [of io "\<lambda>w. (True, w)" "\<lambda>w. (True, w)" r w])
  case (refused res r')
  then show ?thesis by (cases res) (auto simp: inline_launch_def split: bool.split)
qed (auto simp: inline_launch_def)

lemma lane_step_sessions:
  assumes "lane_step False w w'" and "lane_ok w" and "sessions_ok w"
  shows "sessions_ok w'"
  using assms(1)
proof cases
  case (Create io lane log_path rq)
  obtain res v where created: "create_pending io lane log_path rq w = (res, v)" by fastforce
  show ?thesis
  proof (cases res)
    case (Inl err)
    then show ?thesis using Create created create_pending_advances(3) [OF assms(2), of io lane log_path rq err] assms(3)
      by (simp add: sessions_ok_def session_local_def)
  next
    case (Inr r)
    then have w': "w' = v\<lparr>ln_phase := (ln_phase v)(lane \<mapsto> Starting)\<rparr>" using Create created by simp
    note new = create_pending_advances(2) [OF assms(2) created [unfolded Inr]]
    have "session_local w lane" using assms(3) by (simp add: sessions_ok_def)
    then have "session_local w' lane" using new by (auto simp: session_local_def w')
    then show ?thesis using new by (intro sessions_frame [OF assms(3), of _ lane]) (auto simp: w')
  qed
next
  case (Launch r io spawned stopped socket attach_target)
  have "session_local w (lr_id r)" using assms(3) by (simp add: sessions_ok_def)
  then have idle: "\<not> ln_running w (session_name (lr_id r))" using Launch by (simp add: session_local_def)
  note launch = tmux_launch_sessions [OF idle Launch(2), where io = io and spawned = spawned and stopped = stopped
      and socket = socket and attach_target = attach_target, unfolded Launch(3)]
  have "session_local w' (lr_id r)" using launch(2-4) Launch(4) by (auto simp: session_local_def)
  then show ?thesis using launch(1) by (intro sessions_frame [OF assms(3), of _ "lr_id r"]) auto
next
  case (Crash r io socket attach_target w0)
  have "session_local w (lr_id r)" using assms(3) by (simp add: sessions_ok_def)
  then have idle: "\<not> ln_running w (session_name (lr_id r))" using Crash by (simp add: session_local_def)
  note launch = tmux_launch_sessions [OF idle Crash(3), where io = "io\<lparr>li_saves := False\<rparr>" and spawned = True and stopped = False
      and socket = socket and attach_target = attach_target, unfolded Crash(4)]
  have "session_local w' (lr_id r)" using launch(4) by (simp add: session_local_def Crash(1))
  then show ?thesis using launch(1) by (intro sessions_frame [OF assms(3), of _ "lr_id r"]) (auto simp: Crash(1))
next
  case (LaunchInline r io)
  have "session_local w (lr_id r)" using assms(3) by (simp add: sessions_ok_def)
  then have idle: "\<not> ln_running w (session_name (lr_id r))" using LaunchInline by (simp add: session_local_def)
  note launch = inline_launch_sessions [of io r w]
  have "session_local w' (lr_id r)" using launch idle by (auto simp: session_local_def LaunchInline(1))
  then show ?thesis using launch by (intro sessions_frame [OF assms(3), of _ "lr_id r"]) (auto simp: LaunchInline(1))
next
  case (InlineEnd status r io)
  have "session_local w (lr_id r)" using assms(3) by (simp add: sessions_ok_def)
  then have "\<not> ln_running w (session_name (lr_id r))" using InlineEnd by (auto simp: session_local_def)
  then show ?thesis using InlineEnd mark_terminal_plain_sessions [OF assms(3,2)] by simp
next
  case (Close r io)
  have "session_local w (lr_id r)" using assms(3) by (simp add: sessions_ok_def)
  then have "\<not> ln_running w (session_name (lr_id r))" using Close by (auto simp: session_local_def)
  then show ?thesis
    using Close phase_started [OF mark_terminal_plain_sessions [OF assms(3,2)], of r io LaneFailed "lr_id r"]
    by (simp add: cli_close_def case_prod_beta)
next
  case (Stop r io stopped fence)
  then show ?thesis unfolding Stop(1) backend_stop_def
    using stop_command_sessions [OF assms(3)] by (intro mark_terminal_sessions [OF assms(3) _ assms(2)]) metis
next
  case (Reconcile receipt session r io)
  then show ?thesis using mark_terminal_plain_sessions [OF assms(3,2)] assms(3)
    by (auto simp: tmux_reconcile_def split: option.split)
next
  case (SessionEnds session)
  then show ?thesis using assms(3) by (auto simp: sessions_ok_def session_local_def)
qed


definition lanes_ok :: "LaneWorld \<Rightarrow> bool" where
  "lanes_ok w \<longleftrightarrow> lane_ok w \<and> sessions_ok w"

interpretation sessions: invariant_system "\<lambda>w. w = no_lanes" "lane_step False" lanes_ok
  by unfold_locales
    (simp_all add: lanes_ok_def lane_ok_start, simp add: sessions_ok_def session_local_def no_lanes_def,
     meson lane_step_sessions lane_step_advances advances_ok)

section \<open>Guarantees\<close>

text \<open>C31. In every reachable registry each record is stored under its own plain id and is well formed: a pending lane
  is of generation 1 and a running one of generation 2, neither has an end, and a terminal lane has one and nothing
  to attach to.\<close>

theorem reachable_lanes_well_formed:
  assumes "(lane_step double_faults)\<^sup>*\<^sup>* no_lanes w" and "ln_files w lane = Some text_file"
  shows "\<exists>r. text_file = LaneText r \<and> record_ok lane r \<and> ln_logs w lane"
proof -
  have "lane_ok w" using lanes.reachable_inv [OF refl assms(1)] .
  then show ?thesis using assms(2) unfolding lane_ok_def by (metis option.distinct(1) option.inject)
qed

text \<open>C32. Whatever processes do in whatever order, every step moves every lane along its lifecycle or leaves it alone:
  it appears pending at generation 1, runs once, ends once, and each transition counts the generation by one.\<close>

theorem lane_steps_refine_lifecycle:
  assumes "(lane_step double_faults)\<^sup>*\<^sup>* no_lanes w" and "lane_step double_faults w w'"
  shows "lifecycle (lane_view w lane) (lane_view w' lane)"
  using lane_step_advances [OF assms(2)] lanes.reachable_inv [OF refl assms(1)] advances_lifecycle by blast

text \<open>A terminal record is final: no later step of any process changes it.\<close>

lemma terminal_step:
  assumes "lane_ok w" and "lane_step double_faults w w'" and "ln_files w lane = Some (LaneText r)"
    and "\<not> lane_is_active (lr_status r)"
  shows "ln_files w' lane = Some (LaneText r)"
  using lane_step_advances [OF assms(2,1)] assms(3,4) unfolding advances_def by auto

theorem terminal_lane_is_final:
  assumes "(lane_step double_faults)\<^sup>*\<^sup>* no_lanes w" and "(lane_step double_faults)\<^sup>*\<^sup>* w w'"
    and "ln_files w lane = Some (LaneText r)" and "\<not> lane_is_active (lr_status r)"
  shows "ln_files w' lane = Some (LaneText r)"
proof -
  have "lane_ok w" using lanes.reachable_inv [OF refl assms(1)] .
  with assms(2,3) have "ln_files w' lane = Some (LaneText r) \<and> lane_ok w'"
    by (induction rule: rtranclp_induct) (auto intro: terminal_step [OF _ _ _ assms(4)] lanes.step_inv)
  then show ?thesis ..
qed

text \<open>A transition pinned to a generation tears down exactly that generation: it succeeds only on a record that
  still is of it and active, and a mismatch runs no command and changes nothing.\<close>

theorem fence_pins_generation:
  assumes "mark_terminal_if_active_fenced io status (Some seq) before r w = (Inr result, r', w')"
  shows "(result = Transitioned \<longrightarrow> (\<exists>current. ln_files w (lr_id r) = Some (LaneText current)
        \<and> lr_lifecycle_seq current = seq \<and> lane_is_active (lr_status current) \<and> fst (before current w)))
    \<and> (result \<noteq> Transitioned \<longrightarrow> w' = w)"
proof (cases rule: mark_terminal_cases [of io status "Some seq" before r w])
  case (refused res r')
  then show ?thesis using assms by auto
next
  case (failed current ok wb)
  then show ?thesis using assms by auto
next
  case (ended current wb)
  then show ?thesis using assms by auto
qed



text \<open>A lane that is created, launched and stopped.\<close>

definition demo_lane_io :: LaneIo where
  "demo_lane_io = \<lparr>li_locks = True, li_reads = True, li_saves_pending = True, li_saves = True, li_now = ''now''\<rparr>"

definition demo_request :: LaneRequest where
  "demo_request = \<lparr>rq_workflow = None, rq_fleet = None, rq_issue = None, rq_goal = None, rq_runtime = Tmux,
     rq_worktree_ttl_secs = None\<rparr>"

definition demo_created :: LaneWorld where
  "demo_created = (case create_pending demo_lane_io ''l'' ''log'' demo_request no_lanes of
      (_, w) \<Rightarrow> w\<lparr>ln_phase := (ln_phase w)(''l'' \<mapsto> Starting)\<rparr>)"

definition demo_record :: LaneRecord where
  "demo_record = projr (fst (create_pending demo_lane_io ''l'' ''log'' demo_request no_lanes))"

lemmas demo_simps = demo_lane_io_def demo_request_def create_pending_def lane_save_def no_lanes_def
  checked_lane_id_def is_ascii_alphanumeric_def is_ascii_alphabetic_def Let_def

lemma demo_record_eq:
  "create_pending demo_lane_io ''l'' ''log'' demo_request no_lanes = (Inr demo_record,
     no_lanes\<lparr>ln_logs := (\<lambda>_. False)(''l'' := True), ln_files := [''l'' \<mapsto> LaneText demo_record]\<rparr>)"
  "lr_id demo_record = ''l''" "lr_status demo_record = LanePending" "lr_lifecycle_seq demo_record = 1" "lr_runtime demo_record = Tmux"
  by (simp_all add: demo_record_def demo_simps)

lemma demo_created_step: "lane_step b no_lanes demo_created"
  by (rule lane_step.Create [where io = demo_lane_io and lane = "''l''" and log_path = "''log''" and rq = demo_request])
    (simp add: demo_created_def demo_record_eq)

lemma demo_created_simps:
  "ln_files demo_created = [''l'' \<mapsto> LaneText demo_record]" "ln_phase demo_created = [''l'' \<mapsto> Starting]"
  "ln_running demo_created = (\<lambda>_. False)"
  unfolding demo_created_def demo_record_eq(1) by (simp_all add: no_lanes_def)

definition demo_stopped :: LaneWorld where
  "demo_stopped = snd (snd (backend_stop demo_lane_io True (Some 1) demo_record demo_created))"

lemma demo_checked: "checked_lane_id ''l''"
  by (simp add: demo_simps)

lemma demo_stop_eq: "backend_stop demo_lane_io True (Some 1) demo_record demo_created
    = (Inr Transitioned, ended_record LaneStopped ''now'' demo_record, put_lane (ended_record LaneStopped ''now'' demo_record) demo_created)"
  by (simp add: backend_stop_def mark_terminal_if_active_fenced_def lane_load_def demo_checked demo_created_simps
      demo_record_eq lane_save_checked ended_record_def Let_def)
    (simp add: demo_lane_io_def demo_record_eq demo_record_def demo_simps put_lane_def)

lemma demo_stopped_step: "lane_step b demo_created demo_stopped"
  unfolding demo_stopped_def
  by (rule lane_step.Stop) (simp add: demo_created_simps demo_record_eq)


lemma demo_reachable: "(lane_step b)\<^sup>*\<^sup>* no_lanes demo_created" "(lane_step b)\<^sup>*\<^sup>* no_lanes demo_stopped"
  using demo_created_step demo_stopped_step by (meson rtranclp.rtrancl_into_rtrancl rtranclp.rtrancl_refl)+

lemma demo_stopped_file: "ln_files demo_stopped ''l'' = Some (LaneText (ended_record LaneStopped ''now'' demo_record))"
  by (simp add: demo_stopped_def demo_stop_eq demo_record_eq)

theorem reachable_lanes_well_formed_witness: "record_ok ''l'' demo_record"
  using reachable_lanes_well_formed [OF demo_reachable(1), of "''l''" "LaneText demo_record"]
  by (simp add: demo_created_simps)

theorem lane_steps_refine_lifecycle_witness: "lifecycle (Some (LanePending, 1)) (Some (LaneStopped, 2))"
proof -
  have "lane_view demo_created ''l'' = Some (LanePending, 1)"
    by (simp add: lane_view_def demo_created_simps demo_record_eq)
  moreover have "lane_view demo_stopped ''l'' = Some (LaneStopped, 2)"
    by (simp add: lane_view_def demo_stopped_file ended_record_def demo_record_eq next_seqs)
  ultimately show ?thesis
    using lane_steps_refine_lifecycle [OF demo_reachable(1) demo_stopped_step [of False], of "''l''"] by simp
qed


text \<open>A start whose running record cannot be saved and whose rollback fails.\<close>

definition orphaned :: LaneWorld where
  "orphaned = tmux_launch (demo_lane_io\<lparr>li_saves := False\<rparr>) True False ''socket'' ''attach'' demo_record demo_created"

definition orphan_record :: LaneRecord where
  "orphan_record = pending_record demo_record (tmux_proposal ''socket'' ''attach'' demo_record)"

lemma orphaned_simps:
  "ln_files orphaned = [''l'' \<mapsto> LaneText orphan_record]" "ln_phase orphaned ''l'' = Some FailedOrphaned"
  "ln_running orphaned (session_name ''l'')"
  by (simp_all add: orphaned_def tmux_launch_def Let_def mark_running_if_pending_with_def lane_load_def demo_checked
      demo_created_simps demo_record_eq lane_save_checked spawn_session_def stop_tmux_session_def tmux_proposal_def
      pending_record_def orphan_record_def demo_lane_io_def)

lemma orphan_record_simps: "lr_id orphan_record = ''l''" "lr_status orphan_record = LanePending"
  by (simp_all add: orphan_record_def demo_record_eq pending_record_def)

definition orphan_closed :: LaneWorld where
  "orphan_closed = cli_close demo_lane_io demo_record orphaned"

lemma orphan_closed_simps:
  "ln_files orphan_closed ''l'' = Some (LaneText (ended_record LaneFailed ''now'' orphan_record))"
  "ln_running orphan_closed (session_name ''l'')"
  using orphaned_simps
  by (simp_all add: orphan_closed_def cli_close_def mark_terminal_if_active_def mark_terminal_if_active_fenced_def
      lane_load_def demo_checked demo_record_eq orphan_record_simps lane_save_checked ended_record_def [symmetric]
      demo_lane_io_def Let_def)

lemma ended_record_status: "lr_status (ended_record status now r) = status"
  by (simp add: ended_record_def)

text \<open>When the running record cannot be saved and the rollback fails, the backend leaves the lane pending so that
  it can still be stopped, but the command line closes it as failed without stopping the session: a registry is
  reachable with an ended lane whose session runs, and no stop of that lane ends it.\<close>

theorem failed_start_orphans_session:
  "\<exists>w r. (lane_step True)\<^sup>*\<^sup>* no_lanes w \<and> ln_files w ''l'' = Some (LaneText r) \<and> lr_status r = LaneFailed
    \<and> (\<forall>io stopped fence target. ln_running
          (snd (snd (backend_stop io stopped fence (target\<lparr>lr_id := ''l''\<rparr>) w))) (session_name ''l''))"
proof (intro exI conjI allI)
  have "lane_step True demo_created orphaned"
    unfolding orphaned_def
    by (rule lane_step.Launch [OF _ _ refl]) (simp_all add: demo_created_simps demo_record_eq)
  moreover have "lane_step True orphaned orphan_closed"
    unfolding orphan_closed_def by (rule lane_step.Close) (simp add: demo_record_eq orphaned_simps)
  ultimately show "(lane_step True)\<^sup>*\<^sup>* no_lanes orphan_closed"
    using demo_reachable(1) [of True] by (meson rtranclp.rtrancl_into_rtrancl)
  show "ln_files orphan_closed ''l'' = Some (LaneText (ended_record LaneFailed ''now'' orphan_record))"
    by (rule orphan_closed_simps)
  show "lr_status (ended_record LaneFailed ''now'' orphan_record) = LaneFailed" by (rule ended_record_status)
  fix io stopped fence and target :: LaneRecord
  show "ln_running (snd (snd (backend_stop io stopped fence (target\<lparr>lr_id := ''l''\<rparr>) orphan_closed))) (session_name ''l'')"
    unfolding backend_stop_def
    by (rule mark_terminal_cases [of io LaneStopped fence "stop_command stopped (lr_runtime (target\<lparr>lr_id := ''l''\<rparr>))"
          "target\<lparr>lr_id := ''l''\<rparr>" orphan_closed])
      (auto simp: orphan_closed_simps ended_record_status)
qed

end
