(* ===== verification/Outbox.thy ===== *)
theory Outbox
  imports Prelude
begin

text \<open>
  The lifecycle outbox (\<open>crates/hooks/src/lifecycle_outbox.rs\<close>): the writer task that numbers events,
  appends them to a file and hands them to a webhook, the recovery of the sequence number from the end of
  the file, and the bound on free text.

  The file is its bytes, or \<open>None\<close> while it does not exist. The JSON codec is the argument \<open>Json\<close>; what the
  file system and the clock answer in one delivery is the argument \<open>DeliveryIo\<close>: a failing append leaves
  a number of whole records and a number of bytes of the next one in the file, which is also what
  a crash during the append leaves. The queue in front of the writer and the posting of webhook
  payloads are not modelled: the payloads are listed in the order in which they are handed over.
\<close>

section \<open>Bounded text\<close>

definition OUTBOX_HEADLINE_MAX_CHARS :: nat where "OUTBOX_HEADLINE_MAX_CHARS = 80"
definition OUTBOX_DETAIL_MAX_CHARS :: nat where "OUTBOX_DETAIL_MAX_CHARS = 120"
definition OUTBOX_PREVIEW_MAX_CHARS :: nat where "OUTBOX_PREVIEW_MAX_CHARS = 200"

definition OUTBOX_TRUNCATION_MARKER :: string where
  "OUTBOX_TRUNCATION_MARKER = [CHR 0xE2, CHR 0x80, CHR 0xA6]"

text \<open>The characters of a UTF-8 text: every byte that is no continuation byte opens one.\<close>

function utf8_chars :: "string \<Rightarrow> string list" where
  "utf8_chars [] = []"
| "utf8_chars (c # cs) = (c # takeWhile is_cont cs) # utf8_chars (dropWhile is_cont cs)"
  by pat_completeness auto
termination
  by (relation "measure length") (auto simp: less_Suc_eq_le length_dropWhile_le)

fun char_is_control :: "string \<Rightarrow> bool" where
  "char_is_control [c] \<longleftrightarrow> of_char c < (32 :: nat) \<or> c = CHR 0x7F"
| "char_is_control [c, d] \<longleftrightarrow> c = CHR 0xC2 \<and> 128 \<le> (of_char d :: nat) \<and> of_char d < (160 :: nat)"
| "char_is_control _ \<longleftrightarrow> False"

text \<open>The loop that makes room for the marker; \<open>None\<close> is the panic of \<open>char_count -= 1\<close> at zero.\<close>

function make_room :: "nat \<Rightarrow> nat \<Rightarrow> nat \<Rightarrow> string list \<Rightarrow> (string list \<times> nat) option" where
  "make_room marker_chars max_chars char_count out =
     (if char_count + marker_chars \<le> max_chars then Some (out, char_count)
      else if char_count = 0 then None
      else make_room marker_chars max_chars (char_count - 1) (butlast out))"
  by pat_completeness auto
termination
  by (relation "measure (\<lambda>(m, n, c, out). c)") auto

declare make_room.simps [simp del]

definition clean_text :: "string \<Rightarrow> string" where
  "clean_text txt = join '' '' (split_whitespace (concat (filter (\<lambda>ch. \<not> char_is_control ch) (utf8_chars txt))))"

definition bounded_text :: "string \<Rightarrow> nat \<Rightarrow> string option" where
  "bounded_text txt max_chars =
     (let cleaned = utf8_chars (clean_text txt);
          out = take max_chars cleaned;
          truncated = max_chars < length cleaned
      in if truncated
         then (case make_room (length (utf8_chars OUTBOX_TRUNCATION_MARKER)) max_chars (length out) out of
             None \<Rightarrow> None
           | Some (out, _) \<Rightarrow> Some (concat out @ OUTBOX_TRUNCATION_MARKER))
         else Some (concat out))"

section \<open>Events and envelopes\<close>

definition RUNTIME_EVENT_ENVELOPE_SCHEMA_VERSION :: u32 where "RUNTIME_EVENT_ENVELOPE_SCHEMA_VERSION = 1"

record 'v LifecycleEvent =
  le_event :: string
  le_kind :: string
  le_thread_id :: string
  le_turn_id :: "string option"
  le_item_id :: "string option"
  le_payload :: 'v

record 'v RuntimeEventEnvelope =
  re_schema_version :: u32
  re_seq :: u64
  re_event :: string
  re_kind :: string
  re_thread_id :: string
  re_turn_id :: "string option"
  re_item_id :: "string option"
  re_timestamp :: string
  re_created_at :: "string option"
  re_payload :: 'v
  re_extra :: "(string \<times> 'v) list"

text \<open>\<open>serde_json::to_string\<close> on an envelope, and the \<open>seq\<close> of the envelope that \<open>serde_json::from_str\<close>
  reads from a line.\<close>

record 'v Json =
  js_encode :: "'v RuntimeEventEnvelope \<Rightarrow> string option"
  js_seq :: "string \<Rightarrow> u64 option"

definition envelope_of :: "'v LifecycleEvent \<Rightarrow> u64 \<Rightarrow> string \<times> string \<Rightarrow> 'v RuntimeEventEnvelope" where
  "envelope_of e seq clock =
     \<lparr>re_schema_version = RUNTIME_EVENT_ENVELOPE_SCHEMA_VERSION, re_seq = seq, re_event = le_event e,
      re_kind = le_kind e, re_thread_id = le_thread_id e, re_turn_id = le_turn_id e, re_item_id = le_item_id e,
      re_timestamp = fst clock, re_created_at = Some (snd clock), re_payload = le_payload e, re_extra = []\<rparr>"

section \<open>Recovery of the sequence number\<close>

definition SEQ_RECOVERY_TAIL_BYTES :: nat where "SEQ_RECOVERY_TAIL_BYTES = 64 * 1024"

text \<open>\<open>rposition\<close> of the line feed, with the bytes around it.\<close>

definition rsplit_line :: "string \<Rightarrow> (string \<times> string) option" where
  "rsplit_line s =
     (case dropWhile (\<lambda>c. c \<noteq> CHR 0x0A) (rev s) of
        [] \<Rightarrow> None
      | _ # before \<Rightarrow> Some (rev before, rev (takeWhile (\<lambda>c. c \<noteq> CHR 0x0A) (rev s))))"

definition last_complete_line :: "string \<Rightarrow> string option" where
  "last_complete_line tail =
     (case rsplit_line tail of
        None \<Rightarrow> None
      | Some (body, _) \<Rightarrow> Some (case rsplit_line body of Some (_, line) \<Rightarrow> line | None \<Rightarrow> body))"

text \<open>\<open>std::str::from_utf8\<close> succeeds.\<close>

definition byte_in :: "nat \<Rightarrow> nat \<Rightarrow> char \<Rightarrow> bool" where
  "byte_in lo hi c \<longleftrightarrow> lo \<le> of_char c \<and> of_char c \<le> hi"

fun utf8_first :: "string \<Rightarrow> nat" where
  "utf8_first (a # rest) =
     (if byte_in 0 127 a then 1
      else case rest of
        [] \<Rightarrow> 0
      | b # rest \<Rightarrow>
          if byte_in 194 223 a then (if is_cont b then 2 else 0)
          else case rest of
            [] \<Rightarrow> 0
          | c # rest \<Rightarrow>
              if byte_in 224 224 a \<and> byte_in 160 191 b \<or> (byte_in 225 236 a \<or> byte_in 238 239 a) \<and> is_cont b
                 \<or> byte_in 237 237 a \<and> byte_in 128 159 b
              then (if is_cont c then 3 else 0)
              else case rest of
                [] \<Rightarrow> 0
              | d # rest \<Rightarrow>
                  if (byte_in 240 240 a \<and> byte_in 144 191 b \<or> byte_in 241 243 a \<and> is_cont b
                      \<or> byte_in 244 244 a \<and> byte_in 128 143 b) \<and> is_cont c \<and> is_cont d
                  then 4 else 0)"
| "utf8_first [] = 0"

function utf8_valid :: "string \<Rightarrow> bool" where
  "utf8_valid s =
     (if s = [] then True else if utf8_first s = 0 then False else utf8_valid (drop (utf8_first s) s))"
  by pat_completeness auto
termination
  by (relation "measure length") (auto simp del: utf8_first.simps)

declare utf8_first.simps [simp del] utf8_valid.simps [simp del]

datatype OutboxError = OpenFailed | TailNotUtf8 | ParseFailed | EncodeFailed | AppendFailed

definition recover_last_seq :: "'v Json \<Rightarrow> bool \<Rightarrow> string option \<Rightarrow> OutboxError + u64" where
  "recover_last_seq js readable file =
     (case file of
        None \<Rightarrow> Inr 1
      | Some bytes \<Rightarrow>
          if \<not> readable then Inl OpenFailed
          else if bytes = [] then Inr 1
          else
            (let tail = drop (length bytes - SEQ_RECOVERY_TAIL_BYTES) bytes in
             case last_complete_line tail of
               None \<Rightarrow> Inr 1
             | Some line \<Rightarrow>
                 if \<not> utf8_valid line then Inl TailNotUtf8
                 else if trim line = [] then Inr 1
                 else (case js_seq js line of None \<Rightarrow> Inl ParseFailed | Some seq \<Rightarrow> Inr (sat_add seq 1))))"

section \<open>The writer\<close>

record 'v OutboxWriter =
  ow_next_seq :: u64
  ow_recovered :: bool
  ow_file :: "string option"
  ow_posts :: "(string \<times> 'v RuntimeEventEnvelope) list"

record DeliveryIo =
  io_clock :: "nat \<Rightarrow> string \<times> string"
  io_readable :: bool
  io_opens :: bool
  io_fault :: "(nat \<times> nat) option"

fun encode_events :: "'v Json \<Rightarrow> bool \<Rightarrow> (nat \<Rightarrow> string \<times> string) \<Rightarrow> nat \<Rightarrow> u64 \<Rightarrow> 'v LifecycleEvent list
    \<Rightarrow> (OutboxError + (string list \<times> (string \<times> 'v RuntimeEventEnvelope) list)) \<times> u64" where
  "encode_events js webhook clock i seq [] = (Inr ([], []), seq)"
| "encode_events js webhook clock i seq (e # events) =
     (let envelope = envelope_of e seq (clock i); next_seq = sat_add seq 1 in
      case js_encode js envelope of
        None \<Rightarrow> (Inl EncodeFailed, next_seq)
      | Some line \<Rightarrow>
          (case encode_events js webhook clock (i + 1) next_seq events of
             (Inl err, s) \<Rightarrow> (Inl err, s)
           | (Inr (encoded, posts), s) \<Rightarrow>
               (Inr (line # encoded, (if webhook then [(re_timestamp envelope, envelope)] else []) @ posts), s)))"

definition line_record :: "string \<Rightarrow> string" where
  "line_record line = line @ [CHR 0x0A]"

definition append_lines :: "DeliveryIo \<Rightarrow> string list \<Rightarrow> string option \<Rightarrow> (OutboxError + unit) \<times> string option" where
  "append_lines io new_lines file =
     (if \<not> io_opens io then (Inl AppendFailed, file)
      else
        (let old = (case file of Some bytes \<Rightarrow> bytes | None \<Rightarrow> []); records = map line_record new_lines in
         case io_fault io of
           None \<Rightarrow> (Inr (), Some (old @ concat records))
         | Some (whole, part) \<Rightarrow>
             (Inl AppendFailed, Some (old @ concat (take whole records) @ take part (concat (drop whole records))))))"

definition deliver_batch :: "'v Json \<Rightarrow> bool \<Rightarrow> DeliveryIo \<Rightarrow> 'v LifecycleEvent list \<Rightarrow> 'v OutboxWriter
    \<Rightarrow> (OutboxError + unit) \<times> 'v OutboxWriter" where
  "deliver_batch js webhook io events w =
     (if events = [] then (Inr (), w)
      else
        (case (if ow_recovered w then Inr (ow_next_seq w) else recover_last_seq js (io_readable io) (ow_file w)) of
           Inl err \<Rightarrow> (Inl err, w)
         | Inr seq \<Rightarrow>
             let w = w\<lparr>ow_recovered := True\<rparr> in
             (case encode_events js webhook (io_clock io) 0 seq events of
                (Inl err, next_seq) \<Rightarrow> (Inl err, w\<lparr>ow_next_seq := next_seq\<rparr>)
              | (Inr (new_lines, posts), next_seq) \<Rightarrow>
                  (case append_lines io new_lines (ow_file w) of (r, file) \<Rightarrow>
                     (r, w\<lparr>ow_next_seq := next_seq, ow_file := file, ow_posts := ow_posts w @ posts\<rparr>)))))"

datatype 'v OutboxCommand = OutboxEvent "'v LifecycleEvent" | OutboxFlush nat

fun events_of :: "'v OutboxCommand list \<Rightarrow> 'v LifecycleEvent list" where
  "events_of [] = []"
| "events_of (OutboxEvent e # batch) = e # events_of batch"
| "events_of (OutboxFlush _ # batch) = events_of batch"

fun replies_of :: "'v OutboxCommand list \<Rightarrow> nat list" where
  "replies_of [] = []"
| "replies_of (OutboxEvent _ # batch) = replies_of batch"
| "replies_of (OutboxFlush reply # batch) = reply # replies_of batch"

text \<open>One turn of the loop of \<open>run\<close>: a failing delivery is logged, the flush barriers are answered.\<close>

definition run_batch :: "'v Json \<Rightarrow> bool \<Rightarrow> DeliveryIo \<Rightarrow> 'v OutboxCommand list \<Rightarrow> 'v OutboxWriter
    \<Rightarrow> nat list \<times> 'v OutboxWriter" where
  "run_batch js webhook io batch w =
     (replies_of batch, snd (deliver_batch js webhook io (events_of batch) w))"

text \<open>A process that starts a writer on the file.\<close>

definition start_writer :: "'v OutboxWriter \<Rightarrow> 'v OutboxWriter" where
  "start_writer w = w\<lparr>ow_next_seq := 0, ow_recovered := False\<rparr>"

definition no_outbox :: "'v OutboxWriter" where
  "no_outbox = \<lparr>ow_next_seq = 0, ow_recovered = False, ow_file = None, ow_posts = []\<rparr>"

text \<open>The history of a file: batches of one writer, and restarts in a new process.\<close>

datatype 'v OutboxStep = Restart | Batch DeliveryIo "'v OutboxCommand list"

fun outbox_step :: "'v Json \<Rightarrow> bool \<Rightarrow> 'v OutboxStep \<Rightarrow> 'v OutboxWriter \<Rightarrow> 'v OutboxWriter" where
  "outbox_step js webhook Restart w = start_writer w"
| "outbox_step js webhook (Batch io batch) w = snd (run_batch js webhook io batch w)"

definition outbox_run :: "'v Json \<Rightarrow> bool \<Rightarrow> 'v OutboxStep list \<Rightarrow> 'v OutboxWriter \<Rightarrow> 'v OutboxWriter" where
  "outbox_run js webhook steps w = fold (outbox_step js webhook) steps w"

end
