(* ===== verification/OutboxProps.thy ===== *)
theory OutboxProps
  imports Outbox
begin

text \<open>
  Guarantees of the lifecycle outbox: the file is the log of the events with increasing sequence numbers over any
  history of restarts and failing appends that leave whole records, what a torn record does to it, and the bound on
  free text.
\<close>

section \<open>The end of a file\<close>

lemma line_feed_split:
  assumes "CHR 0x0A \<notin> set ys"
  shows "dropWhile (\<lambda>c. c \<noteq> CHR 0x0A) (rev (xs @ CHR 0x0A # ys)) = CHR 0x0A # rev xs"
    and "takeWhile (\<lambda>c. c \<noteq> CHR 0x0A) (rev (xs @ CHR 0x0A # ys)) = rev ys"
    and "dropWhile (\<lambda>c. c \<noteq> CHR 0x0A) (rev ys) = []"
proof -
  have *: "c \<in> set (rev ys) \<Longrightarrow> c \<noteq> CHR 0x0A" for c using assms by auto
  show "dropWhile (\<lambda>c. c \<noteq> CHR 0x0A) (rev (xs @ CHR 0x0A # ys)) = CHR 0x0A # rev xs"
    "takeWhile (\<lambda>c. c \<noteq> CHR 0x0A) (rev (xs @ CHR 0x0A # ys)) = rev ys"
    "dropWhile (\<lambda>c. c \<noteq> CHR 0x0A) (rev ys) = []"
    using * by (simp_all add: dropWhile_append2 takeWhile_append2 del: set_rev)
qed

lemma rsplit_line_append [simp]:
  assumes "CHR 0x0A \<notin> set ys"
  shows "rsplit_line (xs @ CHR 0x0A # ys) = Some (xs, ys)"
  unfolding rsplit_line_def line_feed_split(1,2) [OF assms] by simp

lemma rsplit_line_None:
  assumes "CHR 0x0A \<notin> set ys"
  shows "rsplit_line ys = None"
  unfolding rsplit_line_def line_feed_split(3) [OF assms] by simp

text \<open>A file of lines and a torn end.\<close>

definition encoded :: "'v Json \<Rightarrow> 'v RuntimeEventEnvelope \<Rightarrow> string" where
  "encoded js env = the (js_encode js env)"

definition log_bytes :: "'v Json \<Rightarrow> 'v RuntimeEventEnvelope list \<Rightarrow> string" where
  "log_bytes js envs = concat (map (\<lambda>env. line_record (encoded js env)) envs)"

text \<open>What \<open>serde_json\<close> guarantees: encoding succeeds, the text holds no line feed, is no white space, and reads
  back.\<close>

definition codec_ok :: "'v Json \<Rightarrow> bool" where
  "codec_ok js \<longleftrightarrow> (\<forall>env. \<exists>line. js_encode js env = Some line \<and> js_seq js line = Some (re_seq env)
     \<and> CHR 0x0A \<notin> set line \<and> utf8_valid line \<and> trim line \<noteq> [])"

lemma codec_okD:
  assumes "codec_ok js"
  shows "js_encode js env = Some (encoded js env)" and "js_seq js (encoded js env) = Some (re_seq env)"
    and "CHR 0x0A \<notin> set (encoded js env)" and "utf8_valid (encoded js env)" and "trim (encoded js env) \<noteq> []"
  using assms unfolding codec_ok_def encoded_def by (metis option.sel)+

lemma log_bytes_simps [simp]:
  "log_bytes js [] = []"
  "log_bytes js (envs @ envs') = log_bytes js envs @ log_bytes js envs'"
  "log_bytes js (env # envs) = encoded js env @ CHR 0x0A # log_bytes js envs"
  by (simp_all add: log_bytes_def line_record_def)

lemma log_bytes_end: "log_bytes js envs = [] \<or> (\<exists>xs. log_bytes js envs = xs @ [CHR 0x0A])"
  by (cases envs rule: rev_cases) auto

text \<open>The last complete line of a tail that holds it whole.\<close>

lemma last_complete_line_tail:
  assumes "CHR 0x0A \<notin> set line" and "CHR 0x0A \<notin> set torn" and "before = [] \<or> (\<exists>xs. before = xs @ [CHR 0x0A])"
    and "length line + length torn + 2 \<le> size_limit"
  shows "last_complete_line (drop (length (before @ line @ CHR 0x0A # torn) - size_limit) (before @ line @ CHR 0x0A # torn))
    = Some line"
proof -
  define n where "n = length (before @ line @ CHR 0x0A # torn) - size_limit"
  have split: "last_complete_line ((b @ line) @ CHR 0x0A # torn) = Some line"
    if "b = [] \<or> (\<exists>xs. b = xs @ [CHR 0x0A])" for b
  proof -
    have "(case rsplit_line (b @ line) of Some (_, l) \<Rightarrow> l | None \<Rightarrow> b @ line) = line"
      using that rsplit_line_append [OF assms(1)] rsplit_line_None [OF assms(1)] by auto
    then show ?thesis by (simp only: last_complete_line_def rsplit_line_append [OF assms(2)] option.case prod.case)
  qed
  have "n = 0 \<or> n < length before" using assms(4) by (auto simp: n_def)
  then have "drop n (before @ line @ CHR 0x0A # torn) = (drop n before @ line) @ CHR 0x0A # torn"
    by auto
  moreover have "drop n before = [] \<or> (\<exists>xs. drop n before = xs @ [CHR 0x0A])"
    using assms(3) \<open>n = 0 \<or> n < length before\<close> by auto
  ultimately show ?thesis using split n_def by simp
qed

lemma recover_log:
  assumes "codec_ok js" and "envs = [] \<or> length (encoded js (last envs)) + length torn < 65535"
    and "CHR 0x0A \<notin> set torn"
  shows "recover_last_seq js True (Some (log_bytes js envs @ torn))
    = Inr (if envs = [] then 1 else sat_add (re_seq (last envs)) 1)"
proof (cases envs rule: rev_cases)
  case Nil
  have "CHR 0x0A \<notin> set (drop n torn)" for n using assms(3) set_drop_subset by fastforce
  then show ?thesis using Nil by (simp add: recover_last_seq_def last_complete_line_def rsplit_line_None)
next
  case (snoc before env)
  have "last_complete_line (drop (length (log_bytes js before @ encoded js env @ CHR 0x0A # torn) - SEQ_RECOVERY_TAIL_BYTES)
      (log_bytes js before @ encoded js env @ CHR 0x0A # torn)) = Some (encoded js env)"
    using assms(2) snoc
    by (intro last_complete_line_tail [OF codec_okD(3) [OF assms(1)] assms(3) log_bytes_end])
      (simp add: SEQ_RECOVERY_TAIL_BYTES_def)
  then show ?thesis using snoc codec_okD [OF assms(1), of env] by (simp add: recover_last_seq_def Let_def)
qed

section \<open>One delivery\<close>

text \<open>The envelopes of a batch.\<close>

fun stamped :: "(nat \<Rightarrow> string \<times> string) \<Rightarrow> nat \<Rightarrow> u64 \<Rightarrow> 'v LifecycleEvent list \<Rightarrow> 'v RuntimeEventEnvelope list" where
  "stamped clock i seq [] = []"
| "stamped clock i seq (e # events) = envelope_of e seq (clock i) # stamped clock (i + 1) (sat_add seq 1) events"

definition event_of :: "'v RuntimeEventEnvelope \<Rightarrow> 'v LifecycleEvent" where
  "event_of env = \<lparr>le_event = re_event env, le_kind = re_kind env, le_thread_id = re_thread_id env,
     le_turn_id = re_turn_id env, le_item_id = re_item_id env, le_payload = re_payload env\<rparr>"

lemma event_of_envelope [simp]: "event_of (envelope_of e seq clock) = e" "re_seq (envelope_of e seq clock) = seq"
  by (simp_all add: event_of_def envelope_of_def)

lemma length_stamped [simp]: "length (stamped clock i seq events) = length events"
  by (induction clock i seq events rule: stamped.induct) auto

lemma stamped_events [simp]: "map event_of (stamped clock i seq events) = events"
  by (induction clock i seq events rule: stamped.induct) auto

definition seqs :: "'v RuntimeEventEnvelope list \<Rightarrow> nat list" where
  "seqs envs = map (\<lambda>env. unat (re_seq env)) envs"

lemma seqs_simps [simp]: "seqs [] = []" "seqs (env # envs) = unat (re_seq env) # seqs envs"
  "seqs (envs @ envs') = seqs envs @ seqs envs'"
  by (simp_all add: seqs_def)

text \<open>The sequence number behind a batch.\<close>

definition seq_after :: "u64 \<Rightarrow> 'a list \<Rightarrow> u64" where
  "seq_after seq events = fold (\<lambda>_ s. sat_add s 1) events seq"

lemma unat_next: "unat s + 1 < 2 ^ 64 \<Longrightarrow> unat (sat_add s 1) = unat s + 1" for s :: u64
  by (simp add: unat_sat_add)

lemma seqs_stamped:
  "unat seq + length events < 2 ^ 64 \<Longrightarrow>
    seqs (stamped clock i seq events) = [unat seq ..< unat seq + length events]
    \<and> unat (seq_after seq events) = unat seq + length events"
proof (induction clock i seq events rule: stamped.induct)
  case (2 clock i seq e events)
  have next_seq: "unat (sat_add seq 1) = unat seq + 1" using "2.prems" by (intro unat_next) simp
  then have "seqs (stamped clock (i + 1) (sat_add seq 1) events) = [unat seq + 1 ..< unat seq + 1 + length events]
      \<and> unat (seq_after (sat_add seq 1) events) = unat seq + 1 + length events"
    using "2.IH" "2.prems" by simp
  then show ?case by (simp add: seq_after_def upt_conv_Cons del: upt_Suc)
qed (simp add: seq_after_def)

lemma encode_events_ok:
  assumes "codec_ok js"
  shows "\<exists>posts. encode_events js webhook clock i seq events =
    (Inr (map (encoded js) (stamped clock i seq events), posts), seq_after seq events)"
proof (induction events arbitrary: i seq)
  case (Cons e events)
  obtain posts where "encode_events js webhook clock (i + 1) (sat_add seq 1) events =
    (Inr (map (encoded js) (stamped clock (i + 1) (sat_add seq 1) events), posts), seq_after (sat_add seq 1) events)"
    using Cons by blast
  then show ?case using codec_okD(1) [OF assms] by (simp add: Let_def seq_after_def)
qed (simp add: seq_after_def)

definition file_bytes :: "'v OutboxWriter \<Rightarrow> string" where
  "file_bytes w = (case ow_file w of Some bytes \<Rightarrow> bytes | None \<Rightarrow> [])"

text \<open>Faults that leave whole records, lines within the window of the recovery, and deliveries without any fault.\<close>

fun step_ok :: "'v Json \<Rightarrow> 'v OutboxStep \<Rightarrow> bool" where
  "step_ok js Restart \<longleftrightarrow> True"
| "step_ok js (Batch io batch) \<longleftrightarrow> (case io_fault io of Some (_, part) \<Rightarrow> part = 0 | None \<Rightarrow> True)
     \<and> (\<forall>e \<in> set (events_of batch). \<forall>seq i. length (encoded js (envelope_of e seq (io_clock io i))) < 65535)"

fun step_clean :: "'v OutboxStep \<Rightarrow> bool" where
  "step_clean Restart \<longleftrightarrow> True"
| "step_clean (Batch io batch) \<longleftrightarrow> io_readable io \<and> io_opens io \<and> io_fault io = None"

fun step_events :: "'v OutboxStep \<Rightarrow> 'v LifecycleEvent list" where
  "step_events Restart = []"
| "step_events (Batch io batch) = events_of batch"

definition all_events :: "'v OutboxStep list \<Rightarrow> 'v LifecycleEvent list" where
  "all_events steps = concat (map step_events steps)"

lemma stamped_short:
  "\<forall>e \<in> set events. \<forall>seq i. length (encoded js (envelope_of e seq (clock i))) < 65535 \<Longrightarrow>
    env \<in> set (stamped clock i seq events) \<Longrightarrow> length (encoded js env) < 65535"
  by (induction clock i seq events rule: stamped.induct) auto

text \<open>The outcomes of a delivery of at least one event under such a fault.\<close>

lemma deliver_batch_cases:
  assumes "codec_ok js" and "events \<noteq> []" and "case io_fault io of Some (_, part) \<Rightarrow> part = 0 | None \<Rightarrow> True"
  obtains (refused) err where "\<not> ow_recovered w" "recover_last_seq js (io_readable io) (ow_file w) = Inl err"
      "snd (deliver_batch js webhook io events w) = w"
  | (written) seq n where
      "ow_recovered w \<and> seq = ow_next_seq w
        \<or> \<not> ow_recovered w \<and> recover_last_seq js (io_readable io) (ow_file w) = Inr seq"
      "ow_recovered (snd (deliver_batch js webhook io events w))"
      "ow_next_seq (snd (deliver_batch js webhook io events w)) = seq_after seq events"
      "file_bytes (snd (deliver_batch js webhook io events w))
        = file_bytes w @ log_bytes js (take n (stamped (io_clock io) 0 seq events))"
      "io_opens io \<and> io_fault io = None \<Longrightarrow> n = length events"
proof (cases "if ow_recovered w then Inr (ow_next_seq w) else recover_last_seq js (io_readable io) (ow_file w)")
  case (Inl err)
  then show ?thesis using assms(2) by (intro that(1)) (auto simp: deliver_batch_def split: if_splits)
next
  case (Inr seq)
  obtain posts where enc: "encode_events js webhook (io_clock io) 0 seq events =
      (Inr (map (encoded js) (stamped (io_clock io) 0 seq events), posts), seq_after seq events)"
    using encode_events_ok [OF assms(1)] by blast
  define n where "n = (if io_opens io then case io_fault io of None \<Rightarrow> length events | Some (whole, _) \<Rightarrow> whole else 0)"
  have take_log: "concat (take m (map (line_record \<circ> encoded js) envs)) = log_bytes js (take m envs)"
    for m and envs :: "'a RuntimeEventEnvelope list"
    by (simp add: log_bytes_def take_map comp_def)
  have "file_bytes (snd (deliver_batch js webhook io events w))
      = file_bytes w @ log_bytes js (take n (stamped (io_clock io) 0 seq events))"
    using assms(2,3) Inr enc take_log [of "length events" "stamped (io_clock io) 0 seq events"]
    by (auto simp: deliver_batch_def append_lines_def Let_def n_def file_bytes_def take_log split: option.splits)
  moreover have "ow_recovered w \<and> seq = ow_next_seq w
      \<or> \<not> ow_recovered w \<and> recover_last_seq js (io_readable io) (ow_file w) = Inr seq"
    using Inr by (auto split: if_splits)
  ultimately show ?thesis using assms(2) Inr enc
    by (intro that(2) [of seq n]) (auto simp: deliver_batch_def n_def split: prod.split)
qed


section \<open>The log\<close>

text \<open>What holds of the file after \<open>all\<close> events: it is the log of \<open>envs\<close>, and a writer that recovered is ahead of it.\<close>

definition outbox_inv :: "'v Json \<Rightarrow> 'v LifecycleEvent list \<Rightarrow> bool \<Rightarrow> 'v RuntimeEventEnvelope list \<Rightarrow> 'v OutboxWriter \<Rightarrow> bool" where
  "outbox_inv js all no_fault envs w \<longleftrightarrow>
     file_bytes w = log_bytes js envs \<and> sorted_wrt (<) (seqs envs) \<and> list_all (\<lambda>s. s \<le> length all) (seqs envs)
     \<and> list_all (\<lambda>env. length (encoded js env) < 65535) envs \<and> subseq (map event_of envs) all
     \<and> (ow_recovered w \<longrightarrow> unat (ow_next_seq w) \<le> length all + 1 \<and> list_all (\<lambda>s. s < unat (ow_next_seq w)) (seqs envs))
     \<and> (no_fault \<longrightarrow> seqs envs = [1 ..< length all + 1] \<and> map event_of envs = all
          \<and> (ow_recovered w \<longrightarrow> unat (ow_next_seq w) = length all + 1))"

text \<open>The number a delivery starts from.\<close>

lemma outbox_inv_seq:
  assumes "codec_ok js" and "outbox_inv js all no_fault envs w" and "length all + 1 < 2 ^ 64"
    and "ow_recovered w \<and> seq = ow_next_seq w
      \<or> \<not> ow_recovered w \<and> recover_last_seq js readable (ow_file w) = Inr seq"
  shows "unat seq \<le> length all + 1 \<and> list_all (\<lambda>s. s < unat seq) (seqs envs) \<and> (no_fault \<longrightarrow> unat seq = length all + 1)"
proof (cases "ow_recovered w")
  case True
  then show ?thesis using assms(2,4) by (simp add: outbox_inv_def)
next
  case False
  then have rec: "recover_last_seq js readable (ow_file w) = Inr seq" using assms(4) by simp
  note inv = assms(2) [unfolded outbox_inv_def]
  show ?thesis
  proof (cases "envs" rule: rev_cases)
    case Nil
    then have "ow_file w = None \<or> ow_file w = Some []" using inv by (auto simp: file_bytes_def split: option.splits)
    then have "seq = 1" using rec by (auto simp: recover_last_seq_def split: if_splits)
    then show ?thesis using inv Nil by auto
  next
    case (snoc before env)
    then have bytes: "ow_file w = Some (log_bytes js envs @ [])" using inv by (cases "ow_file w") (auto simp: file_bytes_def)
    then have readable using rec by (cases readable) (auto simp: recover_last_seq_def)
    moreover have "length (encoded js (last envs)) + length [] < 65535" using inv snoc by simp
    ultimately have seq: "seq = sat_add (re_seq env) 1"
      using recover_log [OF assms(1), of envs "[]"] rec bytes snoc by simp
    have le: "unat (re_seq env) \<le> length all" using inv snoc by simp
    then have "unat seq = unat (re_seq env) + 1" unfolding seq using assms(3) by (intro unat_next) simp
    moreover have "list_all (\<lambda>s. s < unat (re_seq env) + 1) (seqs envs)"
      using inv snoc by (auto simp: list_all_iff sorted_wrt_append)
    moreover have "no_fault \<longrightarrow> unat (re_seq env) = length all"
    proof
      assume no_fault
      then have "seqs before @ [unat (re_seq env)] = [1 ..< length all + 1]" using inv snoc by simp
      then show "unat (re_seq env) = length all"
        by (cases "length all") auto
    qed
    ultimately show ?thesis using le by simp
  qed
qed

lemma seqs_take: "seqs (take n envs) = take n (seqs envs)"
  by (simp add: seqs_def take_map)

lemma outbox_inv_refused:
  assumes "outbox_inv js all no_fault envs w" and "\<not> ow_recovered w"
  shows "outbox_inv js (all @ events) False envs w"
proof -
  note inv = assms(1) [unfolded outbox_inv_def]
  have "list_all (\<lambda>s. s \<le> length (all @ events)) (seqs envs)" using inv by (auto simp: list_all_iff)
  moreover have "subseq (map event_of envs) (all @ events)" using inv by (blast intro: list_emb_prefix)
  ultimately show ?thesis using inv assms(2) unfolding outbox_inv_def by blast
qed

lemma outbox_inv_batch:
  assumes "codec_ok js" and "outbox_inv js all no_fault envs w" and "step_ok js (Batch io batch)"
    and "length all + length (events_of batch) + 1 < 2 ^ 64"
  shows "\<exists>envs'. outbox_inv js (all @ events_of batch) (no_fault \<and> step_clean (Batch io batch)) envs'
    (outbox_step js webhook (Batch io batch) w)"
proof (cases "events_of batch = []")
  case True
  then show ?thesis using assms(2) by (auto simp: run_batch_def deliver_batch_def outbox_inv_def)
next
  case False
  define events where "events = events_of batch"
  note inv = assms(2) [unfolded outbox_inv_def]
  have fault: "case io_fault io of Some (_, part) \<Rightarrow> part = 0 | None \<Rightarrow> True" using assms(3) by simp
  show ?thesis
  proof (rule deliver_batch_cases [OF assms(1) False fault, of w webhook], goal_cases refused written)
    case (refused err)
    have "\<not> (no_fault \<and> step_clean (Batch io batch))"
    proof
      assume *: "no_fault \<and> step_clean (Batch io batch)"
      have "length (encoded js (last envs)) + length [] < 65535 \<or> envs = []" using inv by (auto simp: list_all_iff)
      then have "\<exists>seq. recover_last_seq js (io_readable io) (ow_file w) = Inr seq"
        using * inv recover_log [OF assms(1), of envs "[]"]
        by (cases "ow_file w") (auto simp: file_bytes_def recover_last_seq_def [of js _ None])
      then show False using refused by simp
    qed
    then have no: "(no_fault \<and> step_clean (Batch io batch)) = False" by simp
    have "outbox_inv js (all @ events_of batch) (no_fault \<and> step_clean (Batch io batch)) envs w"
      unfolding no by (rule outbox_inv_refused [OF assms(2) refused(1)])
    then show ?thesis using refused(3) by (auto simp: run_batch_def)
  next
    case (written seq n)
    define new_envs where "new_envs = take n (stamped (io_clock io) 0 seq events)"
    have len: "length all + 1 < 2 ^ 64" and len': "unat seq + length events < 2 ^ 64"
      if "unat seq \<le> length all + 1" using assms(4) that by (simp_all add: events_def)
    have start: "unat seq \<le> length all + 1" "list_all (\<lambda>s. s < unat seq) (seqs envs)"
      "no_fault \<longrightarrow> unat seq = length all + 1"
      using outbox_inv_seq [OF assms(1,2) _ written(1)] assms(4) by auto
    note new = seqs_stamped [OF len' [OF start(1)], of "io_clock io" 0]
    have bounds: "set (seqs new_envs) \<subseteq> {unat seq ..< unat seq + length events}"
      using new set_take_subset [of n "[unat seq ..< unat seq + length events]"] by (auto simp: new_envs_def seqs_take)
    have sorted: "sorted_wrt (<) (seqs new_envs)"
      using new by (simp add: new_envs_def seqs_take sorted_wrt_take)
    have "set new_envs \<subseteq> set (stamped (io_clock io) 0 seq events)" by (simp add: new_envs_def set_take_subset)
    moreover have "\<forall>e \<in> set events. \<forall>seq i. length (encoded js (envelope_of e seq (io_clock io i))) < 65535"
      using assms(3) by (simp add: events_def)
    ultimately have short: "list_all (\<lambda>env. length (encoded js env) < 65535) new_envs"
      using stamped_short by (fastforce simp: list_all_iff)
    have "map event_of new_envs = take n events" by (simp add: new_envs_def flip: take_map)
    then have sub: "subseq (map event_of new_envs) events" by (metis append_take_drop_id subseq_rev_drop_many subseq_order.refl)
    have clean: "seqs new_envs = [unat seq ..< unat seq + length events]" "map event_of new_envs = events"
      if "step_clean (Batch io batch)"
      using that written(5) new by (simp_all add: new_envs_def events_def)
    let ?w = "snd (deliver_batch js webhook io (events_of batch) w)"
    have "file_bytes ?w = log_bytes js (envs @ new_envs)" using written(4) inv by (simp add: new_envs_def events_def)
    moreover have "sorted_wrt (<) (seqs (envs @ new_envs))"
      using inv sorted start(2) bounds by (fastforce simp: sorted_wrt_append list_all_iff)
    moreover have "list_all (\<lambda>s. s \<le> length (all @ events)) (seqs (envs @ new_envs))"
      using inv start(1) bounds by (fastforce simp: list_all_iff)
    moreover have "list_all (\<lambda>env. length (encoded js env) < 65535) (envs @ new_envs)" using inv short by simp
    moreover have "subseq (map event_of (envs @ new_envs)) (all @ events)"
      using inv sub by (simp add: list_emb_append_mono)
    moreover have "unat (ow_next_seq ?w) = unat seq + length events" using written(3) new by (simp add: events_def)
    then have "unat (ow_next_seq ?w) \<le> length (all @ events) + 1"
      "list_all (\<lambda>s. s < unat (ow_next_seq ?w)) (seqs (envs @ new_envs))"
      using start bounds by (fastforce simp: list_all_iff)+
    moreover have "seqs (envs @ new_envs) = [1 ..< length (all @ events) + 1] \<and> map event_of (envs @ new_envs) = all @ events
        \<and> unat (ow_next_seq ?w) = length (all @ events) + 1" if "no_fault \<and> step_clean (Batch io batch)"
    proof -
      have "[1 ..< length all + 1] @ [length all + 1 ..< length all + 1 + length events] = [1 ..< length (all @ events) + 1]"
        using upt_add_eq_append [of 1 "length all + 1" "length events"] by (simp del: upt_Suc)
      then show ?thesis using that clean start(3) inv \<open>unat (ow_next_seq ?w) = unat seq + length events\<close> by simp
    qed
    ultimately have "outbox_inv js (all @ events) (no_fault \<and> step_clean (Batch io batch)) (envs @ new_envs) ?w"
      unfolding outbox_inv_def by blast
    then show ?thesis by (auto simp: run_batch_def events_def)
  qed
qed


lemma outbox_inv_run:
  assumes "codec_ok js" and "list_all (step_ok js) steps"
  shows "outbox_inv js all no_fault envs w \<Longrightarrow> length all + length (all_events steps) + 1 < 2 ^ 64 \<Longrightarrow>
    \<exists>envs'. outbox_inv js (all @ all_events steps) (no_fault \<and> list_all step_clean steps) envs' (outbox_run js webhook steps w)"
  using assms(2)
proof (induction steps arbitrary: all no_fault envs w)
  case Nil
  then show ?case by (auto simp: outbox_run_def all_events_def)
next
  case (Cons step steps)
  have "\<exists>envs'. outbox_inv js (all @ step_events step) (no_fault \<and> step_clean step) envs' (outbox_step js webhook step w)"
  proof (cases step)
    case Restart
    have "outbox_inv js all no_fault envs (start_writer w)"
      using Cons.prems(1) by (simp add: outbox_inv_def start_writer_def file_bytes_def)
    then show ?thesis using Restart by auto
  next
    case (Batch io batch)
    then show ?thesis using outbox_inv_batch [OF assms(1) Cons.prems(1)] Cons.prems(2,3)
      by (simp add: all_events_def)
  qed
  then obtain envs' where "outbox_inv js (all @ step_events step) (no_fault \<and> step_clean step) envs' (outbox_step js webhook step w)"
    by blast
  from Cons.IH [OF this] show ?case using Cons.prems(2,3)
    by (simp add: all_events_def outbox_run_def conj_assoc)
qed

section \<open>Guarantees\<close>

text \<open>C34. In every history of restarts and failing deliveries whose appends leave whole records, the file is a log of
  distinct events in the order they were queued, with strictly increasing sequence numbers. When no delivery fails,
  every event is logged and the numbers are 1, 2, 3 and so on, across restarts.\<close>

theorem outbox_is_the_event_log:
  assumes "codec_ok js" and "list_all (step_ok js) steps" and "length (all_events steps) + 1 < 2 ^ 64"
  shows "\<exists>envs. file_bytes (outbox_run js webhook steps no_outbox) = log_bytes js envs
    \<and> sorted_wrt (<) (seqs envs) \<and> subseq (map event_of envs) (all_events steps)
    \<and> (list_all step_clean steps \<longrightarrow>
         map event_of envs = all_events steps \<and> seqs envs = [1 ..< length (all_events steps) + 1])"
proof -
  have "outbox_inv js [] True [] no_outbox" by (simp add: outbox_inv_def no_outbox_def file_bytes_def)
  from outbox_inv_run [OF assms(1,2) this] assms(3)
  obtain envs where "outbox_inv js (all_events steps) (list_all step_clean steps) envs (outbox_run js webhook steps no_outbox)"
    by (auto simp del: outbox_step.simps)
  then show ?thesis unfolding outbox_inv_def by blast
qed

text \<open>A codec that writes the bits of the sequence number.\<close>

definition demo_json :: "unit Json" where
  "demo_json = \<lparr>js_encode = \<lambda>env. Some (map (\<lambda>i. if bit (re_seq env) i then CHR ''1'' else CHR ''0'') [0 ..< 64]),
     js_seq = \<lambda>line. if length line = 64 then Some (horner_sum of_bool 2 (map (\<lambda>c. c = CHR ''1'') line)) else None\<rparr>"

definition demo_event :: "string \<Rightarrow> unit LifecycleEvent" where
  "demo_event name = \<lparr>le_event = name, le_kind = name, le_thread_id = [], le_turn_id = None, le_item_id = None, le_payload = ()\<rparr>"

definition demo_io :: DeliveryIo where
  "demo_io = \<lparr>io_clock = \<lambda>_. ([], []), io_readable = True, io_opens = True, io_fault = None\<rparr>"

lemma utf8_valid_ascii: "list_all (byte_in 0 127) s \<Longrightarrow> utf8_valid s"
  by (induction s) (simp_all add: utf8_valid.simps [of "_ # _"] utf8_valid.simps [of "[]"] utf8_first.simps)

lemma split_ws_from_started: "acc \<noteq> [] \<Longrightarrow> split_ws_from acc s \<noteq> []"
  by (induction acc s rule: split_ws_from.induct) auto

lemma ws_len_bit: "ws_len (CHR ''1'' # cs) = 0" "ws_len (CHR ''0'' # cs) = 0"
  by (auto simp: is_ascii_ws_def ws2_def ws3_def split: list.split)

lemma trim_bits: "c = CHR ''1'' \<or> c = CHR ''0'' \<Longrightarrow> trim (c # cs) \<noteq> []"
proof
  assume "c = CHR ''1'' \<or> c = CHR ''0''" and "trim (c # cs) = []"
  then have "split_whitespace (c # cs) = []" and "ws_len (c # cs) = 0"
    by (metis split_whitespace_trim split_whitespace_nil) (use \<open>c = CHR ''1'' \<or> c = CHR ''0''\<close> in \<open>auto simp: ws_len_bit simp del: ws_len.simps\<close>)
  then show False using split_ws_from_started [of "[c]" cs] by (simp add: split_whitespace_def del: ws_len.simps)
qed

lemma codec_ok_demo: "codec_ok demo_json"
  unfolding codec_ok_def
proof (intro allI exI conjI)
  fix env :: "unit RuntimeEventEnvelope"
  define line where "line = map (\<lambda>i. if bit (re_seq env) i then CHR ''1'' else CHR ''0'') [0 ..< 64]"
  have bits: "c \<in> set line \<Longrightarrow> c = CHR ''1'' \<or> c = CHR ''0''" for c by (auto simp: line_def)
  show "js_encode demo_json env = Some line" by (simp add: demo_json_def line_def)
  have "map (\<lambda>c. c = CHR ''1'') line = map (bit (re_seq env)) [0 ..< 64]" by (simp add: line_def comp_def)
  then have "horner_sum of_bool 2 (map (\<lambda>c. c = CHR ''1'') line) = take_bit 64 (re_seq env)"
    by (simp only: horner_sum_bit_eq_take_bit)
  then show "js_seq demo_json line = Some (re_seq env)" by (simp add: demo_json_def line_def take_bit_word_eq_self)
  show "CHR 0x0A \<notin> set line" using bits by auto
  have "byte_in 0 127 c" if "c \<in> set line" for c using bits [OF that] by (auto simp: byte_in_def)
  then have "list_all (byte_in 0 127) line" by (simp add: list_all_iff)
  then show "utf8_valid line" by (rule utf8_valid_ascii)
  have "length line = 64" by (simp add: line_def)
  then obtain c cs where "line = c # cs" by (cases line) auto
  then show "trim line \<noteq> []" using bits [of c] trim_bits by simp
qed

lemma demo_line_length: "length (encoded demo_json env) = 64"
  by (simp add: encoded_def demo_json_def)

definition demo_steps :: "unit OutboxStep list" where
  "demo_steps = [Restart, Batch demo_io [OutboxEvent (demo_event ''a''), OutboxFlush 0], Restart, Batch demo_io [OutboxEvent (demo_event ''b'')]]"

theorem outbox_is_the_event_log_witness:
  "\<exists>envs. file_bytes (outbox_run demo_json False demo_steps no_outbox) = log_bytes demo_json envs
    \<and> map event_of envs = [demo_event ''a'', demo_event ''b''] \<and> seqs envs = [1, 2]"
proof -
  have "list_all (step_ok demo_json) demo_steps"
    by (simp add: demo_steps_def demo_io_def demo_line_length)
  moreover have "all_events demo_steps = [demo_event ''a'', demo_event ''b'']" by (simp add: demo_steps_def all_events_def)
  moreover have "list_all step_clean demo_steps" by (simp add: demo_steps_def demo_io_def)
  ultimately show ?thesis
    using outbox_is_the_event_log [OF codec_ok_demo, of demo_steps False] by (auto simp: upt_rec)
qed

text \<open>A writer that cannot recover leaves the file as it is, for good.\<close>

lemma refused_forever:
  assumes "ow_file w = Some bytes" and "\<not> ow_recovered w" and "\<forall>readable. \<exists>err. recover_last_seq js readable (Some bytes) = Inl err"
  shows "ow_file (outbox_run js webhook steps w) = Some bytes"
proof -
  have "ow_file (outbox_step js webhook step v) = Some bytes \<and> \<not> ow_recovered (outbox_step js webhook step v)"
    if v: "ow_file v = Some bytes \<and> \<not> ow_recovered v" for step v
  proof (cases step)
    case (Batch io batch)
    obtain err where "recover_last_seq js (io_readable io) (Some bytes) = Inl err" using assms(3) by blast
    then show ?thesis using Batch v by (simp add: run_batch_def deliver_batch_def)
  qed (simp add: v start_writer_def)
  then have "ow_file (fold (outbox_step js webhook) steps v) = Some bytes" if "ow_file v = Some bytes \<and> \<not> ow_recovered v" for v
    using that by (induction steps arbitrary: v) auto
  then show ?thesis using assms by (simp add: outbox_run_def)
qed




section \<open>Bounded text\<close>

lemma utf8_chars_append:
  "ys = [] \<or> \<not> is_cont (hd ys) \<Longrightarrow> utf8_chars (xs @ ys) = utf8_chars xs @ utf8_chars ys"
proof (induction xs rule: utf8_chars.induct)
  case (2 c cs)
  have "takeWhile is_cont ys = []" "dropWhile is_cont ys = ys" using "2.prems" by (cases ys; auto)+
  then have "takeWhile is_cont (cs @ ys) = takeWhile is_cont cs \<and> dropWhile is_cont (cs @ ys) = dropWhile is_cont cs @ ys"
    by (induction cs) auto
  with 2 show ?case by simp
qed simp

lemma concat_utf8_chars [simp]: "concat (utf8_chars s) = s"
  by (induction s rule: utf8_chars.induct) auto

lemma takeWhile_takeWhile_self: "takeWhile P (takeWhile P xs) = takeWhile P xs"
  by (auto simp: takeWhile_eq_all_conv dest: set_takeWhileD)

lemma dropWhile_takeWhile_nil: "dropWhile P (takeWhile P xs) = []"
  by (auto simp: dropWhile_eq_Nil_conv dest: set_takeWhileD)

lemma utf8_chars_take: "utf8_chars (concat (take n (utf8_chars s))) = take n (utf8_chars s)"
proof (induction s arbitrary: n rule: utf8_chars.induct)
  case (2 c cs)
  show ?case
  proof (cases n)
    case (Suc m)
    define rest where "rest = concat (take m (utf8_chars (dropWhile is_cont cs)))"
    have "rest = [] \<or> \<not> is_cont (hd rest)"
    proof (cases "dropWhile is_cont cs")
      case (Cons d ds)
      then have "\<not> is_cont d" by (metis hd_dropWhile list.sel(1) list.distinct(1))
      then show ?thesis using Cons by (cases m) (simp_all add: rest_def)
    next
      case Nil
      then show ?thesis unfolding rest_def Nil by simp
    qed
    then have "utf8_chars ((c # takeWhile is_cont cs) @ rest) = utf8_chars (c # takeWhile is_cont cs) @ utf8_chars rest"
      by (rule utf8_chars_append)
    moreover have "utf8_chars (c # takeWhile is_cont cs) = [c # takeWhile is_cont cs]"
      by (simp add: dropWhile_takeWhile_nil takeWhile_takeWhile_self)
    ultimately show ?thesis using 2 by (simp add: Suc rest_def)
  qed simp
qed simp

lemma make_room_one:
  "0 < max_chars \<Longrightarrow> char_count = length out \<Longrightarrow> length out \<le> max_chars \<Longrightarrow>
    make_room 1 max_chars char_count out = Some (take (max_chars - 1) out, min char_count (max_chars - 1))"
proof (cases "char_count + 1 \<le> max_chars")
  case False
  assume "0 < max_chars" "char_count = length out" "length out \<le> max_chars"
  with False have "length out = max_chars" by simp
  then have "make_room 1 max_chars char_count out = make_room 1 max_chars (max_chars - 1) (butlast out)"
    using \<open>0 < max_chars\<close> \<open>char_count = length out\<close> by (subst make_room.simps) simp
  also have "\<dots> = Some (butlast out, max_chars - 1)"
    using \<open>0 < max_chars\<close> by (subst make_room.simps) simp
  finally show ?thesis using \<open>length out = max_chars\<close> \<open>char_count = length out\<close> \<open>0 < max_chars\<close>
    by (simp add: butlast_conv_take min_def)
qed (simp add: make_room.simps)

text \<open>Bounded text never exceeds its limit in characters and never splits one: it is the cleaned text
  when that fits, and otherwise its first characters followed by the marker.\<close>

theorem bounded_text_fits:
  assumes "0 < max_chars"
  shows "\<exists>out. bounded_text txt max_chars = Some out \<and> length (utf8_chars out) \<le> max_chars
    \<and> utf8_chars out = (if length (utf8_chars (clean_text txt)) \<le> max_chars then utf8_chars (clean_text txt)
        else take (max_chars - 1) (utf8_chars (clean_text txt)) @ [OUTBOX_TRUNCATION_MARKER])"
proof (cases "length (utf8_chars (clean_text txt)) \<le> max_chars")
  case True
  then show ?thesis by (simp add: bounded_text_def Let_def)
next
  case False
  define cleaned where "cleaned = utf8_chars (clean_text txt)"
  have marker: "utf8_chars OUTBOX_TRUNCATION_MARKER = [OUTBOX_TRUNCATION_MARKER]"
    by (simp add: OUTBOX_TRUNCATION_MARKER_def)
  have long: "max_chars < length cleaned" using False by (simp add: cleaned_def)
  have "bounded_text txt max_chars = Some (concat (take (max_chars - 1) cleaned) @ OUTBOX_TRUNCATION_MARKER)"
    using assms long make_room_one [OF assms, of max_chars "take max_chars cleaned"]
    by (simp add: bounded_text_def Let_def marker cleaned_def [symmetric] min_def)
  moreover have "utf8_chars (concat (take (max_chars - 1) cleaned) @ OUTBOX_TRUNCATION_MARKER)
      = take (max_chars - 1) cleaned @ [OUTBOX_TRUNCATION_MARKER]"
    using utf8_chars_append [of OUTBOX_TRUNCATION_MARKER "concat (take (max_chars - 1) cleaned)"] marker
      utf8_chars_take [of "max_chars - 1" "clean_text txt"]
    by (simp add: cleaned_def OUTBOX_TRUNCATION_MARKER_def)
  ultimately show ?thesis using assms long False by (auto simp: cleaned_def)
qed

text \<open>A zero limit panics in builds that check for overflow.\<close>

lemma zero_limit_panics: "bounded_text ''a'' 0 = None"
  by code_simp

text \<open>Only the escape byte of an ANSI sequence is removed.\<close>

lemma ansi_sequence_stays: "bounded_text ([CHR 0x1B] @ ''[31m red'') 80 = Some ''[31m red''"
  by code_simp

theorem bounded_text_fits_witness: "\<exists>out. bounded_text ''one  two'' 5 = Some out \<and> length (utf8_chars out) \<le> 5"
  using bounded_text_fits [of 5 "''one  two''"] by auto

end
