(* ===== verification/WorkflowPlans.thy ===== *)
theory WorkflowPlans
  imports BTreeMap
begin

text \<open>
  Compilation of a workflow configuration into a plan (\<open>crates/workflow/src/lib.rs\<close>): validation of phases and
  tasks, the order of the phases, and the write scopes of parallel tasks.

  A \<open>BTreeMap\<close> is an association list with its lookup and insertion, a \<open>BTreeSet\<close> of names a set. Indexing that
  panics in the code is the error \<open>IndexPanic\<close>. Paths are those of Unix.
\<close>

section \<open>Configuration and plan\<close>

datatype FailurePolicy = SkipContinue | Abort

datatype AgentType = General | Explore | Plan | Review | Implementer | Verifier

datatype TaskMode = ReadOnly | ReadWrite

datatype IsolationMode = AutoIsolation | SharedCheckout | Worktree

record Task =
  tk_id :: string
  tk_prompt :: string
  tk_agent_type :: AgentType
  tk_mode :: TaskMode
  tk_isolation :: IsolationMode
  tk_file_scope :: "string list"
  tk_depends_on_results :: "string list"
  tk_max_steps :: "u32 option"
  tk_timeout_secs :: "u64 option"

record Phase =
  ph_name :: string
  ph_description :: "string option"
  ph_depends_on :: "string list"
  ph_parallel :: bool
  ph_on_failure :: FailurePolicy
  ph_tasks :: "Task list"

record WorkflowConfig =
  wc_goal :: string
  wc_max_concurrent :: u8
  wc_description :: "string option"
  wc_phases :: "Phase list"

record PhasePlan =
  pp_name :: string
  pp_parallel :: bool
  pp_on_failure :: FailurePolicy
  pp_tasks :: "Task list"

record WorkflowPlan =
  wp_goal :: string
  wp_max_concurrent :: u8
  wp_phases :: "PhasePlan list"

datatype WorkflowValidationError =
    EmptyField string
  | EmptyWorkflow
  | EmptyPhase string
  | InvalidMaxConcurrent u8
  | DuplicatePhase string
  | DuplicateTask string
  | InvalidPhaseDependency string string
  | PhaseDependencyCycle string
  | InvalidTaskResultDependency string string
  | UnavailableTaskResultDependency string string string string
  | MissingParallelWriteScope string
  | OverlappingParallelWriteScope string string
  | IndexPanic

definition validate_non_empty :: "string \<Rightarrow> string \<Rightarrow> WorkflowValidationError + unit" where
  "validate_non_empty field v = (if trim v = [] then Inl (EmptyField field) else Inr ())"

section \<open>Write scopes\<close>

function trim_start_dot_slash :: "string \<Rightarrow> string" where
  "trim_start_dot_slash s =
     (if starts_with s ''./'' then trim_start_dot_slash (drop 2 s) else s)"
  by pat_completeness auto
termination
proof (relation "measure length", goal_cases)
  case (2 s)
  then show ?case by (cases s) (simp_all add: starts_with_def)
qed simp

declare trim_start_dot_slash.simps [simp del]

definition trim_end_slashes :: "string \<Rightarrow> string" where
  "trim_end_slashes s = rev (dropWhile (\<lambda>c. c = CHR ''/'') (rev s))"

definition normalize_file_scope_root :: "string \<Rightarrow> string" where
  "normalize_file_scope_root scope =
     (let trimmed = trim_end_slashes (trim_start_dot_slash (trim scope)) in
      case strip_suffix trimmed ''/**'' of
        Some root \<Rightarrow> root
      | None \<Rightarrow> (case strip_suffix trimmed ''/*'' of Some root \<Rightarrow> root | None \<Rightarrow> trimmed))"

definition glob_prefix :: "string \<Rightarrow> string" where
  "glob_prefix scope = trim_end_slashes (takeWhile (\<lambda>c. c \<noteq> CHR ''*'') scope)"

text \<open>\<open>Path::components\<close>: the root, a leading dot, and the parts that are neither empty nor a dot.\<close>

definition path_components :: "string \<Rightarrow> string list" where
  "path_components s =
     (if starts_with s ''/'' then [''/''] else if hd (split_char (CHR ''/'') s) = ''.'' then [''.''] else [])
     @ filter (\<lambda>part. part \<noteq> [] \<and> part \<noteq> ''.'') (split_char (CHR ''/'') s)"

definition components_start_with :: "string \<Rightarrow> string \<Rightarrow> bool" where
  "components_start_with left right \<longleftrightarrow> take (length (path_components right)) (path_components left) = path_components right"

definition scope_overlaps :: "string \<Rightarrow> string \<Rightarrow> bool" where
  "scope_overlaps left right =
     (let left = normalize_file_scope_root left; right = normalize_file_scope_root right in
      if left = right \<or> left = ''.'' \<or> right = ''.'' then True
      else if contains left ''*'' \<or> contains right ''*'' then glob_prefix left = glob_prefix right
      else components_start_with left right \<or> components_start_with right left)"

definition scopes_overlap :: "string list \<Rightarrow> string list \<Rightarrow> bool" where
  "scopes_overlap left right \<longleftrightarrow> list_ex (\<lambda>l. list_ex (\<lambda>r. scope_overlaps l r) right) left"

fun first_overlap :: "Task list \<Rightarrow> (string \<times> string) option" where
  "first_overlap [] = None"
| "first_overlap (left # rest) =
     (case find (\<lambda>right. scopes_overlap (tk_file_scope left) (tk_file_scope right)) rest of
        Some right \<Rightarrow> Some (tk_id left, tk_id right)
      | None \<Rightarrow> first_overlap rest)"

definition validate_parallel_write_scope :: "Phase \<Rightarrow> WorkflowValidationError + unit" where
  "validate_parallel_write_scope phase =
     (if \<not> ph_parallel phase then Inr ()
      else
        (let write_tasks = filter (\<lambda>t. tk_mode t = ReadWrite) (ph_tasks phase) in
         case find (\<lambda>t. tk_file_scope t = []) write_tasks of
           Some t \<Rightarrow> Inl (MissingParallelWriteScope (tk_id t))
         | None \<Rightarrow>
             (case first_overlap write_tasks of
                Some (left, right) \<Rightarrow> Inl (OverlappingParallelWriteScope left right)
              | None \<Rightarrow> Inr ())))"

section \<open>Order of the phases\<close>

record VisitState =
  vs_visited :: "string set"
  vs_ordered :: "string list"

definition phase_at :: "WorkflowConfig \<Rightarrow> (string, nat) btree \<Rightarrow> string \<Rightarrow> Phase option" where
  "phase_at config phase_indices name =
     (case bt_get phase_indices name of
        Some i \<Rightarrow> if i < length (wc_phases config) then Some (wc_phases config ! i) else None
      | None \<Rightarrow> None)"

text \<open>\<open>visiting\<close> is what it holds when the function is entered; a call that succeeds leaves it as it was.\<close>

function visit_phase :: "WorkflowConfig \<Rightarrow> (string, nat) btree \<Rightarrow> string set \<Rightarrow> string \<Rightarrow> VisitState
    \<Rightarrow> WorkflowValidationError + VisitState"
  and visit_dependencies :: "WorkflowConfig \<Rightarrow> (string, nat) btree \<Rightarrow> string set \<Rightarrow> string list \<Rightarrow> VisitState
    \<Rightarrow> WorkflowValidationError + VisitState" where
  "visit_phase config phase_indices visiting phase_name st =
     (if phase_name \<in> vs_visited st then Inr st
      else if phase_name \<in> visiting then Inl (PhaseDependencyCycle phase_name)
      else
        (case phase_at config phase_indices phase_name of
           None \<Rightarrow> Inl IndexPanic
         | Some phase \<Rightarrow>
             (case visit_dependencies config phase_indices (insert phase_name visiting) (ph_depends_on phase) st of
                Inl err \<Rightarrow> Inl err
              | Inr st \<Rightarrow> Inr (st\<lparr>vs_visited := insert phase_name (vs_visited st),
                                 vs_ordered := vs_ordered st @ [phase_name]\<rparr>))))"
| "visit_dependencies config phase_indices visiting [] st = Inr st"
| "visit_dependencies config phase_indices visiting (dependency # rest) st =
     (case visit_phase config phase_indices visiting dependency st of
        Inl err \<Rightarrow> Inl err
      | Inr st \<Rightarrow> visit_dependencies config phase_indices visiting rest st)"
  by pat_completeness auto
termination
proof (relation "measures
    [\<lambda>x. case x of Inl (c, idx, v, n, st) \<Rightarrow> card (fst ` set idx - v) | Inr (c, idx, v, ds, st) \<Rightarrow> card (fst ` set idx - v),
     \<lambda>x. case x of Inl _ \<Rightarrow> 0 | Inr (c, idx, v, ds, st) \<Rightarrow> length ds]", goal_cases)
  case (2 config idx visiting name st phase)
  have "name \<in> fst ` set idx" using 2(3) by (auto simp: phase_at_def split: option.splits dest!: map_of_SomeD intro: rev_image_eqI)
  then have "card (fst ` set idx - insert name visiting) < card (fst ` set idx - visiting)"
    using 2(2) by (intro psubset_card_mono) auto
  then show ?case by simp
qed auto

declare visit_phase.simps [simp del]

definition ordered_phases :: "WorkflowConfig \<Rightarrow> (string, nat) btree \<Rightarrow> WorkflowValidationError + string list" where
  "ordered_phases config phase_indices =
     (case visit_dependencies config phase_indices {} (map ph_name (wc_phases config)) \<lparr>vs_visited = {}, vs_ordered = []\<rparr> of
        Inl err \<Rightarrow> Inl err
      | Inr st \<Rightarrow> Inr (vs_ordered st))"

section \<open>Compilation\<close>

text \<open>The maps of the first loop: phases by name, tasks by id, and the phase of a task.\<close>

record PlanMaps =
  pm_phase_indices :: "(string, nat) btree"
  pm_all_tasks :: "(string, Task) btree"
  pm_task_phase :: "(string, string) btree"

fun collect_tasks :: "string \<Rightarrow> Task list \<Rightarrow> PlanMaps \<Rightarrow> WorkflowValidationError + PlanMaps" where
  "collect_tasks phase_name [] m = Inr m"
| "collect_tasks phase_name (task # tasks) m =
     (case validate_non_empty ''task id'' (tk_id task) of Inl err \<Rightarrow> Inl err | Inr _ \<Rightarrow>
      case validate_non_empty ''task prompt'' (tk_prompt task) of Inl err \<Rightarrow> Inl err | Inr _ \<Rightarrow>
      if bt_get (pm_all_tasks m) (tk_id task) \<noteq> None then Inl (DuplicateTask (tk_id task))
      else collect_tasks phase_name tasks
        (m\<lparr>pm_all_tasks := bt_insert (tk_id task) task (pm_all_tasks m),
           pm_task_phase := bt_insert (tk_id task) phase_name (pm_task_phase m)\<rparr>))"

fun collect_phases :: "nat \<Rightarrow> Phase list \<Rightarrow> PlanMaps \<Rightarrow> WorkflowValidationError + PlanMaps" where
  "collect_phases i [] m = Inr m"
| "collect_phases i (phase # phases) m =
     (case validate_non_empty ''phase name'' (ph_name phase) of Inl err \<Rightarrow> Inl err | Inr _ \<Rightarrow>
      if ph_tasks phase = [] then Inl (EmptyPhase (ph_name phase))
      else if bt_get (pm_phase_indices m) (ph_name phase) \<noteq> None then Inl (DuplicatePhase (ph_name phase))
      else case collect_tasks (ph_name phase) (ph_tasks phase)
          (m\<lparr>pm_phase_indices := bt_insert (ph_name phase) i (pm_phase_indices m)\<rparr>) of
        Inl err \<Rightarrow> Inl err
      | Inr m \<Rightarrow> collect_phases (i + 1) phases m)"

fun check_phases :: "(string, nat) btree \<Rightarrow> Phase list \<Rightarrow> WorkflowValidationError + unit" where
  "check_phases phase_indices [] = Inr ()"
| "check_phases phase_indices (phase # phases) =
     (case find (\<lambda>d. d = ph_name phase \<or> bt_get phase_indices d = None) (ph_depends_on phase) of
        Some d \<Rightarrow> Inl (InvalidPhaseDependency (ph_name phase) d)
      | None \<Rightarrow>
          (case validate_parallel_write_scope phase of
             Inl err \<Rightarrow> Inl err
           | Inr _ \<Rightarrow> check_phases phase_indices phases))"

fun check_results :: "(string, string) btree \<Rightarrow> (string, nat) btree \<Rightarrow> string \<Rightarrow> string \<Rightarrow> string list
    \<Rightarrow> WorkflowValidationError + unit" where
  "check_results task_phase phase_order phase task [] = Inr ()"
| "check_results task_phase phase_order phase task (dependency # rest) =
     (case bt_get task_phase dependency of
        None \<Rightarrow> Inl (InvalidTaskResultDependency task dependency)
      | Some dependency_phase \<Rightarrow>
          (case (bt_get phase_order dependency_phase, bt_get phase_order phase) of
             (Some i, Some j) \<Rightarrow>
               if j \<le> i then Inl (UnavailableTaskResultDependency task dependency dependency_phase phase)
               else check_results task_phase phase_order phase task rest
           | _ \<Rightarrow> Inl IndexPanic))"

fun check_tasks :: "(string, string) btree \<Rightarrow> (string, nat) btree \<Rightarrow> string \<Rightarrow> Task list \<Rightarrow> WorkflowValidationError + unit" where
  "check_tasks task_phase phase_order phase [] = Inr ()"
| "check_tasks task_phase phase_order phase (task # tasks) =
     (case check_results task_phase phase_order phase (tk_id task) (tk_depends_on_results task) of
        Inl err \<Rightarrow> Inl err
      | Inr _ \<Rightarrow> check_tasks task_phase phase_order phase tasks)"

fun check_all_tasks :: "(string, string) btree \<Rightarrow> (string, nat) btree \<Rightarrow> Phase list \<Rightarrow> WorkflowValidationError + unit" where
  "check_all_tasks task_phase phase_order [] = Inr ()"
| "check_all_tasks task_phase phase_order (phase # phases) =
     (case check_tasks task_phase phase_order (ph_name phase) (ph_tasks phase) of
        Inl err \<Rightarrow> Inl err
      | Inr _ \<Rightarrow> check_all_tasks task_phase phase_order phases)"

text \<open>\<open>enumerate\<close> and \<open>collect\<close> into the map of positions.\<close>

definition positions :: "string list \<Rightarrow> (string, nat) btree" where
  "positions names = fold (\<lambda>(i, name) m. bt_insert name i m) (enumerate 0 names) []"

definition plan_of :: "Phase \<Rightarrow> PhasePlan" where
  "plan_of phase = \<lparr>pp_name = ph_name phase, pp_parallel = ph_parallel phase, pp_on_failure = ph_on_failure phase,
     pp_tasks = ph_tasks phase\<rparr>"

definition from_config :: "WorkflowConfig \<Rightarrow> WorkflowValidationError + WorkflowPlan" where
  "from_config config =
     (case validate_non_empty ''workflow goal'' (wc_goal config) of Inl err \<Rightarrow> Inl err | Inr _ \<Rightarrow>
      if \<not> (1 \<le> wc_max_concurrent config \<and> wc_max_concurrent config \<le> 20)
      then Inl (InvalidMaxConcurrent (wc_max_concurrent config))
      else if wc_phases config = [] then Inl EmptyWorkflow
      else case collect_phases 0 (wc_phases config) \<lparr>pm_phase_indices = [], pm_all_tasks = [], pm_task_phase = []\<rparr> of
        Inl err \<Rightarrow> Inl err
      | Inr m \<Rightarrow>
      case check_phases (pm_phase_indices m) (wc_phases config) of Inl err \<Rightarrow> Inl err | Inr _ \<Rightarrow>
      case ordered_phases config (pm_phase_indices m) of
        Inl err \<Rightarrow> Inl err
      | Inr ordered_phase_names \<Rightarrow>
      case check_all_tasks (pm_task_phase m) (positions ordered_phase_names) (wc_phases config) of
        Inl err \<Rightarrow> Inl err
      | Inr _ \<Rightarrow>
          if list_ex (\<lambda>name. phase_at config (pm_phase_indices m) name = None) ordered_phase_names then Inl IndexPanic
          else Inr \<lparr>wp_goal = wc_goal config, wp_max_concurrent = wc_max_concurrent config,
                    wp_phases = map (\<lambda>name. plan_of (the (phase_at config (pm_phase_indices m) name))) ordered_phase_names\<rparr>)"

end
