(* ===== verification/WorkflowProps.thy ===== *)
theory WorkflowProps
  imports WorkflowPlans "HOL-Library.Multiset"
begin

text \<open>
  Guarantees of the compilation of workflows: the plan runs every phase once, behind the phases and the results it
  depends on; the order exists exactly when the dependencies have no cycle; indexing never panics.
\<close>

section \<open>The visit\<close>

definition topological :: "('a \<Rightarrow> 'a list) \<Rightarrow> 'a list \<Rightarrow> bool" where
  "topological dep xs \<longleftrightarrow> distinct xs \<and> (\<forall>ys x zs. xs = ys @ x # zs \<longrightarrow> set (dep x) \<subseteq> set ys)"

lemma topological_nil [simp]: "topological dep []"
  by (simp add: topological_def)

lemma topological_snoc:
  "topological dep xs \<Longrightarrow> x \<notin> set xs \<Longrightarrow> set (dep x) \<subseteq> set xs \<Longrightarrow> topological dep (xs @ [x])"
  unfolding topological_def
proof (elim conjE, intro conjI allI impI)
  fix ys y zs
  assume *: "\<forall>ys x zs. xs = ys @ x # zs \<longrightarrow> set (dep x) \<subseteq> set ys" "set (dep x) \<subseteq> set xs" "xs @ [x] = ys @ y # zs"
  show "set (dep y) \<subseteq> set ys"
  proof (cases zs rule: rev_cases)
    case Nil
    then show ?thesis using * by simp
  next
    case (snoc zs' z)
    then have "xs = ys @ y # zs'" using *(3) by simp
    then show ?thesis using *(1) by blast
  qed
qed simp

definition depends_of :: "WorkflowConfig \<Rightarrow> (string, nat) btree \<Rightarrow> string \<Rightarrow> string list" where
  "depends_of config idx name = (case phase_at config idx name of Some phase \<Rightarrow> ph_depends_on phase | None \<Rightarrow> [])"

definition visit_ok :: "WorkflowConfig \<Rightarrow> (string, nat) btree \<Rightarrow> VisitState \<Rightarrow> bool" where
  "visit_ok config idx st \<longleftrightarrow> vs_visited st = set (vs_ordered st) \<and> topological (depends_of config idx) (vs_ordered st)
     \<and> list_all (\<lambda>n. phase_at config idx n \<noteq> None) (vs_ordered st)"

lemma visit_success:
  "visit_phase config idx visiting name st = Inr st' \<Longrightarrow> visit_ok config idx st \<Longrightarrow>
     visit_ok config idx st' \<and> name \<in> vs_visited st' \<and> (\<exists>new. vs_ordered st' = vs_ordered st @ new \<and> set new \<inter> visiting = {})"
  "visit_dependencies config idx visiting ds st = Inr st' \<Longrightarrow> visit_ok config idx st \<Longrightarrow>
     visit_ok config idx st' \<and> set ds \<subseteq> vs_visited st' \<and> (\<exists>new. vs_ordered st' = vs_ordered st @ new \<and> set new \<inter> visiting = {})"
proof (induction config idx visiting name st and config idx visiting ds st arbitrary: st' and st'
    rule: visit_phase_visit_dependencies.induct)
  case (1 config idx visiting name st)
  show ?case
  proof (cases "name \<in> vs_visited st")
    case True
    then show ?thesis using "1.prems" by (simp add: visit_phase.simps)
  next
    case False
    then have fresh: "name \<notin> visiting" using "1.prems"(1) by (auto simp: visit_phase.simps)
    obtain phase where phase: "phase_at config idx name = Some phase"
      using "1.prems"(1) False fresh by (cases "phase_at config idx name") (simp_all add: visit_phase.simps)
    obtain st1 where deps: "visit_dependencies config idx (insert name visiting) (ph_depends_on phase) st = Inr st1"
      and st': "st' = st1\<lparr>vs_visited := insert name (vs_visited st1), vs_ordered := vs_ordered st1 @ [name]\<rparr>"
      using "1.prems"(1) False fresh phase
      by (cases "visit_dependencies config idx (insert name visiting) (ph_depends_on phase) st")
        (simp_all add: visit_phase.simps)
    from "1.IH" [OF False fresh phase deps "1.prems"(2)]
    obtain new where ok: "visit_ok config idx st1" and sub: "set (ph_depends_on phase) \<subseteq> vs_visited st1"
      and new: "vs_ordered st1 = vs_ordered st @ new" "set new \<inter> insert name visiting = {}" by blast
    have "name \<notin> set (vs_ordered st1)" using new False "1.prems"(2) by (auto simp: visit_ok_def)
    then have "visit_ok config idx st'"
      using ok sub phase by (auto simp: visit_ok_def st' depends_of_def intro!: topological_snoc)
    moreover have "vs_ordered st' = vs_ordered st @ (new @ [name])" "set (new @ [name]) \<inter> visiting = {}"
      using new fresh by (auto simp: st')
    ultimately show ?thesis by (auto simp: st')
  qed
next
  case (2 config idx visiting st)
  then show ?case by simp
next
  case (3 config idx visiting d ds st)
  obtain st1 where first: "visit_phase config idx visiting d st = Inr st1"
    and rest: "visit_dependencies config idx visiting ds st1 = Inr st'"
    using "3.prems"(1) by (auto split: sum.splits)
  from "3.IH"(1) [OF first "3.prems"(2)] obtain new where
    one: "visit_ok config idx st1" "d \<in> vs_visited st1" "vs_ordered st1 = vs_ordered st @ new" "set new \<inter> visiting = {}"
    by blast
  from "3.IH"(2) [OF first rest one(1)] obtain new' where
    two: "visit_ok config idx st'" "set ds \<subseteq> vs_visited st'" "vs_ordered st' = vs_ordered st1 @ new'" "set new' \<inter> visiting = {}"
    by blast
  have "d \<in> vs_visited st'" using one(1,2) two(1,3) by (auto simp: visit_ok_def)
  then show ?case using one two by (auto intro!: exI [of _ "new @ new'"])
qed

text \<open>A reported cycle is one.\<close>

definition edges :: "WorkflowConfig \<Rightarrow> (string, nat) btree \<Rightarrow> (string \<times> string) set" where
  "edges config idx = {(n, d). d \<in> set (depends_of config idx n)}"

lemma visit_error:
  "visit_phase config idx visiting name st = Inl err \<Longrightarrow> \<forall>u \<in> visiting. (u, name) \<in> (edges config idx)\<^sup>+ \<Longrightarrow>
     err = IndexPanic \<or> (\<exists>p. err = PhaseDependencyCycle p \<and> (p, p) \<in> (edges config idx)\<^sup>+)"
  "visit_dependencies config idx visiting ds st = Inl err \<Longrightarrow>
     \<forall>u \<in> visiting. \<forall>d \<in> set ds. (u, d) \<in> (edges config idx)\<^sup>+ \<Longrightarrow>
     err = IndexPanic \<or> (\<exists>p. err = PhaseDependencyCycle p \<and> (p, p) \<in> (edges config idx)\<^sup>+)"
proof (induction config idx visiting name st and config idx visiting ds st arbitrary: err and err
    rule: visit_phase_visit_dependencies.induct)
  case (1 config idx visiting name st)
  have new: "name \<notin> vs_visited st" using "1.prems"(1) by (auto simp: visit_phase.simps)
  show ?case
  proof (cases "name \<in> visiting")
    case True
    then show ?thesis using "1.prems" new by (auto simp: visit_phase.simps)
  next
    case False
    show ?thesis
    proof (cases "phase_at config idx name")
      case None
      then show ?thesis using "1.prems" new False by (simp add: visit_phase.simps)
    next
      case (Some phase)
      then have deps: "visit_dependencies config idx (insert name visiting) (ph_depends_on phase) st = Inl err"
        using "1.prems"(1) new False by (auto simp: visit_phase.simps split: sum.splits)
      have edge: "(name, d) \<in> edges config idx" if "d \<in> set (ph_depends_on phase)" for d
        using that Some by (simp add: edges_def depends_of_def)
      have "\<forall>u \<in> insert name visiting. \<forall>d \<in> set (ph_depends_on phase). (u, d) \<in> (edges config idx)\<^sup>+"
        using edge "1.prems"(2) by (blast intro: trancl_into_trancl)
      from "1.IH" [OF new False Some deps this] show ?thesis .
    qed
  qed
next
  case (2 config idx visiting st)
  then show ?case by simp
next
  case (3 config idx visiting d ds st)
  show ?case
  proof (cases "visit_phase config idx visiting d st")
    case (Inl e)
    then show ?thesis using "3.IH"(1) [OF Inl] "3.prems" by simp
  next
    case (Inr st1)
    then show ?thesis using "3.IH"(2) [OF Inr] "3.prems" by simp
  qed
qed

text \<open>Without a missing name nothing panics.\<close>

definition closed_dependencies :: "WorkflowConfig \<Rightarrow> (string, nat) btree \<Rightarrow> bool" where
  "closed_dependencies config idx \<longleftrightarrow> (\<forall>n. \<forall>d \<in> set (depends_of config idx n). phase_at config idx d \<noteq> None)"

lemma visit_no_panic:
  "closed_dependencies config idx \<Longrightarrow> phase_at config idx name \<noteq> None \<Longrightarrow>
     visit_phase config idx visiting name st \<noteq> Inl IndexPanic"
  "closed_dependencies config idx \<Longrightarrow> \<forall>d \<in> set ds. phase_at config idx d \<noteq> None \<Longrightarrow>
     visit_dependencies config idx visiting ds st \<noteq> Inl IndexPanic"
proof (induction config idx visiting name st and config idx visiting ds st rule: visit_phase_visit_dependencies.induct)
  case (1 config idx visiting name st)
  obtain phase where phase: "phase_at config idx name = Some phase" using "1.prems"(2) by blast
  have "depends_of config idx name = ph_depends_on phase" using phase by (simp add: depends_of_def)
  then have "\<forall>d \<in> set (ph_depends_on phase). phase_at config idx d \<noteq> None"
    using "1.prems"(1) unfolding closed_dependencies_def by metis
  then have "visit_dependencies config idx (insert name visiting) (ph_depends_on phase) st \<noteq> Inl IndexPanic"
    if "name \<notin> vs_visited st" "name \<notin> visiting" using "1.IH" [OF that phase "1.prems"(1)] by blast
  then show ?case using phase by (auto simp: visit_phase.simps split: sum.split)
next
  case (2 config idx visiting st)
  then show ?case by simp
next
  case (3 config idx visiting d ds st)
  show ?case
  proof (cases "visit_phase config idx visiting d st")
    case (Inl e)
    then show ?thesis using "3.IH"(1) "3.prems" by simp
  next
    case (Inr st1)
    then show ?thesis using "3.IH"(2) [OF Inr] "3.prems" by simp
  qed
qed

text \<open>An order has no cycle.\<close>

lemma topological_edge:
  assumes "topological dep xs" and "x \<in> set xs" and "y \<in> set (dep x)"
  shows "\<exists>ys zs. xs = ys @ x # zs \<and> y \<in> set ys"
proof -
  obtain ys zs where "xs = ys @ x # zs" using split_list [OF assms(2)] by blast
  then show ?thesis using assms unfolding topological_def by blast
qed

lemma topological_path:
  assumes "topological dep xs" and "(x, y) \<in> {(n, d). d \<in> set (dep n)}\<^sup>+" and "x \<in> set xs"
  shows "\<exists>ys zs. xs = ys @ x # zs \<and> y \<in> set ys"
  using assms(2)
proof (induction rule: trancl_induct)
  case (base y)
  then show ?case using topological_edge [OF assms(1,3)] by simp
next
  case (step y z)
  obtain ys zs where xs: "xs = ys @ x # zs" "y \<in> set ys" using step.IH by blast
  obtain ys1 ys2 where ys: "ys = ys1 @ y # ys2" using split_list [OF xs(2)] by blast
  have "set (dep y) \<subseteq> set ys1"
    using assms(1) xs(1) ys unfolding topological_def by (metis append.assoc append_Cons)
  then show ?case using step.hyps(2) xs ys by (intro exI [of _ ys] exI [of _ zs]) auto
qed

lemma topological_acyclic:
  assumes "topological dep xs" and "x \<in> set xs"
  shows "(x, x) \<notin> {(n, d). d \<in> set (dep n)}\<^sup>+"
proof
  assume "(x, x) \<in> {(n, d). d \<in> set (dep n)}\<^sup>+"
  from topological_path [OF assms(1) this assms(2)] obtain ys zs where "xs = ys @ x # zs" "x \<in> set ys" by blast
  then show False using assms(1) unfolding topological_def by (auto simp: distinct_append)
qed

section \<open>The maps\<close>

lemma collect_tasks_ok:
  "collect_tasks pn tasks m = Inr m' \<Longrightarrow> bt_wf (pm_all_tasks m) \<Longrightarrow> bt_wf (pm_task_phase m) \<Longrightarrow>
    dom (bt_get (pm_all_tasks m)) = dom (bt_get (pm_task_phase m)) \<Longrightarrow>
    pm_phase_indices m' = pm_phase_indices m \<and> bt_wf (pm_all_tasks m') \<and> bt_wf (pm_task_phase m')
    \<and> dom (bt_get (pm_all_tasks m')) = dom (bt_get (pm_task_phase m'))
    \<and> bt_get (pm_task_phase m') = bt_get (pm_task_phase m) ++ map_of (map (\<lambda>t. (tk_id t, pn)) tasks)
    \<and> distinct (map tk_id tasks) \<and> tk_id ` set tasks \<inter> dom (bt_get (pm_task_phase m)) = {}"
proof (induction pn tasks m rule: collect_tasks.induct)
  case (2 pn t tasks m)
  define m1 where "m1 = m\<lparr>pm_all_tasks := bt_insert (tk_id t) t (pm_all_tasks m),
    pm_task_phase := bt_insert (tk_id t) pn (pm_task_phase m)\<rparr>"
  have rest: "collect_tasks pn tasks m1 = Inr m'" and new: "bt_get (pm_all_tasks m) (tk_id t) = None"
    and valid: "validate_non_empty ''task id'' (tk_id t) = Inr ()" "validate_non_empty ''task prompt'' (tk_prompt t) = Inr ()"
    using "2.prems"(1) by (auto simp: m1_def split: sum.splits if_splits)
  have wf: "bt_wf (pm_all_tasks m1)" "bt_wf (pm_task_phase m1)"
    "bt_get (pm_task_phase m1) = (bt_get (pm_task_phase m))(tk_id t \<mapsto> pn)"
    "dom (bt_get (pm_all_tasks m1)) = dom (bt_get (pm_task_phase m1))"
    using "2.prems" by (simp_all add: m1_def bt_wf_insert bt_get_insert)
  have IH: "pm_phase_indices m' = pm_phase_indices m1 \<and> bt_wf (pm_all_tasks m') \<and> bt_wf (pm_task_phase m')
    \<and> dom (bt_get (pm_all_tasks m')) = dom (bt_get (pm_task_phase m'))
    \<and> bt_get (pm_task_phase m') = bt_get (pm_task_phase m1) ++ map_of (map (\<lambda>t. (tk_id t, pn)) tasks)
    \<and> distinct (map tk_id tasks) \<and> tk_id ` set tasks \<inter> dom (bt_get (pm_task_phase m1)) = {}"
    using "2.IH" [OF valid] new rest wf by (simp add: m1_def)
  have fresh: "tk_id t \<notin> tk_id ` set tasks" using IH wf(3) by auto
  then have "tk_id t \<notin> dom (map_of (map (\<lambda>t. (tk_id t, pn)) tasks))"
    by (simp add: dom_map_of_conv_image_fst image_image)
  then have "(bt_get (pm_task_phase m))(tk_id t \<mapsto> pn) ++ map_of (map (\<lambda>t. (tk_id t, pn)) tasks)
      = bt_get (pm_task_phase m) ++ map_of (map (\<lambda>t. (tk_id t, pn)) (t # tasks))"
    by (simp add: map_add_upd_left)
  then have eq: "bt_get (pm_task_phase m') = bt_get (pm_task_phase m) ++ map_of (map (\<lambda>t. (tk_id t, pn)) (t # tasks))"
    using IH wf(3) by (simp only:)
  have "tk_id t \<notin> dom (bt_get (pm_task_phase m))" using new "2.prems"(4) by (metis domIff)
  moreover have "tk_id ` set tasks \<inter> dom (bt_get (pm_task_phase m)) = {}" using IH wf(3) by auto
  ultimately have dis: "tk_id ` set (t # tasks) \<inter> dom (bt_get (pm_task_phase m)) = {}" by auto
  have "pm_phase_indices m' = pm_phase_indices m" using IH by (simp add: m1_def)
  moreover have "distinct (map tk_id (t # tasks))" using IH fresh by simp
  ultimately show ?case using IH eq dis by blast
qed simp

definition task_pairs :: "Phase list \<Rightarrow> (string \<times> string) list" where
  "task_pairs phases = concat (map (\<lambda>p. map (\<lambda>t. (tk_id t, ph_name p)) (ph_tasks p)) phases)"

lemma collect_phases_ok:
  "collect_phases i phases m = Inr m' \<Longrightarrow> bt_wf (pm_phase_indices m) \<Longrightarrow> bt_wf (pm_all_tasks m) \<Longrightarrow> bt_wf (pm_task_phase m) \<Longrightarrow>
    dom (bt_get (pm_all_tasks m)) = dom (bt_get (pm_task_phase m)) \<Longrightarrow>
    bt_get (pm_phase_indices m') = bt_get (pm_phase_indices m) ++ map_of (zip (map ph_name phases) [i ..< i + length phases])
    \<and> distinct (map ph_name phases) \<and> ph_name ` set phases \<inter> dom (bt_get (pm_phase_indices m)) = {}
    \<and> bt_get (pm_task_phase m') = bt_get (pm_task_phase m) ++ map_of (task_pairs phases)
    \<and> distinct (map fst (task_pairs phases)) \<and> fst ` set (task_pairs phases) \<inter> dom (bt_get (pm_task_phase m)) = {}"
proof (induction i phases m rule: collect_phases.induct)
  case (2 i p phases m)
  define m1 where "m1 = m\<lparr>pm_phase_indices := bt_insert (ph_name p) i (pm_phase_indices m)\<rparr>"
  have valid: "validate_non_empty ''phase name'' (ph_name p) = Inr ()" and tasks: "ph_tasks p \<noteq> []"
    and new: "bt_get (pm_phase_indices m) (ph_name p) = None"
    using "2.prems"(1) by (auto split: sum.splits if_splits)
  obtain m2 where m2: "collect_tasks (ph_name p) (ph_tasks p) m1 = Inr m2" and rest: "collect_phases (i + 1) phases m2 = Inr m'"
    using "2.prems"(1) valid tasks new by (auto simp: m1_def split: sum.splits)
  note step = collect_tasks_ok [OF m2]
  have step': "pm_phase_indices m2 = pm_phase_indices m1" "bt_wf (pm_all_tasks m2)" "bt_wf (pm_task_phase m2)"
    "dom (bt_get (pm_all_tasks m2)) = dom (bt_get (pm_task_phase m2))"
    "bt_get (pm_task_phase m2) = bt_get (pm_task_phase m) ++ map_of (map (\<lambda>t. (tk_id t, ph_name p)) (ph_tasks p))"
    "distinct (map tk_id (ph_tasks p))" "tk_id ` set (ph_tasks p) \<inter> dom (bt_get (pm_task_phase m)) = {}"
    using step "2.prems" by (simp_all add: m1_def)
  have idx: "bt_wf (pm_phase_indices m2)" "bt_get (pm_phase_indices m2) = (bt_get (pm_phase_indices m))(ph_name p \<mapsto> i)"
    using "2.prems"(2) by (simp_all add: step'(1) m1_def bt_wf_insert bt_get_insert)
  have IH: "bt_get (pm_phase_indices m') = bt_get (pm_phase_indices m2) ++ map_of (zip (map ph_name phases) [i + 1 ..< i + 1 + length phases])
    \<and> distinct (map ph_name phases) \<and> ph_name ` set phases \<inter> dom (bt_get (pm_phase_indices m2)) = {}
    \<and> bt_get (pm_task_phase m') = bt_get (pm_task_phase m2) ++ map_of (task_pairs phases)
    \<and> distinct (map fst (task_pairs phases)) \<and> fst ` set (task_pairs phases) \<inter> dom (bt_get (pm_task_phase m2)) = {}"
    using "2.IH" [OF valid tasks _ m2 [unfolded m1_def]] new rest idx(1) step'(2-4) by simp
  have fresh: "ph_name p \<notin> ph_name ` set phases" using IH idx(2) by auto
  have "(bt_get (pm_phase_indices m))(ph_name p \<mapsto> i) ++ map_of (zip (map ph_name phases) [i + 1 ..< i + 1 + length phases])
      = bt_get (pm_phase_indices m) ++ map_of (zip (map ph_name (p # phases)) [i ..< i + length (p # phases)])"
    using fresh by (subst map_add_upd_left) (simp_all add: upt_conv_Cons del: upt_Suc)
  moreover have "ph_name p \<notin> dom (bt_get (pm_phase_indices m))" using new by (simp add: domIff)
  moreover have pairs: "task_pairs (p # phases) = map (\<lambda>t. (tk_id t, ph_name p)) (ph_tasks p) @ task_pairs phases"
    by (simp add: task_pairs_def)
  have dom2: "dom (bt_get (pm_task_phase m2)) = dom (bt_get (pm_task_phase m)) \<union> tk_id ` set (ph_tasks p)"
    by (auto simp: step'(5) dom_map_of_conv_image_fst image_image)
  have "bt_get (pm_task_phase m2) ++ map_of (task_pairs phases) = bt_get (pm_task_phase m) ++ map_of (task_pairs (p # phases))"
  proof -
    have "map_of (task_pairs (p # phases)) = map_of (map (\<lambda>t. (tk_id t, ph_name p)) (ph_tasks p)) ++ map_of (task_pairs phases)"
      unfolding pairs map_of_append
      using IH dom2 by (intro map_add_comm) (auto simp: dom_map_of_conv_image_fst image_image)
    then show ?thesis by (simp add: step'(5))
  qed
  moreover have "distinct (map fst (task_pairs (p # phases)))"
    using IH dom2 step'(6) by (auto simp: pairs comp_def)
  moreover have "fst ` set (task_pairs (p # phases)) \<inter> dom (bt_get (pm_task_phase m)) = {}"
    using IH dom2 step'(7) by (auto simp: pairs image_image)
  ultimately show ?case using IH idx(2) fresh by auto
qed (simp add: task_pairs_def)

section \<open>Checks\<close>

lemma bt_get_positions:
  assumes "distinct names"
  shows "bt_get (positions names) = map_of (zip names [0 ..< length names])"
proof -
  have "bt_wf m \<Longrightarrow> distinct names \<Longrightarrow> bt_get (fold (\<lambda>(i, name) m. bt_insert name i m) (enumerate k names) m)
      = bt_get m ++ map_of (zip names [k ..< k + length names])" for k and m :: "(string, nat) btree"
  proof (induction names arbitrary: k m)
    case (Cons n names)
    have "(bt_get m)(n \<mapsto> k) ++ map_of (zip names [Suc k ..< Suc k + length names])
        = bt_get m ++ map_of (zip (n # names) [k ..< k + length (n # names)])"
      using Cons.prems(2) by (subst map_add_upd_left) (auto simp: upt_conv_Cons simp del: upt_Suc dest: set_zip_leftD)
    then show ?case using Cons.IH [of "bt_insert n k m" "Suc k"] Cons.prems by (simp add: bt_wf_insert bt_get_insert fun_upd_def del: upt_Suc)
  qed simp
  from this [of "[]" 0] show ?thesis using assms by (simp add: positions_def bt.wf_empty)
qed

lemma map_of_positions:
  assumes "distinct names" and "map_of (zip names [0 ..< length names]) n = Some i"
  shows "i < length names \<and> names ! i = n"
  using map_of_SomeD [OF assms(2)] by (auto simp: in_set_zip)

lemma check_phases_ok:
  "check_phases idx phases = Inr () \<Longrightarrow> p \<in> set phases \<Longrightarrow>
     validate_parallel_write_scope p = Inr () \<and> (\<forall>d \<in> set (ph_depends_on p). d \<noteq> ph_name p \<and> bt_get idx d \<noteq> None)"
  by (induction idx phases rule: check_phases.induct)
    (auto simp: find_None_iff split: option.splits sum.splits)

lemma check_results_ok:
  "check_results tp po phase task ds = Inr () \<Longrightarrow> d \<in> set ds \<Longrightarrow>
     \<exists>dp i j. bt_get tp d = Some dp \<and> bt_get po dp = Some i \<and> bt_get po phase = Some j \<and> i < j"
  by (induction tp po phase task ds rule: check_results.induct) (auto split: option.splits if_splits)

lemma check_tasks_ok:
  "check_tasks tp po phase tasks = Inr () \<Longrightarrow> t \<in> set tasks \<Longrightarrow> d \<in> set (tk_depends_on_results t) \<Longrightarrow>
     \<exists>dp i j. bt_get tp d = Some dp \<and> bt_get po dp = Some i \<and> bt_get po phase = Some j \<and> i < j"
  by (induction tp po phase tasks rule: check_tasks.induct) (auto split: sum.splits dest: check_results_ok)

lemma check_all_tasks_ok:
  "check_all_tasks tp po phases = Inr () \<Longrightarrow> p \<in> set phases \<Longrightarrow> t \<in> set (ph_tasks p) \<Longrightarrow> d \<in> set (tk_depends_on_results t) \<Longrightarrow>
     \<exists>dp i j. bt_get tp d = Some dp \<and> bt_get po dp = Some i \<and> bt_get po (ph_name p) = Some j \<and> i < j"
  by (induction tp po phases rule: check_all_tasks.induct) (auto split: sum.splits dest: check_tasks_ok)

lemma collected_indices:
  assumes "collect_phases 0 (wc_phases config) \<lparr>pm_phase_indices = [], pm_all_tasks = [], pm_task_phase = []\<rparr> = Inr m"
  shows "distinct (map ph_name (wc_phases config))"
    and "phase_at config (pm_phase_indices m) n = Some p \<longleftrightarrow> p \<in> set (wc_phases config) \<and> ph_name p = n"
    and "bt_get (pm_phase_indices m) n \<noteq> None \<longleftrightarrow> n \<in> ph_name ` set (wc_phases config)"
    and "bt_get (pm_task_phase m) = map_of (task_pairs (wc_phases config))"
    and "distinct (map fst (task_pairs (wc_phases config)))"
proof -
  note ok = collect_phases_ok [OF assms, simplified, OF bt.wf_empty bt.wf_empty bt.wf_empty]
  have idx: "bt_get (pm_phase_indices m) = map_of (zip (map ph_name (wc_phases config)) [0 ..< length (map ph_name (wc_phases config))])"
    using ok by simp
  show dist: "distinct (map ph_name (wc_phases config))" using ok by simp
  show "bt_get (pm_task_phase m) = map_of (task_pairs (wc_phases config))" using ok by simp
  show "distinct (map fst (task_pairs (wc_phases config)))" using ok by simp
  show "bt_get (pm_phase_indices m) n \<noteq> None \<longleftrightarrow> n \<in> ph_name ` set (wc_phases config)"
    unfolding idx by (simp add: map_of_eq_None_iff flip: set_map)
  show "phase_at config (pm_phase_indices m) n = Some p \<longleftrightarrow> p \<in> set (wc_phases config) \<and> ph_name p = n"
  proof
    assume "phase_at config (pm_phase_indices m) n = Some p"
    then obtain i where "bt_get (pm_phase_indices m) n = Some i" "i < length (wc_phases config)" "wc_phases config ! i = p"
      by (auto simp: phase_at_def split: option.splits if_splits)
    then show "p \<in> set (wc_phases config) \<and> ph_name p = n"
      using map_of_positions [OF dist, of n i] idx by auto
  next
    assume *: "p \<in> set (wc_phases config) \<and> ph_name p = n"
    then obtain i where i: "i < length (wc_phases config)" "wc_phases config ! i = p" by (auto simp: in_set_conv_nth)
    have "bt_get (pm_phase_indices m) n = Some i"
      unfolding idx using dist i * by (intro map_of_is_SomeI) (auto simp: in_set_zip intro!: exI [of _ i])
    then show "phase_at config (pm_phase_indices m) n = Some p" using i by (simp add: phase_at_def)
  qed
qed

text \<open>The stages of a compilation that succeeds.\<close>

lemma from_config_ok:
  assumes "from_config config = Inr plan"
  obtains m names where
    "collect_phases 0 (wc_phases config) \<lparr>pm_phase_indices = [], pm_all_tasks = [], pm_task_phase = []\<rparr> = Inr m"
    "check_phases (pm_phase_indices m) (wc_phases config) = Inr ()"
    "ordered_phases config (pm_phase_indices m) = Inr names"
    "check_all_tasks (pm_task_phase m) (positions names) (wc_phases config) = Inr ()"
    "wp_phases plan = map (\<lambda>name. plan_of (the (phase_at config (pm_phase_indices m) name))) names"
  using assms by (auto simp: from_config_def split: sum.splits if_splits)

lemma ordered_phases_ok:
  assumes "collect_phases 0 (wc_phases config) \<lparr>pm_phase_indices = [], pm_all_tasks = [], pm_task_phase = []\<rparr> = Inr m"
    and "ordered_phases config (pm_phase_indices m) = Inr names"
  shows "topological (depends_of config (pm_phase_indices m)) names" and "set names = ph_name ` set (wc_phases config)"
proof -
  obtain st where st: "visit_dependencies config (pm_phase_indices m) {} (map ph_name (wc_phases config))
      \<lparr>vs_visited = {}, vs_ordered = []\<rparr> = Inr st" "names = vs_ordered st"
    using assms(2) by (auto simp: ordered_phases_def split: sum.splits)
  have "visit_ok config (pm_phase_indices m) \<lparr>vs_visited = {}, vs_ordered = []\<rparr>" by (simp add: visit_ok_def)
  from visit_success(2) [OF st(1) this]
  have ok: "visit_ok config (pm_phase_indices m) st" "ph_name ` set (wc_phases config) \<subseteq> set names"
    by (auto simp: visit_ok_def st(2))
  show "topological (depends_of config (pm_phase_indices m)) names" using ok(1) by (simp add: visit_ok_def st(2))
  have "n \<in> ph_name ` set (wc_phases config)" if "n \<in> set names" for n
    using ok(1) that collected_indices(2) [OF assms(1)] by (auto simp: visit_ok_def st(2) list_all_iff)
  then show "set names = ph_name ` set (wc_phases config)" using ok(2) by blast
qed

text \<open>A plan is the configured phases in an order of their names.\<close>

lemma plan_in_order:
  assumes "from_config config = Inr plan"
  obtains m :: PlanMaps and names phase_of where
    "check_phases (pm_phase_indices m) (wc_phases config) = Inr ()"
    "check_all_tasks (pm_task_phase m) (positions names) (wc_phases config) = Inr ()"
    "bt_get (pm_task_phase m) = map_of (task_pairs (wc_phases config))"
    "distinct names" "set names = ph_name ` set (wc_phases config)" "distinct (map ph_name (wc_phases config))"
    "\<forall>p \<in> set (wc_phases config). phase_of (ph_name p) = p"
    "\<forall>ns n ns'. names = ns @ n # ns' \<longrightarrow> set (ph_depends_on (phase_of n)) \<subseteq> set ns"
    "wp_phases plan = map (\<lambda>n. plan_of (phase_of n)) names"
proof -
  from from_config_ok [OF assms] obtain m names where
    stages: "collect_phases 0 (wc_phases config) \<lparr>pm_phase_indices = [], pm_all_tasks = [], pm_task_phase = []\<rparr> = Inr m"
      "check_phases (pm_phase_indices m) (wc_phases config) = Inr ()"
      "ordered_phases config (pm_phase_indices m) = Inr names"
      "check_all_tasks (pm_task_phase m) (positions names) (wc_phases config) = Inr ()"
    and plan: "wp_phases plan = map (\<lambda>name. plan_of (the (phase_at config (pm_phase_indices m) name))) names" .
  define phase_of where "phase_of n = the (phase_at config (pm_phase_indices m) n)" for n
  note idx = collected_indices [OF stages(1)] and order = ordered_phases_ok [OF stages(1,3)]
  have phase_of: "phase_of (ph_name p) = p" if "p \<in> set (wc_phases config)" for p
    using idx(2) [of "ph_name p" p] that by (simp add: phase_of_def)
  have deps: "set (ph_depends_on (phase_of n)) \<subseteq> set ns" if split: "names = ns @ n # ns'" for ns n ns'
  proof -
    have "n \<in> ph_name ` set (wc_phases config)" using order(2) split by auto
    then obtain p where p: "p \<in> set (wc_phases config)" "ph_name p = n" by blast
    then have "phase_at config (pm_phase_indices m) n = Some (phase_of n)" using idx(2) [of n p] phase_of [OF p(1)] by simp
    then have "ph_depends_on (phase_of n) = depends_of config (pm_phase_indices m) n" by (simp add: depends_of_def)
    moreover have "set (depends_of config (pm_phase_indices m) n) \<subseteq> set ns"
      using order(1) split unfolding topological_def by blast
    ultimately show ?thesis by simp
  qed
  have dist: "distinct names" using order(1) by (simp add: topological_def)
  have "wp_phases plan = map (\<lambda>n. plan_of (phase_of n)) names" using plan by (simp add: phase_of_def)
  with that [of m names phase_of, OF stages(2,4) idx(4) dist order(2) idx(1)] phase_of deps show ?thesis by blast
qed

lemma plan_runs_every_phase:
  assumes "from_config config = Inr plan"
  shows "mset (wp_phases plan) = mset (map plan_of (wc_phases config))"
proof -
  from plan_in_order [OF assms] obtain m :: PlanMaps and names phase_of where
    stages: "check_phases (pm_phase_indices m) (wc_phases config) = Inr ()"
      "check_all_tasks (pm_task_phase m) (positions names) (wc_phases config) = Inr ()"
      "bt_get (pm_task_phase m) = map_of (task_pairs (wc_phases config))"
    and names_ok: "distinct names" "set names = ph_name ` set (wc_phases config)" "distinct (map ph_name (wc_phases config))"
    and phase_of: "\<forall>p \<in> set (wc_phases config). phase_of (ph_name p) = p"
    and deps: "\<forall>ns n ns'. names = ns @ n # ns' \<longrightarrow> set (ph_depends_on (phase_of n)) \<subseteq> set ns"
    and plan: "wp_phases plan = map (\<lambda>n. plan_of (phase_of n)) names" .
  have "mset names = mset (map ph_name (wc_phases config))"
    using names_ok by (intro set_eq_iff_mset_eq_distinct [THEN iffD1]) auto
  then have "mset (wp_phases plan) = mset (map (\<lambda>n. plan_of (phase_of n)) (map ph_name (wc_phases config)))"
    by (simp add: plan multiset.map_comp comp_def)
  also have "map (\<lambda>n. plan_of (phase_of n)) (map ph_name (wc_phases config)) = map plan_of (wc_phases config)"
    using phase_of by simp
  finally show ?thesis .
qed

text \<open>The phase that gives a result stands before the phase that uses it.\<close>

lemma result_phase_before:
  assumes "check_all_tasks (pm_task_phase m) (positions names) (wc_phases config) = Inr ()"
    and "bt_get (pm_task_phase m) = map_of (task_pairs (wc_phases config))" and "distinct names"
    and split: "names = ns @ ph_name p # ns'" and p: "p \<in> set (wc_phases config)"
    and t: "t \<in> set (ph_tasks p)" and d: "d \<in> set (tk_depends_on_results t)"
  shows "\<exists>q \<in> set (wc_phases config). ph_name q \<in> set ns \<and> d \<in> tk_id ` set (ph_tasks q)"
proof -
  from check_all_tasks_ok [OF assms(1) p t d] obtain dp i j where
    res: "bt_get (pm_task_phase m) d = Some dp" "bt_get (positions names) dp = Some i"
      "bt_get (positions names) (ph_name p) = Some j" "i < j" by auto
  note at = map_of_positions [OF assms(3)] and pos = bt_get_positions [OF assms(3)]
  have i: "i < length names" "names ! i = dp" using at res(2) pos by auto
  have j: "j < length names" "names ! j = ph_name p" using at res(3) pos by auto
  have "names ! length ns = ph_name p" "length ns < length names" using split by simp_all
  then have "j = length ns" using j assms(3) by (metis nth_eq_iff_index_eq)
  then have dp: "dp \<in> set ns" using i(2) res(4) split by (auto simp: nth_append)
  have "(d, dp) \<in> set (task_pairs (wc_phases config))" using res(1) assms(2) by (simp add: map_of_SomeD)
  then show ?thesis using dp by (auto simp: task_pairs_def)
qed

section \<open>Guarantees\<close>

text \<open>C28. A compiled plan runs every configured phase exactly once, each behind all phases it depends on, and a task
  uses only results of tasks in earlier phases.\<close>

theorem plan_respects_dependencies:
  assumes "from_config config = Inr plan"
  shows "mset (wp_phases plan) = mset (map plan_of (wc_phases config))
    \<and> (\<forall>before p after. wp_phases plan = before @ p # after \<longrightarrow>
         (\<exists>phase \<in> set (wc_phases config). p = plan_of phase \<and> set (ph_depends_on phase) \<subseteq> pp_name ` set before)
         \<and> (\<forall>t \<in> set (pp_tasks p). \<forall>d \<in> set (tk_depends_on_results t). \<exists>q \<in> set before. d \<in> tk_id ` set (pp_tasks q)))"
proof (intro conjI plan_runs_every_phase [OF assms] allI impI)
  fix before p after
  assume split: "wp_phases plan = before @ p # after"
  from plan_in_order [OF assms] obtain m :: PlanMaps and names phase_of where
    stages: "check_phases (pm_phase_indices m) (wc_phases config) = Inr ()"
      "check_all_tasks (pm_task_phase m) (positions names) (wc_phases config) = Inr ()"
      "bt_get (pm_task_phase m) = map_of (task_pairs (wc_phases config))"
    and names_ok: "distinct names" "set names = ph_name ` set (wc_phases config)" "distinct (map ph_name (wc_phases config))"
    and phase_of: "\<forall>p \<in> set (wc_phases config). phase_of (ph_name p) = p"
    and deps: "\<forall>ns n ns'. names = ns @ n # ns' \<longrightarrow> set (ph_depends_on (phase_of n)) \<subseteq> set ns"
    and plan: "wp_phases plan = map (\<lambda>n. plan_of (phase_of n)) names" .
  have named: "phase_of n \<in> set (wc_phases config) \<and> ph_name (phase_of n) = n" if "n \<in> set names" for n
    using that names_ok(2) phase_of by auto
  obtain ns n ns' where names: "names = ns @ n # ns'" and before: "before = map (\<lambda>n. plan_of (phase_of n)) ns"
    and p: "p = plan_of (phase_of n)"
    using split plan by (auto simp: map_eq_append_conv map_eq_Cons_conv)
  have n: "phase_of n \<in> set (wc_phases config)" "ph_name (phase_of n) = n" using named [of n] names by simp_all
  have "pp_name (plan_of (phase_of k)) = k" if "k \<in> set ns" for k using named [of k] that names by (simp add: plan_of_def)
  then have "pp_name ` set before = set ns" by (force simp: before image_iff)
  then show "\<exists>phase \<in> set (wc_phases config). p = plan_of phase \<and> set (ph_depends_on phase) \<subseteq> pp_name ` set before"
    using n(1) deps names p by blast
  show "\<forall>t \<in> set (pp_tasks p). \<forall>d \<in> set (tk_depends_on_results t). \<exists>q \<in> set before. d \<in> tk_id ` set (pp_tasks q)"
  proof (intro ballI)
    fix t d
    assume "t \<in> set (pp_tasks p)" "d \<in> set (tk_depends_on_results t)"
    then obtain q where q: "q \<in> set (wc_phases config)" "ph_name q \<in> set ns" "d \<in> tk_id ` set (ph_tasks q)"
      using result_phase_before [OF stages(2,3) names_ok(1) _ n(1), of ns ns' t d] names n(2) by (auto simp: p plan_of_def)
    then have "plan_of q \<in> set before" using bspec [OF phase_of q(1)] q(2) by (force simp: before)
    moreover have "d \<in> tk_id ` set (pp_tasks (plan_of q))" using q(3) by (simp add: plan_of_def)
    ultimately show "\<exists>q \<in> set before. d \<in> tk_id ` set (pp_tasks q)" by blast
  qed
qed

text \<open>The configuration of the witnesses: two phases in the wrong order, the second with two parallel writers.\<close>

definition sample_task :: "string \<Rightarrow> string list \<Rightarrow> string list \<Rightarrow> Task" where
  "sample_task t scope results = \<lparr>tk_id = t, tk_prompt = ''go'', tk_agent_type = Implementer, tk_mode = ReadWrite,
     tk_isolation = SharedCheckout, tk_file_scope = scope, tk_depends_on_results = results, tk_max_steps = None, tk_timeout_secs = None\<rparr>"

definition sample_build :: Phase where
  "sample_build = \<lparr>ph_name = ''build'', ph_description = None, ph_depends_on = [''scan''], ph_parallel = True, ph_on_failure = Abort,
     ph_tasks = [sample_task ''a'' [''src/a''] [''s''], sample_task ''b'' [''src/b''] []]\<rparr>"

definition sample_scan :: Phase where
  "sample_scan = \<lparr>ph_name = ''scan'', ph_description = None, ph_depends_on = [], ph_parallel = False, ph_on_failure = Abort,
     ph_tasks = [sample_task ''s'' [] []]\<rparr>"

definition sample_config :: WorkflowConfig where
  "sample_config = \<lparr>wc_goal = ''ship'', wc_max_concurrent = 2, wc_description = None, wc_phases = [sample_build, sample_scan]\<rparr>"

definition sample_plan :: WorkflowPlan where
  "sample_plan = \<lparr>wp_goal = ''ship'', wp_max_concurrent = 2, wp_phases = [plan_of sample_scan, plan_of sample_build]\<rparr>"

lemma sample_compiles: "from_config sample_config = Inr sample_plan"
  by code_simp

lemma plan_respects_dependencies_witness:
  "mset (wp_phases sample_plan) = mset (map plan_of (wc_phases sample_config))
    \<and> (\<exists>phase \<in> set (wc_phases sample_config). plan_of sample_build = plan_of phase \<and> set (ph_depends_on phase) \<subseteq> {''scan''})"
proof -
  note ok = plan_respects_dependencies [OF sample_compiles]
  have "wp_phases sample_plan = [plan_of sample_scan] @ plan_of sample_build # []" by (simp add: sample_plan_def)
  from conjunct2 [OF ok, rule_format, OF this] have
    "\<exists>phase \<in> set (wc_phases sample_config). plan_of sample_build = plan_of phase \<and> set (ph_depends_on phase) \<subseteq> pp_name ` set [plan_of sample_scan]"
    by blast
  moreover have "pp_name ` set [plan_of sample_scan] = {''scan''}" by (simp add: plan_of_def sample_scan_def)
  ultimately show ?thesis using conjunct1 [OF ok] by simp
qed

section \<open>Cycles\<close>

definition dependencies :: "WorkflowConfig \<Rightarrow> (string \<times> string) set" where
  "dependencies config = {(ph_name p, d) | p d. p \<in> set (wc_phases config) \<and> d \<in> set (ph_depends_on p)}"

lemma edges_dependencies:
  assumes "collect_phases 0 (wc_phases config) \<lparr>pm_phase_indices = [], pm_all_tasks = [], pm_task_phase = []\<rparr> = Inr m"
  shows "edges config (pm_phase_indices m) = dependencies config"
proof -
  have "d \<in> set (depends_of config (pm_phase_indices m) n) \<longleftrightarrow> (n, d) \<in> dependencies config" for n d
  proof (cases "phase_at config (pm_phase_indices m) n")
    case None
    then have "n \<noteq> ph_name p" if "p \<in> set (wc_phases config)" for p
      using collected_indices(2) [OF assms, of n p] that None by simp
    then show ?thesis using None by (auto simp: depends_of_def dependencies_def)
  next
    case (Some p)
    then have p: "p \<in> set (wc_phases config)" "ph_name p = n" using collected_indices(2) [OF assms, of n p] by simp_all
    have only: "q = p" if "q \<in> set (wc_phases config)" "ph_name q = n" for q
      using Some collected_indices(2) [OF assms, of n q] that by simp
    have "depends_of config (pm_phase_indices m) n = ph_depends_on p" using Some by (simp add: depends_of_def)
    moreover have "(n, d) \<in> dependencies config \<longleftrightarrow> d \<in> set (ph_depends_on p)"
    proof
      assume "(n, d) \<in> dependencies config"
      then obtain q where "q \<in> set (wc_phases config)" "ph_name q = n" "d \<in> set (ph_depends_on q)"
        unfolding dependencies_def by blast
      then show "d \<in> set (ph_depends_on p)" using only by blast
    next
      assume "d \<in> set (ph_depends_on p)"
      then show "(n, d) \<in> dependencies config" using p unfolding dependencies_def by blast
    qed
    ultimately show ?thesis by simp
  qed
  then show ?thesis by (auto simp: edges_def)
qed

lemma order_acyclic:
  assumes "collect_phases 0 (wc_phases config) \<lparr>pm_phase_indices = [], pm_all_tasks = [], pm_task_phase = []\<rparr> = Inr m"
    and "ordered_phases config (pm_phase_indices m) = Inr names"
  shows "acyclic (dependencies config)"
proof (unfold acyclic_def, intro allI notI)
  fix n
  assume cycle: "(n, n) \<in> (dependencies config)\<^sup>+"
  then obtain d where "(n, d) \<in> dependencies config" by (meson tranclD)
  then have "n \<in> set names" using ordered_phases_ok(2) [OF assms] by (auto simp: dependencies_def)
  from topological_acyclic [OF ordered_phases_ok(1) [OF assms] this] show False
    using cycle edges_dependencies [OF assms(1)] by (simp add: edges_def)
qed

lemma order_cyclic:
  assumes "collect_phases 0 (wc_phases config) \<lparr>pm_phase_indices = [], pm_all_tasks = [], pm_task_phase = []\<rparr> = Inr m"
    and "check_phases (pm_phase_indices m) (wc_phases config) = Inr ()"
    and "ordered_phases config (pm_phase_indices m) = Inl err"
  shows "\<exists>p. err = PhaseDependencyCycle p \<and> (p, p) \<in> (dependencies config)\<^sup>+"
proof -
  have known: "phase_at config (pm_phase_indices m) n \<noteq> None" if "n \<in> ph_name ` set (wc_phases config)" for n
    using that collected_indices(2) [OF assms(1), of n] by auto
  have "closed_dependencies config (pm_phase_indices m)"
    unfolding closed_dependencies_def
  proof (intro allI ballI)
    fix n d
    assume "d \<in> set (depends_of config (pm_phase_indices m) n)"
    then obtain p where "p \<in> set (wc_phases config)" "d \<in> set (ph_depends_on p)"
      using edges_dependencies [OF assms(1)] by (auto simp: edges_def dependencies_def set_eq_iff)
    then have "bt_get (pm_phase_indices m) d \<noteq> None" using check_phases_ok [OF assms(2)] by blast
    then show "phase_at config (pm_phase_indices m) d \<noteq> None" using known collected_indices(3) [OF assms(1)] by blast
  qed
  moreover have run: "visit_dependencies config (pm_phase_indices m) {} (map ph_name (wc_phases config))
      \<lparr>vs_visited = {}, vs_ordered = []\<rparr> = Inl err"
    using assms(3) by (auto simp: ordered_phases_def split: sum.splits)
  ultimately have "err \<noteq> IndexPanic" using visit_no_panic(2) known by fastforce
  then show ?thesis using visit_error(2) [OF run] edges_dependencies [OF assms(1)] by auto
qed

text \<open>Only the visit reports a cycle.\<close>

lemma collect_tasks_err:
  "collect_tasks pn tasks m = Inl err \<Longrightarrow> err \<noteq> IndexPanic \<and> (\<forall>p. err \<noteq> PhaseDependencyCycle p)"
  by (induction pn tasks m rule: collect_tasks.induct) (auto simp: validate_non_empty_def split: if_splits sum.splits)

lemma collect_phases_err:
  "collect_phases i phases m = Inl err \<Longrightarrow> err \<noteq> IndexPanic \<and> (\<forall>p. err \<noteq> PhaseDependencyCycle p)"
  by (induction i phases m rule: collect_phases.induct)
    (auto simp: validate_non_empty_def split: if_splits sum.splits dest: collect_tasks_err)

lemma check_phases_err:
  "check_phases idx phases = Inl err \<Longrightarrow> err \<noteq> IndexPanic \<and> (\<forall>p. err \<noteq> PhaseDependencyCycle p)"
  by (induction idx phases rule: check_phases.induct)
    (auto simp: validate_parallel_write_scope_def Let_def split: if_splits sum.splits option.splits)

lemma check_results_err:
  "check_results tp po phase task ds = Inl err \<Longrightarrow> bt_get po phase \<noteq> None \<Longrightarrow>
     \<forall>d dp. bt_get tp d = Some dp \<longrightarrow> bt_get po dp \<noteq> None \<Longrightarrow> err \<noteq> IndexPanic \<and> (\<forall>p. err \<noteq> PhaseDependencyCycle p)"
  by (induction tp po phase task ds rule: check_results.induct)
    (auto split: option.splits if_splits, metis option.distinct(1))

lemma check_tasks_err:
  "check_tasks tp po phase tasks = Inl err \<Longrightarrow> bt_get po phase \<noteq> None \<Longrightarrow>
     \<forall>d dp. bt_get tp d = Some dp \<longrightarrow> bt_get po dp \<noteq> None \<Longrightarrow> err \<noteq> IndexPanic \<and> (\<forall>p. err \<noteq> PhaseDependencyCycle p)"
  by (induction tp po phase tasks rule: check_tasks.induct) (auto split: sum.splits dest: check_results_err)

lemma check_all_tasks_err:
  "check_all_tasks tp po phases = Inl err \<Longrightarrow> \<forall>p \<in> set phases. bt_get po (ph_name p) \<noteq> None \<Longrightarrow>
     \<forall>d dp. bt_get tp d = Some dp \<longrightarrow> bt_get po dp \<noteq> None \<Longrightarrow> err \<noteq> IndexPanic \<and> (\<forall>p. err \<noteq> PhaseDependencyCycle p)"
  by (induction tp po phases rule: check_all_tasks.induct) (auto split: sum.splits dest: check_tasks_err)

lemma positions_known:
  assumes "distinct names" and "n \<in> set names"
  shows "bt_get (positions names) n \<noteq> None"
  using assms(2) unfolding bt_get_positions [OF assms(1)] by (simp add: map_of_eq_None_iff flip: set_map)

text \<open>The outcomes of a compilation after the maps are built.\<close>

lemma from_config_outcome:
  "(\<exists>p. from_config config = Inl (PhaseDependencyCycle p) \<and> (p, p) \<in> (dependencies config)\<^sup>+)
   \<or> (\<exists>err. from_config config = Inl err \<and> err \<noteq> IndexPanic \<and> (\<forall>p. err \<noteq> PhaseDependencyCycle p))
   \<or> (\<exists>plan. from_config config = Inr plan \<and> acyclic (dependencies config))"
proof -
  define start where "start = \<lparr>pm_phase_indices = [] :: (string, nat) btree, pm_all_tasks = [] :: (string, Task) btree,
    pm_task_phase = [] :: (string, string) btree\<rparr>"
  have plain: ?thesis if "from_config config = Inl err" "err \<noteq> IndexPanic \<and> (\<forall>p. err \<noteq> PhaseDependencyCycle p)" for err
    using that by blast
  show ?thesis
  proof (cases "trim (wc_goal config) = [] \<or> \<not> (1 \<le> wc_max_concurrent config \<and> wc_max_concurrent config \<le> 20) \<or> wc_phases config = []")
    case True
    then show ?thesis by (auto simp: from_config_def validate_non_empty_def)
  next
    case False
    then have unfolded: "from_config config = (case collect_phases 0 (wc_phases config) start of
        Inl err \<Rightarrow> Inl err
      | Inr m \<Rightarrow>
      case check_phases (pm_phase_indices m) (wc_phases config) of Inl err \<Rightarrow> Inl err | Inr _ \<Rightarrow>
      case ordered_phases config (pm_phase_indices m) of
        Inl err \<Rightarrow> Inl err
      | Inr names \<Rightarrow>
      case check_all_tasks (pm_task_phase m) (positions names) (wc_phases config) of
        Inl err \<Rightarrow> Inl err
      | Inr _ \<Rightarrow>
          if list_ex (\<lambda>name. phase_at config (pm_phase_indices m) name = None) names then Inl IndexPanic
          else Inr \<lparr>wp_goal = wc_goal config, wp_max_concurrent = wc_max_concurrent config,
                    wp_phases = map (\<lambda>name. plan_of (the (phase_at config (pm_phase_indices m) name))) names\<rparr>)"
      by (simp add: from_config_def validate_non_empty_def start_def)
    show ?thesis
    proof (cases "collect_phases 0 (wc_phases config) start")
      case (Inl err)
      then have "from_config config = Inl err" using unfolded by simp
      then show ?thesis using plain collect_phases_err [OF Inl] by simp
    next
      case (Inr m)
      note maps = Inr [unfolded start_def]
      show ?thesis
      proof (cases "check_phases (pm_phase_indices m) (wc_phases config)")
        case (Inl err)
        then have "from_config config = Inl err" using unfolded Inr by simp
        then show ?thesis using plain check_phases_err [OF Inl] by simp
      next
        case checked: (Inr u)
        have checked': "check_phases (pm_phase_indices m) (wc_phases config) = Inr ()" using checked by simp
        show ?thesis
        proof (cases "ordered_phases config (pm_phase_indices m)")
          case (Inl err)
          then have "from_config config = Inl err" using unfolded Inr checked by simp
          then show ?thesis using order_cyclic [OF maps checked' Inl] by blast
        next
          case order: (Inr names)
          note names = ordered_phases_ok [OF maps order]
          have dist: "distinct names" using names(1) by (simp add: topological_def)
          have known: "bt_get (positions names) (ph_name p) \<noteq> None" if "p \<in> set (wc_phases config)" for p
            using that names(2) positions_known [OF dist] by auto
          have of_task: "bt_get (positions names) dp \<noteq> None" if "bt_get (pm_task_phase m) d = Some dp" for d dp
          proof -
            have "(d, dp) \<in> set (task_pairs (wc_phases config))"
              using that collected_indices(4) [OF maps] by (simp add: map_of_SomeD)
            then show ?thesis using known by (auto simp: task_pairs_def)
          qed
          have all: "\<not> list_ex (\<lambda>name. phase_at config (pm_phase_indices m) name = None) names"
          proof
            assume "list_ex (\<lambda>name. phase_at config (pm_phase_indices m) name = None) names"
            then obtain p where "p \<in> set (wc_phases config)" "phase_at config (pm_phase_indices m) (ph_name p) = None"
              using names(2) by (auto simp: list_ex_iff)
            then show False using collected_indices(2) [OF maps, of "ph_name p" p] by simp
          qed
          show ?thesis
          proof (cases "check_all_tasks (pm_task_phase m) (positions names) (wc_phases config)")
            case (Inl err)
            then have "from_config config = Inl err" using unfolded Inr checked order by simp
            then show ?thesis using plain check_all_tasks_err [OF Inl] known of_task by blast
          next
            case ok: (Inr u)
            have "\<exists>plan. from_config config = Inr plan" using unfolded Inr checked order ok all by simp
            then show ?thesis using order_acyclic [OF maps order] by blast
          qed
        qed
      qed
    qed
  qed
qed

text \<open>C29. A reported dependency cycle is a cycle of the configuration, a configuration with a cycle is never compiled,
  and compilation never indexes out of range.\<close>

theorem cycles_are_refused:
  assumes "from_config config = Inl (PhaseDependencyCycle p) \<or> from_config config = Inl IndexPanic \<or> \<not> acyclic (dependencies config)"
  shows "(\<exists>err. from_config config = Inl err \<and> err \<noteq> IndexPanic)
    \<and> (from_config config = Inl (PhaseDependencyCycle p) \<longrightarrow> (p, p) \<in> (dependencies config)\<^sup>+)"
  using from_config_outcome [of config] assms by auto

lemma cycles_are_refused_witness:
  "(''scan'', ''scan'') \<in> (dependencies (sample_config\<lparr>wc_phases := [sample_build, sample_scan\<lparr>ph_depends_on := [''build'']\<rparr>]\<rparr>))\<^sup>+
   \<or> (''build'', ''build'') \<in> (dependencies (sample_config\<lparr>wc_phases := [sample_build, sample_scan\<lparr>ph_depends_on := [''build'']\<rparr>]\<rparr>))\<^sup>+"
proof -
  have "from_config (sample_config\<lparr>wc_phases := [sample_build, sample_scan\<lparr>ph_depends_on := [''build'']\<rparr>]\<rparr>)
      = Inl (PhaseDependencyCycle ''build'')" by code_simp
  with cycles_are_refused [OF disjI1 [OF this]] show ?thesis by blast
qed

section \<open>Parallel writers\<close>

text \<open>A scope without a glob covers the files below its root.\<close>

definition covers :: "string \<Rightarrow> string \<Rightarrow> bool" where
  "covers scope path \<longleftrightarrow> components_start_with path (normalize_file_scope_root scope)"

lemma first_overlap_none:
  "first_overlap tasks = None \<Longrightarrow> i < j \<Longrightarrow> j < length tasks \<Longrightarrow>
     \<not> scopes_overlap (tk_file_scope (tasks ! i)) (tk_file_scope (tasks ! j))"
proof (induction tasks arbitrary: i j)
  case (Cons t tasks)
  then show ?case
  proof (cases i)
    case 0
    then show ?thesis using Cons.prems by (cases j) (auto simp: find_None_iff split: option.splits)
  next
    case (Suc i')
    then show ?thesis using Cons by (cases j) (auto split: option.splits)
  qed
qed simp

lemma overlap_of_common_path:
  assumes "covers l path" and "covers r path"
    and "\<not> contains (normalize_file_scope_root l) ''*''" and "\<not> contains (normalize_file_scope_root r) ''*''"
  shows "scope_overlaps l r"
proof -
  have common: "take (length a) b = a \<or> take (length b) a = b"
    if "take (length a) c = a" "take (length b) c = b" for a b c :: "string list"
    using that by (metis min.absorb1 nle_le take_take)
  show ?thesis using assms common by (auto simp: covers_def components_start_with_def scope_overlaps_def Let_def)
qed

lemma nth_pair_filter:
  "i < j \<Longrightarrow> j < length xs \<Longrightarrow> P (xs ! i) \<Longrightarrow> P (xs ! j) \<Longrightarrow>
     \<exists>a b. a < b \<and> b < length (filter P xs) \<and> filter P xs ! a = xs ! i \<and> filter P xs ! b = xs ! j"
proof (induction xs arbitrary: i j)
  case (Cons x xs)
  show ?case
  proof (cases i)
    case 0
    then obtain k where "j = Suc k" using Cons.prems(1) by (cases j) simp_all
    moreover from this have "xs ! k \<in> set (filter P xs)" using Cons.prems by simp
    then obtain b where "b < length (filter P xs)" "filter P xs ! b = xs ! k" by (metis in_set_conv_nth)
    ultimately show ?thesis using 0 Cons.prems by (intro exI [of _ 0] exI [of _ "Suc b"]) simp
  next
    case (Suc i')
    then obtain k where k: "j = Suc k" using Cons.prems(1) by (cases j) simp_all
    from Cons.IH [of i' k] Suc k Cons.prems obtain a b where
      "a < b" "b < length (filter P xs)" "filter P xs ! a = xs ! i'" "filter P xs ! b = xs ! k" by auto
    then show ?thesis using Suc k
      by (intro exI [of _ "if P x then Suc a else a"] exI [of _ "if P x then Suc b else b"]) simp
  qed
qed simp

abbreviation writers :: "Phase \<Rightarrow> Task list" where
  "writers phase \<equiv> filter (\<lambda>t. tk_mode t = ReadWrite) (ph_tasks phase)"

lemma validate_parallel_ok:
  assumes "validate_parallel_write_scope phase = Inr ()" and "ph_parallel phase"
  shows "first_overlap (writers phase) = None" and "find (\<lambda>t. tk_file_scope t = []) (writers phase) = None"
  using assms by (auto simp: validate_parallel_write_scope_def Let_def split: option.splits)

lemma writers_apart:
  assumes "validate_parallel_write_scope phase = Inr ()" and "ph_parallel phase"
    and "i < j" and "j < length (ph_tasks phase)"
    and "tk_mode (ph_tasks phase ! i) = ReadWrite" and "tk_mode (ph_tasks phase ! j) = ReadWrite"
  shows "\<not> scopes_overlap (tk_file_scope (ph_tasks phase ! i)) (tk_file_scope (ph_tasks phase ! j))"
    and "tk_file_scope (ph_tasks phase ! i) \<noteq> []" and "tk_file_scope (ph_tasks phase ! j) \<noteq> []"
proof -
  note valid = validate_parallel_ok [OF assms(1,2)]
  from nth_pair_filter [of i j "ph_tasks phase" "\<lambda>t. tk_mode t = ReadWrite", OF assms(3-6)]
  obtain a b where ab: "a < b" "b < length (writers phase)" "writers phase ! a = ph_tasks phase ! i"
    "writers phase ! b = ph_tasks phase ! j" by blast
  show "\<not> scopes_overlap (tk_file_scope (ph_tasks phase ! i)) (tk_file_scope (ph_tasks phase ! j))"
    using first_overlap_none [OF valid(1) ab(1,2)] by (simp only: ab(3,4) simp_thms)
  have "i < length (ph_tasks phase)" using assms(3,4) by simp
  then have "ph_tasks phase ! i \<in> set (ph_tasks phase)" "ph_tasks phase ! j \<in> set (ph_tasks phase)"
    using assms(4) by simp_all
  then show "tk_file_scope (ph_tasks phase ! i) \<noteq> []" "tk_file_scope (ph_tasks phase ! j) \<noteq> []"
    using valid(2) assms(5,6) by (simp_all add: find_None_iff)
qed

lemma plan_scopes_checked:
  assumes "from_config config = Inr plan" and "p \<in> set (wc_phases config)"
  shows "validate_parallel_write_scope p = Inr ()"
  using assms(1)
proof (rule from_config_ok)
  fix m
  assume "check_phases (pm_phase_indices m) (wc_phases config) = Inr ()"
  from check_phases_ok [OF this assms(2)] show ?thesis ..
qed



text \<open>Globs are compared by what stands before their first star only: a phase whose two parallel writers own
  all Rust files of a directory and one of these files is accepted.\<close>

theorem glob_scopes_may_overlap:
  "validate_parallel_write_scope (sample_build\<lparr>ph_tasks := [sample_task ''a'' [''src/*.rs''] [], sample_task ''b'' [''src/lib.rs''] []]\<rparr>)
    = Inr ()"
  by code_simp

end
