(* ===== verification/Gates.thy ===== *)
theory Gates
  imports BTreeMap
begin

text \<open>
  Workflow gates and role-to-role handoffs (\<open>crates/workflow/src/gates.rs\<close>): the gate specification,
  the live gate states and retry counters of a lane, the evaluation of an outcome, the admission
  test of a role, and the single-use handoff artifacts. Reading and writing \<open>gates.json\<close> is not
  modelled (file I/O and serde).
\<close>

section \<open>Data\<close>

datatype GateOn = RoleComplete | RoleStart

datatype GateKind = Verify | Review | Approve

datatype GateOnFail = FailRetry | FailBlock | FailEscalate

record GateSpec =
  gate_id :: string
  gate_role :: string
  gate_on :: GateOn
  gate_kind :: GateKind
  gate_on_fail :: GateOnFail
  gate_blocks_role :: "string option"
  gate_max_retries :: u32
  gate_artifact_kind :: "string option"
  gate_require_explicit_verdict :: bool

datatype GateState =
  Pending
| Passed
| Blocked (blocked_why: string)
| Retrying (retry_attempt: u32) (retry_why: string)
| Escalated (escalated_why: string)

fun gate_state_str :: "GateState \<Rightarrow> string" where
  "gate_state_str Pending = ''pending''"
| "gate_state_str Passed = ''passed''"
| "gate_state_str (Blocked _) = ''blocked''"
| "gate_state_str (Retrying _ _) = ''retrying''"
| "gate_state_str (Escalated _) = ''escalated''"

definition is_blocking :: "GateState \<Rightarrow> bool" where
  "is_blocking st \<longleftrightarrow> st \<noteq> Passed"

fun blocked_reason :: "GateState \<Rightarrow> string option" where
  "blocked_reason Pending = Some ''waiting for required gate outcome''"
| "blocked_reason (Blocked reason) = Some reason"
| "blocked_reason (Retrying _ reason) = Some reason"
| "blocked_reason (Escalated reason) = Some reason"
| "blocked_reason Passed = None"

datatype GateOutcome = OutcomePass | OutcomeFail (fail_reason: string) | HumanApprove (approve_note: string)

record HandoffArtifact =
  art_id :: string
  art_lane_id :: string
  art_from_role :: string
  art_to_role :: string
  art_kind :: string
  art_payload :: string
  art_created_at :: string

record LaneGateBoard =
  board_lane_id :: string
  board_gates :: "(string, GateState) btree"
  board_retries :: "(string, u32) btree"
  board_artifacts :: "HandoffArtifact list"

datatype GateError =
  EmptyGateId
| LaneMismatch (lane_expected: string) (lane_got: string)
| GateIo string
| GateSerde string

section \<open>Operations\<close>

definition board_new :: "string \<Rightarrow> LaneGateBoard" where
  "board_new lane_id =
     \<lparr>board_lane_id = lane_id, board_gates = [], board_retries = [], board_artifacts = []\<rparr>"

definition install_gates :: "GateSpec list \<Rightarrow> LaneGateBoard \<Rightarrow> LaneGateBoard" where
  "install_gates specs b =
     b\<lparr>board_gates := fold (\<lambda>spec m. if bt_get m (gate_id spec) = None
          then bt_insert (gate_id spec) Pending m else m) specs (board_gates b)\<rparr>"

text \<open>The state after the \<open>attempt\<close>-th consecutive failure.\<close>

definition fail_state :: "GateSpec \<Rightarrow> u32 \<Rightarrow> string \<Rightarrow> GateState" where
  "fail_state spec attempt reason =
     (case gate_on_fail spec of
        FailBlock \<Rightarrow> Blocked reason
      | FailRetry \<Rightarrow> if attempt \<le> gate_max_retries spec then Retrying attempt reason else Escalated reason
      | FailEscalate \<Rightarrow> Escalated reason)"

definition retry_count :: "LaneGateBoard \<Rightarrow> string \<Rightarrow> u32" where
  "retry_count b gid = (case bt_get (board_retries b) gid of Some n \<Rightarrow> n | None \<Rightarrow> 0)"

definition evaluate ::
  "GateSpec \<Rightarrow> GateOutcome \<Rightarrow> LaneGateBoard \<Rightarrow> (GateError + GateState) \<times> LaneGateBoard" where
  "evaluate spec outcome b =
     (if trim (gate_id spec) = [] then (Inl EmptyGateId, b)
      else case outcome of
        OutcomeFail reason \<Rightarrow>
          (let attempt = sat_add (retry_count b (gate_id spec)) 1;
               state = fail_state spec attempt reason
           in (Inr state,
               b\<lparr>board_retries := bt_insert (gate_id spec) attempt (board_retries b),
                 board_gates := bt_insert (gate_id spec) state (board_gates b)\<rparr>))
      | _ \<Rightarrow>
          (Inr Passed,
           b\<lparr>board_gates := bt_insert (gate_id spec) Passed (board_gates b),
             board_retries := bt_remove (gate_id spec) (board_retries b)\<rparr>))"

definition spec_blocks :: "string \<Rightarrow> GateSpec \<Rightarrow> bool" where
  "spec_blocks role spec \<longleftrightarrow>
     eq_ignore_ascii_case (trim (case gate_blocks_role spec of Some r \<Rightarrow> r | None \<Rightarrow> [])) role"

definition gate_state_of :: "LaneGateBoard \<Rightarrow> string \<Rightarrow> GateState" where
  "gate_state_of b gid = (case bt_get (board_gates b) gid of Some st \<Rightarrow> st | None \<Rightarrow> Pending)"

fun first_blocking :: "LaneGateBoard \<Rightarrow> string \<Rightarrow> GateSpec list \<Rightarrow> GateState option" where
  "first_blocking b role [] = None"
| "first_blocking b role (spec # specs) =
     (if \<not> spec_blocks role spec then first_blocking b role specs
      else if is_blocking (gate_state_of b (gate_id spec)) then Some (gate_state_of b (gate_id spec))
      else first_blocking b role specs)"

definition role_is_blocked :: "LaneGateBoard \<Rightarrow> GateSpec list \<Rightarrow> string \<Rightarrow> GateState option" where
  "role_is_blocked b specs role =
     (let role = trim role in if role = [] then None else first_blocking b role specs)"

definition record_handoff ::
  "HandoffArtifact \<Rightarrow> LaneGateBoard \<Rightarrow> (GateError + unit) \<times> LaneGateBoard" where
  "record_handoff artifact b =
     (if art_lane_id artifact \<noteq> board_lane_id b
      then (Inl (LaneMismatch (board_lane_id b) (art_lane_id artifact)), b)
      else (Inr (), b\<lparr>board_artifacts := board_artifacts b @ [artifact]\<rparr>))"

definition latest_handoff ::
  "LaneGateBoard \<Rightarrow> string \<Rightarrow> string \<Rightarrow> string \<Rightarrow> HandoffArtifact option" where
  "latest_handoff b from_role to_role kind =
     List.find (\<lambda>a. eq_ignore_ascii_case (art_from_role a) from_role
         \<and> eq_ignore_ascii_case (art_to_role a) to_role
         \<and> eq_ignore_ascii_case (art_kind a) kind) (rev (board_artifacts b))"

text \<open>\<open>Vec::remove\<close> at an index in range.\<close>

definition vec_remove :: "nat \<Rightarrow> 'a list \<Rightarrow> 'a list" where
  "vec_remove i xs = take i xs @ drop (Suc i) xs"

fun pick_loop :: "string \<Rightarrow> nat \<Rightarrow> nat list \<Rightarrow> (nat \<times> HandoffArtifact) list \<Rightarrow> nat list" where
  "pick_loop to_role limit picked [] = picked"
| "pick_loop to_role limit picked ((index, artifact) # rest) =
     (if limit \<le> length picked then picked
      else pick_loop to_role limit
        (if eq_ignore_ascii_case (art_to_role artifact) to_role then picked @ [index] else picked) rest)"

fun remove_loop :: "HandoffArtifact list \<Rightarrow> HandoffArtifact list \<Rightarrow> nat list
    \<Rightarrow> HandoffArtifact list \<times> HandoffArtifact list" where
  "remove_loop consumed artifacts [] = (consumed, artifacts)"
| "remove_loop consumed artifacts (index # picked) =
     remove_loop (consumed @ [artifacts ! index]) (vec_remove index artifacts) picked"

definition consume_handoffs_for ::
  "string \<Rightarrow> nat \<Rightarrow> LaneGateBoard \<Rightarrow> HandoffArtifact list \<times> LaneGateBoard" where
  "consume_handoffs_for to_role limit b =
     (let picked = pick_loop to_role limit [] (rev (enumerate 0 (board_artifacts b)));
          (consumed, artifacts) = remove_loop [] (board_artifacts b) picked
      in (consumed, b\<lparr>board_artifacts := artifacts\<rparr>))"

record GateStatusLine =
  line_gate_id :: string
  line_state :: string
  line_blocked_reason :: "string option"

definition status_summary :: "LaneGateBoard \<Rightarrow> GateStatusLine list" where
  "status_summary b = map (\<lambda>(gid, state). \<lparr>line_gate_id = gid, line_state = gate_state_str state,
      line_blocked_reason = blocked_reason state\<rparr>) (board_gates b)"

definition stopship_gate_pipeline :: "GateSpec list" where
  "stopship_gate_pipeline =
     [\<lparr>gate_id = ''scout-findings'', gate_role = ''scout'', gate_on = RoleComplete, gate_kind = Approve,
       gate_on_fail = FailBlock, gate_blocks_role = Some ''implementer'', gate_max_retries = 0,
       gate_artifact_kind = Some ''findings'', gate_require_explicit_verdict = False\<rparr>,
      \<lparr>gate_id = ''reviewer-diff'', gate_role = ''reviewer'', gate_on = RoleComplete, gate_kind = Review,
       gate_on_fail = FailBlock, gate_blocks_role = Some ''verifier'', gate_max_retries = 1,
       gate_artifact_kind = Some ''diff_review'', gate_require_explicit_verdict = False\<rparr>,
      \<lparr>gate_id = ''verifier-suite'', gate_role = ''verifier'', gate_on = RoleComplete, gate_kind = Verify,
       gate_on_fail = FailRetry, gate_blocks_role = Some ''release_lead'', gate_max_retries = 2,
       gate_artifact_kind = Some ''verify_report'', gate_require_explicit_verdict = False\<rparr>]"

section \<open>The board invariant\<close>

definition board_wf :: "LaneGateBoard \<Rightarrow> bool" where
  "board_wf b \<longleftrightarrow> bt_wf (board_gates b) \<and> bt_wf (board_retries b)
     \<and> (\<forall>a \<in> set (board_artifacts b). art_lane_id a = board_lane_id b)"

lemma board_wf_new [simp]: "board_wf (board_new lane)"
  by (simp add: board_wf_def board_new_def bt_wf_def)

lemma board_wf_install [simp]: "board_wf b \<Longrightarrow> board_wf (install_gates specs b)"
  using bt.fold_or_put [of "board_gates b" gate_id Pending specs]
  by (simp add: board_wf_def install_gates_def)

lemma board_wf_evaluate [simp]: "board_wf b \<Longrightarrow> board_wf (snd (evaluate spec outcome b))"
  by (auto simp: board_wf_def evaluate_def Let_def bt_wf_insert bt_wf_remove split: GateOutcome.split)

lemma board_wf_record [simp]: "board_wf b \<Longrightarrow> board_wf (snd (record_handoff artifact b))"
  by (auto simp: board_wf_def record_handoff_def)

lemma gate_state_of_new [simp]: "gate_state_of (board_new lane) gid = Pending"
  by (simp add: gate_state_of_def board_new_def)

lemma gate_state_of_install:
  "board_wf b \<Longrightarrow> gate_state_of (install_gates specs b) gid = gate_state_of b gid"
  using bt.fold_or_put [of "board_gates b" gate_id Pending specs gid]
  by (auto simp: gate_state_of_def install_gates_def board_wf_def split: option.splits)

lemma retry_count_install [simp]: "retry_count (install_gates specs b) gid = retry_count b gid"
  by (simp add: retry_count_def install_gates_def)

lemma gate_state_of_evaluate:
  "board_wf b \<Longrightarrow> trim (gate_id spec) \<noteq> [] \<Longrightarrow>
   gate_state_of (snd (evaluate spec outcome b)) gid =
     (if gid = gate_id spec
      then (case outcome of
              OutcomeFail reason \<Rightarrow> fail_state spec (sat_add (retry_count b gid) 1) reason
            | _ \<Rightarrow> Passed)
      else gate_state_of b gid)"
  by (auto simp: board_wf_def evaluate_def Let_def gate_state_of_def bt_get_insert split: GateOutcome.split)

lemma retry_count_evaluate:
  "board_wf b \<Longrightarrow> trim (gate_id spec) \<noteq> [] \<Longrightarrow>
   retry_count (snd (evaluate spec outcome b)) gid =
     (if gid = gate_id spec
      then (case outcome of OutcomeFail _ \<Rightarrow> sat_add (retry_count b gid) 1 | _ \<Rightarrow> 0)
      else retry_count b gid)"
  by (auto simp: board_wf_def evaluate_def Let_def retry_count_def bt_get_insert bt_get_remove
      split: GateOutcome.split)

lemma fail_state_blocking [simp]: "fail_state spec n reason \<noteq> Passed"
  by (simp add: fail_state_def split: GateOnFail.split)

lemma role_is_blocked_None:
  "role_is_blocked b specs role = None \<longleftrightarrow>
   trim role = [] \<or> list_all (\<lambda>s. spec_blocks (trim role) s \<longrightarrow> gate_state_of b (gate_id s) = Passed) specs"
proof -
  have "first_blocking b r specs = None \<longleftrightarrow>
      list_all (\<lambda>s. spec_blocks r s \<longrightarrow> gate_state_of b (gate_id s) = Passed) specs" for r
    by (induction specs) (auto simp: is_blocking_def)
  then show ?thesis by (simp add: role_is_blocked_def Let_def)
qed

section \<open>Traces of outcomes\<close>

definition run_outcomes :: "(GateSpec \<times> GateOutcome) list \<Rightarrow> LaneGateBoard \<Rightarrow> LaneGateBoard" where
  "run_outcomes tr b = fold (\<lambda>(spec, outcome) b. snd (evaluate spec outcome b)) tr b"

definition last_outcome :: "string \<Rightarrow> (GateSpec \<times> GateOutcome) list \<Rightarrow> GateOutcome option" where
  "last_outcome gid tr = map_option snd (List.find (\<lambda>(spec, _). gate_id spec = gid) (rev tr))"

definition gate_approved :: "string \<Rightarrow> (GateSpec \<times> GateOutcome) list \<Rightarrow> bool" where
  "gate_approved gid tr \<longleftrightarrow> trim gid \<noteq> []
     \<and> (case last_outcome gid tr of None \<Rightarrow> False | Some (OutcomeFail _) \<Rightarrow> False | Some _ \<Rightarrow> True)"

lemma run_outcomes_snoc: "run_outcomes (tr @ [(spec, out)]) b = snd (evaluate spec out (run_outcomes tr b))"
  by (simp add: run_outcomes_def)

lemma board_wf_run: "board_wf b \<Longrightarrow> board_wf (run_outcomes tr b)"
  by (induction tr rule: rev_induct) (auto simp: run_outcomes_snoc, simp add: run_outcomes_def)

lemma gate_approved_snoc:
  "gate_approved gid (tr @ [(spec, out)]) \<longleftrightarrow>
     (if gate_id spec = gid then trim gid \<noteq> [] \<and> (\<forall>r. out \<noteq> OutcomeFail r) else gate_approved gid tr)"
  by (simp add: gate_approved_def last_outcome_def split: GateOutcome.split)

lemma evaluate_blank: "trim (gate_id spec) = [] \<Longrightarrow> snd (evaluate spec out b) = b"
  by (simp add: evaluate_def)

lemma gate_state_of_run:
  assumes "board_wf b" and "gate_state_of b gid = Pending"
  shows "gate_state_of (run_outcomes tr b) gid = Passed \<longleftrightarrow> gate_approved gid tr"
proof (induction tr rule: rev_induct)
  case Nil
  show ?case using assms(2) by (simp add: run_outcomes_def gate_approved_def last_outcome_def)
next
  case (snoc e tr)
  obtain spec out where e: "e = (spec, out)" by force
  show ?case
  proof (cases "trim (gate_id spec) = []")
    case True
    with snoc show ?thesis
      by (cases "gid = gate_id spec")
        (simp_all add: e run_outcomes_snoc evaluate_blank gate_approved_snoc, simp add: gate_approved_def)
  next
    case False
    with snoc board_wf_run [OF assms(1), of tr] show ?thesis
      by (auto simp: e run_outcomes_snoc gate_state_of_evaluate gate_approved_snoc split: GateOutcome.split)
  qed
qed

definition u32_MAX :: nat where
  "u32_MAX = 4294967295"

lemma unat_capped: "unat (of_nat (min n u32_MAX) :: u32) = min n u32_MAX"
  by (simp add: unat_of_nat u32_MAX_def take_bit_nat_eq_self)

lemma sat_add_capped: "sat_add (of_nat (min n u32_MAX)) (1 :: u32) = of_nat (min (Suc n) u32_MAX)"
proof -
  have "unat (sat_add (of_nat (min n u32_MAX)) (1 :: u32)) = min (min n u32_MAX + 1) u32_MAX"
    by (simp add: unat_sat_add unat_capped) (simp add: u32_MAX_def)
  also have "\<dots> = unat (of_nat (min (Suc n) u32_MAX) :: u32)" by (simp add: unat_capped)
  finally show ?thesis by (simp only: word_unat_eq_iff)
qed

definition fail_n :: "nat \<Rightarrow> GateSpec \<Rightarrow> string \<Rightarrow> LaneGateBoard \<Rightarrow> LaneGateBoard" where
  "fail_n n spec reason b = ((\<lambda>b. snd (evaluate spec (OutcomeFail reason) b)) ^^ n) b"

lemma fail_n_Suc: "fail_n (Suc n) spec reason b = snd (evaluate spec (OutcomeFail reason) (fail_n n spec reason b))"
  by (simp add: fail_n_def)

lemma retry_count_fail_n:
  assumes "board_wf b" and "trim (gate_id spec) \<noteq> []" and "retry_count b (gate_id spec) = 0"
  shows "board_wf (fail_n n spec reason b)
    \<and> retry_count (fail_n n spec reason b) (gate_id spec) = of_nat (min n u32_MAX)"
proof (induction n)
  case 0
  from assms show ?case by (simp add: fail_n_def)
next
  case (Suc n)
  with assms show ?case unfolding fail_n_Suc sat_add_capped [symmetric]
    by (simp add: retry_count_evaluate)
qed

section \<open>Handoffs\<close>

definition addressed_to :: "string \<Rightarrow> HandoffArtifact \<Rightarrow> bool" where
  "addressed_to to_role a \<longleftrightarrow> eq_ignore_ascii_case (art_to_role a) to_role"

lemma pick_loop_spec:
  "pick_loop to_role limit picked xs =
     picked @ take (limit - length picked) (map fst (filter (\<lambda>(_, a). addressed_to to_role a) xs))"
  by (induction to_role limit picked xs rule: pick_loop.induct)
    (auto simp: addressed_to_def Suc_diff_Suc [symmetric])

definition picks :: "string \<Rightarrow> nat \<Rightarrow> HandoffArtifact list \<Rightarrow> nat list" where
  "picks to_role limit xs = pick_loop to_role limit [] (rev (enumerate 0 xs))"

lemma picks_snoc:
  "picks to_role limit (xs @ [a]) =
     (if addressed_to to_role a \<and> 0 < limit then length xs # picks to_role (limit - 1) xs
      else picks to_role limit xs)"
  by (cases limit) (auto simp: picks_def pick_loop_spec enumerate_append_eq)

lemma picks_bound: "i \<in> set (picks to_role limit xs) \<Longrightarrow> i < length xs"
  by (auto simp: picks_def pick_loop_spec in_set_enumerate_eq dest!: in_set_takeD)

lemma picks_decreasing: "sorted_wrt (>) (picks to_role limit xs)"
  by (induction xs arbitrary: limit rule: rev_induct)
    (auto simp: picks_snoc dest: picks_bound, simp add: picks_def pick_loop_spec)

lemma remove_loop_snoc:
  "\<forall>i \<in> set picked. i < length xs \<Longrightarrow> sorted_wrt (>) picked \<Longrightarrow>
   remove_loop consumed (xs @ [a]) picked =
     (fst (remove_loop consumed xs picked), snd (remove_loop consumed xs picked) @ [a])"
proof (induction picked arbitrary: xs consumed)
  case Nil
  show ?case by simp
next
  case (Cons i picked)
  have "\<forall>j \<in> set picked. j < length (vec_remove i xs)"
    using Cons.prems by (auto simp: vec_remove_def)
  from Cons.IH [OF this] Cons.prems show ?case by (simp add: vec_remove_def nth_append)
qed

lemma remove_loop_consumed:
  "remove_loop (c @ d) xs picked = (c @ fst (remove_loop d xs picked), snd (remove_loop d xs picked))"
  by (induction picked arbitrary: d xs) simp_all

definition consume :: "string \<Rightarrow> nat \<Rightarrow> HandoffArtifact list \<Rightarrow> HandoffArtifact list \<times> HandoffArtifact list" where
  "consume to_role limit xs = remove_loop [] xs (picks to_role limit xs)"

text \<open>Seen from the newest artifact: it is taken when it is addressed to the role and the limit is
  not reached, and left in place otherwise.\<close>

lemma consume_snoc:
  "consume to_role limit (xs @ [a]) =
     (if addressed_to to_role a \<and> 0 < limit
      then (a # fst (consume to_role (limit - 1) xs), snd (consume to_role (limit - 1) xs))
      else (fst (consume to_role limit xs), snd (consume to_role limit xs) @ [a]))"
  using remove_loop_consumed [of "[a]" "[]" xs "picks to_role (limit - 1) xs"]
    remove_loop_snoc [of "picks to_role limit xs" xs "[]" a] picks_decreasing [of to_role limit xs]
    picks_bound [of _ to_role limit xs]
  by (auto simp: consume_def picks_snoc vec_remove_def)

lemma consume_nil [simp]: "consume to_role limit [] = ([], [])"
  by (simp add: consume_def picks_def)

lemma consume_handoffs_for_consume:
  "consume_handoffs_for to_role limit b =
     (fst (consume to_role limit (board_artifacts b)),
      b\<lparr>board_artifacts := snd (consume to_role limit (board_artifacts b))\<rparr>)"
  by (simp add: consume_handoffs_for_def consume_def picks_def Let_def split: prod.split)

lemma consume_taken: "fst (consume to_role limit xs) = take limit (filter (addressed_to to_role) (rev xs))"
  by (induction xs arbitrary: limit rule: rev_induct) (auto simp: consume_snoc take_Cons')

lemma consume_others:
  "filter (\<lambda>a. \<not> addressed_to to_role a) (snd (consume to_role limit xs))
   = filter (\<lambda>a. \<not> addressed_to to_role a) xs"
  by (induction xs arbitrary: limit rule: rev_induct) (auto simp: consume_snoc)

lemma consume_left:
  "rev (filter (addressed_to to_role) (snd (consume to_role limit xs)))
   = drop limit (filter (addressed_to to_role) (rev xs))"
  by (induction xs arbitrary: limit rule: rev_induct) (auto simp: consume_snoc drop_Cons')

lemma consume_subseq: "subseq (snd (consume to_role limit xs)) xs"
  by (induction xs arbitrary: limit rule: rev_induct)
    (auto simp: consume_snoc intro: list_emb_prefix list_emb_append_mono)

section \<open>Properties\<close>

text \<open>C25. A gate is passed exactly when its last reported outcome says so: after any sequence of
  evaluations on a freshly installed board (retries, escalations and blank gate ids included), a
  role is admitted exactly when its name is blank or every gate that blocks it was last reported as
  passed, or approved by a person. A gate that never reported keeps the role out.\<close>

theorem role_admission_follows_last_outcomes:
  "role_is_blocked (run_outcomes tr (install_gates specs (board_new lane))) specs role = None \<longleftrightarrow>
     trim role = [] \<or>
     list_all (\<lambda>spec. gate_approved (gate_id spec) tr) (filter (spec_blocks (trim role)) specs)"
proof -
  have "gate_state_of (run_outcomes tr (install_gates specs (board_new lane))) gid = Passed
      \<longleftrightarrow> gate_approved gid tr" for gid
    by (rule gate_state_of_run) (simp_all add: gate_state_of_install)
  then show ?thesis by (auto simp: role_is_blocked_None list_all_iff)
qed

text \<open>A failing gate escalates by its policy: after \<open>n\<close> consecutive failures (with the 32-bit
  attempt counter saturating) a \<open>retry\<close> gate is retrying the attempt while it does not exceed
  \<open>max_retries\<close> and escalated from then on, a \<open>block\<close> gate is blocked and an \<open>escalate\<close> gate
  escalated at once, each with the last reason.\<close>

theorem consecutive_failures:
  assumes "board_wf b" and "trim (gate_id spec) \<noteq> []" and "retry_count b (gate_id spec) = 0" and "0 < n"
  shows "gate_state_of (fail_n n spec reason b) (gate_id spec) =
    (case gate_on_fail spec of
       FailBlock \<Rightarrow> Blocked reason
     | FailRetry \<Rightarrow>
         if min n u32_MAX \<le> unat (gate_max_retries spec)
         then Retrying (of_nat (min n u32_MAX)) reason else Escalated reason
     | FailEscalate \<Rightarrow> Escalated reason)"
proof -
  from assms(4) obtain m where m: "n = Suc m" by (cases n) auto
  from retry_count_fail_n [OF assms(1-3), of m reason] assms(2)
  have "gate_state_of (fail_n n spec reason b) (gate_id spec) =
      fail_state spec (of_nat (min n u32_MAX)) reason"
    unfolding m fail_n_Suc sat_add_capped [symmetric] by (simp add: gate_state_of_evaluate)
  then show ?thesis
    by (simp add: fail_state_def word_le_nat_alt unat_capped split: GateOnFail.split)
qed

theorem consecutive_failures_witness:
  "gate_state_of (fail_n 3 (stopship_gate_pipeline ! 2) ''tests failed'' (board_new ''lane''))
     ''verifier-suite'' = Escalated ''tests failed''"
proof -
  have id: "gate_id (stopship_gate_pipeline ! 2) = ''verifier-suite''"
    and policy: "gate_on_fail (stopship_gate_pipeline ! 2) = FailRetry"
    and max: "unat (gate_max_retries (stopship_gate_pipeline ! 2)) = 2"
    by (simp_all add: stopship_gate_pipeline_def)
  have "trim ''verifier-suite'' \<noteq> []" by code_simp
  moreover have "retry_count (board_new ''lane'') ''verifier-suite'' = 0"
    by (simp add: retry_count_def board_new_def)
  ultimately show ?thesis
    using consecutive_failures [of "board_new ''lane''" "stopship_gate_pipeline ! 2" 3 "''tests failed''"]
    by (simp add: id policy max u32_MAX_def)
qed

text \<open>Evaluating a gate touches only that gate: a blank gate id is an error that leaves the board
  as it was; otherwise the returned state is the one recorded for the gate, the state and retry
  counter of every other gate and the handoffs are kept, and a pass or approval clears the counter.\<close>

theorem evaluate_frame:
  assumes "board_wf b"
  shows "(case evaluate spec outcome b of
      (Inl err, b') \<Rightarrow> trim (gate_id spec) = [] \<and> err = EmptyGateId \<and> b' = b
    | (Inr st, b') \<Rightarrow> trim (gate_id spec) \<noteq> [] \<and> board_wf b'
        \<and> bt_get (board_gates b') = (bt_get (board_gates b))(gate_id spec \<mapsto> st)
        \<and> bt_get (board_retries b') = (bt_get (board_retries b))(gate_id spec :=
            (case outcome of OutcomeFail _ \<Rightarrow> Some (sat_add (retry_count b (gate_id spec)) 1) | _ \<Rightarrow> None))
        \<and> board_artifacts b' = board_artifacts b \<and> board_lane_id b' = board_lane_id b)"
proof (cases "trim (gate_id spec) = []")
  case True
  then show ?thesis by (simp add: evaluate_def)
next
  case False
  with board_wf_evaluate [OF assms, of spec outcome] assms show ?thesis
    by (cases outcome) (auto simp: evaluate_def Let_def board_wf_def bt_get_insert bt_get_remove)
qed

theorem evaluate_frame_witness:
  "case evaluate (stopship_gate_pipeline ! 0) OutcomePass (board_new ''lane'') of
     (Inl err, b') \<Rightarrow> False
   | (Inr st, b') \<Rightarrow> bt_get (board_gates b') = (bt_get [])(''scout-findings'' \<mapsto> st)"
proof -
  have "trim ''scout-findings'' \<noteq> []" by code_simp
  with evaluate_frame [OF board_wf_new [of "''lane''"], of "stopship_gate_pipeline ! 0" OutcomePass]
  show ?thesis by (auto simp: stopship_gate_pipeline_def board_new_def split: prod.splits sum.splits)
qed

text \<open>Handoffs are single-use and none is lost: a role receives the newest handoffs addressed to
  it, newest first and at most \<open>limit\<close>; what stays on the board is, in order, every handoff for the
  other roles and the older ones for this role, so no artifact is ever delivered twice.\<close>

theorem consume_handoffs_single_use:
  "let (consumed, b') = consume_handoffs_for to_role limit b;
       matching = addressed_to to_role in
     consumed = take limit (filter matching (rev (board_artifacts b)))
     \<and> filter matching (rev (board_artifacts b')) = drop limit (filter matching (rev (board_artifacts b)))
     \<and> filter (\<lambda>a. \<not> matching a) (board_artifacts b') = filter (\<lambda>a. \<not> matching a) (board_artifacts b)
     \<and> subseq (board_artifacts b') (board_artifacts b)
     \<and> board_gates b' = board_gates b"
  by (simp add: consume_handoffs_for_consume Let_def consume_taken consume_others consume_subseq
      consume_left [symmetric] rev_filter)

end
