(* ===== verification/Budgets.thy ===== *)
theory Budgets
  imports Complex_Main Prelude
begin

text \<open>
  The budgets of a turn: configured limits and the wall clock of \<open>crates/runtime/src/turn_budget.rs\<close>, and
  the context budget of \<open>crates/runtime/src/context_budget.rs\<close>.

  A \<open>Duration\<close> is its number of nanoseconds with the saturation at \<open>Duration::MAX\<close> written out, an
  \<open>Instant\<close> the nanoseconds of the monotonic clock; an operation that reads the clock takes the time as
  an argument. \<open>usize\<close> is 64 bits wide. Percentages are \<open>f64\<close> values: comparisons are those of the
  reals, and the two functions that round, \<open>percent_of\<close> and \<open>usage_percent\<close>, are arguments.
\<close>

section \<open>Configured limits\<close>

definition DEFAULT_MAX_MODEL_STEPS :: u32 where "DEFAULT_MAX_MODEL_STEPS = - 1"

definition DURATION_MAX :: nat where "DURATION_MAX = (2 ^ 64 - 1) * 1000000000 + 999999999"

definition DEFAULT_TURN_WALL_CLOCK :: nat where "DEFAULT_TURN_WALL_CLOCK = DURATION_MAX"

definition DEFAULT_STREAM_MAX_CONTENT_BYTES :: u64 where "DEFAULT_STREAM_MAX_CONTENT_BYTES = 10 * 1024 * 1024"
definition MIN_STREAM_MAX_CONTENT_BYTES :: u64 where "MIN_STREAM_MAX_CONTENT_BYTES = 64 * 1024"
definition MAX_STREAM_MAX_CONTENT_BYTES :: u64 where "MAX_STREAM_MAX_CONTENT_BYTES = 512 * 1024 * 1024"
definition DEFAULT_STREAM_MAX_DURATION_SECS :: u64 where "DEFAULT_STREAM_MAX_DURATION_SECS = 1800"
definition MIN_STREAM_MAX_DURATION_SECS :: u64 where "MIN_STREAM_MAX_DURATION_SECS = 10"
definition MAX_STREAM_MAX_DURATION_SECS :: u64 where "MAX_STREAM_MAX_DURATION_SECS = 86400"
definition DEFAULT_STREAM_MAX_RESUMES :: u32 where "DEFAULT_STREAM_MAX_RESUMES = 3"
definition MAX_STREAM_MAX_RESUMES :: u32 where "MAX_STREAM_MAX_RESUMES = 10"
definition DEFAULT_STREAM_MAX_TRANSPARENT_RETRIES :: u32 where "DEFAULT_STREAM_MAX_TRANSPARENT_RETRIES = 2"
definition MAX_STREAM_MAX_TRANSPARENT_RETRIES :: u32 where "MAX_STREAM_MAX_TRANSPARENT_RETRIES = 10"
definition DEFAULT_STREAM_MAX_ERRORS :: u32 where "DEFAULT_STREAM_MAX_ERRORS = 5"
definition MIN_STREAM_MAX_ERRORS :: u32 where "MIN_STREAM_MAX_ERRORS = 1"
definition MAX_STREAM_MAX_ERRORS :: u32 where "MAX_STREAM_MAX_ERRORS = 50"

lemmas limit_defs = DEFAULT_STREAM_MAX_CONTENT_BYTES_def MIN_STREAM_MAX_CONTENT_BYTES_def
  MAX_STREAM_MAX_CONTENT_BYTES_def DEFAULT_STREAM_MAX_DURATION_SECS_def MIN_STREAM_MAX_DURATION_SECS_def
  MAX_STREAM_MAX_DURATION_SECS_def DEFAULT_STREAM_MAX_RESUMES_def MAX_STREAM_MAX_RESUMES_def
  DEFAULT_STREAM_MAX_TRANSPARENT_RETRIES_def MAX_STREAM_MAX_TRANSPARENT_RETRIES_def
  DEFAULT_STREAM_MAX_ERRORS_def MIN_STREAM_MAX_ERRORS_def MAX_STREAM_MAX_ERRORS_def

definition clamp :: "'a::linorder \<Rightarrow> 'a \<Rightarrow> 'a \<Rightarrow> 'a" where
  "clamp lo hi x = (if x < lo then lo else if hi < x then hi else x)"

definition sat_mul :: "'l::len word \<Rightarrow> 'l word \<Rightarrow> 'l word" where
  "sat_mul a b = (if unat a * unat b < 2 ^ LENGTH('l) then a * b else - 1)"

record StreamRetryLimits =
  sl_max_resumes :: u32
  sl_max_transparent_retries :: u32
  sl_max_errors :: u32

definition unwrap_or :: "'a option \<Rightarrow> 'a \<Rightarrow> 'a" where
  "unwrap_or x d = (case x of Some v \<Rightarrow> v | None \<Rightarrow> d)"

definition resolve_stream_retry_limits :: "u32 option \<Rightarrow> u32 option \<Rightarrow> u32 option \<Rightarrow> StreamRetryLimits" where
  "resolve_stream_retry_limits max_resumes max_transparent_retries max_errors =
     \<lparr>sl_max_resumes = min (unwrap_or max_resumes DEFAULT_STREAM_MAX_RESUMES) MAX_STREAM_MAX_RESUMES,
      sl_max_transparent_retries =
        min (unwrap_or max_transparent_retries DEFAULT_STREAM_MAX_TRANSPARENT_RETRIES) MAX_STREAM_MAX_TRANSPARENT_RETRIES,
      sl_max_errors = (case max_errors of
          None \<Rightarrow> DEFAULT_STREAM_MAX_ERRORS
        | Some v \<Rightarrow> if v = 0 then DEFAULT_STREAM_MAX_ERRORS else clamp MIN_STREAM_MAX_ERRORS MAX_STREAM_MAX_ERRORS v)\<rparr>"

definition resolve_max_model_steps :: "u32 option \<Rightarrow> u32" where
  "resolve_max_model_steps raw =
     (case raw of None \<Rightarrow> DEFAULT_MAX_MODEL_STEPS | Some v \<Rightarrow> if v = 0 then DEFAULT_MAX_MODEL_STEPS else v)"

definition resolve_turn_wall_clock :: "u64 option \<Rightarrow> nat" where
  "resolve_turn_wall_clock raw =
     (case raw of None \<Rightarrow> DEFAULT_TURN_WALL_CLOCK
      | Some v \<Rightarrow> if v = 0 then DEFAULT_TURN_WALL_CLOCK else unat v * 1000000000)"

definition resolve_stream_max_content_bytes :: "u64 option \<Rightarrow> u64" where
  "resolve_stream_max_content_bytes raw_mb =
     (case raw_mb of None \<Rightarrow> DEFAULT_STREAM_MAX_CONTENT_BYTES
      | Some mb \<Rightarrow> if mb = 0 then DEFAULT_STREAM_MAX_CONTENT_BYTES
          else clamp MIN_STREAM_MAX_CONTENT_BYTES MAX_STREAM_MAX_CONTENT_BYTES (sat_mul mb (1024 * 1024)))"

definition resolve_stream_max_duration_secs :: "u64 option \<Rightarrow> u64" where
  "resolve_stream_max_duration_secs raw =
     (case raw of None \<Rightarrow> DEFAULT_STREAM_MAX_DURATION_SECS
      | Some v \<Rightarrow> if v = 0 then DEFAULT_STREAM_MAX_DURATION_SECS
          else clamp MIN_STREAM_MAX_DURATION_SECS MAX_STREAM_MAX_DURATION_SECS v)"

section \<open>The wall clock of a turn\<close>

record TurnWallClock =
  tw_budget :: nat
  tw_started_at :: nat
  tw_excluded :: nat
  tw_blocked_since :: "nat option"

definition clock_start :: "nat \<Rightarrow> nat \<Rightarrow> TurnWallClock" where
  "clock_start now budget = \<lparr>tw_budget = budget, tw_started_at = now, tw_excluded = 0, tw_blocked_since = None\<rparr>"

text \<open>\<open>elapsed\<close> and \<open>saturating_sub\<close> are subtraction of natural numbers.\<close>

definition clock_spent :: "nat \<Rightarrow> TurnWallClock \<Rightarrow> nat" where
  "clock_spent now c =
     (let blocked_now = (case tw_blocked_since c of Some since \<Rightarrow> now - since | None \<Rightarrow> 0) in
      now - tw_started_at c - tw_excluded c - blocked_now)"

definition clock_exhausted :: "nat \<Rightarrow> TurnWallClock \<Rightarrow> bool" where
  "clock_exhausted now c \<longleftrightarrow> tw_budget c \<le> clock_spent now c"

definition begin_human_wait :: "nat \<Rightarrow> TurnWallClock \<Rightarrow> TurnWallClock" where
  "begin_human_wait now c = (if tw_blocked_since c = None then c\<lparr>tw_blocked_since := Some now\<rparr> else c)"

definition end_human_wait :: "nat \<Rightarrow> TurnWallClock \<Rightarrow> TurnWallClock" where
  "end_human_wait now c =
     (case tw_blocked_since c of
        Some since \<Rightarrow> c\<lparr>tw_blocked_since := None, tw_excluded := min DURATION_MAX (tw_excluded c + (now - since))\<rparr>
      | None \<Rightarrow> c)"

section \<open>The context budget\<close>

definition CRITICAL_PRESSURE_PERCENT :: real where "CRITICAL_PRESSURE_PERCENT = 90"
definition HIGH_PRESSURE_PERCENT :: real where "HIGH_PRESSURE_PERCENT = 75"
definition MEDIUM_PRESSURE_PERCENT :: real where "MEDIUM_PRESSURE_PERCENT = 40"
definition CONTEXT_HEADROOM_TOKENS :: u64 where "CONTEXT_HEADROOM_TOKENS = 1024"
definition MIN_INPUT_BUDGET_TOKENS :: u64 where "MIN_INPUT_BUDGET_TOKENS = 1024"

datatype PressureLevel = Low | Medium | High | Critical

definition from_usage_percent :: "real \<Rightarrow> PressureLevel" where
  "from_usage_percent p =
     (let percent = clamp 0 100 p in
      if CRITICAL_PRESSURE_PERCENT \<le> percent then Critical
      else if HIGH_PRESSURE_PERCENT \<le> percent then High
      else if MEDIUM_PRESSURE_PERCENT \<le> percent then Medium
      else Low)"

fun pressure_label :: "PressureLevel \<Rightarrow> string" where
  "pressure_label Low = ''low''"
| "pressure_label Medium = ''moderate''"
| "pressure_label High = ''high''"
| "pressure_label Critical = ''critical''"

definition suggests_compaction :: "PressureLevel \<Rightarrow> bool" where
  "suggests_compaction l \<longleftrightarrow> l = High \<or> l = Critical"

record ContextBudget =
  cb_window_tokens :: u64
  cb_input_tokens :: u64
  cb_output_cap_tokens :: u64
  cb_input_budget_ceiling :: u64
  cb_available_input_tokens :: u64
  cb_compaction_trigger_tokens :: u64
  cb_pressure :: PressureLevel

text \<open>The two functions that round \<open>f64\<close> values.\<close>

record Floats =
  fl_percent_of :: "u64 \<Rightarrow> real \<Rightarrow> u64"
  fl_usage_percent :: "u64 \<Rightarrow> u64 \<Rightarrow> real"

definition clamp_output_cap :: "u64 \<Rightarrow> u64 \<Rightarrow> u64" where
  "clamp_output_cap window_tokens configured_output_cap =
     (let reserved_floor = sat_add MIN_INPUT_BUDGET_TOKENS CONTEXT_HEADROOM_TOKENS;
          max_output = sat_sub window_tokens reserved_floor
      in min configured_output_cap max_output)"

definition budget_with_input_limit :: "Floats \<Rightarrow> u64 \<Rightarrow> u64 \<Rightarrow> u64 \<Rightarrow> u64 option \<Rightarrow> ContextBudget" where
  "budget_with_input_limit fl window_tokens input_tokens configured_output_cap input_limit_tokens =
     (let output_cap_tokens = clamp_output_cap window_tokens configured_output_cap;
          reserved = sat_add output_cap_tokens CONTEXT_HEADROOM_TOKENS;
          window_input_ceiling = sat_sub window_tokens reserved;
          input_budget_ceiling =
            (case input_limit_tokens of
               Some limit \<Rightarrow> if 0 < limit then min window_input_ceiling limit else window_input_ceiling
             | None \<Rightarrow> window_input_ceiling);
          available_input_tokens = sat_sub input_budget_ceiling input_tokens;
          compaction_trigger_tokens = min (fl_percent_of fl window_tokens HIGH_PRESSURE_PERCENT) input_budget_ceiling;
          pressure = from_usage_percent (fl_usage_percent fl window_tokens input_tokens)
      in \<lparr>cb_window_tokens = window_tokens, cb_input_tokens = input_tokens, cb_output_cap_tokens = output_cap_tokens,
          cb_input_budget_ceiling = input_budget_ceiling, cb_available_input_tokens = available_input_tokens,
          cb_compaction_trigger_tokens = compaction_trigger_tokens, cb_pressure = pressure\<rparr>)"

definition budget_new :: "Floats \<Rightarrow> u64 \<Rightarrow> u64 \<Rightarrow> u64 \<Rightarrow> ContextBudget" where
  "budget_new fl window_tokens input_tokens configured_output_cap =
     budget_with_input_limit fl window_tokens input_tokens configured_output_cap None"

definition compaction_trigger_for_percent :: "Floats \<Rightarrow> real \<Rightarrow> ContextBudget \<Rightarrow> u64" where
  "compaction_trigger_for_percent fl percent b =
     min (fl_percent_of fl (cb_window_tokens b) percent) (cb_input_budget_ceiling b)"

definition should_compact :: "ContextBudget \<Rightarrow> bool" where
  "should_compact b \<longleftrightarrow> 0 < cb_window_tokens b \<and> cb_compaction_trigger_tokens b \<le> cb_input_tokens b"

definition fits_additional :: "u64 \<Rightarrow> ContextBudget \<Rightarrow> bool" where
  "fits_additional additional b \<longleftrightarrow> additional \<le> cb_available_input_tokens b"

section \<open>Guarantees\<close>

text \<open>Human waits as timed events, and the time a turn spends outside of them.\<close>

datatype WaitEvent = BeginWait | EndWait

fun clock_event :: "nat \<times> WaitEvent \<Rightarrow> TurnWallClock \<Rightarrow> TurnWallClock" where
  "clock_event (t, BeginWait) c = begin_human_wait t c"
| "clock_event (t, EndWait) c = end_human_wait t c"

fun own_time :: "bool \<Rightarrow> nat \<Rightarrow> (nat \<times> WaitEvent) list \<Rightarrow> nat \<Rightarrow> nat" where
  "own_time waiting since [] now = (if waiting then 0 else now - since)"
| "own_time waiting since ((t, e) # events) now =
     (if waiting then 0 else t - since) + own_time (e = BeginWait) t events now"

fun in_order :: "nat \<Rightarrow> (nat \<times> WaitEvent) list \<Rightarrow> nat \<Rightarrow> bool" where
  "in_order since [] now \<longleftrightarrow> since \<le> now"
| "in_order since ((t, e) # events) now \<longleftrightarrow> since \<le> t \<and> in_order t events now"

lemma in_order_le: "in_order since events now \<Longrightarrow> since \<le> now"
  by (induction since events now rule: in_order.induct) auto

definition clock_ok :: "nat \<Rightarrow> TurnWallClock \<Rightarrow> bool" where
  "clock_ok t c \<longleftrightarrow> tw_started_at c + tw_excluded c \<le> (case tw_blocked_since c of Some s \<Rightarrow> s | None \<Rightarrow> t)
     \<and> (\<forall>s. tw_blocked_since c = Some s \<longrightarrow> s \<le> t)"

lemma spent_own_time:
  assumes "clock_ok t c" and "in_order t events now" and "now - tw_started_at c \<le> DURATION_MAX"
  shows "clock_spent now (fold clock_event events c)
    = clock_spent t c + own_time (tw_blocked_since c \<noteq> None) t events now"
  using assms
proof (induction events arbitrary: t c)
  case Nil
  then show ?case
    by (cases "tw_blocked_since c") (simp_all add: clock_ok_def clock_spent_def Let_def)
next
  case (Cons x events)
  obtain u e where x: "x = (u, e)" by (cases x)
  have order: "t \<le> u" "in_order u events now" using Cons.prems(2) by (simp_all add: x)
  have un: "u \<le> now" using in_order_le [OF order(2)] .
  define c1 where "c1 = clock_event x c"
  have ok: "clock_ok u c1 \<and> tw_started_at c1 = tw_started_at c \<and> (tw_blocked_since c1 \<noteq> None \<longleftrightarrow> e = BeginWait)
      \<and> clock_spent u c1 = clock_spent t c + (if tw_blocked_since c \<noteq> None then 0 else u - t)"
  proof (cases e)
    case BeginWait
    then show ?thesis using Cons.prems(1) order(1)
      by (cases "tw_blocked_since c") (auto simp: c1_def x begin_human_wait_def clock_ok_def clock_spent_def Let_def)
  next
    case EndWait
    show ?thesis
    proof (cases "tw_blocked_since c")
      case None
      then show ?thesis using EndWait Cons.prems(1) order(1)
        by (auto simp: c1_def x end_human_wait_def clock_ok_def clock_spent_def Let_def)
    next
      case (Some s)
      have le: "tw_started_at c + tw_excluded c \<le> s" "s \<le> t" using Cons.prems(1) Some by (simp_all add: clock_ok_def)
      then have "tw_excluded c + (u - s) \<le> DURATION_MAX" using Cons.prems(3) un order(1) by linarith
      then show ?thesis using EndWait Some le order(1)
        by (auto simp: c1_def x end_human_wait_def clock_ok_def clock_spent_def Let_def min_def)
    qed
  qed
  then have "clock_spent now (fold clock_event events c1)
      = clock_spent u c1 + own_time (tw_blocked_since c1 \<noteq> None) u events now"
    using Cons.prems(3) order(2) by (intro Cons.IH) auto
  with ok show ?case by (simp add: x c1_def)
qed

text \<open>C36. The time a turn is charged for is exactly the time outside human waits, for every sequence of waits in
  the order of time, nested or repeated signals included.\<close>

theorem clock_charges_own_time:
  assumes "in_order start events now" and "now - start \<le> DURATION_MAX"
  shows "clock_spent now (fold clock_event events (clock_start start budget)) = own_time False start events now"
  using spent_own_time [of start "clock_start start budget" events now] assms
  by (simp add: clock_ok_def clock_start_def clock_spent_def Let_def)

theorem clock_charges_own_time_witness:
  "clock_spent 100 (fold clock_event [(10, BeginWait), (20, BeginWait), (60, EndWait), (70, EndWait)] (clock_start 0 50)) = 50"
  using clock_charges_own_time [of 0 "[(10, BeginWait), (20, BeginWait), (60, EndWait), (70, EndWait)]" 100 50]
  by (simp add: DURATION_MAX_def)



end
