(* ===== verification/WorkflowIr.thy ===== *)
theory WorkflowIr
  imports WorkflowPlans Gates Budgets
begin

text \<open>
  The workflow IR (\<open>crates/workflow/src/lib.rs\<close>): nodes, their validation, and the shape that bounds what a
  fleet launches.

  A constructor of \<open>WorkflowNode\<close> carries the record of its specification and, beside it, the child nodes the
  specification holds. The total of agents saturates at the width of \<open>usize\<close>, 64 bits; depths are
  natural numbers.
\<close>

section \<open>Nodes\<close>

record BudgetSpec =
  bg_max_steps :: "u32 option"
  bg_timeout_secs :: "u64 option"
  bg_max_parallel :: "u8 option"
  bg_max_tokens :: "u64 option"

record PermissionSpec =
  pm_allow_write :: bool
  pm_allow_network :: bool
  pm_deny_all_tools :: bool
  pm_allowed_tools :: "string list"
  pm_file_scope :: "string list"

record ModelPolicy =
  mp_provider :: "string option"
  mp_model :: "string option"
  mp_fallback_models :: "string list"

datatype PromotionStrategy = PromoteAll | FirstSuccess | BestScore | TeacherSelected

record PromotionGate =
  pg_min_score_delta :: int
  pg_max_cost_delta_microusd :: "int option"
  pg_require_all_tests_pass :: bool
  pg_reject_policy_violations :: bool
  pg_reject_stale_replay :: bool

record PromotionPolicy =
  pr_strategy :: PromotionStrategy
  pr_require_teacher_review :: bool
  pr_min_successful_branches :: "u32 option"
  pr_promotion_gate :: PromotionGate

record BranchSpec =
  bs_id :: string
  bs_description :: "string option"
  bs_parallel :: bool
  bs_budget :: BudgetSpec
  bs_permissions :: PermissionSpec
  bs_model_policy :: ModelPolicy

record LeafSpec =
  lf_id :: string
  lf_prompt :: string
  lf_agent_type :: AgentType
  lf_role :: "string option"
  lf_profile :: "string option"
  lf_mode :: TaskMode
  lf_isolation :: IsolationMode
  lf_file_scope :: "string list"
  lf_cwd :: "string option"
  lf_depends_on_results :: "string list"
  lf_budget :: BudgetSpec
  lf_permissions :: PermissionSpec
  lf_model_policy :: ModelPolicy

record ReduceSpec =
  rd_id :: string
  rd_inputs :: "string list"
  rd_prompt :: string
  rd_model_policy :: ModelPolicy

record TeacherReviewSpec =
  tr_id :: string
  tr_candidates :: "string list"
  tr_promotion_policy :: PromotionPolicy

record LoopUntilSpec =
  lu_id :: string
  lu_condition :: string
  lu_max_iterations :: "u32 option"

record CondSpec =
  cd_id :: string
  cd_condition :: string

record ExpandSpec =
  ex_id :: string
  ex_source :: string
  ex_max_children :: "u64 option"

datatype WorkflowNode =
    BranchSet BranchSpec "WorkflowNode list"
  | Leaf LeafSpec
  | Sequence string "WorkflowNode list"
  | Reduce ReduceSpec
  | TeacherReview TeacherReviewSpec
  | LoopUntil LoopUntilSpec "WorkflowNode list"
  | Cond CondSpec "WorkflowNode list" "WorkflowNode list"
  | Expand ExpandSpec "WorkflowNode option"

record WorkflowSpec =
  ws_id :: "string option"
  ws_goal :: string
  ws_description :: "string option"
  ws_budget :: BudgetSpec
  ws_permissions :: PermissionSpec
  ws_model_policy :: ModelPolicy
  ws_promotion_policy :: PromotionPolicy
  ws_gates :: "GateSpec list"
  ws_nodes :: "WorkflowNode list"

fun node_id :: "WorkflowNode \<Rightarrow> string" where
  "node_id (BranchSet spec _) = bs_id spec"
| "node_id (Leaf spec) = lf_id spec"
| "node_id (Sequence lane _) = lane"
| "node_id (Reduce spec) = rd_id spec"
| "node_id (TeacherReview spec) = tr_id spec"
| "node_id (LoopUntil spec _) = lu_id spec"
| "node_id (Cond spec _ _) = cd_id spec"
| "node_id (Expand spec _) = ex_id spec"

fun control_kind_name :: "WorkflowNode \<Rightarrow> string" where
  "control_kind_name (BranchSet _ _) = ''branch_set''"
| "control_kind_name (Leaf _) = ''leaf''"
| "control_kind_name (Sequence _ _) = ''sequence''"
| "control_kind_name (Reduce _) = ''reduce''"
| "control_kind_name (TeacherReview _) = ''teacher_review''"
| "control_kind_name (LoopUntil _ _) = ''loop_until''"
| "control_kind_name (Cond _ _ _) = ''cond''"
| "control_kind_name (Expand _ _) = ''expand''"

section \<open>Validation\<close>

datatype WorkflowExecutionError =
    EmptyWorkflowIr
  | EmptyNodeId string
  | EmptyLeafPrompt string
  | InvalidLeafProfile string string
  | InvalidLeafRole string string
  | DuplicateNodeId string
  | UnknownNodeReference string string string

text \<open>The character tests of a token, on its bytes.\<close>

definition has_token_breaker :: "string \<Rightarrow> bool" where
  "has_token_breaker s =
     (list_ex (\<lambda>i. 0 < ws_len (drop i s)) [0 ..< length s]
      \<or> list_ex (\<lambda>c. c = CHR 0x22 \<or> c = CHR 0x27 \<or> c = CHR 0x60 \<or> c = CHR ''='') s)"

definition normalize_token :: "string \<Rightarrow> string option" where
  "normalize_token raw =
     (let trimmed = trim raw in
      if trimmed = [] then None
      else if has_token_breaker trimmed then None
      else Some (to_ascii_lowercase trimmed))"

definition validate_leaf_profile :: "string \<Rightarrow> string \<Rightarrow> WorkflowExecutionError + unit" where
  "validate_leaf_profile leaf profile =
     (if profile = [] \<or> has_token_breaker profile then Inl (InvalidLeafProfile leaf profile) else Inr ())"

definition validate_leaf_role :: "string \<Rightarrow> string \<Rightarrow> WorkflowExecutionError + unit" where
  "validate_leaf_role leaf role =
     (if normalize_token role = None then Inl (InvalidLeafRole leaf role) else Inr ())"

text \<open>\<open>seen\<close> is the set of ids, returned grown.\<close>

fun validate_workflow_nodes_inner :: "WorkflowNode list \<Rightarrow> string set \<Rightarrow> WorkflowExecutionError + string set"
  and validate_workflow_node :: "WorkflowNode \<Rightarrow> string set \<Rightarrow> WorkflowExecutionError + string set" where
  "validate_workflow_nodes_inner [] seen = Inr seen"
| "validate_workflow_nodes_inner (node # nodes) seen =
     (if trim (node_id node) = [] then Inl (EmptyNodeId (control_kind_name node))
      else if node_id node \<in> seen then Inl (DuplicateNodeId (node_id node))
      else case validate_workflow_node node (insert (node_id node) seen) of
        Inl err \<Rightarrow> Inl err
      | Inr seen \<Rightarrow> validate_workflow_nodes_inner nodes seen)"
| "validate_workflow_node (BranchSet spec children) seen = validate_workflow_nodes_inner children seen"
| "validate_workflow_node (Leaf spec) seen =
     (if trim (lf_prompt spec) = [] then Inl (EmptyLeafPrompt (lf_id spec))
      else case (case lf_role spec of Some role \<Rightarrow> validate_leaf_role (lf_id spec) role | None \<Rightarrow> Inr ()) of
        Inl err \<Rightarrow> Inl err
      | Inr _ \<Rightarrow>
          (case (case lf_profile spec of Some profile \<Rightarrow> validate_leaf_profile (lf_id spec) profile | None \<Rightarrow> Inr ()) of
             Inl err \<Rightarrow> Inl err
           | Inr _ \<Rightarrow> Inr seen))"
| "validate_workflow_node (Sequence lane children) seen = validate_workflow_nodes_inner children seen"
| "validate_workflow_node (LoopUntil spec children) seen = validate_workflow_nodes_inner children seen"
| "validate_workflow_node (Cond spec then_nodes else_nodes) seen =
     (case validate_workflow_nodes_inner then_nodes seen of
        Inl err \<Rightarrow> Inl err
      | Inr seen \<Rightarrow> validate_workflow_nodes_inner else_nodes seen)"
| "validate_workflow_node (Reduce spec) seen = Inr seen"
| "validate_workflow_node (TeacherReview spec) seen = Inr seen"
| "validate_workflow_node (Expand spec template) seen = Inr seen"

fun validate_known_references :: "string \<Rightarrow> string \<Rightarrow> string list \<Rightarrow> string set \<Rightarrow> WorkflowExecutionError + unit" where
  "validate_known_references node field [] known_ids = Inr ()"
| "validate_known_references node field (reference # references) known_ids =
     (if reference \<notin> known_ids then Inl (UnknownNodeReference node field reference)
      else validate_known_references node field references known_ids)"

fun validate_workflow_references :: "WorkflowNode list \<Rightarrow> string set \<Rightarrow> WorkflowExecutionError + unit"
  and validate_node_references :: "WorkflowNode \<Rightarrow> string set \<Rightarrow> WorkflowExecutionError + unit" where
  "validate_workflow_references [] known_ids = Inr ()"
| "validate_workflow_references (node # nodes) known_ids =
     (case validate_node_references node known_ids of
        Inl err \<Rightarrow> Inl err
      | Inr _ \<Rightarrow> validate_workflow_references nodes known_ids)"
| "validate_node_references (BranchSet spec children) known_ids = validate_workflow_references children known_ids"
| "validate_node_references (Leaf spec) known_ids =
     validate_known_references (lf_id spec) ''depends_on_results'' (lf_depends_on_results spec) known_ids"
| "validate_node_references (Sequence lane children) known_ids = validate_workflow_references children known_ids"
| "validate_node_references (Reduce spec) known_ids =
     validate_known_references (rd_id spec) ''inputs'' (rd_inputs spec) known_ids"
| "validate_node_references (TeacherReview spec) known_ids =
     validate_known_references (tr_id spec) ''candidates'' (tr_candidates spec) known_ids"
| "validate_node_references (LoopUntil spec children) known_ids = validate_workflow_references children known_ids"
| "validate_node_references (Cond spec then_nodes else_nodes) known_ids =
     (case validate_workflow_references then_nodes known_ids of
        Inl err \<Rightarrow> Inl err
      | Inr _ \<Rightarrow> validate_workflow_references else_nodes known_ids)"
| "validate_node_references (Expand spec template) known_ids = Inr ()"

definition validate_workflow_nodes :: "WorkflowNode list \<Rightarrow> WorkflowExecutionError + unit" where
  "validate_workflow_nodes nodes =
     (if nodes = [] then Inl EmptyWorkflowIr
      else case validate_workflow_nodes_inner nodes {} of
        Inl err \<Rightarrow> Inl err
      | Inr seen \<Rightarrow> validate_workflow_references nodes seen)"

definition validate_workflow_node_shapes :: "WorkflowNode list \<Rightarrow> WorkflowExecutionError + unit" where
  "validate_workflow_node_shapes nodes =
     (case validate_workflow_nodes_inner nodes {} of Inl err \<Rightarrow> Inl err | Inr _ \<Rightarrow> Inr ())"

section \<open>The shape of a fleet\<close>

record WorkflowFleetLimits =
  fl_max_total_agents :: u64
  fl_max_depth :: nat

record WorkflowFleetShape =
  fs_total_agents :: u64
  fs_max_depth :: nat

datatype WorkflowFleetLimitError =
    InvalidWorkflow WorkflowExecutionError
  | TooManyAgents u64 u64
  | RecursionTooDeep nat nat
  | UnboundedExpand string
  | MissingExpandTemplate string
  | UnboundedLoop string

definition default_limits :: WorkflowFleetLimits where
  "default_limits = \<lparr>fl_max_total_agents = 0, fl_max_depth = 0\<rparr>"

definition shape_add :: "WorkflowFleetShape \<Rightarrow> WorkflowFleetShape \<Rightarrow> WorkflowFleetShape" where
  "shape_add a b = \<lparr>fs_total_agents = sat_add (fs_total_agents a) (fs_total_agents b),
     fs_max_depth = max (fs_max_depth a) (fs_max_depth b)\<rparr>"

definition shape_repeat :: "WorkflowFleetShape \<Rightarrow> u64 \<Rightarrow> WorkflowFleetShape" where
  "shape_repeat a n = a\<lparr>fs_total_agents := sat_mul (fs_total_agents a) n\<rparr>"

fun estimate_fleet_shape_at_depth :: "WorkflowFleetLimits \<Rightarrow> nat \<Rightarrow> WorkflowNode list
    \<Rightarrow> WorkflowFleetLimitError + WorkflowFleetShape"
  and fold_fleet_shape :: "WorkflowFleetLimits \<Rightarrow> nat \<Rightarrow> WorkflowFleetShape \<Rightarrow> WorkflowNode list
    \<Rightarrow> WorkflowFleetLimitError + WorkflowFleetShape"
  and estimate_node_fleet_shape :: "WorkflowFleetLimits \<Rightarrow> nat \<Rightarrow> WorkflowNode
    \<Rightarrow> WorkflowFleetLimitError + WorkflowFleetShape" where
  "estimate_fleet_shape_at_depth limits depth nodes =
     (if 0 < fl_max_depth limits \<and> fl_max_depth limits < depth then Inl (RecursionTooDeep depth (fl_max_depth limits))
      else fold_fleet_shape limits depth \<lparr>fs_total_agents = 0, fs_max_depth = 0\<rparr> nodes)"
| "fold_fleet_shape limits depth shape [] = Inr shape"
| "fold_fleet_shape limits depth shape (node # nodes) =
     (case estimate_node_fleet_shape limits depth node of
        Inl err \<Rightarrow> Inl err
      | Inr s \<Rightarrow> fold_fleet_shape limits depth (shape_add shape s) nodes)"
| "estimate_node_fleet_shape limits depth (Leaf spec) = Inr \<lparr>fs_total_agents = 1, fs_max_depth = depth\<rparr>"
| "estimate_node_fleet_shape limits depth (BranchSet spec children) = estimate_fleet_shape_at_depth limits (depth + 1) children"
| "estimate_node_fleet_shape limits depth (Sequence lane children) = estimate_fleet_shape_at_depth limits depth children"
| "estimate_node_fleet_shape limits depth (Reduce spec) = Inr \<lparr>fs_total_agents = 0, fs_max_depth = 0\<rparr>"
| "estimate_node_fleet_shape limits depth (TeacherReview spec) = Inr \<lparr>fs_total_agents = 0, fs_max_depth = 0\<rparr>"
| "estimate_node_fleet_shape limits depth (LoopUntil spec children) =
     (case lu_max_iterations spec of
        None \<Rightarrow> Inl (UnboundedLoop (lu_id spec))
      | Some iterations \<Rightarrow>
          (case estimate_fleet_shape_at_depth limits depth children of
             Inl err \<Rightarrow> Inl err
           | Inr shape \<Rightarrow> Inr (shape_repeat shape (max (ucast iterations) 1))))"
| "estimate_node_fleet_shape limits depth (Cond spec then_nodes else_nodes) =
     (case estimate_fleet_shape_at_depth limits depth then_nodes of
        Inl err \<Rightarrow> Inl err
      | Inr shape \<Rightarrow>
          (case estimate_fleet_shape_at_depth limits depth else_nodes of
             Inl err \<Rightarrow> Inl err
           | Inr other \<Rightarrow> Inr (shape_add shape other)))"
| "estimate_node_fleet_shape limits depth (Expand spec template) =
     (case ex_max_children spec of
        None \<Rightarrow> Inl (UnboundedExpand (ex_id spec))
      | Some max_children \<Rightarrow>
          (case template of
             None \<Rightarrow> Inl (MissingExpandTemplate (ex_id spec))
           | Some t \<Rightarrow>
               (case validate_workflow_node_shapes [t] of
                  Inl source \<Rightarrow> Inl (InvalidWorkflow source)
                | Inr _ \<Rightarrow>
                    (case estimate_node_fleet_shape limits depth t of
                       Inl err \<Rightarrow> Inl err
                     | Inr shape \<Rightarrow> Inr (shape_repeat shape max_children)))))"

definition estimate_fleet_shape :: "WorkflowFleetLimits \<Rightarrow> WorkflowNode list \<Rightarrow> WorkflowFleetLimitError + WorkflowFleetShape" where
  "estimate_fleet_shape limits nodes = estimate_fleet_shape_at_depth limits 1 nodes"

definition validate_for_fleet_with_limits :: "WorkflowFleetLimits \<Rightarrow> WorkflowSpec \<Rightarrow> WorkflowFleetLimitError + WorkflowFleetShape" where
  "validate_for_fleet_with_limits limits spec =
     (case estimate_fleet_shape limits (ws_nodes spec) of
        Inl err \<Rightarrow> Inl err
      | Inr shape \<Rightarrow>
          (case validate_workflow_nodes (ws_nodes spec) of
             Inl source \<Rightarrow> Inl (InvalidWorkflow source)
           | Inr _ \<Rightarrow>
               if 0 < fl_max_total_agents limits \<and> fl_max_total_agents limits < fs_total_agents shape
               then Inl (TooManyAgents (fs_total_agents shape) (fl_max_total_agents limits))
               else Inr shape))"

definition validate_for_fleet :: "WorkflowSpec \<Rightarrow> WorkflowFleetLimitError + WorkflowFleetShape" where
  "validate_for_fleet spec = validate_for_fleet_with_limits default_limits spec"

section \<open>Leaves\<close>

definition resolve_isolation :: "bool \<Rightarrow> IsolationMode \<Rightarrow> IsolationMode" where
  "resolve_isolation parallel_write m =
     (if m = AutoIsolation then if parallel_write then Worktree else SharedCheckout else m)"

definition wants_worktree :: "bool \<Rightarrow> IsolationMode \<Rightarrow> bool" where
  "wants_worktree parallel_write m \<longleftrightarrow> resolve_isolation parallel_write m = Worktree"

definition leaf_is_write_capable :: "LeafSpec \<Rightarrow> bool" where
  "leaf_is_write_capable spec \<longleftrightarrow> lf_mode spec = ReadWrite \<or> pm_allow_write (lf_permissions spec)"

definition leaf_wants_worktree :: "bool \<Rightarrow> LeafSpec \<Rightarrow> bool" where
  "leaf_wants_worktree in_parallel spec = wants_worktree (in_parallel \<and> leaf_is_write_capable spec) (lf_isolation spec)"

end
