(* ===== verification/WorkflowExec.thy ===== *)
theory WorkflowExec
  imports WorkflowIr Decimal
begin

text \<open>
  The deterministic executor of the workflow IR (\<open>MockWorkflowExecutor\<close> of \<open>crates/workflow/src/lib.rs\<close>).

  The executor and the execution it fills are returned together; an error returns neither, as the caller of
  \<open>run\<close> sees it. Executing terminates: an expansion consumes its generated nodes, every other node executes
  smaller ones, and a loop counts its iterations.
\<close>

section \<open>Results\<close>

datatype WorkflowRunStatus = RunPending | Running | Succeeded | Failed | Cancelled | BudgetExceeded

datatype ControlNodeKind = KBranchSet | KLeaf | KSequence | KReduce | KTeacherReview | KLoopUntil | KCond | KExpand

record WorkflowUsage =
  us_input_tokens :: "u64 option"
  us_output_tokens :: "u64 option"
  us_cost_microusd :: "u64 option"

definition no_usage :: WorkflowUsage where
  "no_usage = \<lparr>us_input_tokens = None, us_output_tokens = None, us_cost_microusd = None\<rparr>"

definition zero_usage :: WorkflowUsage where
  "zero_usage = \<lparr>us_input_tokens = Some 0, us_output_tokens = Some 0, us_cost_microusd = Some 0\<rparr>"

fun sum_reported :: "u64 option \<Rightarrow> u64 option \<Rightarrow> u64 option" where
  "sum_reported (Some left) (Some right) = Some (sat_add left right)"
| "sum_reported _ _ = None"

definition total_tokens :: "WorkflowUsage \<Rightarrow> u64 option" where
  "total_tokens u = sum_reported (us_input_tokens u) (us_output_tokens u)"

definition usage_add :: "WorkflowUsage \<Rightarrow> WorkflowUsage \<Rightarrow> WorkflowUsage" where
  "usage_add a b = \<lparr>us_input_tokens = sum_reported (us_input_tokens a) (us_input_tokens b),
     us_output_tokens = sum_reported (us_output_tokens a) (us_output_tokens b),
     us_cost_microusd = sum_reported (us_cost_microusd a) (us_cost_microusd b)\<rparr>"

record WorkflowMemoUsage =
  mu_armh_hits :: u64
  mu_armh_misses :: u64
  mu_armh_saved_estimated_tokens :: u64
  mu_provider_prompt_cache_hits :: u64
  mu_provider_prompt_cache_misses :: u64

definition no_memo_usage :: WorkflowMemoUsage where
  "no_memo_usage = \<lparr>mu_armh_hits = 0, mu_armh_misses = 0, mu_armh_saved_estimated_tokens = 0,
     mu_provider_prompt_cache_hits = 0, mu_provider_prompt_cache_misses = 0\<rparr>"

definition memo_usage_add :: "WorkflowMemoUsage \<Rightarrow> WorkflowMemoUsage \<Rightarrow> WorkflowMemoUsage" where
  "memo_usage_add a b = \<lparr>mu_armh_hits = sat_add (mu_armh_hits a) (mu_armh_hits b),
     mu_armh_misses = sat_add (mu_armh_misses a) (mu_armh_misses b),
     mu_armh_saved_estimated_tokens = sat_add (mu_armh_saved_estimated_tokens a) (mu_armh_saved_estimated_tokens b),
     mu_provider_prompt_cache_hits = sat_add (mu_provider_prompt_cache_hits a) (mu_provider_prompt_cache_hits b),
     mu_provider_prompt_cache_misses = sat_add (mu_provider_prompt_cache_misses a) (mu_provider_prompt_cache_misses b)\<rparr>"

record LeafResult =
  lf_leaf_id :: string
  lf_task_id :: string
  lf_result_role :: "string option"
  lf_result_profile :: "string option"
  lf_status :: WorkflowRunStatus
  lf_usage :: WorkflowUsage
  lf_memo_usage :: WorkflowMemoUsage
  lf_output :: "string option"
  lf_artifacts :: "string list"
  lf_schema_error :: "string option"

record BranchResult =
  br_branch_id :: string
  br_task_id :: string
  br_status :: WorkflowRunStatus
  br_usage :: WorkflowUsage
  br_memo_usage :: WorkflowMemoUsage
  br_artifacts :: "string list"
  br_notes :: "string option"

record ControlNodeResult =
  cn_node_id :: string
  cn_kind :: ControlNodeKind
  cn_status :: WorkflowRunStatus
  cn_selected_children :: "string list"
  cn_summary :: "string option"

record WorkflowExecution =
  we_status :: WorkflowRunStatus
  we_usage :: WorkflowUsage
  we_memo_usage :: WorkflowMemoUsage
  we_leaf_results :: "LeafResult list"
  we_branch_results :: "BranchResult list"
  we_control_node_results :: "ControlNodeResult list"

definition default_execution :: WorkflowExecution where
  "default_execution = \<lparr>we_status = Succeeded, we_usage = no_usage, we_memo_usage = no_memo_usage,
     we_leaf_results = [], we_branch_results = [], we_control_node_results = []\<rparr>"

definition should_stop_mock_execution :: "WorkflowExecution \<Rightarrow> bool" where
  "should_stop_mock_execution e \<longleftrightarrow> we_status e = Cancelled \<or> we_status e = BudgetExceeded"

fun mark_execution_for_status :: "WorkflowRunStatus \<Rightarrow> WorkflowExecution \<Rightarrow> WorkflowExecution" where
  "mark_execution_for_status Failed e = e\<lparr>we_status := Failed\<rparr>"
| "mark_execution_for_status Cancelled e = e\<lparr>we_status := Cancelled\<rparr>"
| "mark_execution_for_status BudgetExceeded e = e\<lparr>we_status := BudgetExceeded\<rparr>"
| "mark_execution_for_status _ e = e"

definition aggregate_mock_status :: "LeafResult list \<Rightarrow> WorkflowRunStatus" where
  "aggregate_mock_status results =
     (if list_ex (\<lambda>r. lf_status r = Cancelled) results then Cancelled
      else if list_ex (\<lambda>r. lf_status r = BudgetExceeded) results then BudgetExceeded
      else if list_ex (\<lambda>r. lf_status r \<noteq> Succeeded) results then Failed
      else Succeeded)"

definition push_control :: "string \<Rightarrow> ControlNodeKind \<Rightarrow> WorkflowRunStatus \<Rightarrow> string list \<Rightarrow> string
    \<Rightarrow> WorkflowExecution \<Rightarrow> WorkflowExecution" where
  "push_control node kind status selected summary e =
     e\<lparr>we_control_node_results := we_control_node_results e @
       [\<lparr>cn_node_id = node, cn_kind = kind, cn_status = status, cn_selected_children = selected, cn_summary = Some summary\<rparr>]\<rparr>"

section \<open>Leaves\<close>

record MockLeafOutcome =
  mo_status :: WorkflowRunStatus
  mo_usage :: WorkflowUsage
  mo_memo_usage :: WorkflowMemoUsage
  mo_output :: "string option"
  mo_artifacts :: "string list"

definition outcome_succeeded :: "string \<Rightarrow> MockLeafOutcome" where
  "outcome_succeeded out = \<lparr>mo_status = Succeeded, mo_usage = no_usage, mo_memo_usage = no_memo_usage,
     mo_output = Some out, mo_artifacts = []\<rparr>"

text \<open>A leaf that is turned away before it runs.\<close>

definition outcome_refused :: "WorkflowRunStatus \<Rightarrow> string \<Rightarrow> MockLeafOutcome" where
  "outcome_refused status out = \<lparr>mo_status = status, mo_usage = zero_usage, mo_memo_usage = no_memo_usage,
     mo_output = Some out, mo_artifacts = []\<rparr>"

record MockWorkflowExecutor =
  me_leaf_outcomes :: "(string, MockLeafOutcome) btree"
  me_predicate_results :: "(string, bool list) btree"
  me_generated_nodes :: "(string, WorkflowNode list) btree"
  me_cancelled :: bool
  me_max_leaf_steps :: "u32 option"
  me_leaf_steps_executed :: u32
  me_max_leaf_tokens :: "u64 option"
  me_leaf_tokens_used :: u64

definition step_budget_exhausted :: "MockWorkflowExecutor \<Rightarrow> bool" where
  "step_budget_exhausted ex \<longleftrightarrow>
     (case me_max_leaf_steps ex of Some n \<Rightarrow> 0 < n \<and> n \<le> me_leaf_steps_executed ex | None \<Rightarrow> False)"

definition token_budget_exhausted :: "MockWorkflowExecutor \<Rightarrow> bool" where
  "token_budget_exhausted ex \<longleftrightarrow>
     (case me_max_leaf_tokens ex of Some n \<Rightarrow> n \<le> me_leaf_tokens_used ex | None \<Rightarrow> False)"

definition mock_leaf_outcome :: "LeafSpec \<Rightarrow> MockWorkflowExecutor \<Rightarrow> MockLeafOutcome \<times> MockWorkflowExecutor" where
  "mock_leaf_outcome spec ex =
     (if me_cancelled ex then (outcome_refused Cancelled ''mock workflow cancelled before leaf execution'', ex)
      else if step_budget_exhausted ex
      then (outcome_refused BudgetExceeded ''mock workflow leaf step budget exhausted'', ex)
      else if token_budget_exhausted ex \<or> bg_max_tokens (lf_budget spec) = Some 0
      then (outcome_refused BudgetExceeded ''mock workflow leaf token budget exhausted'', ex)
      else
        (let outcome = (case bt_get (me_leaf_outcomes ex) (lf_id spec) of Some outcome \<Rightarrow> outcome
               | None \<Rightarrow> outcome_succeeded (''mock leaf '' @ lf_id spec));
             ex = ex\<lparr>me_leaf_steps_executed := sat_add (me_leaf_steps_executed ex) 1,
                     me_leaf_outcomes := bt_remove (lf_id spec) (me_leaf_outcomes ex)\<rparr>
         in case (bg_max_tokens (lf_budget spec), total_tokens (mo_usage outcome)) of
              (Some cap, Some tokens) \<Rightarrow>
                if cap < tokens
                then (outcome\<lparr>mo_status := BudgetExceeded,
                       mo_output := Some (''mock workflow leaf token budget exhausted ('' @ show_nat (unat tokens)
                         @ '' > '' @ show_nat (unat cap) @ '')'')\<rparr>, ex)
                else (outcome, ex\<lparr>me_leaf_tokens_used := sat_add (me_leaf_tokens_used ex) tokens\<rparr>)
            | (None, Some tokens) \<Rightarrow> (outcome, ex\<lparr>me_leaf_tokens_used := sat_add (me_leaf_tokens_used ex) tokens\<rparr>)
            | (_, None) \<Rightarrow> (outcome, ex)))"

definition execute_leaf :: "LeafSpec \<Rightarrow> MockWorkflowExecutor \<Rightarrow> WorkflowExecution \<Rightarrow> MockWorkflowExecutor \<times> WorkflowExecution" where
  "execute_leaf spec ex e =
     (case mock_leaf_outcome spec ex of
        (outcome, ex) \<Rightarrow>
          (let e = mark_execution_for_status (mo_status outcome) e in
           (ex, e\<lparr>we_usage := (if we_leaf_results e = [] then mo_usage outcome else usage_add (we_usage e) (mo_usage outcome)),
                  we_memo_usage := memo_usage_add (we_memo_usage e) (mo_memo_usage outcome),
                  we_leaf_results := we_leaf_results e @
                    [\<lparr>lf_leaf_id = lf_id spec, lf_task_id = lf_id spec, lf_result_role = lf_role spec,
                      lf_result_profile = lf_profile spec, lf_status = mo_status outcome, lf_usage = mo_usage outcome,
                      lf_memo_usage = mo_memo_usage outcome, lf_output = mo_output outcome,
                      lf_artifacts = mo_artifacts outcome, lf_schema_error = None\<rparr>]\<rparr>)))"

definition next_predicate_result :: "string \<Rightarrow> MockWorkflowExecutor \<Rightarrow> bool \<times> MockWorkflowExecutor" where
  "next_predicate_result node ex =
     (case bt_get (me_predicate_results ex) node of
        Some (b # results) \<Rightarrow> (b, ex\<lparr>me_predicate_results := bt_insert node results (me_predicate_results ex)\<rparr>)
      | _ \<Rightarrow> (False, ex))"

section \<open>Control nodes\<close>

text \<open>What a branch set adds behind its children, whose results start at \<open>before\<close>.\<close>

definition branch_usage :: "LeafResult list \<Rightarrow> WorkflowUsage" where
  "branch_usage results =
     (case results of [] \<Rightarrow> no_usage | r # rs \<Rightarrow> fold (\<lambda>r u. usage_add u (lf_usage r)) rs (lf_usage r))"

definition finish_branch_set :: "BranchSpec \<Rightarrow> WorkflowNode list \<Rightarrow> nat \<Rightarrow> WorkflowExecution \<Rightarrow> WorkflowExecution" where
  "finish_branch_set spec children start e =
     (let results = drop start (we_leaf_results e);
          status = aggregate_mock_status results;
          usage = branch_usage results;
          memo_usage = fold (\<lambda>r u. memo_usage_add u (lf_memo_usage r)) results no_memo_usage;
          e = mark_execution_for_status status e;
          e = e\<lparr>we_branch_results := we_branch_results e @
                 [\<lparr>br_branch_id = bs_id spec, br_task_id = bs_id spec, br_status = status, br_usage = usage,
                   br_memo_usage = memo_usage, br_artifacts = [],
                   br_notes = Some ''mock branch set executed without runtime fanout''\<rparr>]\<rparr>
      in push_control (bs_id spec) KBranchSet status (map node_id children)
           ''branch set scaffold executed children deterministically'' e)"

definition finish_loop :: "LoopUntilSpec \<Rightarrow> WorkflowNode list \<Rightarrow> u32 \<Rightarrow> bool \<Rightarrow> WorkflowExecution \<Rightarrow> WorkflowExecution" where
  "finish_loop spec children iterations passed e =
     (let status = (if should_stop_mock_execution e then we_status e else if passed then Succeeded else Failed);
          e = mark_execution_for_status status e
      in push_control (lu_id spec) KLoopUntil status (map node_id children)
           (''loop_until iterations='' @ show_nat (unat iterations)) e)"

definition finish_selected :: "string \<Rightarrow> ControlNodeKind \<Rightarrow> WorkflowNode list \<Rightarrow> string \<Rightarrow> WorkflowExecution \<Rightarrow> WorkflowExecution" where
  "finish_selected node kind selected summary e =
     push_control node kind (if should_stop_mock_execution e then we_status e else Succeeded) (map node_id selected) summary e"

definition truncate_nodes :: "u64 option \<Rightarrow> WorkflowNode list \<Rightarrow> WorkflowNode list" where
  "truncate_nodes max_children nodes = (case max_children of Some n \<Rightarrow> take (unat n) nodes | None \<Rightarrow> nodes)"

type_synonym Exec = "MockWorkflowExecutor \<times> WorkflowExecution"

function (sequential) execute_nodes :: "WorkflowNode list \<Rightarrow> MockWorkflowExecutor \<Rightarrow> WorkflowExecution
    \<Rightarrow> WorkflowExecutionError + Exec"
  and execute_node :: "WorkflowNode \<Rightarrow> MockWorkflowExecutor \<Rightarrow> WorkflowExecution \<Rightarrow> WorkflowExecutionError + Exec"
  and execute_loop :: "string \<Rightarrow> WorkflowNode list \<Rightarrow> u32 \<Rightarrow> u32 \<Rightarrow> MockWorkflowExecutor \<Rightarrow> WorkflowExecution
    \<Rightarrow> WorkflowExecutionError + u32 \<times> bool \<times> Exec" where
  "execute_nodes [] ex e = Inr (ex, e)"
| "execute_nodes (node # nodes) ex e =
     (if should_stop_mock_execution e then Inr (ex, e)
      else case execute_node node ex e of
        Inl err \<Rightarrow> Inl err
      | Inr (ex', e') \<Rightarrow> execute_nodes nodes ex' e')"
| "execute_node (BranchSet spec children) ex e =
     (case execute_nodes children ex e of
        Inl err \<Rightarrow> Inl err
      | Inr (ex', e') \<Rightarrow> Inr (ex', finish_branch_set spec children (length (we_leaf_results e)) e'))"
| "execute_node (Leaf spec) ex e = Inr (execute_leaf spec ex e)"
| "execute_node (Sequence lane children) ex e =
     (case execute_nodes children ex e of
        Inl err \<Rightarrow> Inl err
      | Inr (ex', e') \<Rightarrow> Inr (ex', push_control lane KSequence (we_status e') (map node_id children)
          ''sequence executed in declaration order'' e'))"
| "execute_node (Reduce spec) ex e =
     Inr (ex, push_control (rd_id spec) KReduce Succeeded (rd_inputs spec) (rd_prompt spec) e)"
| "execute_node (TeacherReview spec) ex e =
     Inr (ex, push_control (tr_id spec) KTeacherReview Succeeded (tr_candidates spec)
       ''teacher review scaffold selected declared candidates'' e)"
| "execute_node (LoopUntil spec children) ex e =
     (case execute_loop (lu_id spec) children (max (unwrap_or (lu_max_iterations spec) 1) 1) 0 ex e of
        Inl err \<Rightarrow> Inl err
      | Inr (iterations, passed, ex', e') \<Rightarrow> Inr (ex', finish_loop spec children iterations passed e'))"
| "execute_node (Cond spec then_nodes else_nodes) ex e =
     (case next_predicate_result (cd_id spec) ex of
        (passed, ex1) \<Rightarrow>
          (case (if passed then execute_nodes then_nodes ex1 e else execute_nodes else_nodes ex1 e) of
             Inl err \<Rightarrow> Inl err
           | Inr (ex', e') \<Rightarrow> Inr (ex', finish_selected (cd_id spec) KCond (if passed then then_nodes else else_nodes)
               (''predicate_result='' @ (if passed then ''true'' else ''false'')) e')))"
| "execute_node (Expand spec template) ex e =
     (let nodes = truncate_nodes (ex_max_children spec)
            (case bt_get (me_generated_nodes ex) (ex_id spec) of Some nodes \<Rightarrow> nodes | None \<Rightarrow> []);
          ex1 = ex\<lparr>me_generated_nodes := bt_remove (ex_id spec) (me_generated_nodes ex)\<rparr>
      in case validate_workflow_node_shapes nodes of
           Inl err \<Rightarrow> Inl err
         | Inr _ \<Rightarrow>
             (case execute_nodes nodes ex1 e of
                Inl err \<Rightarrow> Inl err
              | Inr (ex', e') \<Rightarrow> Inr (ex', finish_selected (ex_id spec) KExpand nodes
                  (''expanded_from='' @ ex_source spec) e')))"
| "execute_loop node children max_iterations iterations ex e =
     (if \<not> iterations < max_iterations \<or> should_stop_mock_execution e then Inr (iterations, False, ex, e)
      else case execute_nodes children ex e of
        Inl err \<Rightarrow> Inl err
      | Inr (ex', e') \<Rightarrow>
          if should_stop_mock_execution e' then Inr (iterations + 1, False, ex', e')
          else (case next_predicate_result node ex' of
                  (True, ex2) \<Rightarrow> Inr (iterations + 1, True, ex2, e')
                | (False, ex2) \<Rightarrow> execute_loop node children max_iterations (iterations + 1) ex2 e'))"
  by pat_completeness auto

definition mock_run :: "MockWorkflowExecutor \<Rightarrow> WorkflowSpec \<Rightarrow> WorkflowExecutionError + Exec" where
  "mock_run ex spec =
     (case validate_workflow_nodes (ws_nodes spec) of
        Inl err \<Rightarrow> Inl err
      | Inr _ \<Rightarrow> execute_nodes (ws_nodes spec) ex default_execution)"

text \<open>Generated nodes are only ever consumed.\<close>

lemma next_predicate_generated [simp]:
  "next_predicate_result node ex = (b, ex') \<Longrightarrow> me_generated_nodes ex' = me_generated_nodes ex"
  by (auto simp: next_predicate_result_def split: option.splits list.splits)

lemma mock_leaf_generated: "me_generated_nodes (snd (mock_leaf_outcome spec ex)) = me_generated_nodes ex"
  by (auto simp: mock_leaf_outcome_def Let_def split: option.splits prod.splits)

lemma execute_leaf_generated [simp]: "execute_leaf spec ex e = (ex', e') \<Longrightarrow> me_generated_nodes ex' = me_generated_nodes ex"
  using mock_leaf_generated [of spec ex] by (auto simp: execute_leaf_def Let_def split: prod.splits)

lemma bt_remove_length: "length (bt_remove k m) \<le> length m"
  by (simp add: bt_remove_def)

lemma bt_remove_shorter: "bt_get m k = Some v \<Longrightarrow> length (bt_remove k m) < length m"
  unfolding bt_remove_def by (rule length_filter_less [of "(k, v)"]) (auto dest: map_of_SomeD)

section \<open>Relations every execution keeps\<close>

locale executor_relation =
  fixes R :: "Exec \<Rightarrow> Exec \<Rightarrow> bool"
  assumes same: "R s s"
    and steps: "R s t \<Longrightarrow> R t u \<Longrightarrow> R s u"
    and leaf: "\<not> should_stop_mock_execution e \<Longrightarrow> R (ex, e) (execute_leaf spec ex e)"
    and predicate: "next_predicate_result node ex = (b, ex') \<Longrightarrow> R (ex, e) (ex', e)"
    and consume: "R (ex, e) (ex\<lparr>me_generated_nodes := bt_remove node (me_generated_nodes ex)\<rparr>, e)"
    and branch: "\<not> should_stop_mock_execution e \<Longrightarrow> R (ex, e) (ex', e') \<Longrightarrow>
      R (ex', e') (ex', finish_branch_set bspec children (length (we_leaf_results e)) e')"
    and loop: "R (ex, e) (ex, finish_loop lspec children iterations passed e)"
    and control: "R (ex, e) (ex, push_control node kind status selected summary e)"
begin

abbreviation kept :: "(WorkflowExecutionError + Exec) \<Rightarrow> Exec \<Rightarrow> bool" where
  "kept r s \<equiv> \<forall>t. r = Inr t \<longrightarrow> R s t"

lemma kept_nodes_step:
  assumes "\<not> should_stop_mock_execution e \<Longrightarrow> kept (execute_node node ex e) (ex, e)"
    and "\<And>ex' e'. \<not> should_stop_mock_execution e \<Longrightarrow> execute_node node ex e = Inr (ex', e') \<Longrightarrow> kept (execute_nodes nodes ex' e') (ex', e')"
    and "execute_nodes (node # nodes) ex e = (if should_stop_mock_execution e then Inr (ex, e)
      else case execute_node node ex e of Inl err \<Rightarrow> Inl err | Inr (ex', e') \<Rightarrow> execute_nodes nodes ex' e')"
  shows "kept (execute_nodes (node # nodes) ex e) (ex, e)"
proof (cases "should_stop_mock_execution e")
  case True
  then show ?thesis using assms(3) same by simp
next
  case False
  show ?thesis
  proof (cases "execute_node node ex e")
    case (Inl err)
    then show ?thesis using assms(3) False by simp
  next
    case (Inr r)
    obtain ex1 e1 where r: "r = (ex1, e1)" by (cases r)
    have "R (ex, e) (ex1, e1)" using assms(1) [OF False] Inr r by simp
    moreover have "kept (execute_nodes nodes ex1 e1) (ex1, e1)" using assms(2) [OF False] Inr r by simp
    ultimately show ?thesis using assms(3) False Inr r steps by auto
  qed
qed

lemma kept_loop_step:
  assumes "iterations < n \<Longrightarrow> \<not> should_stop_mock_execution e \<Longrightarrow> kept (execute_nodes children ex e) (ex, e)"
    and "\<And>ex' e' ex2 k passed t. iterations < n \<Longrightarrow> \<not> should_stop_mock_execution e \<Longrightarrow> execute_nodes children ex e = Inr (ex', e') \<Longrightarrow>
      \<not> should_stop_mock_execution e' \<Longrightarrow> next_predicate_result node ex' = (False, ex2) \<Longrightarrow>
      execute_loop node children n (iterations + 1) ex2 e' = Inr (k, passed, t) \<Longrightarrow> R (ex2, e') t"
    and "execute_loop node children n iterations ex e =
      (if \<not> iterations < n \<or> should_stop_mock_execution e then Inr (iterations, False, ex, e)
       else case execute_nodes children ex e of
         Inl err \<Rightarrow> Inl err
       | Inr (ex', e') \<Rightarrow>
           if should_stop_mock_execution e' then Inr (iterations + 1, False, ex', e')
           else (case next_predicate_result node ex' of
                   (True, ex2) \<Rightarrow> Inr (iterations + 1, True, ex2, e')
                 | (False, ex2) \<Rightarrow> execute_loop node children n (iterations + 1) ex2 e'))"
    and result: "execute_loop node children n iterations ex e = Inr (k, passed, t)"
  shows "R (ex, e) t"
proof (cases "\<not> iterations < n \<or> should_stop_mock_execution e")
  case True
  then show ?thesis using assms(3) result same by simp
next
  case False
  show ?thesis
  proof (cases "execute_nodes children ex e")
    case (Inl err)
    then show ?thesis using assms(3) False result by simp
  next
    case (Inr r)
    obtain ex1 e1 where r: "r = (ex1, e1)" by (cases r)
    have first: "R (ex, e) (ex1, e1)" using assms(1) False Inr r by simp
    obtain b ex2 where b: "next_predicate_result node ex1 = (b, ex2)" by fastforce
    have second: "R (ex, e) (ex2, e1)" using steps [OF first predicate [OF b]] .
    show ?thesis
    proof (cases "should_stop_mock_execution e1 \<or> b")
      case True
      then show ?thesis using assms(3) False Inr r b result first second by (auto split: if_splits)
    next
      case stopped: False
      then have "execute_loop node children n (iterations + 1) ex2 e1 = Inr (k, passed, t)"
        using assms(3) False Inr r b result by simp
      from assms(2) [OF _ _ _ _ _ this] show ?thesis using stopped False Inr r b steps [OF second] by simp
    qed
  qed
qed

lemma execute_keeps:
  "execute_nodes_execute_node_execute_loop_dom (Inl (nodes, ex, e)) \<Longrightarrow> kept (execute_nodes nodes ex e) (ex, e)"
  "execute_nodes_execute_node_execute_loop_dom (Inr (Inl (node, ex, e))) \<Longrightarrow> \<not> should_stop_mock_execution e \<Longrightarrow>
     kept (execute_node node ex e) (ex, e)"
  "execute_nodes_execute_node_execute_loop_dom (Inr (Inr (lane, children, n, iterations, ex, e))) \<Longrightarrow>
     \<forall>k passed t. execute_loop lane children n iterations ex e = Inr (k, passed, t) \<longrightarrow> R (ex, e) t"
proof (induction nodes ex e and node ex e and lane children n iterations ex e
    rule: execute_nodes_execute_node_execute_loop.pinduct)
  case (1 ex e)
  then show ?case using same by (simp add: execute_nodes.psimps)
next
  case (2 node nodes ex e)
  then show ?case
    by (intro kept_nodes_step) (simp_all add: execute_nodes.psimps)
next
  case (3 spec children ex e)
  show ?case
  proof (cases "execute_nodes children ex e")
    case (Inr r)
    then show ?thesis using "3.hyps" "3.IH" "3.prems"
      by (cases r) (auto simp: execute_node.psimps intro: steps branch)
  qed (simp add: execute_node.psimps "3.hyps")
next
  case (4 spec ex e)
  then show ?case using leaf by (simp add: execute_node.psimps)
next
  case (5 lane children ex e)
  show ?case
  proof (cases "execute_nodes children ex e")
    case (Inr r)
    then show ?thesis using "5.hyps" "5.IH"
      by (cases r) (auto simp: execute_node.psimps intro: steps control)
  qed (simp add: execute_node.psimps "5.hyps")
next
  case (6 spec ex e)
  then show ?case using control by (simp add: execute_node.psimps)
next
  case (7 spec ex e)
  then show ?case using control by (simp add: execute_node.psimps)
next
  case (8 spec children ex e)
  show ?case
  proof (cases "execute_loop (lu_id spec) children (max (unwrap_or (lu_max_iterations spec) 1) 1) 0 ex e")
    case (Inr r)
    obtain k passed ex1 e1 where r: "r = (k, passed, ex1, e1)" by (cases r)
    then have "R (ex, e) (ex1, e1)" using "8.IH" Inr by blast
    then show ?thesis using "8.hyps" Inr r by (auto simp: execute_node.psimps intro: steps loop)
  qed (simp add: execute_node.psimps "8.hyps")
next
  case (9 spec then_nodes else_nodes ex e)
  obtain p ex1 where p: "next_predicate_result (cd_id spec) ex = (p, ex1)" by fastforce
  have first: "R (ex, e) (ex1, e)" using predicate [OF p] .
  define nodes where "nodes = (if p then then_nodes else else_nodes)"
  have eq: "execute_node (Cond spec then_nodes else_nodes) ex e =
      (case execute_nodes nodes ex1 e of Inl err \<Rightarrow> Inl err
       | Inr (ex', e') \<Rightarrow> Inr (ex', finish_selected (cd_id spec) KCond nodes
           (''predicate_result='' @ (if p then ''true'' else ''false'')) e'))"
    using "9.hyps" p unfolding nodes_def by (cases p) (simp_all add: execute_node.psimps)
  have "kept (execute_nodes nodes ex1 e) (ex1, e)" using "9.IH" p by (cases p) (simp_all add: nodes_def)
  then show ?case
    unfolding eq by (auto simp: finish_selected_def intro!: steps [OF first] intro: steps [OF _ control] split: sum.splits)
next
  case (10 spec template ex e)
  define nodes where "nodes = truncate_nodes (ex_max_children spec)
    (case bt_get (me_generated_nodes ex) (ex_id spec) of Some nodes \<Rightarrow> nodes | None \<Rightarrow> [])"
  define ex1 where "ex1 = ex\<lparr>me_generated_nodes := bt_remove (ex_id spec) (me_generated_nodes ex)\<rparr>"
  have first: "R (ex, e) (ex1, e)" using consume by (simp add: ex1_def)
  have eq: "execute_node (Expand spec template) ex e =
      (case validate_workflow_node_shapes nodes of Inl err \<Rightarrow> Inl err
       | Inr _ \<Rightarrow> (case execute_nodes nodes ex1 e of Inl err \<Rightarrow> Inl err
           | Inr (ex', e') \<Rightarrow> Inr (ex', finish_selected (ex_id spec) KExpand nodes (''expanded_from='' @ ex_source spec) e')))"
    using "10.hyps" unfolding nodes_def ex1_def by (simp add: execute_node.psimps Let_def)
  have IH: "kept (execute_nodes nodes ex1 e) (ex1, e)" if "validate_workflow_node_shapes nodes = Inr u" for u
    using "10.IH" [OF nodes_def ex1_def that] .
  show ?case
  proof (cases "validate_workflow_node_shapes nodes")
    case (Inr u)
    then show ?thesis using IH [OF Inr]
      unfolding eq by (auto simp: finish_selected_def intro!: steps [OF first] intro: steps [OF _ control] split: sum.splits)
  qed (simp add: eq)
next
  case (11 node children n iterations ex e)
  show ?case
  proof (intro allI impI, rule kept_loop_step [where e = e and ex = ex and n = n and node = node and iterations = iterations])
    fix ex' e' ex2 k passed t
    assume "iterations < n" "\<not> should_stop_mock_execution e" "execute_nodes children ex e = Inr (ex', e')"
      "\<not> should_stop_mock_execution e'" "next_predicate_result node ex' = (False, ex2)"
      "execute_loop node children n (iterations + 1) ex2 e' = Inr (k, passed, t)"
    then show "R (ex2, e') t" using "11.IH"(2) [of "(ex', e')" ex' e' False ex2] by (cases t) simp
  qed (use "11.IH"(1) "11.hyps" in \<open>simp_all add: execute_loop.psimps\<close>)
qed

end

section \<open>Termination\<close>

definition shrinks :: "Exec \<Rightarrow> Exec \<Rightarrow> bool" where
  "shrinks s t \<longleftrightarrow> length (me_generated_nodes (fst t)) \<le> length (me_generated_nodes (fst s))"

interpretation shrinks: executor_relation shrinks
proof (unfold_locales, goal_cases same steps leaf predicate consume branch loop control)
  case (leaf e ex spec)
  then show ?case by (cases "execute_leaf spec ex e") (simp add: shrinks_def)
qed (auto simp: shrinks_def bt_remove_length)

lemma shrinks_node:
  assumes "execute_nodes_execute_node_execute_loop_dom (Inr (Inl (node, ex, e)))" and "\<not> should_stop_mock_execution e"
    and "execute_node node ex e = Inr (ex', e')"
  shows "length (me_generated_nodes ex') \<le> length (me_generated_nodes ex)"
  using shrinks.execute_keeps(2) [OF assms(1,2)] assms(3) by (simp add: shrinks_def)

lemma shrinks_nodes:
  assumes "execute_nodes_execute_node_execute_loop_dom (Inl (nodes, ex, e))" and "execute_nodes nodes ex e = Inr (ex', e')"
  shows "length (me_generated_nodes ex') \<le> length (me_generated_nodes ex)"
  using shrinks.execute_keeps(1) [OF assms(1)] assms(2) by (simp add: shrinks_def)

lemma next_predicate_generated': "(b, ex') = next_predicate_result node ex \<Longrightarrow> me_generated_nodes ex' = me_generated_nodes ex"
  by (rule next_predicate_generated) (rule sym)

lemma expand_progress:
  "length (bt_remove k m) < length m \<or> length (bt_remove k m) = length m
     \<and> 3 * size_list size (truncate_nodes c (case bt_get m k of None \<Rightarrow> [] | Some nodes \<Rightarrow> nodes)) < 3 * size (Expand spec template)"
  using bt_remove_shorter [of m k] bt_remove_length [of k m]
  by (cases "bt_get m k") (auto simp: truncate_nodes_def split: option.split intro: le_neq_implies_less)

lemma iteration_progress: "k < n \<Longrightarrow> unat n - unat (k + 1) < unat n - unat (k :: u32)"
proof -
  assume less: "k < n"
  then have "unat k < unat n" by (simp add: word_less_nat_alt)
  then have "unat (k + 1) = unat k + 1" using unsigned_less [of n, where 'a = nat] by (simp add: unat_word_ariths)
  then show ?thesis using \<open>unat k < unat n\<close> by simp
qed

lemma executing_ends: "All execute_nodes_execute_node_execute_loop_dom"
proof (rule "execute_nodes_execute_node_execute_loop.termination" [of "measures
    [\<lambda>x. case x of Inl (nodes, ex, e) \<Rightarrow> length (me_generated_nodes ex) | Inr (Inl (node, ex, e)) \<Rightarrow> length (me_generated_nodes ex)
       | Inr (Inr (node, children, n, k, ex, e)) \<Rightarrow> length (me_generated_nodes ex),
     \<lambda>x. case x of Inl (nodes, ex, e) \<Rightarrow> 3 * size_list size nodes | Inr (Inl (node, ex, e)) \<Rightarrow> 3 * size node
       | Inr (Inr (node, children, n, k, ex, e)) \<Rightarrow> 3 * size_list size children + 1,
     \<lambda>x. case x of Inl _ \<Rightarrow> 0 | Inr (Inl _) \<Rightarrow> 0 | Inr (Inr (node, children, n, k, ex, e)) \<Rightarrow> unat n - unat k]"], goal_cases)
  case (3 node nodes ex e r ex' e')
  then show ?case using shrinks_node [of node ex e ex' e'] by (auto simp: le_less)
next
  case (9 spec template ex e nodes ex' u)
  then show ?case using expand_progress [of "ex_id spec" "me_generated_nodes ex" "ex_max_children spec" spec template] by auto
next
  case (11 node children n k ex e r ex' e' b ex2)
  then show ?case
    using shrinks_nodes [of children ex e ex' e'] iteration_progress [of k n] by (auto simp: le_less dest: next_predicate_generated')
qed (auto dest: next_predicate_generated')

termination execute_nodes
  by (rule executing_ends)

context executor_relation
begin

text \<open>Since every execution ends, the relation holds between its start and its result.\<close>

lemma execution_keeps: "execute_nodes nodes ex e = Inr t \<Longrightarrow> R (ex, e) t"
  using execute_keeps(1) [OF executing_ends [THEN spec]] by blast

lemma node_keeps: "\<not> should_stop_mock_execution e \<Longrightarrow> execute_node node ex e = Inr t \<Longrightarrow> R (ex, e) t"
  using execute_keeps(2) [OF executing_ends [THEN spec]] by blast

end

end
