(* ===== verification/WorkflowExecProps.thy ===== *)
theory WorkflowExecProps
  imports WorkflowExec
begin

text \<open>
  Guarantees of the workflow IR: the shape of a fleet counts what an execution can launch, a stopped execution
  runs nothing more, and a step budget is never exceeded.
\<close>

section \<open>Counting\<close>

text \<open>The agents a node can launch, without saturation.\<close>

fun launches :: "WorkflowNode \<Rightarrow> nat" where
  "launches (Leaf spec) = 1"
| "launches (BranchSet spec children) = sum_list (map launches children)"
| "launches (Sequence lane children) = sum_list (map launches children)"
| "launches (Reduce spec) = 0"
| "launches (TeacherReview spec) = 0"
| "launches (LoopUntil spec children) =
     unat (max (unwrap_or (lu_max_iterations spec) 1) 1) * sum_list (map launches children)"
| "launches (Cond spec then_nodes else_nodes) = sum_list (map launches then_nodes) + sum_list (map launches else_nodes)"
| "launches (Expand spec template) =
     (case ex_max_children spec of None \<Rightarrow> 0 | Some n \<Rightarrow> unat n * (case template of None \<Rightarrow> 0 | Some t \<Rightarrow> launches t))"

definition usize_max :: nat where "usize_max = 2 ^ 64 - 1"

lemma unat_le_usize: "unat (x :: u64) \<le> usize_max"
  using unsigned_less [of x, where 'a = nat] by (simp add: usize_max_def)

lemma unat_minus_one_u64: "unat (- 1 :: u64) = usize_max"
  by (simp add: usize_max_def unsigned_minus_1_eq_mask mask_eq_exp_minus_1)

lemma unat_sat_add_u64: "unat (sat_add a b :: u64) = min usize_max (unat a + unat b)"
  by (simp add: unat_sat_add usize_max_def min.commute)

lemma unat_sat_mul_u64: "unat (sat_mul a b :: u64) = min usize_max (unat a * unat b)"
proof (cases "unat a * unat b < 2 ^ 64")
  case True
  then have "unat (a * b) = unat a * unat b" by (simp add: unat_word_ariths)
  then show ?thesis using True by (simp add: sat_mul_def usize_max_def)
next
  case False
  then show ?thesis using unat_minus_one_u64 by (simp add: sat_mul_def usize_max_def)
qed

lemma saturated_add: "min m (min m a + min m b) = min m (a + b)" for a b m :: nat
  by (auto simp: min_def)

lemma saturated_mul: "min m (min m a * b) = min m (a * b)" for a b m :: nat
proof (cases "a \<le> m \<or> b = 0")
  case False
  then have "m \<le> m * b" "m \<le> a * b" by (auto intro: order_trans [of m a])
  then show ?thesis using False by (simp add: min_def)
qed (auto simp: min_def)

lemma saturated_mul': "min m (b * min m a) = min m (b * a)" for a b m :: nat
  using saturated_mul [of m a b] by (simp add: mult.commute)

lemma unat_max: "unat (max a b) = max (unat a) (unat b)"
  by (simp add: max_def word_le_nat_alt)

lemma unat_ucast_u64: "unat (ucast (n :: u32) :: u64) = unat n"
  using unsigned_less [of n, where 'a = nat] by (simp add: unsigned_ucast_eq take_bit_nat_eq_self)

lemma estimate_counts:
  "estimate_fleet_shape_at_depth limits depth nodes = Inr shape \<Longrightarrow>
     unat (fs_total_agents shape) = min usize_max (sum_list (map launches nodes))"
  "fold_fleet_shape limits depth acc nodes = Inr shape \<Longrightarrow>
     unat (fs_total_agents shape) = min usize_max (unat (fs_total_agents acc) + sum_list (map launches nodes))"
  "estimate_node_fleet_shape limits depth node = Inr shape \<Longrightarrow>
     unat (fs_total_agents shape) = min usize_max (launches node)"
proof (induction limits depth nodes and limits depth acc nodes and limits depth node
    arbitrary: shape and shape and shape rule: estimate_fleet_shape_at_depth_fold_fleet_shape_estimate_node_fleet_shape.induct)
  case (1 limits depth nodes)
  then show ?case by (simp split: if_splits)
next
  case (2 limits depth acc)
  then show ?case using unat_le_usize [of "fs_total_agents acc"] by simp
next
  case (3 limits depth acc node nodes)
  then obtain s where s: "estimate_node_fleet_shape limits depth node = Inr s"
    and rest: "fold_fleet_shape limits depth (shape_add acc s) nodes = Inr shape" by (auto split: sum.splits)
  have "unat (fs_total_agents shape) = min usize_max (min usize_max (unat (fs_total_agents acc) + min usize_max (launches node)) + sum_list (map launches nodes))"
    using "3.IH"(2) [OF s rest] "3.IH"(1) [OF s] by (simp add: shape_add_def unat_sat_add_u64)
  then show ?case by (auto simp: min_def)
next
  case (9 limits depth spec children)
  then obtain n s where n: "lu_max_iterations spec = Some n" and s: "estimate_fleet_shape_at_depth limits depth children = Inr s"
    and shape: "shape = shape_repeat s (max (ucast n) 1)" by (auto split: option.splits sum.splits)
  have "unat (max (ucast n) 1 :: u64) = unat (max n 1)" by (simp add: unat_max unat_ucast_u64)
  then show ?case
    using "9.IH" [OF n s] by (simp add: shape shape_repeat_def unat_sat_mul_u64 saturated_mul saturated_mul' n unwrap_or_def mult.commute)
next
  case (10 limits depth spec then_nodes else_nodes)
  then obtain s1 s2 where s: "estimate_fleet_shape_at_depth limits depth then_nodes = Inr s1"
    "estimate_fleet_shape_at_depth limits depth else_nodes = Inr s2" "shape = shape_add s1 s2" by (auto split: sum.splits)
  show ?case using "10.IH"(1) [OF s(1)] "10.IH"(2) [OF s(1,2)]
    by (simp add: s(3) shape_add_def unat_sat_add_u64 saturated_add)
next
  case (11 limits depth spec template)
  then obtain n t u s where n: "ex_max_children spec = Some n" and t: "template = Some t"
    and v: "validate_workflow_node_shapes [t] = Inr u" and s: "estimate_node_fleet_shape limits depth t = Inr s"
    and shape: "shape = shape_repeat s n" by (auto split: option.splits sum.splits)
  show ?case using "11.IH" [OF n t v s]
    by (simp add: shape shape_repeat_def unat_sat_mul_u64 saturated_mul saturated_mul' n t mult.commute)
qed (auto simp: usize_max_def)

section \<open>Launches of an execution\<close>

text \<open>Generated nodes are only ever consumed.\<close>

definition consumes :: "Exec \<Rightarrow> Exec \<Rightarrow> bool" where
  "consumes s t \<longleftrightarrow> set (me_generated_nodes (fst t)) \<subseteq> set (me_generated_nodes (fst s))
     \<and> bt_get (me_generated_nodes (fst t)) \<subseteq>\<^sub>m bt_get (me_generated_nodes (fst s))"

interpretation consumes: executor_relation consumes
proof (unfold_locales, goal_cases same steps leaf predicate consume branch loop control)
  case (steps s t u)
  then show ?case by (auto simp: consumes_def intro: map_le_trans)
next
  case (leaf e ex spec)
  then show ?case by (cases "execute_leaf spec ex e") (simp add: consumes_def)
next
  case (consume ex e node)
  have "bt_get (bt_remove node m) \<subseteq>\<^sub>m bt_get m" for m :: "(string, WorkflowNode list) btree"
    by (simp add: bt_get_remove map_le_def)
  then show ?case by (simp add: consumes_def) (auto simp: bt_remove_def)
qed (auto simp: consumes_def)

text \<open>The expansions an execution can meet, and what ties them to their templates: a generated node launches at most
  what the template does.\<close>

fun expansions :: "WorkflowNode \<Rightarrow> (ExpandSpec \<times> WorkflowNode option) set" where
  "expansions (BranchSet spec children) = (\<Union>n \<in> set children. expansions n)"
| "expansions (Sequence lane children) = (\<Union>n \<in> set children. expansions n)"
| "expansions (LoopUntil spec children) = (\<Union>n \<in> set children. expansions n)"
| "expansions (Cond spec then_nodes else_nodes) = (\<Union>n \<in> set then_nodes \<union> set else_nodes. expansions n)"
| "expansions (Expand spec template) = {(spec, template)}"
| "expansions (Leaf spec) = {}"
| "expansions (Reduce spec) = {}"
| "expansions (TeacherReview spec) = {}"

definition follows_templates :: "(ExpandSpec \<times> WorkflowNode option) set \<Rightarrow> MockWorkflowExecutor \<Rightarrow> bool" where
  "follows_templates S ex \<longleftrightarrow>
     (\<forall>entry \<in> set (me_generated_nodes ex). \<forall>n \<in> set (snd entry). expansions n \<subseteq> S)
     \<and> (\<forall>x \<in> S. \<forall>ns. bt_get (me_generated_nodes ex) (ex_id (fst x)) = Some ns \<longrightarrow>
          ex_max_children (fst x) \<noteq> None \<and> (\<exists>t. snd x = Some t \<and> (\<forall>n \<in> set ns. launches n \<le> launches t)))"

lemma follows_consumed: "follows_templates S (fst s) \<Longrightarrow> consumes s t \<Longrightarrow> follows_templates S (fst t)"
proof -
  assume *: "follows_templates S (fst s)" "consumes s t"
  have "bt_get (me_generated_nodes (fst s)) k = Some ns" if "bt_get (me_generated_nodes (fst t)) k = Some ns" for k ns
    using *(2) that unfolding consumes_def map_le_def by (metis domI)
  then show ?thesis using * unfolding follows_templates_def consumes_def by (meson subsetD)
qed

definition launched :: "WorkflowExecution \<Rightarrow> nat" where
  "launched e = length (we_leaf_results e)"

lemma launched_simps [simp]:
  "launched (push_control node kind status selected summary e) = launched e"
  "launched (mark_execution_for_status status e) = launched e"
  "launched (finish_branch_set spec children k e) = launched e"
  "launched (finish_loop lspec children iterations passed e) = launched e"
  "launched (finish_selected node kind nodes summary e) = launched e"
proof -
  show mark: "launched (mark_execution_for_status status e) = launched e" for status e
    by (cases status) (simp_all add: launched_def)
  show push: "launched (push_control node kind status selected summary e) = launched e" for node kind status selected summary e
    by (simp add: launched_def push_control_def)
  show "launched (finish_branch_set spec children k e) = launched e"
    using mark by (simp add: finish_branch_set_def Let_def push) (simp add: launched_def)
  show "launched (finish_loop lspec children iterations passed e) = launched e"
    by (simp add: finish_loop_def Let_def push mark)
  show "launched (finish_selected node kind nodes summary e) = launched e"
    by (simp add: finish_selected_def push)
qed

lemma launched_leaf: "execute_leaf spec ex e = (ex', e') \<Longrightarrow> launched e' = Suc (launched e)"
  using launched_simps(2) by (auto simp: execute_leaf_def Let_def launched_def split: prod.splits)

lemma sum_list_take_le: "sum_list (map f (take n xs)) \<le> n * b" if "\<And>x. x \<in> set xs \<Longrightarrow> f x \<le> b" for f :: "'a \<Rightarrow> nat"
proof -
  have "sum_list (map f (take n xs)) \<le> sum_list (map (\<lambda>_. b) (take n xs))"
    using that by (intro sum_list_mono) (auto dest: in_set_takeD)
  also have "\<dots> \<le> n * b" by (simp add: sum_list_triv)
  finally show ?thesis .
qed

abbreviation total_launches :: "WorkflowNode list \<Rightarrow> nat" where
  "total_launches nodes \<equiv> sum_list (map launches nodes)"

abbreviation all_expansions :: "WorkflowNode list \<Rightarrow> (ExpandSpec \<times> WorkflowNode option) set" where
  "all_expansions nodes \<equiv> \<Union>n \<in> set nodes. expansions n"

lemma loop_launches:
  assumes "k < n" "unat (k + 1) = unat k + 1" "a \<le> b + c" "d \<le> a + (unat n - unat (k + 1)) * c"
  shows "d \<le> b + (unat n - unat (k :: u32)) * c"
proof -
  have "unat k < unat n" using assms(1) by (simp add: word_less_nat_alt)
  then have "(unat n - unat k) * c = c + (unat n - unat (k + 1)) * c"
    using assms(2) by (metis Suc_diff_Suc Suc_eq_plus1 mult_Suc)
  then show ?thesis using assms(3,4) by linarith
qed

text \<open>Executing launches at most what the nodes count.\<close>

lemma execute_launches:
  "follows_templates S ex \<Longrightarrow> all_expansions nodes \<subseteq> S \<Longrightarrow> execute_nodes nodes ex e = Inr (ex', e') \<Longrightarrow>
     launched e' \<le> launched e + total_launches nodes"
  "follows_templates S ex \<Longrightarrow> expansions node \<subseteq> S \<Longrightarrow> \<not> should_stop_mock_execution e \<Longrightarrow> execute_node node ex e = Inr (ex', e') \<Longrightarrow>
     launched e' \<le> launched e + launches node"
  "follows_templates S ex \<Longrightarrow> all_expansions children \<subseteq> S \<Longrightarrow> execute_loop lane children n k ex e = Inr (k', passed, ex', e') \<Longrightarrow>
     launched e' \<le> launched e + (unat n - unat k) * total_launches children"
proof (induction nodes ex e and node ex e and lane children n k ex e
    arbitrary: ex' e' and ex' e' and k' passed ex' e' rule: execute_nodes_execute_node_execute_loop.induct)
  case (1 ex e)
  then show ?case by simp
next
  case (2 node nodes ex e)
  show ?case
  proof (cases "should_stop_mock_execution e")
    case False
    obtain ex1 e1 where first: "execute_node node ex e = Inr (ex1, e1)" and rest: "execute_nodes nodes ex1 e1 = Inr (ex', e')"
      using "2.prems"(3) False by (cases "execute_node node ex e") auto
    have "follows_templates S ex1"
      using follows_consumed [of S "(ex, e)" "(ex1, e1)"] consumes.node_keeps [OF False first] "2.prems"(1) by simp
    moreover have "expansions node \<subseteq> S" "all_expansions nodes \<subseteq> S" using "2.prems"(2) by simp_all
    ultimately have "launched e1 \<le> launched e + launches node" "launched e' \<le> launched e1 + total_launches nodes"
      using "2.IH"(1) [OF False "2.prems"(1) _ False first] "2.IH"(2) [OF False first refl _ _ rest] by blast+
    then show ?thesis by simp
  qed (use "2.prems" in simp)
next
  case (3 spec children ex e)
  then obtain ex1 e1 where "execute_nodes children ex e = Inr (ex1, e1)"
    "e' = finish_branch_set spec children (length (we_leaf_results e)) e1" by (cases "execute_nodes children ex e") auto
  then show ?case using "3.IH" "3.prems" by simp
next
  case (4 spec ex e)
  then show ?case using launched_leaf [of spec ex e ex' e'] by simp
next
  case (5 lane children ex e)
  then show ?case by (auto split: sum.splits prod.splits)
next
  case (6 spec ex e)
  then show ?case by auto
next
  case (7 spec ex e)
  then show ?case by auto
next
  case (8 spec children ex e)
  then obtain k passed ex1 e1 where
    "execute_loop (lu_id spec) children (max (unwrap_or (lu_max_iterations spec) 1) 1) 0 ex e = Inr (k, passed, ex1, e1)"
    "e' = finish_loop spec children k passed e1" by (auto split: sum.splits prod.splits)
  then show ?case using "8.IH" "8.prems" by fastforce
next
  case (9 spec then_nodes else_nodes ex e)
  obtain p ex1 where p: "next_predicate_result (cd_id spec) ex = (p, ex1)" by fastforce
  have follows: "follows_templates S ex1"
    using "9.prems"(1) next_predicate_generated [OF p] by (simp add: follows_templates_def)
  show ?case
  proof (cases p)
    case True
    then obtain e1 where "execute_nodes then_nodes ex1 e = Inr (ex', e1)" "launched e' = launched e1"
      using "9.prems"(4) p by (auto split: sum.splits prod.splits)
    then show ?thesis using "9.IH"(1) [OF p [symmetric] True follows] "9.prems"(2) by fastforce
  next
    case False
    then obtain e1 where "execute_nodes else_nodes ex1 e = Inr (ex', e1)" "launched e' = launched e1"
      using "9.prems"(4) p by (auto split: sum.splits prod.splits)
    then show ?thesis using "9.IH"(2) [OF p [symmetric] False follows] "9.prems"(2) by fastforce
  qed
next
  case (10 spec template ex e)
  define generated where "generated = (case bt_get (me_generated_nodes ex) (ex_id spec) of Some nodes \<Rightarrow> nodes | None \<Rightarrow> [])"
  define nodes where "nodes = truncate_nodes (ex_max_children spec) generated"
  define ex1 where "ex1 = ex\<lparr>me_generated_nodes := bt_remove (ex_id spec) (me_generated_nodes ex)\<rparr>"
  obtain u e1 where u: "validate_workflow_node_shapes nodes = Inr u" and run: "execute_nodes nodes ex1 e = Inr (ex', e1)"
    and e': "launched e' = launched e1"
    using "10.prems"(4) unfolding execute_node.simps Let_def generated_def [symmetric] nodes_def [symmetric] ex1_def [symmetric]
    by (auto split: sum.splits)
  have "consumes (ex, e) (ex1, e)" using consumes.consume [of ex e "ex_id spec"] by (simp add: ex1_def)
  then have follows: "follows_templates S ex1" using follows_consumed [of S "(ex, e)" "(ex1, e)"] "10.prems"(1) by simp
  have generated: "expansions m \<subseteq> S" if m: "m \<in> set generated" for m
  proof -
    obtain ns where ns: "bt_get (me_generated_nodes ex) (ex_id spec) = Some ns" "m \<in> set ns"
      using m by (cases "bt_get (me_generated_nodes ex) (ex_id spec)") (simp_all add: generated_def)
    from bspec [OF conjunct1 [OF "10.prems"(1) [unfolded follows_templates_def]] map_of_SomeD [OF ns(1)]] ns(2)
    show ?thesis by simp
  qed
  have sub: "set nodes \<subseteq> set generated"
    by (auto simp: nodes_def truncate_nodes_def split: option.splits dest: in_set_takeD)
  have "launched e1 \<le> launched e + total_launches nodes"
    using "10.IH" [OF nodes_def [unfolded generated_def] ex1_def u follows _ run] generated sub by blast
  also have "total_launches nodes \<le> launches (Expand spec template)"
  proof (cases "bt_get (me_generated_nodes ex) (ex_id spec)")
    case None
    then show ?thesis by (simp add: nodes_def generated_def truncate_nodes_def split: option.split)
  next
    case (Some ns)
    have "(spec, template) \<in> S" using "10.prems"(2) by simp
    then obtain c t where "ex_max_children spec = Some c" "template = Some t" "\<forall>m \<in> set ns. launches m \<le> launches t"
      using "10.prems"(1) Some unfolding follows_templates_def by fastforce
    then show ?thesis
      using sum_list_take_le [of ns launches "launches t" "unat c"]
      by (simp add: nodes_def generated_def truncate_nodes_def Some)
  qed
  finally show ?case using e' by simp
next
  case (11 lane children n k ex e)
  show ?case
  proof (cases "\<not> k < n \<or> should_stop_mock_execution e")
    case False
    then obtain ex1 e1 where first: "execute_nodes children ex e = Inr (ex1, e1)"
      using "11.prems"(3) by (auto split: sum.splits)
    have le: "launched e1 \<le> launched e + total_launches children" using "11.IH"(1) [OF False "11.prems"(1,2) first] .
    obtain b ex2 where b: "next_predicate_result lane ex1 = (b, ex2)" by fastforce
    have "unat k < unat n" using False by (simp add: word_less_nat_alt)
    then have once: "total_launches children \<le> (unat n - unat k) * total_launches children"
      by (cases "unat n - unat k") simp_all
    have inc: "unat (k + 1) = unat k + 1"
      using \<open>unat k < unat n\<close> unsigned_less [of n, where 'a = nat] by (simp add: unat_word_ariths)
    show ?thesis
    proof (cases "should_stop_mock_execution e1 \<or> b")
      case True
      then have "e' = e1" using "11.prems"(3) False first b by (auto split: if_splits)
      then show ?thesis using order_trans [OF le add_left_mono [OF once]] by simp
    next
      case go: False
      then have rest: "execute_loop lane children n (k + 1) ex2 e1 = Inr (k', passed, ex', e')"
        using "11.prems"(3) False first b by simp
      have "consumes (ex, e) (ex1, e1)" using consumes.execution_keeps [OF first] .
      then have "follows_templates S ex1" using follows_consumed [of S "(ex, e)" "(ex1, e1)"] "11.prems"(1) by simp
      then have "follows_templates S ex2" using next_predicate_generated [OF b] by (simp add: follows_templates_def)
      from "11.IH"(2) [OF False first refl _ b [symmetric] _ this "11.prems"(2) rest] go
      have "launched e' \<le> launched e1 + (unat n - unat (k + 1)) * total_launches children" by simp
      from loop_launches [OF _ inc le this] False show ?thesis by simp
    qed
  qed (use "11.prems" in auto)
qed

section \<open>Progress of an execution\<close>

definition fine :: "LeafResult \<Rightarrow> bool" where
  "fine r \<longleftrightarrow> lf_status r \<noteq> Cancelled \<and> lf_status r \<noteq> BudgetExceeded"

text \<open>What executing adds: results behind those there are, nothing once execution has stopped, and a result
  that stops it only as the last one. A success means that no result failed.\<close>

definition progress :: "Exec \<Rightarrow> Exec \<Rightarrow> bool" where
  "progress s t \<longleftrightarrow> (\<exists>new. we_leaf_results (snd t) = we_leaf_results (snd s) @ new
     \<and> (should_stop_mock_execution (snd s) \<longrightarrow> new = [] \<and> we_status (snd t) = we_status (snd s))
     \<and> (\<not> should_stop_mock_execution (snd t) \<longrightarrow> list_all fine new)
     \<and> (should_stop_mock_execution (snd t) \<and> \<not> should_stop_mock_execution (snd s) \<longrightarrow>
          (\<exists>pre r. new = pre @ [r] \<and> list_all fine pre \<and> lf_status r = we_status (snd t)))
     \<and> (we_status (snd t) = Succeeded \<longrightarrow> we_status (snd s) = Succeeded \<and> list_all (\<lambda>r. lf_status r \<noteq> Failed) new))"

lemma progress_same_results:
  "we_leaf_results (snd t) = we_leaf_results (snd s) \<Longrightarrow> we_status (snd t) = we_status (snd s) \<Longrightarrow> progress s t"
  by (auto simp: progress_def should_stop_mock_execution_def)

lemma mark_simps [simp]:
  "we_leaf_results (mark_execution_for_status status e) = we_leaf_results e"
  "we_status (mark_execution_for_status status e) =
     (if status \<in> {Failed, Cancelled, BudgetExceeded} then status else we_status e)"
  by (cases status; simp)+

lemma push_simps [simp]:
  "we_leaf_results (push_control node kind status selected summary e) = we_leaf_results e"
  "we_status (push_control node kind status selected summary e) = we_status e"
  by (simp_all add: push_control_def)

lemma finish_branch_simps [simp]:
  "we_leaf_results (finish_branch_set spec children k e) = we_leaf_results e"
  "we_status (finish_branch_set spec children k e) =
     (let status = aggregate_mock_status (drop k (we_leaf_results e)) in
      if status \<in> {Failed, Cancelled, BudgetExceeded} then status else we_status e)"
  by (simp_all add: finish_branch_set_def Let_def)

lemma finish_loop_simps [simp]:
  "we_leaf_results (finish_loop spec children k passed e) = we_leaf_results e"
  "we_status (finish_loop spec children k passed e) =
     (if should_stop_mock_execution e \<or> passed then we_status e else Failed)"
  by (auto simp: finish_loop_def Let_def should_stop_mock_execution_def)

lemma aggregate_fine:
  "list_all fine rs \<Longrightarrow> aggregate_mock_status rs \<in> {Succeeded, Failed}"
  by (auto simp: aggregate_mock_status_def list_all_iff list_ex_iff fine_def)

lemma aggregate_stop:
  "list_all fine pre \<Longrightarrow> lf_status r \<in> {Cancelled, BudgetExceeded} \<Longrightarrow> aggregate_mock_status (pre @ [r]) = lf_status r"
  by (auto simp: aggregate_mock_status_def list_all_iff list_ex_iff fine_def)

lemma progress_steps:
  assumes "progress s t" and "progress t u"
  shows "progress s u"
proof -
  from assms(1) obtain new where st: "we_leaf_results (snd t) = we_leaf_results (snd s) @ new"
    "should_stop_mock_execution (snd s) \<Longrightarrow> new = [] \<and> we_status (snd t) = we_status (snd s)"
    "\<not> should_stop_mock_execution (snd t) \<Longrightarrow> list_all fine new"
    "should_stop_mock_execution (snd t) \<Longrightarrow> \<not> should_stop_mock_execution (snd s) \<Longrightarrow>
       \<exists>pre r. new = pre @ [r] \<and> list_all fine pre \<and> lf_status r = we_status (snd t)"
    "we_status (snd t) = Succeeded \<Longrightarrow> we_status (snd s) = Succeeded \<and> list_all (\<lambda>r. lf_status r \<noteq> Failed) new"
    unfolding progress_def by blast
  from assms(2) obtain new' where tu: "we_leaf_results (snd u) = we_leaf_results (snd t) @ new'"
    "should_stop_mock_execution (snd t) \<Longrightarrow> new' = [] \<and> we_status (snd u) = we_status (snd t)"
    "\<not> should_stop_mock_execution (snd u) \<Longrightarrow> list_all fine new'"
    "should_stop_mock_execution (snd u) \<Longrightarrow> \<not> should_stop_mock_execution (snd t) \<Longrightarrow>
       \<exists>pre r. new' = pre @ [r] \<and> list_all fine pre \<and> lf_status r = we_status (snd u)"
    "we_status (snd u) = Succeeded \<Longrightarrow> we_status (snd t) = Succeeded \<and> list_all (\<lambda>r. lf_status r \<noteq> Failed) new'"
    unfolding progress_def by blast
  show ?thesis
  proof (cases "should_stop_mock_execution (snd t)")
    case True
    then have "should_stop_mock_execution (snd u)" using tu(2) by (simp add: should_stop_mock_execution_def)
    then show ?thesis unfolding progress_def using st tu(1,2) True by (intro exI [of _ new]) auto
  next
    case False
    then have go: "\<not> should_stop_mock_execution (snd s)" using st(2) by (auto simp: should_stop_mock_execution_def)
    have "\<exists>pre r. new @ new' = pre @ [r] \<and> list_all fine pre \<and> lf_status r = we_status (snd u)"
      if "should_stop_mock_execution (snd u)"
      using tu(4) [OF that False] st(3) [OF False] by (metis append.assoc list_all_append)
    then show ?thesis unfolding progress_def
      using st(1,3,5) tu(1,3,5) False go by (intro exI [of _ "new @ new'"]) auto
  qed
qed

lemma progress_leaf:
  assumes "\<not> should_stop_mock_execution e"
  shows "progress (ex, e) (execute_leaf spec ex e)"
proof -
  obtain outcome ex1 where out: "mock_leaf_outcome spec ex = (outcome, ex1)" by (cases "mock_leaf_outcome spec ex")
  obtain r where r: "we_leaf_results (snd (execute_leaf spec ex e)) = we_leaf_results e @ [r]" "lf_status r = mo_status outcome"
    by (simp add: execute_leaf_def out Let_def)
  have status: "we_status (snd (execute_leaf spec ex e)) =
      (if mo_status outcome \<in> {Failed, Cancelled, BudgetExceeded} then mo_status outcome else we_status e)"
    by (simp add: execute_leaf_def out Let_def)
  show ?thesis
    unfolding progress_def using assms r status
    by (intro exI [of _ "[r]"]) (auto simp: fine_def should_stop_mock_execution_def split: if_splits)
qed

lemma progress_branch:
  assumes "\<not> should_stop_mock_execution e" and "progress (ex, e) (ex', e')"
  shows "progress (ex', e') (ex', finish_branch_set spec children (length (we_leaf_results e)) e')"
proof -
  from assms obtain new where new: "we_leaf_results e' = we_leaf_results e @ new"
    "\<not> should_stop_mock_execution e' \<Longrightarrow> list_all fine new"
    "should_stop_mock_execution e' \<Longrightarrow> \<exists>pre r. new = pre @ [r] \<and> list_all fine pre \<and> lf_status r = we_status e'"
    unfolding progress_def by auto
  define status where "status = aggregate_mock_status new"
  have "we_status (finish_branch_set spec children (length (we_leaf_results e)) e') =
      (if status \<in> {Failed, Cancelled, BudgetExceeded} then status else we_status e')"
    by (simp add: new(1) Let_def status_def)
  note after = this
  show ?thesis
  proof (cases "should_stop_mock_execution e'")
    case True
    then have "status = we_status e'"
      using new(3) aggregate_stop by (auto simp: status_def should_stop_mock_execution_def)
    then have "we_status (finish_branch_set spec children (length (we_leaf_results e)) e') = we_status e'"
      unfolding after by simp
    then show ?thesis by (intro progress_same_results) simp_all
  next
    case False
    then have "status \<in> {Succeeded, Failed}" using aggregate_fine [OF new(2)] by (simp add: status_def)
    then have "we_status (finish_branch_set spec children (length (we_leaf_results e)) e') \<in> {Failed, we_status e'}"
      unfolding after by auto
    then show ?thesis
      using False unfolding progress_def
      by (intro exI [of _ "[]"]) (auto simp: should_stop_mock_execution_def simp del: finish_branch_simps(2))
  qed
qed

interpretation progress: executor_relation progress
proof (unfold_locales, goal_cases same steps leaf predicate consume branch loop control)
  case (loop ex e lspec children iterations passed)
  then show ?case unfolding progress_def
    by (intro exI [of _ "[]"]) (auto simp: should_stop_mock_execution_def)
qed (simp_all add: progress_same_results progress_leaf progress_branch, rule progress_steps)

section \<open>The step budget\<close>

definition within_steps :: "u32 \<Rightarrow> Exec \<Rightarrow> Exec \<Rightarrow> bool" where
  "within_steps n s t \<longleftrightarrow> progress s t \<and>
     (me_max_leaf_steps (fst s) = Some n \<and> me_leaf_steps_executed (fst s) \<le> n \<longrightarrow>
       me_max_leaf_steps (fst t) = Some n \<and> me_leaf_steps_executed (fst t) \<le> n
       \<and> launched (snd t) + unat (me_leaf_steps_executed (fst s))
          \<le> launched (snd s) + unat (me_leaf_steps_executed (fst t))
             + (if should_stop_mock_execution (snd t) \<and> \<not> should_stop_mock_execution (snd s) then 1 else 0))"

lemma progress_stop: "progress s t \<Longrightarrow> should_stop_mock_execution (snd s) \<Longrightarrow>
    launched (snd t) = launched (snd s) \<and> should_stop_mock_execution (snd t)"
  by (auto simp: progress_def launched_def should_stop_mock_execution_def)

lemma within_steps_trans:
  assumes "within_steps n s t" and "within_steps n t u"
  shows "within_steps n s u"
proof -
  have *: "progress s t" "progress t u" using assms by (simp_all add: within_steps_def)
  note stop = progress_stop [OF *(1)] progress_stop [OF *(2)]
  show ?thesis
  proof (cases "should_stop_mock_execution (snd t)")
    case True
    then show ?thesis using assms progress_steps [OF *] stop by (auto simp: within_steps_def)
  next
    case False
    then have "\<not> should_stop_mock_execution (snd s)" using stop(1) by blast
    then show ?thesis using assms progress_steps [OF *] False by (auto simp: within_steps_def)
  qed
qed

lemma within_steps_same:
  "progress s t \<Longrightarrow> launched (snd t) = launched (snd s) \<Longrightarrow> me_max_leaf_steps (fst t) = me_max_leaf_steps (fst s) \<Longrightarrow>
     me_leaf_steps_executed (fst t) = me_leaf_steps_executed (fst s) \<Longrightarrow> within_steps n s t"
  by (simp add: within_steps_def)

text \<open>A leaf counts one step, or is refused and stops the execution.\<close>

lemma mock_leaf_steps:
  assumes "mock_leaf_outcome spec ex = (outcome, ex')"
  shows "me_max_leaf_steps ex' = me_max_leaf_steps ex
    \<and> (me_leaf_steps_executed ex' = me_leaf_steps_executed ex \<and> mo_status outcome \<in> {Cancelled, BudgetExceeded}
       \<or> me_leaf_steps_executed ex' = sat_add (me_leaf_steps_executed ex) 1 \<and> \<not> step_budget_exhausted ex)"
  using assms by (auto simp: mock_leaf_outcome_def outcome_refused_def Let_def split: if_splits option.splits)

lemma within_steps_leaf:
  assumes "\<not> should_stop_mock_execution e" and "0 < n"
  shows "within_steps n (ex, e) (execute_leaf spec ex e)"
proof -
  obtain outcome ex1 where out: "mock_leaf_outcome spec ex = (outcome, ex1)" by (cases "mock_leaf_outcome spec ex")
  obtain e1 where e1: "execute_leaf spec ex e = (ex1, e1)" by (simp add: execute_leaf_def out Let_def)
  have status: "we_status e1 = (if mo_status outcome \<in> {Failed, Cancelled, BudgetExceeded} then mo_status outcome else we_status e)"
    using e1 by (auto simp: execute_leaf_def out Let_def)
  have count: "launched e1 = Suc (launched e)" using launched_leaf [OF e1] .
  show ?thesis
    using mock_leaf_steps [OF out]
  proof (elim conjE disjE)
    assume "me_leaf_steps_executed ex1 = me_leaf_steps_executed ex" "mo_status outcome \<in> {Cancelled, BudgetExceeded}"
      "me_max_leaf_steps ex1 = me_max_leaf_steps ex"
    then show ?thesis
      using progress_leaf [OF assms(1), of ex spec] status count assms(1)
      by (auto simp: within_steps_def e1 should_stop_mock_execution_def)
  next
    assume steps: "me_leaf_steps_executed ex1 = sat_add (me_leaf_steps_executed ex) 1" "\<not> step_budget_exhausted ex"
      "me_max_leaf_steps ex1 = me_max_leaf_steps ex"
    have "unat (me_leaf_steps_executed ex1) = unat (me_leaf_steps_executed ex) + 1 \<and> me_leaf_steps_executed ex1 \<le> n"
      if "me_max_leaf_steps ex = Some n" "me_leaf_steps_executed ex \<le> n"
    proof -
      have "unat (me_leaf_steps_executed ex) < unat n"
        using that steps(2) assms(2) by (simp add: step_budget_exhausted_def not_le flip: word_less_nat_alt)
      moreover have "unat n < 2 ^ 32" using unsigned_less [of n, where 'a = nat] by simp
      ultimately show ?thesis by (simp add: steps(1) unat_sat_add word_le_nat_alt)
    qed
    then show ?thesis
      using progress_leaf [OF assms(1), of ex spec] count steps(3) by (auto simp: within_steps_def e1)
  qed
qed

lemma next_predicate_steps:
  "next_predicate_result node ex = (b, ex') \<Longrightarrow>
     me_max_leaf_steps ex' = me_max_leaf_steps ex \<and> me_leaf_steps_executed ex' = me_leaf_steps_executed ex"
  by (auto simp: next_predicate_result_def split: option.splits list.splits)

lemma within_steps_relation: "0 < n \<Longrightarrow> executor_relation (within_steps n)"
proof (unfold_locales, goal_cases same steps leaf predicate consume branch loop control)
  case (steps s t u)
  then show ?case by (blast intro: within_steps_trans)
next
  case (leaf e ex spec)
  then show ?case by (intro within_steps_leaf)
next
  case (predicate node ex b ex' e)
  then show ?case using next_predicate_steps by (intro within_steps_same) (simp_all add: progress.predicate)
next
  case (branch e ex ex' e' bspec children)
  then have "progress (ex, e) (ex', e')" by (simp add: within_steps_def)
  then show ?case using branch by (intro within_steps_same progress_branch) simp_all
next
  case (loop ex e lspec children iterations passed)
  then show ?case by (intro within_steps_same progress.loop) simp_all
qed (intro within_steps_same progress_same_results; simp)+

interpretation within_steps: executor_relation "within_steps (if n = 0 then 1 else n)" for n
  by (rule within_steps_relation) (simp add: word_gt_0)

section \<open>Guarantees\<close>


text \<open>C39. An execution runs nothing behind a result that stops it, reports success only when no leaf failed, and
  with a step budget it runs no more leaves than the budget, counting one more for the leaf that is refused.\<close>

theorem execution_stops_in_budget:
  assumes "mock_run ex spec = Inr (ex', execution)" and "me_max_leaf_steps ex = Some n" and "0 < n"
    and "me_leaf_steps_executed ex = 0"
  shows "length (we_leaf_results execution) \<le> unat n + (if should_stop_mock_execution execution then 1 else 0)
    \<and> list_all fine (butlast (we_leaf_results execution))
    \<and> (should_stop_mock_execution execution \<longrightarrow> we_leaf_results execution \<noteq> []
         \<and> lf_status (last (we_leaf_results execution)) = we_status execution)
    \<and> (we_status execution = Succeeded \<longrightarrow> list_all (\<lambda>r. fine r \<and> lf_status r \<noteq> Failed) (we_leaf_results execution))"
proof -
  have run: "execute_nodes (ws_nodes spec) ex default_execution = Inr (ex', execution)"
    using assms(1) by (auto simp: mock_run_def split: sum.splits)
  have "n \<noteq> 0" using assms(3) by simp
  then have within: "within_steps n (ex, default_execution) (ex', execution)"
    using within_steps.execution_keeps [OF run, of n] by simp
  have start: "we_leaf_results default_execution = []" "\<not> should_stop_mock_execution default_execution"
    by (simp_all add: default_execution_def should_stop_mock_execution_def)
  have prog: "progress (ex, default_execution) (ex', execution)" using within by (simp add: within_steps_def)
  from prog start obtain new where new: "we_leaf_results execution = new"
    "\<not> should_stop_mock_execution execution \<Longrightarrow> list_all fine new"
    "should_stop_mock_execution execution \<Longrightarrow> \<exists>pre r. new = pre @ [r] \<and> list_all fine pre \<and> lf_status r = we_status execution"
    "we_status execution = Succeeded \<Longrightarrow> list_all (\<lambda>r. lf_status r \<noteq> Failed) new"
    unfolding progress_def by auto
  have fine: "list_all fine (butlast new)"
    using new(2,3) by (cases "should_stop_mock_execution execution") (auto simp: list_all_iff dest: in_set_butlastD)
  have "unat (me_leaf_steps_executed ex') \<le> unat n"
    and "length new \<le> unat (me_leaf_steps_executed ex') + (if should_stop_mock_execution execution then 1 else 0)"
    using within assms(2,4) start new(1) by (auto simp: within_steps_def launched_def word_le_nat_alt)
  then have "length new \<le> unat n + (if should_stop_mock_execution execution then 1 else 0)" by linarith
  moreover have "new \<noteq> [] \<and> lf_status (last new) = we_status execution" if "should_stop_mock_execution execution"
    using new(3) [OF that] by auto
  moreover have "list_all (\<lambda>r. fine r \<and> lf_status r \<noteq> Failed) new" if "we_status execution = Succeeded"
    using new(2,4) that by (simp add: list_all_iff should_stop_mock_execution_def)
  ultimately show ?thesis using fine unfolding new(1) by blast
qed

text \<open>A workflow with a parallel branch of a leaf and an expansion into at most two leaves; three are generated.\<close>

definition demo_permissions :: PermissionSpec where
  "demo_permissions = \<lparr>pm_allow_write = False, pm_allow_network = False, pm_deny_all_tools = False, pm_allowed_tools = [], pm_file_scope = []\<rparr>"

definition demo_budget :: BudgetSpec where
  "demo_budget = \<lparr>bg_max_steps = None, bg_timeout_secs = None, bg_max_parallel = None, bg_max_tokens = None\<rparr>"

definition demo_model :: ModelPolicy where
  "demo_model = \<lparr>mp_provider = None, mp_model = None, mp_fallback_models = []\<rparr>"

definition demo_leaf :: "string \<Rightarrow> LeafSpec" where
  "demo_leaf node = \<lparr>lf_id = node, lf_prompt = ''go'', lf_agent_type = Explore, lf_role = None, lf_profile = None, lf_mode = ReadOnly,
     lf_isolation = AutoIsolation, lf_file_scope = [], lf_cwd = None, lf_depends_on_results = [], lf_budget = demo_budget,
     lf_permissions = demo_permissions, lf_model_policy = demo_model\<rparr>"

definition demo_expand :: ExpandSpec where
  "demo_expand = \<lparr>ex_id = ''e'', ex_source = ''files'', ex_max_children = Some 2\<rparr>"

definition demo_branch :: BranchSpec where
  "demo_branch = \<lparr>bs_id = ''b'', bs_description = None, bs_parallel = True, bs_budget = demo_budget,
     bs_permissions = demo_permissions, bs_model_policy = demo_model\<rparr>"

definition demo_spec :: WorkflowSpec where
  "demo_spec = \<lparr>ws_id = None, ws_goal = ''g'', ws_description = None, ws_budget = demo_budget, ws_permissions = demo_permissions,
     ws_model_policy = demo_model,
     ws_promotion_policy = \<lparr>pr_strategy = PromoteAll, pr_require_teacher_review = False, pr_min_successful_branches = None,
       pr_promotion_gate = \<lparr>pg_min_score_delta = 1, pg_max_cost_delta_microusd = None, pg_require_all_tests_pass = True,
         pg_reject_policy_violations = True, pg_reject_stale_replay = True\<rparr>\<rparr>,
     ws_gates = [],
     ws_nodes = [BranchSet demo_branch [Leaf (demo_leaf ''a''), Expand demo_expand (Some (Leaf (demo_leaf ''t'')))]]\<rparr>"

definition demo_executor :: "u32 option \<Rightarrow> MockWorkflowExecutor" where
  "demo_executor steps = \<lparr>me_leaf_outcomes = [], me_predicate_results = [],
     me_generated_nodes = [(''e'', [Leaf (demo_leaf ''x''), Leaf (demo_leaf ''y''), Leaf (demo_leaf ''z'')])],
     me_cancelled = False, me_max_leaf_steps = steps, me_leaf_steps_executed = 0, me_max_leaf_tokens = None, me_leaf_tokens_used = 0\<rparr>"

lemma demo_follows: "follows_templates {(demo_expand, Some (Leaf (demo_leaf ''t'')))} (demo_executor steps)"
  by (simp add: follows_templates_def demo_executor_def demo_expand_def)

lemma demo_valid:
  "validate_workflow_nodes (ws_nodes demo_spec) = Inr ()"
  "validate_workflow_node_shapes [Leaf (demo_leaf ''t'')] = Inr ()"
  "validate_workflow_node_shapes [Leaf (demo_leaf ''x''), Leaf (demo_leaf ''y'')] = Inr ()"
  by code_simp+

lemma demo_shape:
  "validate_for_fleet_with_limits \<lparr>fl_max_total_agents = 3, fl_max_depth = 2\<rparr> demo_spec = Inr \<lparr>fs_total_agents = 3, fs_max_depth = 2\<rparr>"
  using demo_valid
  by (simp add: validate_for_fleet_with_limits_def estimate_fleet_shape_def demo_spec_def shape_add_def shape_repeat_def demo_expand_def
      sat_add_def sat_mul_def)

lemma demo_leaf_simps [simp]: "lf_id (demo_leaf node) = node" "bg_max_tokens (lf_budget (demo_leaf node)) = None"
  by (simp_all add: demo_leaf_def demo_budget_def)

lemmas demo_run_simps = mock_run_def demo_valid execute_leaf_def mock_leaf_outcome_def step_budget_exhausted_def
  token_budget_exhausted_def should_stop_mock_execution_def default_execution_def demo_executor_def outcome_succeeded_def
  outcome_refused_def total_tokens_def no_usage_def sat_add_def truncate_nodes_def bt_remove_def finish_selected_def
  demo_expand_def Let_def

lemma demo_runs:
  "case mock_run (demo_executor None) demo_spec of Inr (_, e) \<Rightarrow> length (we_leaf_results e) = 3 | Inl _ \<Rightarrow> False"
  "case mock_run (demo_executor (Some 2)) demo_spec of Inr (_, e) \<Rightarrow> we_status e = BudgetExceeded | Inl _ \<Rightarrow> False"
  unfolding mock_run_def demo_valid
  by (simp_all add: demo_run_simps demo_spec_def aggregate_mock_status_def)

theorem execution_stops_in_budget_witness:
  "case mock_run (demo_executor (Some 2)) demo_spec of
     Inr (_, e) \<Rightarrow> length (we_leaf_results e) \<le> 3 \<and> lf_status (last (we_leaf_results e)) = BudgetExceeded | Inl _ \<Rightarrow> False"
proof (cases "mock_run (demo_executor (Some 2)) demo_spec")
  case (Inr r)
  obtain ex' e where run: "mock_run (demo_executor (Some 2)) demo_spec = Inr (ex', e)" using Inr by (cases r) simp
  have "we_status e = BudgetExceeded" using demo_runs(2) run by simp
  with execution_stops_in_budget [OF run, of 2] show ?thesis
    using run by (simp add: demo_executor_def should_stop_mock_execution_def)
qed (use demo_runs(2) in simp)

text \<open>A role is trimmed before its token is checked, a profile is not.\<close>

lemma role_token_is_trimmed:
  "validate_leaf_role ''l'' '' scout '' = Inr () \<and> validate_leaf_profile ''l'' '' scout '' = Inl (InvalidLeafProfile ''l'' '' scout '')"
  by code_simp

end
