(* ===== verification/WorkflowElevation.thy ===== *)
theory WorkflowElevation
  imports WorkflowIr Decimal
begin

text \<open>
  The assessment of a workflow for its approval card (\<open>crates/workflow/src/elevation.rs\<close>): which authority its
  leaves, branches and permissions ask for.
\<close>

section \<open>Tools\<close>

definition is_write_tool :: "string \<Rightarrow> bool" where
  "is_write_tool tool \<longleftrightarrow> trim tool \<in>
     {''Edit'', ''write_file'', ''edit_file'', ''apply_patch'', ''checklist_write'', ''todo_write''}"

definition is_shell_tool :: "string \<Rightarrow> bool" where
  "is_shell_tool tool \<longleftrightarrow> trim tool \<in>
     {''exec_shell'', ''exec_shell_wait'', ''exec_shell_interact'', ''exec_wait'', ''exec_interact'',
      ''task_shell_start'', ''task_shell_wait''}"

definition is_network_tool :: "string \<Rightarrow> bool" where
  "is_network_tool tool \<longleftrightarrow> tool \<in> {''web_search'', ''web_run'', ''fetch_url'', ''wait_for_dev_server''}
     \<or> starts_with tool ''mcp_''"

definition is_secret_tool :: "string \<Rightarrow> bool" where
  "is_secret_tool tool \<longleftrightarrow>
     (let lower = to_ascii_lowercase tool in
      contains lower ''secret'' \<or> contains lower ''credential'' \<or> contains lower ''password''
      \<or> lower = ''read_env'' \<or> lower = ''env'')"

section \<open>The walk\<close>

record PlanAuthority =
  au_child_ids :: "string list"
  au_writes :: bool
  au_shell :: bool
  au_network :: bool
  au_secrets :: bool
  au_worktree :: bool

definition no_authority :: PlanAuthority where
  "no_authority = \<lparr>au_child_ids = [], au_writes = False, au_shell = False, au_network = False, au_secrets = False,
     au_worktree = False\<rparr>"

definition merge_tool :: "string \<Rightarrow> PlanAuthority \<Rightarrow> PlanAuthority" where
  "merge_tool tool a =
     (let name = trim tool in
      a\<lparr>au_writes := au_writes a \<or> is_write_tool name, au_shell := au_shell a \<or> is_shell_tool name,
        au_network := au_network a \<or> is_network_tool name, au_secrets := au_secrets a \<or> is_secret_tool name\<rparr>)"

definition merge_permissions :: "PermissionSpec \<Rightarrow> PlanAuthority \<Rightarrow> PlanAuthority" where
  "merge_permissions p a =
     fold merge_tool (pm_allowed_tools p)
       (a\<lparr>au_writes := au_writes a \<or> pm_allow_write p, au_network := au_network a \<or> pm_allow_network p\<rparr>)"

definition inspect_leaf :: "bool \<Rightarrow> LeafSpec \<Rightarrow> PlanAuthority \<Rightarrow> PlanAuthority" where
  "inspect_leaf in_parallel spec a =
     (let a = a\<lparr>au_child_ids := au_child_ids a @ [lf_id spec], au_writes := au_writes a \<or> leaf_is_write_capable spec\<rparr>;
          a = merge_permissions (lf_permissions spec) a;
          a = a\<lparr>au_worktree := au_worktree a \<or> leaf_wants_worktree in_parallel spec \<or> lf_isolation spec = Worktree\<rparr>
      in a\<lparr>au_shell := au_shell a \<or> (lf_mode spec = ReadWrite \<and> pm_allowed_tools (lf_permissions spec) = []
             \<and> (lf_agent_type spec = Implementer \<or> lf_agent_type spec = General))\<rparr>)"

fun walk_nodes :: "WorkflowNode list \<Rightarrow> bool \<Rightarrow> PlanAuthority \<Rightarrow> PlanAuthority"
  and walk_node :: "WorkflowNode \<Rightarrow> bool \<Rightarrow> PlanAuthority \<Rightarrow> PlanAuthority" where
  "walk_nodes [] in_parallel a = a"
| "walk_nodes (node # nodes) in_parallel a = walk_nodes nodes in_parallel (walk_node node in_parallel a)"
| "walk_node (Leaf spec) in_parallel a = inspect_leaf in_parallel spec a"
| "walk_node (BranchSet spec children) in_parallel a =
     walk_nodes children (bs_parallel spec \<or> in_parallel) (merge_permissions (bs_permissions spec) a)"
| "walk_node (Sequence lane children) in_parallel a = walk_nodes children in_parallel a"
| "walk_node (LoopUntil spec children) in_parallel a = walk_nodes children in_parallel a"
| "walk_node (Cond spec then_nodes else_nodes) in_parallel a =
     walk_nodes else_nodes in_parallel (walk_nodes then_nodes in_parallel a)"
| "walk_node (Expand spec None) in_parallel a = a"
| "walk_node (Expand spec (Some template)) in_parallel a = walk_node template in_parallel a"
| "walk_node (Reduce spec) in_parallel a = a"
| "walk_node (TeacherReview spec) in_parallel a = a"

section \<open>Planner risk\<close>

datatype PlanRiskHint = RiskReadOnly | RiskWrites | RiskShell | RiskNetwork | RiskElevated

definition risk_elevates :: "PlanRiskHint \<Rightarrow> bool" where
  "risk_elevates h \<longleftrightarrow> h \<noteq> RiskReadOnly"

definition assess_plan_risk_string :: "string option \<Rightarrow> PlanRiskHint" where
  "assess_plan_risk_string risk =
     (case risk of
        None \<Rightarrow> RiskReadOnly
      | Some raw \<Rightarrow>
          (let s = trim raw in
           if s = [] then RiskReadOnly
           else if s \<in> {''read_only'', ''readonly'', ''low'', ''safe''} then RiskReadOnly
           else if s \<in> {''writes'', ''write'', ''read_write'', ''readwrite'', ''medium''} then RiskWrites
           else if s = ''shell'' then RiskShell
           else if s = ''network'' then RiskNetwork
           else RiskElevated))"

definition apply_plan_risk_hint :: "string option \<Rightarrow> PlanAuthority \<Rightarrow> PlanAuthority" where
  "apply_plan_risk_hint risk a =
     (case assess_plan_risk_string risk of
        RiskReadOnly \<Rightarrow> a
      | RiskWrites \<Rightarrow> a\<lparr>au_writes := True\<rparr>
      | RiskShell \<Rightarrow> a\<lparr>au_shell := True, au_writes := True\<rparr>
      | RiskNetwork \<Rightarrow> a\<lparr>au_network := True\<rparr>
      | RiskElevated \<Rightarrow> a\<lparr>au_writes := True, au_shell := True, au_network := True\<rparr>)"

definition embedded_plan_risk_hint :: "string option \<Rightarrow> string option" where
  "embedded_plan_risk_hint description =
     (case description of
        None \<Rightarrow> None
      | Some raw \<Rightarrow>
          (let value = trim raw in
           if value \<in> {''read_only'', ''readonly'', ''low'', ''safe'', ''writes'', ''write'', ''read_write'', ''readwrite'',
             ''medium'', ''shell'', ''network'', ''elevated'', ''high''} then Some value else None))"

section \<open>The card\<close>

record ElevationOptions =
  eo_token_budget :: "u64 option"
  eo_high_budget_threshold :: u64
  eo_parent_allows_write :: bool
  eo_parent_allows_network :: bool

definition DEFAULT_HIGH_BUDGET_THRESHOLD :: u64 where "DEFAULT_HIGH_BUDGET_THRESHOLD = 120000"

definition default_elevation_options :: ElevationOptions where
  "default_elevation_options = \<lparr>eo_token_budget = None, eo_high_budget_threshold = DEFAULT_HIGH_BUDGET_THRESHOLD,
     eo_parent_allows_write = True, eo_parent_allows_network = True\<rparr>"

record WorkflowPlanElevation =
  pe_elevated :: bool
  pe_goal :: string
  pe_child_count :: nat
  pe_child_summary :: string
  pe_writes :: bool
  pe_shell :: bool
  pe_network :: bool
  pe_secrets :: bool
  pe_worktree :: bool
  pe_high_budget :: bool
  pe_broader_authority :: bool
  pe_budget_label :: string
  pe_reasons :: "string list"

definition format_budget_label :: "u64 option \<Rightarrow> BudgetSpec \<Rightarrow> bool \<Rightarrow> string" where
  "format_budget_label effective_tokens budget high_budget =
     (let parts = (case effective_tokens of Some n \<Rightarrow> [show_nat (unat n) @ '' tokens''] | None \<Rightarrow> [])
            @ (case bg_max_steps budget of Some n \<Rightarrow> [''max_steps='' @ show_nat (unat n)] | None \<Rightarrow> [])
            @ (case bg_timeout_secs budget of Some n \<Rightarrow> [''timeout='' @ show_nat (unat n) @ ''s''] | None \<Rightarrow> [])
            @ (case bg_max_parallel budget of Some n \<Rightarrow> [''max_parallel='' @ show_nat (unat n)] | None \<Rightarrow> [])
      in if parts = [] then ''default''
         else if high_budget then join '', '' parts @ '' (high)''
         else join '', '' parts)"

definition child_summary :: "string list \<Rightarrow> string" where
  "child_summary ids =
     (if ids = [] then ''0 children''
      else if length ids \<le> 4
      then show_nat (length ids) @ '' child'' @ (if length ids = 1 then [] else ''ren'') @ '': '' @ join '', '' ids
      else show_nat (length ids) @ '' children: '' @ ids ! 0 @ '', '' @ ids ! 1
        @ [CHR 0xE2, CHR 0x80, CHR 0xA6] @ '' (+'' @ show_nat (length ids - 2) @ '')'')"

definition effective_tokens :: "ElevationOptions \<Rightarrow> BudgetSpec \<Rightarrow> u64 option" where
  "effective_tokens options budget =
     (case (case eo_token_budget options of Some n \<Rightarrow> Some n | None \<Rightarrow> bg_max_tokens budget) of
        Some n \<Rightarrow> if 0 < n then Some n else None
      | None \<Rightarrow> None)"

definition spec_authority :: "WorkflowSpec \<Rightarrow> PlanAuthority" where
  "spec_authority spec =
     (let a = merge_permissions (ws_permissions spec) (walk_nodes (ws_nodes spec) False no_authority) in
      case embedded_plan_risk_hint (ws_description spec) of
        Some risk \<Rightarrow> apply_plan_risk_hint (Some risk) a
      | None \<Rightarrow> a)"

definition assess_workflow_elevation :: "WorkflowSpec \<Rightarrow> ElevationOptions \<Rightarrow> WorkflowPlanElevation" where
  "assess_workflow_elevation spec options =
     (let a = spec_authority spec;
          tokens = effective_tokens options (ws_budget spec);
          high_budget = (0 < eo_high_budget_threshold options
            \<and> (case tokens of Some n \<Rightarrow> eo_high_budget_threshold options < n | None \<Rightarrow> False));
          broader_authority = (\<not> eo_parent_allows_write options \<and> au_writes a
            \<or> \<not> eo_parent_allows_network options \<and> au_network a);
          reasons = (if au_writes a then [''writes''] else []) @ (if au_shell a then [''shell''] else [])
            @ (if au_network a then [''network''] else []) @ (if au_secrets a then [''secrets''] else [])
            @ (if au_worktree a then [''worktree''] else []) @ (if high_budget then [''high_budget''] else [])
            @ (if broader_authority then [''broader_authority''] else [])
      in \<lparr>pe_elevated = (reasons \<noteq> []), pe_goal = ws_goal spec, pe_child_count = length (au_child_ids a),
          pe_child_summary = child_summary (au_child_ids a), pe_writes = au_writes a, pe_shell = au_shell a,
          pe_network = au_network a, pe_secrets = au_secrets a, pe_worktree = au_worktree a, pe_high_budget = high_budget,
          pe_broader_authority = broader_authority,
          pe_budget_label = format_budget_label tokens (ws_budget spec) high_budget, pe_reasons = reasons\<rparr>)"

definition yes_no :: "bool \<Rightarrow> string" where
  "yes_no flag = (if flag then ''yes'' else ''no'')"

definition card_fields :: "WorkflowPlanElevation \<Rightarrow> (string \<times> string) list" where
  "card_fields p = [(''Goal'', pe_goal p), (''Children'', pe_child_summary p), (''Writes'', yes_no (pe_writes p)),
     (''Shell'', yes_no (pe_shell p)), (''Network'', yes_no (pe_network p)), (''Budget'', pe_budget_label p)]"

definition is_read_only_envelope :: "WorkflowPlanElevation \<Rightarrow> bool" where
  "is_read_only_envelope p \<longleftrightarrow> \<not> pe_elevated p \<and> \<not> pe_writes p \<and> \<not> pe_shell p \<and> \<not> pe_network p \<and> \<not> pe_secrets p
     \<and> \<not> pe_worktree p \<and> \<not> pe_high_budget p \<and> \<not> pe_broader_authority p"

section \<open>Guarantees\<close>

text \<open>The leaves of a tree with whether a parallel branch holds them, and the permissions branches declare.\<close>

fun leaves_of :: "bool \<Rightarrow> WorkflowNode \<Rightarrow> (bool \<times> LeafSpec) list" where
  "leaves_of in_parallel (Leaf spec) = [(in_parallel, spec)]"
| "leaves_of in_parallel (BranchSet spec children) = concat (map (leaves_of (bs_parallel spec \<or> in_parallel)) children)"
| "leaves_of in_parallel (Sequence lane children) = concat (map (leaves_of in_parallel) children)"
| "leaves_of in_parallel (LoopUntil spec children) = concat (map (leaves_of in_parallel) children)"
| "leaves_of in_parallel (Cond spec then_nodes else_nodes) =
     concat (map (leaves_of in_parallel) then_nodes) @ concat (map (leaves_of in_parallel) else_nodes)"
| "leaves_of in_parallel (Expand spec (Some template)) = leaves_of in_parallel template"
| "leaves_of in_parallel _ = []"

fun branch_permissions :: "WorkflowNode \<Rightarrow> PermissionSpec list" where
  "branch_permissions (BranchSet spec children) = bs_permissions spec # concat (map branch_permissions children)"
| "branch_permissions (Sequence lane children) = concat (map branch_permissions children)"
| "branch_permissions (LoopUntil spec children) = concat (map branch_permissions children)"
| "branch_permissions (Cond spec then_nodes else_nodes) =
     concat (map branch_permissions then_nodes) @ concat (map branch_permissions else_nodes)"
| "branch_permissions (Expand spec (Some template)) = branch_permissions template"
| "branch_permissions _ = []"

definition permits :: "(string \<Rightarrow> bool) \<Rightarrow> PermissionSpec \<Rightarrow> bool" where
  "permits tool p \<longleftrightarrow> (\<exists>t \<in> set (pm_allowed_tools p). tool (trim t))"

text \<open>What one leaf, and a list of permissions, add to the authority.\<close>

definition leaf_shell :: "LeafSpec \<Rightarrow> bool" where
  "leaf_shell l \<longleftrightarrow> lf_mode l = ReadWrite \<and> pm_allowed_tools (lf_permissions l) = []
     \<and> (lf_agent_type l = Implementer \<or> lf_agent_type l = General)"

definition leaf_worktree :: "bool \<times> LeafSpec \<Rightarrow> bool" where
  "leaf_worktree x \<longleftrightarrow> leaf_wants_worktree (fst x) (snd x) \<or> lf_isolation (snd x) = Worktree"

definition adds :: "(bool \<times> LeafSpec) list \<Rightarrow> PermissionSpec list \<Rightarrow> PlanAuthority \<Rightarrow> PlanAuthority" where
  "adds ls ps a =
     (let qs = map (lf_permissions \<circ> snd) ls @ ps in
      \<lparr>au_child_ids = au_child_ids a @ map (lf_id \<circ> snd) ls,
       au_writes = (au_writes a \<or> list_ex (leaf_is_write_capable \<circ> snd) ls
          \<or> list_ex (\<lambda>p. pm_allow_write p \<or> permits is_write_tool p) qs),
       au_shell = (au_shell a \<or> list_ex (leaf_shell \<circ> snd) ls \<or> list_ex (permits is_shell_tool) qs),
       au_network = (au_network a \<or> list_ex (\<lambda>p. pm_allow_network p \<or> permits is_network_tool p) qs),
       au_secrets = (au_secrets a \<or> list_ex (permits is_secret_tool) qs),
       au_worktree = (au_worktree a \<or> list_ex leaf_worktree ls)\<rparr>)"

lemma adds_nothing [simp]: "adds [] [] a = a"
  by (simp add: adds_def)

lemma adds_adds: "adds ls' ps' (adds ls ps a) = adds (ls @ ls') (ps @ ps') a"
  by (auto simp: adds_def Let_def)

lemma merge_tools:
  "fold merge_tool ts a = a\<lparr>au_writes := au_writes a \<or> (\<exists>t \<in> set ts. is_write_tool (trim t)),
     au_shell := au_shell a \<or> (\<exists>t \<in> set ts. is_shell_tool (trim t)),
     au_network := au_network a \<or> (\<exists>t \<in> set ts. is_network_tool (trim t)),
     au_secrets := au_secrets a \<or> (\<exists>t \<in> set ts. is_secret_tool (trim t))\<rparr>"
  by (induction ts arbitrary: a) (auto simp: merge_tool_def Let_def)

lemma merge_permissions_adds: "merge_permissions p a = adds [] [p] a"
  by (auto simp: merge_permissions_def merge_tools adds_def permits_def)

lemma inspect_leaf_adds: "inspect_leaf in_parallel spec a = adds [(in_parallel, spec)] [] a"
  by (rule PlanAuthority.equality)
    (auto simp: inspect_leaf_def merge_permissions_def merge_tools adds_def permits_def Let_def leaf_shell_def leaf_worktree_def)

lemma walk_adds:
  "walk_nodes nodes in_parallel a = adds (concat (map (leaves_of in_parallel) nodes)) (concat (map branch_permissions nodes)) a"
  "walk_node node in_parallel a = adds (leaves_of in_parallel node) (branch_permissions node) a"
  by (induction nodes in_parallel a and node in_parallel a rule: walk_nodes_walk_node.induct)
    (simp_all add: adds_adds merge_permissions_adds inspect_leaf_adds)

abbreviation spec_leaves :: "WorkflowSpec \<Rightarrow> (bool \<times> LeafSpec) list" where
  "spec_leaves spec \<equiv> concat (map (leaves_of False) (ws_nodes spec))"

abbreviation spec_permissions :: "WorkflowSpec \<Rightarrow> PermissionSpec list" where
  "spec_permissions spec \<equiv>
     map (lf_permissions \<circ> snd) (spec_leaves spec) @ concat (map branch_permissions (ws_nodes spec)) @ [ws_permissions spec]"

definition declared_risk :: "WorkflowSpec \<Rightarrow> PlanRiskHint" where
  "declared_risk spec = assess_plan_risk_string (embedded_plan_risk_hint (ws_description spec))"

lemma spec_authority_adds:
  "spec_authority spec =
     apply_plan_risk_hint (embedded_plan_risk_hint (ws_description spec))
       (adds (spec_leaves spec) (concat (map branch_permissions (ws_nodes spec)) @ [ws_permissions spec]) no_authority)"
  by (cases "embedded_plan_risk_hint (ws_description spec)")
    (simp_all add: spec_authority_def Let_def walk_adds merge_permissions_adds adds_adds apply_plan_risk_hint_def
      assess_plan_risk_string_def)

lemma risk_flags:
  "au_writes (apply_plan_risk_hint r a) \<longleftrightarrow> au_writes a \<or> assess_plan_risk_string r \<in> {RiskWrites, RiskShell, RiskElevated}"
  "au_shell (apply_plan_risk_hint r a) \<longleftrightarrow> au_shell a \<or> assess_plan_risk_string r \<in> {RiskShell, RiskElevated}"
  "au_network (apply_plan_risk_hint r a) \<longleftrightarrow> au_network a \<or> assess_plan_risk_string r \<in> {RiskNetwork, RiskElevated}"
  "au_secrets (apply_plan_risk_hint r a) = au_secrets a" "au_worktree (apply_plan_risk_hint r a) = au_worktree a"
  "au_child_ids (apply_plan_risk_hint r a) = au_child_ids a"
  by (auto simp: apply_plan_risk_hint_def split: PlanRiskHint.split)


text \<open>The lists name tools by their internal names. The names the model calls them by are \<open>Bash\<close> and \<open>File\<close>: a
  branch whose only tool is \<open>Bash\<close> is not reported to run a shell, one with \<open>File\<close> is not reported to write.\<close>

lemma canonical_shell_not_reported: "\<not> is_shell_tool ''Bash'' \<and> \<not> is_write_tool ''File''"
  by code_simp

end
