(* ===== verification/Resources.thy ===== *)
theory Resources
  imports Prelude
begin

text \<open>
  Resource claims and parallel tool batches: \<open>crates/tools/src/resources.rs\<close> (claims, their
  conflicts, the batch scheduler) and the batch planner of
  \<open>crates/engine/src/core/engine/dispatch.rs\<close> that relies on it. A \<open>PathBuf\<close> is the list of its
  components, on which both its equality and \<open>starts_with\<close> are defined.
\<close>

section \<open>Claims\<close>

type_synonym path = "string list"

datatype ResourceClaim =
  ReadPath path
| WritePath path
| ReadTree path
| WriteTree path
| Terminal string
| GlobalExclusive

definition path_starts_with :: "path \<Rightarrow> path \<Rightarrow> bool" where
  "path_starts_with p base \<longleftrightarrow> take (length base) p = base"

definition trees_overlap :: "path \<Rightarrow> path \<Rightarrow> bool" where
  "trees_overlap left right \<longleftrightarrow> path_starts_with left right \<or> path_starts_with right left"

fun conflicts_with :: "ResourceClaim \<Rightarrow> ResourceClaim \<Rightarrow> bool" where
  "conflicts_with GlobalExclusive _ = True"
| "conflicts_with _ GlobalExclusive = True"
| "conflicts_with (Terminal l) (Terminal r) = (l = r)"
| "conflicts_with (ReadPath _) (ReadPath _) = False"
| "conflicts_with (ReadPath l) (WritePath r) = (l = r)"
| "conflicts_with (WritePath r) (ReadPath l) = (l = r)"
| "conflicts_with (WritePath l) (WritePath r) = (l = r)"
| "conflicts_with (ReadTree _) (ReadTree _) = False"
| "conflicts_with (ReadTree _) (ReadPath _) = False"
| "conflicts_with (ReadPath _) (ReadTree _) = False"
| "conflicts_with (ReadTree t) (WritePath p) = path_starts_with p t"
| "conflicts_with (WritePath p) (ReadTree t) = path_starts_with p t"
| "conflicts_with (WriteTree t) (ReadPath p) = path_starts_with p t"
| "conflicts_with (ReadPath p) (WriteTree t) = path_starts_with p t"
| "conflicts_with (WriteTree t) (WritePath p) = path_starts_with p t"
| "conflicts_with (WritePath p) (WriteTree t) = path_starts_with p t"
| "conflicts_with (ReadTree l) (WriteTree r) = trees_overlap l r"
| "conflicts_with (WriteTree r) (ReadTree l) = trees_overlap l r"
| "conflicts_with (WriteTree l) (WriteTree r) = trees_overlap l r"
| "conflicts_with _ _ = False"

section \<open>The scheduler\<close>

definition must_flush :: "ResourceClaim list \<Rightarrow> 'a list \<Rightarrow> ResourceClaim list \<Rightarrow> bool" where
  "must_flush claims batch batch_claims \<longleftrightarrow>
     (let global_barrier = batch \<noteq> []
            \<and> (GlobalExclusive \<in> set claims \<or> GlobalExclusive \<in> set batch_claims);
          conflicts = global_barrier
            \<or> list_ex (\<lambda>claim. list_ex (conflicts_with claim) batch_claims) claims
      in conflicts \<and> batch \<noteq> [])"

fun schedule_loop ::
  "'a list list \<Rightarrow> 'a list \<Rightarrow> ResourceClaim list \<Rightarrow> ('a \<times> ResourceClaim list) list \<Rightarrow> 'a list list" where
  "schedule_loop batches batch batch_claims [] = (if batch \<noteq> [] then batches @ [batch] else batches)"
| "schedule_loop batches batch batch_claims ((item, claims) # items) =
     (if must_flush claims batch batch_claims
      then schedule_loop (batches @ [batch]) [item] claims items
      else schedule_loop batches (batch @ [item]) (batch_claims @ claims) items)"

definition schedule_non_conflicting :: "('a \<times> ResourceClaim list) list \<Rightarrow> 'a list list" where
  "schedule_non_conflicting items = schedule_loop [] [] [] items"

section \<open>Tool batches\<close>

text \<open>The fields of \<open>ToolExecutionPlan\<close> the planner reads; \<open>'p\<close> stands for the others.\<close>

record 'p ToolExecutionPlan =
  plan_interactive :: bool
  plan_approval_required :: bool
  plan_supports_parallel :: bool
  plan_read_only :: bool
  plan_detached_start :: bool
  plan_resources :: "ResourceClaim list"
  plan_blocked_error :: "string option"
  plan_call :: 'p

datatype 'p ToolExecutionBatch = Parallel "'p ToolExecutionPlan list" | Serial "'p ToolExecutionPlan"

definition tool_plan_is_parallel_safe :: "'p ToolExecutionPlan \<Rightarrow> bool" where
  "tool_plan_is_parallel_safe p \<longleftrightarrow>
     plan_read_only p \<and> plan_supports_parallel p \<and> \<not> plan_approval_required p \<and> \<not> plan_interactive p"

definition tool_plan_can_join_parallel_batch :: "'p ToolExecutionPlan \<Rightarrow> bool" where
  "tool_plan_can_join_parallel_batch p \<longleftrightarrow>
     plan_blocked_error p = None
     \<and> (tool_plan_is_parallel_safe p
        \<or> (plan_detached_start p \<and> \<not> plan_approval_required p \<and> \<not> plan_interactive p))"

fun plan_loop ::
  "(('p ToolExecutionPlan \<times> ResourceClaim list) list \<Rightarrow> 'p ToolExecutionPlan list list)
   \<Rightarrow> 'p ToolExecutionBatch list \<Rightarrow> ('p ToolExecutionPlan \<times> ResourceClaim list) list
   \<Rightarrow> 'p ToolExecutionPlan list \<Rightarrow> 'p ToolExecutionBatch list" where
  "plan_loop schedule batches candidates [] = batches @ map Parallel (schedule candidates)"
| "plan_loop schedule batches candidates (p # plans) =
     (if tool_plan_can_join_parallel_batch p
      then plan_loop schedule batches (candidates @ [(p, plan_resources p)]) plans
      else plan_loop schedule (batches @ map Parallel (schedule candidates) @ [Serial p]) [] plans)"

definition plan_tool_execution_batches ::
  "'p ToolExecutionPlan list \<Rightarrow> 'p ToolExecutionBatch list" where
  "plan_tool_execution_batches plans = plan_loop schedule_non_conflicting [] [] plans"

section \<open>What a claim touches\<close>

datatype location = FileAt path | TerminalAt string

fun touches :: "ResourceClaim \<Rightarrow> location \<Rightarrow> bool" where
  "touches (ReadPath p) (FileAt q) = (q = p)"
| "touches (WritePath p) (FileAt q) = (q = p)"
| "touches (ReadTree t) (FileAt q) = prefix t q"
| "touches (WriteTree t) (FileAt q) = prefix t q"
| "touches (Terminal n) (TerminalAt m) = (n = m)"
| "touches GlobalExclusive _ = True"
| "touches _ _ = False"

fun is_write :: "ResourceClaim \<Rightarrow> bool" where
  "is_write (ReadPath _) = False"
| "is_write (ReadTree _) = False"
| "is_write _ = True"

lemma path_starts_with_prefix: "path_starts_with p base \<longleftrightarrow> prefix base p"
  by (auto simp: path_starts_with_def prefix_def) (metis append_take_drop_id)

lemma trees_overlap_common: "trees_overlap l r \<longleftrightarrow> (\<exists>q. prefix l q \<and> prefix r q)"
  by (auto simp: trees_overlap_def path_starts_with_prefix dest: prefix_same_cases)

lemma conflicts_with_sym: "conflicts_with a b \<longleftrightarrow> conflicts_with b a"
  by (cases a; cases b) (auto simp: trees_overlap_def)

lemma location_ex: "(\<exists>x. P x) \<longleftrightarrow> (\<exists>p. P (FileAt p)) \<or> (\<exists>n. P (TerminalAt n))"
  by (metis location.exhaust)

section \<open>The scheduler's contract\<close>

definition independent :: "ResourceClaim list \<Rightarrow> ResourceClaim list \<Rightarrow> bool" where
  "independent cs ds \<longleftrightarrow> GlobalExclusive \<notin> set cs \<and> GlobalExclusive \<notin> set ds
     \<and> (\<forall>c \<in> set cs. \<forall>d \<in> set ds. \<not> conflicts_with c d)"

lemma independent_sym: "independent cs ds \<Longrightarrow> independent ds cs"
  by (auto simp: independent_def dest: conflicts_with_sym [THEN iffD1])

text \<open>The items with their claims in the same batches: the loop never looks at an item.\<close>

lemma schedule_loop_map:
  "schedule_loop (map (map f) batches) (map f batch) claims (map (map_prod f id) items)
   = map (map f) (schedule_loop batches batch claims items)"
proof (induction items arbitrary: batches batch claims)
  case Nil
  show ?case by simp
next
  case (Cons i items)
  obtain x cs where i: "i = (x, cs)" by force
  show ?case
    using Cons.IH [of "batches @ [batch]" "[x]" cs] Cons.IH [of batches "batch @ [x]" "claims @ cs"]
    by (simp add: i must_flush_def Let_def)
qed

definition batch_ok :: "('a \<times> ResourceClaim list) list \<Rightarrow> bool" where
  "batch_ok b \<longleftrightarrow> sorted_wrt (\<lambda>i j. independent (snd i) (snd j)) b"

lemma batch_ok_snoc:
  assumes "batch_ok b" and "\<not> must_flush claims b (concat (map snd b))"
  shows "batch_ok (b @ [(x, claims)])"
proof -
  have "independent (snd i) claims" if "i \<in> set b" for i
    using assms(2) that
    by (cases i) (fastforce simp: independent_def must_flush_def Let_def list_ex_iff
      dest: conflicts_with_sym [THEN iffD1])
  with assms(1) show ?thesis by (simp add: batch_ok_def sorted_wrt_append)
qed

lemma schedule_loop_tagged:
  assumes "\<forall>b \<in> set batches. b \<noteq> [] \<and> batch_ok b" and "batch_ok batch"
    and "bs = schedule_loop batches batch (concat (map snd batch)) (map (\<lambda>i. (i, snd i)) items)"
  shows "concat bs = concat batches @ batch @ items \<and> (\<forall>b \<in> set bs. b \<noteq> [] \<and> batch_ok b)"
  using assms
proof (induction items arbitrary: batches batch)
  case Nil
  then show ?case by simp
next
  case (Cons i items)
  obtain x cs where i: "i = (x, cs)" by force
  show ?case
  proof (cases "must_flush cs batch (concat (map snd batch))")
    case True
    have "\<forall>b \<in> set (batches @ [batch]). b \<noteq> [] \<and> batch_ok b" and "batch_ok [i]"
      using Cons.prems True by (auto simp: must_flush_def Let_def batch_ok_def)
    from Cons.IH [OF this] Cons.prems(3) True show ?thesis by (simp add: i)
  next
    case False
    have "batch_ok (batch @ [i])" using Cons.prems(2) False by (simp add: i batch_ok_snoc)
    from Cons.IH [OF Cons.prems(1) this] Cons.prems(3) False show ?thesis by (simp add: i)
  qed
qed

text \<open>The contract the planner needs of a scheduler: some partition of the items into non-empty
  consecutive batches whose items are pairwise independent.\<close>

definition good_batches :: "('a \<times> ResourceClaim list) list list \<Rightarrow> ('a \<times> ResourceClaim list) list \<Rightarrow> bool" where
  "good_batches bs items \<longleftrightarrow> concat bs = items \<and> (\<forall>b \<in> set bs. b \<noteq> [] \<and> batch_ok b)"

locale batch_scheduler =
  fixes schedule :: "('a \<times> ResourceClaim list) list \<Rightarrow> 'a list list"
  assumes schedule_good: "\<exists>bs. good_batches bs items \<and> schedule items = map (map fst) bs"
begin

lemma schedule_concat: "concat (schedule items) = map fst items"
proof -
  obtain bs where "good_batches bs items" "schedule items = map (map fst) bs"
    using schedule_good by blast
  then show ?thesis by (auto simp: good_batches_def map_concat)
qed

lemma schedule_nonempty: "b \<in> set (schedule items) \<Longrightarrow> b \<noteq> []"
  using schedule_good [of items] by (auto simp: good_batches_def)

text \<open>Where an item carries its own claims, the batches are independent in terms of the items.\<close>

lemma schedule_independent:
  assumes "\<And>i. i \<in> set items \<Longrightarrow> snd i = f (fst i)" and "b \<in> set (schedule items)"
  shows "sorted_wrt (\<lambda>x y. independent (f x) (f y)) b"
proof -
  obtain bs where bs: "good_batches bs items" "schedule items = map (map fst) bs"
    using schedule_good by blast
  with assms(2) obtain c where c: "c \<in> set bs" "b = map fst c" by auto
  have claims: "snd i = f (fst i)" if "i \<in> set c" for i
    by (rule assms(1)) (use that c(1) bs(1) in \<open>auto simp: good_batches_def\<close>)
  from bs c have "sorted_wrt (\<lambda>i j. independent (snd i) (snd j)) c"
    by (simp add: good_batches_def batch_ok_def)
  then have "sorted_wrt (\<lambda>i j. independent (f (fst i)) (f (fst j))) c"
    by (rule sorted_wrt_mono_rel [rotated]) (simp add: claims)
  then show ?thesis by (simp add: c(2) sorted_wrt_map)
qed

end

lemma schedule_non_conflicting_tagged:
  "good_batches (schedule_loop [] [] [] (map (\<lambda>i. (i, snd i)) items)) items
   \<and> schedule_non_conflicting items = map (map fst) (schedule_loop [] [] [] (map (\<lambda>i. (i, snd i)) items))"
proof
  let ?bs = "schedule_loop [] [] [] (map (\<lambda>i. (i, snd i)) items)"
  have "concat ?bs = concat [] @ [] @ items \<and> (\<forall>b \<in> set ?bs. b \<noteq> [] \<and> batch_ok b)"
    by (rule schedule_loop_tagged [where batches = "[]" and batch = "[]"]) (simp_all add: batch_ok_def)
  then show "good_batches ?bs items" by (simp add: good_batches_def)
  have "map (map_prod fst id) (map (\<lambda>i. (i, snd i)) items) = items" by (induction items) auto
  then show "schedule_non_conflicting items = map (map fst) ?bs"
    using schedule_loop_map [of fst "[]" "[]" "[]" "map (\<lambda>i. (i, snd i)) items"]
    by (simp add: schedule_non_conflicting_def del: map_map)
qed

interpretation snc: batch_scheduler schedule_non_conflicting
  by unfold_locales (use schedule_non_conflicting_tagged in blast)

text \<open>A batch is closed only because the next item is not independent of it.\<close>

lemma must_flush_dependent:
  assumes "must_flush claims b (concat (map snd b))"
  shows "\<exists>i \<in> set b. \<not> independent (snd i) claims"
proof -
  from assms have "b \<noteq> []" and "GlobalExclusive \<in> set claims
      \<or> (\<exists>i \<in> set b. GlobalExclusive \<in> set (snd i))
      \<or> (\<exists>i \<in> set b. \<exists>d \<in> set (snd i). \<exists>c \<in> set claims. conflicts_with c d)"
    by (auto simp: must_flush_def Let_def list_ex_iff)
  moreover from \<open>b \<noteq> []\<close> have "hd b \<in> set b" by simp
  ultimately show ?thesis
    using conflicts_with_sym unfolding independent_def by metis
qed

definition split_forced :: "('a \<times> ResourceClaim list) list list \<Rightarrow> bool" where
  "split_forced = successively (\<lambda>b c. \<exists>i \<in> set b. \<not> independent (snd i) (snd (hd c)))"

lemma split_forced_snoc:
  "split_forced (bs @ [b]) \<Longrightarrow> hd b' = hd b \<Longrightarrow> split_forced (bs @ [b'])"
  by (auto simp: split_forced_def successively_append_iff)

lemma split_forced_grow:
  "split_forced (bs @ [b]) \<Longrightarrow> \<exists>i \<in> set b. \<not> independent (snd i) (snd x) \<Longrightarrow>
   split_forced (bs @ [b, [x]])"
  by (auto simp: split_forced_def successively_append_iff)

lemma schedule_loop_forced:
  "split_forced (batches @ [batch]) \<Longrightarrow> batch \<noteq> [] \<Longrightarrow>
   split_forced (schedule_loop batches batch (concat (map snd batch)) (map (\<lambda>i. (i, snd i)) items))"
proof (induction items arbitrary: batches batch)
  case Nil
  then show ?case by simp
next
  case (Cons i items)
  obtain x cs where i: "i = (x, cs)" by force
  show ?case
  proof (cases "must_flush cs batch (concat (map snd batch))")
    case True
    from must_flush_dependent [OF this] Cons.prems(1) have "split_forced (batches @ [batch, [i]])"
      by (intro split_forced_grow) (simp_all add: i)
    with Cons.IH [of "batches @ [batch]" "[i]"] True show ?thesis by (simp add: i)
  next
    case False
    from Cons.prems have "split_forced (batches @ [batch @ [i]])"
      by (intro split_forced_snoc [OF Cons.prems(1)]) simp
    with Cons.IH [of batches "batch @ [i]"] False show ?thesis by (simp add: i)
  qed
qed

section \<open>The planner, on any scheduler that meets the contract\<close>

fun batch_plans :: "'p ToolExecutionBatch \<Rightarrow> 'p ToolExecutionPlan list" where
  "batch_plans (Parallel ps) = ps"
| "batch_plans (Serial p) = [p]"

fun batch_valid :: "'p ToolExecutionBatch \<Rightarrow> bool" where
  "batch_valid (Parallel ps) = (ps \<noteq> [] \<and> list_all tool_plan_can_join_parallel_batch ps
     \<and> sorted_wrt (\<lambda>p q. independent (plan_resources p) (plan_resources q)) ps)"
| "batch_valid (Serial p) = (\<not> tool_plan_can_join_parallel_batch p)"

definition candidates_ok :: "('p ToolExecutionPlan \<times> ResourceClaim list) list \<Rightarrow> bool" where
  "candidates_ok cs \<longleftrightarrow>
     list_all (\<lambda>(p, claims). claims = plan_resources p \<and> tool_plan_can_join_parallel_batch p) cs"

locale plan_scheduler = batch_scheduler schedule
  for schedule :: "('p ToolExecutionPlan \<times> ResourceClaim list) list \<Rightarrow> 'p ToolExecutionPlan list list"
begin

lemma scheduled_valid:
  assumes "candidates_ok cs" and "b \<in> set (schedule cs)"
  shows "batch_valid (Parallel b)"
proof -
  have "sorted_wrt (\<lambda>p q. independent (plan_resources p) (plan_resources q)) b"
    by (rule schedule_independent [OF _ assms(2)])
      (use assms(1) in \<open>auto simp: candidates_ok_def list_all_iff\<close>)
  moreover have "set b \<subseteq> fst ` set cs"
    using schedule_concat [of cs] assms(2) by (metis UN_upper set_concat set_map)
  moreover have "list_all tool_plan_can_join_parallel_batch (map fst cs)"
    using assms(1) by (auto simp: candidates_ok_def list_all_iff)
  ultimately show ?thesis using schedule_nonempty [OF assms(2)] by (auto simp: list_all_iff)
qed

lemma plan_loop_plans:
  "concat (map batch_plans (plan_loop schedule batches cs plans))
   = concat (map batch_plans batches) @ map fst cs @ plans"
  by (induction plans arbitrary: batches cs) (simp_all add: o_def schedule_concat)

lemma plan_loop_valid:
  "list_all batch_valid batches \<Longrightarrow> candidates_ok cs \<Longrightarrow>
   list_all batch_valid (plan_loop schedule batches cs plans)"
proof (induction plans arbitrary: batches cs)
  case Nil
  then show ?case using scheduled_valid by (auto simp: list_all_iff)
next
  case (Cons p plans)
  have "list_all batch_valid (map Parallel (schedule cs))"
    using Cons.prems(2) scheduled_valid by (auto simp: list_all_iff)
  with Cons show ?case by (simp add: candidates_ok_def)
qed

end

interpretation tools: plan_scheduler schedule_non_conflicting
  by unfold_locales

section \<open>Properties\<close>

text \<open>Two claims conflict exactly when some file or terminal is touched by both and at least one
  of them writes; the relation of \<open>conflicts_with\<close> on paths and trees is neither wider nor
  narrower than that.\<close>

theorem conflicts_with_spec:
  "conflicts_with a b \<longleftrightarrow> (\<exists>x. touches a x \<and> touches b x) \<and> (is_write a \<or> is_write b)"
  by (cases a; cases b) (auto simp: location_ex path_starts_with_prefix trees_overlap_common)

text \<open>The scheduler partitions the calls, in their original order, into non-empty batches; any
  two calls of a batch are independent (no conflicting claims, and a call with a global-exclusive
  claim is alone in its batch, even next to calls without claims); and a batch ends only where the
  next call is not independent of it, so no parallelism is given up.\<close>

theorem schedule_non_conflicting_correct:
  "\<exists>bs. concat bs = items \<and> schedule_non_conflicting items = map (map fst) bs
     \<and> list_all (\<lambda>b. b \<noteq> [] \<and> sorted_wrt (\<lambda>i j. independent (snd i) (snd j)) b) bs
     \<and> successively (\<lambda>b c. \<exists>i \<in> set b. \<not> independent (snd i) (snd (hd c))) bs"
proof -
  let ?bs = "schedule_loop [] [] [] (map (\<lambda>i. (i, snd i)) items)"
  have "split_forced ?bs"
  proof (cases items)
    case (Cons i rest)
    have "split_forced ([] @ [[i]])" by (simp add: split_forced_def)
    from schedule_loop_forced [OF this, of rest] show ?thesis by (simp add: Cons must_flush_def)
  qed (simp add: split_forced_def)
  moreover have "good_batches ?bs items \<and> schedule_non_conflicting items = map (map fst) ?bs"
    by (rule schedule_non_conflicting_tagged)
  ultimately show ?thesis
    by (intro exI [of _ ?bs]) (simp add: good_batches_def batch_ok_def split_forced_def list_all_iff)
qed


end
