(* ===== verification/GoalLoop.thy ===== *)
theory GoalLoop
  imports Prelude "HOL-Library.Char_ord" "HOL-Library.List_Lexorder"
begin

text \<open>
  The persistent-goal loop: \<open>crates/runtime/src/goal_loop.rs\<close> (the continuation decision) and
  \<open>GoalState\<close> of \<open>crates/engine/src/tools/goal.rs\<close> (the lifecycle of one goal, its stall window and
  its snapshots), with \<open>validate_goal_stall_state\<close> of \<open>crates/protocol/src/lib.rs\<close>. An \<open>Instant\<close> is
  a number of nanoseconds and \<open>Instant::now()\<close> an argument \<open>now\<close>; fresh UUIDs are arguments. The
  SHA-256 digest (a third-party crate) and Rust's Unicode \<open>to_lowercase\<close> are the fields of
  \<open>Digest\<close>.
\<close>

section \<open>The continuation decision\<close>

definition DEFAULT_MAX_GOAL_CONTINUATIONS :: u32 where
  "DEFAULT_MAX_GOAL_CONTINUATIONS = 0"

definition DEFAULT_GOAL_MAX_STEPS :: u32 where
  "DEFAULT_GOAL_MAX_STEPS = - 1"

definition MAX_REPEATED_GAP_PASSES :: u32 where
  "MAX_REPEATED_GAP_PASSES = 3"

definition MAX_GOAL_CONTINUATION_DELAY_SECONDS :: u64 where
  "MAX_GOAL_CONTINUATION_DELAY_SECONDS = 24 * 60 * 60"

datatype GoalRunStatus = RunActive | RunCompleted | RunBlocked

datatype StopReason = StopCompleted | StopBlocked | ContinuationLimit | BudgetLimitStop

record GoalProgress =
  prog_tokens_used :: u64
  prog_time_used_seconds :: u64
  prog_continuations :: u32

record GoalBudget =
  bud_token_budget :: "u64 option"
  bud_time_budget_seconds :: "u64 option"
  bud_enforce_token_budget :: bool
  bud_max_continuations :: u32

definition budget_unbounded :: GoalBudget where
  "budget_unbounded =
     \<lparr>bud_token_budget = None, bud_time_budget_seconds = None, bud_enforce_token_budget = False,
      bud_max_continuations = DEFAULT_MAX_GOAL_CONTINUATIONS\<rparr>"

definition budget_with_token_budget :: "u64 \<Rightarrow> GoalBudget" where
  "budget_with_token_budget n =
     \<lparr>bud_token_budget = Some n, bud_time_budget_seconds = None, bud_enforce_token_budget = False,
      bud_max_continuations = DEFAULT_MAX_GOAL_CONTINUATIONS\<rparr>"

definition with_enforced_token_budget :: "GoalBudget \<Rightarrow> bool \<Rightarrow> GoalBudget" where
  "with_enforced_token_budget b enforce = b\<lparr>bud_enforce_token_budget := enforce\<rparr>"

definition with_max_continuations :: "GoalBudget \<Rightarrow> u32 \<Rightarrow> GoalBudget" where
  "with_max_continuations b n = b\<lparr>bud_max_continuations := n\<rparr>"

datatype ContinuationDecision = Continue | Stop StopReason

text \<open>The time budget is only logged.\<close>

definition decide_continuation ::
  "GoalRunStatus \<Rightarrow> GoalProgress \<Rightarrow> GoalBudget \<Rightarrow> ContinuationDecision" where
  "decide_continuation status progress budget =
     (case status of
        RunCompleted \<Rightarrow> Stop StopCompleted
      | RunBlocked \<Rightarrow> Stop StopBlocked
      | RunActive \<Rightarrow>
          if (case bud_token_budget budget of Some limit \<Rightarrow> limit \<le> prog_tokens_used progress | None \<Rightarrow> False)
             \<and> bud_enforce_token_budget budget
          then Stop BudgetLimitStop
          else if 0 < bud_max_continuations budget
             \<and> bud_max_continuations budget \<le> prog_continuations progress
          then Stop ContinuationLimit
          else Continue)"

definition token_budget_exhausted :: "GoalProgress \<Rightarrow> GoalBudget \<Rightarrow> bool" where
  "token_budget_exhausted progress budget \<longleftrightarrow>
     bud_enforce_token_budget budget
     \<and> (case bud_token_budget budget of Some limit \<Rightarrow> limit \<le> prog_tokens_used progress | None \<Rightarrow> False)"

definition is_success :: "StopReason \<Rightarrow> bool" where
  "is_success reason \<longleftrightarrow> reason = StopCompleted"

datatype ContinuationWaitOutcome = Elapsed | WaitCancelled

definition continuation_wait :: "u64 \<Rightarrow> u64 option" where
  "continuation_wait delay_seconds =
     (if delay_seconds = 0 then None
      else Some (if MAX_GOAL_CONTINUATION_DELAY_SECONDS < delay_seconds
                 then MAX_GOAL_CONTINUATION_DELAY_SECONDS else delay_seconds))"

text \<open>The biased wait: the token's state on entry, and whether it is cancelled no later than the
  sleep ends.\<close>

definition await_continuation_wait :: "u64 option \<Rightarrow> bool \<Rightarrow> bool \<Rightarrow> ContinuationWaitOutcome" where
  "await_continuation_wait wait cancelled cancelled_by_end =
     (if cancelled then WaitCancelled
      else case wait of
        None \<Rightarrow> Elapsed
      | Some _ \<Rightarrow> if cancelled_by_end then WaitCancelled else Elapsed)"

section \<open>Goal state\<close>

datatype GoalStatus = Active | Paused | Complete | Blocked

fun goal_status_str :: "GoalStatus \<Rightarrow> string" where
  "goal_status_str Active = ''active''"
| "goal_status_str Paused = ''paused''"
| "goal_status_str Complete = ''complete''"
| "goal_status_str Blocked = ''blocked''"

datatype GoalPauseReason =
  PauseUser | Backoff | NoProgress | UsageLimit | BudgetLimit | Yielded | Unrecognized

fun pause_label :: "GoalPauseReason \<Rightarrow> string" where
  "pause_label PauseUser = ''user''"
| "pause_label Backoff = ''run limit''"
| "pause_label NoProgress = ''no progress''"
| "pause_label UsageLimit = ''usage limit''"
| "pause_label BudgetLimit = ''budget limit''"
| "pause_label Yielded = ''handed back''"
| "pause_label Unrecognized = ''unrecognized''"

datatype GoalReviewRole = Critical | Advisory

record GoalProgressReport =
  rep_percent :: u8
  rep_now :: "string option"
  rep_next :: "string option"

record GoalCompletionVerification =
  cv_status :: string
  cv_check :: string
  cv_summary :: string
  cv_role :: GoalReviewRole
  cv_contract_fingerprint :: string

record GoalProgressVerification =
  pv_status :: string
  pv_check :: string
  pv_summary :: string
  pv_role :: GoalReviewRole
  pv_gaps :: "string list"

record GoalState =
  g_goal_id :: "string option"
  g_objective :: "string option"
  g_token_budget :: "u32 option"
  g_status :: "GoalStatus option"
  g_tokens_used :: u64
  g_time_used_seconds :: u64
  g_continuation_count :: u32
  g_started_at :: "nat option"
  g_finished_at :: "nat option"
  g_evidence :: "string option"
  g_blocker :: "string option"
  g_pause_reason :: "GoalPauseReason option"
  g_completion_verification :: "GoalCompletionVerification option"
  g_advisories :: "string list"
  g_last_gap_fingerprint :: "string option"
  g_repeated_gap_count :: u32
  g_last_gap_pass :: "u32 option"
  g_progress :: "GoalProgressReport option"
  g_runtime_blocked :: bool

definition goal_default :: GoalState where
  "goal_default =
     \<lparr>g_goal_id = None, g_objective = None, g_token_budget = None, g_status = None,
      g_tokens_used = 0, g_time_used_seconds = 0, g_continuation_count = 0,
      g_started_at = None, g_finished_at = None, g_evidence = None, g_blocker = None,
      g_pause_reason = None, g_completion_verification = None, g_advisories = [],
      g_last_gap_fingerprint = None, g_repeated_gap_count = 0, g_last_gap_pass = None,
      g_progress = None, g_runtime_blocked = False\<rparr>"

record Digest =
  sha256_hex :: "string \<Rightarrow> string"
  to_lowercase :: "string \<Rightarrow> string"

definition goal_is_active :: "GoalState \<Rightarrow> bool" where
  "goal_is_active g \<longleftrightarrow> g_objective g \<noteq> None \<and> g_status g = Some Active"

text \<open>Each field is followed by a zero byte before it is hashed.\<close>

definition hash_fields :: "Digest \<Rightarrow> string \<Rightarrow> string list \<Rightarrow> string" where
  "hash_fields h start parts = sha256_hex h (start @ concat (map (\<lambda>f. f @ [CHR 0x00]) parts))"

definition completion_contract_fingerprint ::
  "Digest \<Rightarrow> string \<Rightarrow> GoalCompletionVerification \<Rightarrow> string" where
  "completion_contract_fingerprint h objective v =
     hash_fields h [] [trim objective, trim (cv_status v), trim (cv_check v), trim (cv_summary v)]"

definition normalize_gaps :: "Digest \<Rightarrow> string list \<Rightarrow> string list" where
  "normalize_gaps h gaps =
     remdups_adj (sort (filter (\<lambda>g. g \<noteq> [])
       (map (\<lambda>g. to_lowercase h (join '' '' (split_whitespace g))) gaps)))"

definition gap_fingerprint :: "Digest \<Rightarrow> string list \<Rightarrow> string option" where
  "gap_fingerprint h gaps =
     (let normalized = normalize_gaps h gaps in
      if normalized = [] then None
      else Some (hash_fields h (''codewhale-goal-gaps-v1'' @ [CHR 0x00]) normalized))"

section \<open>Lifecycle operations\<close>

definition clear_window :: "GoalState \<Rightarrow> GoalState" where
  "clear_window g = g\<lparr>g_last_gap_fingerprint := None, g_repeated_gap_count := 0,
     g_last_gap_pass := None, g_progress := None\<rparr>"

text \<open>The fields a new objective resets.\<close>

definition new_objective :: "string \<Rightarrow> nat \<Rightarrow> string \<Rightarrow> u32 option \<Rightarrow> GoalState \<Rightarrow> GoalState" where
  "new_objective uuid now objective token_budget g =
     clear_window (g\<lparr>g_goal_id := Some uuid, g_objective := Some objective,
       g_token_budget := token_budget, g_tokens_used := 0, g_time_used_seconds := 0,
       g_continuation_count := 0, g_started_at := Some now, g_evidence := None, g_blocker := None,
       g_pause_reason := None, g_completion_verification := None, g_advisories := []\<rparr>)"

definition resume_revision :: "string \<Rightarrow> GoalState \<Rightarrow> GoalState" where
  "resume_revision uuid g =
     clear_window (g\<lparr>g_goal_id := Some uuid, g_evidence := None, g_blocker := None,
       g_pause_reason := None, g_completion_verification := None\<rparr>)"

definition sync_from_host_status_with_reason ::
  "string \<Rightarrow> nat \<Rightarrow> string option \<Rightarrow> u32 option \<Rightarrow> GoalStatus \<Rightarrow> GoalPauseReason option
   \<Rightarrow> GoalState \<Rightarrow> GoalState" where
  "sync_from_host_status_with_reason uuid now objective token_budget status pause_reason g =
     (case (case objective of Some o' \<Rightarrow> if trim o' = [] then None else Some (trim o') | None \<Rightarrow> None) of
        None \<Rightarrow> goal_default
      | Some objective \<Rightarrow>
          (let changed = g_objective g \<noteq> Some objective;
               status_changed = g_status g \<noteq> Some status;
               resumed = \<not> changed \<and> status = Active
                 \<and> (case g_status g of Some previous \<Rightarrow> previous \<noteq> Active | None \<Rightarrow> False);
               g1 = (if changed then new_objective uuid now objective token_budget g
                     else g\<lparr>g_token_budget := token_budget\<rparr>);
               g2 = (if resumed then resume_revision uuid g1 else g1)
           in if changed \<or> status_changed \<or> g_status g = None
              then g2\<lparr>g_status := Some status,
                g_pause_reason := (if status = Paused
                  then Some (case pause_reason of Some r \<Rightarrow> r | None \<Rightarrow> PauseUser) else None),
                g_finished_at := (if status = Active then None else Some now)\<rparr>
              else g2))"

definition sync_from_host_status ::
  "string \<Rightarrow> nat \<Rightarrow> string option \<Rightarrow> u32 option \<Rightarrow> GoalStatus \<Rightarrow> GoalState \<Rightarrow> GoalState" where
  "sync_from_host_status uuid now objective token_budget status g =
     sync_from_host_status_with_reason uuid now objective token_budget status None g"

definition goal_create ::
  "string \<Rightarrow> nat \<Rightarrow> string \<Rightarrow> u32 option \<Rightarrow> GoalState \<Rightarrow> (string + unit) \<times> GoalState" where
  "goal_create uuid now objective token_budget g =
     (if g_objective g \<noteq> None \<and> g_status g \<noteq> Some Complete
      then (Inl ''An unfinished goal already exists. Complete or clear it before creating another.'', g)
      else (Inr (), (new_objective uuid now objective token_budget g)
              \<lparr>g_status := Some Active, g_finished_at := None\<rparr>))"

definition from_persisted ::
  "nat \<Rightarrow> string \<Rightarrow> u32 option \<Rightarrow> GoalStatus \<Rightarrow> GoalPauseReason option \<Rightarrow> u64 \<Rightarrow> u64 \<Rightarrow> u32 \<Rightarrow> GoalState" where
  "from_persisted now objective token_budget status pause_reason tokens_used time_used continuations =
     goal_default\<lparr>g_objective := Some objective, g_token_budget := token_budget,
       g_status := Some status, g_tokens_used := tokens_used, g_time_used_seconds := time_used,
       g_continuation_count := continuations, g_started_at := Some now,
       g_finished_at := (if status \<noteq> Active then Some now else None), g_pause_reason := pause_reason\<rparr>"

definition goal_resume :: "string \<Rightarrow> string \<Rightarrow> nat \<Rightarrow> string option \<Rightarrow> GoalState \<Rightarrow> GoalState" where
  "goal_resume uuid uuid' now goal_id g =
     (let g1 = sync_from_host_status uuid now (g_objective g) (g_token_budget g) Active g in
      if g_objective g1 \<noteq> None
      then clear_window (g1\<lparr>g_goal_id := Some (case goal_id of Some i \<Rightarrow> i | None \<Rightarrow> uuid')\<rparr>)
      else g1)"

definition goal_clear :: "GoalState \<Rightarrow> GoalState" where
  "goal_clear g = goal_default"

definition goal_replace ::
  "string \<Rightarrow> nat \<Rightarrow> string \<Rightarrow> u32 option \<Rightarrow> string option \<Rightarrow> GoalState \<Rightarrow> GoalState" where
  "goal_replace uuid now objective token_budget goal_id g =
     (let g1 = sync_from_host_status uuid now (Some objective) token_budget Active (goal_clear g) in
      case goal_id of Some i \<Rightarrow> g1\<lparr>g_goal_id := Some i\<rparr> | None \<Rightarrow> g1)"

definition record_usage :: "u64 \<Rightarrow> u64 \<Rightarrow> nat \<Rightarrow> GoalState \<Rightarrow> GoalState" where
  "record_usage token_delta time_delta since g =
     (if goal_is_active g \<or> (g_objective g \<noteq> None
         \<and> (case g_finished_at g of Some finished \<Rightarrow> since \<le> finished | None \<Rightarrow> False))
      then g\<lparr>g_tokens_used := sat_add (g_tokens_used g) token_delta,
             g_time_used_seconds := sat_add (g_time_used_seconds g) time_delta\<rparr>
      else g)"

definition record_continuation :: "GoalState \<Rightarrow> GoalState" where
  "record_continuation g =
     (if goal_is_active g then g\<lparr>g_continuation_count := sat_add (g_continuation_count g) 1\<rparr> else g)"

definition mark_complete ::
  "Digest \<Rightarrow> nat \<Rightarrow> string \<Rightarrow> GoalCompletionVerification \<Rightarrow> GoalState \<Rightarrow> (string + unit) \<times> GoalState" where
  "mark_complete h now evidence v g =
     (case g_objective g of
        None \<Rightarrow> (Inl ''No active goal exists to complete.'', g)
      | Some objective \<Rightarrow>
          if g_status g = Some Complete \<or> g_completion_verification g \<noteq> None
          then (Inl ''The judged completion contract is already sealed and cannot be replaced.'', g)
          else if cv_role v \<noteq> Critical
          then (Inl ''An advisory review cannot complete the judged goal contract.'', g)
          else (Inr (), g\<lparr>g_status := Some Complete, g_finished_at := Some now,
                 g_evidence := Some evidence, g_blocker := None, g_pause_reason := None,
                 g_completion_verification :=
                   Some (v\<lparr>cv_contract_fingerprint := completion_contract_fingerprint h objective v\<rparr>)\<rparr>))"

definition record_progress :: "GoalProgressReport \<Rightarrow> GoalState \<Rightarrow> GoalState" where
  "record_progress progress g = (if goal_is_active g then g\<lparr>g_progress := Some progress\<rparr> else g)"

definition MAX_ADVISORY_NOTES :: nat where
  "MAX_ADVISORY_NOTES = 16"

definition record_advisory :: "string \<Rightarrow> GoalState \<Rightarrow> (string + unit) \<times> GoalState" where
  "record_advisory summary g =
     (if \<not> goal_is_active g then (Inl ''Advisory notes require an active goal.'', g)
      else (Inr (), g\<lparr>g_advisories :=
             (if length (g_advisories g) = MAX_ADVISORY_NOTES then drop 1 (g_advisories g)
              else g_advisories g) @ [summary]\<rparr>))"

definition completion_sealed :: "GoalState \<Rightarrow> bool" where
  "completion_sealed g \<longleftrightarrow> g_status g = Some Complete \<or> g_completion_verification g \<noteq> None"

definition mark_blocked :: "nat \<Rightarrow> string \<Rightarrow> GoalState \<Rightarrow> (string + unit) \<times> GoalState" where
  "mark_blocked now blocker g =
     (if g_objective g = None then (Inl ''No active goal exists to block.'', g)
      else if completion_sealed g
      then (Inl ''The goal is already complete with a judged verification; it cannot be blocked.'', g)
      else (Inr (), g\<lparr>g_runtime_blocked := False, g_status := Some Blocked, g_finished_at := Some now,
             g_blocker := Some blocker, g_evidence := None, g_pause_reason := None,
             g_completion_verification := None\<rparr>))"

definition mark_paused :: "nat \<Rightarrow> GoalPauseReason \<Rightarrow> GoalState \<Rightarrow> (string + unit) \<times> GoalState" where
  "mark_paused now reason g =
     (if g_objective g = None then (Inl ''No active goal exists to pause.'', g)
      else if completion_sealed g
      then (Inl ''The goal is already complete with a judged verification; it cannot be paused.'', g)
      else (Inr (), g\<lparr>g_status := Some Paused, g_finished_at := Some now,
             g_pause_reason := Some reason, g_evidence := None, g_blocker := None,
             g_completion_verification := None\<rparr>))"

text \<open>The repeated-gap counter advances at most once per continuation pass.\<close>

definition count_gap :: "string \<Rightarrow> GoalState \<Rightarrow> GoalState" where
  "count_gap fingerprint g =
     (let same_gap = g_last_gap_fingerprint g = Some fingerprint;
          counted = g_last_gap_pass g = Some (g_continuation_count g)
      in g\<lparr>g_repeated_gap_count :=
            (if \<not> same_gap then 1
             else if counted then g_repeated_gap_count g
             else sat_add (g_repeated_gap_count g) 1),
           g_last_gap_pass := Some (g_continuation_count g),
           g_last_gap_fingerprint := Some fingerprint\<rparr>)"

definition record_not_achieved ::
  "Digest \<Rightarrow> nat \<Rightarrow> GoalProgressVerification \<Rightarrow> GoalState \<Rightarrow> (string + unit) \<times> GoalState" where
  "record_not_achieved h now v g =
     (if \<not> goal_is_active g then (Inl ''Verifier progress requires an active goal.'', g)
      else if pv_role v = Advisory
      then record_advisory (pv_check v @ '': '' @ pv_summary v) g
      else case gap_fingerprint h (pv_gaps v) of
        None \<Rightarrow> (Inl ''Critical not-achieved verification requires at least one concrete gap.'', g)
      | Some fingerprint \<Rightarrow>
          (let g1 = count_gap fingerprint g in
           if MAX_REPEATED_GAP_PASSES \<le> g_repeated_gap_count g1
           then mark_paused now NoProgress g1 else (Inr (), g1)))"

definition mark_runtime_blocked :: "nat \<Rightarrow> string \<Rightarrow> GoalState \<Rightarrow> (string + unit) \<times> GoalState" where
  "mark_runtime_blocked now blocker g =
     (case mark_blocked now blocker g of
        (Inl err, g1) \<Rightarrow> (Inl err, g1)
      | (Inr _, g1) \<Rightarrow> (Inr (), g1\<lparr>g_runtime_blocked := True\<rparr>))"

definition resume_after_runtime_block :: "string \<Rightarrow> string \<Rightarrow> nat \<Rightarrow> GoalState \<Rightarrow> bool \<times> GoalState" where
  "resume_after_runtime_block uuid uuid' now g =
     (if \<not> (g_runtime_blocked g \<and> g_status g = Some Blocked) then (False, g)
      else (True, (goal_resume uuid uuid' now None g)\<lparr>g_runtime_blocked := False\<rparr>))"

definition resume_after_yield :: "string \<Rightarrow> string \<Rightarrow> nat \<Rightarrow> GoalState \<Rightarrow> bool \<times> GoalState" where
  "resume_after_yield uuid uuid' now g =
     (if \<not> (g_status g = Some Paused \<and> g_pause_reason g = Some Yielded) then (False, g)
      else (True, goal_resume uuid uuid' now None g))"

definition mark_yielded :: "nat \<Rightarrow> GoalState \<Rightarrow> (string + unit) \<times> GoalState" where
  "mark_yielded now g =
     (if g_objective g = None then (Inl ''No active goal exists to hand back.'', g)
      else if g_status g \<noteq> Some Active
      then (Inl (''Only an active goal can be handed back; this one is already paused or '' @
                 ''blocked for a reason someone else set.''), g)
      else mark_paused now Yielded g)"

section \<open>Snapshots\<close>

record GoalSnapshot =
  snap_goal_id :: "string option"
  snap_objective :: "string option"
  snap_status :: string
  snap_token_budget :: "u32 option"
  snap_tokens_used :: u64
  snap_time_used_seconds :: u64
  snap_continuation_count :: u32
  snap_elapsed_seconds :: "u64 option"
  snap_evidence :: "string option"
  snap_blocker :: "string option"
  snap_pause_reason :: "GoalPauseReason option"
  snap_completion_verification :: "GoalCompletionVerification option"
  snap_advisories :: "string list"
  snap_last_gap_fingerprint :: "string option"
  snap_repeated_gap_count :: u32
  snap_last_gap_pass :: "u32 option"
  snap_progress :: "GoalProgressReport option"

definition nanos_per_second :: nat where
  "nanos_per_second = 1000000000"

definition elapsed_of :: "nat \<Rightarrow> GoalState \<Rightarrow> u64 option" where
  "elapsed_of now g =
     (case (g_started_at g, g_finished_at g) of
        (Some started, Some finished) \<Rightarrow> Some (of_nat ((finished - started) div nanos_per_second))
      | (Some started, None) \<Rightarrow> Some (of_nat ((now - started) div nanos_per_second))
      | (None, _) \<Rightarrow> None)"

definition goal_snapshot :: "nat \<Rightarrow> GoalState \<Rightarrow> GoalSnapshot" where
  "goal_snapshot now g =
     \<lparr>snap_goal_id = g_goal_id g, snap_objective = g_objective g,
      snap_status = (case g_status g of Some st \<Rightarrow> goal_status_str st | None \<Rightarrow> ''none''),
      snap_token_budget = g_token_budget g, snap_tokens_used = g_tokens_used g,
      snap_time_used_seconds = g_time_used_seconds g,
      snap_continuation_count = g_continuation_count g,
      snap_elapsed_seconds = elapsed_of now g, snap_evidence = g_evidence g,
      snap_blocker = g_blocker g, snap_pause_reason = g_pause_reason g,
      snap_completion_verification = g_completion_verification g,
      snap_advisories = g_advisories g,
      snap_last_gap_fingerprint = g_last_gap_fingerprint g,
      snap_repeated_gap_count = g_repeated_gap_count g,
      snap_last_gap_pass = g_last_gap_pass g, snap_progress = g_progress g\<rparr>"

definition snapshot_is_active :: "GoalSnapshot \<Rightarrow> bool" where
  "snapshot_is_active s \<longleftrightarrow> snap_objective s \<noteq> None \<and> snap_status s = goal_status_str Active"

definition is_ascii_hexdigit :: "char \<Rightarrow> bool" where
  "is_ascii_hexdigit c \<longleftrightarrow> is_ascii_digit c
     \<or> (of_char (lower_char c) :: nat) \<in> {97..102}"

definition MAX_REPEATED_GAP_COUNT :: u32 where
  "MAX_REPEATED_GAP_COUNT = 3"

text \<open>\<open>validate_goal_stall_state\<close>: the accepted combinations.\<close>

definition stall_state_valid :: "string option \<Rightarrow> u32 \<Rightarrow> u32 option \<Rightarrow> u32 \<Rightarrow> bool" where
  "stall_state_valid fingerprint count pass continuation_count =
     (case (fingerprint, pass) of
        (None, None) \<Rightarrow> count = 0
      | (Some digest, Some pass) \<Rightarrow>
          1 \<le> count \<and> count \<le> MAX_REPEATED_GAP_COUNT
          \<and> length digest = 64 \<and> list_all is_ascii_hexdigit digest
          \<and> pass \<le> continuation_count \<and> count \<le> sat_add pass 1
      | _ \<Rightarrow> False)"

definition snapshot_stall_valid :: "GoalSnapshot \<Rightarrow> bool" where
  "snapshot_stall_valid s =
     stall_state_valid (snap_last_gap_fingerprint s) (snap_repeated_gap_count s)
       (snap_last_gap_pass s) (snap_continuation_count s)"

definition status_of_str :: "string \<Rightarrow> GoalStatus" where
  "status_of_str s =
     (if s = ''active'' then Active else if s = ''complete'' then Complete
      else if s = ''blocked'' then Blocked else Paused)"

definition from_snapshot :: "nat \<Rightarrow> GoalSnapshot \<Rightarrow> GoalState" where
  "from_snapshot now s =
     (case snap_objective s of
        None \<Rightarrow> goal_default
      | Some objective \<Rightarrow>
          (let back = unat (case snap_elapsed_seconds s of Some e \<Rightarrow> e
                            | None \<Rightarrow> snap_time_used_seconds s) * nanos_per_second;
               g = (from_persisted now objective (snap_token_budget s) (status_of_str (snap_status s))
                     (snap_pause_reason s) (snap_tokens_used s) (snap_time_used_seconds s)
                     (snap_continuation_count s))
                   \<lparr>g_goal_id := snap_goal_id s,
                    g_last_gap_fingerprint := snap_last_gap_fingerprint s,
                    g_repeated_gap_count := snap_repeated_gap_count s,
                    g_last_gap_pass := snap_last_gap_pass s, g_progress := snap_progress s,
                    g_started_at := Some (if back \<le> now then now - back else now)\<rparr>;
               exhausted = g_status g = Some Active \<and> MAX_REPEATED_GAP_PASSES \<le> g_repeated_gap_count g
           in if \<not> snapshot_stall_valid s \<or> exhausted
              then g\<lparr>g_status := Some Paused, g_pause_reason := Some NoProgress,
                     g_finished_at := Some now\<rparr>
              else g))"

datatype ThreadGoalStatus =
  TgActive | TgPaused | TgBlocked | TgUsageLimited | TgBudgetLimited | TgComplete

fun thread_goal_status_projection ::
  "ThreadGoalStatus \<Rightarrow> GoalPauseReason option \<Rightarrow> GoalStatus \<times> GoalPauseReason option" where
  "thread_goal_status_projection TgActive _ = (Active, None)"
| "thread_goal_status_projection TgPaused reason =
     (Paused, Some (case reason of Some r \<Rightarrow> r | None \<Rightarrow> PauseUser))"
| "thread_goal_status_projection TgComplete _ = (Complete, None)"
| "thread_goal_status_projection TgBlocked _ = (Blocked, None)"
| "thread_goal_status_projection TgUsageLimited _ = (Paused, Some UsageLimit)"
| "thread_goal_status_projection TgBudgetLimited _ = (Paused, Some BudgetLimit)"

section \<open>The lifecycle invariant\<close>

definition digest_ok :: "Digest \<Rightarrow> bool" where
  "digest_ok h \<longleftrightarrow>
     (\<forall>s. length (sha256_hex h s) = 64 \<and> list_all is_ascii_hexdigit (sha256_hex h s))"

definition window_ok :: "GoalState \<Rightarrow> bool" where
  "window_ok g \<longleftrightarrow>
     stall_state_valid (g_last_gap_fingerprint g) (g_repeated_gap_count g) (g_last_gap_pass g)
       (g_continuation_count g)
     \<and> (g_status g = Some Active \<longrightarrow> g_repeated_gap_count g < MAX_REPEATED_GAP_PASSES)"

definition lifecycle_ok :: "GoalState \<Rightarrow> bool" where
  "lifecycle_ok g \<longleftrightarrow>
     (g_objective g = None \<longleftrightarrow> g_status g = None)
     \<and> (g_started_at g = None \<longleftrightarrow> g_status g = None)
     \<and> (g_status g = Some Active \<longrightarrow> g_completion_verification g = None)
     \<and> (g_status g = Some Paused \<longleftrightarrow> g_pause_reason g \<noteq> None)
     \<and> (g_finished_at g = None \<longleftrightarrow> g_status g = Some Active \<or> g_status g = None)
     \<and> length (g_advisories g) \<le> MAX_ADVISORY_NOTES"

definition goal_ok :: "GoalState \<Rightarrow> bool" where
  "goal_ok g \<longleftrightarrow> lifecycle_ok g \<and> window_ok g"

lemma stall_state_valid_empty [simp]: "stall_state_valid None 0 None n"
  by (simp add: stall_state_valid_def)

lemma stall_state_valid_mono:
  "stall_state_valid f c p n \<Longrightarrow> n \<le> m \<Longrightarrow> stall_state_valid f c p m"
  by (auto simp: stall_state_valid_def split: option.splits)

text \<open>One report of a gap keeps the window valid: the counter never exceeds the number of passes.\<close>

lemma window_count_gap:
  assumes "window_ok g" and "g_status g = Some Active"
    and "length f = 64" and "list_all is_ascii_hexdigit f"
  shows "stall_state_valid (g_last_gap_fingerprint (count_gap f g)) (g_repeated_gap_count (count_gap f g))
    (g_last_gap_pass (count_gap f g)) (g_continuation_count (count_gap f g))"
proof -
  have one: "1 \<le> sat_add n (1 :: u32)" for n
    by (simp add: word_le_nat_alt unat_sat_add)
  show ?thesis
  proof (cases "g_last_gap_fingerprint g = Some f")
    case False
    with assms(3,4) one show ?thesis
      by (simp add: count_gap_def Let_def stall_state_valid_def MAX_REPEATED_GAP_COUNT_def)
  next
    case True
    with assms(1,2) obtain p where p: "g_last_gap_pass g = Some p" "1 \<le> g_repeated_gap_count g"
      "p \<le> g_continuation_count g" "g_repeated_gap_count g \<le> sat_add p 1"
      "g_repeated_gap_count g < 3"
      by (auto simp: window_ok_def stall_state_valid_def MAX_REPEATED_GAP_PASSES_def split: option.splits)
    show ?thesis
    proof (cases "p = g_continuation_count g")
      case True
      with p \<open>g_last_gap_fingerprint g = Some f\<close> assms(3,4) show ?thesis
        by (simp add: count_gap_def Let_def stall_state_valid_def MAX_REPEATED_GAP_COUNT_def)
    next
      case False
      from p False have "unat p < unat (g_continuation_count g)"
        by (metis order_le_less word_less_nat_alt)
      with p have "sat_add (g_repeated_gap_count g) 1 \<le> sat_add (g_continuation_count g) 1"
        "1 \<le> sat_add (g_repeated_gap_count g) 1" "sat_add (g_repeated_gap_count g) 1 \<le> 3"
        by (auto simp: word_le_nat_alt word_less_nat_alt unat_sat_add)
      with False p \<open>g_last_gap_fingerprint g = Some f\<close> assms(3,4) show ?thesis
        by (simp add: count_gap_def Let_def stall_state_valid_def MAX_REPEATED_GAP_COUNT_def)
    qed
  qed
qed

end
