(* ===== verification/Goal.thy ===== *)
theory Goal
  imports GoalLoop
begin

text \<open>
  What the goal loop guarantees: the step relation of the lifecycle operations, the invariant of
  every state they reach, the stall bound, the sealing of a judged completion, the narrow automatic
  resumes, the durable round trip, and the continuation decision.
\<close>

section \<open>The lifecycle as a step relation\<close>

inductive goal_step :: "Digest \<Rightarrow> GoalState \<Rightarrow> GoalState \<Rightarrow> bool" for h where
  sync: "goal_step h g (sync_from_host_status_with_reason uuid now objective budget status reason g)"
| create: "goal_step h g (snd (goal_create uuid now objective budget g))"
| resume: "goal_step h g (goal_resume uuid uuid' now goal_id g)"
| replace: "goal_step h g (goal_replace uuid now objective' budget goal_id g)"
| usage: "goal_step h g (record_usage tokens time since g)"
| continuation: "goal_step h g (record_continuation g)"
| complete: "goal_step h g (snd (mark_complete h now evidence v g))"
| progress: "goal_step h g (record_progress report g)"
| advisory: "goal_step h g (snd (record_advisory note g))"
| not_achieved: "goal_step h g (snd (record_not_achieved h now pv g))"
| blocked: "goal_step h g (snd (mark_blocked now blocker g))"
| paused: "goal_step h g (snd (mark_paused now why g))"
| yielded: "goal_step h g (snd (mark_yielded now g))"
| runtime_blocked: "goal_step h g (snd (mark_runtime_blocked now blocker g))"
| resume_runtime: "goal_step h g (snd (resume_after_runtime_block uuid uuid' now g))"
| resume_yield: "goal_step h g (snd (resume_after_yield uuid uuid' now g))"
| clear: "goal_step h g (goal_clear g)"

section \<open>Every operation keeps the invariant\<close>

lemmas goal_ok_defs = goal_ok_def lifecycle_ok_def window_ok_def

lemma goal_ok_default [simp]: "goal_ok goal_default"
  by (simp add: goal_ok_defs goal_default_def)

lemma goal_ok_sync: "goal_ok g \<Longrightarrow>
  goal_ok (sync_from_host_status_with_reason uuid now objective budget status reason g)"
  unfolding sync_from_host_status_with_reason_def Let_def
  by (auto split: option.split)
    (auto simp: goal_ok_defs new_objective_def clear_window_def resume_revision_def
      MAX_REPEATED_GAP_PASSES_def MAX_ADVISORY_NOTES_def)

lemma goal_ok_sync' [simp]: "goal_ok g \<Longrightarrow> goal_ok (sync_from_host_status uuid now objective budget status g)"
  by (simp add: sync_from_host_status_def goal_ok_sync)

lemma goal_ok_create: "goal_ok g \<Longrightarrow> goal_ok (snd (goal_create uuid now objective budget g))"
  by (auto simp: goal_create_def goal_ok_defs new_objective_def clear_window_def
      MAX_REPEATED_GAP_PASSES_def)

lemma goal_ok_window: "goal_ok g \<Longrightarrow> goal_ok (clear_window (g\<lparr>g_goal_id := i\<rparr>))"
  by (auto simp: goal_ok_defs clear_window_def MAX_REPEATED_GAP_PASSES_def)

lemma goal_ok_resume: "goal_ok g \<Longrightarrow> goal_ok (goal_resume uuid uuid' now goal_id g)"
  by (simp add: goal_resume_def Let_def goal_ok_window)

lemma goal_ok_id: "goal_ok g \<Longrightarrow> goal_ok (g\<lparr>g_goal_id := i\<rparr>)"
  by (simp add: goal_ok_defs)

lemma goal_ok_flag: "goal_ok g \<Longrightarrow> goal_ok (g\<lparr>g_runtime_blocked := b\<rparr>)"
  by (simp add: goal_ok_defs)

lemma goal_ok_replace: "goal_ok (goal_replace uuid now objective budget goal_id g)"
  by (auto simp: goal_replace_def Let_def goal_clear_def goal_ok_id split: option.split)

lemma goal_ok_usage: "goal_ok g \<Longrightarrow> goal_ok (record_usage tokens time since g)"
  by (simp add: record_usage_def goal_ok_defs)

lemma goal_ok_continuation: "goal_ok g \<Longrightarrow> goal_ok (record_continuation g)"
  by (auto simp: record_continuation_def goal_ok_defs intro: stall_state_valid_mono sat_add_ge)

lemma goal_ok_complete: "goal_ok g \<Longrightarrow> goal_ok (snd (mark_complete h now evidence v g))"
  by (auto simp: mark_complete_def goal_ok_defs split: option.split)

lemma goal_ok_progress: "goal_ok g \<Longrightarrow> goal_ok (record_progress report g)"
  by (simp add: record_progress_def goal_ok_defs)

lemma goal_ok_advisory: "goal_ok g \<Longrightarrow> goal_ok (snd (record_advisory note g))"
  by (auto simp: record_advisory_def goal_ok_defs MAX_ADVISORY_NOTES_def)

lemma goal_ok_blocked: "goal_ok g \<Longrightarrow> goal_ok (snd (mark_blocked now blocker g))"
  by (auto simp: mark_blocked_def goal_ok_defs completion_sealed_def)

lemma goal_ok_paused: "goal_ok g \<Longrightarrow> goal_ok (snd (mark_paused now why g))"
  by (auto simp: mark_paused_def goal_ok_defs completion_sealed_def)

lemma goal_ok_yielded: "goal_ok g \<Longrightarrow> goal_ok (snd (mark_yielded now g))"
  by (simp add: mark_yielded_def goal_ok_paused)

lemma goal_ok_runtime_blocked: "goal_ok g \<Longrightarrow> goal_ok (snd (mark_runtime_blocked now blocker g))"
  using goal_ok_blocked [of g now blocker]
  by (auto simp: mark_runtime_blocked_def goal_ok_flag split: prod.split sum.split)

lemma goal_ok_resume_runtime: "goal_ok g \<Longrightarrow> goal_ok (snd (resume_after_runtime_block uuid uuid' now g))"
  by (simp add: resume_after_runtime_block_def goal_ok_resume goal_ok_flag)

lemma goal_ok_resume_yield: "goal_ok g \<Longrightarrow> goal_ok (snd (resume_after_yield uuid uuid' now g))"
  by (simp add: resume_after_yield_def goal_ok_resume)

text \<open>The report of a gap: an active goal stays active below the bound and pauses at it.\<close>

lemma active_not_sealed: "goal_ok g \<Longrightarrow> goal_is_active g \<Longrightarrow> \<not> completion_sealed g"
  by (simp add: goal_ok_defs goal_is_active_def completion_sealed_def)

lemma count_gap_simps [simp]:
  "g_objective (count_gap f g) = g_objective g" "g_status (count_gap f g) = g_status g"
  "g_continuation_count (count_gap f g) = g_continuation_count g"
  "completion_sealed (count_gap f g) = completion_sealed g"
  "g_last_gap_fingerprint (count_gap f g) = Some f"
  "g_last_gap_pass (count_gap f g) = Some (g_continuation_count g)"
  "g_completion_verification (count_gap f g) = g_completion_verification g"
  by (simp_all add: count_gap_def Let_def completion_sealed_def)

lemma lifecycle_count_gap [simp]: "lifecycle_ok (count_gap f g) = lifecycle_ok g"
  by (simp add: lifecycle_ok_def count_gap_def Let_def)

lemma goal_ok_not_achieved:
  assumes "goal_ok g" and "digest_ok h"
  shows "goal_ok (snd (record_not_achieved h now pv g))"
proof (cases "goal_is_active g \<and> pv_role pv = Critical \<and> gap_fingerprint h (pv_gaps pv) \<noteq> None")
  case False
  with assms(1) goal_ok_advisory [OF assms(1)] show ?thesis
    by (cases "pv_role pv") (auto simp: record_not_achieved_def split: option.split)
next
  case True
  then obtain f where f: "gap_fingerprint h (pv_gaps pv) = Some f" by blast
  have "length f = 64 \<and> list_all is_ascii_hexdigit f"
    using f assms(2) by (auto simp: gap_fingerprint_def Let_def hash_fields_def digest_ok_def split: if_splits)
  with window_count_gap [of g f] assms(1) True
  have valid: "stall_state_valid (g_last_gap_fingerprint (count_gap f g)) (g_repeated_gap_count (count_gap f g))
      (g_last_gap_pass (count_gap f g)) (g_continuation_count (count_gap f g))"
    by (simp add: goal_ok_def goal_is_active_def)
  let ?g = "count_gap f g"
  show ?thesis
  proof (cases "MAX_REPEATED_GAP_PASSES \<le> g_repeated_gap_count ?g")
    case full: True
    from assms(1) True have "lifecycle_ok (snd (mark_paused now NoProgress ?g))"
      using active_not_sealed [OF assms(1)]
      by (auto simp: mark_paused_def goal_ok_def goal_is_active_def lifecycle_ok_def count_gap_def Let_def)
    moreover have "window_ok (snd (mark_paused now NoProgress ?g))"
      using valid active_not_sealed [OF assms(1)] True
      by (auto simp: mark_paused_def window_ok_def goal_is_active_def)
    ultimately show ?thesis using True f full by (simp add: record_not_achieved_def Let_def goal_ok_def)
  next
    case False
    then have "g_repeated_gap_count ?g < MAX_REPEATED_GAP_PASSES" by (simp add: not_le)
    with valid assms(1) True f False show ?thesis
      by (simp add: record_not_achieved_def Let_def goal_ok_def window_ok_def del: not_le)
  qed
qed

lemmas goal_ok_ops = goal_ok_sync goal_ok_create goal_ok_resume goal_ok_replace goal_ok_usage
  goal_ok_continuation goal_ok_complete goal_ok_progress goal_ok_advisory goal_ok_not_achieved
  goal_ok_blocked goal_ok_paused goal_ok_yielded goal_ok_runtime_blocked goal_ok_resume_runtime
  goal_ok_resume_yield goal_ok_default

lemma goal_ok_step: "goal_step h g g' \<Longrightarrow> digest_ok h \<Longrightarrow> goal_ok g \<Longrightarrow> goal_ok g'"
  by (induction rule: goal_step.induct) (simp_all add: goal_ok_ops goal_clear_def)

interpretation goals: invariant_system "\<lambda>g. g = goal_default" "\<lambda>g g'. digest_ok h \<and> goal_step h g g'" goal_ok
  for h by unfold_locales (auto intro: goal_ok_step)

section \<open>Lemmas\<close>

lemma record_not_achieved_critical:
  assumes "goal_ok g" and "goal_is_active g" and "pv_role pv = Critical"
    and "gap_fingerprint h (pv_gaps pv) = Some f"
  shows "record_not_achieved h now pv g =
    (Inr (), if MAX_REPEATED_GAP_PASSES \<le> g_repeated_gap_count (count_gap f g)
      then (count_gap f g)\<lparr>g_status := Some Paused, g_finished_at := Some now,
        g_pause_reason := Some NoProgress, g_evidence := None, g_blocker := None,
        g_completion_verification := None\<rparr>
      else count_gap f g)"
  using assms active_not_sealed [OF assms(1,2)]
  by (auto simp: record_not_achieved_def Let_def mark_paused_def goal_is_active_def)

text \<open>Operations a worker turn can cause through \<open>update_goal\<close> and the usage accounting.\<close>

inductive worker_step :: "Digest \<Rightarrow> GoalState \<Rightarrow> GoalState \<Rightarrow> bool" for h where
  w_complete: "worker_step h g (snd (mark_complete h now evidence v g))"
| w_blocked: "worker_step h g (snd (mark_blocked now blocker g))"
| w_not_achieved: "worker_step h g (snd (record_not_achieved h now pv g))"
| w_yield: "worker_step h g (snd (mark_yielded now g))"
| w_pause: "worker_step h g (snd (mark_paused now why g))"
| w_runtime: "worker_step h g (snd (mark_runtime_blocked now blocker g))"
| w_advisory: "worker_step h g (snd (record_advisory note g))"
| w_progress: "worker_step h g (record_progress report g)"
| w_usage: "worker_step h g (record_usage tokens time since g)"
| w_continuation: "worker_step h g (record_continuation g)"
| w_resume_runtime: "worker_step h g (snd (resume_after_runtime_block uuid uuid' now g))"
| w_resume_yield: "worker_step h g (snd (resume_after_yield uuid uuid' now g))"

definition sealed_as :: "GoalState \<Rightarrow> GoalState \<Rightarrow> bool" where
  "sealed_as g0 g \<longleftrightarrow> g_status g = Some Complete \<and> g_objective g = g_objective g0
     \<and> g_completion_verification g = g_completion_verification g0 \<and> g_evidence g = g_evidence g0"

lemma sealed_step:
  "worker_step h g g' \<Longrightarrow> sealed_as g0 g \<Longrightarrow> g_objective g0 \<noteq> None \<Longrightarrow> sealed_as g0 g'"
  by (induction rule: worker_step.induct)
    (auto simp: sealed_as_def mark_complete_def mark_blocked_def record_not_achieved_def mark_yielded_def
      mark_paused_def mark_runtime_blocked_def record_advisory_def record_progress_def record_usage_def
      record_continuation_def resume_after_runtime_block_def resume_after_yield_def goal_is_active_def
      completion_sealed_def)

interpretation sealed: invariant_system "\<lambda>g. g = g0 \<and> g_status g0 = Some Complete \<and> g_objective g0 \<noteq> None"
    "worker_step h" "\<lambda>g. sealed_as g0 g \<and> g_objective g0 \<noteq> None"
  for g0 h by unfold_locales (auto intro: sealed_step, simp add: sealed_as_def)

text \<open>The counter after a report of the gap set with fingerprint \<open>f\<close>, as documented.\<close>

definition next_gap_count :: "string \<Rightarrow> GoalState \<Rightarrow> u32" where
  "next_gap_count f g =
     (if g_last_gap_fingerprint g \<noteq> Some f then 1
      else if g_last_gap_pass g = Some (g_continuation_count g) then g_repeated_gap_count g
      else g_repeated_gap_count g + 1)"

text \<open>A digest and a goal for the witnesses.\<close>

definition zero_digest :: Digest where
  "zero_digest = \<lparr>sha256_hex = (\<lambda>_. replicate 64 (CHR ''0'')), to_lowercase = to_ascii_lowercase\<rparr>"

definition demo_goal :: GoalState where
  "demo_goal = snd (goal_create ''id'' 5 ''ship it'' None goal_default)"

definition demo_gap :: GoalProgressVerification where
  "demo_gap = \<lparr>pv_status = ''not_achieved'', pv_check = ''tests'', pv_summary = ''red'',
     pv_role = Critical, pv_gaps = [''unit tests fail'']\<rparr>"

lemma digest_ok_zero: "digest_ok zero_digest"
proof -
  have "length (replicate 64 (CHR ''0'')) = 64 \<and> list_all is_ascii_hexdigit (replicate 64 (CHR ''0''))"
    by code_simp
  then show ?thesis by (simp add: digest_ok_def zero_digest_def)
qed

lemma goal_ok_demo: "goal_ok demo_goal"
  unfolding demo_goal_def by (intro goal_ok_create goal_ok_default)

lemma status_of_goal_status_str [simp]: "status_of_str (goal_status_str st) = st"
  by (cases st) (simp_all add: status_of_str_def)

text \<open>The hashed bytes of a gap set, and that the zero bytes make them uniquely decodable.\<close>

definition gap_preimage :: "Digest \<Rightarrow> string list \<Rightarrow> string" where
  "gap_preimage h gaps = (''codewhale-goal-gaps-v1'' @ [CHR 0x00])
     @ concat (map (\<lambda>f. f @ [CHR 0x00]) (normalize_gaps h gaps))"

lemma gap_fingerprint_preimage:
  "gap_fingerprint h gaps =
     (if normalize_gaps h gaps = [] then None else Some (sha256_hex h (gap_preimage h gaps)))"
  by (simp add: gap_fingerprint_def gap_preimage_def hash_fields_def Let_def)

lemma zero_terminated_first:
  "CHR 0x00 \<notin> set x \<Longrightarrow> CHR 0x00 \<notin> set y \<Longrightarrow> x @ CHR 0x00 # r = y @ CHR 0x00 # q \<Longrightarrow> x = y \<and> r = q"
  by (induction x arbitrary: y) (case_tac y; auto)+

lemma zero_terminated_inj:
  "\<forall>x \<in> set xs. CHR 0x00 \<notin> set x \<Longrightarrow> \<forall>y \<in> set ys. CHR 0x00 \<notin> set y \<Longrightarrow>
   concat (map (\<lambda>f. f @ [CHR 0x00]) xs) = concat (map (\<lambda>f. f @ [CHR 0x00]) ys) \<Longrightarrow> xs = ys"
proof (induction xs arbitrary: ys)
  case Nil
  then show ?case by (cases ys) auto
next
  case (Cons x xs)
  then obtain y ys' where ys: "ys = y # ys'" by (cases ys) auto
  from Cons.prems have "x = y \<and> concat (map (\<lambda>f. f @ [CHR 0x00]) xs)
      = concat (map (\<lambda>f. f @ [CHR 0x00]) ys')"
    unfolding ys by (intro zero_terminated_first) simp_all
  with Cons.IH [of ys'] Cons.prems ys show ?case by simp
qed

lemma distinct_remdups_adj_sorted: "sorted xs \<Longrightarrow> distinct (remdups_adj xs)" for xs :: "'a::linorder list"
  by (induction xs rule: remdups_adj.induct) auto

lemma normalize_gaps_sorted: "sorted (normalize_gaps h gaps)" "distinct (normalize_gaps h gaps)"
  unfolding normalize_gaps_def by (simp_all add: sorted_remdups_adj distinct_remdups_adj_sorted)

lemma normalize_gaps_unique:
  "set (normalize_gaps h a) = set (normalize_gaps h b) \<Longrightarrow> normalize_gaps h a = normalize_gaps h b"
  using normalize_gaps_sorted by (rule sorted_distinct_set_unique) (rule normalize_gaps_sorted)+

fun continuations_after :: "nat \<Rightarrow> GoalProgress \<Rightarrow> GoalProgress" where
  "continuations_after 0 p = p"
| "continuations_after (Suc k) p =
     (let q = continuations_after k p in q\<lparr>prog_continuations := sat_add (prog_continuations q) 1\<rparr>)"

lemma continuations_after_simps:
  "prog_tokens_used (continuations_after k p) = prog_tokens_used p"
  "unat (prog_continuations (continuations_after k p)) = min (unat (prog_continuations p) + k) (2 ^ 32 - 1)"
proof (induction k)
  case 0
  have "unat (prog_continuations p) \<le> 2 ^ 32 - 1" by (rule unat_u32_le)
  then show "unat (prog_continuations (continuations_after 0 p)) = min (unat (prog_continuations p) + 0) (2 ^ 32 - 1)"
    by simp
qed (simp_all add: Let_def unat_sat_add)

section \<open>Properties\<close>

text \<open>C26. Every goal state reachable from the empty one by the lifecycle operations is well formed: a
  goal has a status and a start time exactly when it has an objective; an active goal carries no
  sealed completion; it has a pause reason exactly when paused and a finish time exactly when not
  active; at most 16 advisory notes are kept; and its stall window passes the durable validation
  (so it survives a restart), with fewer than three repeated gaps while it is active.\<close>

theorem reachable_goal_ok:
  assumes "digest_ok h" and "(goal_step h)\<^sup>*\<^sup>* goal_default g"
  shows "goal_ok g"
proof -
  from assms(1) have "(\<lambda>g g'. digest_ok h \<and> goal_step h g g') = goal_step h" by simp
  with assms(2) show ?thesis using goals.reachable_inv [OF refl, of h g] by simp
qed

theorem reachable_goal_ok_witness: "goal_ok (record_continuation demo_goal)"
proof (rule reachable_goal_ok [OF digest_ok_zero])
  have "goal_step zero_digest goal_default demo_goal" unfolding demo_goal_def by (rule create)
  moreover have "goal_step zero_digest demo_goal (record_continuation demo_goal)" by (rule continuation)
  ultimately show "(goal_step zero_digest)\<^sup>*\<^sup>* goal_default (record_continuation demo_goal)"
    by (auto intro: rtranclp.rtrancl_into_rtrancl)
qed

text \<open>C27. The stall bound: when a critical verifier reports one gap set on an active goal, the count
  moves to one for a new gap set, stays for a repeat in the same continuation pass and grows by one
  in a later pass; the goal pauses for lack of progress exactly when the count reaches three, and
  otherwise stays active.\<close>

theorem stall_bound:
  assumes "goal_ok g" and "goal_is_active g" and "pv_role pv = Critical"
    and "gap_fingerprint h (pv_gaps pv) = Some f"
  shows "\<exists>g'. record_not_achieved h now pv g = (Inr (), g')
    \<and> g_repeated_gap_count g' = next_gap_count f g
    \<and> g_last_gap_fingerprint g' = Some f \<and> g_last_gap_pass g' = Some (g_continuation_count g)
    \<and> (if next_gap_count f g = 3
       then g_status g' = Some Paused \<and> g_pause_reason g' = Some NoProgress
       else g_status g' = Some Active \<and> next_gap_count f g < 3)"
proof -
  let ?n = "next_gap_count f g"
  from assms(1,2) have lt: "g_repeated_gap_count g < 3"
    by (simp add: goal_ok_def window_ok_def goal_is_active_def MAX_REPEATED_GAP_PASSES_def)
  then have plus: "unat (g_repeated_gap_count g + 1) = unat (g_repeated_gap_count g) + 1"
    "sat_add (g_repeated_gap_count g) 1 = g_repeated_gap_count g + 1"
    by (auto simp: word_less_nat_alt word_unat_eq_iff unat_sat_add unat_word_ariths)
  then have n: "g_repeated_gap_count (count_gap f g) = ?n"
    by (simp add: count_gap_def Let_def next_gap_count_def)
  from lt plus have le: "unat ?n \<le> 3" by (auto simp: next_gap_count_def word_less_nat_alt)
  then have "?n = 3 \<longleftrightarrow> MAX_REPEATED_GAP_PASSES \<le> ?n"
    by (auto simp: MAX_REPEATED_GAP_PASSES_def word_le_nat_alt word_unat_eq_iff)
  moreover from le have "?n \<noteq> 3 \<longrightarrow> ?n < 3" by (auto simp: word_less_nat_alt word_unat_eq_iff)
  ultimately show ?thesis
    using record_not_achieved_critical [OF assms, of now] n assms(2)
    by (auto simp: goal_is_active_def)
qed

theorem stall_bound_witness:
  "g_status (snd (record_not_achieved zero_digest 9 demo_gap demo_goal)) = Some Active"
proof -
  have "goal_is_active demo_goal" "pv_role demo_gap = Critical"
    "gap_fingerprint zero_digest (pv_gaps demo_gap) = Some (replicate 64 (CHR ''0''))"
    "next_gap_count (replicate 64 (CHR ''0'')) demo_goal = 1"
    by code_simp+
  with stall_bound [OF goal_ok_demo this(1-3), of 9] show ?thesis by auto
qed

text \<open>A judged completion is sealed: from a complete goal, no sequence of worker turns
  (\<open>update_goal\<close> calls of any status, usage accounting, continuations, the automatic resumes and the
  runtime's own stops) changes the status, the objective, the verification receipt or its evidence.\<close>

theorem completion_is_sealed:
  assumes "(worker_step h)\<^sup>*\<^sup>* g g'" and "g_status g = Some Complete" and "g_objective g \<noteq> None"
  shows "g_status g' = Some Complete \<and> g_objective g' = g_objective g
    \<and> g_completion_verification g' = g_completion_verification g \<and> g_evidence g' = g_evidence g"
  using sealed.reachable_inv [OF _ assms(1), of g] assms(2,3) by (simp add: sealed_as_def)

definition demo_receipt :: GoalCompletionVerification where
  "demo_receipt = \<lparr>cv_status = ''passed'', cv_check = ''tests'', cv_summary = ''green'',
     cv_role = Critical, cv_contract_fingerprint = []\<rparr>"

theorem completion_is_sealed_witness:
  "g_status (snd (mark_blocked 8 ''no'' (snd (mark_complete zero_digest 7 ''done'' demo_receipt demo_goal))))
   = Some Complete"
  by (rule completion_is_sealed [of zero_digest "snd (mark_complete zero_digest 7 ''done'' demo_receipt demo_goal)",
        THEN conjunct1])
    (rule r_into_rtranclp, rule w_blocked, code_simp+)

text \<open>Which stops the user's next message undoes: the automatic resume after a hand-back acts
  exactly on a goal paused as yielded, and leaves every other state (user pauses, budget and stall
  pauses, blockers, completions) untouched; when it acts on an objective stored trimmed, the goal is
  active again under a new revision id with an empty stall window and its usage kept.\<close>

theorem resume_after_yield_narrow:
  assumes "g_objective g = Some obj" and "trim obj = obj" and "obj \<noteq> []"
  shows "if g_status g = Some Paused \<and> g_pause_reason g = Some Yielded
    then (\<exists>g'. resume_after_yield uuid uuid' now g = (True, g')
      \<and> g_status g' = Some Active \<and> g_objective g' = Some obj \<and> g_goal_id g' = Some uuid'
      \<and> g_pause_reason g' = None \<and> g_repeated_gap_count g' = 0 \<and> g_last_gap_fingerprint g' = None
      \<and> g_tokens_used g' = g_tokens_used g \<and> g_continuation_count g' = g_continuation_count g
      \<and> g_token_budget g' = g_token_budget g)
    else resume_after_yield uuid uuid' now g = (False, g)"
  using assms
  by (auto simp: resume_after_yield_def goal_resume_def sync_from_host_status_def
      sync_from_host_status_with_reason_def Let_def resume_revision_def clear_window_def)

theorem resume_after_yield_narrow_witness:
  "fst (resume_after_yield ''u'' ''v'' 8 (snd (mark_yielded 6 demo_goal)))"
proof -
  have "g_objective (snd (mark_yielded 6 demo_goal)) = Some ''ship it''" "trim ''ship it'' = ''ship it''"
    "g_status (snd (mark_yielded 6 demo_goal)) = Some Paused
      \<and> g_pause_reason (snd (mark_yielded 6 demo_goal)) = Some Yielded"
    by code_simp+
  with resume_after_yield_narrow [OF this(1,2), of "''u''" "''v''" 8] show ?thesis by auto
qed

text \<open>The runtime-stop mark outlives the stop it describes: after a runtime stop and an explicit
  resume the mark is still set, so a blocker the host projects afterwards, which no runtime stop
  caused, is lifted by \<open>resume_after_runtime_block\<close> although a reported blocker is documented to
  stay until an explicit resume.\<close>

theorem stale_runtime_mark:
  "let stopped = snd (mark_runtime_blocked 6 ''turn failed'' demo_goal);
       resumed = goal_resume ''u'' ''v'' 7 None stopped;
       projected = sync_from_host_status ''w'' 8 (Some ''ship it'') None Blocked resumed
   in g_status resumed = Some Active \<and> g_runtime_blocked resumed
      \<and> g_status projected = Some Blocked
      \<and> fst (resume_after_runtime_block ''x'' ''y'' 9 projected)
      \<and> g_status (snd (resume_after_runtime_block ''x'' ''y'' 9 projected)) = Some Active"
  by code_simp

text \<open>A restart keeps the goal: restoring the snapshot of a well-formed goal with an objective
  gives a well-formed goal with the same objective, revision, status, pause reason, budget, usage,
  continuation count, stall window and progress; only the runtime-only receipt, evidence, blocker
  and notes start empty.\<close>

theorem snapshot_round_trip:
  assumes "goal_ok g" and "g_objective g \<noteq> None"
  shows "let g' = from_snapshot now' (goal_snapshot now g) in
    goal_ok g' \<and> g_objective g' = g_objective g \<and> g_goal_id g' = g_goal_id g
    \<and> g_status g' = g_status g \<and> g_pause_reason g' = g_pause_reason g
    \<and> g_token_budget g' = g_token_budget g \<and> g_tokens_used g' = g_tokens_used g
    \<and> g_time_used_seconds g' = g_time_used_seconds g
    \<and> g_continuation_count g' = g_continuation_count g
    \<and> g_last_gap_fingerprint g' = g_last_gap_fingerprint g
    \<and> g_repeated_gap_count g' = g_repeated_gap_count g \<and> g_last_gap_pass g' = g_last_gap_pass g
    \<and> g_progress g' = g_progress g \<and> g_completion_verification g' = None \<and> \<not> g_runtime_blocked g'"
proof -
  from assms obtain obj st where o: "g_objective g = Some obj" and st: "g_status g = Some st"
    by (auto simp: goal_ok_defs)
  let ?s = "goal_snapshot now g"
  from assms(1) st have valid: "snapshot_stall_valid ?s"
    and room: "st = Active \<Longrightarrow> g_repeated_gap_count g < MAX_REPEATED_GAP_PASSES"
    by (auto simp: goal_ok_defs snapshot_stall_valid_def goal_snapshot_def)
  from room have "\<not> (st = Active \<and> MAX_REPEATED_GAP_PASSES \<le> g_repeated_gap_count g)" by auto
  with valid o st assms(1) show ?thesis
    by (simp add: from_snapshot_def from_persisted_def goal_snapshot_def goal_default_def Let_def goal_ok_defs)
qed

theorem snapshot_round_trip_witness:
  "g_status (from_snapshot 50 (goal_snapshot 20 (snd (mark_paused 8 Backoff demo_goal)))) = Some Paused"
proof -
  have "g_objective (snd (mark_paused 8 Backoff demo_goal)) \<noteq> None"
    "g_status (snd (mark_paused 8 Backoff demo_goal)) = Some Paused" by code_simp+
  with snapshot_round_trip [OF goal_ok_paused [OF goal_ok_demo] this(1)] show ?thesis
    by (simp add: Let_def)
qed

text \<open>The stall fingerprint identifies gap sets: two reports get the same fingerprint exactly when
  their gaps are equal as sets after white space and case are normalised; order, repetition and
  spacing do not matter, and the separator bytes keep different sets apart up to a collision of the
  digest on the two byte strings.\<close>

theorem gap_fingerprint_identifies_sets:
  assumes "list_all (\<lambda>x. CHR 0x00 \<notin> set x) (normalize_gaps h a @ normalize_gaps h b)"
    and "sha256_hex h (gap_preimage h a) = sha256_hex h (gap_preimage h b) \<Longrightarrow>
      gap_preimage h a = gap_preimage h b"
  shows "gap_fingerprint h a = gap_fingerprint h b \<longleftrightarrow>
    set (normalize_gaps h a) = set (normalize_gaps h b)"
proof
  assume "gap_fingerprint h a = gap_fingerprint h b"
  then consider "normalize_gaps h a = []" "normalize_gaps h b = []"
    | "sha256_hex h (gap_preimage h a) = sha256_hex h (gap_preimage h b)"
    by (auto simp: gap_fingerprint_preimage split: if_splits)
  then show "set (normalize_gaps h a) = set (normalize_gaps h b)"
  proof cases
    case 2
    from assms(2) [OF this] assms(1) show ?thesis
      using zero_terminated_inj [of "normalize_gaps h a" "normalize_gaps h b"]
      by (simp add: gap_preimage_def list_all_iff)
  qed simp
next
  assume "set (normalize_gaps h a) = set (normalize_gaps h b)"
  from normalize_gaps_unique [OF this] show "gap_fingerprint h a = gap_fingerprint h b"
    by (simp add: gap_fingerprint_def)
qed

definition plain_digest :: Digest where
  "plain_digest = \<lparr>sha256_hex = id, to_lowercase = to_ascii_lowercase\<rparr>"

theorem gap_fingerprint_identifies_sets_witness:
  "gap_fingerprint plain_digest [''Lint  fails'', ''docs'']
   = gap_fingerprint plain_digest [''docs'', ''lint fails'', ''docs'']"
proof -
  let ?a = "[''Lint  fails'', ''docs'']" and ?b = "[''docs'', ''lint fails'', ''docs'']"
  have norm: "normalize_gaps plain_digest ?a = [''docs'', ''lint fails'']"
    "normalize_gaps plain_digest ?b = [''docs'', ''lint fails'']" by code_simp+
  have "list_all (\<lambda>x. CHR 0x00 \<notin> set x) (normalize_gaps plain_digest ?a @ normalize_gaps plain_digest ?b)"
    unfolding norm by simp
  moreover have "sha256_hex plain_digest = id" by (simp add: plain_digest_def)
  ultimately show ?thesis
    by (subst gap_fingerprint_identifies_sets) (simp_all add: norm)
qed

text \<open>The loop between turns stops only for a reason: with no terminal status, the decision after
  \<open>k\<close> further continuations (the 32-bit counter saturating) is to stop for the budget exactly when an
  enforced token budget is exhausted, otherwise to stop at the continuation limit exactly when a
  non-zero limit is reached, and otherwise to continue; so a run under a limit \<open>m\<close> is dispatched at
  most \<open>m\<close> times and a run without one is never cut short.\<close>

theorem decide_continuation_bound:
  "decide_continuation RunActive (continuations_after k p) b =
     (if token_budget_exhausted p b then Stop BudgetLimitStop
      else if bud_max_continuations b \<noteq> 0
          \<and> unat (bud_max_continuations b) \<le> unat (prog_continuations p) + k
      then Stop ContinuationLimit else Continue)"
proof -
  have "unat (bud_max_continuations b) \<le> 2 ^ 32 - 1"
    by (rule unat_u32_le)
  then have "bud_max_continuations b \<le> prog_continuations (continuations_after k p) \<longleftrightarrow>
      unat (bud_max_continuations b) \<le> unat (prog_continuations p) + k"
    by (simp add: word_le_nat_alt continuations_after_simps)
  then show ?thesis
    by (auto simp: decide_continuation_def token_budget_exhausted_def continuations_after_simps
        word_gt_0 split: option.split)
qed

end
