(* ===== verification/Narrowing.thy ===== *)
theory Narrowing
  imports Prelude
begin

text \<open>
  The two contracts of delegated authority: a binary \<open>meet\<close> that is a greatest lower bound (every
  "take the more restrictive side" operation of the code), and a derivation that never yields more
  than it started from. What a whole chain of delegations then satisfies is proved once here.
\<close>

locale derivation =
  fixes derive :: "'a \<Rightarrow> 'b \<Rightarrow> 'a" and le :: "'a \<Rightarrow> 'a \<Rightarrow> bool"
  assumes le_refl: "le a a"
    and le_trans: "le a b \<Longrightarrow> le b c \<Longrightarrow> le a c"
    and derive_le: "le (derive a r) a"
begin

text \<open>A descendant, after any sequence of requests, holds no more than the root, nor more than any
  ancestor on the way.\<close>

lemma chain_le: "le (fold (\<lambda>r a. derive a r) rs a) a"
  by (induction rs arbitrary: a) (auto intro: le_refl le_trans derive_le)

lemma chain_le_ancestor: "le (fold (\<lambda>r a. derive a r) (rs @ qs) a) (fold (\<lambda>r a. derive a r) rs a)"
  by (simp add: chain_le)

end

locale narrowing =
  fixes meet :: "'a \<Rightarrow> 'a \<Rightarrow> 'a" and le :: "'a \<Rightarrow> 'a \<Rightarrow> bool"
  assumes order_refl: "le a a"
    and order_trans: "le a b \<Longrightarrow> le b c \<Longrightarrow> le a c"
    and meet_le1: "le (meet a b) a"
    and meet_le2: "le (meet a b) b"
    and meet_greatest: "le c a \<Longrightarrow> le c b \<Longrightarrow> le c (meet a b)"
begin

lemma meet_mono: "le a a' \<Longrightarrow> le b b' \<Longrightarrow> le (meet a b) (meet a' b')"
  by (rule meet_greatest [OF order_trans [OF meet_le1] order_trans [OF meet_le2]])

lemma meet_commute: "le (meet a b) (meet b a)"
  by (intro meet_greatest meet_le1 meet_le2)

lemma chain_le_request: "r \<in> set rs \<Longrightarrow> le (fold (\<lambda>r a. meet a r) rs a) r"
proof (induction rs arbitrary: a)
  case (Cons q rs)
  have root: "le (fold (\<lambda>r a. meet a r) xs b) b" for xs b
    by (induction xs arbitrary: b) (auto intro: order_refl order_trans meet_le1)
  show ?case
  proof (cases "r = q")
    case True
    with root [of rs "meet a q"] show ?thesis by (auto intro: order_trans meet_le2)
  next
    case False
    with Cons show ?thesis by simp
  qed
qed simp

end

sublocale narrowing \<subseteq> derivation meet le
  by unfold_locales (fact order_refl, fact order_trans, fact meet_le1)

text \<open>Any linear order with its minimum.\<close>

interpretation min_narrowing: narrowing "min :: 'a::linorder \<Rightarrow> 'a \<Rightarrow> 'a" "(\<le>)"
  by unfold_locales auto

text \<open>Any two narrowings, side by side.\<close>

interpretation and_narrowing: narrowing "(\<and>)" "(\<longrightarrow>)"
  by unfold_locales auto

end
