(* ===== verification/Authority.thy ===== *)
theory Authority
  imports Narrowing ToolRules "HOL-Library.Char_ord" "HOL-Library.List_Lexorder"
begin

text \<open>
  Delegated authority: the role vocabulary and the child-authority envelope of
  \<open>crates/agent-contract/src/role.rs\<close>, the runtime profile and child grant of
  \<open>crates/agent-contract/src/worker_profile.rs\<close>, and the permission ceiling of
  \<open>crates/protocol/src/fleet.rs\<close>. The four ordered authority scales carry the derived \<open>Ord\<close> of the
  source as instances of \<open>linorder\<close>.
\<close>

section \<open>Ordered scales\<close>

datatype ShellCeiling = CeilNone | CeilReadOnly | CeilFull

fun shellCeiling_rank :: "ShellCeiling \<Rightarrow> nat" where
  "shellCeiling_rank CeilNone = 0"
| "shellCeiling_rank CeilReadOnly = 1"
| "shellCeiling_rank CeilFull = 2"

lemma shellCeiling_rank_inj [simp]: "shellCeiling_rank a = shellCeiling_rank b \<longleftrightarrow> a = b"
  by (cases a; cases b) simp_all

instantiation ShellCeiling :: linorder
begin

definition less_eq_ShellCeiling :: "ShellCeiling \<Rightarrow> ShellCeiling \<Rightarrow> bool" where
  "a \<le> b \<longleftrightarrow> shellCeiling_rank a \<le> shellCeiling_rank b"

definition less_ShellCeiling :: "ShellCeiling \<Rightarrow> ShellCeiling \<Rightarrow> bool" where
  "a < b \<longleftrightarrow> shellCeiling_rank a < shellCeiling_rank b"

instance
  by standard (auto simp: less_eq_ShellCeiling_def less_ShellCeiling_def)

end

datatype ShellPolicy = PolicyNone | PolicyReadOnly | PolicyFull

fun shellPolicy_rank :: "ShellPolicy \<Rightarrow> nat" where
  "shellPolicy_rank PolicyNone = 0"
| "shellPolicy_rank PolicyReadOnly = 1"
| "shellPolicy_rank PolicyFull = 2"

lemma shellPolicy_rank_inj [simp]: "shellPolicy_rank a = shellPolicy_rank b \<longleftrightarrow> a = b"
  by (cases a; cases b) simp_all

instantiation ShellPolicy :: linorder
begin

definition less_eq_ShellPolicy :: "ShellPolicy \<Rightarrow> ShellPolicy \<Rightarrow> bool" where
  "a \<le> b \<longleftrightarrow> shellPolicy_rank a \<le> shellPolicy_rank b"

definition less_ShellPolicy :: "ShellPolicy \<Rightarrow> ShellPolicy \<Rightarrow> bool" where
  "a < b \<longleftrightarrow> shellPolicy_rank a < shellPolicy_rank b"

instance
  by standard (auto simp: less_eq_ShellPolicy_def less_ShellPolicy_def)

end

datatype FileGrant = FilesNone | FilesRead | FilesWrite

fun fileGrant_rank :: "FileGrant \<Rightarrow> nat" where
  "fileGrant_rank FilesNone = 0"
| "fileGrant_rank FilesRead = 1"
| "fileGrant_rank FilesWrite = 2"

lemma fileGrant_rank_inj [simp]: "fileGrant_rank a = fileGrant_rank b \<longleftrightarrow> a = b"
  by (cases a; cases b) simp_all

instantiation FileGrant :: linorder
begin

definition less_eq_FileGrant :: "FileGrant \<Rightarrow> FileGrant \<Rightarrow> bool" where
  "a \<le> b \<longleftrightarrow> fileGrant_rank a \<le> fileGrant_rank b"

definition less_FileGrant :: "FileGrant \<Rightarrow> FileGrant \<Rightarrow> bool" where
  "a < b \<longleftrightarrow> fileGrant_rank a < fileGrant_rank b"

instance
  by standard (auto simp: less_eq_FileGrant_def less_FileGrant_def)

end

datatype ShellGrant = GrantNone | GrantInspect | GrantVerify | GrantFull

fun shellGrant_rank :: "ShellGrant \<Rightarrow> nat" where
  "shellGrant_rank GrantNone = 0"
| "shellGrant_rank GrantInspect = 1"
| "shellGrant_rank GrantVerify = 2"
| "shellGrant_rank GrantFull = 3"

lemma shellGrant_rank_inj [simp]: "shellGrant_rank a = shellGrant_rank b \<longleftrightarrow> a = b"
  by (cases a; cases b) simp_all

instantiation ShellGrant :: linorder
begin

definition less_eq_ShellGrant :: "ShellGrant \<Rightarrow> ShellGrant \<Rightarrow> bool" where
  "a \<le> b \<longleftrightarrow> shellGrant_rank a \<le> shellGrant_rank b"

definition less_ShellGrant :: "ShellGrant \<Rightarrow> ShellGrant \<Rightarrow> bool" where
  "a < b \<longleftrightarrow> shellGrant_rank a < shellGrant_rank b"

instance
  by standard (auto simp: less_eq_ShellGrant_def less_ShellGrant_def)

end

section \<open>Permission ceiling\<close>

fun shell_ceiling_str :: "ShellCeiling \<Rightarrow> string" where
  "shell_ceiling_str CeilNone = ''none''"
| "shell_ceiling_str CeilReadOnly = ''read_only''"
| "shell_ceiling_str CeilFull = ''full''"

definition ceiling_min_with :: "ShellCeiling \<Rightarrow> ShellCeiling \<Rightarrow> ShellCeiling" where
  "ceiling_min_with a b = (if a \<le> b then a else b)"

definition DEFAULT_SPAWN_DEPTH :: u32 where
  "DEFAULT_SPAWN_DEPTH = - 1"

record PermissionCeiling =
  pc_write :: bool
  pc_network_tool :: bool
  pc_shell :: ShellCeiling
  pc_delegation_depth :: u32
  pc_tools :: bool

definition ROUTER :: PermissionCeiling where
  "ROUTER = \<lparr>pc_write = False, pc_network_tool = False, pc_shell = CeilNone,
     pc_delegation_depth = 0, pc_tools = False\<rparr>"

definition ceiling_preset :: "string \<Rightarrow> PermissionCeiling option" where
  "ceiling_preset name =
     (let base = (\<lambda>w n s d. \<lparr>pc_write = w, pc_network_tool = n, pc_shell = s,
            pc_delegation_depth = d, pc_tools = True\<rparr>);
          name = to_ascii_lowercase (trim name)
      in map_of
        [(''none'', ROUTER),
         (''analyst'', base False False CeilNone 0),
         (''read_only'', base False False CeilReadOnly 0),
         (''readonly'', base False False CeilReadOnly 0),
         (''tester'', base False False CeilFull 0),
         (''verifier'', base False False CeilFull 0),
         (''read_write'', base True False CeilFull 0),
         (''readwrite'', base True False CeilFull 0),
         (''full'', base True True CeilFull 1)] name)"

definition clamp_to :: "PermissionCeiling \<Rightarrow> PermissionCeiling \<Rightarrow> PermissionCeiling" where
  "clamp_to c session =
     \<lparr>pc_write = (pc_write c \<and> pc_write session),
      pc_network_tool = (pc_network_tool c \<and> pc_network_tool session),
      pc_shell = ceiling_min_with (pc_shell c) (pc_shell session),
      pc_delegation_depth = min (pc_delegation_depth c) (pc_delegation_depth session),
      pc_tools = (pc_tools c \<and> pc_tools session)\<rparr>"

section \<open>Roles\<close>

datatype FleetRole =
  Worker | Scout | Planner | Reviewer | Builder | Verifier | Consultant | Custom

definition FLEET_ROLE_SCHEMA_VALUES :: "string list" where
  "FLEET_ROLE_SCHEMA_VALUES =
     [''general'', ''explore'', ''planner'', ''reviewer'', ''implement'', ''test'', ''advisor'', ''custom'']"

definition legacy_role_table :: "(string \<times> string) list" where
  "legacy_role_table =
     [(''worker'', ''general''), (''general-purpose'', ''general''), (''general_purpose'', ''general''),
      (''default'', ''general''),
      (''scout'', ''explore''), (''exploration'', ''explore''), (''explorer'', ''explore''),
      (''plan'', ''planner''), (''planning'', ''planner''), (''awaiter'', ''planner''),
      (''review'', ''reviewer''), (''code-review'', ''reviewer''), (''code_review'', ''reviewer''),
      (''builder'', ''implement''), (''implementer'', ''implement''), (''implementation'', ''implement''),
      (''verifier'', ''test''), (''verify'', ''test''), (''verification'', ''test''),
      (''validator'', ''test''), (''tester'', ''test''),
      (''consultant'', ''advisor''), (''oracle'', ''advisor'')]"

definition migrate_legacy_role_token :: "string \<Rightarrow> string option" where
  "migrate_legacy_role_token token = map_of legacy_role_table (to_ascii_lowercase (trim token))"

definition role_table :: "(string \<times> FleetRole) list" where
  "role_table =
     [(''general'', Worker), (''explore'', Scout), (''planner'', Planner), (''reviewer'', Reviewer),
      (''implement'', Builder), (''test'', Verifier), (''advisor'', Consultant), (''custom'', Custom)]"

definition role_parse :: "string \<Rightarrow> FleetRole option" where
  "role_parse s =
     (let normalized = to_ascii_lowercase (trim s);
          token = (case migrate_legacy_role_token normalized of Some t \<Rightarrow> t | None \<Rightarrow> normalized)
      in map_of role_table token)"

fun role_str :: "FleetRole \<Rightarrow> string" where
  "role_str Worker = ''general''"
| "role_str Scout = ''explore''"
| "role_str Planner = ''planner''"
| "role_str Reviewer = ''reviewer''"
| "role_str Builder = ''implement''"
| "role_str Verifier = ''test''"
| "role_str Consultant = ''advisor''"
| "role_str Custom = ''custom''"

definition role_all :: "FleetRole list" where
  "role_all = [Worker, Scout, Planner, Reviewer, Builder, Verifier, Consultant, Custom]"

definition public_role_label :: "string \<Rightarrow> string" where
  "public_role_label token = (case role_parse token of Some r \<Rightarrow> role_str r | None \<Rightarrow> trim token)"

definition member_role_table :: "(string \<times> FleetRole) list" where
  "member_role_table =
     [(''manager'', Worker), (''coordinator'', Worker), (''operator'', Worker),
      (''synthesizer'', Planner), (''summarizer'', Planner), (''reducer'', Planner),
      (''smoke-runner'', Verifier), (''read-only'', Scout)]"

definition member_role_alias :: "string \<Rightarrow> FleetRole option" where
  "member_role_alias token = map_of member_role_table token"

definition runtime_role_for_member :: "string \<Rightarrow> FleetRole" where
  "runtime_role_for_member role =
     (let token = to_ascii_lowercase (trim role) in
      if token = [] then Worker
      else case role_parse token of
        Some r \<Rightarrow> r
      | None \<Rightarrow> (case member_role_alias token of Some r \<Rightarrow> r | None \<Rightarrow> Scout))"

section \<open>Deny lists\<close>

definition NETWORK_TOOL_DENYLIST :: "string list" where
  "NETWORK_TOOL_DENYLIST =
     [''web_*'', ''web.*'', ''web.run'', ''web_run'', ''web_search'', ''web.fetch'', ''web_fetch'',
      ''fetch_url'', ''wait_for_dev_server'', ''browse'', ''browser'', ''github'', ''finance'',
      ''rlm_open'', ''rlm_eval'', ''mcp*'', ''start_mcp_server'', ''list_mcp_resources'',
      ''list_mcp_resource_templates'', ''read_mcp_resource'']"

definition NETWORK_DENIAL_SENTINEL :: string where
  "NETWORK_DENIAL_SENTINEL = ''fetch_url''"

definition MUTATING_TOOL_DENYLIST :: "string list" where
  "MUTATING_TOOL_DENYLIST =
     [''write_file'', ''edit_file'', ''apply_patch'', ''fim_edit'', ''revert_turn'', ''rlm_eval'']"

definition RAW_SHELL_DENYLIST :: "string list" where
  "RAW_SHELL_DENYLIST =
     [''Bash'', ''exec_shell'', ''exec_shell_wait'', ''exec_wait'', ''exec_shell_interact'',
      ''exec_interact'', ''exec_shell_cancel'', ''task_shell_start'', ''task_shell_wait'', ''terminal/*'']"

definition VERIFICATION_SURFACE_DENYLIST :: "string list" where
  "VERIFICATION_SURFACE_DENYLIST = [''Run'', ''run_tests'', ''run_verifiers'']"

definition SHELL_AUTHORITY_SENTINEL :: string where
  "SHELL_AUTHORITY_SENTINEL = ''run_tests''"

definition NON_SHELL_EXECUTION_DENYLIST :: "string list" where
  "NON_SHELL_EXECUTION_DENYLIST =
     [''task_gate_run'', ''task_create'', ''task_cancel'', ''pr_attempt_record'', ''pr_attempt_preflight'',
      ''automation_run'', ''automation_create'', ''automation_update'', ''automation_pause'',
      ''automation_resume'', ''automation_delete'', ''start_mcp_server'']"

section \<open>Runtime profile\<close>

record PermissionSet =
  perm_write :: bool
  perm_network :: bool

definition perms_full :: PermissionSet where
  "perms_full = \<lparr>perm_write = True, perm_network = True\<rparr>"

definition perms_read_only :: PermissionSet where
  "perms_read_only = \<lparr>perm_write = False, perm_network = False\<rparr>"

definition perms_read_only_with_network :: PermissionSet where
  "perms_read_only_with_network = \<lparr>perm_write = False, perm_network = True\<rparr>"

definition perms_intersect :: "PermissionSet \<Rightarrow> PermissionSet \<Rightarrow> PermissionSet" where
  "perms_intersect a b =
     \<lparr>perm_write = (perm_write a \<and> perm_write b), perm_network = (perm_network a \<and> perm_network b)\<rparr>"

definition from_legacy_allow_shell :: "bool \<Rightarrow> ShellPolicy" where
  "from_legacy_allow_shell allow_shell = (if allow_shell then PolicyFull else PolicyNone)"

definition allows_shell :: "ShellPolicy \<Rightarrow> bool" where
  "allows_shell p \<longleftrightarrow> p \<noteq> PolicyNone"

definition policy_min_with :: "ShellPolicy \<Rightarrow> ShellPolicy \<Rightarrow> ShellPolicy" where
  "policy_min_with a b = (if a \<le> b then a else b)"

datatype ToolScope = Inherit | Explicit (explicit_tools: "string list")

datatype ToolSurface = Inherited | Evidence

datatype ModelRoute = RouteInherit | RouteFaster | RouteAuto | RouteFixed string

record WorkerRuntimeProfile =
  wp_role :: FleetRole
  wp_permissions :: PermissionSet
  wp_shell :: ShellPolicy
  wp_tools :: ToolScope
  wp_model :: ModelRoute
  wp_provider :: "string option"
  wp_reasoning_effort :: "string option"
  wp_denied_tools :: "string list"
  wp_max_spawn_depth :: u32
  wp_spawn_depth :: u32
  wp_wall_time_secs :: "u64 option"
  wp_wall_deadline_ms :: "u64 option"
  wp_max_steps :: u32
  wp_background :: bool

definition READ_ONLY_MAX_STEPS :: u32 where
  "READ_ONLY_MAX_STEPS = 0"

definition GENERAL_MAX_STEPS :: u32 where
  "GENERAL_MAX_STEPS = 0"

definition default_max_steps :: "FleetRole \<Rightarrow> u32" where
  "default_max_steps role =
     (if role \<in> {Scout, Reviewer, Planner, Verifier, Consultant} then READ_ONLY_MAX_STEPS
      else GENERAL_MAX_STEPS)"

fun role_posture :: "FleetRole \<Rightarrow> PermissionSet \<times> ShellPolicy" where
  "role_posture Scout = (perms_read_only_with_network, PolicyFull)"
| "role_posture Reviewer = (perms_read_only_with_network, PolicyFull)"
| "role_posture Planner = (perms_read_only_with_network, PolicyReadOnly)"
| "role_posture Consultant = (perms_read_only_with_network, PolicyNone)"
| "role_posture Verifier = (perms_read_only_with_network, PolicyFull)"
| "role_posture Builder = (perms_full, PolicyFull)"
| "role_posture Worker = (perms_full, PolicyFull)"
| "role_posture Custom = (perms_full, PolicyFull)"

definition profile_for_role :: "FleetRole \<Rightarrow> WorkerRuntimeProfile" where
  "profile_for_role role =
     (let (permissions, shell) = role_posture role in
      \<lparr>wp_role = role, wp_permissions = permissions, wp_shell = shell, wp_tools = Inherit,
       wp_model = RouteInherit, wp_provider = None,
       wp_reasoning_effort = (if role = Consultant then Some ''high'' else None),
       wp_denied_tools = [], wp_max_spawn_depth = DEFAULT_SPAWN_DEPTH, wp_spawn_depth = 0,
       wp_wall_time_secs = None, wp_wall_deadline_ms = None,
       wp_max_steps = default_max_steps role, wp_background = True\<rparr>)"

definition narrow_optional_limit :: "'a::linorder option \<Rightarrow> 'a option \<Rightarrow> 'a option" where
  "narrow_optional_limit inherited requested =
     (case (inherited, requested) of
        (Some i, Some r) \<Rightarrow> Some (min i r)
      | (Some i, None) \<Rightarrow> Some i
      | (None, r) \<Rightarrow> r)"

definition steps_limit :: "u32 \<Rightarrow> u32 option" where
  "steps_limit n = (if 0 < n then Some n else None)"

definition narrow_model_steps :: "u32 \<Rightarrow> u32 \<Rightarrow> u32" where
  "narrow_model_steps inherited requested =
     (case narrow_optional_limit (steps_limit inherited) (steps_limit requested) of
        Some n \<Rightarrow> n | None \<Rightarrow> 0)"

definition narrow_tools :: "ToolScope \<Rightarrow> ToolScope \<Rightarrow> ToolScope" where
  "narrow_tools parent child =
     (case (parent, child) of
        (Explicit p, Explicit c) \<Rightarrow> Explicit (filter (\<lambda>name. name \<in> set p) c)
      | (Explicit p, Inherit) \<Rightarrow> Explicit p
      | (Inherit, c) \<Rightarrow> c)"

text \<open>The deny lists' union: the loop appends each requested rule not there yet.\<close>

definition union_denied :: "string list \<Rightarrow> string list \<Rightarrow> string list" where
  "union_denied parent requested =
     fold (\<lambda>rule denied. if rule \<in> set denied then denied else denied @ [rule]) requested parent"

definition option_or :: "'a option \<Rightarrow> 'a option \<Rightarrow> 'a option" where
  "option_or a b = (case a of Some x \<Rightarrow> Some x | None \<Rightarrow> b)"

definition derive_child :: "WorkerRuntimeProfile \<Rightarrow> WorkerRuntimeProfile \<Rightarrow> WorkerRuntimeProfile" where
  "derive_child self requested =
     \<lparr>wp_role = wp_role requested,
      wp_permissions = perms_intersect (wp_permissions self) (wp_permissions requested),
      wp_shell = policy_min_with (wp_shell self) (wp_shell requested),
      wp_tools = narrow_tools (wp_tools self) (wp_tools requested),
      wp_model = wp_model requested,
      wp_provider = option_or (wp_provider requested) (wp_provider self),
      wp_reasoning_effort = option_or (wp_reasoning_effort requested) (wp_reasoning_effort self),
      wp_denied_tools = union_denied (wp_denied_tools self) (wp_denied_tools requested),
      wp_max_spawn_depth = min (wp_max_spawn_depth requested) (wp_max_spawn_depth self),
      wp_spawn_depth = sat_add (wp_spawn_depth self) 1,
      wp_wall_time_secs = narrow_optional_limit (wp_wall_time_secs self) (wp_wall_time_secs requested),
      wp_wall_deadline_ms =
        narrow_optional_limit (wp_wall_deadline_ms self) (wp_wall_deadline_ms requested),
      wp_max_steps = narrow_model_steps (wp_max_steps self) (wp_max_steps requested),
      wp_background = wp_background requested\<rparr>"

definition remaining_spawn_depth :: "WorkerRuntimeProfile \<Rightarrow> u32" where
  "remaining_spawn_depth p = sat_sub (wp_max_spawn_depth p) (wp_spawn_depth p)"

definition can_spawn_child :: "WorkerRuntimeProfile \<Rightarrow> bool" where
  "can_spawn_child p \<longleftrightarrow> wp_spawn_depth p < wp_max_spawn_depth p"

section \<open>Child grant\<close>

record ChildGrant =
  cg_files :: FileGrant
  cg_shell :: ShellGrant
  cg_network :: bool
  cg_desktop :: bool
  cg_surface :: ToolSurface
  cg_scope :: "string list option"
  cg_spawn :: bool

fun grant_posture :: "FleetRole \<Rightarrow> FileGrant \<times> ShellGrant \<times> ToolSurface" where
  "grant_posture Scout = (FilesRead, GrantInspect, Evidence)"
| "grant_posture Reviewer = (FilesRead, GrantInspect, Evidence)"
| "grant_posture Planner = (FilesRead, GrantInspect, Inherited)"
| "grant_posture Consultant = (FilesRead, GrantNone, Inherited)"
| "grant_posture Verifier = (FilesRead, GrantVerify, Inherited)"
| "grant_posture Builder = (FilesWrite, GrantFull, Inherited)"
| "grant_posture Worker = (FilesWrite, GrantFull, Inherited)"
| "grant_posture Custom = (FilesWrite, GrantFull, Inherited)"

definition grant_for_role :: "FleetRole \<Rightarrow> ChildGrant" where
  "grant_for_role role =
     (let (files, shell, surface) = grant_posture role in
      \<lparr>cg_files = files, cg_shell = shell, cg_network = True, cg_desktop = False,
       cg_surface = surface, cg_scope = None, cg_spawn = True\<rparr>)"

fun profile_shell_grant :: "ShellPolicy \<Rightarrow> ShellGrant" where
  "profile_shell_grant PolicyNone = GrantNone"
| "profile_shell_grant PolicyReadOnly = GrantInspect"
| "profile_shell_grant PolicyFull = GrantFull"

definition profile_denies :: "WorkerRuntimeProfile \<Rightarrow> string \<Rightarrow> bool" where
  "profile_denies profile name = tool_denied (Some (wp_denied_tools profile)) name"

definition grant_resolve ::
  "FleetRole \<Rightarrow> WorkerRuntimeProfile \<Rightarrow> string list option \<Rightarrow> bool \<Rightarrow> ChildGrant" where
  "grant_resolve role profile scope can_spawn =
     (let preset = grant_for_role role;
          resolved_shell = min (cg_shell preset) (profile_shell_grant (wp_shell profile));
          shell = (if profile_denies profile SHELL_AUTHORITY_SENTINEL
                   then (if resolved_shell = GrantInspect then GrantInspect else GrantNone)
                   else resolved_shell);
          no_tools = (scope = Some [])
      in \<lparr>cg_files = (if no_tools then FilesNone
             else min (cg_files preset)
                    (if perm_write (wp_permissions profile) then FilesWrite else FilesRead)),
          cg_shell = shell,
          cg_network = (cg_network preset \<and> perm_network (wp_permissions profile)
             \<and> \<not> profile_denies profile NETWORK_DENIAL_SENTINEL),
          cg_desktop = False,
          cg_surface = cg_surface preset,
          cg_scope = scope,
          cg_spawn = can_spawn\<rparr>)"

fun grant_shell_policy :: "ShellGrant \<Rightarrow> ShellPolicy" where
  "grant_shell_policy GrantNone = PolicyNone"
| "grant_shell_policy GrantInspect = PolicyReadOnly"
| "grant_shell_policy GrantVerify = PolicyFull"
| "grant_shell_policy GrantFull = PolicyFull"

section \<open>Child authority\<close>

record ChildAuthority =
  ca_ceiling :: PermissionCeiling
  ca_allowed_tools :: "string list option"
  ca_disallowed_tools :: "string list"
  ca_write_authority :: string
  ca_max_depth :: u32
  ca_posture_role :: string

definition posture_role_for :: "PermissionCeiling \<Rightarrow> string" where
  "posture_role_for ceiling =
     (if \<not> pc_tools ceiling then ''explore''
      else if pc_write ceiling then ''implement''
      else case pc_shell ceiling of CeilFull \<Rightarrow> ''test'' | _ \<Rightarrow> ''explore'')"

definition ceiling_denials :: "PermissionCeiling \<Rightarrow> string list" where
  "ceiling_denials ceiling =
     (if \<not> pc_network_tool ceiling then NETWORK_TOOL_DENYLIST else [])
     @ (if \<not> (pc_write ceiling \<and> pc_shell ceiling = CeilFull) then RAW_SHELL_DENYLIST else [])
     @ (if pc_shell ceiling \<noteq> CeilFull then VERIFICATION_SURFACE_DENYLIST else [])
     @ (if \<not> pc_write ceiling then MUTATING_TOOL_DENYLIST @ NON_SHELL_EXECUTION_DENYLIST else [])"

definition authority_clamp :: "PermissionCeiling \<Rightarrow> PermissionCeiling \<Rightarrow> ChildAuthority" where
  "authority_clamp requested session =
     (let ceiling = clamp_to requested session in
      \<lparr>ca_ceiling = ceiling,
       ca_allowed_tools = (if \<not> pc_tools ceiling then Some [] else None),
       ca_disallowed_tools = ceiling_denials ceiling,
       ca_write_authority = (if pc_write ceiling then ''workspace_write'' else ''read_only''),
       ca_max_depth = pc_delegation_depth ceiling,
       ca_posture_role = posture_role_for ceiling\<rparr>)"

fun policy_ceiling :: "ShellPolicy \<Rightarrow> ShellCeiling" where
  "policy_ceiling PolicyNone = CeilNone"
| "policy_ceiling PolicyReadOnly = CeilReadOnly"
| "policy_ceiling PolicyFull = CeilFull"

definition runtime_permission_ceiling :: "FleetRole \<Rightarrow> PermissionCeiling" where
  "runtime_permission_ceiling role =
     (let profile = profile_for_role role in
      \<lparr>pc_write = perm_write (wp_permissions profile),
       pc_network_tool = perm_network (wp_permissions profile),
       pc_shell = policy_ceiling (wp_shell profile),
       pc_delegation_depth = remaining_spawn_depth profile,
       pc_tools = (case wp_tools profile of Inherit \<Rightarrow> True | Explicit tools \<Rightarrow> tools \<noteq> [])\<rparr>)"

definition from_runtime_role :: "string \<Rightarrow> PermissionCeiling \<Rightarrow> ChildAuthority" where
  "from_runtime_role role session =
     (let runtime_role = runtime_role_for_member role;
          authority = (authority_clamp (runtime_permission_ceiling runtime_role) session)
            \<lparr>ca_posture_role := role_str runtime_role\<rparr>
      in if runtime_role \<in> {Scout, Reviewer, Planner} \<and> pc_shell (ca_ceiling authority) \<noteq> CeilNone
         then authority\<lparr>ca_disallowed_tools :=
           filter (\<lambda>name. \<not> eq_ignore_ascii_case name ''Bash'') (ca_disallowed_tools authority)\<rparr>
         else authority)"

definition session_shell_ceiling :: "ShellPolicy \<Rightarrow> bool \<Rightarrow> ShellCeiling" where
  "session_shell_ceiling shell allow_shell =
     (case shell of
        PolicyNone \<Rightarrow> CeilNone
      | PolicyReadOnly \<Rightarrow> CeilReadOnly
      | PolicyFull \<Rightarrow> if allow_shell then CeilFull else CeilNone)"

definition role_requires_read_only_shell :: "FleetRole \<Rightarrow> bool" where
  "role_requires_read_only_shell role \<longleftrightarrow> role \<in> {Scout, Reviewer, Planner}"

definition effective_runtime_profile_for_role ::
  "FleetRole \<Rightarrow> WorkerRuntimeProfile \<Rightarrow> WorkerRuntimeProfile" where
  "effective_runtime_profile_for_role role requested =
     (if role_requires_read_only_shell role \<and> allows_shell (wp_shell requested)
      then requested\<lparr>wp_shell := PolicyReadOnly\<rparr> else requested)"

record FleetEffectivePermissions =
  fe_write :: bool
  fe_network :: bool
  fe_shell :: string
  fe_tool_scope :: string
  fe_tools :: "string list"
  fe_background :: bool
  fe_max_spawn_depth :: u32
  fe_profile_id :: "string option"
  fe_profile_origin :: "string option"
  fe_source :: string

fun shell_policy_label :: "ShellPolicy \<Rightarrow> string" where
  "shell_policy_label PolicyNone = ''none''"
| "shell_policy_label PolicyReadOnly = ''read_only''"
| "shell_policy_label PolicyFull = ''full''"

fun tool_scope_label :: "ToolScope \<Rightarrow> string" where
  "tool_scope_label Inherit = ''inherit''"
| "tool_scope_label (Explicit _) = ''explicit''"

definition fleet_effective_permissions ::
  "FleetRole \<Rightarrow> WorkerRuntimeProfile \<Rightarrow> string option \<Rightarrow> string option \<Rightarrow> FleetEffectivePermissions" where
  "fleet_effective_permissions role requested profile_id profile_origin =
     (let profile = effective_runtime_profile_for_role role requested in
      \<lparr>fe_write = perm_write (wp_permissions profile),
       fe_network = perm_network (wp_permissions profile),
       fe_shell = shell_policy_label (wp_shell profile),
       fe_tool_scope = tool_scope_label (wp_tools profile),
       fe_tools = (case wp_tools profile of Inherit \<Rightarrow> [] | Explicit tools \<Rightarrow> tools),
       fe_background = wp_background profile, fe_max_spawn_depth = wp_max_spawn_depth profile,
       fe_profile_id = profile_id, fe_profile_origin = profile_origin,
       fe_source = ''worker_runtime_profile''\<rparr>)"

end
