(* ===== verification/AuthorityProps.thy ===== *)
theory AuthorityProps
  imports Authority
begin

text \<open>
  What delegation guarantees: every narrowing operation of the code meets the narrowing contract,
  a derived profile never holds more than its parent along any chain, delegation ends, roles and
  labels resolve to one posture, and the deny lists of a child authority are antitone in its ceiling.
\<close>

section \<open>The order of each authority component\<close>

definition perms_le :: "PermissionSet \<Rightarrow> PermissionSet \<Rightarrow> bool" where
  "perms_le a b \<longleftrightarrow> (perm_write a \<longrightarrow> perm_write b) \<and> (perm_network a \<longrightarrow> perm_network b)"

definition ceiling_le :: "PermissionCeiling \<Rightarrow> PermissionCeiling \<Rightarrow> bool" where
  "ceiling_le a b \<longleftrightarrow> (pc_write a \<longrightarrow> pc_write b) \<and> (pc_network_tool a \<longrightarrow> pc_network_tool b)
     \<and> pc_shell a \<le> pc_shell b \<and> pc_delegation_depth a \<le> pc_delegation_depth b
     \<and> (pc_tools a \<longrightarrow> pc_tools b)"

text \<open>A missing limit is unbounded; zero model steps mean the same.\<close>

definition limit_le :: "'a::linorder option \<Rightarrow> 'a option \<Rightarrow> bool" where
  "limit_le a b = (case (a, b) of (_, None) \<Rightarrow> True | (None, Some _) \<Rightarrow> False | (Some x, Some y) \<Rightarrow> x \<le> y)"

definition steps_le :: "u32 \<Rightarrow> u32 \<Rightarrow> bool" where
  "steps_le a b = limit_le (steps_limit a) (steps_limit b)"

definition scope_le :: "ToolScope \<Rightarrow> ToolScope \<Rightarrow> bool" where
  "scope_le a b = (case (a, b) of
     (_, Inherit) \<Rightarrow> True | (Inherit, Explicit _) \<Rightarrow> False | (Explicit x, Explicit y) \<Rightarrow> set x \<subseteq> set y)"

definition denied_le :: "string list \<Rightarrow> string list \<Rightarrow> bool" where
  "denied_le a b \<longleftrightarrow> set b \<subseteq> set a"

section \<open>Every narrowing operation meets the contract\<close>

interpretation policy_meet: narrowing policy_min_with "(\<le>)"
  by unfold_locales (auto simp: policy_min_with_def)

interpretation shell_meet: narrowing ceiling_min_with "(\<le>)"
  by unfold_locales (auto simp: ceiling_min_with_def)

interpretation perms_meet: narrowing perms_intersect perms_le
  by unfold_locales (auto simp: perms_le_def perms_intersect_def)

interpretation ceiling_meet: narrowing clamp_to ceiling_le
  by unfold_locales
    (auto simp: ceiling_le_def clamp_to_def shell_meet.meet_le1 shell_meet.meet_le2
      intro: shell_meet.meet_greatest)

interpretation limit_meet: narrowing narrow_optional_limit limit_le
  by unfold_locales (auto simp: limit_le_def narrow_optional_limit_def split: option.splits)

lemma steps_limit_narrow: "steps_limit (narrow_model_steps a b) = narrow_optional_limit (steps_limit a) (steps_limit b)"
  by (auto simp: narrow_model_steps_def steps_limit_def narrow_optional_limit_def word_gt_0 min_def)

interpretation steps_meet: narrowing narrow_model_steps steps_le
  by unfold_locales (auto simp: steps_le_def steps_limit_narrow
      intro: limit_meet.order_refl limit_meet.order_trans limit_meet.meet_le1 limit_meet.meet_le2
        limit_meet.meet_greatest)

interpretation scope_meet: narrowing narrow_tools scope_le
  by unfold_locales (auto simp: scope_le_def narrow_tools_def split: ToolScope.splits)

lemma set_union_denied: "set (union_denied parent requested) = set parent \<union> set requested"
  unfolding union_denied_def by (induction requested arbitrary: parent) auto

interpretation denied_meet: narrowing union_denied denied_le
  by unfold_locales (auto simp: denied_le_def set_union_denied)

section \<open>Profiles\<close>

text \<open>\<open>profile_le child parent\<close>: the child holds no more than the parent in any component that grants
  authority (role, route, provider, reasoning effort and the background flag grant none).\<close>

definition profile_le :: "WorkerRuntimeProfile \<Rightarrow> WorkerRuntimeProfile \<Rightarrow> bool" where
  "profile_le c p \<longleftrightarrow> perms_le (wp_permissions c) (wp_permissions p) \<and> wp_shell c \<le> wp_shell p
     \<and> scope_le (wp_tools c) (wp_tools p) \<and> denied_le (wp_denied_tools c) (wp_denied_tools p)
     \<and> limit_le (wp_wall_time_secs c) (wp_wall_time_secs p)
     \<and> limit_le (wp_wall_deadline_ms c) (wp_wall_deadline_ms p)
     \<and> steps_le (wp_max_steps c) (wp_max_steps p)
     \<and> wp_max_spawn_depth c \<le> wp_max_spawn_depth p
     \<and> remaining_spawn_depth c \<le> remaining_spawn_depth p"

lemma unat_remaining: "unat (remaining_spawn_depth p) = unat (wp_max_spawn_depth p) - unat (wp_spawn_depth p)"
  by (simp add: remaining_spawn_depth_def unat_sat_sub)

lemma unat_min_word: "unat (min a b) = min (unat a) (unat b)" for a b :: "'l::len word"
  by (simp add: min_def word_le_nat_alt)

lemma remaining_derive:
  "unat (remaining_spawn_depth (derive_child p r)) \<le> unat (remaining_spawn_depth p) - 1"
  using unat_u32_le [of "wp_max_spawn_depth p"]
  by (simp add: unat_remaining derive_child_def unat_sat_add unat_min_word)

lemma remaining_derive_le: "remaining_spawn_depth (derive_child p r) \<le> remaining_spawn_depth p"
  using remaining_derive [of p r] by (simp add: word_le_nat_alt)

lemma derive_child_simps [simp]:
  "wp_permissions (derive_child p r) = perms_intersect (wp_permissions p) (wp_permissions r)"
  "wp_shell (derive_child p r) = policy_min_with (wp_shell p) (wp_shell r)"
  "wp_tools (derive_child p r) = narrow_tools (wp_tools p) (wp_tools r)"
  "wp_denied_tools (derive_child p r) = union_denied (wp_denied_tools p) (wp_denied_tools r)"
  "wp_wall_time_secs (derive_child p r) = narrow_optional_limit (wp_wall_time_secs p) (wp_wall_time_secs r)"
  "wp_wall_deadline_ms (derive_child p r) = narrow_optional_limit (wp_wall_deadline_ms p) (wp_wall_deadline_ms r)"
  "wp_max_steps (derive_child p r) = narrow_model_steps (wp_max_steps p) (wp_max_steps r)"
  "wp_max_spawn_depth (derive_child p r) = min (wp_max_spawn_depth r) (wp_max_spawn_depth p)"
  by (simp_all add: derive_child_def)

lemma profile_le_refl: "profile_le p p"
  by (simp add: profile_le_def perms_meet.order_refl scope_meet.order_refl denied_meet.order_refl
      limit_meet.order_refl steps_meet.order_refl)

lemma profile_le_trans: "profile_le a b \<Longrightarrow> profile_le b c \<Longrightarrow> profile_le a c"
  unfolding profile_le_def
  by (blast intro: perms_meet.order_trans scope_meet.order_trans denied_meet.order_trans
      limit_meet.order_trans steps_meet.order_trans order_trans)

lemma derive_child_le: "profile_le (derive_child p r) p"
  by (simp add: profile_le_def perms_meet.meet_le1 scope_meet.meet_le1 denied_meet.meet_le1
      limit_meet.meet_le1 steps_meet.meet_le1 policy_meet.meet_le1 remaining_derive_le)

interpretation delegation: derivation derive_child profile_le
  by unfold_locales (fact profile_le_refl, erule profile_le_trans, assumption, fact derive_child_le)

definition delegate :: "WorkerRuntimeProfile list \<Rightarrow> WorkerRuntimeProfile \<Rightarrow> WorkerRuntimeProfile" where
  "delegate requests root = fold (\<lambda>r p. derive_child p r) requests root"

lemma delegate_le: "profile_le (delegate requests root) root"
  unfolding delegate_def by (rule delegation.chain_le)

lemma delegate_snoc: "delegate (rs @ [r]) root = derive_child (delegate rs root) r"
  by (simp add: delegate_def)

lemma remaining_delegate:
  "unat (remaining_spawn_depth (delegate rs root)) \<le> unat (remaining_spawn_depth root) - length rs"
proof (induction rs rule: rev_induct)
  case Nil
  show ?case by (simp add: delegate_def)
next
  case (snoc r rs)
  then show ?case using remaining_derive [of "delegate rs root" r] by (simp add: delegate_snoc)
qed

lemma can_spawn_remaining: "can_spawn_child p \<longleftrightarrow> 0 < unat (remaining_spawn_depth p)"
  by (simp add: can_spawn_child_def unat_remaining word_less_nat_alt)

text \<open>\<open>request_le child r\<close>: the child holds no more than the request asked for.\<close>

definition request_le :: "WorkerRuntimeProfile \<Rightarrow> WorkerRuntimeProfile \<Rightarrow> bool" where
  "request_le c r \<longleftrightarrow> perms_le (wp_permissions c) (wp_permissions r) \<and> wp_shell c \<le> wp_shell r
     \<and> scope_le (wp_tools c) (wp_tools r) \<and> denied_le (wp_denied_tools c) (wp_denied_tools r)
     \<and> limit_le (wp_wall_time_secs c) (wp_wall_time_secs r)
     \<and> limit_le (wp_wall_deadline_ms c) (wp_wall_deadline_ms r)
     \<and> steps_le (wp_max_steps c) (wp_max_steps r)
     \<and> wp_max_spawn_depth c \<le> wp_max_spawn_depth r"

lemma derive_request_le: "request_le (derive_child p r) r"
  by (simp add: request_le_def perms_meet.meet_le2 scope_meet.meet_le2 denied_meet.meet_le2
      limit_meet.meet_le2 steps_meet.meet_le2 policy_meet.meet_le2)

lemma profile_request_trans: "profile_le a b \<Longrightarrow> request_le b r \<Longrightarrow> request_le a r"
  unfolding profile_le_def request_le_def
  by (blast intro: perms_meet.order_trans scope_meet.order_trans denied_meet.order_trans
      limit_meet.order_trans steps_meet.order_trans order_trans)

lemma delegate_append: "delegate (xs @ ys) root = delegate ys (delegate xs root)"
  by (simp add: delegate_def)

lemma delegate_request_le: "r \<in> set rs \<Longrightarrow> request_le (delegate rs root) r"
proof -
  assume "r \<in> set rs"
  then obtain xs ys where rs: "rs = xs @ r # ys" by (meson split_list)
  have "delegate rs root = delegate ys (derive_child (delegate xs root) r)"
    by (simp add: rs delegate_def)
  with delegate_le derive_request_le show ?thesis by (metis profile_request_trans)
qed

section \<open>Deny lists\<close>

lemma ceiling_denials_antitone: "ceiling_le c c' \<Longrightarrow> set (ceiling_denials c') \<subseteq> set (ceiling_denials c)"
  by (cases "pc_shell c'"; cases "pc_shell c")
    (auto simp: ceiling_le_def ceiling_denials_def less_eq_ShellCeiling_def)

lemma tool_denied_member: "t \<in> set rs \<Longrightarrow> tool_denied (Some rs) t"
  by (auto simp: tool_denied_def intro: exact_rule_matches)

lemma exec_shell_denies_bash: "''exec_shell'' \<in> set rs \<Longrightarrow> tool_matches_any_rule rs ''Bash''"
  by (rule alias_rule_matches [where b = "''exec_shell''" and r = "''exec_shell''"]; (assumption | code_simp))

lemma write_file_denies_file: "''write_file'' \<in> set rs \<Longrightarrow> tool_matches_any_rule rs ''File''"
  by (rule alias_rule_matches [where b = "''write_file''" and r = "''write_file''"]; (assumption | code_simp))

lemma not_bash_list:
  "list_all (\<lambda>t. \<not> eq_ignore_ascii_case t ''Bash'')
     (MUTATING_TOOL_DENYLIST @ NON_SHELL_EXECUTION_DENYLIST @ tl RAW_SHELL_DENYLIST)"
  by code_simp

lemma raw_shell_head: "RAW_SHELL_DENYLIST = ''Bash'' # tl RAW_SHELL_DENYLIST"
  by (simp add: RAW_SHELL_DENYLIST_def)

lemma tl_raw_shell: "t \<in> set (tl RAW_SHELL_DENYLIST) \<Longrightarrow> t \<in> set RAW_SHELL_DENYLIST"
  by (subst raw_shell_head) (rule list.set_intros(2))

lemma exec_shell_in_tl: "''exec_shell'' \<in> set (tl RAW_SHELL_DENYLIST)"
  by (simp add: RAW_SHELL_DENYLIST_def)

definition mutation_lists :: "string list" where
  "mutation_lists = MUTATING_TOOL_DENYLIST @ NON_SHELL_EXECUTION_DENYLIST @ tl RAW_SHELL_DENYLIST"

lemma from_runtime_role_denials:
  assumes "\<not> perm_write (wp_permissions (profile_for_role (runtime_role_for_member role)))"
  shows "set mutation_lists \<subseteq> set (ca_disallowed_tools (from_runtime_role role session))"
proof -
  let ?a = "(authority_clamp (runtime_permission_ceiling (runtime_role_for_member role)) session)"
  have "\<not> pc_write (ca_ceiling ?a)"
    using assms by (simp add: authority_clamp_def Let_def clamp_to_def runtime_permission_ceiling_def)
  then have "set mutation_lists \<subseteq> set (ca_disallowed_tools ?a)"
    using tl_raw_shell by (auto simp: authority_clamp_def Let_def ceiling_denials_def mutation_lists_def)
  moreover have "\<not> eq_ignore_ascii_case t ''Bash''" if "t \<in> set mutation_lists" for t
    using not_bash_list that by (simp add: list_all_iff mutation_lists_def)
  ultimately show ?thesis by (auto simp: from_runtime_role_def Let_def)
qed

section \<open>Properties\<close>

text \<open>C22. Delegation never escalates: along any chain of delegations, with any requests, a descendant
  holds no more than the root in any authority component (write and network permission, shell
  policy, tool scope, wall time and deadline, model steps, depth ceiling and remaining depth) and
  keeps every deny rule; and it holds no more than any request on the way asked for.\<close>

theorem delegation_never_escalates:
  "profile_le (delegate requests root) root \<and> list_all (request_le (delegate requests root)) requests"
  by (auto simp: list_all_iff delegate_le intro: delegate_request_le)

text \<open>A denied tool stays denied: what a profile denies under any ASCII-case spelling, every
  descendant of it denies.\<close>

theorem inherited_denial_sticks:
  assumes "profile_denies p t" and "to_ascii_lowercase t' = to_ascii_lowercase t"
  shows "profile_denies (delegate requests p) t'"
proof -
  have sub: "set (wp_denied_tools p) \<subseteq> set (wp_denied_tools (delegate requests p))"
    using delegate_le [of requests p] by (simp add: profile_le_def denied_le_def)
  from assms(1) have "profile_denies (delegate requests p) t"
    unfolding profile_denies_def by (rule tool_denied_mono [OF sub])
  then show ?thesis unfolding profile_denies_def tool_denied_case [OF assms(2)] .
qed

theorem inherited_denial_sticks_witness:
  "profile_denies (delegate [profile_for_role Builder]
     ((profile_for_role Worker)\<lparr>wp_denied_tools := [''exec_shell'']\<rparr>)) ''BASH''"
proof (rule inherited_denial_sticks)
  have "tool_denied (Some [''exec_shell'']) ''bash''" by code_simp
  then show "profile_denies ((profile_for_role Worker)\<lparr>wp_denied_tools := [''exec_shell'']\<rparr>) ''bash''"
    by (simp add: profile_denies_def)
qed code_simp

text \<open>C23. Delegation ends: when every profile on a chain may still spawn, the chain is no longer than
  the root's remaining depth; a profile may spawn exactly while its remaining depth is positive.\<close>

theorem delegation_depth_bounded:
  assumes "list_all (\<lambda>k. can_spawn_child (delegate (take k requests) root)) [0..<length requests]"
  shows "length requests \<le> unat (remaining_spawn_depth root)"
proof (cases "requests = []")
  case False
  let ?k = "length requests - 1"
  from False assms have "can_spawn_child (delegate (take ?k requests) root)"
    by (simp add: list_all_iff)
  then show ?thesis
    using remaining_delegate [of "take ?k requests" root] False
    by (simp add: can_spawn_remaining)
qed simp

theorem delegation_depth_bounded_witness:
  "length [profile_for_role Scout, profile_for_role Scout]
     \<le> unat (remaining_spawn_depth ((profile_for_role Worker)\<lparr>wp_max_spawn_depth := 2\<rparr>))"
proof (rule delegation_depth_bounded)
  let ?root = "(profile_for_role Worker)\<lparr>wp_max_spawn_depth := 2\<rparr>"
  have root: "wp_max_spawn_depth ?root = 2" "wp_spawn_depth ?root = 0"
    and scout: "wp_max_spawn_depth (profile_for_role Scout) = - 1"
    by (simp_all add: profile_for_role_def DEFAULT_SPAWN_DEPTH_def)
  have "sat_add 0 (1 :: u32) = 1" by (simp add: word_unat_eq_iff unat_sat_add)
  moreover have "(1 :: u32) < - 1" by (simp add: order_less_le)
  ultimately have "can_spawn_child ?root" "can_spawn_child (derive_child ?root (profile_for_role Scout))"
    using root scout by (simp_all add: can_spawn_child_def derive_child_def min_def)
  then show "list_all (\<lambda>k. can_spawn_child (delegate (take k [profile_for_role Scout, profile_for_role Scout]) ?root))
      [0..<length [profile_for_role Scout, profile_for_role Scout]]"
    by (simp add: delegate_def numeral_2_eq_2)
qed

text \<open>A child authority never exceeds either side and narrowing gives nothing back: its ceiling is
  below the requested and the session ceiling, and when either side is narrowed, every tool name
  that was denied (directly, by glob or by alias) is still denied.\<close>

theorem child_authority_antitone:
  assumes "ceiling_le r r'" and "ceiling_le s s'"
  shows "ceiling_le (ca_ceiling (authority_clamp r s)) r \<and> ceiling_le (ca_ceiling (authority_clamp r s)) s
    \<and> (\<not> tool_denied (Some (ca_disallowed_tools (authority_clamp r' s'))) t
       \<or> tool_denied (Some (ca_disallowed_tools (authority_clamp r s))) t)"
proof -
  have "set (ceiling_denials (clamp_to r' s')) \<subseteq> set (ceiling_denials (clamp_to r s))"
    using ceiling_meet.meet_mono [OF assms] by (rule ceiling_denials_antitone)
  then show ?thesis
    using tool_denied_mono by (auto simp: authority_clamp_def Let_def ceiling_meet.meet_le1 ceiling_meet.meet_le2)
qed

theorem child_authority_antitone_witness:
  "tool_denied (Some (ca_disallowed_tools (authority_clamp ROUTER ROUTER))) ''web_search''"
proof -
  have "ceiling_le ROUTER (runtime_permission_ceiling Scout)" "ceiling_le ROUTER ROUTER" by code_simp+
  moreover have "tool_denied (Some (ca_disallowed_tools
      (authority_clamp (runtime_permission_ceiling Scout) ROUTER))) ''web_search''" by code_simp
  ultimately show ?thesis
    using child_authority_antitone [of ROUTER "runtime_permission_ceiling Scout" ROUTER ROUTER "''web_search''"]
    by blast
qed

text \<open>An undeclared role label carries no write authority: a non-blank label that is neither a
  role, a legacy spelling nor an organisation-chart alias runs as \<open>explore\<close>, with write authority
  \<open>read_only\<close> whatever the session allows, and every mutating file tool, execution primitive and
  raw-shell name is denied.\<close>

theorem unknown_role_fails_closed:
  assumes "to_ascii_lowercase (trim label) \<noteq> []"
    and "role_parse (to_ascii_lowercase (trim label)) = None"
    and "member_role_alias (to_ascii_lowercase (trim label)) = None"
  shows "let a = from_runtime_role label session in
    ca_posture_role a = ''explore'' \<and> ca_write_authority a = ''read_only'' \<and> \<not> pc_write (ca_ceiling a)
    \<and> list_all (tool_denied (Some (ca_disallowed_tools a)))
        (MUTATING_TOOL_DENYLIST @ NON_SHELL_EXECUTION_DENYLIST @ RAW_SHELL_DENYLIST)"
proof -
  from assms have role: "runtime_role_for_member label = Scout"
    by (simp add: runtime_role_for_member_def Let_def)
  let ?D = "ca_disallowed_tools (from_runtime_role label session)"
  have sub: "set mutation_lists \<subseteq> set ?D"
    by (rule from_runtime_role_denials)
      (simp add: role profile_for_role_def perms_read_only_with_network_def)
  have "tool_denied (Some ?D) t" if "t \<in> set mutation_lists" for t
    using that sub by (auto intro: tool_denied_member)
  moreover have "tool_denied (Some ?D) ''Bash''"
    using sub exec_shell_in_tl exec_shell_denies_bash [of ?D]
    by (auto simp: mutation_lists_def tool_denied_def)
  ultimately have "list_all (tool_denied (Some ?D))
      (MUTATING_TOOL_DENYLIST @ NON_SHELL_EXECUTION_DENYLIST @ RAW_SHELL_DENYLIST)"
    by (subst raw_shell_head) (auto simp: list_all_iff mutation_lists_def)
  moreover have "\<not> pc_write (runtime_permission_ceiling Scout)" by code_simp
  ultimately show ?thesis
    by (simp add: Let_def from_runtime_role_def role authority_clamp_def clamp_to_def)
qed

theorem unknown_role_fails_closed_witness:
  "ca_write_authority (from_runtime_role ''auditor'' (runtime_permission_ceiling Worker)) = ''read_only''"
  by (rule unknown_role_fails_closed [unfolded Let_def, THEN conjunct2, THEN conjunct1]) code_simp+

text \<open>A child grant stays inside both the role's preset and the profile: files, shell and network
  never exceed what the role may hold nor what the profile allows; the desktop is never granted; an
  empty explicit scope grants no file access; and a profile that denies the shell-authority sentinel
  leaves at most classifier-bounded inspection.\<close>

theorem grant_resolve_bounded:
  "let g = grant_resolve role profile scope can_spawn in
     cg_files g \<le> cg_files (grant_for_role role)
     \<and> cg_files g \<le> (if perm_write (wp_permissions profile) then FilesWrite else FilesRead)
     \<and> cg_shell g \<le> cg_shell (grant_for_role role)
     \<and> cg_shell g \<le> profile_shell_grant (wp_shell profile)
     \<and> (\<not> cg_network g \<or> perm_network (wp_permissions profile) \<and> \<not> profile_denies profile ''fetch_url'')
     \<and> \<not> cg_desktop g
     \<and> (scope \<noteq> Some [] \<or> cg_files g = FilesNone)
     \<and> (\<not> profile_denies profile ''run_tests'' \<or> cg_shell g \<le> GrantInspect)"
proof -
  have none: "GrantNone \<le> s" for s by (simp add: less_eq_ShellGrant_def)
  have none': "FilesNone \<le> f" for f by (simp add: less_eq_FileGrant_def)
  show ?thesis
    by (auto simp: grant_resolve_def Let_def none none' SHELL_AUTHORITY_SENTINEL_def
        NETWORK_DENIAL_SENTINEL_def min_le_iff_disj) (metis min.cobounded1 min.cobounded2)+
qed

text \<open>The role vocabulary is closed and self-consistent: the advertised schema values are the
  labels of all roles, every label parses back to its role, every legacy spelling is accepted and
  means the role it migrates to, and no legacy spelling is itself advertised.\<close>

theorem role_vocabulary:
  "map role_str role_all = FLEET_ROLE_SCHEMA_VALUES
   \<and> list_all (\<lambda>r. role_parse (role_str r) = Some r) role_all
   \<and> list_all (\<lambda>(legacy, label). role_parse legacy \<noteq> None \<and> role_parse legacy = role_parse label
        \<and> public_role_label legacy = label \<and> \<not> List.member FLEET_ROLE_SCHEMA_VALUES legacy) legacy_role_table
   \<and> r \<in> set role_all"
proof -
  have "map role_str role_all = FLEET_ROLE_SCHEMA_VALUES" by code_simp
  moreover have "list_all (\<lambda>r. role_parse (role_str r) = Some r) role_all" by code_simp
  moreover have "list_all (\<lambda>(legacy, label). role_parse legacy \<noteq> None \<and> role_parse legacy = role_parse label
        \<and> public_role_label legacy = label \<and> \<not> List.member FLEET_ROLE_SCHEMA_VALUES legacy) legacy_role_table"
    by code_simp
  moreover have "r \<in> set role_all" by (cases r) (simp_all add: role_all_def)
  ultimately show ?thesis by blast
qed

text \<open>A receipt never overstates a read-only role: the effective permissions of a scout, reviewer
  or planner never report a full shell, whatever profile was requested, and in general a receipt
  reports exactly the requested permissions with at most that shell.\<close>

theorem effective_permissions_truthful:
  "let f = fleet_effective_permissions role requested profile_id origin in
     (\<not> role_requires_read_only_shell role \<or> fe_shell f \<noteq> ''full'')
     \<and> fe_write f = perm_write (wp_permissions requested)
     \<and> fe_network f = perm_network (wp_permissions requested)
     \<and> wp_shell (effective_runtime_profile_for_role role requested) \<le> wp_shell requested
     \<and> fe_shell f = shell_policy_label (wp_shell (effective_runtime_profile_for_role role requested))"
  by (cases "wp_shell requested")
    (auto simp: fleet_effective_permissions_def Let_def effective_runtime_profile_for_role_def
      allows_shell_def less_eq_ShellPolicy_def)

section \<open>Where the deny lists and the shared matcher disagree with their comments\<close>

text \<open>Denying writes denies the whole \<open>File\<close> family: the mutating list is documented to name only
  action aliases so that reading through \<open>File\<close> survives, but the shared matcher folds \<open>write_file\<close>
  onto \<open>File\<close>; and removing \<open>Bash\<close> from an explore child's list leaves it denied, because
  \<open>exec_shell\<close> stays on the list and is an alias of \<open>Bash\<close>.\<close>

theorem alias_folding_widens_denials:
  "let explore = from_runtime_role ''explore'' (runtime_permission_ceiling Worker);
       denied = Some (ca_disallowed_tools explore)
   in tool_denied denied ''File'' \<and> \<not> List.member (ca_disallowed_tools explore) ''File''
      \<and> tool_denied denied ''Bash'' \<and> \<not> List.member (ca_disallowed_tools explore) ''Bash''
      \<and> \<not> tool_denied denied ''read''"
proof -
  have explore: "ca_disallowed_tools (from_runtime_role ''explore'' (runtime_permission_ceiling Worker))
      = tl RAW_SHELL_DENYLIST @ MUTATING_TOOL_DENYLIST @ NON_SHELL_EXECUTION_DENYLIST"
    by code_simp
  show ?thesis unfolding explore Let_def by code_simp
qed

text \<open>A narrower profile can resolve to a wider shell grant: under the same denied verification
  surface a full-shell worker resolves to no shell at all, while the explore child derived from its
  profile resolves to bounded inspection, which the parent's own grant does not hold.\<close>

theorem grant_not_monotone:
  "let parent = (profile_for_role Worker)\<lparr>wp_denied_tools := [''run_tests'']\<rparr>;
       child = derive_child parent (profile_for_role Scout)
   in cg_shell (grant_resolve Worker parent None True) = GrantNone
      \<and> cg_shell (grant_resolve Scout child None True) = GrantInspect"
proof -
  have "tool_denied (Some [''run_tests'']) ''run_tests''" by code_simp
  then show ?thesis
    by (simp add: Let_def grant_resolve_def grant_for_role_def profile_denies_def profile_for_role_def
        derive_child_def union_denied_def SHELL_AUTHORITY_SENTINEL_def policy_min_with_def
        min_def less_eq_ShellGrant_def)
qed

end
