(* ===== verification/Journal.thy ===== *)
theory Journal
  imports Turns
begin

text \<open>
  The append-only session journal of \<open>crates/runtime/src/session_tree.rs\<close>: entries linked by
  parent ids, a leaf that selects the active branch, re-branching onto an edited
  conversation, and bounded pruning.

  Fresh UUIDs and clock readings are arguments: an operation that appends one entry takes the
  new id and the time, one that appends several takes them as functions of the message's
  index. That an id is fresh is a hypothesis where a lemma needs it. A \<open>DateTime<Utc>\<close> is
  the type parameter \<open>'t\<close>, because the code only copies it. A \<open>HashMap\<close> collected from
  the entries keeps the last entry of an id, a \<open>find\<close> over the entries the first one; the
  two agree when ids are distinct, and imported journals need not have distinct ids.
\<close>

definition CURRENT_JOURNAL_SCHEMA_VERSION :: u32 where
  "CURRENT_JOURNAL_SCHEMA_VERSION = 1"

type_synonym EntryId = string

datatype 'j SessionEntryKind =
    EkMessage "'j Message"
  | EkUser string
  | EkAssistant string
  | EkCompaction string "u64 option" "u64 option" "string option"
  | EkBranchSummary string string "string option"
  | EkSystem string

definition is_contextual :: "'j SessionEntryKind \<Rightarrow> bool" where
  "is_contextual k = (case k of EkMessage _ \<Rightarrow> True | EkUser _ \<Rightarrow> True | EkAssistant _ \<Rightarrow> True | _ \<Rightarrow> False)"

fun as_message :: "'j SessionEntryKind \<Rightarrow> 'j Message option" where
  "as_message (EkMessage m) = Some m"
| "as_message (EkUser t) = Some \<lparr>msg_role = RoleUser, msg_content = [CbText t None]\<rparr>"
| "as_message (EkAssistant t) = Some \<lparr>msg_role = RoleAssistant, msg_content = [CbText t None]\<rparr>"
| "as_message (EkCompaction summary _ _ _) =
     Some \<lparr>msg_role = RoleSystem, msg_content = [CbText (''[compaction summary] '' @ summary) None]\<rparr>"
| "as_message (EkBranchSummary _ summary _) =
     Some \<lparr>msg_role = RoleSystem, msg_content = [CbText (''[branch summary] '' @ summary) None]\<rparr>"
| "as_message (EkSystem c) = Some \<lparr>msg_role = RoleSystem, msg_content = [CbText c None]\<rparr>"

definition projects_to :: "'j SessionEntryKind \<Rightarrow> 'j Message \<Rightarrow> bool" where
  "projects_to k m = (case k of EkMessage own \<Rightarrow> same_recorded_turn own m
                      | other \<Rightarrow> as_message other = Some m)"

record ('j, 't) SessionEntry =
  se_id :: EntryId
  se_parent_id :: "EntryId option"
  se_kind :: "'j SessionEntryKind"
  se_created_at :: 't
  se_spawn_depth :: u32

definition session_entry_new ::
  "EntryId \<Rightarrow> 't \<Rightarrow> 'j SessionEntryKind \<Rightarrow> EntryId option \<Rightarrow> u32 \<Rightarrow> ('j, 't) SessionEntry" where
  "session_entry_new uuid now kind parent depth =
     \<lparr>se_id = uuid, se_parent_id = parent, se_kind = kind, se_created_at = now, se_spawn_depth = depth\<rparr>"

record Rebranch =
  rb_previous_active :: nat
  rb_shared_prefix :: nat
  rb_kept_recorded_metadata :: bool

definition replaced_from_root :: "Rebranch \<Rightarrow> bool" where
  "replaced_from_root r \<longleftrightarrow> 0 < rb_previous_active r \<and> rb_shared_prefix r = 0"

record ('j, 't) SessionJournal =
  sj_entries :: "('j, 't) SessionEntry list"
  sj_leaf_id :: "EntryId option"
  sj_schema_version :: u32
  sj_spawn_depth :: u32

section \<open>Construction and appending\<close>

definition journal_new :: "('j, 't) SessionJournal" where
  "journal_new = \<lparr>sj_entries = [], sj_leaf_id = None,
     sj_schema_version = CURRENT_JOURNAL_SCHEMA_VERSION, sj_spawn_depth = 0\<rparr>"

definition with_spawn_depth :: "u32 \<Rightarrow> ('j, 't) SessionJournal" where
  "with_spawn_depth depth = journal_new\<lparr>sj_spawn_depth := depth\<rparr>"

definition append_stamped ::
  "EntryId \<Rightarrow> 'j SessionEntryKind \<Rightarrow> 't \<Rightarrow> ('j, 't) SessionJournal \<Rightarrow> EntryId \<times> ('j, 't) SessionJournal" where
  "append_stamped uuid kind created_at j =
     (let entry = session_entry_new uuid created_at kind (sj_leaf_id j) (sj_spawn_depth j)
      in (uuid, j\<lparr>sj_entries := sj_entries j @ [entry], sj_leaf_id := Some uuid\<rparr>))"

definition append_message ::
  "EntryId \<Rightarrow> 't \<Rightarrow> 'j Message \<Rightarrow> ('j, 't) SessionJournal \<Rightarrow> EntryId \<times> ('j, 't) SessionJournal" where
  "append_message uuid now m = append_stamped uuid (EkMessage m) now"

definition append_compaction ::
  "EntryId \<Rightarrow> 't \<Rightarrow> string \<Rightarrow> u64 option \<Rightarrow> u64 option \<Rightarrow> string option \<Rightarrow> ('j, 't) SessionJournal
     \<Rightarrow> EntryId \<times> ('j, 't) SessionJournal" where
  "append_compaction uuid now summary before after model =
     append_stamped uuid (EkCompaction summary before after model) now"

definition append_branch_summary ::
  "EntryId \<Rightarrow> 't \<Rightarrow> string \<Rightarrow> string \<Rightarrow> string option \<Rightarrow> ('j, 't) SessionJournal
     \<Rightarrow> EntryId \<times> ('j, 't) SessionJournal" where
  "append_branch_summary uuid now branch summary parent =
     append_stamped uuid (EkBranchSummary branch summary parent) now"

section \<open>Selecting a branch\<close>

definition entry_ids :: "('j, 't) SessionEntry list \<Rightarrow> EntryId list" where
  "entry_ids es = map se_id es"

definition journal_contains :: "('j, 't) SessionJournal \<Rightarrow> EntryId \<Rightarrow> bool" where
  "journal_contains j i \<longleftrightarrow> list_ex (\<lambda>e. se_id e = i) (sj_entries j)"

definition branch_to ::
  "EntryId \<Rightarrow> ('j, 't) SessionJournal \<Rightarrow> (string + unit) \<times> ('j, 't) SessionJournal" where
  "branch_to i j =
     (if list_ex (\<lambda>e. se_id e = i) (sj_entries j)
      then (Inr (), j\<lparr>sj_leaf_id := Some i\<rparr>)
      else (Inl (''entry '' @ i @ '' not found''), j))"

definition fork_from ::
  "EntryId option \<Rightarrow> ('j, 't) SessionJournal \<Rightarrow> string + ('j, 't) SessionJournal" where
  "fork_from source j =
     (let fork = (\<lambda>leaf. \<lparr>sj_entries = sj_entries j, sj_leaf_id = leaf,
                    sj_schema_version = sj_schema_version j,
                    sj_spawn_depth = sat_add (sj_spawn_depth j) 1\<rparr>)
      in case source of
           Some i \<Rightarrow> (if \<not> list_ex (\<lambda>e. se_id e = i) (sj_entries j)
                      then Inl (''fork source '' @ i @ '' not found'')
                      else Inr (fork (Some i)))
         | None \<Rightarrow> Inr (fork (sj_leaf_id j)))"

definition index_of :: "('j, 't) SessionEntry list \<Rightarrow> EntryId \<rightharpoonup> ('j, 't) SessionEntry" where
  "index_of es = map_of (rev (map (\<lambda>e. (se_id e, e)) es))"

definition children_of :: "('j, 't) SessionJournal \<Rightarrow> EntryId option \<Rightarrow> ('j, 't) SessionEntry list" where
  "children_of j parent = filter (\<lambda>e. se_parent_id e = parent) (sj_entries j)"

definition leaf_entry :: "('j, 't) SessionJournal \<Rightarrow> ('j, 't) SessionEntry option" where
  "leaf_entry j = (case sj_leaf_id j of None \<Rightarrow> None
                   | Some i \<Rightarrow> List.find (\<lambda>e. se_id e = i) (sj_entries j))"

lemma index_of_SomeD: "index_of es i = Some e \<Longrightarrow> e \<in> set es \<and> se_id e = i"
  by (auto simp: index_of_def dest!: map_of_SomeD)

text \<open>The walk from a cursor towards the root, leaf first. The set of visited ids makes it
  stop on the parent cycles an imported journal may hold.\<close>

function (sequential) walk_up ::
  "('j, 't) SessionEntry list \<Rightarrow> EntryId list \<Rightarrow> EntryId option \<Rightarrow> ('j, 't) SessionEntry list" where
  "walk_up es seen None = []"
| "walk_up es seen (Some i) =
     (if i \<in> set seen then []
      else case index_of es i of
        Some e \<Rightarrow> e # walk_up es (i # seen) (se_parent_id e)
      | None \<Rightarrow> [])"
  by pat_completeness auto
termination
proof (relation "measure (\<lambda>(es, seen, _). card (set (entry_ids es) - set seen))", goal_cases)
  case (2 es seen i e)
  then have "i \<in> set (entry_ids es) - set seen"
    using index_of_SomeD [of es i e] by (auto simp: entry_ids_def)
  then have "set (entry_ids es) - set (i # seen) \<subset> set (entry_ids es) - set seen" by auto
  then show ?case by (simp add: psubset_card_mono)
qed simp

definition root_to_leaf :: "('j, 't) SessionJournal \<Rightarrow> ('j, 't) SessionEntry list" where
  "root_to_leaf j = rev (walk_up (sj_entries j) [] (sj_leaf_id j))"

definition active_messages :: "('j, 't) SessionJournal \<Rightarrow> bool \<Rightarrow> 'j Message list" where
  "active_messages j include_system =
     List.map_filter (\<lambda>e. if \<not> include_system \<and> \<not> is_contextual (se_kind e) then None
                          else as_message (se_kind e)) (root_to_leaf j)"

definition to_messages :: "('j, 't) SessionJournal \<Rightarrow> 'j Message list" where
  "to_messages j = active_messages j True"

definition parent_ids :: "('j, 't) SessionEntry list \<Rightarrow> EntryId list" where
  "parent_ids es = List.map_filter se_parent_id es"

definition leaves :: "('j, 't) SessionJournal \<Rightarrow> ('j, 't) SessionEntry list" where
  "leaves j = filter (\<lambda>e. se_id e \<notin> set (parent_ids (sj_entries j))) (sj_entries j)"

definition journal_is_empty :: "('j, 't) SessionJournal \<Rightarrow> bool" where
  "journal_is_empty j \<longleftrightarrow> sj_entries j = []"

definition journal_len :: "('j, 't) SessionJournal \<Rightarrow> nat" where
  "journal_len j = length (sj_entries j)"

definition missing_parent :: "EntryId list \<Rightarrow> ('j, 't) SessionEntry \<Rightarrow> bool" where
  "missing_parent ids e = (case se_parent_id e of None \<Rightarrow> False | Some p \<Rightarrow> p \<notin> set ids)"

definition validate :: "('j, 't) SessionJournal \<Rightarrow> string + unit" where
  "validate j =
     (let ids = entry_ids (sj_entries j) in
      case List.find (missing_parent ids) (sj_entries j) of
        Some e \<Rightarrow> Inl (''entry '' @ se_id e @ '' missing parent '' @ the (se_parent_id e))
      | None \<Rightarrow>
          (case sj_leaf_id j of
             None \<Rightarrow> Inr ()
           | Some leaf \<Rightarrow> (if leaf \<notin> set ids then Inl (''leaf '' @ leaf @ '' not found'') else Inr ())))"

section \<open>Bulk appends\<close>

text \<open>\<open>append_from\<close> is the loop over \<open>messages.iter().enumerate().skip(n)\<close>: message number
  \<open>i\<close> gets the stamp \<open>stamps.get(i)\<close> or the clock.\<close>

definition stamp_at :: "'t list \<Rightarrow> (nat \<Rightarrow> 't) \<Rightarrow> nat \<Rightarrow> 't" where
  "stamp_at stamps now i = (if i < length stamps then stamps ! i else now i)"

fun append_from ::
  "(nat \<Rightarrow> EntryId) \<Rightarrow> (nat \<Rightarrow> 't) \<Rightarrow> 't list \<Rightarrow> nat \<Rightarrow> 'j Message list
     \<Rightarrow> ('j, 't) SessionJournal \<Rightarrow> ('j, 't) SessionJournal" where
  "append_from uuid now stamps i [] j = j"
| "append_from uuid now stamps i (m # ms) j =
     append_from uuid now stamps (Suc i) ms
       (snd (append_stamped (uuid i) (EkMessage m) (stamp_at stamps now i) j))"

definition from_messages_stamped ::
  "(nat \<Rightarrow> EntryId) \<Rightarrow> (nat \<Rightarrow> 't) \<Rightarrow> 'j Message list \<Rightarrow> 't list \<Rightarrow> u32 \<Rightarrow> ('j, 't) SessionJournal" where
  "from_messages_stamped uuid now messages stamps depth =
     append_from uuid now stamps 0 messages (with_spawn_depth depth)"

definition from_messages ::
  "(nat \<Rightarrow> EntryId) \<Rightarrow> (nat \<Rightarrow> 't) \<Rightarrow> 'j Message list \<Rightarrow> u32 \<Rightarrow> ('j, 't) SessionJournal" where
  "from_messages uuid now messages depth =
     append_from uuid now [] 0 messages (with_spawn_depth depth)"

section \<open>Re-branching onto an edited conversation\<close>

text \<open>The ids that occur as a parent for the second time or later: the entries where the
  history forks.\<close>

fun repeated :: "string list \<Rightarrow> string list \<Rightarrow> string list" where
  "repeated seen [] = []"
| "repeated seen (p # ps) = (if p \<in> set seen then p # repeated seen ps else repeated (p # seen) ps)"

definition rposition :: "('a \<Rightarrow> bool) \<Rightarrow> 'a list \<Rightarrow> nat option" where
  "rposition P xs = map_option fst (List.find (\<lambda>(_, x). P x) (rev (enumerate 0 xs)))"

definition protected_prefix ::
  "('j, 't) SessionEntry list \<Rightarrow> ('j, 't) SessionEntry list \<Rightarrow> nat" where
  "protected_prefix es path =
     (if length path = length es then 0
      else let fork_points = repeated [] (parent_ids es) in
        case rposition (\<lambda>e. se_id e \<in> set fork_points) path of
          None \<Rightarrow> 0
        | Some index \<Rightarrow> index + 1)"

record 'j RebranchScan =
  rs_shared_prefix :: nat
  rs_kept_recorded_metadata :: bool
  rs_refresh :: "EntryId \<rightharpoonup> 'j Message"

text \<open>The loop over \<open>path.iter().zip(messages)\<close>; its index equals the shared prefix so far.
  The lazily computed \<open>protected_prefix\<close> is the argument \<open>shared\<close>: its value does not
  depend on when it is computed.\<close>

fun rebranch_scan ::
  "nat \<Rightarrow> nat \<Rightarrow> (('j, 't) SessionEntry \<times> 'j Message) list \<Rightarrow> 'j RebranchScan \<Rightarrow> 'j RebranchScan" where
  "rebranch_scan shared index [] st = st"
| "rebranch_scan shared index ((entry, incoming) # rest) st =
     (let advance = (\<lambda>st'. rebranch_scan shared (Suc index) rest
                        (st'\<lparr>rs_shared_prefix := rs_shared_prefix st' + 1\<rparr>)) in
      if \<not> projects_to (se_kind entry) incoming then st
      else case se_kind entry of
        EkMessage stored \<Rightarrow>
          (if stored \<noteq> incoming
           then if length (msg_content stored) > length (msg_content incoming)
                then advance (st\<lparr>rs_kept_recorded_metadata := True\<rparr>)
                else if index < shared then st
                else advance (st\<lparr>rs_refresh := (rs_refresh st)(se_id entry \<mapsto> incoming)\<rparr>)
           else advance st)
      | _ \<Rightarrow> advance st)"

definition refresh_entry :: "(EntryId \<rightharpoonup> 'j Message) \<Rightarrow> ('j, 't) SessionEntry \<Rightarrow> ('j, 't) SessionEntry" where
  "refresh_entry refresh e =
     (case refresh (se_id e) of Some m \<Rightarrow> e\<lparr>se_kind := EkMessage m\<rparr> | None \<Rightarrow> e)"

definition rebranch_active_messages_stamped ::
  "(nat \<Rightarrow> EntryId) \<Rightarrow> (nat \<Rightarrow> 't) \<Rightarrow> 'j Message list \<Rightarrow> 't list \<Rightarrow> ('j, 't) SessionJournal
     \<Rightarrow> Rebranch \<times> ('j, 't) SessionJournal" where
  "rebranch_active_messages_stamped uuid now messages stamps j =
     (let path = root_to_leaf j;
          st = rebranch_scan (protected_prefix (sj_entries j) path) 0 (zip path messages)
                 \<lparr>rs_shared_prefix = 0, rs_kept_recorded_metadata = False, rs_refresh = Map.empty\<rparr>;
          shared = rs_shared_prefix st;
          j1 = j\<lparr>sj_leaf_id := map_option (\<lambda>i. se_id (path ! i)) (checked_sub shared 1)\<rparr>;
          j2 = j1\<lparr>sj_entries := map (refresh_entry (rs_refresh st)) (sj_entries j1)\<rparr>;
          j3 = append_from uuid now stamps shared (drop shared messages) j2
      in (\<lparr>rb_previous_active = length path, rb_shared_prefix = shared,
           rb_kept_recorded_metadata = rs_kept_recorded_metadata st\<rparr>, j3))"

definition rebranch_active_messages ::
  "(nat \<Rightarrow> EntryId) \<Rightarrow> (nat \<Rightarrow> 't) \<Rightarrow> 'j Message list \<Rightarrow> ('j, 't) SessionJournal
     \<Rightarrow> Rebranch \<times> ('j, 't) SessionJournal" where
  "rebranch_active_messages uuid now messages =
     rebranch_active_messages_stamped uuid now messages []"

section \<open>Bounded pruning\<close>

definition position_of :: "('j, 't) SessionEntry list \<Rightarrow> EntryId \<rightharpoonup> nat" where
  "position_of es = map_of (rev (zip (map se_id es) [0..<length es]))"

definition is_summary :: "('j, 't) SessionEntry \<Rightarrow> bool" where
  "is_summary e = (case se_kind e of EkCompaction _ _ _ _ \<Rightarrow> True | EkBranchSummary _ _ _ \<Rightarrow> True | _ \<Rightarrow> False)"

text \<open>\<open>keep[i] = true\<close> for each position of a list.\<close>

definition mark :: "nat list \<Rightarrow> bool list \<Rightarrow> bool list" where
  "mark positions keep = fold (\<lambda>i k. k[i := True]) positions keep"

definition active_keep :: "('j, 't) SessionJournal \<Rightarrow> bool list" where
  "active_keep j =
     mark (List.map_filter (\<lambda>e. position_of (sj_entries j) (se_id e)) (root_to_leaf j))
       (replicate (length (sj_entries j)) False)"

text \<open>The off-branch chain of a candidate: its length plus what is already kept stays within
  the budget, and the flag says whether it reached a kept entry or a root.\<close>

function (sequential) prune_chain ::
  "('j, 't) SessionEntry list \<Rightarrow> bool list \<Rightarrow> nat \<Rightarrow> nat \<Rightarrow> nat list \<Rightarrow> nat option \<Rightarrow> nat list \<times> bool" where
  "prune_chain es keep used budget chain None = (chain, True)"
| "prune_chain es keep used budget chain (Some i) =
     (if keep ! i then (chain, True)
      else if i \<in> set chain \<or> budget \<le> used + length chain then (chain, False)
      else case se_parent_id (es ! i) of
        None \<Rightarrow> (chain @ [i], True)
      | Some parent \<Rightarrow>
          (case position_of es parent of
             Some p \<Rightarrow> prune_chain es keep used budget (chain @ [i]) (Some p)
           | None \<Rightarrow> (chain @ [i], False)))"
  by pat_completeness auto
termination
  by (relation "measure (\<lambda>(_, _, used, budget, chain, _). budget - (used + length chain))") auto

definition prune_candidates :: "('j, 't) SessionEntry list \<Rightarrow> nat list" where
  "prune_candidates es =
     filter (\<lambda>i. is_summary (es ! i)) (rev [0..<length es])
     @ filter (\<lambda>i. se_id (es ! i) \<notin> set (parent_ids es)) (rev [0..<length es])"

fun prune_keep ::
  "('j, 't) SessionEntry list \<Rightarrow> nat \<Rightarrow> nat list \<Rightarrow> nat \<times> bool list \<Rightarrow> nat \<times> bool list" where
  "prune_keep es budget [] st = st"
| "prune_keep es budget (start # rest) (used, keep) =
     (if keep ! start then prune_keep es budget rest (used, keep)
      else case prune_chain es keep used budget [] (Some start) of
        (chain, closed) \<Rightarrow>
          if closed then prune_keep es budget rest (used + length chain, mark chain keep)
          else prune_keep es budget rest (used, keep))"

definition prune_plan :: "nat \<Rightarrow> nat \<Rightarrow> ('j, 't) SessionJournal \<Rightarrow> EntryId list" where
  "prune_plan dead_threshold dead_budget j =
     (let es = sj_entries j; active = root_to_leaf j in
      if length es - length active \<le> dead_threshold then []
      else let keep = snd (prune_keep es dead_budget (prune_candidates es) (0, active_keep j))
        in map (\<lambda>(e, _). se_id e) (filter (\<lambda>(_, kept). \<not> kept) (zip es keep)))"

section \<open>Atomic removal\<close>

text \<open>The drain loop: the removed entries with their positions, and the others.\<close>

fun split_removed ::
  "EntryId set \<Rightarrow> nat \<Rightarrow> ('j, 't) SessionEntry list
     \<Rightarrow> (nat \<times> ('j, 't) SessionEntry) list \<times> ('j, 't) SessionEntry list" where
  "split_removed ids position [] = ([], [])"
| "split_removed ids position (e # es) =
     (case split_removed ids (Suc position) es of
        (removed, kept) \<Rightarrow> if se_id e \<in> ids then ((position, e) # removed, kept) else (removed, e # kept))"

text \<open>\<open>Vec::insert\<close>, which shifts the tail; the positions used are in range
  (\<open>reinsert_split\<close> below).\<close>

definition vec_insert :: "nat \<times> 'a \<Rightarrow> 'a list \<Rightarrow> 'a list" where
  "vec_insert = (\<lambda>(position, x) xs. take position xs @ x # drop position xs)"

definition remove_entries ::
  "EntryId set \<Rightarrow> ('j, 't) SessionJournal \<Rightarrow> (string + nat) \<times> ('j, 't) SessionJournal" where
  "remove_entries ids j =
     (if ids = {} then (Inr 0, j)
      else case split_removed ids 0 (sj_entries j) of
        (removed, kept) \<Rightarrow>
          (let j1 = j\<lparr>sj_entries := kept\<rparr> in
           case validate j1 of
             Inl err \<Rightarrow> (Inl err, j1\<lparr>sj_entries := fold vec_insert removed (sj_entries j1)\<rparr>)
           | Inr _ \<Rightarrow> (Inr (length removed), j1)))"

section \<open>Import containers\<close>

record ('j, 't) SessionImportContainer =
  ic_format_version :: u32
  ic_source :: string
  ic_metadata :: "'j option"
  ic_entries :: "('j, 't) SessionEntry list"
  ic_leaf_id :: "EntryId option"
  ic_exported_at :: 't
  ic_spawn_depth :: u32

definition import_container_new ::
  "'t \<Rightarrow> string \<Rightarrow> ('j, 't) SessionJournal \<Rightarrow> 'j option \<Rightarrow> ('j, 't) SessionImportContainer" where
  "import_container_new now source j metadata =
     \<lparr>ic_format_version = CURRENT_JOURNAL_SCHEMA_VERSION, ic_source = source,
      ic_metadata = metadata, ic_entries = sj_entries j, ic_leaf_id = sj_leaf_id j,
      ic_exported_at = now, ic_spawn_depth = sj_spawn_depth j\<rparr>"

definition into_journal ::
  "('j, 't) SessionImportContainer \<Rightarrow> string + ('j, 't) SessionJournal" where
  "into_journal c =
     (let j = \<lparr>sj_entries = ic_entries c, sj_leaf_id = ic_leaf_id c,
               sj_schema_version = ic_format_version c, sj_spawn_depth = ic_spawn_depth c\<rparr>
      in case validate j of Inl err \<Rightarrow> Inl err | Inr _ \<Rightarrow> Inr j)"

end
