(* ===== verification/JournalPaths.thy ===== *)
theory JournalPaths
  imports Journal
begin

text \<open>
  The well-formedness invariant of a session journal, the characterisation of the active
  branch as the parent chain of the leaf, and the invariant's preservation by the operations
  that append, select and fork. \<open>JournalRebranch\<close> and \<open>JournalPrune\<close> build on it.
\<close>

section \<open>Well-formed entry lists\<close>

definition parent_in :: "EntryId list \<Rightarrow> ('j, 't) SessionEntry \<Rightarrow> bool" where
  "parent_in ids e \<longleftrightarrow> \<not> missing_parent ids e"

text \<open>Ids are distinct and a parent precedes its children.\<close>

definition entries_wf :: "('j, 't) SessionEntry list \<Rightarrow> bool" where
  "entries_wf es \<longleftrightarrow> distinct (entry_ids es)
     \<and> (\<forall>k<length es. parent_in (entry_ids (take k es)) (es ! k))"

definition cursor_ok :: "('j, 't) SessionEntry list \<Rightarrow> EntryId option \<Rightarrow> bool" where
  "cursor_ok es c \<longleftrightarrow> (case c of None \<Rightarrow> True | Some i \<Rightarrow> i \<in> set (entry_ids es))"

definition journal_ok :: "('j, 't) SessionJournal \<Rightarrow> bool" where
  "journal_ok j \<longleftrightarrow> entries_wf (sj_entries j) \<and> cursor_ok (sj_entries j) (sj_leaf_id j)"

lemma entry_ids_append [simp]: "entry_ids (xs @ ys) = entry_ids xs @ entry_ids ys"
  and entry_ids_Cons [simp]: "entry_ids (e # xs) = se_id e # entry_ids xs"
  and entry_ids_Nil [simp]: "entry_ids [] = []"
  and entry_ids_rev [simp]: "entry_ids (rev xs) = rev (entry_ids xs)"
  and set_entry_ids [simp]: "set (entry_ids xs) = se_id ` set xs"
  by (simp_all add: entry_ids_def rev_map)

lemma parent_in_iff: "parent_in ids e \<longleftrightarrow> (case se_parent_id e of None \<Rightarrow> True | Some p \<Rightarrow> p \<in> set ids)"
  by (simp add: parent_in_def missing_parent_def split: option.splits)

lemma parent_in_cursor: "parent_in (entry_ids es) e \<longleftrightarrow> cursor_ok es (se_parent_id e)"
  by (simp add: parent_in_iff cursor_ok_def)

lemma entries_wf_Nil [simp]: "entries_wf []"
  by (simp add: entries_wf_def)

lemma entries_wf_snoc [simp]:
  "entries_wf (es @ [e]) \<longleftrightarrow> entries_wf es \<and> se_id e \<notin> se_id ` set es \<and> parent_in (entry_ids es) e"
  by (auto simp: entries_wf_def nth_append less_Suc_eq)

lemma entries_wf_distinct: "entries_wf es \<Longrightarrow> distinct (entry_ids es)"
  by (simp add: entries_wf_def)

lemma entries_wf_parents: "entries_wf es \<Longrightarrow> e \<in> set es \<Longrightarrow> cursor_ok es (se_parent_id e)"
  by (induction es rule: rev_induct)
    (auto simp: parent_in_cursor cursor_ok_def split: option.splits)

lemma cursor_ok_mono: "cursor_ok es c \<Longrightarrow> se_id ` set es \<subseteq> se_id ` set es' \<Longrightarrow> cursor_ok es' c"
  by (auto simp: cursor_ok_def split: option.splits)

lemma validate_iff:
  "validate j = Inr u \<longleftrightarrow> (\<forall>e\<in>set (sj_entries j). cursor_ok (sj_entries j) (se_parent_id e))
     \<and> cursor_ok (sj_entries j) (sj_leaf_id j)"
proof -
  have miss: "missing_parent (entry_ids es) e \<longleftrightarrow> \<not> cursor_ok es (se_parent_id e)"
    for es and e :: "('a, 'b) SessionEntry"
    using parent_in_cursor [of es e] by (auto simp: parent_in_def)
  show ?thesis
    by (cases "List.find (missing_parent (entry_ids (sj_entries j))) (sj_entries j)")
      (auto simp: validate_def Let_def find_None_iff find_Some_iff miss cursor_ok_def [of _ "sj_leaf_id j"]
        split: option.splits)
qed

lemma journal_ok_validates: "journal_ok j \<Longrightarrow> validate j = Inr ()"
  by (simp add: journal_ok_def validate_iff entries_wf_parents)

section \<open>Parent chains\<close>

lemma index_of_eq:
  assumes "distinct (entry_ids es)" and "e \<in> set es"
  shows "index_of es (se_id e) = Some e"
proof -
  have "distinct (map fst (rev (map (\<lambda>e. (se_id e, e)) es)))"
    using assms(1) by (simp add: rev_map [symmetric] comp_def entry_ids_def)
  then show ?thesis using assms(2) by (auto simp: index_of_def intro!: map_of_is_SomeI)
qed

lemma index_of_None: "index_of es i = None \<longleftrightarrow> i \<notin> se_id ` set es"
  by (force simp: index_of_def map_of_eq_None_iff)

text \<open>A list of entries, leaf first, is the parent chain of a cursor.\<close>

fun linked :: "('j, 't) SessionEntry list \<Rightarrow> ('j, 't) SessionEntry list \<Rightarrow> EntryId option \<Rightarrow> bool" where
  "linked es [] c \<longleftrightarrow> c = None"
| "linked es (e # up) c \<longleftrightarrow> e \<in> set es \<and> c = Some (se_id e) \<and> linked es up (se_parent_id e)"

lemma linked_mono: "linked es up c \<Longrightarrow> set es \<subseteq> set es' \<Longrightarrow> linked es' up c"
  by (induction es up c rule: linked.induct) auto

lemma linked_subset: "linked es up c \<Longrightarrow> set up \<subseteq> set es"
  by (induction es up c rule: linked.induct) auto

lemma linked_restrict: "linked es up c \<Longrightarrow> set up \<subseteq> set es' \<Longrightarrow> linked es' up c"
  by (induction es up c rule: linked.induct) auto

lemma linked_walk:
  assumes "distinct (entry_ids es)"
  shows "linked es up c \<Longrightarrow> distinct (entry_ids up) \<Longrightarrow> se_id ` set up \<inter> set seen = {}
           \<Longrightarrow> walk_up es seen c = up"
  by (induction up arbitrary: c seen) (auto simp: index_of_eq [OF assms])

lemma linked_exists:
  "entries_wf es \<Longrightarrow> cursor_ok es c \<Longrightarrow> \<exists>up. linked es up c \<and> distinct (entry_ids up)"
proof (induction es arbitrary: c rule: rev_induct)
  case Nil
  then have "linked [] [] c \<and> distinct (entry_ids [])" by (simp add: cursor_ok_def split: option.splits)
  then show ?case by blast
next
  case (snoc e es)
  then have wf: "entries_wf es" and fresh: "se_id e \<notin> se_id ` set es"
    and parent: "cursor_ok es (se_parent_id e)" by (simp_all add: parent_in_cursor)
  show ?case
  proof (cases "cursor_ok es c")
    case True
    then obtain up where "linked es up c" "distinct (entry_ids up)" using snoc.IH wf by blast
    then show ?thesis using linked_mono [of es up c "es @ [e]"] by auto
  next
    case False
    then have c: "c = Some (se_id e)" using snoc.prems(2)
      by (auto simp: cursor_ok_def split: option.splits)
    obtain up where up: "linked es up (se_parent_id e)" "distinct (entry_ids up)"
      using snoc.IH wf parent by blast
    then have "se_id e \<notin> se_id ` set up" using linked_subset [OF up(1)] fresh by auto
    then have "linked (es @ [e]) (e # up) c \<and> distinct (entry_ids (e # up))"
      using up c linked_mono [of es up _ "es @ [e]"] by auto
    then show ?thesis by blast
  qed
qed

lemma root_to_leaf_linkedI:
  assumes "distinct (entry_ids (sj_entries j))" and "linked (sj_entries j) up (sj_leaf_id j)"
    and "distinct (entry_ids up)"
  shows "root_to_leaf j = rev up"
  using linked_walk [OF assms(1,2,3), of "[]"] by (simp add: root_to_leaf_def)

lemma root_to_leaf_linked:
  assumes "journal_ok j"
  shows "linked (sj_entries j) (rev (root_to_leaf j)) (sj_leaf_id j)"
    and "distinct (entry_ids (root_to_leaf j))"
proof -
  have wf: "entries_wf (sj_entries j)" and "cursor_ok (sj_entries j) (sj_leaf_id j)"
    using assms by (simp_all add: journal_ok_def)
  then obtain up where up: "linked (sj_entries j) up (sj_leaf_id j)" "distinct (entry_ids up)"
    using linked_exists by blast
  have eq: "root_to_leaf j = rev up"
    using root_to_leaf_linkedI [OF entries_wf_distinct [OF wf] up] .
  show "linked (sj_entries j) (rev (root_to_leaf j)) (sj_leaf_id j)"
    and "distinct (entry_ids (root_to_leaf j))" using up by (simp_all add: eq)
qed

lemma root_to_leaf_subset: "set (root_to_leaf j) \<subseteq> set (sj_entries j)"
proof -
  have "set (walk_up es seen c) \<subseteq> set es" for es :: "('a, 'b) SessionEntry list" and seen c
    by (induction es seen c rule: walk_up.induct)
      (auto split: option.splits dest: index_of_SomeD dest!: sym [of "Some _"])
  then show ?thesis by (auto simp: root_to_leaf_def)
qed

lemma root_to_leaf_distinct: "distinct (entry_ids (root_to_leaf j))"
proof -
  have "distinct (entry_ids (walk_up es seen c)) \<and> se_id ` set (walk_up es seen c) \<inter> set seen = {}"
    for es :: "('a, 'b) SessionEntry list" and seen c
    by (induction es seen c rule: walk_up.induct) (auto split: option.splits dest: index_of_SomeD)
  then show ?thesis by (simp add: root_to_leaf_def)
qed

lemma root_to_leaf_length: "length (root_to_leaf j) \<le> length (sj_entries j)"
proof -
  have "distinct (root_to_leaf j)"
    using root_to_leaf_distinct [of j] by (simp add: entry_ids_def distinct_map)
  then have "length (root_to_leaf j) = card (set (root_to_leaf j))" by (simp add: distinct_card)
  also have "\<dots> \<le> card (set (sj_entries j))" by (simp add: card_mono root_to_leaf_subset)
  also have "\<dots> \<le> length (sj_entries j)" by (rule card_length)
  finally show ?thesis .
qed

lemma linked_suffix: "linked es (a @ b) c \<Longrightarrow> b \<noteq> [] \<Longrightarrow> linked es b (Some (se_id (hd b)))"
  by (induction a arbitrary: c) (auto simp: neq_Nil_conv)

lemma linked_nth:
  "linked es up c \<Longrightarrow> Suc k < length up \<Longrightarrow> se_parent_id (up ! k) = Some (se_id (up ! Suc k))"
proof (induction es up c arbitrary: k rule: linked.induct)
  case (2 es e up c)
  show ?case
  proof (cases k)
    case 0
    with 2 show ?thesis by (cases up) auto
  next
    case (Suc k')
    with 2 show ?thesis by simp
  qed
qed simp

lemma linked_last: "linked es up c \<Longrightarrow> up \<noteq> [] \<Longrightarrow> se_parent_id (last up) = None"
  by (induction es up c rule: linked.induct) (auto elim: linked.elims)

lemma linked_hd: "linked es up c \<Longrightarrow> up \<noteq> [] \<Longrightarrow> c = Some (se_id (hd up))"
  by (cases up) auto

lemma root_to_leaf_eqI:
  assumes "distinct (entry_ids es)" and "linked es (rev p) c" and "distinct (entry_ids p)"
    and "sj_entries j = es" and "sj_leaf_id j = c"
  shows "root_to_leaf j = p"
  using root_to_leaf_linkedI [of j "rev p"] assms by simp

section \<open>Appending\<close>

lemma append_stamped_ok:
  assumes ok: "journal_ok j" and fresh: "uuid \<notin> se_id ` set (sj_entries j)"
    and j': "j' = snd (append_stamped uuid kind t j)"
    and e: "e = session_entry_new uuid t kind (sj_leaf_id j) (sj_spawn_depth j)"
  shows "journal_ok j'" and "root_to_leaf j' = root_to_leaf j @ [e]"
    and "sj_entries j' = sj_entries j @ [e]"
proof -
  have es: "sj_entries j' = sj_entries j @ [e]" and leaf: "sj_leaf_id j' = Some uuid"
    by (simp_all add: j' e append_stamped_def Let_def)
  have e_id [simp]: "se_id e = uuid" and e_parent [simp]: "se_parent_id e = sj_leaf_id j"
    by (simp_all add: e session_entry_new_def)
  show "sj_entries j' = sj_entries j @ [e]" by (fact es)
  show ok': "journal_ok j'"
    using ok fresh by (simp add: journal_ok_def es leaf parent_in_cursor)
      (simp add: cursor_ok_def)
  have "set (root_to_leaf j) \<subseteq> set (sj_entries j)" by (rule root_to_leaf_subset)
  then have "distinct (entry_ids (root_to_leaf j @ [e]))"
    using root_to_leaf_linked(2) [OF ok] fresh by auto
  moreover have "linked (sj_entries j') (rev (root_to_leaf j @ [e])) (Some uuid)"
    using linked_mono [OF root_to_leaf_linked(1) [OF ok], of "sj_entries j @ [e]"]
    by (simp add: es subset_insertI)
  ultimately show "root_to_leaf j' = root_to_leaf j @ [e]"
    using root_to_leaf_eqI [of "sj_entries j'" "root_to_leaf j @ [e]"] ok' leaf
    by (simp add: journal_ok_def entries_wf_distinct)
qed

text \<open>What a bulk append adds, as a list of entries.\<close>

fun message_entries ::
  "(nat \<Rightarrow> EntryId) \<Rightarrow> (nat \<Rightarrow> 't) \<Rightarrow> 't list \<Rightarrow> u32 \<Rightarrow> nat \<Rightarrow> 'j Message list \<Rightarrow> EntryId option
     \<Rightarrow> ('j, 't) SessionEntry list" where
  "message_entries uuid now stamps depth i [] parent = []"
| "message_entries uuid now stamps depth i (m # ms) parent =
     session_entry_new (uuid i) (stamp_at stamps now i) (EkMessage m) parent depth
     # message_entries uuid now stamps depth (Suc i) ms (Some (uuid i))"

lemma message_entries_kinds:
  "map se_kind (message_entries uuid now stamps depth i ms parent) = map EkMessage ms"
  by (induction uuid now stamps depth i ms parent rule: message_entries.induct)
    (simp_all add: session_entry_new_def)

lemma message_entries_ids:
  "map se_id (message_entries uuid now stamps depth i ms parent) = map uuid [i..<i + length ms]"
  by (induction uuid now stamps depth i ms parent rule: message_entries.induct)
    (simp_all add: session_entry_new_def upt_conv_Cons del: upt_Suc)

lemma message_entries_stamps:
  "map se_created_at (message_entries uuid now stamps depth i ms parent)
     = map (stamp_at stamps now) [i..<i + length ms]"
  by (induction uuid now stamps depth i ms parent rule: message_entries.induct)
    (simp_all add: session_entry_new_def upt_conv_Cons del: upt_Suc)

text \<open>\<open>Uuid::new_v4\<close> yields ids that are new to the journal and to each other.\<close>

definition fresh_ids :: "(nat \<Rightarrow> EntryId) \<Rightarrow> ('j, 't) SessionJournal \<Rightarrow> bool" where
  "fresh_ids uuid j \<longleftrightarrow> inj uuid \<and> range uuid \<inter> set (entry_ids (sj_entries j)) = {}"

lemma append_from_ok:
  assumes "journal_ok j" and "inj uuid" and "\<forall>k\<ge>i. uuid k \<notin> se_id ` set (sj_entries j)"
    and "j' = append_from uuid now stamps i ms j"
    and "new = message_entries uuid now stamps (sj_spawn_depth j) i ms (sj_leaf_id j)"
  shows "journal_ok j' \<and> root_to_leaf j' = root_to_leaf j @ new
         \<and> sj_entries j' = sj_entries j @ new
         \<and> sj_schema_version j' = sj_schema_version j \<and> sj_spawn_depth j' = sj_spawn_depth j"
  using assms
proof (induction uuid now stamps i ms j arbitrary: new j' rule: append_from.induct)
  case (1 uuid now stamps i j)
  then show ?case by simp
next
  case (2 uuid now stamps i m ms j)
  let ?j1 = "snd (append_stamped (uuid i) (EkMessage m) (stamp_at stamps now i) j)"
  let ?e = "session_entry_new (uuid i) (stamp_at stamps now i) (EkMessage m)
    (sj_leaf_id j) (sj_spawn_depth j)"
  have fresh: "uuid i \<notin> se_id ` set (sj_entries j)" using 2 by simp
  note step = append_stamped_ok [OF "2.prems"(1) fresh refl refl]
  have "\<forall>k\<ge>Suc i. uuid k \<notin> se_id ` set (sj_entries ?j1)"
    using "2.prems"(2,3) step(3) [of "EkMessage m" "stamp_at stamps now i"]
    by (auto simp: session_entry_new_def inj_eq)
  moreover have "sj_leaf_id ?j1 = Some (uuid i)" "sj_spawn_depth ?j1 = sj_spawn_depth j"
    "sj_schema_version ?j1 = sj_schema_version j"
    by (simp_all add: append_stamped_def Let_def)
  ultimately show ?case
    using "2.IH" [OF step(1) "2.prems"(2) _ refl refl] step(2,3) [of "EkMessage m" "stamp_at stamps now i"] "2.prems"(4,5)
    by simp
qed

section \<open>Selecting and forking\<close>

lemma list_ex_id: "list_ex (\<lambda>e. se_id e = i) es \<longleftrightarrow> i \<in> se_id ` set es"
  by (auto simp: list_ex_iff)

lemma branch_to_ok: "journal_ok j \<Longrightarrow> journal_ok (snd (branch_to i j))"
  by (auto simp: branch_to_def list_ex_id journal_ok_def cursor_ok_def split: option.splits)

lemma fork_from_ok: "journal_ok j \<Longrightarrow> fork_from src j = Inr f \<Longrightarrow> journal_ok f"
  by (auto simp: fork_from_def list_ex_id journal_ok_def cursor_ok_def split: option.splits if_splits)

lemma with_spawn_depth_ok: "journal_ok (with_spawn_depth d)"
  by (simp add: with_spawn_depth_def journal_new_def journal_ok_def cursor_ok_def)

lemma root_to_leaf_empty: "sj_entries j = [] \<Longrightarrow> root_to_leaf j = []"
  using root_to_leaf_subset [of j] by simp

lemma branch_to_path:
  assumes ok: "journal_ok j" and k: "k < length (root_to_leaf j)"
  shows "root_to_leaf (snd (branch_to (se_id (root_to_leaf j ! k)) j)) = take (Suc k) (root_to_leaf j)"
proof -
  let ?p = "root_to_leaf j" and ?i = "se_id (root_to_leaf j ! k)"
  have ids: "distinct (entry_ids (sj_entries j))"
    using ok by (simp add: journal_ok_def entries_wf_distinct)
  have mem: "?p ! k \<in> set (sj_entries j)"
    using root_to_leaf_subset [of j] k nth_mem by blast
  have split: "rev ?p = rev (drop (Suc k) ?p) @ rev (take (Suc k) ?p)"
    by (simp flip: rev_append)
  have hd: "hd (rev (take (Suc k) ?p)) = ?p ! k"
    using k by (simp add: hd_rev take_Suc_conv_app_nth)
  have link: "linked (sj_entries j) (rev (take (Suc k) ?p)) (Some ?i)"
    using linked_suffix [of "sj_entries j" "rev (drop (Suc k) ?p)" "rev (take (Suc k) ?p)"]
      root_to_leaf_linked(1) [OF ok] split k hd by fastforce
  have dist: "distinct (entry_ids (take (Suc k) ?p))"
    using root_to_leaf_linked(2) [OF ok] by (simp add: entry_ids_def flip: take_map)
  show ?thesis
    by (rule root_to_leaf_eqI [OF ids link dist]) (use mem in \<open>simp_all add: branch_to_def list_ex_id\<close>)
qed

end
