(* ===== verification/JournalRebranch.thy ===== *)
theory JournalRebranch
  imports JournalPaths
begin

text \<open>
  Re-branching (\<open>rebranch_active_messages_stamped\<close> of \<open>crates/runtime/src/session_tree.rs\<close>):
  what the scan of the shared prefix establishes, and that the journal afterwards projects to
  the given conversation while every earlier entry keeps its identity.
\<close>

section \<open>Refreshing entries\<close>

lemma refresh_entry_same [simp]:
  "se_id (refresh_entry f e) = se_id e" "se_parent_id (refresh_entry f e) = se_parent_id e"
  "se_created_at (refresh_entry f e) = se_created_at e"
  "se_spawn_depth (refresh_entry f e) = se_spawn_depth e"
  by (simp_all add: refresh_entry_def split: option.splits)

lemma refresh_entry_none: "f (se_id e) = None \<Longrightarrow> refresh_entry f e = e"
  by (simp add: refresh_entry_def)

lemma refresh_entry_some: "f (se_id e) = Some m \<Longrightarrow> se_kind (refresh_entry f e) = EkMessage m"
  by (simp add: refresh_entry_def)

lemma entry_ids_map [simp]:
  "(\<And>e. se_id (f e) = se_id e) \<Longrightarrow> entry_ids (map f es) = entry_ids es"
  by (simp add: entry_ids_def comp_def)

lemma entries_wf_map:
  assumes "\<And>e. se_id (f e) = se_id e" and "\<And>e. se_parent_id (f e) = se_parent_id e"
  shows "entries_wf (map f es) = entries_wf es"
  using assms by (induction es rule: rev_induct) (auto simp: parent_in_iff image_image)

lemma linked_map:
  assumes "\<And>e. se_id (f e) = se_id e" and "\<And>e. se_parent_id (f e) = se_parent_id e"
  shows "linked es up c \<Longrightarrow> linked (map f es) (map f up) c"
  by (induction es up c rule: linked.induct) (auto simp: assms)

section \<open>The scan\<close>

text \<open>A scanned entry projects to the incoming message, exactly unless recorded metadata was
  kept.\<close>

definition settled :: "bool \<Rightarrow> ('j, 't) SessionEntry \<Rightarrow> 'j Message \<Rightarrow> bool" where
  "settled kept e m \<longleftrightarrow> (\<exists>m'. as_message (se_kind e) = Some m' \<and> same_recorded_turn m' m
     \<and> (kept \<or> m' = m))"

text \<open>Why an entry is rewritten: it is outside the protected prefix and the incoming message
  is the same turn with the engine's stamp.\<close>

definition rewritten :: "('j, 't) SessionEntry \<Rightarrow> 'j Message \<Rightarrow> bool" where
  "rewritten e m \<longleftrightarrow> (\<exists>stored. se_kind e = EkMessage stored \<and> stored \<noteq> m
     \<and> same_recorded_turn stored m \<and> length (msg_content stored) \<le> length (msg_content m))"

lemma projects_to_settled:
  "projects_to (se_kind e) m \<Longrightarrow> (\<And>stored. se_kind e = EkMessage stored \<Longrightarrow> kept \<or> stored = m)
     \<Longrightarrow> settled kept e m"
  by (cases "se_kind e") (auto simp: projects_to_def settled_def)

lemma settled_message: "se_kind e = EkMessage m \<Longrightarrow> settled kept e m"
  by (simp add: settled_def)

lemma settled_mono: "settled k e m \<Longrightarrow> (k \<Longrightarrow> k') \<Longrightarrow> settled k' e m"
  by (auto simp: settled_def)

definition scan_result ::
  "nat \<Rightarrow> nat \<Rightarrow> (('j, 't) SessionEntry \<times> 'j Message) list \<Rightarrow> 'j RebranchScan \<Rightarrow> 'j RebranchScan
     \<Rightarrow> nat \<Rightarrow> bool" where
  "scan_result shared i rest st0 st n \<longleftrightarrow> n \<le> length rest \<and> rs_shared_prefix st = i + n
     \<and> (rs_kept_recorded_metadata st0 \<longrightarrow> rs_kept_recorded_metadata st)
     \<and> (\<forall>k<n. settled (rs_kept_recorded_metadata st)
            (refresh_entry (rs_refresh st) (fst (rest ! k))) (snd (rest ! k)))
     \<and> (\<forall>x. rs_refresh st x = rs_refresh st0 x
            \<or> (\<exists>k<n. shared \<le> i + k \<and> x = se_id (fst (rest ! k))
                  \<and> rs_refresh st x = Some (snd (rest ! k)) \<and> rewritten (fst (rest ! k)) (snd (rest ! k))))"

lemma scan_result_stop: "rs_shared_prefix st = i \<Longrightarrow> scan_result shared i rest st st 0"
  by (simp add: scan_result_def)

lemma scan_result_refresh_outside:
  assumes "scan_result shared i rest st0 st n" and "x \<notin> (se_id \<circ> fst) ` set rest"
  shows "rs_refresh st x = rs_refresh st0 x"
  using assms by (force simp: scan_result_def)

lemma scan_result_advance:
  assumes tail: "scan_result shared (Suc i) rest st1 st n"
    and kept: "rs_kept_recorded_metadata st0 \<longrightarrow> rs_kept_recorded_metadata st1"
    and head: "settled (rs_kept_recorded_metadata st) (refresh_entry (rs_refresh st) e) m"
    and same: "\<And>x. rs_refresh st1 x = rs_refresh st0 x
       \<or> shared \<le> i \<and> x = se_id e \<and> rs_refresh st x = Some m \<and> rewritten e m"
  shows "scan_result shared i ((e, m) # rest) st0 st (Suc n)"
  unfolding scan_result_def
proof (intro conjI allI impI)
  show "Suc n \<le> length ((e, m) # rest)" and "rs_shared_prefix st = i + Suc n"
    using tail by (simp_all add: scan_result_def)
  show "rs_kept_recorded_metadata st" if "rs_kept_recorded_metadata st0"
    using that kept tail by (simp add: scan_result_def)
next
  fix k assume "k < Suc n"
  then show "settled (rs_kept_recorded_metadata st)
      (refresh_entry (rs_refresh st) (fst (((e, m) # rest) ! k))) (snd (((e, m) # rest) ! k))"
    using head tail by (cases k) (simp_all add: scan_result_def)
next
  fix x
  consider "rs_refresh st x = rs_refresh st1 x"
    | k where "k < n" "shared \<le> Suc i + k" "x = se_id (fst (rest ! k))"
        "rs_refresh st x = Some (snd (rest ! k))" "rewritten (fst (rest ! k)) (snd (rest ! k))"
    using tail by (auto simp: scan_result_def)
  then show "rs_refresh st x = rs_refresh st0 x
    \<or> (\<exists>k<Suc n. shared \<le> i + k \<and> x = se_id (fst (((e, m) # rest) ! k))
          \<and> rs_refresh st x = Some (snd (((e, m) # rest) ! k))
          \<and> rewritten (fst (((e, m) # rest) ! k)) (snd (((e, m) # rest) ! k)))"
  proof cases
    case 1
    then show ?thesis using same [of x] by force
  next
    case (2 k)
    then have "Suc k < Suc n \<and> shared \<le> i + Suc k \<and> x = se_id (fst (((e, m) # rest) ! Suc k))
          \<and> rs_refresh st x = Some (snd (((e, m) # rest) ! Suc k))
          \<and> rewritten (fst (((e, m) # rest) ! Suc k)) (snd (((e, m) # rest) ! Suc k))" by simp
    then show ?thesis by blast
  qed
qed

text \<open>One scanned entry, in the three ways the loop goes on past it.\<close>

lemma scan_advance:
  fixes st st' shared i rest
  defines "st1 \<equiv> st'\<lparr>rs_shared_prefix := rs_shared_prefix st' + 1\<rparr>"
  defines "fin \<equiv> rebranch_scan shared (Suc i) rest st1"
  assumes n: "scan_result shared (Suc i) rest st1 fin n"
    and out: "se_id e \<notin> (se_id \<circ> fst) ` set rest" and new: "rs_refresh st (se_id e) = None"
    and kept: "rs_kept_recorded_metadata st \<longrightarrow> rs_kept_recorded_metadata st'"
    and how: "rs_refresh st' = rs_refresh st \<and> settled (rs_kept_recorded_metadata st') e m
       \<or> shared \<le> i \<and> rs_refresh st' = (rs_refresh st)(se_id e \<mapsto> m) \<and> rewritten e m"
  shows "scan_result shared i ((e, m) # rest) st fin (Suc n)"
proof -
  have at_e: "rs_refresh fin (se_id e) = rs_refresh st' (se_id e)"
    using scan_result_refresh_outside [OF n out] by (simp add: st1_def)
  have mono: "rs_kept_recorded_metadata st' \<Longrightarrow> rs_kept_recorded_metadata fin"
    using n by (simp add: scan_result_def st1_def)
  have head: "settled (rs_kept_recorded_metadata fin) (refresh_entry (rs_refresh fin) e) m"
    using how at_e new mono
    by (auto simp: refresh_entry_none refresh_entry_some settled_message intro: settled_mono)
  show ?thesis
    by (rule scan_result_advance [OF n _ head])
      (use kept how at_e in \<open>auto simp: st1_def split: if_splits\<close>)
qed

lemma rebranch_scan_result:
  assumes "distinct (map (se_id \<circ> fst) rest)" and "rs_shared_prefix st = i"
    and "\<forall>x\<in>set rest. rs_refresh st (se_id (fst x)) = None"
  shows "\<exists>n. scan_result shared i rest st (rebranch_scan shared i rest st) n"
  using assms
proof (induction rest arbitrary: i st)
  case Nil
  then show ?case using scan_result_stop [of st i shared "[]"] by auto
next
  case (Cons em rest)
  obtain e m where em: "em = (e, m)" by (cases em)
  have out: "se_id e \<notin> (se_id \<circ> fst) ` set rest" and new: "rs_refresh st (se_id e) = None"
    using Cons.prems by (simp_all add: em)
  have advance: "\<exists>n. scan_result shared i (em # rest) st
      (rebranch_scan shared (Suc i) rest (st'\<lparr>rs_shared_prefix := rs_shared_prefix st' + 1\<rparr>)) n"
    if idx: "rs_shared_prefix st' = i"
      and kept: "rs_kept_recorded_metadata st \<longrightarrow> rs_kept_recorded_metadata st'"
      and how: "rs_refresh st' = rs_refresh st \<and> settled (rs_kept_recorded_metadata st') e m
         \<or> shared \<le> i \<and> rs_refresh st' = (rs_refresh st)(se_id e \<mapsto> m) \<and> rewritten e m" for st'
  proof -
    let ?st1 = "st'\<lparr>rs_shared_prefix := rs_shared_prefix st' + 1\<rparr>"
    have "\<forall>x\<in>set rest. rs_refresh ?st1 (se_id (fst x)) = None"
      using Cons.prems(3) how out by (force simp: em)
    then obtain n where "scan_result shared (Suc i) rest ?st1 (rebranch_scan shared (Suc i) rest ?st1) n"
      using Cons.IH [of ?st1 "Suc i"] Cons.prems(1) idx by auto
    then show ?thesis unfolding em using scan_advance [OF _ out new kept how] by blast
  qed
  have stop: "\<exists>n. scan_result shared i (em # rest) st st n"
    using scan_result_stop [of st i] Cons.prems(2) by blast
  show ?case
  proof (cases "projects_to (se_kind e) m")
    case False
    then show ?thesis using stop by (simp add: Let_def em)
  next
    case proj: True
    show ?thesis
    proof (cases "\<exists>stored. se_kind e = EkMessage stored \<and> stored \<noteq> m")
      case False
      then have "settled (rs_kept_recorded_metadata st) e m"
        using proj by (intro projects_to_settled) auto
      moreover have "rebranch_scan shared i (em # rest) st
          = rebranch_scan shared (Suc i) rest (st\<lparr>rs_shared_prefix := rs_shared_prefix st + 1\<rparr>)"
        using False proj by (cases "se_kind e") (auto simp: em)
      ultimately show ?thesis using advance [of st] Cons.prems(2) by simp
    next
      case True
      then obtain stored where st: "se_kind e = EkMessage stored" "stored \<noteq> m" by blast
      have same: "same_recorded_turn stored m" using proj st by (simp add: projects_to_def)
      consider "length (msg_content stored) > length (msg_content m)"
        | "\<not> length (msg_content stored) > length (msg_content m)" "i < shared"
        | "\<not> length (msg_content stored) > length (msg_content m)" "\<not> i < shared" by blast
      then show ?thesis
      proof cases
        case 1
        have "settled True e m" using proj by (intro projects_to_settled) auto
        then show ?thesis
          using advance [of "st\<lparr>rs_kept_recorded_metadata := True\<rparr>"] 1 proj st Cons.prems(2)
          by (simp add: em)
      next
        case 2
        then show ?thesis using stop proj st by (simp add: em)
      next
        case 3
        have "rewritten e m" using st same 3 by (simp add: rewritten_def)
        then show ?thesis
          using advance [of "st\<lparr>rs_refresh := (rs_refresh st)(se_id e \<mapsto> m)\<rparr>"] 3 proj st Cons.prems(2)
          by (simp add: em)
      qed
    qed
  qed
qed

section \<open>The journal after re-branching\<close>

lemma append_from_spawn_depth:
  "sj_spawn_depth (snd (append_stamped u k t j)) = sj_spawn_depth j"
  by (simp add: append_stamped_def Let_def)

lemma root_to_leaf_at:
  assumes ok: "journal_ok j" and n: "n \<le> length (root_to_leaf j)"
  shows "root_to_leaf (j\<lparr>sj_leaf_id := map_option (\<lambda>i. se_id (root_to_leaf j ! i)) (checked_sub n 1)\<rparr>)
           = take n (root_to_leaf j)"
    and "journal_ok (j\<lparr>sj_leaf_id := map_option (\<lambda>i. se_id (root_to_leaf j ! i)) (checked_sub n 1)\<rparr>)"
proof -
  have mem: "root_to_leaf j ! k \<in> set (sj_entries j)" if "k < n" for k
    using root_to_leaf_subset [of j] that n by (meson nth_mem order_less_le_trans subsetD)
  show "root_to_leaf (j\<lparr>sj_leaf_id := map_option (\<lambda>i. se_id (root_to_leaf j ! i)) (checked_sub n 1)\<rparr>)
           = take n (root_to_leaf j)"
  proof (cases n)
    case 0
    then show ?thesis by (simp add: checked_sub_def root_to_leaf_def)
  next
    case (Suc k)
    then show ?thesis using branch_to_path [OF ok, of k] mem [of k] n
      by (simp add: checked_sub_def branch_to_def list_ex_id)
  qed
  show "journal_ok (j\<lparr>sj_leaf_id := map_option (\<lambda>i. se_id (root_to_leaf j ! i)) (checked_sub n 1)\<rparr>)"
  proof (cases n)
    case 0
    then show ?thesis using ok by (simp add: checked_sub_def journal_ok_def cursor_ok_def)
  next
    case (Suc k)
    then show ?thesis using ok mem [of k] by (simp add: checked_sub_def journal_ok_def cursor_ok_def)
  qed
qed

lemma journal_refresh:
  assumes ok: "journal_ok j" and j': "j' = j\<lparr>sj_entries := map (refresh_entry f) (sj_entries j)\<rparr>"
  shows "journal_ok j'" and "root_to_leaf j' = map (refresh_entry f) (root_to_leaf j)"
proof -
  show ok': "journal_ok j'"
    using ok by (simp add: j' journal_ok_def entries_wf_map cursor_ok_def split: option.splits)
  have "linked (sj_entries j') (rev (map (refresh_entry f) (root_to_leaf j))) (sj_leaf_id j')"
    using linked_map [OF _ _ root_to_leaf_linked(1) [OF ok], of "refresh_entry f"]
    by (simp add: j' rev_map)
  moreover have "distinct (entry_ids (map (refresh_entry f) (root_to_leaf j)))"
    using root_to_leaf_linked(2) [OF ok] by simp
  moreover have "distinct (entry_ids (sj_entries j'))"
    using ok' by (simp add: journal_ok_def entries_wf_distinct)
  ultimately show "root_to_leaf j' = map (refresh_entry f) (root_to_leaf j)"
    by (intro root_to_leaf_eqI [OF _ _ _ refl refl])
qed

text \<open>The whole operation, decomposed: \<open>n\<close> scanned entries, their refresh map, and the new
  entries for the rest of the conversation.\<close>

lemma rebranch_decompose:
  assumes ok: "journal_ok j" and fresh: "fresh_ids uuid j"
    and res: "rebranch_active_messages_stamped uuid now messages stamps j = (r, j')"
  obtains n st where
    "scan_result (protected_prefix (sj_entries j) (root_to_leaf j)) 0 (zip (root_to_leaf j) messages)
       \<lparr>rs_shared_prefix = 0, rs_kept_recorded_metadata = False, rs_refresh = Map.empty\<rparr> st n"
    "rb_previous_active r = length (root_to_leaf j)"
    "rb_shared_prefix r = n" "rb_kept_recorded_metadata r = rs_kept_recorded_metadata st"
    "n \<le> length (root_to_leaf j)" "n \<le> length messages" "journal_ok j'"
    "root_to_leaf j' = map (refresh_entry (rs_refresh st)) (take n (root_to_leaf j))
       @ message_entries uuid now stamps (sj_spawn_depth j) n (drop n messages)
           (map_option (\<lambda>i. se_id (root_to_leaf j ! i)) (checked_sub n 1))"
    "sj_entries j' = map (refresh_entry (rs_refresh st)) (sj_entries j)
       @ message_entries uuid now stamps (sj_spawn_depth j) n (drop n messages)
           (map_option (\<lambda>i. se_id (root_to_leaf j ! i)) (checked_sub n 1))"
    "sj_schema_version j' = sj_schema_version j" "sj_spawn_depth j' = sj_spawn_depth j"
proof -
  let ?path = "root_to_leaf j" and ?shared = "protected_prefix (sj_entries j) (root_to_leaf j)"
  let ?st0 = "\<lparr>rs_shared_prefix = 0, rs_kept_recorded_metadata = False, rs_refresh = Map.empty\<rparr>"
  define st where "st = rebranch_scan ?shared 0 (zip ?path messages) ?st0"
  have "map (se_id \<circ> fst) (zip ?path messages) = take (length messages) (entry_ids ?path)"
    by (simp add: entry_ids_def take_map flip: map_map) (simp add: map_fst_zip_take min_def)
  then have "distinct (map (se_id \<circ> fst) (zip ?path messages))"
    using root_to_leaf_distinct [of j] by (simp add: distinct_take)
  then obtain n where n: "scan_result ?shared 0 (zip ?path messages) ?st0 st n"
    using rebranch_scan_result [of "zip ?path messages" ?st0 0 ?shared] by (auto simp: st_def)
  then have len: "n \<le> length ?path" "n \<le> length messages" and pre: "rs_shared_prefix st = n"
    by (simp_all add: scan_result_def)
  define j1 where "j1 = j\<lparr>sj_leaf_id := map_option (\<lambda>i. se_id (?path ! i)) (checked_sub n 1)\<rparr>"
  define j2 where "j2 = j1\<lparr>sj_entries := map (refresh_entry (rs_refresh st)) (sj_entries j1)\<rparr>"
  note at = root_to_leaf_at [OF ok len(1), folded j1_def]
  note at2 = journal_refresh [OF at(2) j2_def]
  have new: "\<forall>k\<ge>n. uuid k \<notin> se_id ` set (sj_entries j2)" and inj: "inj uuid"
    using fresh by (auto simp: fresh_ids_def j2_def j1_def image_image)
  have j': "j' = append_from uuid now stamps n (drop n messages) j2"
    and r: "r = \<lparr>rb_previous_active = length ?path, rb_shared_prefix = n,
                 rb_kept_recorded_metadata = rs_kept_recorded_metadata st\<rparr>"
    using res by (simp_all add: rebranch_active_messages_stamped_def Let_def pre j1_def j2_def flip: st_def)
  note app = append_from_ok [OF at2(1) inj new j' refl]
  show thesis
    by (rule that [OF n _ _ _ len]) (use app at(1) at2(2) in \<open>simp_all add: r j1_def j2_def take_map\<close>)
qed

section \<open>Projection to messages\<close>

definition entry_message :: "('j, 't) SessionEntry \<Rightarrow> 'j Message" where
  "entry_message e = the (as_message (se_kind e))"

lemma as_message_total: "as_message k = Some (the (as_message k))"
  by (cases k) simp_all

lemma to_messages_map: "to_messages j = map entry_message (root_to_leaf j)"
proof -
  have "as_message (se_kind e) \<noteq> None" for e :: "('a, 'b) SessionEntry"
    by (metis as_message_total option.distinct(1))
  then show ?thesis
    by (simp add: to_messages_def active_messages_def List.map_filter_def entry_message_def comp_def)
qed

lemma settled_entry_message:
  "settled kept e m \<longleftrightarrow> same_recorded_turn (entry_message e) m \<and> (kept \<or> entry_message e = m)"
  using as_message_total [of "se_kind e"] by (auto simp: settled_def entry_message_def)

lemma message_entries_messages:
  "map entry_message (message_entries uuid now stamps d i ms p) = ms"
proof -
  have "map (\<lambda>k. the (as_message k)) (map se_kind (message_entries uuid now stamps d i ms p)) = ms"
    by (simp only: message_entries_kinds) (simp add: comp_def)
  then show ?thesis by (simp add: entry_message_def [abs_def] comp_def)
qed

lemma length_message_entries: "length (message_entries uuid now stamps d i ms p) = length ms"
  by (induction ms arbitrary: i p) simp_all

text \<open>The entries that the refresh changes, and to what.\<close>

lemma scan_change:
  assumes ok: "journal_ok j"
    and scan: "scan_result shared 0 (zip (root_to_leaf j) messages)
       \<lparr>rs_shared_prefix = 0, rs_kept_recorded_metadata = False, rs_refresh = Map.empty\<rparr> st n"
    and len: "n \<le> length (root_to_leaf j)" and e: "e \<in> set (sj_entries j)"
  shows "refresh_entry (rs_refresh st) e = e
    \<or> (\<exists>k<n. shared \<le> k \<and> e = root_to_leaf j ! k
          \<and> se_kind (refresh_entry (rs_refresh st) e) = EkMessage (messages ! k) \<and> rewritten e (messages ! k))"
proof (cases "rs_refresh st (se_id e)")
  case None
  then show ?thesis by (simp add: refresh_entry_none)
next
  case (Some m)
  let ?path = "root_to_leaf j"
  have n: "n \<le> length (zip ?path messages)" using scan by (simp add: scan_result_def)
  obtain k where k: "k < n" "shared \<le> k" "se_id e = se_id (fst (zip ?path messages ! k))"
      "rs_refresh st (se_id e) = Some (snd (zip ?path messages ! k))"
      "rewritten (fst (zip ?path messages ! k)) (snd (zip ?path messages ! k))"
  proof -
    have "rs_refresh st (se_id e) = None \<or> (\<exists>k<n. shared \<le> 0 + k
       \<and> se_id e = se_id (fst (zip ?path messages ! k))
       \<and> rs_refresh st (se_id e) = Some (snd (zip ?path messages ! k))
       \<and> rewritten (fst (zip ?path messages ! k)) (snd (zip ?path messages ! k)))"
      using scan unfolding scan_result_def by simp
    then show thesis using Some that by auto
  qed
  then have z: "zip ?path messages ! k = (?path ! k, messages ! k)" using n by simp
  have mem: "?path ! k \<in> set (sj_entries j)"
    using root_to_leaf_subset [of j] k(1) len by (meson nth_mem order_less_le_trans subsetD)
  have "distinct (map se_id (sj_entries j))"
    using ok entries_wf_distinct [of "sj_entries j"] by (simp add: journal_ok_def entry_ids_def)
  then have "e = ?path ! k" using k(3) z e mem by (simp add: distinct_map inj_on_def)
  then show ?thesis using k z refresh_entry_some [of "rs_refresh st" e] by auto
qed

section \<open>Properties\<close>

text \<open>C16. Re-branching onto a conversation succeeds at what it is for: on a well-formed journal
  with fresh ids the result is well-formed, its active branch projects message by message to
  the same recorded turns as the conversation, and to exactly the conversation unless the
  report says that recorded metadata was kept.\<close>

theorem rebranch_projects:
  fixes j :: "('j, 't) SessionJournal"
  assumes "journal_ok j" and "fresh_ids uuid j"
    and "rebranch_active_messages_stamped uuid now messages stamps j = (r, j')"
  shows "journal_ok j' \<and> list_all2 same_recorded_turn (to_messages j') messages
         \<and> (rb_kept_recorded_metadata r \<or> to_messages j' = messages)"
  using assms
proof (rule rebranch_decompose)
  fix n and st :: "'j RebranchScan"
  let ?path = "root_to_leaf j" and ?f = "refresh_entry (rs_refresh st)"
  assume scan: "scan_result (protected_prefix (sj_entries j) ?path) 0 (zip ?path messages)
       \<lparr>rs_shared_prefix = 0, rs_kept_recorded_metadata = False, rs_refresh = Map.empty\<rparr> st n"
    and kept: "rb_kept_recorded_metadata r = rs_kept_recorded_metadata st"
    and len: "n \<le> length ?path" "n \<le> length messages" and ok: "journal_ok j'"
    and path: "root_to_leaf j' = map ?f (take n ?path)
       @ message_entries uuid now stamps (sj_spawn_depth j) n (drop n messages)
           (map_option (\<lambda>i. se_id (?path ! i)) (checked_sub n 1))"
  have msgs: "to_messages j' = map (\<lambda>e. entry_message (?f e)) (take n ?path) @ drop n messages"
    by (simp add: to_messages_map path message_entries_messages comp_def)
  have at: "same_recorded_turn (entry_message (?f (?path ! k))) (messages ! k)
      \<and> (rs_kept_recorded_metadata st \<or> entry_message (?f (?path ! k)) = messages ! k)" if "k < n" for k
    using scan len that by (auto simp: scan_result_def settled_entry_message)
  have nth: "to_messages j' ! k = (if k < n then entry_message (?f (?path ! k)) else messages ! k)"
    if "k < length messages" for k
    using that len by (simp add: msgs nth_append)
  have length: "length (to_messages j') = length messages" using len by (simp add: msgs)
  have "list_all2 same_recorded_turn (to_messages j') messages"
    using at nth length by (simp add: list_all2_conv_all_nth)
  moreover have "rb_kept_recorded_metadata r \<or> to_messages j' = messages"
    using at nth length kept by (auto intro: nth_equalityI)
  ultimately show ?thesis using ok by simp
qed

text \<open>C17. Re-branching never loses history. Every earlier entry keeps its place, id, parent, time
  and depth; its content changes only to the stamped form of the same recorded turn, and not at
  all in the protected prefix another branch forks from; only the changed suffix is appended;
  and the previous branch is still there under its old leaf.\<close>

theorem rebranch_keeps_history:
  fixes j :: "('j, 't) SessionJournal"
  assumes "journal_ok j" and "fresh_ids uuid j"
    and "rebranch_active_messages_stamped uuid now messages stamps j = (r, j')"
  shows "list_all2 (\<lambda>old new. (se_id new, se_parent_id new, se_created_at new, se_spawn_depth new)
                 = (se_id old, se_parent_id old, se_created_at old, se_spawn_depth old)
               \<and> (new = old \<or> (\<exists>m. se_kind new = EkMessage m \<and> rewritten old m)))
           (sj_entries j) (take (length (sj_entries j)) (sj_entries j'))
         \<and> list_all (\<lambda>e. e \<in> set (sj_entries j'))
             (take (protected_prefix (sj_entries j) (root_to_leaf j)) (root_to_leaf j))
         \<and> length (sj_entries j') = length (sj_entries j) + (length messages - rb_shared_prefix r)
         \<and> entry_ids (root_to_leaf (j'\<lparr>sj_leaf_id := sj_leaf_id j\<rparr>)) = entry_ids (root_to_leaf j)"
  using assms
proof (rule rebranch_decompose)
  fix n and st :: "'j RebranchScan"
  let ?path = "root_to_leaf j" and ?es = "sj_entries j" and ?f = "refresh_entry (rs_refresh st)"
  let ?shared = "protected_prefix (sj_entries j) (root_to_leaf j)"
  let ?new = "message_entries uuid now stamps (sj_spawn_depth j) n (drop n messages)
           (map_option (\<lambda>i. se_id (?path ! i)) (checked_sub n 1))"
  assume scan: "scan_result ?shared 0 (zip ?path messages)
       \<lparr>rs_shared_prefix = 0, rs_kept_recorded_metadata = False, rs_refresh = Map.empty\<rparr> st n"
    and pre: "rb_shared_prefix r = n"
    and len: "n \<le> length ?path" "n \<le> length messages" and ok': "journal_ok j'"
    and es': "sj_entries j' = map ?f ?es @ ?new"
  note change = scan_change [OF assms(1) scan len(1)]
  have "list_all2 (\<lambda>old new. (se_id new, se_parent_id new, se_created_at new, se_spawn_depth new)
             = (se_id old, se_parent_id old, se_created_at old, se_spawn_depth old)
           \<and> (new = old \<or> (\<exists>m. se_kind new = EkMessage m \<and> rewritten old m))) ?es (map ?f ?es)"
    using change by (force simp: list_all2_conv_all_nth)
  moreover have "e \<in> set (sj_entries j')" if mem: "e \<in> set (take ?shared ?path)" for e
  proof -
    obtain i where i: "i < ?shared" "i < length ?path" "e = ?path ! i"
      using mem by (auto simp: in_set_conv_nth)
    have e: "e \<in> set ?es" using root_to_leaf_subset [of j] i by auto
    have "distinct ?path" using root_to_leaf_distinct [of j] by (simp add: entry_ids_def distinct_map)
    then have "?f e = e" using change [OF e] i len by (auto simp: nth_eq_iff_index_eq)
    then show ?thesis using e es' by (metis UnI1 image_eqI set_append set_map)
  qed
  moreover have "length ?new = length messages - n"
    by (simp add: length_message_entries)
  moreover have "root_to_leaf (j'\<lparr>sj_leaf_id := sj_leaf_id j\<rparr>) = map ?f ?path"
  proof (rule root_to_leaf_eqI)
    show "distinct (entry_ids (sj_entries j'))" using ok' by (simp add: journal_ok_def entries_wf_distinct)
    show "linked (sj_entries j') (rev (map ?f ?path)) (sj_leaf_id j)"
      using linked_map [OF _ _ root_to_leaf_linked(1) [OF assms(1)], of ?f]
      by (auto simp: es' rev_map intro: linked_mono)
    show "distinct (entry_ids (map ?f ?path))" using root_to_leaf_distinct [of j] by simp
  qed simp_all
  ultimately show ?thesis by (simp add: es' pre list_all_iff)
qed

lemma rebranch_scan_self:
  "rebranch_scan shared i (zip p (map entry_message p)) st
     = st\<lparr>rs_shared_prefix := rs_shared_prefix st + length p\<rparr>"
proof (induction p arbitrary: i st)
  case (Cons e p)
  have "projects_to (se_kind e) (entry_message e)"
    using as_message_total [of "se_kind e"] by (cases "se_kind e") (simp_all add: projects_to_def entry_message_def)
  then show ?case
    using Cons.IH [of "Suc i" "st\<lparr>rs_shared_prefix := rs_shared_prefix st + 1\<rparr>"]
    by (cases "se_kind e") (simp_all add: entry_message_def)
qed simp

text \<open>Saving an unchanged conversation changes nothing: re-branching a well-formed journal
  onto its own messages returns the journal itself and reports the whole branch as shared.\<close>

theorem rebranch_unchanged:
  assumes "journal_ok j"
  shows "rebranch_active_messages_stamped uuid now (to_messages j) stamps j
    = (\<lparr>rb_previous_active = length (root_to_leaf j), rb_shared_prefix = length (root_to_leaf j),
        rb_kept_recorded_metadata = False\<rparr>, j)"
proof -
  let ?path = "root_to_leaf j"
  have "linked (sj_entries j) (rev ?path) (sj_leaf_id j)" using root_to_leaf_linked(1) [OF assms] .
  then have leaf: "map_option (\<lambda>i. se_id (?path ! i)) (checked_sub (length ?path) 1) = sj_leaf_id j"
    using linked_hd [of "sj_entries j" "rev ?path" "sj_leaf_id j"]
    by (cases "?path = []") (simp_all add: checked_sub_def hd_rev last_conv_nth Suc_le_eq)
  have noop: "refresh_entry Map.empty = (\<lambda>e. e :: ('a, 'b) SessionEntry)"
    by (rule ext) (simp add: refresh_entry_none)
  show ?thesis
    by (simp add: rebranch_active_messages_stamped_def to_messages_map rebranch_scan_self leaf [simplified]
        noop Let_def)
qed

section \<open>Examples\<close>

definition turn_entry :: "EntryId \<Rightarrow> EntryId option \<Rightarrow> unit Message \<Rightarrow> (unit, nat) SessionEntry" where
  "turn_entry i p m = session_entry_new i 0 (EkMessage m) p 0"

definition reply_example :: "unit Message" where
  "reply_example = \<lparr>msg_role = RoleAssistant, msg_content = [CbText ''ok'' None]\<rparr>"

definition talk_example :: "(unit, nat) SessionJournal" where
  "talk_example = journal_new\<lparr>sj_leaf_id := Some ''b'',
     sj_entries := [turn_entry ''a'' None bare_example, turn_entry ''b'' (Some ''a'') reply_example]\<rparr>"

definition example_ids :: "nat \<Rightarrow> EntryId" where
  "example_ids k = CHR ''u'' # replicate k CHR ''x''"

lemma talk_example_ok: "journal_ok talk_example"
  using entries_wf_snoc [of "[turn_entry ''a'' None bare_example]" "turn_entry ''b'' (Some ''a'') reply_example"]
    entries_wf_snoc [of "[]" "turn_entry ''a'' None bare_example"]
  by (simp add: journal_ok_def talk_example_def cursor_ok_def turn_entry_def session_entry_new_def
      parent_in_iff)

lemma talk_example_fresh: "fresh_ids example_ids talk_example"
  by (auto simp: fresh_ids_def inj_def example_ids_def talk_example_def turn_entry_def
      session_entry_new_def dest: arg_cong [of _ _ length])

theorem rebranch_projects_witness:
  "list_all2 same_recorded_turn
     (to_messages (snd (rebranch_active_messages_stamped example_ids id [stamped_example] [] talk_example)))
     [stamped_example]"
  using rebranch_projects [OF talk_example_ok talk_example_fresh prod.collapse [symmetric],
      of id "[stamped_example]" "[]"] by simp

theorem rebranch_keeps_history_witness:
  "entry_ids (root_to_leaf (snd (rebranch_active_messages_stamped example_ids id [reply_example] [] talk_example)
       \<lparr>sj_leaf_id := sj_leaf_id talk_example\<rparr>)) = entry_ids (root_to_leaf talk_example)"
  using rebranch_keeps_history [OF talk_example_ok talk_example_fresh prod.collapse [symmetric],
      of id "[reply_example]" "[]"] by simp

theorem rebranch_unchanged_witness:
  "snd (rebranch_active_messages_stamped example_ids id (to_messages talk_example) [] talk_example) = talk_example"
  using rebranch_unchanged [OF talk_example_ok, of example_ids id "[]"] by simp

text \<open>A shared entry can be rewritten. The documentation says that a provisional user entry
  gains its stamp only until another branch shares it; but the protected prefix looks for
  entries with at least two children. When the leaf is moved back onto a user turn whose only
  child is the other branch, re-branching onto the stamped turn rewrites the shared entry, and
  the other branch's conversation changes with it.\<close>

theorem shared_turn_rewritten:
  "let back = snd (branch_to ''a'' talk_example);
       saved = snd (rebranch_active_messages_stamped example_ids id [stamped_example] [] back)
   in to_messages talk_example = [bare_example, reply_example]
      \<and> to_messages (snd (branch_to ''b'' saved)) = [stamped_example, reply_example]"
  by code_simp

end
