(* ===== verification/JournalPrune.thy ===== *)
theory JournalPrune
  imports JournalPaths
begin

text \<open>
  Bounded pruning and atomic removal (\<open>prune_plan\<close> and \<open>remove_entries\<close> of
  \<open>crates/runtime/src/session_tree.rs\<close>). The facts hold for every journal that validates and
  has distinct ids, cyclic parents included.
\<close>

section \<open>Atomic removal\<close>

lemma split_removed_kept: "snd (split_removed ids n es) = filter (\<lambda>e. se_id e \<notin> ids) es"
  by (induction ids n es rule: split_removed.induct) (auto split: prod.splits)

lemma split_removed_length:
  "length (fst (split_removed ids n es)) = length (filter (\<lambda>e. se_id e \<in> ids) es)"
  by (induction ids n es rule: split_removed.induct) (auto split: prod.splits)

text \<open>Inserting the removed entries in ascending order restores the vector; every position is
  at most the length of the vector it is inserted into, as \<open>Vec::insert\<close> needs.\<close>

lemma reinsert_split:
  "length pre = n \<Longrightarrow>
     fold vec_insert (fst (split_removed ids n es)) (pre @ snd (split_removed ids n es)) = pre @ es"
proof (induction ids n es arbitrary: pre rule: split_removed.induct)
  case (2 ids n e es)
  have "fold vec_insert (fst (split_removed ids (Suc n) es))
      ((pre @ [e]) @ snd (split_removed ids (Suc n) es)) = (pre @ [e]) @ es"
    using 2 by (intro "2.IH") simp
  then show ?case using 2(2)
    by (auto simp: vec_insert_def split: prod.splits)
qed simp

lemma split_removed_positions:
  "(p, e) \<in> set (fst (split_removed ids n es)) \<Longrightarrow> n \<le> p \<and> p < n + length es"
  by (induction ids n es rule: split_removed.induct) (auto split: prod.splits if_splits)

lemma remove_entries_cases:
  fixes ids j defines "rest \<equiv> j\<lparr>sj_entries := filter (\<lambda>e. se_id e \<notin> ids) (sj_entries j)\<rparr>"
  shows "remove_entries ids j =
    (if ids = {} then (Inr 0, j)
     else case validate rest of
       Inl err \<Rightarrow> (Inl err, j)
     | Inr _ \<Rightarrow> (Inr (length (filter (\<lambda>e. se_id e \<in> ids) (sj_entries j))), rest))"
proof -
  obtain removed kept where sp: "split_removed ids 0 (sj_entries j) = (removed, kept)"
    by (cases "split_removed ids 0 (sj_entries j)")
  have k: "kept = filter (\<lambda>e. se_id e \<notin> ids) (sj_entries j)"
    using split_removed_kept [of ids 0 "sj_entries j"] sp by simp
  have l: "length removed = length (filter (\<lambda>e. se_id e \<in> ids) (sj_entries j))"
    using split_removed_length [of ids 0 "sj_entries j"] sp by simp
  have r: "fold vec_insert removed kept = sj_entries j"
    using reinsert_split [of "[]" 0 ids "sj_entries j"] sp by simp
  show ?thesis
    using k l r by (simp add: remove_entries_def sp rest_def Let_def split: sum.splits)
qed

text \<open>Removal is atomic. When it fails, the journal is what it was and the error is the
  validation error of the remainder; when it succeeds, exactly the entries with the given ids
  are gone, in order, the count is the number removed, and the remainder validates.\<close>

theorem remove_entries_atomic:
  "case remove_entries ids j of
     (Inl err, j') \<Rightarrow> j' = j \<and> ids \<noteq> {}
       \<and> validate (j\<lparr>sj_entries := filter (\<lambda>e. se_id e \<notin> ids) (sj_entries j)\<rparr>) = Inl err
   | (Inr n, j') \<Rightarrow> j' = j\<lparr>sj_entries := filter (\<lambda>e. se_id e \<notin> ids) (sj_entries j)\<rparr>
       \<and> n + length (sj_entries j') = length (sj_entries j)
       \<and> (if ids = {} then j' = j else validate j' = Inr ())"
  by (auto simp: remove_entries_cases split: sum.splits)
    (simp add: add.commute sum_length_filter_compl)

section \<open>Positions and marks\<close>

lemma position_of_SomeD: "position_of es i = Some k \<Longrightarrow> k < length es \<and> se_id (es ! k) = i"
  by (auto simp: position_of_def in_set_zip dest!: map_of_SomeD)

lemma position_of_eq:
  assumes "distinct (entry_ids es)" and "k < length es"
  shows "position_of es (se_id (es ! k)) = Some k"
proof -
  have "distinct (map fst (rev (zip (map se_id es) [0..<length es])))"
    using assms(1) by (simp add: entry_ids_def rev_map [symmetric])
  moreover have "(se_id (es ! k), k) \<in> set (zip (map se_id es) [0..<length es])"
    using assms(2) by (auto simp: in_set_zip intro!: exI [of _ k])
  ultimately show ?thesis by (simp add: position_of_def)
qed

lemma position_of_ex: "i \<in> se_id ` set es \<Longrightarrow> \<exists>k. position_of es i = Some k"
proof (rule ccontr)
  assume i: "i \<in> se_id ` set es" and "\<nexists>k. position_of es i = Some k"
  then have "i \<notin> fst ` set (zip (map se_id es) [0..<length es])"
    by (simp add: position_of_def map_of_eq_None_iff flip: not_None_eq)
  moreover have "fst ` set (zip (map se_id es) [0..<length es]) = se_id ` set es"
    by (simp flip: set_map)
  ultimately show False using i by simp
qed

lemma length_mark [simp]: "length (mark ps keep) = length keep"
  by (induction ps arbitrary: keep) (simp_all add: mark_def)

lemma mark_nth: "i < length keep \<Longrightarrow> mark ps keep ! i \<longleftrightarrow> keep ! i \<or> i \<in> set ps"
proof (induction ps arbitrary: keep)
  case (Cons p ps)
  then have "mark ps (keep[p := True]) ! i \<longleftrightarrow> keep[p := True] ! i \<or> i \<in> set ps" by simp
  moreover have "keep[p := True] ! i \<longleftrightarrow> keep ! i \<or> i = p"
    using Cons.prems by (cases "i = p") simp_all
  ultimately show ?case by (auto simp: mark_def)
qed (simp add: mark_def)

section \<open>The kept set is closed under parents\<close>

definition keeps_parent :: "('j, 't) SessionEntry list \<Rightarrow> (nat \<Rightarrow> bool) \<Rightarrow> nat \<Rightarrow> bool" where
  "keeps_parent es K i \<longleftrightarrow> (case se_parent_id (es ! i) of None \<Rightarrow> True
     | Some p \<Rightarrow> \<exists>q. position_of es p = Some q \<and> K q)"

definition closed_keep :: "('j, 't) SessionEntry list \<Rightarrow> bool list \<Rightarrow> bool" where
  "closed_keep es keep \<longleftrightarrow> length keep = length es
     \<and> (\<forall>i<length es. keep ! i \<longrightarrow> keeps_parent es (\<lambda>q. keep ! q) i)"

lemma keeps_parent_mono: "keeps_parent es K i \<Longrightarrow> (\<And>q. q < length es \<Longrightarrow> K q \<Longrightarrow> K' q) \<Longrightarrow> keeps_parent es K' i"
  by (auto simp: keeps_parent_def split: option.splits dest: position_of_SomeD)

definition chain_inv :: "('j, 't) SessionEntry list \<Rightarrow> bool list \<Rightarrow> (nat \<Rightarrow> bool) \<Rightarrow> nat list \<Rightarrow> bool" where
  "chain_inv es keep K chain \<longleftrightarrow> distinct chain
     \<and> (\<forall>i\<in>set chain. i < length es \<and> \<not> keep ! i
           \<and> keeps_parent es (\<lambda>q. q \<in> set chain \<or> K q) i)"

lemma prune_chain_inv:
  assumes "chain_inv es keep (\<lambda>q. keep ! q \<or> c = Some q) chain"
    and "used + length chain \<le> budget" and "\<And>i. c = Some i \<Longrightarrow> i < length es"
    and "prune_chain es keep used budget chain c = (ch, True)"
  shows "chain_inv es keep (\<lambda>q. keep ! q) ch \<and> used + length ch \<le> budget"
  using assms
proof (induction es keep used budget chain c rule: prune_chain.induct)
  case (1 es keep used budget chain)
  then show ?case by simp
next
  case (2 es keep used budget chain i)
  note inv = "2.prems"(1) and res = "2.prems"(4)
  show ?case
  proof (cases "keep ! i")
    case True
    then have "ch = chain" using res by simp
    moreover have "chain_inv es keep (\<lambda>q. keep ! q) chain"
      using inv True by (auto simp: chain_inv_def intro: keeps_parent_mono)
    ultimately show ?thesis using "2.prems"(2) by simp
  next
    case False
    then have go: "i \<notin> set chain" "used + length chain < budget"
      using res by (auto split: if_splits)
    have i: "i < length es" using "2.prems"(3) by simp
    have ext: "chain_inv es keep K (chain @ [i])" if "keeps_parent es (\<lambda>q. q \<in> set (chain @ [i]) \<or> K q) i"
      "\<And>q. keep ! q \<Longrightarrow> K q" for K
      using inv that go i False
      by (auto simp: chain_inv_def intro: keeps_parent_mono)
    show ?thesis
    proof (cases "se_parent_id (es ! i)")
      case None
      then have "ch = chain @ [i]" using res False go by simp
      then show ?thesis using ext [of "\<lambda>q. keep ! q"] None go by (simp add: keeps_parent_def)
    next
      case (Some p)
      obtain q where q: "position_of es p = Some q"
        using res False go Some by (cases "position_of es p") auto
      have "chain_inv es keep (\<lambda>q'. keep ! q' \<or> Some q = Some q') (chain @ [i])"
        using Some q by (intro ext) (simp_all add: keeps_parent_def)
      then show ?thesis
        using "2.IH" [of p q] False go Some q res position_of_SomeD [OF q] by simp
    qed
  qed
qed

lemma closed_keep_mark:
  assumes "closed_keep es keep" and "chain_inv es keep (\<lambda>q. keep ! q) ch"
  shows "closed_keep es (mark ch keep)"
  unfolding closed_keep_def
proof (intro conjI allI impI)
  show "length (mark ch keep) = length es" using assms(1) by (simp add: closed_keep_def)
next
  fix i assume i: "i < length es" and m: "mark ch keep ! i"
  have len: "length keep = length es" using assms(1) by (simp add: closed_keep_def)
  have K: "mark ch keep ! q \<longleftrightarrow> keep ! q \<or> q \<in> set ch" if "q < length es" for q
    using that by (simp add: mark_nth len)
  have "keep ! i \<or> i \<in> set ch" using m i K by simp
  then have "keeps_parent es (\<lambda>q. q \<in> set ch \<or> keep ! q) i"
    using assms i by (auto simp: closed_keep_def chain_inv_def intro: keeps_parent_mono)
  then show "keeps_parent es (\<lambda>q. mark ch keep ! q) i"
    by (rule keeps_parent_mono) (auto simp: K)
qed

definition kept_count :: "bool list \<Rightarrow> nat" where
  "kept_count keep = card {i. i < length keep \<and> keep ! i}"

lemma kept_count_mark:
  assumes "length keep = length es" and "chain_inv es keep K ch"
  shows "kept_count (mark ch keep) = kept_count keep + length ch"
proof -
  have "{i. i < length keep \<and> mark ch keep ! i} = {i. i < length keep \<and> keep ! i} \<union> set ch"
    using assms by (auto simp: mark_nth chain_inv_def)
  moreover have "{i. i < length keep \<and> keep ! i} \<inter> set ch = {}"
    using assms by (auto simp: chain_inv_def)
  moreover have "card (set ch) = length ch" using assms(2) by (simp add: chain_inv_def distinct_card)
  ultimately show ?thesis by (simp add: kept_count_def card_Un_disjoint)
qed

lemma prune_keep_inv:
  assumes "closed_keep es keep" and "used \<le> budget" and "kept_count keep = base + used"
    and "\<forall>i\<in>set cands. i < length es" and "prune_keep es budget cands (used, keep) = (used', keep')"
  shows "closed_keep es keep' \<and> used' \<le> budget \<and> kept_count keep' = base + used'
         \<and> (\<forall>i<length es. keep ! i \<longrightarrow> keep' ! i)"
  using assms
proof (induction es budget cands "(used, keep)" arbitrary: used keep rule: prune_keep.induct)
  case (1 es budget used keep)
  then show ?case by simp
next
  case (2 es budget start rest used keep)
  have len: "length keep = length es" using 2 by (simp add: closed_keep_def)
  obtain ch closed where pc: "prune_chain es keep used budget [] (Some start) = (ch, closed)"
    by (cases "prune_chain es keep used budget [] (Some start)")
  show ?case
  proof (cases "keep ! start \<or> \<not> closed")
    case True
    then show ?thesis using 2 pc by (auto split: if_splits)
  next
    case False
    then have inv: "chain_inv es keep (\<lambda>q. keep ! q) ch \<and> used + length ch \<le> budget"
      using prune_chain_inv [of es keep "Some start" "[]" used budget ch] pc 2
      by (simp add: chain_inv_def)
    note mk = closed_keep_mark [OF "2.prems"(1) inv [THEN conjunct1]]
      kept_count_mark [OF len inv [THEN conjunct1]]
    show ?thesis
      using "2.hyps"(2) [OF _ pc [symmetric] _ mk(1)] False mk(2) inv "2.prems" pc
      by (simp add: mark_nth len)
  qed
qed

section \<open>The active branch is kept\<close>

lemma walk_up_parents:
  "e \<in> set (walk_up es seen c) \<Longrightarrow> se_parent_id e = Some p \<Longrightarrow> p \<in> se_id ` set es
     \<Longrightarrow> p \<in> se_id ` set (walk_up es seen c) \<or> p \<in> set seen"
proof (induction es seen c rule: walk_up.induct)
  case (2 es seen i)
  then obtain x where x: "index_of es i = Some x" "i \<notin> set seen"
    and e: "e = x \<or> e \<in> set (walk_up es (i # seen) (se_parent_id x))"
    by (cases "i \<in> set seen"; cases "index_of es i") auto
  have xi: "se_id x = i" using index_of_SomeD [OF x(1)] by simp
  from e show ?case
  proof
    assume "e \<in> set (walk_up es (i # seen) (se_parent_id x))"
    then show ?thesis using "2.IH" [OF x(2,1)] 2 x xi by auto
  next
    assume [simp]: "e = x"
    show ?thesis
    proof (cases "p \<in> set (i # seen)")
      case True
      then show ?thesis using x xi by auto
    next
      case False
      then obtain y where "index_of es p = Some y"
        using 2 index_of_None [of es p] by (cases "index_of es p") auto
      then show ?thesis using False x 2 index_of_SomeD [of es p y] by auto
    qed
  qed
qed simp

lemma root_to_leaf_parents:
  assumes "validate j = Inr u" and "e \<in> set (root_to_leaf j)" and "se_parent_id e = Some p"
  shows "p \<in> se_id ` set (root_to_leaf j)"
proof -
  have "e \<in> set (sj_entries j)" using assms(2) root_to_leaf_subset by blast
  then have "p \<in> se_id ` set (sj_entries j)"
    using assms(1,3) by (auto simp: validate_iff cursor_ok_def)
  then show ?thesis
    using walk_up_parents [of e "sj_entries j" "[]" "sj_leaf_id j" p] assms(2,3)
    by (simp add: root_to_leaf_def)
qed

lemma leaf_on_path:
  assumes "validate j = Inr u" and "sj_leaf_id j = Some i"
  shows "i \<in> se_id ` set (root_to_leaf j)"
proof -
  have "i \<in> se_id ` set (sj_entries j)" using assms by (simp add: validate_iff cursor_ok_def)
  then obtain x where "index_of (sj_entries j) i = Some x"
    using index_of_None [of "sj_entries j" i] by (cases "index_of (sj_entries j) i") auto
  then show ?thesis using assms(2) index_of_SomeD [of "sj_entries j" i x]
    by (auto simp: root_to_leaf_def)
qed

lemma length_active_keep [simp]: "length (active_keep j) = length (sj_entries j)"
  by (simp add: active_keep_def)

lemma active_keep_nth:
  assumes "distinct (entry_ids (sj_entries j))" and i: "i < length (sj_entries j)"
  shows "active_keep j ! i \<longleftrightarrow> sj_entries j ! i \<in> set (root_to_leaf j)"
proof -
  have "i \<in> set (List.map_filter (\<lambda>e. position_of (sj_entries j) (se_id e)) (root_to_leaf j))
        \<longleftrightarrow> sj_entries j ! i \<in> set (root_to_leaf j)" (is "?l \<longleftrightarrow> ?r")
  proof
    assume ?l
    then obtain e where e: "e \<in> set (root_to_leaf j)" "position_of (sj_entries j) (se_id e) = Some i"
      by (auto simp: List.map_filter_def)
    then have "se_id (sj_entries j ! i) = se_id e" "e \<in> set (sj_entries j)"
      using position_of_SomeD [OF e(2)] root_to_leaf_subset [of j] by auto
    then have "sj_entries j ! i = e"
      using assms by (metis distinct_map entry_ids_def inj_onD nth_mem)
    then show ?r using e by simp
  next
    assume ?r
    then show ?l using position_of_eq [OF assms] by (force simp: List.map_filter_def)
  qed
  then show ?thesis using i by (simp add: active_keep_def mark_nth)
qed

lemma active_keep_closed:
  assumes d: "distinct (entry_ids (sj_entries j))" and v: "validate j = Inr u"
  shows "closed_keep (sj_entries j) (active_keep j)"
  unfolding closed_keep_def
proof (intro conjI allI impI)
  show "length (active_keep j) = length (sj_entries j)" by (simp add: active_keep_def)
next
  fix i assume i: "i < length (sj_entries j)" and "active_keep j ! i"
  then have e: "sj_entries j ! i \<in> set (root_to_leaf j)" by (simp add: active_keep_nth [OF d])
  show "keeps_parent (sj_entries j) (\<lambda>q. active_keep j ! q) i"
  proof (cases "se_parent_id (sj_entries j ! i)")
    case (Some p)
    then obtain x where x: "x \<in> set (root_to_leaf j)" "se_id x = p"
      using root_to_leaf_parents [OF v e Some] by auto
    then obtain k where k: "k < length (sj_entries j)" "sj_entries j ! k = x"
      using root_to_leaf_subset [of j] by (metis in_set_conv_nth subsetD)
    then have "active_keep j ! k" using x by (simp add: active_keep_nth [OF d])
    moreover have "position_of (sj_entries j) p = Some k"
      using position_of_eq [OF d k(1)] k x by simp
    ultimately show ?thesis using Some by (simp add: keeps_parent_def)
  qed (simp add: keeps_parent_def)
qed

lemma active_keep_count:
  assumes d: "distinct (entry_ids (sj_entries j))"
  shows "kept_count (active_keep j) = length (root_to_leaf j)"
proof -
  let ?es = "sj_entries j" and ?path = "root_to_leaf j"
  have "{i. i < length (active_keep j) \<and> active_keep j ! i} = {i. i < length ?es \<and> ?es ! i \<in> set ?path}"
    by (auto simp: active_keep_nth [OF d])
  then have "kept_count (active_keep j) = length (filter (\<lambda>e. e \<in> set ?path) ?es)"
    by (simp add: kept_count_def length_filter_conv_card)
  also have "\<dots> = card (set (filter (\<lambda>e. e \<in> set ?path) ?es))"
    using d distinct_card [of "filter (\<lambda>e. e \<in> set ?path) ?es"]
    by (simp add: entry_ids_def distinct_map del: set_filter)
  also have "set (filter (\<lambda>e. e \<in> set ?path) ?es) = set ?path"
    using root_to_leaf_subset [of j] by auto
  also have "card (set ?path) = length ?path"
    using root_to_leaf_distinct [of j] by (simp add: distinct_card entry_ids_def distinct_map)
  finally show ?thesis .
qed

section \<open>The plan\<close>

lemma walk_up_filter:
  assumes d: "distinct (entry_ids es)" and "es' = filter P es"
  shows "set (walk_up es seen c) \<subseteq> {e. P e} \<Longrightarrow> walk_up es' seen c = walk_up es seen c"
  using assms
proof (induction es seen c rule: walk_up.induct)
  case (2 es seen i)
  note d = "2.prems"(2) and es' = "2.prems"(3)
  show ?case
  proof (cases "i \<in> set seen")
    case False
    show ?thesis
    proof (cases "index_of es i")
      case None
      then have "index_of es' i = None" by (auto simp: index_of_None es')
      then show ?thesis using None by simp
    next
      case (Some x)
      have "P x" using 2 False Some by simp
      then have "x \<in> set es'" "se_id x = i" using index_of_SomeD [OF Some] by (simp_all add: es')
      moreover have "distinct (entry_ids es')" using d by (simp add: es' entry_ids_def distinct_map_filter)
      ultimately have "index_of es' i = Some x" using index_of_eq [of es' x] by simp
      then show ?thesis using 2 False Some by simp
    qed
  qed simp
qed simp

text \<open>The keep vector the plan is computed from, and what it guarantees.\<close>

definition final_keep :: "nat \<Rightarrow> ('j, 't) SessionJournal \<Rightarrow> bool list" where
  "final_keep budget j =
     snd (prune_keep (sj_entries j) budget (prune_candidates (sj_entries j)) (0, active_keep j))"

lemma final_keep_facts:
  assumes d: "distinct (entry_ids (sj_entries j))" and v: "validate j = Inr u"
  shows "closed_keep (sj_entries j) (final_keep budget j)"
    and "kept_count (final_keep budget j) \<le> length (root_to_leaf j) + budget"
    and "i < length (sj_entries j) \<Longrightarrow> sj_entries j ! i \<in> set (root_to_leaf j) \<Longrightarrow> final_keep budget j ! i"
proof -
  obtain used keep where k: "prune_keep (sj_entries j) budget (prune_candidates (sj_entries j)) (0, active_keep j)
      = (used, keep)"
    by (metis surj_pair)
  have cands: "\<forall>i\<in>set (prune_candidates (sj_entries j)). i < length (sj_entries j)"
    by (auto simp: prune_candidates_def)
  note inv = prune_keep_inv [OF active_keep_closed [OF d v] _ _ cands k,
      of "length (root_to_leaf j)", simplified active_keep_count [OF d], simplified]
  have fk: "final_keep budget j = keep" by (simp add: final_keep_def k)
  show "closed_keep (sj_entries j) (final_keep budget j)" using inv fk by simp
  show "kept_count (final_keep budget j) \<le> length (root_to_leaf j) + budget" using inv fk by simp
  show "i < length (sj_entries j) \<Longrightarrow> sj_entries j ! i \<in> set (root_to_leaf j) \<Longrightarrow> final_keep budget j ! i"
    using inv fk by (simp add: active_keep_nth [OF d])
qed

lemma prune_plan_keep:
  "prune_plan threshold budget j =
     (if length (sj_entries j) - length (root_to_leaf j) \<le> threshold then []
      else map (\<lambda>(e, _). se_id e) (filter (\<lambda>(_, kept). \<not> kept) (zip (sj_entries j) (final_keep budget j))))"
  by (simp add: prune_plan_def final_keep_def Let_def)

lemma in_plan:
  assumes d: "distinct (entry_ids es)" and len: "length keep = length es" and i: "i < length es"
  shows "se_id (es ! i) \<in> set (map (\<lambda>(e, _). se_id e) (filter (\<lambda>(_, kept). \<not> kept) (zip es keep)))
           \<longleftrightarrow> \<not> keep ! i"
proof -
  have plan: "x \<in> set (map (\<lambda>(e, _). se_id e) (filter (\<lambda>(_, kept). \<not> kept) (zip es keep)))
      \<longleftrightarrow> (\<exists>k<length es. \<not> keep ! k \<and> x = se_id (es ! k))" for x
    using len by (force simp: set_zip)
  have same: "k = i" if "k < length es" "se_id (es ! i) = se_id (es ! k)" for k
    using that position_of_eq [OF d that(1)] position_of_eq [OF d i] by simp
  show ?thesis unfolding plan using i same by blast
qed

text \<open>Removing a parent-closed complement: the remainder validates and has the same active
  branch.\<close>

lemma remainder_facts:
  assumes d: "distinct (entry_ids (sj_entries j))" and v: "validate j = Inr u"
    and closed: "closed_keep (sj_entries j) keep"
    and path: "\<And>i. i < length (sj_entries j) \<Longrightarrow> sj_entries j ! i \<in> set (root_to_leaf j) \<Longrightarrow> keep ! i"
    and keep: "\<And>i. i < length (sj_entries j) \<Longrightarrow> P (sj_entries j ! i) \<longleftrightarrow> keep ! i"
  shows "validate (j\<lparr>sj_entries := filter P (sj_entries j)\<rparr>) = Inr ()"
    and "root_to_leaf (j\<lparr>sj_entries := filter P (sj_entries j)\<rparr>) = root_to_leaf j"
    and "length (filter P (sj_entries j)) = kept_count keep"
proof -
  let ?es = "sj_entries j"
  have on_path: "P e" if e: "e \<in> set (root_to_leaf j)" for e
  proof -
    have "e \<in> set ?es" using e root_to_leaf_subset by blast
    then obtain i where "i < length ?es" "?es ! i = e" by (auto simp: in_set_conv_nth)
    then show ?thesis using e path [of i] keep [of i] by simp
  qed
  have parents: "cursor_ok (filter P ?es) (se_parent_id e)" if e: "e \<in> set (filter P ?es)" for e
  proof -
    obtain i where i: "i < length ?es" "?es ! i = e" "keep ! i"
    proof -
      have "e \<in> set ?es" "P e" using e by simp_all
      then obtain i where "i < length ?es" "?es ! i = e" by (auto simp: in_set_conv_nth)
      then show thesis using \<open>P e\<close> keep [of i] by (intro that) simp_all
    qed
    then have kp: "keeps_parent ?es (\<lambda>q. keep ! q) i" using closed by (simp add: closed_keep_def)
    show ?thesis
    proof (cases "se_parent_id e")
      case (Some p)
      then obtain q where q: "position_of ?es p = Some q" "keep ! q"
        using kp i by (auto simp: keeps_parent_def)
      then have "?es ! q \<in> set (filter P ?es)" "se_id (?es ! q) = p"
        using position_of_SomeD [OF q(1)] keep by auto
      then show ?thesis using Some by (auto simp: cursor_ok_def image_iff)
    qed (simp add: cursor_ok_def)
  qed
  have leaf: "cursor_ok (filter P ?es) (sj_leaf_id j)"
  proof (cases "sj_leaf_id j")
    case (Some i)
    then obtain x where "x \<in> set (root_to_leaf j)" "se_id x = i" using leaf_on_path [OF v] by auto
    then show ?thesis using on_path root_to_leaf_subset [of j] Some
      by (auto simp: cursor_ok_def image_iff)
  qed (simp add: cursor_ok_def)
  show "validate (j\<lparr>sj_entries := filter P ?es\<rparr>) = Inr ()"
    using parents leaf by (simp add: validate_iff)
  show "root_to_leaf (j\<lparr>sj_entries := filter P ?es\<rparr>) = root_to_leaf j"
    using walk_up_filter [OF d refl, of "[]" "sj_leaf_id j" P] on_path
    by (simp add: root_to_leaf_def subset_iff)
  have "length ?es = length keep" using closed by (simp add: closed_keep_def)
  then show "length (filter P ?es) = kept_count keep"
    using keep by (auto simp: length_filter_conv_card kept_count_def intro!: arg_cong [of _ _ card])
qed

lemma plan_facts:
  fixes threshold budget j
  defines "plan \<equiv> prune_plan threshold budget j"
  defines "rest \<equiv> j\<lparr>sj_entries := filter (\<lambda>e. se_id e \<notin> set plan) (sj_entries j)\<rparr>"
  assumes d: "distinct (entry_ids (sj_entries j))" and v: "validate j = Inr ()"
    and dead: "threshold < length (sj_entries j) - length (root_to_leaf j)"
  shows "validate rest = Inr ()" and "root_to_leaf rest = root_to_leaf j"
    and "length (sj_entries rest) \<le> length (root_to_leaf j) + budget"
    and "length (filter (\<lambda>e. se_id e \<in> set plan) (sj_entries j)) = length plan"
proof -
  let ?es = "sj_entries j" and ?keep = "final_keep budget j"
  note fk = final_keep_facts [OF d v, where budget = budget]
  have len: "length ?keep = length ?es" using fk(1) by (simp add: closed_keep_def)
  have plan: "plan = map (\<lambda>(e, _). se_id e) (filter (\<lambda>(_, kept). \<not> kept) (zip ?es ?keep))"
    using dead by (simp add: plan_def prune_plan_keep)
  have mem: "se_id (?es ! i) \<notin> set plan \<longleftrightarrow> ?keep ! i" if "i < length ?es" for i
    using in_plan [OF d len that] plan by simp
  note rem = remainder_facts [OF d v fk(1) fk(3), of "\<lambda>e. se_id e \<notin> set plan", OF _ _ mem]
  show "validate rest = Inr ()" and "root_to_leaf rest = root_to_leaf j"
    using rem by (simp_all add: rest_def)
  show "length (sj_entries rest) \<le> length (root_to_leaf j) + budget"
    using rem(3) fk(2) by (simp add: rest_def)
  have "length plan = card {i. i < length ?es \<and> \<not> ?keep ! i}"
    unfolding plan length_map length_filter_conv_card
    by (rule arg_cong [of _ _ card]) (use len in auto)
  also have "\<dots> = length (filter (\<lambda>e. se_id e \<in> set plan) ?es)"
    unfolding length_filter_conv_card by (rule arg_cong [of _ _ card]) (use mem in auto)
  finally show "length (filter (\<lambda>e. se_id e \<in> set plan) ?es) = length plan" by simp
qed

section \<open>Properties\<close>

text \<open>C18. A prune plan can always be carried out on a journal that validates and has distinct
  ids: removing the planned entries succeeds, removes exactly as many as planned, the remainder
  validates, and the active branch and the conversation it projects to do not change.\<close>

theorem prune_plan_removable:
  assumes "distinct (entry_ids (sj_entries j))" and "validate j = Inr ()"
  shows "let plan = prune_plan threshold budget j;
             rest = j\<lparr>sj_entries := filter (\<lambda>e. se_id e \<notin> set plan) (sj_entries j)\<rparr>
         in remove_entries (set plan) j = (Inr (length plan), rest) \<and> validate rest = Inr ()
            \<and> root_to_leaf rest = root_to_leaf j \<and> to_messages rest = to_messages j"
proof (cases "length (sj_entries j) - length (root_to_leaf j) \<le> threshold")
  case True
  then show ?thesis using assms(2) by (simp add: prune_plan_keep remove_entries_def)
next
  case False
  then have dead: "threshold < length (sj_entries j) - length (root_to_leaf j)" by simp
  note pf = plan_facts [OF assms dead, of budget]
  show ?thesis
    using pf assms(2) by (simp add: Let_def remove_entries_cases to_messages_def active_messages_def)
qed

text \<open>Pruning bounds the journal: a plan is empty until more than \<open>dead_threshold\<close>
  entries are off the active branch, and past that, what stays after removing it is at most the
  active branch plus \<open>dead_budget\<close> entries.\<close>

theorem prune_plan_bounded:
  assumes "distinct (entry_ids (sj_entries j))" and "validate j = Inr ()"
  shows "if length (sj_entries j) - length (root_to_leaf j) \<le> threshold
         then prune_plan threshold budget j = []
         else length (filter (\<lambda>e. se_id e \<notin> set (prune_plan threshold budget j)) (sj_entries j))
                \<le> length (root_to_leaf j) + budget"
  using plan_facts(3) [OF assms, of threshold budget] by (simp add: prune_plan_keep)

section \<open>Examples\<close>

definition example_entry :: "EntryId \<Rightarrow> EntryId option \<Rightarrow> (unit, nat) SessionEntry" where
  "example_entry i p = session_entry_new i 0 (EkUser i) p 0"

text \<open>A root \<open>a\<close> with two branches \<open>b\<close> and \<open>c\<close>, \<open>d\<close>; the active leaf is \<open>b\<close>.\<close>

definition forked_example :: "(unit, nat) SessionJournal" where
  "forked_example = journal_new\<lparr>sj_leaf_id := Some ''b'',
     sj_entries := [example_entry ''a'' None, example_entry ''b'' (Some ''a''),
                    example_entry ''c'' (Some ''a''), example_entry ''d'' (Some ''c'')]\<rparr>"

lemma forked_example_ok: "distinct (entry_ids (sj_entries forked_example))"
  "validate forked_example = Inr ()"
  by code_simp+

lemma forked_example_plan: "prune_plan 0 (Suc 0) forked_example = [''c'', ''d'']"
  by code_simp

lemma forked_example_path: "entry_ids (root_to_leaf forked_example) = [''a'', ''b'']"
  by code_simp

theorem prune_plan_removable_witness:
  "fst (remove_entries {''c'', ''d''} forked_example) = Inr 2"
  using prune_plan_removable [OF forked_example_ok, of 0 1]
  by (simp add: forked_example_plan Let_def)

theorem prune_plan_bounded_witness:
  "length (filter (\<lambda>e. se_id e \<notin> {''c'', ''d''}) (sj_entries forked_example))
     \<le> length (root_to_leaf forked_example) + 1
   \<and> prune_plan 2 1 forked_example = []"
proof -
  have len: "length (root_to_leaf forked_example) = 2" "length (sj_entries forked_example) = 4"
    using arg_cong [OF forked_example_path, of length] by (simp_all add: entry_ids_def forked_example_def)
  show ?thesis
    using prune_plan_bounded [OF forked_example_ok, of 0 1] prune_plan_bounded [OF forked_example_ok, of 2 1]
    by (simp add: forked_example_plan len)
qed

text \<open>An imported journal with a duplicated id: it validates, so an import accepts it.\<close>

definition duplicate_example :: "(unit, nat) SessionJournal" where
  "duplicate_example = journal_new\<lparr>sj_leaf_id := Some ''b'',
     sj_entries := [example_entry ''a'' None, example_entry ''a'' None, example_entry ''b'' (Some ''a'')]\<rparr>"

text \<open>Distinct ids are needed: the documentation promises that the remainder of a plan
  always validates, but on a validated journal in which an id occurs twice the plan names the
  superseded copy by its id, removal also hits the kept copy, and the plan is refused.\<close>

theorem prune_plan_duplicate_ids:
  "validate duplicate_example = Inr ()
   \<and> prune_plan 0 0 duplicate_example = [''a'']
   \<and> fst (remove_entries (set (prune_plan 0 0 duplicate_example)) duplicate_example)
       = Inl ''entry b missing parent a''"
  by code_simp

end
