(* ===== verification/JournalProps.thy ===== *)
theory JournalProps
  imports JournalRebranch JournalPrune
begin

text \<open>
  The life of a session journal as a step relation over the operations of
  \<open>crates/runtime/src/session_tree.rs\<close>, the invariant of its reachable states, and what the
  invariant gives for the active branch and for import and export.
\<close>

section \<open>The journal's life\<close>

text \<open>A step is one call on a \<open>&mut SessionJournal\<close>, a fork, or an export followed by an
  import. Failing calls are steps too.\<close>

inductive journal_step :: "('j, 't) SessionJournal \<Rightarrow> ('j, 't) SessionJournal \<Rightarrow> bool" where
  step_append: "uuid \<notin> set (entry_ids (sj_entries j)) \<Longrightarrow>
     journal_step j (snd (append_stamped uuid kind created_at j))"
| step_branch: "journal_step j (snd (branch_to i j))"
| step_fork: "fork_from src j = Inr f \<Longrightarrow> journal_step j f"
| step_rebranch: "fresh_ids uuid j \<Longrightarrow>
     journal_step j (snd (rebranch_active_messages_stamped uuid now messages stamps j))"
| step_remove: "journal_step j (snd (remove_entries ids j))"
| step_reimport: "into_journal (import_container_new now source j metadata) = Inr f \<Longrightarrow> journal_step j f"

inductive_cases journal_stepE: "journal_step j j'"

text \<open>A journal starts empty or from a message list.\<close>

definition journal_start :: "('j, 't) SessionJournal \<Rightarrow> bool" where
  "journal_start j \<longleftrightarrow> (\<exists>d. j = with_spawn_depth d)
     \<or> (\<exists>uuid now messages stamps d. inj uuid \<and> j = from_messages_stamped uuid now messages stamps d)"

section \<open>Preservation\<close>

text \<open>Removing entries keeps a list well-formed when every parent of the remainder remains.\<close>

lemma entries_wf_filter_prefix:
  assumes ids: "inj_on se_id (set es)"
    and parents: "\<And>e p. e \<in> set es \<Longrightarrow> P e \<Longrightarrow> se_parent_id e = Some p \<Longrightarrow> \<exists>y\<in>set es. P y \<and> se_id y = p"
  shows "entries_wf xs \<Longrightarrow> set xs \<subseteq> set es \<Longrightarrow> entries_wf (filter P xs)"
proof (induction xs rule: rev_induct)
  case (snoc e xs)
  then have e: "se_id e \<notin> se_id ` set xs" "parent_in (entry_ids xs) e" by simp_all
  have par: "p \<in> se_id ` set (filter P xs)" if Pe: "P e" and pe: "se_parent_id e = Some p" for p
  proof -
    obtain x where x: "x \<in> set xs" "se_id x = p" using e(2) pe by (auto simp: parent_in_iff)
    obtain y where y: "y \<in> set es" "P y" "se_id y = p" using parents [of e p] Pe pe snoc.prems(2) by auto
    have "x = y" using inj_onD [OF ids, of x y] x y snoc.prems(2) by auto
    then show ?thesis using x y by auto
  qed
  show ?case
  proof (cases "P e")
    case True
    have "parent_in (entry_ids (filter P xs)) e"
      using par [OF True] by (cases "se_parent_id e") (simp_all add: parent_in_iff)
    then show ?thesis using snoc e(1) True by auto
  next
    case False
    then show ?thesis using snoc by simp
  qed
qed simp

lemma entries_wf_filter:
  assumes "entries_wf es" and "\<forall>e\<in>set (filter P es). cursor_ok (filter P es) (se_parent_id e)"
  shows "entries_wf (filter P es)"
proof (rule entries_wf_filter_prefix [OF _ _ assms(1) subset_refl])
  show "inj_on se_id (set es)"
    using entries_wf_distinct [OF assms(1)] by (simp add: entry_ids_def distinct_map)
next
  fix e p assume "e \<in> set es" "P e" "se_parent_id e = Some p"
  then have "cursor_ok (filter P es) (Some p)" using assms(2) by force
  then show "\<exists>y\<in>set es. P y \<and> se_id y = p" by (auto simp: cursor_ok_def)
qed

lemma remove_entries_ok: "journal_ok j \<Longrightarrow> journal_ok (snd (remove_entries ids j))"
proof -
  assume ok: "journal_ok j"
  let ?rest = "j\<lparr>sj_entries := filter (\<lambda>e. se_id e \<notin> ids) (sj_entries j)\<rparr>"
  have "journal_ok ?rest" if "validate ?rest = Inr u" for u
    using that ok entries_wf_filter [of "sj_entries j" "\<lambda>e. se_id e \<notin> ids"]
    by (auto simp: journal_ok_def validate_iff)
  then show ?thesis using ok by (simp add: remove_entries_cases split: sum.splits)
qed

lemma rebranch_ok:
  "journal_ok j \<Longrightarrow> fresh_ids uuid j
     \<Longrightarrow> journal_ok (snd (rebranch_active_messages_stamped uuid now messages stamps j))"
  by (rule rebranch_decompose [OF _ _ prod.collapse [symmetric]])

lemma reimport_ok:
  "journal_ok j \<Longrightarrow> into_journal (import_container_new now source j metadata) = Inr f \<Longrightarrow> journal_ok f"
  by (auto simp: into_journal_def import_container_new_def journal_ok_def Let_def split: sum.splits)

lemma from_messages_stamped_facts:
  assumes "inj uuid" and "j = from_messages_stamped uuid now messages stamps d"
  shows "journal_ok j"
    and "root_to_leaf j = message_entries uuid now stamps d 0 messages None"
    and "sj_entries j = message_entries uuid now stamps d 0 messages None"
  using append_from_ok [OF with_spawn_depth_ok assms(1) _ refl refl, of 0 d now stamps messages]
    root_to_leaf_empty [of "with_spawn_depth d"] assms(2)
  by (simp_all add: from_messages_stamped_def) (simp_all add: with_spawn_depth_def journal_new_def)

lemma journal_start_ok: "journal_start j \<Longrightarrow> journal_ok j"
  by (auto simp: journal_start_def with_spawn_depth_ok intro: from_messages_stamped_facts(1))

lemma journal_step_ok: "journal_step j j' \<Longrightarrow> journal_ok j \<Longrightarrow> journal_ok j'"
  by (erule journal_stepE)
    (auto simp: branch_to_ok rebranch_ok remove_entries_ok
      intro: append_stamped_ok(1) fork_from_ok reimport_ok)

interpretation journals: invariant_system journal_start journal_step journal_ok
  by unfold_locales (auto intro: journal_start_ok journal_step_ok)

section \<open>Properties\<close>

text \<open>C15. In every reachable journal ids are distinct, validation succeeds, and the active branch
  is the parent chain of the leaf: it is empty only without a leaf, starts at a root, links each
  entry to the one before it, and ends at the leaf.\<close>

theorem active_branch_is_parent_chain:
  assumes "journal_start j" and "journal_step\<^sup>*\<^sup>* j j'"
  shows "distinct (entry_ids (sj_entries j')) \<and> validate j' = Inr ()
    \<and> (if root_to_leaf j' = [] then sj_leaf_id j' = None
       else se_parent_id (hd (root_to_leaf j')) = None
          \<and> sj_leaf_id j' = Some (se_id (last (root_to_leaf j')))
          \<and> successively (\<lambda>a b. se_parent_id b = Some (se_id a)) (root_to_leaf j'))"
proof -
  have ok: "journal_ok j'" using journals.reachable_inv [OF assms] .
  let ?p = "root_to_leaf j'"
  note link = root_to_leaf_linked(1) [OF ok]
  have "se_parent_id (rev ?p ! k) = Some (se_id (rev ?p ! Suc k))" if "Suc k < length ?p" for k
    using linked_nth [OF link, of k] that by simp
  then have "successively (\<lambda>a b. se_parent_id a = Some (se_id b)) (rev ?p)"
    by (simp add: successively_conv_nth)
  then have chain: "successively (\<lambda>a b. se_parent_id b = Some (se_id a)) ?p" by simp
  show ?thesis
    using ok chain link linked_hd [OF link] linked_last [OF link]
    by (auto simp: journal_ok_validates hd_rev last_rev entries_wf_distinct journal_ok_def [of j'])
qed

text \<open>Building a journal from a message list and reading it back is the identity, with every
  entry stamped with the time given for its message, the clock where the stamps run out, and
  the journal at the requested spawn depth.\<close>

theorem from_messages_round_trip:
  assumes "inj uuid"
  shows "to_messages (from_messages_stamped uuid now messages stamps d) = messages
    \<and> map se_created_at (sj_entries (from_messages_stamped uuid now messages stamps d))
        = map (\<lambda>i. if i < length stamps then stamps ! i else now i) [0..<length messages]
    \<and> validate (from_messages_stamped uuid now messages stamps d) = Inr ()"
  using from_messages_stamped_facts [OF assms refl, of now messages stamps d]
  by (simp add: to_messages_map message_entries_messages message_entries_stamps stamp_at_def
      journal_ok_validates)

text \<open>Exporting a journal and importing it gives back its entries, leaf and depth under the
  current schema version when it validates, and its own validation error otherwise.\<close>

theorem import_round_trip:
  "into_journal (import_container_new now source j metadata) =
     (case validate j of Inl err \<Rightarrow> Inl err
      | Inr _ \<Rightarrow> Inr (j\<lparr>sj_schema_version := CURRENT_JOURNAL_SCHEMA_VERSION\<rparr>))"
proof -
  let ?v = "j\<lparr>sj_schema_version := CURRENT_JOURNAL_SCHEMA_VERSION\<rparr>"
  have "into_journal (import_container_new now source j metadata)
      = (case validate ?v of Inl err \<Rightarrow> Inl err | Inr _ \<Rightarrow> Inr ?v)"
    by (cases j) (simp add: into_journal_def import_container_new_def Let_def split: sum.split)
  moreover have "validate ?v = validate j" by (simp add: validate_def Let_def split: option.split)
  ultimately show ?thesis by simp
qed

section \<open>Witnesses\<close>

lemma example_ids_inj: "inj example_ids"
  by (auto simp: inj_def example_ids_def dest: arg_cong [of _ _ length])

theorem active_branch_is_parent_chain_witness:
  "\<exists>j :: (unit, nat) SessionJournal.
     journal_step\<^sup>*\<^sup>* (from_messages_stamped example_ids id [bare_example] [] 0) j
     \<and> sj_leaf_id j = Some ''z'' \<and> validate j = Inr ()"
proof -
  let ?j0 = "from_messages_stamped example_ids id [bare_example] [] 0 :: (unit, nat) SessionJournal"
  let ?j1 = "snd (append_stamped ''z'' (EkUser ''hi'') 5 ?j0)"
  have start: "journal_start ?j0" 
    unfolding journal_start_def
    by (intro disjI2 exI conjI, rule example_ids_inj, rule refl)
  have "''z'' \<notin> set (entry_ids (sj_entries ?j0))" by code_simp
  then have "journal_step ?j0 ?j1" by (rule step_append)
  then have steps: "journal_step\<^sup>*\<^sup>* ?j0 ?j1" by simp
  have "sj_leaf_id ?j1 = Some ''z''" by (simp add: append_stamped_def Let_def)
  then show ?thesis using active_branch_is_parent_chain [OF start steps] steps by blast
qed

theorem from_messages_round_trip_witness:
  "to_messages (from_messages_stamped example_ids id [bare_example, reply_example] [7] 0)
     = [bare_example, reply_example]"
  using from_messages_round_trip [OF example_ids_inj, of id "[bare_example, reply_example]" "[7]" 0]
  by simp

end
