(* ===== verification/Spec2Isabelle.thy ===== *)
theory Spec2Isabelle
  imports SafetyProps ReadonlyExecProps TomlRules ReadonlyNet HistoryRepairProps LeaseProps LaneProps OutboxProps WorkflowProps WorkflowExecProps WorkflowElevation Budgets Resources Gates Goal AuthorityProps JournalProps
begin

text \<open>
  Verification of the decision core of CodeWhale, a coding agent written in Rust.

  \<^bold>\<open>The program.\<close> A model proposes tool calls; the harness decides which of them run, in
  which order, with whose authority, and what is recorded. The parts modelled here are the
  pure or lock-protected cores of those decisions; the terminal, the servers and the provider
  streams call them.

  \<^bold>\<open>Theories and the code they model.\<close>
  \<^item> \<open>Prelude\<close>: the standard-library functions the sources use (UTF-8 strings as byte lists,
    white space, splitting, saturating machine integers, \<open>max_by_key\<close>) and the locale
    \<open>invariant_system\<close> for invariants of reachable states.
  \<^item> \<open>ShellWords\<close>, \<open>ShellLex\<close>, \<open>ShellSplit\<close>, \<open>ShellResult\<close>, \<open>ShellExpand\<close>: the shell expander
    (\<open>crates/execpolicy/src/shell_expand.rs\<close>): the wrapper table and command words, the readers of
    quoted and nested regions, the splitter with one definition per arm of its \<open>match\<close>, and the
    mutual recursion of \<open>expand\<close> and \<open>record\<close>. \<open>ShellContract\<close> (a locale of relations every
    expansion keeps), \<open>ShellCover\<close>, \<open>ShellHeads\<close>, \<open>ShellSyntax\<close> and \<open>ShellProps\<close> prove its
    guarantees and those of the policy check composed with it.
  \<^item> \<open>SafetyWords\<close>, \<open>CommandSafety\<close>, \<open>CommandAnalysis\<close>, \<open>SafetyProps\<close>: the safety classification of
    commands and the eligibility of prefix grants
    (\<open>crates/execpolicy/src/command_safety.rs\<close>).
  \<^item> \<open>CommandArity\<close>, \<open>ReadonlyLex\<close>, \<open>ReadonlyWords\<close>, \<open>ReadonlyShell\<close>, with \<open>ReadonlySyntax\<close> and
    \<open>ReadonlyProps\<close>: the read-only grammar for agents of the same file: its lexer, the option tables and
    judgement of one command, and the verdicts. \<open>ReadonlyExec\<close>, \<open>ReadonlyExecProps\<close>: how
    \<open>crates/engine/src/tools/shell.rs\<close> hardens and confines a command the grammar admits.
  \<^item> \<open>TomlRules\<close>: rule files and their matcher (\<open>crates/execpolicy/src/matcher.rs\<close>, \<open>toml_rules.rs\<close>).
  \<^item> \<open>ToolRules\<close>, \<open>BashArity\<close>, \<open>DenyMatch\<close>, \<open>PathPolicy\<close>, \<open>PolicyRules\<close>, \<open>ExecPolicy\<close>,
    \<open>ExecPolicyProps\<close>: the execution policy of \<open>crates/execpolicy/src\<close>. A
    \<open>Ruleset\<close> is a record of the same fields; the \<open>Arc<RwLock<..>>\<close> that engine clones share is
    a reference into an explicit store with a poison flag; \<open>ExecPolicyEngine::check\<close> is the
    composition \<open>check\<close> of one definition per stage of the source.
  \<^item> \<open>NetPolicy\<close>, \<open>NetGuard\<close>, \<open>NetProps\<close>, \<open>ReadonlyNet\<close>: the network policy with its session cache
    (\<open>crates/net/src/network_policy.rs\<close>), the guard of fetch targets (\<open>crates/net/src/guard.rs\<close>,
    \<open>crates/engine/src/tools/web/guard.rs\<close>), and the check of network reads of read-only commands.
  \<^item> \<open>Resources\<close>: \<open>crates/tools/src/resources.rs\<close> and the batch planner of
    \<open>crates/engine/src/core/engine/dispatch.rs\<close>.
  \<^item> \<open>BTreeMap\<close>, \<open>Gates\<close>: the workflow gate board of \<open>crates/workflow/src/gates.rs\<close>.
    \<open>WorkflowPlans\<close>, \<open>WorkflowProps\<close>: the compilation of workflow configurations into plans
    (\<open>crates/workflow/src/lib.rs\<close>). \<open>WorkflowIr\<close>, \<open>WorkflowExec\<close>, \<open>WorkflowExecProps\<close>: the node tree of
    the same file with its validation, the fleet it needs and its deterministic executor, whose nested
    recursion ends because expansions consume their nodes; the locale \<open>executor_relation\<close> carries
    relations over every execution. \<open>WorkflowElevation\<close>: the approval card of a workflow
    (\<open>crates/workflow/src/elevation.rs\<close>).
  \<^item> \<open>Lanes\<close>, \<open>LaneProps\<close>: running workflow instances: the durable registry
    (\<open>crates/lane/src/registry.rs\<close>) and the backends (\<open>crates/lane/src/runtime.rs\<close>) as steps of many
    processes.
  \<^item> \<open>Outbox\<close>, \<open>OutboxProps\<close>: the durable event log of \<open>crates/hooks/src/lifecycle_outbox.rs\<close>.
  \<^item> \<open>Decimal\<close>, \<open>Lease\<close>, \<open>LeaseProps\<close>: the lease that keeps a workspace to one driving process
    (\<open>crates/runtime/src/workspace_lease.rs\<close>).
  \<^item> \<open>Budgets\<close>: limits of a turn and of the context window (\<open>crates/runtime/src/turn_budget.rs\<close>,
    \<open>context_budget.rs\<close>).
  \<^item> \<open>GoalLoop\<close>, \<open>Goal\<close>: the goal state machine of \<open>crates/engine/src/tools/goal.rs\<close> and the
    continuation decision of \<open>crates/runtime/src/goal_loop.rs\<close>.
  \<^item> \<open>Narrowing\<close>, \<open>Authority\<close>, \<open>AuthorityProps\<close>: delegation to sub-agents
    (\<open>crates/agent-contract/src\<close>, \<open>crates/protocol/src/fleet.rs\<close>).
  \<^item> \<open>Turns\<close>: transcript messages and the recognition of engine-owned turns
    (\<open>crates/models/src/turn_classify.rs\<close>, \<open>crates/protocol/src/request.rs\<close>).
  \<^item> \<open>Journal\<close>, \<open>JournalPaths\<close>, \<open>JournalRebranch\<close>, \<open>JournalPrune\<close>, \<open>JournalProps\<close>: the session
    journal of \<open>crates/runtime/src/session_tree.rs\<close>.
  \<^item> \<open>HistoryRepair\<close>, \<open>HistoryRepairProps\<close>: the repair of tool calls without results before a
    history is sent (\<open>crates/runtime/src/tool_history_repair.rs\<close>).

  \<^bold>\<open>Conventions.\<close> Definitions keep the source's names, with a prefix or suffix where a name
  would clash. \<open>Result\<close> is a sum with the error on the left; a method on \<open>&mut self\<close> returns
  the new state. Clocks, fresh ids, hash functions and the host platform are arguments; what is
  assumed of them is a named hypothesis (\<open>fresh_ids\<close>, \<open>digest_ok\<close>, \<open>codec_ok\<close>). So are the crates
  \<open>shlex\<close>, \<open>shell_words\<close> and \<open>regex\<close>, the JSON codec of the outbox, URL and address parsing and the
  resolver, the rounding of floating-point numbers, Unicode case folding, \<open>Path::is_absolute\<close>, and what
  the file system, kernel locks and tmux answer to a call. Where several threads or processes act, a step relation
  interleaves their critical sections, and the locale \<open>invariant_system\<close>, interpreted for sessions,
  goals, journals, leases, lanes and network decisions, carries an invariant to every reachable state. \<open>u32\<close> and \<open>u64\<close> fields
  are words of that width with saturating operations written out; \<open>usize\<close> lengths are natural
  numbers. No definition uses fuel: worklists and parent walks terminate by the measures
  given with them (unvisited states, remaining budget), the expander by the shrinking rest of the
  text and its own depth limit of 8, which the source sets.

  \<^bold>\<open>What the lemmas show.\<close> The expander drops no command silently and splits chains, quotes and
  substitutions exactly. The policy check blocks what deny rules name under every mode and
  tightens monotonically; the deny matcher equals a recursive reference; batches preserve
  order and independence; gates, goals and journals keep their invariants in every reachable
  state; snapshots, journals and holder records round-trip; delegation narrows along every chain. A
  command the read-only grammar admits is inert text made of listed reads, and its Git reads run
  hardened; fetch targets are allowed and public; a repaired history is paired and the repair
  idempotent. A workspace has one driver and never loses the lease to a dead one; lanes follow their
  lifecycle in every interleaving; the outbox is the log of its events; plans respect dependencies and
  keep parallel writers apart; an execution launches no more leaves than validation counted; a turn pays for its own time only. Lemmas also pin down where the code
  falls short of what it says, for instance a quoted comment sign in a read-only Git command, glob
  scopes of parallel writers and a torn line of the outbox.

  \<^bold>\<open>Not modelled.\<close> The properties in \<open>ExecPolicyProps\<close> take the expander and the eligibility
  test of prefix grants as arguments, so they hold for every such function; \<open>ShellProps\<close> and
  \<open>SafetyProps\<close> instantiate both. Of the lane and workflow crates, worktrees, lane control, the
  script interpreter, replay and fleet rosters are not modelled, nor are the posts to webhooks. Provider streaming, processes, file and
  database I/O, the terminal UI, servers, and JSON (de)serialisation are outside: they move
  data in and out of the functions modelled here.
\<close>

end
